(* ===== verification/Prelude.thy ===== *)
theory Prelude
  imports Main "HOL-Library.Word" "HOL-Library.Sublist"
begin

text \<open>
  Shared vocabulary of the development: the machine integer types of the Rust sources, ASCII
  classification of bytes, the string operations of the Rust standard library the sources call,
  decimal parsing and printing, and saturating arithmetic. A Rust string is modelled as the list
  of its bytes (\<^typ>\<open>string\<close>); the program's texts are ASCII, where Unicode upper-casing and
  white space coincide with the byte versions below.
\<close>

unbundle bit_operations_syntax

named_theorems ascii_simps \<open>unfolding of ASCII classification\<close>
named_theorems rust_str_simps \<open>unfolding of string operations of the Rust library\<close>
named_theorems int_simps \<open>unfolding of machine integer conversions\<close>

section \<open>Machine integers\<close>

type_synonym u8 = "8 word"
type_synonym u16 = "16 word"
type_synonym u32 = "32 word"
type_synonym u64 = "64 word"

definition I64_MAX :: int where
  [int_simps]: "I64_MAX = 9223372036854775807"

definition I64_MIN :: int where
  [int_simps]: "I64_MIN = - 9223372036854775808"

definition in_i64 :: "int \<Rightarrow> bool" where
  [int_simps]: "in_i64 x \<longleftrightarrow> I64_MIN \<le> x \<and> x \<le> I64_MAX"

text \<open>The value an \<open>i64\<close> operation leaves in the release build, which wraps around
  (\<open>overflow-checks = false\<close>).\<close>

definition i64_wrap :: "int \<Rightarrow> int" where
  "i64_wrap x = (x + 2 ^ 63) mod 2 ^ 64 - 2 ^ 63"

lemma i64_wrap_id: "in_i64 x \<Longrightarrow> i64_wrap x = x"
  by (simp add: i64_wrap_def int_simps)

text \<open>An \<open>i64\<close> subtraction that stops at the ends of the range.\<close>

definition i64_saturating_sub :: "int \<Rightarrow> int \<Rightarrow> int" where
  "i64_saturating_sub a b = max I64_MIN (min I64_MAX (a - b))"

text \<open>The \<open>as i8\<close> cast of an integer: two's complement of the low eight bits.\<close>

definition as_i8 :: "int \<Rightarrow> int" where
  "as_i8 k = (k + 128) mod 256 - 128"

text \<open>Truncating division and remainder, as \<open>/\<close> and \<open>%\<close> on signed integers.\<close>

definition trunc_div :: "int \<Rightarrow> int \<Rightarrow> int" where
  "trunc_div a b = sgn a * sgn b * (\<bar>a\<bar> div \<bar>b\<bar>)"

definition trunc_rem :: "int \<Rightarrow> int \<Rightarrow> int" where
  "trunc_rem a b = a - trunc_div a b * b"

lemma as_i8_id: "- 128 \<le> k \<Longrightarrow> k \<le> 127 \<Longrightarrow> as_i8 k = k"
  by (simp add: as_i8_def)

lemma as_i8_range: "- 128 \<le> as_i8 k \<and> as_i8 k \<le> 127"
proof -
  have "0 \<le> (k + 128) mod 256 \<and> (k + 128) mod 256 < 256" by simp
  then show ?thesis unfolding as_i8_def by linarith
qed

lemma trunc_div_nonneg: "0 \<le> a \<Longrightarrow> 0 < b \<Longrightarrow> trunc_div a b = a div b"
  by (cases "a = 0") (auto simp: trunc_div_def sgn_if)

lemma i64_saturating_sub_ge:
  "limit \<le> I64_MAX \<Longrightarrow> I64_MIN < limit \<Longrightarrow>
     i64_saturating_sub a b \<ge> limit \<longleftrightarrow> a - b \<ge> limit"
  by (auto simp: i64_saturating_sub_def)

section \<open>ASCII\<close>

abbreviation char_code :: "char \<Rightarrow> nat" where
  "char_code \<equiv> of_char"

definition is_ascii_digit :: "char \<Rightarrow> bool" where
  [ascii_simps]: "is_ascii_digit c \<longleftrightarrow> 48 \<le> char_code c \<and> char_code c \<le> 57"

definition is_ascii_uppercase :: "char \<Rightarrow> bool" where
  [ascii_simps]: "is_ascii_uppercase c \<longleftrightarrow> 65 \<le> char_code c \<and> char_code c \<le> 90"

definition is_ascii_lowercase :: "char \<Rightarrow> bool" where
  [ascii_simps]: "is_ascii_lowercase c \<longleftrightarrow> 97 \<le> char_code c \<and> char_code c \<le> 122"

definition is_ascii_alphabetic :: "char \<Rightarrow> bool" where
  [ascii_simps]: "is_ascii_alphabetic c \<longleftrightarrow> is_ascii_uppercase c \<or> is_ascii_lowercase c"

definition is_ascii_alphanumeric :: "char \<Rightarrow> bool" where
  [ascii_simps]: "is_ascii_alphanumeric c \<longleftrightarrow> is_ascii_alphabetic c \<or> is_ascii_digit c"

text \<open>The ASCII part of \<open>char::is_whitespace\<close>: tab to carriage return, and space.\<close>

definition is_whitespace :: "char \<Rightarrow> bool" where
  [ascii_simps]: "is_whitespace c \<longleftrightarrow> (9 \<le> char_code c \<and> char_code c \<le> 13) \<or> char_code c = 32"

text \<open>The range test \<open>(lo..=hi).contains(&c)\<close>.\<close>

definition char_between :: "char \<Rightarrow> char \<Rightarrow> char \<Rightarrow> bool" where
  [ascii_simps]: "char_between lo hi c \<longleftrightarrow> char_code lo \<le> char_code c \<and> char_code c \<le> char_code hi"

definition to_ascii_upper :: "char \<Rightarrow> char" where
  "to_ascii_upper c = (if is_ascii_lowercase c then char_of (char_code c - 32) else c)"

text \<open>The byte \<open>b + d\<close>, as in \<open>(b'A' + d) as char\<close>.\<close>

definition char_add :: "char \<Rightarrow> nat \<Rightarrow> char" where
  "char_add c d = char_of (char_code c + d)"

text \<open>The difference \<open>c - b\<close> of two bytes with \<open>b \<le> c\<close>.\<close>

definition char_diff :: "char \<Rightarrow> char \<Rightarrow> nat" where
  "char_diff c b = char_code c - char_code b"

lemma to_ascii_upper_id: "\<not> is_ascii_lowercase c \<Longrightarrow> to_ascii_upper c = c"
  by (simp add: to_ascii_upper_def)

lemma of_char_char_add: "char_code b + d < 256 \<Longrightarrow> char_code (char_add b d) = char_code b + d"
  by (simp add: char_add_def)

lemma char_add_diff: "char_code b \<le> char_code c \<Longrightarrow> char_add b (char_diff c b) = c"
  by (simp add: char_add_def char_diff_def)

lemma to_ascii_upper_idem [simp]: "to_ascii_upper (to_ascii_upper c) = to_ascii_upper c"
  by (auto simp: to_ascii_upper_def is_ascii_lowercase_def)

section \<open>Strings\<close>

definition to_upper :: "string \<Rightarrow> string" where
  "to_upper s = map to_ascii_upper s"

definition trim_start :: "string \<Rightarrow> string" where
  "trim_start s = dropWhile is_whitespace s"

definition trim_end :: "string \<Rightarrow> string" where
  "trim_end s = rev (dropWhile is_whitespace (rev s))"

definition trim :: "string \<Rightarrow> string" where
  "trim s = trim_end (trim_start s)"

definition starts_with :: "string \<Rightarrow> string \<Rightarrow> bool" where
  [rust_str_simps]: "starts_with s p \<longleftrightarrow> take (length p) s = p"

definition ends_with :: "string \<Rightarrow> string \<Rightarrow> bool" where
  [rust_str_simps]: "ends_with s p \<longleftrightarrow>
     length p \<le> length s \<and> drop (length s - length p) s = p"

text \<open>\<open>strip_prefix\<close> and \<open>strip_suffix\<close>.\<close>

definition strip_prefix :: "string \<Rightarrow> string \<Rightarrow> string option" where
  [rust_str_simps]: "strip_prefix p s = (if starts_with s p then Some (drop (length p) s) else None)"

definition strip_suffix :: "string \<Rightarrow> string \<Rightarrow> string option" where
  [rust_str_simps]: "strip_suffix p s = (if ends_with s p then Some (take (length s - length p) s) else None)"

text \<open>A string between apostrophes, as the error messages print names.\<close>

definition quoted :: "string \<Rightarrow> string" where
  "quoted s = [CHR 0x27] @ s @ [CHR 0x27]"

text \<open>\<open>split(c)\<close> on one separator byte: always at least one component.\<close>

fun split_char :: "char \<Rightarrow> string \<Rightarrow> string list" where
  "split_char c [] = [[]]"
| "split_char c (x # xs) =
     (if x = c then [] # split_char c xs
      else case split_char c xs of
             [] \<Rightarrow> [[x]]
           | w # ws \<Rightarrow> (x # w) # ws)"

text \<open>\<open>split_whitespace\<close>: the maximal runs of non-blank bytes.\<close>

fun split_ws_aux :: "string \<Rightarrow> string \<Rightarrow> string list" where
  "split_ws_aux acc [] = (if acc = [] then [] else [rev acc])"
| "split_ws_aux acc (x # xs) =
     (if is_whitespace x then (if acc = [] then split_ws_aux [] xs else rev acc # split_ws_aux [] xs)
      else split_ws_aux (x # acc) xs)"

definition split_whitespace :: "string \<Rightarrow> string list" where
  "split_whitespace s = split_ws_aux [] s"

text \<open>
  \<open>iter().max_by_key(f)\<close>: the last of the elements with the greatest key (the library returns the
  later element when two compare equal).
\<close>

fun max_by_key :: "('a \<Rightarrow> nat) \<Rightarrow> 'a list \<Rightarrow> 'a option" where
  "max_by_key f [] = None"
| "max_by_key f (x # xs) =
     (case max_by_key f xs of
        None \<Rightarrow> Some x
      | Some y \<Rightarrow> if f x \<le> f y then Some y else Some x)"

text \<open>\<open>iter().position(p)\<close> and \<open>iter().rposition(p)\<close>.\<close>

fun position :: "('a \<Rightarrow> bool) \<Rightarrow> 'a list \<Rightarrow> nat option" where
  "position p [] = None"
| "position p (x # xs) = (if p x then Some 0 else map_option Suc (position p xs))"

fun rposition :: "('a \<Rightarrow> bool) \<Rightarrow> 'a list \<Rightarrow> nat option" where
  "rposition p [] = None"
| "rposition p (x # xs) =
     (case rposition p xs of Some i \<Rightarrow> Some (Suc i) | None \<Rightarrow> if p x then Some 0 else None)"

lemma position_Some:
  "position p xs = Some i \<Longrightarrow> i < length xs \<and> p (xs ! i) \<and> (\<forall>j<i. \<not> p (xs ! j))"
proof (induction xs arbitrary: i)
  case Nil
  then show ?case by simp
next
  case (Cons x xs)
  show ?case
  proof (cases "p x")
    case True
    with Cons.prems show ?thesis by simp
  next
    case False
    with Cons.prems obtain k where k: "position p xs = Some k" "i = Suc k"
      by auto
    with Cons.IH [OF k(1)] False show ?thesis
      by (auto simp: nth_Cons split: nat.splits)
  qed
qed

lemma position_nth_distinct:
  "distinct xs \<Longrightarrow> i < length xs \<Longrightarrow> position (\<lambda>c. c = xs ! i) xs = Some i"
proof (induction xs arbitrary: i)
  case Nil
  then show ?case by simp
next
  case (Cons x xs)
  then show ?case by (cases i) auto
qed

lemma max_by_key_in: "max_by_key f xs = Some y \<Longrightarrow> y \<in> set xs"
  by (induction xs arbitrary: y) (auto split: option.splits if_splits)

lemma max_by_key_None [simp]: "max_by_key f xs = None \<longleftrightarrow> xs = []"
  by (cases xs) (auto split: option.splits)

lemma max_by_key_max: "max_by_key f xs = Some y \<Longrightarrow> x \<in> set xs \<Longrightarrow> f x \<le> f y"
proof (induction xs arbitrary: y)
  case Nil
  then show ?case by simp
next
  case (Cons a xs)
  show ?case
  proof (cases "max_by_key f xs")
    case None
    with Cons.prems show ?thesis by simp
  next
    case (Some z)
    with Cons.IH [OF Some] Cons.prems show ?thesis
      by (auto split: if_splits dest: order_trans)
  qed
qed

lemma to_upper_idem [simp]: "to_upper (to_upper s) = to_upper s"
  by (simp add: to_upper_def)

lemma to_upper_id: "\<forall>c\<in>set s. \<not> is_ascii_lowercase c \<Longrightarrow> to_upper s = s"
  by (induction s) (auto simp: to_upper_def to_ascii_upper_id)

lemma trim_start_id: "s = [] \<or> \<not> is_whitespace (hd s) \<Longrightarrow> trim_start s = s"
  by (cases s) (auto simp: trim_start_def)

lemma trim_end_id: "s = [] \<or> \<not> is_whitespace (last s) \<Longrightarrow> trim_end s = s"
  by (cases s rule: rev_cases) (auto simp: trim_end_def)

lemma trim_id:
  assumes "\<forall>c\<in>set s. \<not> is_whitespace c"
  shows "trim s = s"
proof -
  have "trim_start s = s" using assms by (intro trim_start_id) (cases s; auto)
  moreover have "trim_end s = s" using assms by (intro trim_end_id) (cases s rule: rev_cases; auto)
  ultimately show ?thesis by (simp add: trim_def)
qed

lemma dropWhile_all: "list_all p s \<Longrightarrow> dropWhile p s = []"
  by (induction s) auto

lemma trim_end_append_blank: "list_all is_whitespace ws \<Longrightarrow> trim_end (s @ ws) = trim_end s"
  by (simp add: trim_end_def dropWhile_append list_all_iff)

lemma trim_append_blank: "list_all is_whitespace ws \<Longrightarrow> trim (s @ ws) = trim s"
  by (cases "list_all is_whitespace s")
    (auto simp: trim_def trim_start_def dropWhile_append dropWhile_all trim_end_append_blank list_all_iff)

lemma trim_prepend_blank: "list_all is_whitespace ws \<Longrightarrow> trim (ws @ s) = trim s"
  by (simp add: trim_def trim_start_def dropWhile_append list_all_iff)

lemma trim_eq_Nil: "trim s = [] \<longleftrightarrow> list_all is_whitespace s"
proof
  assume "trim s = []"
  then have "\<forall>x\<in>set (dropWhile is_whitespace s). is_whitespace x"
    by (simp add: trim_def trim_start_def trim_end_def dropWhile_eq_Nil_conv)
  then have "dropWhile is_whitespace s = []" by (metis hd_dropWhile hd_in_set)
  then show "list_all is_whitespace s" by (simp add: dropWhile_eq_Nil_conv list_all_iff)
qed (simp add: trim_def trim_start_def trim_end_def dropWhile_all)

lemma split_char_nonempty [simp]: "split_char c s \<noteq> []"
  by (induction s) (auto split: list.splits)

lemma split_char_single: "c \<notin> set s \<Longrightarrow> split_char c s = [s]"
  by (induction s) auto

lemma split_char_sub: "w \<in> set (split_char c s) \<Longrightarrow> set w \<subseteq> set s - {c}"
proof (induction s arbitrary: w)
  case Nil
  then show ?case by simp
next
  case (Cons x xs)
  obtain v vs where v: "split_char c xs = v # vs"
    by (cases "split_char c xs") auto
  with Cons show ?case by (auto split: if_splits) (fastforce+)
qed

lemma char_run_in:
  assumes "map char_code s = [a..<b]"
  shows "a \<le> char_code c \<and> char_code c < b \<longleftrightarrow> c \<in> set s"
proof -
  have "c \<in> set s \<longleftrightarrow> char_code c \<in> char_code ` set s" by (auto dest: injD [OF inj_of_char])
  also have "char_code ` set s = {a..<b}" using assms by (metis set_map set_upt atLeastLessThan_upt)
  finally show ?thesis by auto
qed

lemma digit_in: "is_ascii_digit c \<longleftrightarrow> c \<in> set ''0123456789''"
  using char_run_in [of "''0123456789''" 48 58 c]
  by (simp add: is_ascii_digit_def upt_rec less_Suc_eq_le [symmetric] del: list.set)

lemma upper_in: "is_ascii_uppercase c \<longleftrightarrow> c \<in> set ''ABCDEFGHIJKLMNOPQRSTUVWXYZ''"
  using char_run_in [of "''ABCDEFGHIJKLMNOPQRSTUVWXYZ''" 65 91 c]
  by (simp add: is_ascii_uppercase_def upt_rec less_Suc_eq_le [symmetric] del: list.set)

section \<open>Decimal numbers\<close>

text \<open>\<open>format!("{}", n)\<close> for an unsigned number.\<close>

fun nat_to_dec :: "nat \<Rightarrow> string" where
  "nat_to_dec n =
     (if n < 10 then [char_add CHR ''0'' n]
      else nat_to_dec (n div 10) @ [char_add CHR ''0'' (n mod 10)])"

declare nat_to_dec.simps [simp del]

definition int_to_dec :: "int \<Rightarrow> string" where
  "int_to_dec k = (if k < 0 then CHR ''-'' # nat_to_dec (nat (- k)) else nat_to_dec (nat k))"

text \<open>\<open>format!("{:03}", n)\<close>.\<close>

definition pad3 :: "nat \<Rightarrow> string" where
  "pad3 n = (let d = nat_to_dec n in replicate (3 - length d) CHR ''0'' @ d)"

text \<open>The value of a digit string, most significant digit first.\<close>

definition dec_value :: "string \<Rightarrow> nat" where
  "dec_value s = foldl (\<lambda>v c. 10 * v + char_diff c CHR ''0'') 0 s"

text \<open>\<open>str::parse::<i32>\<close>: an optional sign, at least one digit, no overflow.\<close>

definition parse_i32 :: "string \<Rightarrow> int option" where
  "parse_i32 s =
     (let neg = (s \<noteq> [] \<and> hd s = CHR ''-'');
          body = (if s \<noteq> [] \<and> (hd s = CHR ''-'' \<or> hd s = CHR ''+'') then tl s else s);
          v = (if neg then - int (dec_value body) else int (dec_value body))
      in if body \<noteq> [] \<and> list_all is_ascii_digit body \<and> - (2 ^ 31) \<le> v \<and> v < 2 ^ 31
         then Some v else None)"

lemma dec_value_append: "dec_value (s @ [c]) = 10 * dec_value s + char_diff c CHR ''0''"
  by (simp add: dec_value_def)

lemma digit_char_add:
  "d < 10 \<Longrightarrow> char_diff (char_add CHR ''0'' d) CHR ''0'' = d \<and> is_ascii_digit (char_add CHR ''0'' d)"
  by (simp add: char_diff_def is_ascii_digit_def of_char_char_add)

lemma dec_value_nat_to_dec [simp]: "dec_value (nat_to_dec n) = n"
proof (induction n rule: nat_to_dec.induct)
  case (1 n)
  show ?case
  proof (cases "n < 10")
    case True
    then show ?thesis
      by (subst nat_to_dec.simps) (simp add: dec_value_def digit_char_add)
  next
    case False
    with 1 show ?thesis
      by (subst nat_to_dec.simps) (simp add: dec_value_append digit_char_add)
  qed
qed

lemma nat_to_dec_digits: "nat_to_dec n \<noteq> [] \<and> list_all is_ascii_digit (nat_to_dec n)"
proof (induction n rule: nat_to_dec.induct)
  case (1 n)
  then show ?case
    by (cases "n < 10") (subst nat_to_dec.simps, simp add: digit_char_add)+
qed

definition nonblank :: "string \<Rightarrow> bool" where
  "nonblank w \<longleftrightarrow> w \<noteq> [] \<and> list_all (\<lambda>c. \<not> is_whitespace c) w"

lemma split_ws_aux_word:
  "list_all (\<lambda>c. \<not> is_whitespace c) w \<Longrightarrow> split_ws_aux acc (w @ rest) = split_ws_aux (rev w @ acc) rest"
  by (induction w arbitrary: acc) auto

lemma split_whitespace_last: "nonblank w \<Longrightarrow> split_whitespace w = [w]"
  using split_ws_aux_word [of w "[]" "[]"] by (simp add: nonblank_def split_whitespace_def)

lemma split_whitespace_word: "nonblank w \<Longrightarrow> split_whitespace (w @ '' '' @ rest) = w # split_whitespace rest"
  using split_ws_aux_word [of w "[]" "'' '' @ rest"] by (simp add: nonblank_def split_whitespace_def is_whitespace_def)

lemma dec_value_zeros: "dec_value (replicate z CHR ''0'' @ s) = dec_value s"
  by (induction z) (simp_all add: dec_value_def char_diff_def)

end
