(* ===== verification/Bits.thy ===== *)
theory Bits
  imports Prelude
begin

text \<open>
  Bit buffers, most significant bit first, as every layer of the FT8 codec uses them: reading and
  setting bit \<open>i\<close> of a byte array (\<open>bytes[i / 8] & (0x80 >> (i % 8))\<close>), collecting bits into an
  integer and pushing the bits of an integer. The read/write laws are an interface
  (\<open>bit_store\<close>), interpreted on byte lists, from which the packing loops are derived.
\<close>

named_theorems bit_buffer \<open>laws of bit buffers\<close>

section \<open>Definitions\<close>

definition msb_mask :: "nat \<Rightarrow> u8" where
  "msb_mask i = drop_bit (i mod 8) 128"

definition get_msb :: "u8 list \<Rightarrow> nat \<Rightarrow> bool" where
  "get_msb bs i \<longleftrightarrow> bs ! (i div 8) AND msb_mask i \<noteq> 0"

definition put_msb :: "u8 list \<Rightarrow> nat \<Rightarrow> u8 list" where
  "put_msb bs i = bs[i div 8 := bs ! (i div 8) OR msb_mask i]"

text \<open>The loop \<open>for i in .. { if bits[i] { bytes[i / 8] |= 0x80 >> (i % 8) } }\<close>.\<close>

definition pack_msb :: "nat \<Rightarrow> bool list \<Rightarrow> u8 list" where
  "pack_msb n bits =
     fold (\<lambda>i bs. if bits ! i then put_msb bs i else bs) [0..<length bits] (replicate n 0)"

text \<open>The loop \<open>for i in 0..n { bits.push(bytes[i / 8] & (0x80 >> (i % 8)) != 0) }\<close>.\<close>

definition unpack_msb :: "nat \<Rightarrow> u8 list \<Rightarrow> bool list" where
  "unpack_msb n bs = map (get_msb bs) [0..<n]"

text \<open>The loop \<open>for i in (0..n).rev() { bits.push((w >> i) & 1 != 0) }\<close>.\<close>

definition word_to_bits :: "nat \<Rightarrow> 'a::len word \<Rightarrow> bool list" where
  "word_to_bits n w = map (\<lambda>i. drop_bit i w AND 1 \<noteq> 0) (rev [0..<n])"

text \<open>The loop \<open>for (i, bit) in bits { if bit { value |= 1 << (len - 1 - i) } }\<close>.\<close>

definition bits_to_word :: "bool list \<Rightarrow> 'a::len word" where
  "bits_to_word bits =
     fold (\<lambda>i v. if bits ! i then v OR push_bit (length bits - 1 - i) 1 else v)
          [0..<length bits] 0"

definition bits_to_u32 :: "bool list \<Rightarrow> u32" where
  "bits_to_u32 bits = bits_to_word bits"

definition bits_to_u64 :: "bool list \<Rightarrow> u64" where
  "bits_to_u64 bits = bits_to_word bits"

text \<open>The sub-slice \<open>bits[a..b]\<close>.\<close>

definition slice :: "nat \<Rightarrow> nat \<Rightarrow> 'a list \<Rightarrow> 'a list" where
  "slice a b xs = take (b - a) (drop a xs)"

text \<open>The error type of the codec.\<close>

datatype ft8_error =
    InvalidSampleRate nat nat
  | InvalidWindowSize nat nat
  | FftError string
  | SignalProcessingError string
  | MessageDecodingError string
  | SyncError string
  | ConfigError string
  | InsufficientData nat nat
  | InvalidDataSize nat nat

type_synonym 'a ft8_result = "ft8_error + 'a"

section \<open>The interface of a bit store\<close>

locale bit_store =
  fixes get :: "'s \<Rightarrow> nat \<Rightarrow> bool"
    and put :: "'s \<Rightarrow> nat \<Rightarrow> 's"
    and cap :: "'s \<Rightarrow> nat"
  assumes get_put: "i < cap s \<Longrightarrow> j < cap s \<Longrightarrow> get (put s i) j \<longleftrightarrow> j = i \<or> get s j"
    and cap_put: "cap (put s i) = cap s"
begin

lemma cap_fill: "cap (fold (\<lambda>i s. if b i then put s i else s) is s) = cap s"
  by (induction "is" arbitrary: s) (auto simp: cap_put)

lemma get_fill:
  "\<forall>i\<in>set is. i < cap s \<Longrightarrow> j < cap s \<Longrightarrow>
     get (fold (\<lambda>i s. if b i then put s i else s) is s) j \<longleftrightarrow> get s j \<or> (j \<in> set is \<and> b j)"
  by (induction "is" arbitrary: s) (auto simp: get_put cap_put)

end

section \<open>Byte lists are a bit store\<close>

lemma bit_128: "bit (128::u8) k \<longleftrightarrow> k = 7"
proof -
  have "bit (push_bit 7 1 :: u8) k \<longleftrightarrow> k = 7"
    by (auto simp: bit_simps simp del: push_bit_of_1)
  then show ?thesis by simp
qed

lemma bit_msb_mask: "bit (msb_mask i) k \<longleftrightarrow> k = 7 - i mod 8"
proof -
  have "bit (msb_mask i) k \<longleftrightarrow> i mod 8 + k = 7"
    by (simp only: msb_mask_def bit_drop_bit_eq comp_apply bit_128)
  also have "\<dots> \<longleftrightarrow> k = 7 - i mod 8"
    using mod_less_divisor [of 8 i] by linarith
  finally show ?thesis .
qed

lemma and_msb_mask: "w AND msb_mask i \<noteq> 0 \<longleftrightarrow> bit w (7 - i mod 8)"
proof
  assume nz: "w AND msb_mask i \<noteq> 0"
  have "w AND msb_mask i = 0" if "\<not> bit w (7 - i mod 8)"
    using that by (intro bit_word_eqI) (auto simp: bit_and_iff bit_msb_mask)
  with nz show "bit w (7 - i mod 8)" by blast
next
  assume "bit w (7 - i mod 8)"
  then have "bit (w AND msb_mask i) (7 - i mod 8)" by (simp add: bit_and_iff bit_msb_mask)
  then show "w AND msb_mask i \<noteq> 0" by (metis bit_0_eq bot_apply bot_bool_def)
qed

lemma get_msb_bit: "get_msb bs i \<longleftrightarrow> bit (bs ! (i div 8)) (7 - i mod 8)"
  by (simp add: get_msb_def and_msb_mask)

lemma msb_index_eq: "(i::nat) div 8 = j div 8 \<Longrightarrow> 7 - i mod 8 = 7 - j mod 8 \<longleftrightarrow> i = j"
  by (metis diff_diff_cancel div_mult_mod_eq less_Suc_eq_le mod_less_divisor
      numeral_eq_Suc pred_numeral_simps(3) zero_less_Suc semiring_norm(26) BitM.simps(1)
      BitM.simps(2) pred_numeral_simps(2))

lemma get_put_msb:
  assumes "i < 8 * length bs" and "j < 8 * length bs"
  shows "get_msb (put_msb bs i) j \<longleftrightarrow> j = i \<or> get_msb bs j"
proof (cases "i div 8 = j div 8")
  case True
  have "j div 8 < length bs" using assms(2) by (simp add: less_mult_imp_div_less mult.commute)
  with True show ?thesis
    using msb_index_eq [of j i]
    by (auto simp: get_msb_bit put_msb_def bit_or_iff bit_msb_mask)
next
  case False
  then show ?thesis by (auto simp: get_msb_bit put_msb_def)
qed

interpretation msb: bit_store get_msb put_msb "\<lambda>bs. 8 * length bs"
proof
  show "i < 8 * length s \<Longrightarrow> j < 8 * length s \<Longrightarrow> get_msb (put_msb s i) j \<longleftrightarrow> j = i \<or> get_msb s j"
    for i j s by (rule get_put_msb)
  show "8 * length (put_msb s i) = 8 * length s" for s i by (simp add: put_msb_def)
qed

lemma length_pack_msb [simp]: "length (pack_msb n bits) = n"
  using msb.cap_fill [of "\<lambda>i. bits ! i" "[0..<length bits]" "replicate n 0"]
  by (simp add: pack_msb_def)

lemma get_pack_msb [bit_buffer]:
  assumes "length bits \<le> 8 * n" and "j < 8 * n"
  shows "get_msb (pack_msb n bits) j \<longleftrightarrow> j < length bits \<and> bits ! j"
proof -
  have "j div 8 < n" using assms(2) by (simp add: less_mult_imp_div_less mult.commute)
  then have "\<not> get_msb (replicate n 0) j" by (simp add: get_msb_bit)
  moreover have "get_msb (pack_msb n bits) j \<longleftrightarrow>
      get_msb (replicate n 0) j \<or> (j \<in> set [0..<length bits] \<and> bits ! j)"
    unfolding pack_msb_def using assms by (intro msb.get_fill) auto
  ultimately show ?thesis by simp
qed

lemma length_unpack_msb [simp]: "length (unpack_msb n bs) = n"
  by (simp add: unpack_msb_def)

lemma unpack_pack_msb [bit_buffer]:
  "length bits \<le> 8 * n \<Longrightarrow> unpack_msb (length bits) (pack_msb n bits) = bits"
  by (intro nth_equalityI) (auto simp: unpack_msb_def get_pack_msb)

section \<open>Integers and bit lists\<close>

lemma length_word_to_bits [simp]: "length (word_to_bits n w) = n"
  by (simp add: word_to_bits_def)

lemma drop_bit_and_1: "drop_bit i w AND 1 \<noteq> 0 \<longleftrightarrow> bit w i" for w :: "'a::len word"
  by (simp add: and_one_eq bit_iff_odd_drop_bit odd_iff_mod_2_eq_one)

lemma nth_word_to_bits: "k < n \<Longrightarrow> word_to_bits n w ! k \<longleftrightarrow> bit w (n - 1 - k)"
  by (simp add: word_to_bits_def drop_bit_and_1 rev_nth)

lemma bit_bits_to_word_aux:
  assumes "m \<le> length bits" and "length bits \<le> LENGTH('a::len)"
  shows "bit (fold (\<lambda>i v. if bits ! i then v OR push_bit (length bits - 1 - i) 1 else v)
                   [0..<m] (0::'a word)) k \<longleftrightarrow>
         k < length bits \<and> length bits - 1 - k < m \<and> bits ! (length bits - 1 - k)"
  using assms
proof (induction m)
  case 0
  then show ?case by simp
next
  case (Suc m)
  define n where "n = length bits"
  have n: "m < n" "n \<le> LENGTH('a)" using Suc.prems by (auto simp: n_def)
  have b1: "bit (push_bit (n - 1 - m) 1 :: 'a word) k \<longleftrightarrow> k = n - 1 - m"
    using n by (auto simp: bit_simps)
  have e: "k < n \<and> n - 1 - k < Suc m \<longleftrightarrow> k < n \<and> (n - 1 - k < m \<or> k = n - 1 - m)"
    using n by auto
  have e2: "k = n - 1 - m \<Longrightarrow> k < n \<and> n - 1 - k = m" using n by auto
  show ?case
    using Suc b1 e e2 unfolding n_def [symmetric]
    by (auto simp: bit_or_iff)
qed

lemma bit_bits_to_word:
  "length bits \<le> LENGTH('a::len) \<Longrightarrow>
     bit (bits_to_word bits :: 'a word) k \<longleftrightarrow> k < length bits \<and> bits ! (length bits - 1 - k)"
  by (auto simp: bits_to_word_def bit_bits_to_word_aux)

lemma bits_to_word_to_bits:
  "n \<le> LENGTH('a::len) \<Longrightarrow> bits_to_word (word_to_bits n w) = take_bit n (w :: 'a word)"
  by (rule bit_word_eqI) (auto simp: bit_bits_to_word nth_word_to_bits bit_take_bit_iff)

lemma word_to_bits_to_word:
  "length bits \<le> LENGTH('a::len) \<Longrightarrow>
     word_to_bits (length bits) (bits_to_word bits :: 'a word) = bits"
  by (rule nth_equalityI) (auto simp: nth_word_to_bits bit_bits_to_word)

lemma take_bit_of_nat: "x < 2 ^ n \<Longrightarrow> take_bit n (of_nat x :: 'a::len word) = of_nat x"
  by (metis take_bit_nat_eq_self take_bit_of_nat)

lemma unat_of_nat_small: "x < 2 ^ n \<Longrightarrow> n \<le> LENGTH('a::len) \<Longrightarrow> unat (of_nat x :: 'a word) = x"
  by (simp add: unat_of_nat take_bit_nat_eq_self order_less_le_trans)

section \<open>Bit fields\<close>

lemma not_bit_above:
  fixes w :: "'a::len word"
  assumes "unat w < 2 ^ n" and "n \<le> k"
  shows "\<not> bit w k"
proof
  assume "bit w k"
  then have "bit (take_bit n (unat w)) k" using assms(1) by (simp add: bit_unsigned_iff take_bit_nat_eq_self)
  then show False using assms(2) by (simp add: bit_take_bit_iff)
qed

lemma word_to_bits_8:
  "word_to_bits 8 b = [bit b 7, bit b 6, bit b 5, bit b 4, bit b 3, bit b 2, bit b 1, bit b 0]"
  by (simp add: word_to_bits_def drop_bit_and_1 upt_rec numeral_eq_Suc)

lemma word_to_bits_split: "word_to_bits (m + n) w = word_to_bits m (drop_bit n w) @ word_to_bits n w"
  by (rule nth_equalityI) (auto simp: nth_word_to_bits nth_append bit_drop_bit_eq add.commute)

lemma word_to_bits_ucast:
  "n \<le> LENGTH('b::len) \<Longrightarrow> word_to_bits n (ucast (w :: 'a::len word) :: 'b word) = word_to_bits n w"
  by (rule nth_equalityI) (auto simp: nth_word_to_bits bit_ucast_iff)

lemma word_to_bits_or_field:
  fixes v w :: "'a::len word"
  assumes "\<And>k. n \<le> k \<Longrightarrow> \<not> bit w k" and "m + n \<le> LENGTH('a)"
  shows "word_to_bits (m + n) (push_bit n v OR w) = word_to_bits m v @ word_to_bits n w"
  using assms(2) assms(1)
  by (intro nth_equalityI) (auto simp: nth_word_to_bits nth_append bit_or_iff bit_push_bit_iff add.commute)

lemma word_to_bits_push:
  fixes v :: "'a::len word"
  assumes "m + n \<le> LENGTH('a)"
  shows "word_to_bits (m + n) (push_bit n v) = word_to_bits m v @ replicate n False"
proof -
  have "word_to_bits n (0 :: 'a word) = replicate n False"
    by (rule nth_equalityI) (auto simp: nth_word_to_bits)
  then show ?thesis using word_to_bits_or_field [of n 0 m v] assms by simp
qed

lemma ucast_push_bit: "8 \<le> LENGTH('a) \<Longrightarrow> ucast (push_bit k w) = push_bit k (ucast w :: u8)" for w :: "'a::len word"
  by (rule bit_word_eqI) (auto simp: bit_ucast_iff bit_push_bit_iff)

lemma bits_to_word_field:
  "n \<le> LENGTH('b::len) \<Longrightarrow> bits_to_word (word_to_bits n (w :: 'a::len word)) = (ucast (take_bit n w) :: 'b word)"
  by (rule bit_word_eqI) (auto simp: bit_bits_to_word nth_word_to_bits bit_ucast_iff bit_take_bit_iff)

lemma take_bit_word_small: "unat w < 2 ^ n \<Longrightarrow> take_bit n w = w" for w :: "'a::len word"
  using not_bit_above [of w n] by (intro bit_word_eqI) (auto simp: bit_take_bit_iff not_le [symmetric])

lemma unat_less_bits: "(\<And>k. n \<le> k \<Longrightarrow> \<not> bit w k) \<Longrightarrow> unat w < 2 ^ n" for w :: "'a::len word"
proof -
  assume "\<And>k. n \<le> k \<Longrightarrow> \<not> bit w k"
  then have "take_bit n w = w" by (intro bit_word_eqI) (auto simp: bit_take_bit_iff not_le [symmetric])
  then have "take_bit n (unat w) = unat w" by (metis unsigned_take_bit_eq)
  then show ?thesis by (metis take_bit_nat_less_exp)
qed

section \<open>Slices\<close>

lemma length_slice [simp]: "length (slice a b xs) = min (b - a) (length xs - a)"
  by (simp add: slice_def)

lemma nth_slice: "i < b - a \<Longrightarrow> a + i < length xs \<Longrightarrow> slice a b xs ! i = xs ! (a + i)"
  by (simp add: slice_def)

lemma slice_append_left: "b \<le> length xs \<Longrightarrow> slice a b (xs @ ys) = slice a b xs"
  by (cases "a \<le> b") (auto simp: slice_def)

lemma slice_append_right:
  "length xs \<le> a \<Longrightarrow> slice a b (xs @ ys) = slice (a - length xs) (b - length xs) ys"
  by (auto simp: slice_def)

lemma slice_all: "slice 0 (length xs) xs = xs"
  by (simp add: slice_def)

end
