(* ===== verification/Machine.thy ===== *)
theory Machine
  imports Main
begin

text \<open>
  Event-driven state machines: a step takes a state and an event to a new state and a list of outputs.
  \<open>run\<close> feeds a sequence of events; the locales collect what holds of every machine (runs compose,
  invariants extend to runs, absorbing conditions persist) and are interpreted on the components.
\<close>

fun run :: "('s \<Rightarrow> 'e \<Rightarrow> 's \<times> 'o list) \<Rightarrow> 's \<Rightarrow> 'e list \<Rightarrow> 's \<times> 'o list" where
  "run step s [] = (s, [])"
| "run step s (e # es) =
     (let (s1, o1) = step s e; (s2, o2) = run step s1 es in (s2, o1 @ o2))"

lemma run_append:
  "run step s (es @ fs) = (let (s1, o1) = run step s es; (s2, o2) = run step s1 fs in (s2, o1 @ o2))"
  by (induction es arbitrary: s) (auto simp: Let_def split: prod.splits)

lemma fst_run_Cons: "fst (run step s (e # es)) = fst (run step (fst (step s e)) es)"
  by (simp add: Let_def split: prod.splits)

lemma fst_run_snoc: "fst (run step s (es @ [e])) = fst (step (fst (run step s es)) e)"
  by (simp add: run_append Let_def split: prod.splits)

text \<open>An invariant that every admissible event keeps.\<close>

locale event_machine =
  fixes step :: "'s \<Rightarrow> 'e \<Rightarrow> 's \<times> 'o list"
    and init :: 's
    and inv :: "'s \<Rightarrow> bool"
    and adm :: "'e \<Rightarrow> bool"
  assumes inv_init: "inv init"
    and inv_step: "inv s \<Longrightarrow> adm e \<Longrightarrow> inv (fst (step s e))"
begin

lemma inv_run_from: "inv s \<Longrightarrow> list_all adm es \<Longrightarrow> inv (fst (run step s es))"
proof (induction es arbitrary: s)
  case (Cons e es)
  then show ?case using inv_step by (metis fst_run_Cons list.pred_inject(2))
qed simp

lemma inv_run: "list_all adm es \<Longrightarrow> inv (fst (run step init es))"
  by (rule inv_run_from) (rule inv_init)

lemma absorbing:
  assumes keep: "\<And>s e. inv s \<Longrightarrow> P s \<Longrightarrow> adm e \<Longrightarrow> ok e \<Longrightarrow> P (fst (step s e))"
  shows "inv s \<Longrightarrow> P s \<Longrightarrow> list_all adm es \<Longrightarrow> list_all ok es \<Longrightarrow> P (fst (run step s es))"
proof (induction es arbitrary: s)
  case (Cons e es)
  then have "P (fst (step s e))" "inv (fst (step s e))" using keep inv_step by simp_all
  with Cons show ?case by (metis fst_run_Cons list.pred_inject(2))
qed simp

text \<open>A quantity that no event of a kind lowers, whatever the sequence.\<close>

lemma measure_mono:
  assumes mono: "\<And>s e. inv s \<Longrightarrow> adm e \<Longrightarrow> ok e \<Longrightarrow> (f s :: nat) \<le> f (fst (step s e))"
  shows "inv s \<Longrightarrow> list_all adm es \<Longrightarrow> list_all ok es \<Longrightarrow> f s \<le> f (fst (run step s es))"
proof (induction es arbitrary: s)
  case (Cons e es)
  then have "f s \<le> f (fst (step s e))" "inv (fst (step s e))" using mono inv_step by simp_all
  moreover have "f (fst (step s e)) \<le> f (fst (run step (fst (step s e)) es))"
    using Cons calculation by simp
  ultimately show ?case by (metis fst_run_Cons le_trans)
qed simp

end

end
