(* ===== verification/Linear_Code.thy ===== *)
theory Linear_Code
  imports Bits
begin

text \<open>
  Bit vectors over GF(2) and the interface of a linear check: a syndrome that is additive in the
  received word. The error-detection lemmas are proved once, from the syndromes of the unit
  vectors, and serve both the CRC-14 and the LDPC(174,91) parity checks.
\<close>

section \<open>Bit vectors\<close>

definition xor_bits :: "bool list \<Rightarrow> bool list \<Rightarrow> bool list" where
  "xor_bits a b = map2 (\<noteq>) a b"

definition unit_bits :: "nat \<Rightarrow> nat \<Rightarrow> bool list" where
  "unit_bits n i = map (\<lambda>j. j = i) [0..<n]"

definition flip_bit_at :: "bool list \<Rightarrow> nat \<Rightarrow> bool list" where
  "flip_bit_at c i = c[i := \<not> c ! i]"

definition weight :: "bool list \<Rightarrow> nat" where
  "weight e = length (filter id e)"

text \<open>The parity of a list of bits, \<open>parity ^= bit\<close> in a loop.\<close>

definition xor_all :: "bool list \<Rightarrow> bool" where
  "xor_all bs = fold (\<lambda>b p. p \<noteq> b) bs False"

lemma length_xor_bits [simp]: "length (xor_bits a b) = min (length a) (length b)"
  by (simp add: xor_bits_def)

lemma nth_xor_bits: "i < length a \<Longrightarrow> i < length b \<Longrightarrow> xor_bits a b ! i \<longleftrightarrow> a ! i \<noteq> b ! i"
  by (simp add: xor_bits_def)

lemma length_unit_bits [simp]: "length (unit_bits n i) = n"
  by (simp add: unit_bits_def)

lemma nth_unit_bits: "j < n \<Longrightarrow> unit_bits n i ! j \<longleftrightarrow> j = i"
  by (simp add: unit_bits_def)

lemma length_flip [simp]: "length (flip_bit_at c i) = length c"
  by (simp add: flip_bit_at_def)

lemma flip_as_xor: "i < length c \<Longrightarrow> flip_bit_at c i = xor_bits c (unit_bits (length c) i)"
  by (rule nth_equalityI) (auto simp: flip_bit_at_def nth_xor_bits nth_unit_bits nth_list_update)

lemma xor_bits_self: "xor_bits a a = replicate (length a) False"
  by (rule nth_equalityI) (auto simp: nth_xor_bits)

lemma fold_xor_acc: "fold (\<lambda>b p. p \<noteq> b) bs q \<longleftrightarrow> (q \<noteq> fold (\<lambda>b p. p \<noteq> b) bs False)"
proof (induction bs arbitrary: q)
  case Nil
  then show ?case by simp
next
  case (Cons b bs)
  from Cons.IH [of "q \<noteq> b"] Cons.IH [of "b"] show ?case
    by (simp del: fold_simps add: fold_Cons) blast
qed

lemma xor_all_Nil [simp]: "xor_all [] = False"
  by (simp add: xor_all_def)

lemma xor_all_Cons [simp]: "xor_all (b # bs) \<longleftrightarrow> (b \<noteq> xor_all bs)"
  using fold_xor_acc [of bs b] by (simp add: xor_all_def)

lemma xor_all_append: "xor_all (a @ b) \<longleftrightarrow> (xor_all a \<noteq> xor_all b)"
  by (induction a) auto

lemma xor_all_weight: "xor_all e \<longleftrightarrow> odd (weight e)"
  by (induction e) (auto simp: weight_def)

lemma xor_all_map_xor:
  "xor_all (map (\<lambda>i. f i \<noteq> g i) is) \<longleftrightarrow> (xor_all (map f is) \<noteq> xor_all (map g is))"
  by (induction "is") auto

section \<open>The interface of a linear check\<close>

locale linear_check =
  fixes n :: nat
    and syn :: "bool list \<Rightarrow> 'b"
    and add :: "'b \<Rightarrow> 'b \<Rightarrow> 'b"
    and zero :: 'b
  assumes syn_xor: "length a = n \<Longrightarrow> length b = n \<Longrightarrow> syn (xor_bits a b) = add (syn a) (syn b)"
    and add_self: "add x x = zero"
    and zero_add: "add zero x = x"
    and add_assoc: "add (add x y) z = add x (add y z)"
begin

lemma syn_error: "length c = n \<Longrightarrow> length e = n \<Longrightarrow> syn c = zero \<Longrightarrow> syn (xor_bits c e) = syn e"
  by (simp add: syn_xor zero_add)

lemma syn_flip: "length c = n \<Longrightarrow> i < n \<Longrightarrow> syn (flip_bit_at c i) = add (syn c) (syn (unit_bits n i))"
  by (simp add: flip_as_xor syn_xor)

lemma detect_one:
  assumes "\<forall>i<n. syn (unit_bits n i) \<noteq> zero"
    and "length c = n" and "syn c = zero" and "i < n"
  shows "syn (flip_bit_at c i) \<noteq> zero"
  using assms by (simp add: syn_flip zero_add)

lemma detect_two:
  assumes units: "distinct (map (\<lambda>i. syn (unit_bits n i)) [0..<n])"
    and c: "length c = n" "syn c = zero" and ij: "i < n" "j < n" "i \<noteq> j"
  shows "syn (flip_bit_at (flip_bit_at c i) j) \<noteq> zero"
proof
  assume z: "syn (flip_bit_at (flip_bit_at c i) j) = zero"
  let ?u = "\<lambda>i. syn (unit_bits n i)"
  have "add (?u i) (?u j) = zero"
    using z c ij by (simp add: syn_flip zero_add)
  then have "?u i = ?u j"
    by (metis add_assoc add_self zero_add)
  moreover have "?u i \<noteq> ?u j"
    using units ij nth_eq_iff_index_eq [of "map ?u [0..<n]" i j] by simp
  ultimately show False by simp
qed

lemma syn_zeros: "syn (replicate n False) = zero"
  using syn_xor [of "replicate n False" "replicate n False"]
  by (simp add: xor_bits_self add_self)

text \<open>A linear functional on syndromes that is 1 on every unit vector computes the parity of the
  error's weight, so a code with one detects every odd number of errors.\<close>

lemma syn_parity:
  assumes par: "\<And>x y. par (add x y) \<longleftrightarrow> (par x \<noteq> par y)"
    and units: "\<forall>i<n. par (syn (unit_bits n i))"
  shows "length e = n \<Longrightarrow> par (syn e) \<longleftrightarrow> odd (weight e)"
proof (induction "weight e" arbitrary: e)
  case 0
  then have "e = replicate n False"
    by (auto simp: weight_def filter_empty_conv intro!: replicate_eqI)
  with syn_zeros have "par (syn e) \<longleftrightarrow> par zero" by simp
  moreover have "\<not> par zero" using par [of zero zero] by (simp add: add_self)
  ultimately show ?case using 0 by simp
next
  case (Suc k)
  have "\<exists>i<length e. e ! i"
  proof (rule ccontr)
    assume "\<not> ?thesis"
    then have "filter id e = []" by (auto simp: filter_empty_conv in_set_conv_nth)
    with Suc.hyps(2) show False by (simp add: weight_def)
  qed
  then obtain i where i: "i < n" "e ! i" using Suc.prems by auto
  define e' where "e' = e[i := False]"
  have split: "e = take i e @ True # drop (Suc i) e"
    using i Suc.prems id_take_nth_drop [of i e] by simp
  have "e' = take i e @ False # drop (Suc i) e"
    using i Suc.prems by (simp add: e'_def upd_conv_take_nth_drop)
  then have "weight e' = weight (take i e) + weight (drop (Suc i) e)"
    by (simp add: weight_def)
  moreover have "weight e = Suc (weight (take i e) + weight (drop (Suc i) e))"
    by (subst split) (simp add: weight_def)
  ultimately have w: "weight e = Suc (weight e')" by simp
  have l: "length e' = n" using Suc.prems by (simp add: e'_def)
  have "e = flip_bit_at e' i"
    using i Suc.prems list_update_id [of e i] by (simp add: flip_bit_at_def e'_def)
  then have "par (syn e) \<longleftrightarrow> (par (syn e') \<noteq> True)"
    using i l units par by (simp add: syn_flip)
  moreover have "par (syn e') \<longleftrightarrow> odd (weight e')"
    using Suc.hyps w l by simp
  ultimately show ?case using w by simp
qed

end

end
