(* ===== verification/Radix.thy ===== *)
theory Radix
  imports Prelude
begin

text \<open>
  Positional numerals. The message fields of FT8 are mixed-radix numbers: the sources build them with
  \<open>n = n * base + digit\<close> and take them apart with \<open>%\<close> and \<open>/\<close>, on fixed-width words. This theory has
  the numeral of a digit list and its digits for one base as a locale (the base is its parameter),
  interpreted on the bases the codec uses, and the transfer of such computations between words and
  natural numbers while no product reaches the word's modulus.
\<close>

named_theorems word_nat_simps \<open>word arithmetic on images of natural numbers\<close>

section \<open>Numerals of one base\<close>

definition radix_value :: "nat \<Rightarrow> nat list \<Rightarrow> nat" where
  "radix_value b ds = foldl (\<lambda>v d. v * b + d) 0 ds"

text \<open>The last \<open>k\<close> digits of a number, most significant first.\<close>

fun radix_digits :: "nat \<Rightarrow> nat \<Rightarrow> nat \<Rightarrow> nat list" where
  "radix_digits b 0 v = []"
| "radix_digits b (Suc k) v = radix_digits b k (v div b) @ [v mod b]"

lemma radix_value_Nil [simp]: "radix_value b [] = 0"
  by (simp add: radix_value_def)

lemma radix_value_snoc [simp]: "radix_value b (ds @ [d]) = radix_value b ds * b + d"
  by (simp add: radix_value_def)

lemma length_radix_digits [simp]: "length (radix_digits b k v) = k"
  by (induction k arbitrary: v) auto

lemma radix_value_append: "radix_value b (xs @ ys) = radix_value b xs * b ^ length ys + radix_value b ys"
proof (induction ys rule: rev_induct)
  case (snoc y ys)
  have "radix_value b (xs @ ys @ [y]) = radix_value b ((xs @ ys) @ [y])" by simp
  then show ?case using snoc by (simp only: radix_value_snoc) (simp add: algebra_simps)
qed simp

lemma radix_value_zeros: "radix_value b (replicate k 0) = 0"
  by (induction k) (auto simp: replicate_append_same [symmetric])

lemma radix_div: "(d::nat) < b \<Longrightarrow> (n * b + d) div b = n"
  by simp

lemma radix_mod: "(d::nat) < b \<Longrightarrow> (n * b + d) mod b = d"
  by simp

locale radix =
  fixes base :: nat
  assumes base_pos: "0 < base"
begin

lemma value_less: "\<forall>d\<in>set ds. d < base \<Longrightarrow> radix_value base ds < base ^ length ds"
proof (induction ds rule: rev_induct)
  case (snoc d ds)
  then have "radix_value base ds + 1 \<le> base ^ length ds" and d: "d < base" by simp_all
  then have "(radix_value base ds + 1) * base \<le> base ^ length ds * base" by (intro mult_right_mono) simp_all
  then have "radix_value base ds * base + base \<le> base ^ length ds * base" by (simp only: distrib_right mult_1)
  with d show ?case by (simp only: radix_value_snoc length_append_singleton power_Suc2)
qed simp

lemma digits_value: "\<forall>d\<in>set ds. d < base \<Longrightarrow> radix_digits base (length ds) (radix_value base ds) = ds"
proof (induction ds rule: rev_induct)
  case (snoc d ds)
  then have "(radix_value base ds * base + d) div base = radix_value base ds"
    "(radix_value base ds * base + d) mod base = d" by simp_all
  with snoc show ?case by simp
qed simp

lemma digits_less: "\<forall>d\<in>set (radix_digits base k v). d < base"
  using base_pos by (induction k arbitrary: v) auto

lemma value_digits: "v < base ^ k \<Longrightarrow> radix_value base (radix_digits base k v) = v"
proof (induction k arbitrary: v)
  case (Suc k)
  then have "v div base < base ^ k" using base_pos by (simp add: div_less_iff_less_mult mult.commute)
  with Suc.IH show ?case by simp
qed simp

end

interpretation r10: radix 10 by unfold_locales simp
interpretation r27: radix 27 by unfold_locales simp
interpretation r38: radix 38 by unfold_locales simp
interpretation r42: radix 42 by unfold_locales simp
interpretation r256: radix 256 by unfold_locales simp

section \<open>Words as natural numbers\<close>

lemma unat_of_nat_less [word_nat_simps]: "n < 2 ^ LENGTH('a::len) \<Longrightarrow> unat (of_nat n :: 'a word) = n"
  by (simp add: unat_of_nat take_bit_nat_eq_self)

lemma word_of_nat_div [word_nat_simps]:
  "n < 2 ^ LENGTH('a::len) \<Longrightarrow> (of_nat n :: 'a word) div numeral k = of_nat (n div numeral k)"
  if "numeral k < (2::nat) ^ LENGTH('a::len)"
  using that by (simp add: word_unat_eq_iff unat_div unat_of_nat take_bit_nat_eq_self le_less_trans [OF div_le_dividend])

lemma word_of_nat_mod [word_nat_simps]:
  "n < 2 ^ LENGTH('a::len) \<Longrightarrow> (of_nat n :: 'a word) mod numeral k = of_nat (n mod numeral k)"
  if "numeral k < (2::nat) ^ LENGTH('a::len)"
  using that by (simp add: word_unat_eq_iff unat_mod unat_of_nat take_bit_nat_eq_self le_less_trans [OF mod_less_eq_dividend])

lemma word_of_nat_less [word_nat_simps]:
  "m < 2 ^ LENGTH('a::len) \<Longrightarrow> n < 2 ^ LENGTH('a) \<Longrightarrow> (of_nat m :: 'a word) < of_nat n \<longleftrightarrow> m < n"
  by (simp add: word_less_nat_alt unat_of_nat take_bit_nat_eq_self)

lemma word_of_nat_eq_iff:
  "m < 2 ^ LENGTH('a::len) \<Longrightarrow> n < 2 ^ LENGTH('a) \<Longrightarrow> (of_nat m :: 'a word) = of_nat n \<longleftrightarrow> m = n"
  by (metis unat_of_nat_less)

end
