(* ===== verification/Crc14.thy ===== *)
theory Crc14
  imports Linear_Code
begin

text \<open>
  The CRC-14 of the FT8 payload, from \<^verbatim>\<open>pancetta-ft8/src/message.rs\<close>
  (\<^verbatim>\<open>calculate_crc14\<close>, \<^verbatim>\<open>verify_crc14\<close>): the 16-bit register loop over 82 bits, byte by byte.
  The check is linear, accepts exactly the messages the encoder appends a checksum to, and detects
  every odd number of bit errors and every pair of bit errors in the 91-bit message.
\<close>

section \<open>Definitions\<close>

definition PAYLOAD_BITS :: nat where "PAYLOAD_BITS = 77"

definition CRC_BITS :: nat where "CRC_BITS = 14"

definition TOTAL_MESSAGE_BITS :: nat where "TOTAL_MESSAGE_BITS = PAYLOAD_BITS + CRC_BITS"

definition CRC_POLY :: u16 where "CRC_POLY = 0x2757"

definition CRC_TOPBIT :: u16 where "CRC_TOPBIT = 0x2000"

text \<open>One shift of the register.\<close>

definition crc_shift :: "u16 \<Rightarrow> u16" where
  "crc_shift remainder =
     (if remainder AND CRC_TOPBIT \<noteq> 0 then push_bit 1 remainder XOR CRC_POLY
      else push_bit 1 remainder)"

text \<open>One iteration of the loop over \<open>idx_bit\<close>; the state is the register and \<open>idx_byte\<close>.\<close>

definition crc_iter :: "u8 list \<Rightarrow> nat \<Rightarrow> u16 \<times> nat \<Rightarrow> u16 \<times> nat" where
  "crc_iter bytes idx_bit st =
     (let (remainder, idx_byte) = st;
          (remainder, idx_byte) =
            (if idx_bit mod 8 = 0
             then (remainder XOR push_bit 6 (ucast (bytes ! idx_byte)), idx_byte + 1)
             else (remainder, idx_byte))
      in (crc_shift remainder, idx_byte))"

definition crc_bytes :: "bool list \<Rightarrow> u8 list" where
  "crc_bytes payload = (let bytes = pack_msb 11 payload in bytes[9 := bytes ! 9 AND 0xF8])"

definition calculate_crc14 :: "bool list \<Rightarrow> u16" where
  "calculate_crc14 payload =
     fst (fold (crc_iter (crc_bytes payload)) [0..<82] (0, 0)) AND (push_bit 1 CRC_TOPBIT - 1)"

definition verify_crc14 :: "bool list \<Rightarrow> bool" where
  "verify_crc14 message_bits =
     (if length message_bits \<noteq> TOTAL_MESSAGE_BITS then False
      else let payload = slice 0 PAYLOAD_BITS message_bits;
               received_crc = ucast (bits_to_u32 (slice PAYLOAD_BITS TOTAL_MESSAGE_BITS message_bits));
               calculated_crc = calculate_crc14 payload
           in received_crc = calculated_crc)"

lemmas crc_consts = PAYLOAD_BITS_def CRC_BITS_def TOTAL_MESSAGE_BITS_def

section \<open>Linearity\<close>

lemma crc_topbit: "r AND CRC_TOPBIT \<noteq> 0 \<longleftrightarrow> bit r 13"
proof -
  have "CRC_TOPBIT = push_bit 13 1" by (simp add: CRC_TOPBIT_def)
  then show ?thesis by (simp only: bit_iff_and_push_bit_not_eq_0)
qed

lemma crc_shift_xor: "crc_shift (a XOR b) = crc_shift a XOR crc_shift b"
proof -
  have sh: "crc_shift r = push_bit 1 r XOR (if bit r 13 then CRC_POLY else 0)" for r
    by (simp add: crc_shift_def crc_topbit)
  have ac: "(pa XOR pb) XOR (if x \<noteq> y then p else 0) =
      (pa XOR (if x then p else 0)) XOR (pb XOR (if y then p else 0))" for pa pb p :: u16 and x y
    by (rule bit_word_eqI) (auto simp: bit_xor_iff)
  show ?thesis by (simp only: sh push_bit_xor bit_xor_iff ac)
qed

lemma crc_iter_pair:
  "crc_iter bs i (r, k) =
     (if i mod 8 = 0 then (crc_shift (r XOR push_bit 6 (ucast (bs ! k))), Suc k) else (crc_shift r, k))"
  by (simp add: crc_iter_def)

lemma crc_byte_index:
  "(Suc m + 7) div 8 = (if m mod 8 = 0 then Suc ((m + 7) div 8) else (m + 7) div 8)"
proof -
  obtain q t where m: "m = 8 * q + t" "t < 8" by (metis mod_less_divisor mult_div_mod_eq zero_less_numeral)
  show ?thesis
  proof (cases t)
    case 0
    with m show ?thesis by simp
  next
    case (Suc u)
    with m have "(Suc m + 7) div 8 = Suc q" "(m + 7) div 8 = Suc q" "m mod 8 \<noteq> 0"
      by (auto intro!: div_nat_eqI)
    then show ?thesis by simp
  qed
qed

lemma crc_idx: "snd (fold (crc_iter bs) [0..<m] (r, 0)) = (m + 7) div 8"
proof (induction m)
  case 0
  then show ?case by simp
next
  case (Suc m)
  obtain r' k where st: "fold (crc_iter bs) [0..<m] (r, 0) = (r', k)" by fastforce
  with Suc have "k = (m + 7) div 8" by simp
  moreover have "(Suc m + 7) div 8 = (if m mod 8 = 0 then Suc ((m + 7) div 8) else (m + 7) div 8)"
    by (rule crc_byte_index)
  ultimately have "snd (crc_iter bs m (r', k)) = (Suc m + 7) div 8"
    by (simp add: crc_iter_pair)
  with st show ?case by simp
qed

lemma ucast_xor: "ucast (a XOR b) = (ucast a XOR ucast b :: 'b::len word)" for a b :: "'a::len word"
  by (rule bit_word_eqI) (auto simp: bit_simps)

lemma crc_fold_xor:
  assumes "\<And>k. k < 11 \<Longrightarrow> bc ! k = ba ! k XOR bb ! k" and "m \<le> 82"
  shows "fst (fold (crc_iter bc) [0..<m] (0, 0)) =
         fst (fold (crc_iter ba) [0..<m] (0, 0)) XOR fst (fold (crc_iter bb) [0..<m] (0, 0))"
  using assms(2)
proof (induction m)
  case 0
  then show ?case by simp
next
  case (Suc m)
  let ?st = "\<lambda>b. fold (crc_iter b) [0..<m] (0, 0)"
  let ?k = "(m + 7) div 8"
  have st: "?st b = (fst (?st b), ?k)" for b
    using crc_idx [of b m 0] by (metis prod.collapse)
  have it: "fst (fold (crc_iter b) [0..<Suc m] (0, 0)) =
      crc_shift (fst (?st b) XOR (if m mod 8 = 0 then push_bit 6 (ucast (b ! ?k)) else 0))" for b
  proof -
    obtain r where r: "?st b = (r, ?k)" using st [of b] by blast
    then show ?thesis by (simp add: crc_iter_pair)
  qed
  have k: "m mod 8 = 0 \<Longrightarrow> ?k < 11" using Suc.prems by presburger
  have sh: "crc_shift (p XOR q) XOR crc_shift (r XOR s) = crc_shift (p XOR r XOR (q XOR s))"
    for p q r s
    by (simp add: crc_shift_xor xor.assoc xor.left_commute)
  show ?case
  proof (cases "m mod 8 = 0")
    case True
    with k assms(1) have "bc ! ?k = ba ! ?k XOR bb ! ?k" by blast
    with True Suc sh show ?thesis
      by (simp only: it if_True ucast_xor push_bit_xor) (simp add: xor.assoc)
  next
    case False
    with Suc show ?thesis by (simp only: it if_False) (simp add: crc_shift_xor)
  qed
qed

lemma pack_msb_byte:
  assumes "length bits \<le> 8 * n" and "j < n"
  shows "bit (pack_msb n bits ! j) k \<longleftrightarrow> k < 8 \<and> 8 * j + (7 - k) < length bits \<and> bits ! (8 * j + (7 - k))"
proof (cases "k < 8")
  case True
  define r where "r = 7 - k"
  have r: "r < 8" "7 - r = k" using True by (auto simp: r_def)
  then have "(8 * j + r) div 8 = j" "7 - (8 * j + r) mod 8 = k" by simp_all
  then show ?thesis
    using get_pack_msb [OF assms(1), of "8 * j + r"] assms True r
    by (simp add: get_msb_bit r_def)
next
  case False
  then show ?thesis by (simp add: bit_word.rep_eq)
qed

lemma pack_msb_xor:
  assumes "length a = length b" and "length a \<le> 8 * n" and "j < n"
  shows "pack_msb n (xor_bits a b) ! j = pack_msb n a ! j XOR pack_msb n b ! j"
  by (rule bit_word_eqI) (use assms in \<open>auto simp: pack_msb_byte bit_xor_iff nth_xor_bits\<close>)

lemma crc_bytes_xor:
  assumes "length a = length b" and "length a \<le> 88" and "k < 11"
  shows "crc_bytes (xor_bits a b) ! k = crc_bytes a ! k XOR crc_bytes b ! k"
proof -
  have "(x XOR y) AND m = (x AND m) XOR (y AND m)" for x y m :: u8
    by (rule bit_word_eqI) (auto simp: bit_simps)
  with assms pack_msb_xor [of a b 11 k] pack_msb_xor [of a b 11 9] show ?thesis
    by (simp add: crc_bytes_def Let_def nth_list_update)
qed

lemma calculate_crc14_xor:
  assumes "length a = length b" and "length a \<le> 88"
  shows "calculate_crc14 (xor_bits a b) = calculate_crc14 a XOR calculate_crc14 b"
proof -
  have "(x XOR y) AND m = (x AND m) XOR (y AND m)" for x y m :: u16
    by (rule bit_word_eqI) (auto simp: bit_simps)
  with crc_fold_xor [OF crc_bytes_xor [OF assms], where m = 82] show ?thesis
    by (simp add: calculate_crc14_def)
qed

section \<open>The checksum the encoder appends\<close>

lemma crc_mask: "x AND (push_bit 1 CRC_TOPBIT - 1) = take_bit 14 x"
  by (simp add: CRC_TOPBIT_def take_bit_eq_mask mask_eq_exp_minus_1)

lemma calculate_crc14_bound: "take_bit 14 (calculate_crc14 p) = calculate_crc14 p"
  by (simp only: calculate_crc14_def crc_mask take_bit_take_bit) simp

lemma verify_crc14_append:
  assumes "length p = 77" and "length r = 14"
  shows "verify_crc14 (p @ r) \<longleftrightarrow> bits_to_word r = calculate_crc14 p"
proof -
  have "slice 0 77 (p @ r) = p" "slice 77 91 (p @ r) = r"
    using assms by (simp_all add: slice_def)
  moreover have "ucast (bits_to_u32 r) = (bits_to_word r :: u16)"
    using assms by (intro bit_word_eqI) (auto simp: bits_to_u32_def bit_simps bit_bits_to_word)
  ultimately show ?thesis
    using assms by (simp add: verify_crc14_def crc_consts)
qed

text \<open>The syndrome of a 91-bit message: received checksum against computed one.\<close>

definition crc_syndrome :: "bool list \<Rightarrow> u16" where
  "crc_syndrome m = bits_to_word (drop 77 m) XOR calculate_crc14 (take 77 m)"

lemma xor_eq_0: "x XOR y = 0 \<longleftrightarrow> x = (y :: u16)"
proof
  assume "x XOR y = 0"
  then have "x XOR y XOR y = 0 XOR y" by (metis xor.assoc)
  then show "x = y" by simp
qed simp

lemma verify_crc14_iff: "verify_crc14 m \<longleftrightarrow> length m = 91 \<and> crc_syndrome m = 0"
proof (cases "length m = 91")
  case True
  then show ?thesis
    using verify_crc14_append [of "take 77 m" "drop 77 m"]
    by (simp add: crc_syndrome_def xor_eq_0)
next
  case False
  then show ?thesis by (simp add: verify_crc14_def crc_consts)
qed

lemma bits_to_word_xor:
  assumes "length a = length b" and "length a \<le> LENGTH('a::len)"
  shows "bits_to_word (xor_bits a b) = (bits_to_word a XOR bits_to_word b :: 'a word)"
  by (rule bit_word_eqI)
    (use assms in \<open>auto simp: bit_bits_to_word bit_xor_iff nth_xor_bits\<close>)

lemma take_xor_bits: "take k (xor_bits a b) = xor_bits (take k a) (take k b)"
  by (simp add: xor_bits_def take_map take_zip)

lemma drop_xor_bits: "drop k (xor_bits a b) = xor_bits (drop k a) (drop k b)"
  by (simp add: xor_bits_def drop_map drop_zip)

interpretation crc: linear_check 91 crc_syndrome "(XOR)" 0
proof
  fix a b :: "bool list"
  assume "length a = 91" and "length b = 91"
  then show "crc_syndrome (xor_bits a b) = crc_syndrome a XOR crc_syndrome b"
    by (simp add: crc_syndrome_def take_xor_bits drop_xor_bits calculate_crc14_xor
        bits_to_word_xor xor.assoc xor.left_commute)
qed (simp_all add: xor.assoc)

section \<open>The bit-serial reference\<close>

text \<open>Polynomial division one payload bit at a time, on a 14-bit register: the payload followed by
  five zero bits (the byte loop runs to bit 82).\<close>


definition crc14_step :: "u16 \<Rightarrow> bool \<Rightarrow> u16" where
  "crc14_step r b = take_bit 14 (crc_shift (r XOR (if b then CRC_TOPBIT else 0)))"

definition crc14_reference :: "bool list \<Rightarrow> u16" where
  "crc14_reference p = foldl crc14_step 0 (p @ replicate 5 False)"

definition crc_pending :: "u8 \<Rightarrow> nat \<Rightarrow> u16" where
  "crc_pending b t = take_bit 14 (push_bit (6 + t) (ucast b))"

lemma bit_crc_topbit: "bit CRC_TOPBIT k \<longleftrightarrow> k = 13"
proof -
  have "bit (push_bit 13 1 :: u16) k \<longleftrightarrow> k = 13"
    by (auto simp: bit_simps simp del: push_bit_of_1)
  moreover have "CRC_TOPBIT = push_bit 13 1" by (simp add: CRC_TOPBIT_def)
  ultimately show ?thesis by (simp only:)
qed

lemma bit_shift1: "bit (push_bit 1 r) k \<longleftrightarrow> 0 < k \<and> k < 16 \<and> bit r (k - 1)" for r :: u16
  using bit_push_bit_iff [of 1 r k] by (auto simp only: possible_bit_word) auto

lemma bit_crc_shift:
  "bit (crc_shift r) k \<longleftrightarrow> ((0 < k \<and> k < 16 \<and> bit r (k - 1)) \<noteq> (bit r 13 \<and> bit CRC_POLY k))"
  unfolding crc_shift_def crc_topbit by (cases "bit r 13") (simp_all only: if_True if_False bit_xor_iff bit_shift1 simp_thms)

lemma take_bit_crc_shift: "take_bit 14 (crc_shift (take_bit 14 r)) = take_bit 14 (crc_shift r)"
  by (rule bit_word_eqI) (auto simp: bit_take_bit_iff bit_crc_shift)

lemma bit_crc_pending: "bit (crc_pending b t) k \<longleftrightarrow> 6 + t \<le> k \<and> k < 14 \<and> bit b (k - (6 + t))"
  by (auto simp: crc_pending_def bit_take_bit_iff bit_push_bit_iff bit_ucast_iff dest: bit_imp_le_length)

lemma crc_pending_step:
  assumes "t < 8"
  shows "take_bit 14 (crc_shift (r XOR crc_pending b t)) =
         crc14_step r (bit b (7 - t)) XOR crc_pending b (Suc t)"
proof -
  define low where "low = take_bit 13 (crc_pending b t)"
  have split: "crc_pending b t = (if bit b (7 - t) then CRC_TOPBIT else 0) XOR low"
  proof (rule bit_word_eqI)
    fix k
    have "k = 13 \<Longrightarrow> k - (6 + t) = 7 - t" by simp
    then show "bit (crc_pending b t) k \<longleftrightarrow> bit ((if bit b (7 - t) then CRC_TOPBIT else 0) XOR low) k"
      using assms less_Suc_eq [of k 13]
      by (auto simp: low_def bit_xor_iff bit_crc_pending bit_crc_topbit bit_take_bit_iff)
  qed
  have "\<not> bit low 13" by (simp add: low_def bit_take_bit_iff)
  then have "crc_shift low = push_bit 1 low" by (simp add: crc_shift_def crc_topbit)
  moreover have "take_bit 14 (push_bit 1 low) = crc_pending b (Suc t)"
    by (intro bit_word_eqI, unfold low_def bit_take_bit_iff bit_shift1 bit_crc_pending)
      (auto simp: le_diff_conv2)
  ultimately show ?thesis
    by (simp add: split crc14_step_def crc_shift_xor xor.assoc take_bit_xor flip: xor.assoc)
qed

lemma crc14_step_take: "take_bit 14 (crc14_step r b) = crc14_step r b"
  by (simp add: crc14_step_def)

lemma crc_loop_reference:
  "m \<le> 82 \<Longrightarrow> take_bit 14 (fst (fold (crc_iter bs) [0..<m] (0, 0))) =
     foldl crc14_step 0 (map (\<lambda>i. bit (bs ! (i div 8)) (7 - i mod 8)) [0..<m]) XOR
     (if m mod 8 = 0 then 0 else crc_pending (bs ! (m div 8)) (m mod 8))"
proof (induction m)
  case 0
  then show ?case by simp
next
  case (Suc m)
  let ?ref = "foldl crc14_step 0 (map (\<lambda>i. bit (bs ! (i div 8)) (7 - i mod 8)) [0..<m])"
  let ?b = "bs ! (m div 8)" and ?t = "m mod 8"
  have k: "snd (fold (crc_iter bs) [0..<m] (0, 0)) = (m + 7) div 8" by (rule crc_idx)
  have kb: "?t = 0 \<Longrightarrow> (m + 7) div 8 = m div 8" by auto
  obtain r where st: "fold (crc_iter bs) [0..<m] (0, 0) = (r, (m + 7) div 8)"
    using k by (metis prod.collapse)
  have t8: "?t < 8" by simp
  have p0: "take_bit 14 (push_bit 6 (ucast ?b) :: u16) = crc_pending ?b 0"
    by (simp add: crc_pending_def)
  have "take_bit 14 (fst (fold (crc_iter bs) [0..<Suc m] (0, 0))) =
      take_bit 14 (crc_shift (?ref XOR crc_pending ?b ?t))"
  proof (cases "?t = 0")
    case True
    then have "fst (fold (crc_iter bs) [0..<Suc m] (0, 0)) = crc_shift (r XOR push_bit 6 (ucast ?b))"
      using st kb by (simp add: crc_iter_pair)
    moreover have "take_bit 14 (r XOR push_bit 6 (ucast ?b)) = ?ref XOR crc_pending ?b ?t"
      using Suc True p0 st by (simp add: take_bit_xor)
    ultimately show ?thesis by (metis take_bit_crc_shift)
  next
    case False
    then have "fst (fold (crc_iter bs) [0..<Suc m] (0, 0)) = crc_shift r"
      using st by (simp add: crc_iter_pair)
    moreover have "take_bit 14 r = ?ref XOR crc_pending ?b ?t"
      using Suc False st by simp
    ultimately show ?thesis by (metis take_bit_crc_shift)
  qed
  also have "\<dots> = crc14_step ?ref (bit ?b (7 - ?t)) XOR crc_pending ?b (Suc ?t)"
    by (rule crc_pending_step [OF t8])
  also have "crc_pending ?b (Suc ?t) =
      (if Suc m mod 8 = 0 then 0 else crc_pending (bs ! (Suc m div 8)) (Suc m mod 8))"
  proof (cases "?t = 7")
    case True
    then have "Suc m mod 8 = 0" by (simp add: mod_Suc)
    moreover have "crc_pending ?b 8 = 0" by (intro bit_word_eqI) (simp add: bit_crc_pending)
    ultimately show ?thesis using True by simp
  next
    case False
    then have "Suc m mod 8 = Suc ?t" "Suc m div 8 = m div 8" using t8 by (auto simp: mod_Suc div_Suc)
    then show ?thesis by simp
  qed
  finally show ?case by simp
qed

lemma crc_bytes_bit:
  assumes "length p = 77" and "i < 82"
  shows "bit (crc_bytes p ! (i div 8)) (7 - i mod 8) \<longleftrightarrow> i < 77 \<and> p ! i"
proof -
  have g: "get_msb (pack_msb 11 p) i \<longleftrightarrow> i < 77 \<and> p ! i"
    using assms by (simp add: get_pack_msb)
  have m: "bit (0xF8 :: u8) (7 - i mod 8)" if "i div 8 = 9" "i < 77"
  proof -
    have "i = 72 \<or> i = 73 \<or> i = 74 \<or> i = 75 \<or> i = 76" using that by auto
    then show ?thesis by auto
  qed
  have "i div 8 < 11" using assms(2) by auto
  then show ?thesis
    using g m by (auto simp: crc_bytes_def Let_def nth_list_update bit_and_iff get_msb_bit)
qed

lemma crc14_reference_eq:
  assumes "length p = 77"
  shows "calculate_crc14 p = crc14_reference p"
proof -
  have "map (\<lambda>i. bit (crc_bytes p ! (i div 8)) (7 - i mod 8)) [0..<82] = p @ replicate 5 False"
    by (rule nth_equalityI) (use assms in \<open>auto simp: crc_bytes_bit nth_append\<close>)
  moreover have "crc_pending (crc_bytes p ! 10) 2 = 0"
  proof (rule bit_word_eqI)
    fix k
    have "\<not> bit (crc_bytes p ! 10) j" for j
      using assms by (simp add: crc_bytes_def Let_def pack_msb_byte)
    then show "bit (crc_pending (crc_bytes p ! 10) 2) k \<longleftrightarrow> bit 0 k"
      by (simp add: bit_crc_pending)
  qed
  ultimately show ?thesis
    using crc_loop_reference [of 82 "crc_bytes p"]
    by (simp only: calculate_crc14_def crc_mask crc14_reference_def) simp
qed

section \<open>Error detection\<close>

text \<open>The powers of x modulo the generator polynomial, as 14-bit registers: \<open>crc_x\<close> iterates the
  register with zero input, \<open>crc_powers\<close> is the same sequence on integers, for evaluation.\<close>

fun crc_powers :: "nat \<Rightarrow> int \<Rightarrow> int list" where
  "crc_powers 0 r = []"
| "crc_powers (Suc n) r = r # crc_powers n (if r < 8192 then 2 * r else (2 * r - 16384) XOR 0x2757)"

lemma crc_powers_eq: "crc_powers 96 1 =
    [1, 2, 4, 8, 16, 32, 64, 128, 256, 512, 1024, 2048, 4096, 8192, 10071, 10745, 13477, 3613,
     7226, 14452, 6079, 12158, 14763, 5121, 10242, 14163, 2545, 5090, 10180, 10463, 14057,
     2693, 5386, 10772, 13183, 425, 850, 1700, 3400, 6800, 13600, 3351, 6702, 13404, 4079,
     8158, 16316, 6191, 12382, 2027, 4054, 8108, 16216, 6631, 13262, 203, 406, 812, 1624, 3248,
     6496, 12992, 727, 1454, 2908, 5816, 11632, 15799, 7225, 14450, 6067, 12134, 14747, 5217,
     10434, 14035, 2801, 5602, 11204, 12511, 1769, 3538, 7076, 14152, 2503, 5006, 10012, 10607,
     13705, 3141, 6282, 12564, 1407, 2814, 5628, 11256]"
  by (simp add: eval_nat_numeral) 


lemma crc_powers_distinct: "distinct (crc_powers 96 1)"
  unfolding crc_powers_eq by simp

definition crc_x :: "nat \<Rightarrow> u16" where
  "crc_x k = ((\<lambda>r. crc14_step r False) ^^ k) 1"

lemma crc_x_Suc: "crc_x (Suc k) = crc14_step (crc_x k) False"
  by (simp add: crc_x_def)

lemma crc_x_bound: "uint (crc_x k) < 16384"
proof (cases k)
  case (Suc j)
  have "uint (take_bit 14 w) < 2 ^ 14" for w :: u16
    by (simp only: unsigned_take_bit_eq take_bit_int_less_exp)
  then show ?thesis using Suc by (simp add: crc_x_Suc crc14_step_def)
qed (simp add: crc_x_def)

lemma crc_step_int:
  fixes r :: u16
  assumes "uint r < 16384"
  shows "uint (crc14_step r False) = (if uint r < 8192 then 2 * uint r else (2 * uint r - 16384) XOR 0x2757)"
proof -
  have n: "0 \<le> uint r" by simp
  have b: "bit r 13 \<longleftrightarrow> \<not> uint r < 8192"
  proof -
    have "bit r 13 \<longleftrightarrow> bit (uint r) 13" by (simp add: bit_uint_iff)
    then have "bit r 13 \<longleftrightarrow> odd (uint r div 2 ^ 13)" by (simp add: bit_iff_odd)
    then show ?thesis using assms n by (cases "uint r < 8192") (auto simp: odd_iff_mod_2_eq_one)
  qed
  have sh: "take_bit 14 (uint (push_bit 1 r)) = take_bit 14 (2 * uint r)"
    by (simp only: unsigned_push_bit_eq take_bit_take_bit) (simp add: push_bit_eq_mult mult.commute)
  have "uint (crc14_step r False) = take_bit 14 (uint (push_bit 1 r)) XOR (if bit r 13 then 0x2757 else 0)"
    by (simp add: crc14_step_def crc_shift_def crc_topbit unsigned_take_bit_eq unsigned_xor_eq CRC_POLY_def take_bit_xor)
  moreover have "take_bit 14 (2 * uint r) = (if uint r < 8192 then 2 * uint r else 2 * uint r - 16384)"
    using assms n mod_pos_pos_trivial [of "2 * uint r - 16384" 16384] by (auto simp: take_bit_eq_mod)
  ultimately show ?thesis using b sh by simp
qed

lemma crc_powers_nth: "k < n \<Longrightarrow> crc_powers n (uint (crc_x m)) ! k = uint (crc_x (m + k))"
proof (induction n arbitrary: k m)
  case (Suc n)
  have "crc_powers (Suc n) (uint (crc_x m)) = uint (crc_x m) # crc_powers n (uint (crc_x (Suc m)))"
    using crc_step_int [OF crc_x_bound, of m] by (simp add: crc_x_Suc)
  with Suc show ?case by (cases k) (simp_all del: crc_powers.simps)
qed simp

lemma crc_powers_length [simp]: "length (crc_powers n r) = n"
  by (induction n arbitrary: r) simp_all

lemma crc_x_inj: "j < 96 \<Longrightarrow> k < 96 \<Longrightarrow> crc_x j = crc_x k \<Longrightarrow> j = k"
  using crc_powers_distinct crc_powers_nth [of _ 96 0] nth_eq_iff_index_eq [of "crc_powers 96 1" j k]
  by (simp add: crc_x_def [of 0])


lemma crc14_step_zero: "crc14_step 0 False = 0"
  by (simp add: crc14_step_def crc_shift_def)

lemma foldl_crc14_zeros: "foldl crc14_step 0 (replicate k False) = 0"
  by (induction k) (simp_all add: crc14_step_zero)

lemma foldl_crc14_replicate: "foldl crc14_step (crc_x m) (replicate k False) = crc_x (m + k)"
  by (induction k arbitrary: m) (simp_all flip: crc_x_Suc)

lemma crc_x_14: "crc14_step 0 True = crc_x 14"
proof -
  have "uint (crc_x 14) = crc_powers 96 (uint (crc_x 0)) ! 14"
    using crc_powers_nth [of 14 96 0] by simp
  also have "\<dots> = 10071" by (simp add: crc_x_def crc_powers_eq del: crc_powers.simps)
  also have "\<dots> = uint (crc14_step 0 True)"
    by (simp add: crc14_step_def crc_shift_def CRC_TOPBIT_def CRC_POLY_def)
  finally show ?thesis by (simp add: word_uint_eq_iff)
qed

lemma bit_crc14_step_False:
  "bit (crc14_step r False) j \<longleftrightarrow> j < 14 \<and> ((0 < j \<and> bit r (j - 1)) \<noteq> (bit r 13 \<and> bit CRC_POLY j))"
  by (auto simp: crc14_step_def bit_take_bit_iff bit_crc_shift)

lemma crc_x_power: "k < 14 \<Longrightarrow> bit (crc_x k) j \<longleftrightarrow> j = k"
proof (induction k arbitrary: j)
  case 0
  then show ?case by (simp add: crc_x_def bit_1_iff)
next
  case (Suc k)
  then have "bit (crc_x k) i \<longleftrightarrow> i = k" for i by simp
  moreover have "13 \<noteq> k" using Suc.prems by simp
  ultimately have "bit (crc_x (Suc k)) j \<longleftrightarrow> j < 14 \<and> 0 < j \<and> j - 1 = k"
    by (simp only: crc_x_Suc bit_crc14_step_False simp_thms)
  then show ?case using Suc.prems by auto
qed

lemma unit_bits_split: "i < n \<Longrightarrow> unit_bits n i = replicate i False @ True # replicate (n - Suc i) False"
  by (rule nth_equalityI) (auto simp: nth_unit_bits nth_append nth_Cons')

lemma take_unit_bits: "take m (unit_bits n i) = unit_bits (min m n) i"
  by (rule nth_equalityI) (auto simp: nth_unit_bits)

lemma unit_bits_zero: "n \<le> i \<Longrightarrow> unit_bits n i = replicate n False"
  by (rule nth_equalityI) (auto simp: nth_unit_bits)

lemma crc14_zero: "calculate_crc14 (replicate 77 False) = 0"
  using calculate_crc14_xor [of "replicate 77 False" "replicate 77 False"]
  by (simp add: xor_bits_self)

lemma crc_unit_payload: "i < 77 \<Longrightarrow> crc_syndrome (unit_bits 91 i) = crc_x (95 - i)"
proof -
  assume i: "i < 77"
  have "calculate_crc14 (unit_bits 77 i) =
      foldl crc14_step 0 ((replicate i False @ True # replicate (76 - i) False) @ replicate 5 False)"
    using i unit_bits_split [of i 77] crc14_reference_eq [of "unit_bits 77 i"]
    by (simp add: crc14_reference_def)
  also have "\<dots> = crc_x (95 - i)"
    using i by (simp only: foldl_append foldl_crc14_zeros foldl_Cons crc_x_14 foldl_crc14_replicate) simp
  finally have "calculate_crc14 (unit_bits 77 i) = crc_x (95 - i)" .
  moreover have "drop 77 (unit_bits 91 i) = replicate 14 False"
    using i by (intro nth_equalityI) (auto simp: nth_unit_bits)
  moreover have "bits_to_word (replicate 14 False) = (0 :: u16)"
    by (intro bit_word_eqI) (simp add: bit_bits_to_word)
  ultimately show ?thesis by (simp add: crc_syndrome_def take_unit_bits)
qed

lemma crc_unit_check: "77 \<le> i \<Longrightarrow> i < 91 \<Longrightarrow> crc_syndrome (unit_bits 91 i) = crc_x (90 - i)"
proof -
  assume i: "77 \<le> i" "i < 91"
  have "bits_to_word (drop 77 (unit_bits 91 i)) = crc_x (90 - i)"
    by (intro bit_word_eqI) (use i in \<open>auto simp: bit_bits_to_word nth_unit_bits crc_x_power\<close>)
  then show ?thesis
    using i by (simp add: crc_syndrome_def take_unit_bits unit_bits_zero crc14_zero)
qed

text \<open>The power of x whose residue is the syndrome of bit \<open>i\<close>: the payload bits sit above five
  implicit zero bits, so their degrees are 19 to 95; the checksum bits have degrees 0 to 13.\<close>

definition crc_degree :: "nat \<Rightarrow> nat" where
  "crc_degree i = (if i < 77 then 95 - i else 90 - i)"

lemma crc_unit: "i < 91 \<Longrightarrow> crc_syndrome (unit_bits 91 i) = crc_x (crc_degree i)"
  using crc_unit_payload crc_unit_check by (simp add: crc_degree_def)

lemma crc_units_distinct: "distinct (map (\<lambda>i. crc_syndrome (unit_bits 91 i)) [0..<91])"
proof -
  have "inj_on crc_degree {0..<91}" by (auto simp: inj_on_def crc_degree_def split: if_splits)
  moreover have "\<forall>i<91. crc_degree i < 96" by (auto simp: crc_degree_def)
  ultimately have "inj_on (\<lambda>i. crc_syndrome (unit_bits 91 i)) {0..<91}"
    by (auto simp: inj_on_def crc_unit dest!: crc_x_inj [rotated 2])
  then show ?thesis by (simp add: distinct_map)
qed

text \<open>The generator has the factor x + 1, so the parity of a register survives a step.\<close>

definition crc_parity :: "u16 \<Rightarrow> bool" where
  "crc_parity w = xor_all (map (bit w) [0..<14])"

lemma crc_parity_xor: "crc_parity (x XOR y) \<longleftrightarrow> (crc_parity x \<noteq> crc_parity y)"
proof -
  have "bit (x XOR y) = (\<lambda>i. bit x i \<noteq> bit y i)" by (simp add: fun_eq_iff bit_xor_iff)
  then show ?thesis by (simp only: crc_parity_def xor_all_map_xor)
qed

lemma crc_parity_step: "crc_parity (crc14_step r False) = crc_parity r"
proof -
  let ?A = "\<lambda>j. 0 < j \<and> bit r (j - 1)" and ?B = "\<lambda>j. bit r 13 \<and> bit CRC_POLY j"
  have "map (bit (crc14_step r False)) [0..<14] = map (\<lambda>j. ?A j \<noteq> ?B j) [0..<14]"
    by (simp add: bit_crc14_step_False)
  then have "crc_parity (crc14_step r False) \<longleftrightarrow> (xor_all (map ?A [0..<14]) \<noteq> xor_all (map ?B [0..<14]))"
    unfolding crc_parity_def by (simp only: xor_all_map_xor)
  moreover have "xor_all (map ?B [0..<14]) \<longleftrightarrow> bit r 13"
    by (simp add: upt_rec CRC_POLY_def)
  moreover have "xor_all (map ?A [0..<14]) \<longleftrightarrow> xor_all (map (bit r) [0..<13])"
  proof -
    have "[0..<14] = 0 # map Suc [0..<13]" using upt_conv_Cons [of 0 14] by (simp add: map_Suc_upt)
    then show ?thesis by (simp add: comp_def)
  qed
  moreover have "crc_parity r \<longleftrightarrow> (xor_all (map (bit r) [0..<13]) \<noteq> bit r 13)"
  proof -
    have "[0..<14] = [0..<13] @ [13]" using upt_Suc [of 0 13] by simp
    then show ?thesis by (simp add: crc_parity_def xor_all_append)
  qed
  ultimately show ?thesis by blast
qed

lemma crc_parity_x: "crc_parity (crc_x k)"
  by (induction k) (simp_all add: crc_x_Suc crc_parity_step, simp add: crc_x_def crc_parity_def upt_rec)


lemma crc_detects_odd:
  assumes "verify_crc14 c" and "length e = 91" and "odd (weight e)"
  shows "\<not> verify_crc14 (xor_bits c e)"
proof
  assume "verify_crc14 (xor_bits c e)"
  with assms have "crc_syndrome e = 0"
    using crc.syn_error [of c e] by (auto simp: verify_crc14_iff)
  moreover have "crc_parity (crc_syndrome e)"
    using crc.syn_parity [of crc_parity e] crc_parity_xor crc_unit crc_parity_x assms by simp
  ultimately show False by (simp add: crc_parity_def upt_rec)
qed

lemma crc_detects_double:
  assumes "verify_crc14 c" and "i < 91" and "j < 91" and "i \<noteq> j"
  shows "\<not> verify_crc14 (flip_bit_at (flip_bit_at c i) j)"
  using crc.detect_two [OF crc_units_distinct] assms by (simp add: verify_crc14_iff)

lemma crc_append_verifies:
  assumes "length p = 77"
  shows "verify_crc14 (p @ word_to_bits 14 (calculate_crc14 p))"
  using assms by (simp add: verify_crc14_append bits_to_word_to_bits calculate_crc14_bound)

section \<open>Properties\<close>

text \<open>C30: the byte-wise CRC loop over a 16-bit register computes, for every 77-bit payload, the bit-serial
  polynomial division of the payload followed by five zero bits.\<close>

theorem calculate_crc14_is_polynomial_division:
  assumes "length p = PAYLOAD_BITS"
  shows "calculate_crc14 p = crc14_reference p"
  using assms by (simp add: crc_consts crc14_reference_eq)

theorem calculate_crc14_is_polynomial_division_witness:
  "length (unit_bits PAYLOAD_BITS 5) = PAYLOAD_BITS \<and>
   calculate_crc14 (unit_bits PAYLOAD_BITS 5) = crc14_reference (unit_bits PAYLOAD_BITS 5)"
  using calculate_crc14_is_polynomial_division [of "unit_bits PAYLOAD_BITS 5"] by simp

lemma verify_crc14_zeros: "verify_crc14 (replicate 91 False)"
  using crc.syn_zeros by (simp add: verify_crc14_iff)

text \<open>A received 91-bit message that passed the CRC check no longer passes it after any odd number
  of bit errors.\<close>

theorem crc14_detects_odd_errors:
  assumes "verify_crc14 c" and "length e = TOTAL_MESSAGE_BITS" and "odd (weight e)"
  shows "\<not> verify_crc14 (xor_bits c e)"
  using assms by (simp add: crc_consts crc_detects_odd)

theorem crc14_detects_odd_errors_witness:
  "verify_crc14 (replicate 91 False) \<and> length (unit_bits 91 7) = TOTAL_MESSAGE_BITS \<and>
   odd (weight (unit_bits 91 7)) \<and> \<not> verify_crc14 (xor_bits (replicate 91 False) (unit_bits 91 7))"
proof -
  have "odd (weight (unit_bits 91 7))" by code_simp
  then show ?thesis
    using crc14_detects_odd_errors [of "replicate 91 False" "unit_bits 91 7"] verify_crc14_zeros
    by (simp add: crc_consts)
qed

text \<open>Flipping any two different bits of a 91-bit message that passed the CRC check makes the check
  fail.\<close>

theorem crc14_detects_double_errors:
  assumes "verify_crc14 c" and "i < TOTAL_MESSAGE_BITS" and "j < TOTAL_MESSAGE_BITS" and "i \<noteq> j"
  shows "\<not> verify_crc14 (flip_bit_at (flip_bit_at c i) j)"
  using assms by (simp add: crc_consts crc_detects_double)

theorem crc14_detects_double_errors_witness:
  "verify_crc14 (replicate 91 False) \<and>
   \<not> verify_crc14 (flip_bit_at (flip_bit_at (replicate 91 False) 3) 80)"
  using crc14_detects_double_errors [of "replicate 91 False" 3 80] verify_crc14_zeros
  by (simp add: crc_consts)

end
