(* ===== verification/Ldpc.thy ===== *)
theory Ldpc
  imports Ldpc_Tables Linear_Code
begin

text \<open>
  The LDPC(174,91) encoder and syndrome check of \<^verbatim>\<open>pancetta-ft8/src/ldpc.rs\<close>: the sparse
  parity-check matrix, the byte-wise encoder and its running bit position, the syndrome loop, and the
  Gray maps of the 8-FSK and 4-FSK alphabets.
\<close>

section \<open>Definitions\<close>

definition LDPC_INFO_BITS :: nat where "LDPC_INFO_BITS = 91"

definition LDPC_INFO_BYTES :: nat where "LDPC_INFO_BYTES = 12"

definition LDPC_PARITY_BITS :: nat where "LDPC_PARITY_BITS = 83"

definition LDPC_CODEWORD_BITS :: nat where "LDPC_CODEWORD_BITS = LDPC_INFO_BITS + LDPC_PARITY_BITS"

definition LDPC_CODEWORD_BYTES :: nat where "LDPC_CODEWORD_BYTES = 22"

definition LDPC_NUM_CHECKS :: nat where "LDPC_NUM_CHECKS = 83"

definition LDPC_NUM_VARIABLES :: nat where "LDPC_NUM_VARIABLES = 174"

lemmas ldpc_consts = LDPC_INFO_BITS_def LDPC_INFO_BYTES_def LDPC_PARITY_BITS_def
  LDPC_CODEWORD_BITS_def LDPC_CODEWORD_BYTES_def LDPC_NUM_CHECKS_def LDPC_NUM_VARIABLES_def

subsection \<open>Gray maps\<close>

definition FT8_GRAY_MAP :: "nat list" where "FT8_GRAY_MAP = [0, 1, 3, 2, 5, 6, 4, 7]"

definition FT8_GRAY_UNMAP :: "nat list" where "FT8_GRAY_UNMAP = [0, 1, 3, 2, 6, 4, 5, 7]"

definition FT4_GRAY_MAP :: "nat list" where "FT4_GRAY_MAP = [0, 1, 3, 2]"

definition FT4_GRAY_UNMAP :: "nat list" where "FT4_GRAY_UNMAP = [0, 1, 3, 2]"

text \<open>Array indexing panics out of range: \<open>None\<close> is the panic.\<close>

definition index_checked :: "'a list \<Rightarrow> nat \<Rightarrow> 'a option" where
  "index_checked xs i = (if i < length xs then Some (xs ! i) else None)"

definition binary_to_gray :: "nat \<Rightarrow> nat option" where
  "binary_to_gray b = index_checked FT8_GRAY_MAP b"

definition gray_to_binary :: "nat \<Rightarrow> nat option" where
  "gray_to_binary g = index_checked FT8_GRAY_UNMAP g"

definition binary_to_gray_4fsk :: "nat \<Rightarrow> nat option" where
  "binary_to_gray_4fsk b = index_checked FT4_GRAY_MAP b"

definition gray_to_binary_4fsk :: "nat \<Rightarrow> nat option" where
  "gray_to_binary_4fsk g = index_checked FT4_GRAY_UNMAP g"

subsection \<open>The parity-check matrix\<close>

record parity_check_matrix =
  check_connections :: "nat list list"
  variable_connections :: "nat list list"
  num_checks :: nat
  num_variables :: nat

text \<open>\<open>if entry > 0 { connections.push(entry - 1) }\<close> over one table row.\<close>

definition zero_origin :: "nat list \<Rightarrow> nat list" where
  "zero_origin row = map (\<lambda>x. x - 1) (filter (\<lambda>x. 0 < x) row)"

definition new_ft8 :: parity_check_matrix where
  "new_ft8 =
     \<lparr> check_connections = map (\<lambda>row_idx. zero_origin (take (LDPC_NUM_ROWS ! row_idx) (LDPC_NM ! row_idx)))
                             [0..<LDPC_NUM_CHECKS],
       variable_connections = map (\<lambda>var_idx. zero_origin (LDPC_MN ! var_idx)) [0..<LDPC_NUM_VARIABLES],
       num_checks = LDPC_NUM_CHECKS,
       num_variables = LDPC_NUM_VARIABLES \<rparr>"

definition is_connected :: "parity_check_matrix \<Rightarrow> nat \<Rightarrow> nat \<Rightarrow> bool" where
  "is_connected m check_idx var_idx = List.member (check_connections m ! check_idx) var_idx"

definition get_connected_variables :: "parity_check_matrix \<Rightarrow> nat \<Rightarrow> nat list" where
  "get_connected_variables m check_idx = check_connections m ! check_idx"

definition get_connected_checks :: "parity_check_matrix \<Rightarrow> nat \<Rightarrow> nat list" where
  "get_connected_checks m var_idx = variable_connections m ! var_idx"

subsection \<open>The encoder\<close>

definition parity8 :: "u8 \<Rightarrow> u8" where
  "parity8 x =
     (let x = x XOR drop_bit 4 x;
          x = x XOR drop_bit 2 x;
          x = x XOR drop_bit 1 x
      in x AND 1)"

text \<open>The dot product of the message bytes with generator row \<open>i\<close>.\<close>

definition ldpc_nsum :: "u8 list \<Rightarrow> nat \<Rightarrow> u8" where
  "ldpc_nsum message_bytes i =
     fold (\<lambda>j nsum. nsum XOR parity8 (message_bytes ! j AND LDPC_GENERATOR ! i ! j))
       [0..<LDPC_INFO_BYTES] 0"

text \<open>One parity bit: the state is the codeword buffer, \<open>col_mask\<close> and \<open>col_idx\<close>.\<close>

definition ldpc_parity_step :: "u8 list \<Rightarrow> nat \<Rightarrow> u8 list \<times> u8 \<times> nat \<Rightarrow> u8 list \<times> u8 \<times> nat" where
  "ldpc_parity_step message_bytes i st =
     (let (codeword_bytes, col_mask, col_idx) = st;
          codeword_bytes =
            (if ldpc_nsum message_bytes i AND 1 \<noteq> 0
             then codeword_bytes[col_idx := codeword_bytes ! col_idx OR col_mask]
             else codeword_bytes);
          col_mask = drop_bit 1 col_mask
      in if col_mask = 0 then (codeword_bytes, 0x80, col_idx + 1)
         else (codeword_bytes, col_mask, col_idx))"

definition ldpc_encode :: "bool list \<Rightarrow> bool list ft8_result" where
  "ldpc_encode message_bits =
     (if length message_bits \<noteq> LDPC_INFO_BITS
      then Inl (MessageDecodingError (''Invalid LDPC input length: '' @ nat_to_dec (length message_bits) @
             '' (expected '' @ nat_to_dec LDPC_INFO_BITS @ '')''))
      else
        let message_bytes = pack_msb LDPC_INFO_BYTES message_bits;
            codeword_bytes = map (\<lambda>j. if j < LDPC_INFO_BYTES then message_bytes ! j else 0)
                               [0..<LDPC_CODEWORD_BYTES];
            (codeword_bytes, _, _) =
              fold (ldpc_parity_step message_bytes) [0..<LDPC_PARITY_BITS]
                (codeword_bytes, drop_bit (LDPC_INFO_BITS mod 8) 0x80, LDPC_INFO_BYTES - 1)
        in Inr (unpack_msb LDPC_CODEWORD_BITS codeword_bytes))"

text \<open>One check of the syndrome loop: the XOR of the connected codeword bits.\<close>

definition check_parity :: "bool list \<Rightarrow> nat list \<Rightarrow> bool" where
  "check_parity codeword connected =
     fold (\<lambda>var_idx parity. if var_idx < length codeword then parity \<noteq> codeword ! var_idx else parity)
       connected False"

definition verify_syndrome :: "bool list \<Rightarrow> bool" where
  "verify_syndrome codeword \<longleftrightarrow>
     length codeword = LDPC_CODEWORD_BITS \<and>
     list_all (\<lambda>check_idx. \<not> check_parity codeword (get_connected_variables new_ft8 check_idx))
       [0..<LDPC_NUM_CHECKS]"

section \<open>The encoder loop\<close>

text \<open>\<open>col_mask\<close> and \<open>col_idx\<close> always address the next bit position.\<close>

lemma drop_bit_msb_mask: "drop_bit 1 (msb_mask p) = (if p mod 8 = 7 then 0 else msb_mask (Suc p))"
proof (rule bit_word_eqI)
  fix k
  have "p mod 8 < 8" by simp
  then show "bit (drop_bit 1 (msb_mask p)) k \<longleftrightarrow> bit (if p mod 8 = 7 then 0 else msb_mask (Suc p)) k"
    by (auto simp: bit_drop_bit_eq bit_msb_mask mod_Suc)
qed

lemma msb_mask_nonzero: "msb_mask p \<noteq> 0"
proof
  assume "msb_mask p = 0"
  with bit_msb_mask [of p "7 - p mod 8"] show False by simp
qed

lemma ldpc_parity_step_put:
  "ldpc_parity_step mb i (cb, msb_mask p, p div 8) =
     (if ldpc_nsum mb i AND 1 \<noteq> 0 then put_msb cb p else cb, msb_mask (Suc p), Suc p div 8)"
proof (cases "p mod 8 = 7")
  case True
  then have "Suc p div 8 = Suc (p div 8)" "msb_mask (Suc p) = 0x80"
    by (simp_all add: div_Suc mod_Suc msb_mask_def)
  with True show ?thesis
    by (simp only: ldpc_parity_step_def Let_def case_prod_conv drop_bit_msb_mask put_msb_def) simp
next
  case False
  then have "Suc p mod 8 \<noteq> 0" using mod_less_divisor [of 8 p] by (auto simp: mod_Suc)
  then have "Suc p div 8 = p div 8" by (simp add: div_Suc)
  with False show ?thesis
    by (simp only: ldpc_parity_step_def Let_def case_prod_conv drop_bit_msb_mask put_msb_def)
      (simp add: msb_mask_nonzero)
qed

lemma ldpc_parity_loop:
  "fold (ldpc_parity_step mb) [0..<n] (cb, msb_mask 91, 11) =
     (fold (\<lambda>p cb. if ldpc_nsum mb (p - 91) AND 1 \<noteq> 0 then put_msb cb p else cb) [91..<91 + n] cb,
      msb_mask (91 + n), (91 + n) div 8)"
proof (induction n)
  case (Suc n)
  have "[91..<91 + Suc n] = [91..<91 + n] @ [91 + n]" using upt_Suc_append [of 91 "91 + n"] by simp
  with Suc show ?case using ldpc_parity_step_put [of mb n _ "91 + n"] by simp
qed simp

lemma ldpc_encode_bits:
  assumes "length m = 91"
  shows "ldpc_encode m = Inr (m @ map (\<lambda>i. ldpc_nsum (pack_msb 12 m) i AND 1 \<noteq> 0) [0..<83])"
proof -
  let ?mb = "pack_msb 12 m"
  define cb0 where "cb0 = map (\<lambda>j. if j < 12 then ?mb ! j else 0) [0..<22]"
  define cb where "cb = fold (\<lambda>p cb. if ldpc_nsum ?mb (p - 91) AND 1 \<noteq> 0 then put_msb cb p else cb) [91..<174] cb0"
  have e: "ldpc_encode m = Inr (unpack_msb 174 cb)"
  proof -
    have start: "drop_bit (91 mod 8) 0x80 = msb_mask 91" by (simp only: msb_mask_def)
    have len: "12 - 1 = (11::nat)" "91 + 83 = (174::nat)" by simp_all
    show ?thesis
      using ldpc_parity_loop [of ?mb 83 cb0, folded cb_def [unfolded len [symmetric]]] assms
      by (simp only: ldpc_encode_def ldpc_consts Let_def start len cb0_def [symmetric] simp_thms if_False
          case_prod_conv)
  qed
  have g0: "get_msb cb0 k \<longleftrightarrow> k < 91 \<and> m ! k" if "k < 174" for k
  proof (cases "k div 8 < 12")
    case True
    then have "get_msb cb0 k \<longleftrightarrow> get_msb ?mb k" by (simp add: cb0_def get_msb_def)
    with True assms show ?thesis by (simp add: get_pack_msb)
  next
    case False
    with that show ?thesis by (auto simp: cb0_def get_msb_def)
  qed
  have "get_msb cb k \<longleftrightarrow> get_msb cb0 k \<or> (91 \<le> k \<and> ldpc_nsum ?mb (k - 91) AND 1 \<noteq> 0)"
    if k: "k < 174" for k
  proof -
    have "k \<in> set [91..<174] \<longleftrightarrow> 91 \<le> k" using k by (simp only: set_upt atLeastLessThan_iff simp_thms)
    moreover have "\<forall>i\<in>set [91..<174]. i < 8 * length cb0" by (simp only: set_upt) (simp add: cb0_def)
    then have "get_msb cb k \<longleftrightarrow> get_msb cb0 k \<or> (k \<in> set [91..<174] \<and> ldpc_nsum ?mb (k - 91) AND 1 \<noteq> 0)"
      unfolding cb_def by (rule msb.get_fill) (use k in \<open>simp add: cb0_def\<close>)
    ultimately show ?thesis by (simp only:)
  qed
  with g0 have "unpack_msb 174 cb ! k \<longleftrightarrow> (if k < 91 then m ! k else ldpc_nsum ?mb (k - 91) AND 1 \<noteq> 0)"
    if "k < 174" for k using that by (auto simp: unpack_msb_def)
  then have "unpack_msb 174 cb = m @ map (\<lambda>i. ldpc_nsum ?mb i AND 1 \<noteq> 0) [0..<83]"
    by (intro nth_equalityI) (auto simp: assms nth_append)
  with e show ?thesis by simp
qed

section \<open>Parity as a dot product\<close>

lemma and_one_bit: "a AND 1 \<noteq> 0 \<longleftrightarrow> bit a 0" for a :: u8
  by (simp add: bit_0 and_one_eq odd_iff_mod_2_eq_one)

lemma parity8_bit: "parity8 x AND 1 \<noteq> 0 \<longleftrightarrow> xor_all (map (\<lambda>t. bit x (7 - t)) [0..<8])"
proof -
  have "parity8 x AND 1 \<noteq> 0 \<longleftrightarrow> bit (parity8 x) 0" by (rule and_one_bit)
  also have "\<dots> \<longleftrightarrow> xor_all (map (\<lambda>t. bit x (7 - t)) [0..<8])"
    by (auto simp: parity8_def Let_def bit_simps upt_rec numeral_eq_Suc)
  finally show ?thesis .
qed

lemma and_one_xor: "(a XOR b) AND 1 \<noteq> 0 \<longleftrightarrow> (a AND 1 \<noteq> 0) \<noteq> (b AND 1 \<noteq> (0 :: u8))"
  by (simp only: and_one_bit bit_xor_iff)

lemma nsum_fold: "fold (\<lambda>j s. s XOR f j) js a AND 1 \<noteq> (0 :: u8) \<longleftrightarrow>
    ((a AND 1 \<noteq> 0) \<noteq> xor_all (map (\<lambda>j. f j AND 1 \<noteq> 0) js))"
  unfolding and_one_bit by (induction js arbitrary: a) (auto simp only: fold_simps xor_all_Nil xor_all_Cons list.map bit_xor_iff)

lemma xor_all_concat: "xor_all (concat xss) \<longleftrightarrow> xor_all (map xor_all xss)"
  by (induction xss) (auto simp: xor_all_append)

lemma byte_positions: "concat (map (\<lambda>j. map (\<lambda>t. 8 * j + t) [0..<8]) [0..<12]) = [0..<96]"
  by code_simp

lemma ldpc_nsum_dot:
  assumes "length m = 91"
  shows "ldpc_nsum (pack_msb 12 m) i AND 1 \<noteq> 0 \<longleftrightarrow>
         xor_all (map (\<lambda>k. m ! k \<and> get_msb (LDPC_GENERATOR ! i) k) [0..<91])"
proof -
  let ?mb = "pack_msb 12 m" and ?row = "LDPC_GENERATOR ! i"
  let ?F = "\<lambda>k. get_msb ?mb k \<and> get_msb ?row k"
  have "ldpc_nsum ?mb i AND 1 \<noteq> 0 \<longleftrightarrow>
      xor_all (map (\<lambda>j. xor_all (map (\<lambda>t. bit (?mb ! j AND ?row ! j) (7 - t)) [0..<8])) [0..<12])"
    by (simp only: ldpc_nsum_def nsum_fold parity8_bit ldpc_consts) simp
  also have "\<dots> \<longleftrightarrow> xor_all (map (\<lambda>j. xor_all (map (\<lambda>t. ?F (8 * j + t)) [0..<8])) [0..<12])"
    by (intro arg_cong [where f = xor_all] map_cong refl) (simp add: get_msb_bit bit_and_iff)
  also have "\<dots> \<longleftrightarrow> xor_all (map ?F (concat (map (\<lambda>j. map (\<lambda>t. 8 * j + t) [0..<8]) [0..<12])))"
    by (simp add: map_concat xor_all_concat comp_def)
  also have "\<dots> \<longleftrightarrow> xor_all (map ?F ([0..<91] @ [91..<96]))"
    using upt_add_eq_append [of 0 91 5] by (simp only: byte_positions) simp
  also have "\<dots> \<longleftrightarrow> xor_all (map (\<lambda>k. m ! k \<and> get_msb ?row k) [0..<91])"
  proof -
    have "map ?F [91..<96] = map (\<lambda>_. False) [91..<96]" using assms by (intro map_cong) (auto simp: get_pack_msb)
    moreover have "xor_all (map (\<lambda>_. False) xs) = False" for xs :: "nat list" by (induction xs) auto
    moreover have "map ?F [0..<91] = map (\<lambda>k. m ! k \<and> get_msb ?row k) [0..<91]"
      using assms by (intro map_cong) (auto simp: get_pack_msb)
    ultimately show ?thesis by (simp only: map_append xor_all_append) simp
  qed
  finally show ?thesis .
qed

section \<open>The tables\<close>

text \<open>The connection lists once more, for evaluation over whole tables.\<close>

definition check_rows :: "nat list list" where
  "check_rows = map2 (\<lambda>n row. zero_origin (take n row)) LDPC_NUM_ROWS LDPC_NM"

definition var_rows :: "nat list list" where
  "var_rows = map zero_origin LDPC_MN"

lemma table_lengths: "length LDPC_NM = 83" "length LDPC_NUM_ROWS = 83" "length LDPC_MN = 174"
    "length LDPC_GENERATOR = 83"
  by code_simp+

lemma rows_length [simp]: "length check_rows = 83" "length var_rows = 174"
  by (simp_all add: check_rows_def var_rows_def table_lengths)

lemma connected_variables_row: "j < 83 \<Longrightarrow> get_connected_variables new_ft8 j = check_rows ! j"
  by (simp add: get_connected_variables_def new_ft8_def check_rows_def ldpc_consts table_lengths)

lemma connected_checks_row: "v < 174 \<Longrightarrow> get_connected_checks new_ft8 v = var_rows ! v"
  by (simp add: get_connected_checks_def new_ft8_def var_rows_def ldpc_consts table_lengths)

lemma check_row_bounds: "list_all (list_all (\<lambda>v. v < 174)) check_rows"
  by code_simp

lemma var_row_bounds: "list_all (\<lambda>r. length r = 3 \<and> distinct r \<and> list_all (\<lambda>j. j < 83) r) var_rows"
  by code_simp

lemma var_row_member: "v < 174 \<Longrightarrow> j \<in> set (var_rows ! v) \<Longrightarrow> j < 83"
  using var_row_bounds nth_mem [of v var_rows] by (auto simp: list_all_iff)

lemma check_bounds: "j < 83 \<Longrightarrow> list_all (\<lambda>v. v < 174) (get_connected_variables new_ft8 j)"
  using check_row_bounds by (simp add: connected_variables_row list_all_length)

text \<open>The edges of the two tables as sorted keys \<open>100 v + j\<close>: those of \<open>LDPC_NM\<close> merged from its rows,
  those of \<open>LDPC_MN\<close> in the order of its rows.\<close>

fun merge_keys :: "int list \<Rightarrow> int list \<Rightarrow> int list" where
  "merge_keys [] ys = ys"
| "merge_keys xs [] = xs"
| "merge_keys (x # xs) (y # ys) =
     (if x \<le> y then x # merge_keys xs (y # ys) else y # merge_keys (x # xs) ys)"

fun merge_pairs :: "int list list \<Rightarrow> int list list" where
  "merge_pairs (x # y # r) = merge_keys x y # merge_pairs r"
| "merge_pairs r = r"

fun keys_nm :: "int \<Rightarrow> nat list list \<Rightarrow> int list list" where
  "keys_nm j [] = []"
| "keys_nm j (r # rs) = map (\<lambda>v. int v * 100 + j) r # keys_nm (j + 1) rs"

fun keys_mn :: "int \<Rightarrow> nat list list \<Rightarrow> int list list" where
  "keys_mn v [] = []"
| "keys_mn v (r # rs) = map (\<lambda>j. v * 100 + int j) r # keys_mn (v + 1) rs"

lemma set_merge_keys: "set (merge_keys xs ys) = set xs \<union> set ys"
  by (induction xs ys rule: merge_keys.induct) auto

lemma set_merge_pairs: "\<Union> (set ` set (merge_pairs r)) = \<Union> (set ` set r)"
  by (induction r rule: merge_pairs.induct) (auto simp: set_merge_keys)

lemma set_merge_iter: "\<Union> (set ` set ((merge_pairs ^^ n) r)) = \<Union> (set ` set r)"
  by (induction n) (simp_all add: set_merge_pairs)

lemma keys_nm_map:
  "keys_nm j rows = map (\<lambda>i. map (\<lambda>v. int v * 100 + (j + int i)) (rows ! i)) [0..<length rows]"
  by (induction rows arbitrary: j)
    (simp_all add: upt_conv_Cons map_Suc_upt [symmetric] comp_def add.assoc del: upt_Suc)

lemma keys_mn_map:
  "keys_mn v rows = map (\<lambda>i. map (\<lambda>j. (v + int i) * 100 + int j) (rows ! i)) [0..<length rows]"
  by (induction rows arbitrary: v)
    (simp_all add: upt_conv_Cons map_Suc_upt [symmetric] comp_def add.assoc del: upt_Suc)

lemma set_keys_nm:
  "\<Union> (set ` set (keys_nm j rows)) = {int v * 100 + (j + int i) | v i. i < length rows \<and> v \<in> set (rows ! i)}"
  by (auto simp: keys_nm_map) blast

lemma set_keys_mn:
  "\<Union> (set ` set (keys_mn v rows)) = {(v + int i) * 100 + int j | i j. i < length rows \<and> j \<in> set (rows ! i)}"
  by (auto simp: keys_mn_map) blast

lemma edge_keys: "(merge_pairs ^^ 7) (keys_nm 0 check_rows) = [concat (keys_mn 0 var_rows)]"
  by code_simp

text \<open>The two sparse tables describe one matrix: \<open>LDPC_MN\<close> is the transpose of \<open>LDPC_NM\<close>.\<close>

lemma transpose:
  assumes "j < 83" and "v < 174"
  shows "v \<in> set (check_rows ! j) \<longleftrightarrow> j \<in> set (var_rows ! v)"
proof -
  have "\<Union> (set ` set (keys_nm 0 check_rows)) = \<Union> (set ` set (keys_mn 0 var_rows))"
    using set_merge_iter [of 7 "keys_nm 0 check_rows"] by (simp add: edge_keys)
  then have eq: "{int v * 100 + int i | v i. i < 83 \<and> v \<in> set (check_rows ! i)} =
      {int i * 100 + int j | i j. i < 174 \<and> j \<in> set (var_rows ! i)}" (is "?A = ?B")
    by (simp add: set_keys_nm set_keys_mn)
  have bound: "\<And>i j. i < 174 \<Longrightarrow> j \<in> set (var_rows ! i) \<Longrightarrow> j < 83"
    using var_row_member by blast
  have key: "int a * 100 + int b = int c * 100 + int d \<Longrightarrow> b < 83 \<Longrightarrow> d < 83 \<Longrightarrow> a = c \<and> b = d" for a b c d
  proof -
    assume e: "int a * 100 + int b = int c * 100 + int d" "b < 83" "d < 83"
    then have "(int a * 100 + int b) div 100 = (int c * 100 + int d) div 100" by simp
    with e have "a = c" by simp
    with e show ?thesis by simp
  qed
  have "v \<in> set (check_rows ! j) \<longleftrightarrow> int v * 100 + int j \<in> ?A"
    using assms by (auto dest: key)
  also have "\<dots> \<longleftrightarrow> int v * 100 + int j \<in> ?B" by (simp only: eq)
  also have "\<dots> \<longleftrightarrow> j \<in> set (var_rows ! v)"
    using assms bound by (auto dest: key)
  finally show ?thesis .
qed

lemma var_rows_distinct: "distinct var_rows"
proof -
  have "distinct (map (\<lambda>r. fold (\<lambda>j a. int j + a * 100) r 0) var_rows)" by code_simp
  then show ?thesis by (simp only: distinct_map)
qed

lemma var_rows_sorted: "list_all sorted var_rows"
  by code_simp

lemma check_rows_distinct: "list_all distinct check_rows"
  by code_simp

section \<open>Every codeword satisfies every check\<close>

text \<open>A generator row and a column of the generator as 96-bit integers, for evaluation.\<close>

definition gen_int :: "u8 list \<Rightarrow> int" where
  "gen_int row = foldl (\<lambda>a b. push_bit 8 a OR uint b) 0 row"

definition col_int :: "nat \<Rightarrow> int" where
  "col_int v = (if v < 91 then push_bit (95 - v) 1 else gen_int (LDPC_GENERATOR ! (v - 91)))"

definition dot :: "bool list \<Rightarrow> int \<Rightarrow> bool" where
  "dot m x = xor_all (map (\<lambda>k. m ! k \<and> bit x (95 - k)) [0..<91])"

lemma bit_gen_int:
  "bit (gen_int row) i \<longleftrightarrow> i < 8 * length row \<and> bit (row ! (length row - 1 - i div 8)) (i mod 8)"
proof (induction row arbitrary: i rule: rev_induct)
  case Nil
  then show ?case by (simp add: gen_int_def)
next
  case (snoc b row)
  have g: "gen_int (row @ [b]) = push_bit 8 (gen_int row) OR uint b" by (simp add: gen_int_def)
  show ?case
  proof (cases "i < 8")
    case True
    then show ?thesis by (simp add: g bit_or_iff bit_push_bit_iff bit_uint_iff nth_append)
  next
    case False
    then obtain d where d: "i = 8 + d" using le_Suc_ex not_less by blast
    have "\<not> bit (uint b) i" using False by (auto simp: bit_uint_iff dest: bit_imp_le_length)
    then have "bit (gen_int (row @ [b])) i \<longleftrightarrow> bit (gen_int row) d"
      by (simp add: g bit_or_iff bit_push_bit_iff d)
    moreover have "d < 8 * length row \<Longrightarrow> (row @ [b]) ! (length row - Suc (d div 8)) = row ! (length row - 1 - d div 8)"
    proof -
      assume "d < 8 * length row"
      then have "length row - Suc (d div 8) < length row" by (cases row) simp_all
      then show ?thesis by (simp add: nth_append)
    qed
    moreover have "(8 + d) div 8 = Suc (d div 8)" by simp
    ultimately show ?thesis by (auto simp: snoc.IH d)
  qed
qed

lemma bit_gen_int_msb:
  assumes "length row = 12" and "k < 96"
  shows "bit (gen_int row) (95 - k) \<longleftrightarrow> get_msb row k"
proof -
  obtain q t where k: "k = 8 * q + t" "t < 8" by (metis mod_less_divisor mult_div_mod_eq zero_less_numeral)
  then have q: "q < 12" using assms(2) by linarith
  have e: "95 - k = 8 * (11 - q) + (7 - t)" using k q by linarith
  then have "(95 - k) div 8 = 11 - q" "(95 - k) mod 8 = 7 - t" by simp_all
  moreover have "95 - k < 96" by simp
  ultimately show ?thesis using assms k q by (simp add: bit_gen_int get_msb_bit del: diff_less)
qed

lemma generator_rows: "list_all (\<lambda>row. length row = 12) LDPC_GENERATOR"
  by code_simp

text \<open>The identity behind the code: the generator columns named by a check cancel.\<close>

lemma check_columns: "list_all (\<lambda>r. fold (\<lambda>v a. a XOR col_int v) r 0 = 0) check_rows"
  by code_simp

lemma dot_xor: "dot m (x XOR y) \<longleftrightarrow> (dot m x \<noteq> dot m y)"
proof -
  have "(\<lambda>k. m ! k \<and> bit (x XOR y) (95 - k)) =
      (\<lambda>k. (m ! k \<and> bit x (95 - k)) \<noteq> (m ! k \<and> bit y (95 - k)))"
    by (auto simp: fun_eq_iff bit_xor_iff)
  then show ?thesis by (simp only: dot_def xor_all_map_xor)
qed

lemma xor_all_False [simp]: "xor_all (map (\<lambda>_. False) xs) = False"
  by (induction xs) auto

lemma xor_all_unit: "distinct ks \<Longrightarrow> xor_all (map (\<lambda>k. P k \<and> k = v) ks) \<longleftrightarrow> v \<in> set ks \<and> P v"
  by (induction ks) auto

lemma dot_column:
  assumes "length m = 91" and "v < 174"
  shows "dot m (col_int v) \<longleftrightarrow>
    (m @ map (\<lambda>i. ldpc_nsum (pack_msb 12 m) i AND 1 \<noteq> 0) [0..<83]) ! v"
proof (cases "v < 91")
  case True
  have "map (\<lambda>k. m ! k \<and> bit (col_int v) (95 - k)) [0..<91] = map (\<lambda>k. m ! k \<and> k = v) [0..<91]"
    using True by (intro map_cong) (auto simp: col_int_def bit_push_bit_iff bit_1_iff simp del: push_bit_of_1)
  then have "dot m (col_int v) \<longleftrightarrow> xor_all (map (\<lambda>k. m ! k \<and> k = v) [0..<91])"
    unfolding dot_def by (rule arg_cong)
  then show ?thesis using True assms xor_all_unit [of "[0..<91]" "\<lambda>k. m ! k" v]
    by (simp add: nth_append)
next
  case False
  then have row: "length (LDPC_GENERATOR ! (v - 91)) = 12"
    using assms generator_rows by (simp add: list_all_length table_lengths)
  have "map (\<lambda>k. m ! k \<and> bit (col_int v) (95 - k)) [0..<91] =
      map (\<lambda>k. m ! k \<and> get_msb (LDPC_GENERATOR ! (v - 91)) k) [0..<91]"
    using False by (intro map_cong) (auto simp: col_int_def bit_gen_int_msb [OF row])
  then have "dot m (col_int v) \<longleftrightarrow> ldpc_nsum (pack_msb 12 m) (v - 91) AND 1 \<noteq> 0"
    unfolding dot_def ldpc_nsum_dot [OF assms(1)] by (rule arg_cong)
  moreover have "[0..<83] ! (v - 91) = v - 91" using False assms nth_upt [of 0 "v - 91" 83] by simp
  ultimately show ?thesis using False assms by (simp add: nth_append)
qed

lemma check_parity_dot:
  assumes "\<And>v. v < 174 \<Longrightarrow> c ! v \<longleftrightarrow> dot m (col_int v)" and "length c = 174"
    and "list_all (\<lambda>v. v < 174) vs"
  shows "fold (\<lambda>v p. if v < length c then p \<noteq> c ! v else p) vs (dot m a) \<longleftrightarrow>
         dot m (fold (\<lambda>v a. a XOR col_int v) vs a)"
  using assms(3)
proof (induction vs arbitrary: a)
  case (Cons v vs)
  then have "(if v < length c then dot m a \<noteq> c ! v else dot m a) = dot m (a XOR col_int v)"
    using assms(1,2) by (simp add: dot_xor)
  with Cons show ?case by (simp only: fold_simps list.pred_inject)
qed simp

lemma dot_zero: "dot m 0 = False"
  by (simp add: dot_def)

lemma ldpc_encode_verifies:
  assumes "length m = 91" and "ldpc_encode m = Inr c"
  shows "verify_syndrome c"
proof -
  have c: "c = m @ map (\<lambda>i. ldpc_nsum (pack_msb 12 m) i AND 1 \<noteq> 0) [0..<83]"
    using assms by (simp add: ldpc_encode_bits)
  have nth: "c ! v \<longleftrightarrow> dot m (col_int v)" if "v < 174" for v
    using that assms(1) by (simp add: c dot_column)
  have len: "length c = 174" using assms(1) by (simp add: c)
  have "\<not> check_parity c (get_connected_variables new_ft8 j)" if "j < 83" for j
  proof -
    have bnd: "list_all (\<lambda>v. v < 174) (get_connected_variables new_ft8 j)"
      and z: "fold (\<lambda>v a. a XOR col_int v) (get_connected_variables new_ft8 j) 0 = 0"
      using that check_bounds check_columns by (simp_all add: list_all_length connected_variables_row)
    from check_parity_dot [OF nth len bnd, of 0] z show ?thesis
      by (simp add: check_parity_def dot_zero)
  qed
  then show ?thesis using len by (simp add: verify_syndrome_def ldpc_consts list_all_iff)
qed


section \<open>Error detection\<close>

text \<open>The syndrome as a vector indexed by the checks.\<close>

definition syndrome :: "bool list \<Rightarrow> nat \<Rightarrow> bool" where
  "syndrome c j \<longleftrightarrow> j < 83 \<and> xor_all (map ((!) c) (get_connected_variables new_ft8 j))"

lemma check_parity_xor_all:
  assumes "list_all (\<lambda>v. v < length c) vs"
  shows "check_parity c vs \<longleftrightarrow> xor_all (map ((!) c) vs)"
proof -
  have "fold (\<lambda>v p. if v < length c then p \<noteq> c ! v else p) vs a \<longleftrightarrow> (a \<noteq> xor_all (map ((!) c) vs))" for a
    using assms by (induction vs arbitrary: a) auto
  then show ?thesis by (simp add: check_parity_def)
qed

lemma verify_syndrome_iff: "verify_syndrome c \<longleftrightarrow> length c = 174 \<and> syndrome c = (\<lambda>_. False)"
proof (cases "length c = 174")
  case True
  then have "j < 83 \<Longrightarrow> check_parity c (get_connected_variables new_ft8 j) \<longleftrightarrow> syndrome c j" for j
    using check_bounds by (simp add: check_parity_xor_all syndrome_def)
  moreover have "\<not> j < 83 \<Longrightarrow> \<not> syndrome c j" for j by (simp add: syndrome_def)
  ultimately show ?thesis using True
    by (simp only: verify_syndrome_def ldpc_consts list_all_iff set_upt fun_eq_iff) auto
next
  case False
  then show ?thesis by (simp add: verify_syndrome_def ldpc_consts)
qed

interpretation ldpc: linear_check 174 syndrome "\<lambda>f g j. f j \<noteq> g j" "\<lambda>_. False"
proof
  fix a b :: "bool list"
  assume ab: "length a = 174" "length b = 174"
  show "syndrome (xor_bits a b) = (\<lambda>j. syndrome a j \<noteq> syndrome b j)"
  proof
    fix j
    show "syndrome (xor_bits a b) j \<longleftrightarrow> syndrome a j \<noteq> syndrome b j"
    proof (cases "j < 83")
      case True
      let ?vs = "get_connected_variables new_ft8 j"
      have "list_all (\<lambda>v. v < 174) ?vs" using True by (rule check_bounds)
      then have "map ((!) (xor_bits a b)) ?vs = map (\<lambda>v. a ! v \<noteq> b ! v) ?vs"
        using ab by (intro map_cong) (auto simp: nth_xor_bits list_all_iff)
      then have "xor_all (map ((!) (xor_bits a b)) ?vs) \<longleftrightarrow> xor_all (map (\<lambda>v. a ! v \<noteq> b ! v) ?vs)"
        by (rule arg_cong)
      also have "\<dots> \<longleftrightarrow> (xor_all (map ((!) a) ?vs) \<noteq> xor_all (map ((!) b) ?vs))"
        by (rule xor_all_map_xor)
      finally show ?thesis using True by (simp only: syndrome_def simp_thms)
    qed (simp add: syndrome_def)
  qed
qed auto

lemma syndrome_unit:
  assumes "v < 174"
  shows "syndrome (unit_bits 174 v) j \<longleftrightarrow> j \<in> set (var_rows ! v)"
proof (cases "j < 83")
  case True
  let ?vs = "check_rows ! j"
  have b: "list_all (\<lambda>v. v < 174) ?vs" and d: "distinct ?vs"
    using True check_row_bounds check_rows_distinct by (simp_all add: list_all_length)
  have "map ((!) (unit_bits 174 v)) ?vs = map (\<lambda>k. k = v) ?vs"
    using b by (intro map_cong) (auto simp: nth_unit_bits list_all_iff)
  then have "syndrome (unit_bits 174 v) j \<longleftrightarrow> v \<in> set ?vs"
    using True xor_all_unit [OF d, of "\<lambda>_. True" v]
    by (simp only: syndrome_def connected_variables_row simp_thms)
  then show ?thesis using True assms by (simp add: transpose)
next
  case False
  then have "j \<notin> set (var_rows ! v)" using assms var_row_member by blast
  with False show ?thesis by (simp add: syndrome_def)
qed

lemma ldpc_units_distinct: "distinct (map (\<lambda>v. syndrome (unit_bits 174 v)) [0..<174])"
proof -
  have "v = w" if "v < 174" "w < 174" "syndrome (unit_bits 174 v) = syndrome (unit_bits 174 w)" for v w
  proof -
    have "set (var_rows ! v) = set (var_rows ! w)"
      using that by (auto simp: fun_eq_iff syndrome_unit)
    moreover have "sorted (var_rows ! v)" "sorted (var_rows ! w)" "distinct (var_rows ! v)" "distinct (var_rows ! w)"
      using that var_rows_sorted var_row_bounds by (simp_all add: list_all_length)
    ultimately have "var_rows ! v = var_rows ! w" by (intro sorted_distinct_set_unique)
    then show ?thesis using that var_rows_distinct by (simp add: nth_eq_iff_index_eq)
  qed
  then have "inj_on (\<lambda>v. syndrome (unit_bits 174 v)) (set [0..<174])"
    by (simp only: inj_on_def set_upt) simp
  then show ?thesis by (simp only: distinct_map distinct_upt simp_thms)
qed

definition syndrome_parity :: "(nat \<Rightarrow> bool) \<Rightarrow> bool" where
  "syndrome_parity s = xor_all (map s [0..<83])"

lemma xor_all_member: "distinct ks \<Longrightarrow> distinct js \<Longrightarrow> set js \<subseteq> set ks \<Longrightarrow>
    xor_all (map (\<lambda>k. k \<in> set js) ks) \<longleftrightarrow> odd (length js)"
proof -
  assume a: "distinct ks" "distinct js" "set js \<subseteq> set ks"
  have "filter id (map (\<lambda>k. k \<in> set js) ks) = map (\<lambda>k. k \<in> set js) (filter (\<lambda>k. k \<in> set js) ks)"
    by (simp add: filter_map comp_def)
  then have "weight (map (\<lambda>k. k \<in> set js) ks) = length (filter (\<lambda>k. k \<in> set js) ks)"
    by (simp add: weight_def)
  also have "\<dots> = card (set (filter (\<lambda>k. k \<in> set js) ks))" using a by (metis distinct_card distinct_filter)
  also have "set (filter (\<lambda>k. k \<in> set js) ks) = set js" using a by auto
  also have "card (set js) = length js" using a by (simp add: distinct_card)
  finally show ?thesis by (simp add: xor_all_weight)
qed

lemma syndrome_parity_xor: "syndrome_parity (\<lambda>j. s j \<noteq> t j) \<longleftrightarrow> (syndrome_parity s \<noteq> syndrome_parity t)"
  unfolding syndrome_parity_def by (rule xor_all_map_xor)

lemma syndrome_parity_unit: "v < 174 \<Longrightarrow> syndrome_parity (syndrome (unit_bits 174 v))"
proof -
  assume v: "v < 174"
  let ?js = "var_rows ! v"
  have js: "length ?js = 3" "distinct ?js" "set ?js \<subseteq> set [0..<83]"
    using v var_row_bounds var_row_member by (simp_all only: list_all_length rows_length set_upt) auto
  have "syndrome (unit_bits 174 v) = (\<lambda>j. j \<in> set ?js)" using v by (simp add: fun_eq_iff syndrome_unit)
  then show ?thesis using xor_all_member [OF distinct_upt js(2,3)] js(1)
    by (simp only: syndrome_parity_def) simp
qed

lemma ldpc_detects_odd:
  assumes "verify_syndrome c" and "length e = 174" and "odd (weight e)"
  shows "\<not> verify_syndrome (xor_bits c e)"
proof
  assume "verify_syndrome (xor_bits c e)"
  with assms have "syndrome e = (\<lambda>_. False)"
    using ldpc.syn_error [of c e] by (auto simp: verify_syndrome_iff)
  moreover have "syndrome_parity (syndrome e)"
    using ldpc.syn_parity [of syndrome_parity, OF syndrome_parity_xor] syndrome_parity_unit assms by simp
  ultimately show False by (simp only: syndrome_parity_def xor_all_False)
qed

lemma ldpc_detects_double:
  assumes "verify_syndrome c" and "i < 174" and "j < 174" and "i \<noteq> j"
  shows "\<not> verify_syndrome (flip_bit_at (flip_bit_at c i) j)"
  using ldpc.detect_two [OF ldpc_units_distinct] assms by (simp add: verify_syndrome_iff)

lemma ldpc_systematic: "length m = 91 \<Longrightarrow> ldpc_encode m = Inr c \<Longrightarrow> length c = 174 \<and> take 91 c = m"
  by (auto simp: ldpc_encode_bits)

section \<open>Properties\<close>

text \<open>C10: encoding a 91-bit message never fails and yields a 174-bit codeword that starts with the
  message and satisfies all 83 parity checks of the matrix the decoder verifies with.\<close>

theorem ldpc_encode_correct:
  assumes "length m = LDPC_INFO_BITS"
  shows "\<exists>c. ldpc_encode m = Inr c \<and> length c = LDPC_CODEWORD_BITS \<and>
             take LDPC_INFO_BITS c = m \<and> verify_syndrome c"
  using assms ldpc_encode_verifies [of m] by (auto simp: ldpc_consts ldpc_encode_bits)

theorem ldpc_encode_correct_witness:
  "length (unit_bits 91 4) = LDPC_INFO_BITS \<and>
   (\<exists>c. ldpc_encode (unit_bits 91 4) = Inr c \<and> length c = LDPC_CODEWORD_BITS \<and>
      take LDPC_INFO_BITS c = unit_bits 91 4 \<and> verify_syndrome c)"
proof -
  have l: "length (unit_bits 91 4) = LDPC_INFO_BITS" by (simp add: ldpc_consts)
  with ldpc_encode_correct [OF l] show ?thesis by blast
qed

lemma verify_syndrome_zeros: "verify_syndrome (replicate 174 False)"
  using ldpc.syn_zeros by (simp add: verify_syndrome_iff)

text \<open>The syndrome check rejects a valid codeword after any odd number of bit errors, and after
  any two bit errors.\<close>

theorem ldpc_detects_errors:
  assumes "verify_syndrome c"
  shows "(length e = LDPC_CODEWORD_BITS \<and> odd (weight e) \<longrightarrow> \<not> verify_syndrome (xor_bits c e)) \<and>
         (i < LDPC_CODEWORD_BITS \<and> j < LDPC_CODEWORD_BITS \<and> i \<noteq> j \<longrightarrow>
            \<not> verify_syndrome (flip_bit_at (flip_bit_at c i) j))"
  using assms ldpc_detects_odd ldpc_detects_double by (simp add: ldpc_consts)

theorem ldpc_detects_errors_witness:
  "verify_syndrome (replicate 174 False) \<and>
   \<not> verify_syndrome (xor_bits (replicate 174 False) (unit_bits 174 100)) \<and>
   \<not> verify_syndrome (flip_bit_at (flip_bit_at (replicate 174 False) 0) 173)"
proof -
  have "odd (weight (unit_bits 174 100))" by code_simp
  then show ?thesis
    using ldpc_detects_errors [OF verify_syndrome_zeros, of "unit_bits 174 100" 0 173] verify_syndrome_zeros
    by (simp add: ldpc_consts)
qed

text \<open>The two sparse tables describe one parity-check matrix: a check lists a codeword bit exactly
  when the bit lists the check, and every bit takes part in exactly three checks.\<close>

theorem parity_tables_transposed:
  assumes "j < num_checks new_ft8" and "v < num_variables new_ft8"
  shows "(is_connected new_ft8 j v \<longleftrightarrow> j \<in> set (get_connected_checks new_ft8 v)) \<and>
         card (set (get_connected_checks new_ft8 v)) = 3"
proof -
  have jv: "j < 83" "v < 174" using assms by (simp_all add: new_ft8_def ldpc_consts)
  then have "is_connected new_ft8 j v \<longleftrightarrow> j \<in> set (get_connected_checks new_ft8 v)"
    using connected_variables_row [of j]
    by (simp add: is_connected_def get_connected_variables_def connected_checks_row transpose)
  moreover have "card (set (get_connected_checks new_ft8 v)) = 3"
    using jv var_row_bounds by (simp add: connected_checks_row list_all_length distinct_card)
  ultimately show ?thesis by blast
qed

theorem parity_tables_transposed_witness:
  "0 < num_checks new_ft8 \<and> 3 < num_variables new_ft8 \<and>
   (is_connected new_ft8 0 3 \<longleftrightarrow> 0 \<in> set (get_connected_checks new_ft8 3)) \<and>
   card (set (get_connected_checks new_ft8 3)) = 3"
proof -
  have "0 < num_checks new_ft8" "3 < num_variables new_ft8" by (simp_all add: new_ft8_def ldpc_consts)
  with parity_tables_transposed [of 0 3] show ?thesis by blast
qed

end
