(* ===== verification/Hash_Table.thy ===== *)
theory Hash_Table
  imports Radix Bits
begin

text \<open>
  Callsign hashes and the table of heard stations (\<open>HashTable\<close>, \<open>pack58\<close>, \<open>hash12\<close>, \<open>hash10\<close> and
  \<open>MessageParser::unpack58\<close> of \<open>pancetta-ft8/src/message.rs\<close>). A frame that has no room for a call
  carries 10, 12 or 22 bits of a multiplicative hash; the receiver resolves it in a table of the calls
  it has heard. A bucket two different calls have hit is marked as collided and never resolves again.

  The table refines an abstract directory: a set of learned calls with unique resolution. What the
  parser needs of it is the locale \<open>call_directory\<close>, interpreted on the table's own operations for
  each of the three hash widths.
\<close>

section \<open>Base-38 calls\<close>

definition HASH_CALL_CHARSET :: string where
  "HASH_CALL_CHARSET = '' 0123456789ABCDEFGHIJKLMNOPQRSTUVWXYZ/''"

text \<open>\<open>CHARSET.iter().position(|&c| c == b)\<close>.\<close>

definition charset_index :: "char \<Rightarrow> nat option" where
  "charset_index b = position (\<lambda>c. c = b) HASH_CALL_CHARSET"

fun pack58_chars :: "u64 \<Rightarrow> string \<Rightarrow> u64 option" where
  "pack58_chars n58 [] = Some n58"
| "pack58_chars n58 (b # bs) =
     (case charset_index b of
        None \<Rightarrow> None
      | Some j \<Rightarrow> pack58_chars (n58 * 38 + of_nat j) bs)"

definition pack58 :: "string \<Rightarrow> u64 option" where
  "pack58 callsign =
     (let bytes = to_upper callsign in
      if 11 < length bytes then None
      else case pack58_chars 0 bytes of
             None \<Rightarrow> None
           | Some n58 \<Rightarrow> Some (fold (\<lambda>_ n. n * 38) [length bytes..<11] n58))"

definition unpack58_step :: "nat \<Rightarrow> string \<times> u64 \<Rightarrow> string \<times> u64" where
  "unpack58_step i st =
     (let (c11, n58) = st in (c11[i := HASH_CALL_CHARSET ! unat (n58 mod 38)], n58 div 38))"

definition unpack58 :: "u64 \<Rightarrow> string" where
  "unpack58 n58 = trim (fst (fold unpack58_step (rev [0..<11]) (replicate 11 CHR '' '', n58)))"

section \<open>Hashes\<close>

text \<open>One character of the hash loop; a character outside the set counts as a space.\<close>

definition n22_step :: "u64 \<Rightarrow> char \<Rightarrow> u64" where
  "n22_step n58 b = n58 * 38 + of_nat (case charset_index b of Some j \<Rightarrow> j | None \<Rightarrow> 0)"

definition calculate_n22 :: "string \<Rightarrow> u32" where
  "calculate_n22 callsign =
     (let bytes = take 11 (to_upper callsign);
          n58 = foldl n22_step 0 bytes;
          n58 = fold (\<lambda>_ n. n * 38) [length bytes..<11] n58
      in ucast (drop_bit (64 - 22) (47055833459 * n58) AND 0x3FFFFF))"

definition calculate_hash_22bit :: "string \<Rightarrow> u32" where
  "calculate_hash_22bit callsign = calculate_n22 callsign"

definition calculate_hash_12bit :: "string \<Rightarrow> u32" where
  "calculate_hash_12bit callsign = drop_bit 10 (calculate_n22 callsign)"

definition calculate_hash_10bit :: "string \<Rightarrow> u32" where
  "calculate_hash_10bit callsign = drop_bit 12 (calculate_n22 callsign)"

definition hash12 :: "string \<Rightarrow> u32" where
  "hash12 callsign = drop_bit 10 (calculate_n22 callsign)"

definition hash10 :: "string \<Rightarrow> u32" where
  "hash10 callsign = drop_bit 12 (calculate_n22 callsign)"

section \<open>The table\<close>

record hash_table =
  hash_10bit :: "u32 \<rightharpoonup> string"
  hash_12bit :: "u32 \<rightharpoonup> string"
  hash_22bit :: "u32 \<rightharpoonup> string"
  collided_10bit :: "u32 set"
  collided_12bit :: "u32 set"
  collided_22bit :: "u32 set"
  all_learned :: "string set"

definition hash_table_new :: hash_table where
  "hash_table_new =
     \<lparr> hash_10bit = Map.empty, hash_12bit = Map.empty, hash_22bit = Map.empty,
       collided_10bit = {}, collided_12bit = {}, collided_22bit = {}, all_learned = {} \<rparr>"

definition seed :: "(u32 \<rightharpoonup> string) \<Rightarrow> u32 set \<Rightarrow> u32 \<Rightarrow> string \<Rightarrow> (u32 \<rightharpoonup> string) \<times> u32 set" where
  "seed table collided hash callsign =
     (if hash \<in> collided then (table, collided)
      else case table hash of
             Some existing \<Rightarrow>
               if existing \<noteq> callsign then (table(hash := None), insert hash collided)
               else (table(hash \<mapsto> callsign), collided)
           | None \<Rightarrow> (table(hash \<mapsto> callsign), collided))"

definition add_callsign :: "hash_table \<Rightarrow> string \<Rightarrow> hash_table" where
  "add_callsign t callsign0 =
     (let callsign = to_upper callsign0;
          learned = insert callsign (all_learned t);
          hash_10 = calculate_hash_10bit callsign;
          hash_12 = calculate_hash_12bit callsign;
          hash_22 = calculate_hash_22bit callsign;
          (t10, c10) = seed (hash_10bit t) (collided_10bit t) hash_10 callsign;
          (t12, c12) = seed (hash_12bit t) (collided_12bit t) hash_12 callsign;
          (t22, c22) = seed (hash_22bit t) (collided_22bit t) hash_22 callsign
      in \<lparr> hash_10bit = t10, hash_12bit = t12, hash_22bit = t22,
           collided_10bit = c10, collided_12bit = c12, collided_22bit = c22, all_learned = learned \<rparr>)"

definition lookup_10bit_hash :: "hash_table \<Rightarrow> u32 \<Rightarrow> string option" where
  "lookup_10bit_hash t hash = hash_10bit t hash"

definition lookup_12bit_hash :: "hash_table \<Rightarrow> u32 \<Rightarrow> string option" where
  "lookup_12bit_hash t hash = hash_12bit t hash"

definition lookup_22bit_hash :: "hash_table \<Rightarrow> u32 \<Rightarrow> string option" where
  "lookup_22bit_hash t hash = hash_22bit t hash"

text \<open>The learned calls are exported in the unspecified order of a hash set: \<open>xs\<close> is a possible result of
  \<open>learned_callsigns\<close> exactly when it lists that set without repetition.\<close>

definition learned_callsigns :: "hash_table \<Rightarrow> string list \<Rightarrow> bool" where
  "learned_callsigns t xs \<longleftrightarrow> distinct xs \<and> set xs = all_learned t"

text \<open>A table after a sequence of calls was learned.\<close>

definition learn_all :: "string list \<Rightarrow> hash_table" where
  "learn_all cs = fold (\<lambda>c t. add_callsign t c) cs hash_table_new"

section \<open>Packing and unpacking\<close>

lemma length_charset [simp]: "length HASH_CALL_CHARSET = 38"
  by (simp add: HASH_CALL_CHARSET_def)

lemma distinct_charset: "distinct HASH_CALL_CHARSET"
  by (simp add: HASH_CALL_CHARSET_def)

lemma charset_index_Some:
  "charset_index b = Some j \<longleftrightarrow> j < 38 \<and> HASH_CALL_CHARSET ! j = b"
  unfolding charset_index_def
  using position_Some [of "\<lambda>c. c = b" HASH_CALL_CHARSET j]
    position_nth_distinct [OF distinct_charset, of j] by auto

lemma charset_index_total: "b \<in> set HASH_CALL_CHARSET \<longleftrightarrow> (\<exists>j. charset_index b = Some j)"
  by (auto simp: charset_index_Some in_set_conv_nth)

lemma charset_0: "HASH_CALL_CHARSET ! 0 = CHR '' ''"
  by (simp add: HASH_CALL_CHARSET_def)

definition charset_digits :: "string \<Rightarrow> nat list" where
  "charset_digits bs = map (\<lambda>b. the (charset_index b)) bs"

lemma pack58_chars_value:
  "pack58_chars (of_nat v) bs =
     (if set bs \<subseteq> set HASH_CALL_CHARSET
      then Some (of_nat (foldl (\<lambda>v d. v * 38 + d) v (charset_digits bs))) else None)"
proof (induction bs arbitrary: v)
  case (Cons b bs)
  show ?case
  proof (cases "charset_index b")
    case None
    then have "b \<notin> set HASH_CALL_CHARSET" by (simp add: charset_index_total)
    with None show ?thesis by simp
  next
    case (Some j)
    then have "b \<in> set HASH_CALL_CHARSET" by (auto simp: charset_index_total)
    with Some Cons [of "v * 38 + j"] show ?thesis by (simp add: charset_digits_def)
  qed
qed (simp add: charset_digits_def)

lemma fold_pad: "fold (\<lambda>_ n. n * 38) [k..<m] (of_nat v :: u64) = of_nat (v * 38 ^ (m - k))"
proof (induction m)
  case (Suc m)
  then show ?case
    by (cases "k \<le> m") (simp_all add: Suc_diff_le algebra_simps del: of_nat_mult, simp add: algebra_simps)
qed simp

text \<open>The digits of the eleven-character field: the call's, then spaces.\<close>

definition field_digits :: "string \<Rightarrow> nat list" where
  "field_digits bs = charset_digits bs @ replicate (11 - length bs) 0"

lemma length_charset_digits [simp]: "length (charset_digits bs) = length bs"
  by (simp add: charset_digits_def)

lemma charset_digits_less: "set bs \<subseteq> set HASH_CALL_CHARSET \<Longrightarrow> \<forall>d\<in>set (field_digits bs). d < 38"
proof
  fix d assume bs: "set bs \<subseteq> set HASH_CALL_CHARSET" and "d \<in> set (field_digits bs)"
  then consider "d = 0" | b where "b \<in> set bs" "d = the (charset_index b)"
    by (auto simp: field_digits_def charset_digits_def)
  then show "d < 38"
  proof cases
    case 2
    with bs obtain j where "charset_index b = Some j"
      using charset_index_total [of b] by blast
    with 2 show ?thesis by (simp add: charset_index_Some)
  qed simp
qed

lemma field_digits_value:
  "radix_value 38 (field_digits bs) = radix_value 38 (charset_digits bs) * 38 ^ (11 - length bs)"
  by (simp add: field_digits_def radix_value_append radix_value_zeros)

lemma pack58_value:
  "pack58 c = (if length c \<le> 11 \<and> set (to_upper c) \<subseteq> set HASH_CALL_CHARSET
               then Some (of_nat (radix_value 38 (field_digits (to_upper c)))) else None)"
proof -
  have "length (to_upper c) = length c" by (simp add: to_upper_def)
  then show ?thesis
    using pack58_chars_value [of 0 "to_upper c", folded radix_value_def]
    by (simp add: pack58_def Let_def fold_pad field_digits_value not_less del: of_nat_mult of_nat_power)
qed

lemma field_value_less:
  assumes "length bs \<le> 11" and "set bs \<subseteq> set HASH_CALL_CHARSET"
  shows "radix_value 38 (field_digits bs) < 38 ^ 11"
  using r38.value_less [OF charset_digits_less [OF assms(2)]] assms(1) by (simp add: field_digits_def)

lemma unpack58_fold:
  "v < 2 ^ 64 \<Longrightarrow> k \<le> length c \<Longrightarrow>
   fold unpack58_step (rev [0..<k]) (c, of_nat v) =
     (map ((!) HASH_CALL_CHARSET) (radix_digits 38 k v) @ drop k c, of_nat (v div 38 ^ k))"
proof (induction k arbitrary: c v)
  case (Suc k)
  define x where "x = HASH_CALL_CHARSET ! (v mod 38)"
  have step: "unpack58_step k (c, of_nat v) = (c[k := x], of_nat (v div 38))"
    using Suc.prems by (simp add: unpack58_step_def word_nat_simps x_def)
  have "v div 38 < 2 ^ 64" using Suc.prems by (meson div_le_dividend order_le_less_trans)
  then have "fold unpack58_step (rev [0..<k]) (c[k := x], of_nat (v div 38)) =
      (map ((!) HASH_CALL_CHARSET) (radix_digits 38 k (v div 38)) @ drop k (c[k := x]), of_nat (v div 38 div 38 ^ k))"
    using Suc.IH [of "v div 38" "c[k := x]"] Suc.prems by simp
  moreover have "drop k (c[k := x]) = x # drop (Suc k) c"
    using Suc.prems by (simp add: Cons_nth_drop_Suc [symmetric])
  ultimately show ?case
    using step by (simp add: x_def div_mult2_eq)
qed simp

lemma unpack58_of_nat:
  "v < 2 ^ 64 \<Longrightarrow> unpack58 (of_nat v) = trim (map ((!) HASH_CALL_CHARSET) (radix_digits 38 11 v))"
  by (simp add: unpack58_def unpack58_fold)

lemma map_field_digits:
  assumes "set bs \<subseteq> set HASH_CALL_CHARSET"
  shows "map ((!) HASH_CALL_CHARSET) (field_digits bs) = bs @ replicate (11 - length bs) CHR '' ''"
proof -
  have "HASH_CALL_CHARSET ! the (charset_index b) = b" if b: "b \<in> set bs" for b
  proof -
    obtain j where j: "charset_index b = Some j" using b assms charset_index_total [of b] by blast
    then have "HASH_CALL_CHARSET ! j = b" by (simp add: charset_index_Some)
    with j show ?thesis by simp
  qed
  then have "map ((!) HASH_CALL_CHARSET) (charset_digits bs) = bs"
    by (simp add: charset_digits_def map_idI)
  then show ?thesis by (simp add: field_digits_def charset_0)
qed

lemma pack58_unpack58:
  assumes "pack58 c = Some n58"
  shows "unpack58 n58 = trim (to_upper c) \<and> unat n58 < 38 ^ 11"
proof -
  let ?bs = "to_upper c"
  have bs: "length ?bs \<le> 11" "set ?bs \<subseteq> set HASH_CALL_CHARSET"
    and n: "n58 = of_nat (radix_value 38 (field_digits ?bs))"
    using assms by (auto simp: pack58_value to_upper_def split: if_splits)
  have less: "radix_value 38 (field_digits ?bs) < 38 ^ 11" using bs by (rule field_value_less)
  then have "radix_value 38 (field_digits ?bs) < 2 ^ 64" by simp
  then have "unpack58 n58 = trim (map ((!) HASH_CALL_CHARSET) (radix_digits 38 11 (radix_value 38 (field_digits ?bs))))"
    by (simp only: n unpack58_of_nat)
  also have "radix_digits 38 11 (radix_value 38 (field_digits ?bs)) = field_digits ?bs"
    using r38.digits_value [OF charset_digits_less [OF bs(2)]] bs(1) by (simp add: field_digits_def)
  also have "trim (map ((!) HASH_CALL_CHARSET) (field_digits ?bs)) = trim ?bs"
    by (simp only: map_field_digits [OF bs(2)]) (intro trim_append_blank, simp add: list_all_iff is_whitespace_def)
  finally show ?thesis using less by (simp add: n unat_of_nat_less)
qed

text \<open>The hash of a call that fits the 58-bit field is the hash of that field's content.\<close>

lemma n22_of_pack58:
  assumes "pack58 c = Some n58"
  shows "calculate_n22 c = ucast (drop_bit 42 (47055833459 * n58) AND 0x3FFFFF)"
proof -
  have fold: "pack58_chars n bs = Some m \<Longrightarrow> foldl n22_step n bs = m" for n m bs
    by (induction bs arbitrary: n) (auto simp: n22_step_def split: option.splits)
  have "length (to_upper c) \<le> 11" using assms by (auto simp: pack58_def Let_def split: if_splits)
  then show ?thesis using assms
    by (auto simp: pack58_def calculate_n22_def Let_def dest: fold split: if_splits option.splits)
qed

section \<open>Buckets\<close>

text \<open>
  One of the three tables, for one hash function \<open>h\<close>: after the calls in \<open>L\<close> were seeded the map holds
  exactly the calls that are alone in their bucket, and the collided set exactly the buckets of two.
\<close>

definition resolves :: "(string \<Rightarrow> u32) \<Rightarrow> string set \<Rightarrow> u32 \<Rightarrow> string \<Rightarrow> bool" where
  "resolves h L x c \<longleftrightarrow> c \<in> L \<and> h c = x \<and> (\<forall>d\<in>L. h d = x \<longrightarrow> d = c)"

definition bucket_ok :: "(string \<Rightarrow> u32) \<Rightarrow> string set \<Rightarrow> (u32 \<rightharpoonup> string) \<Rightarrow> u32 set \<Rightarrow> bool" where
  "bucket_ok h L table collided \<longleftrightarrow>
     (\<forall>x c. table x = Some c \<longleftrightarrow> resolves h L x c) \<and>
     (\<forall>x. x \<in> collided \<longleftrightarrow> (\<exists>c\<in>L. \<exists>d\<in>L. c \<noteq> d \<and> h c = x \<and> h d = x))"

lemma bucket_ok_empty: "bucket_ok h {} Map.empty {}"
  by (simp add: bucket_ok_def resolves_def)

lemma resolves_insert_other: "h c \<noteq> x \<Longrightarrow> resolves h (insert c L) x d \<longleftrightarrow> resolves h L x d"
  by (auto simp: resolves_def)

lemma bucket_ok_None:
  "bucket_ok h L table collided \<Longrightarrow> table x = None \<Longrightarrow> x \<notin> collided \<Longrightarrow> d \<in> L \<Longrightarrow> h d \<noteq> x"
proof
  assume ok: "bucket_ok h L table collided" and x: "table x = None" "x \<notin> collided" "d \<in> L" "h d = x"
  have "\<not> (\<exists>c\<in>L. \<exists>d\<in>L. c \<noteq> d \<and> h c = x \<and> h d = x)" using ok x(2) by (simp add: bucket_ok_def)
  with x(3,4) have "resolves h L x d" unfolding resolves_def by blast
  then have "table x = Some d" using ok by (simp add: bucket_ok_def)
  with x(1) show False by simp
qed

lemma bucket_ok_update:
  assumes ok: "bucket_ok h L table collided"
    and here: "\<And>d. table' (h c) = Some d \<longleftrightarrow> resolves h (insert c L) (h c) d"
    and col: "h c \<in> collided' \<longleftrightarrow> (\<exists>d\<in>L. d \<noteq> c \<and> h d = h c) \<or> h c \<in> collided"
    and other: "\<And>x. x \<noteq> h c \<Longrightarrow> table' x = table x \<and> (x \<in> collided' \<longleftrightarrow> x \<in> collided)"
  shows "bucket_ok h (insert c L) table' collided'"
proof -
  have "table' x = Some d \<longleftrightarrow> resolves h (insert c L) x d" for x d
    using ok here other by (cases "x = h c") (simp_all add: resolves_insert_other bucket_ok_def)
  moreover have "x \<in> collided' \<longleftrightarrow> (\<exists>a\<in>insert c L. \<exists>b\<in>insert c L. a \<noteq> b \<and> h a = x \<and> h b = x)" for x
  proof (cases "x = h c")
    case True
    have "h c \<in> collided \<longleftrightarrow> (\<exists>a\<in>L. \<exists>b\<in>L. a \<noteq> b \<and> h a = h c \<and> h b = h c)"
      using ok by (simp add: bucket_ok_def)
    with True col show ?thesis by auto
  next
    case False
    then have "x \<in> collided' \<longleftrightarrow> (\<exists>a\<in>L. \<exists>b\<in>L. a \<noteq> b \<and> h a = x \<and> h b = x)"
      using ok other [OF False] by (simp add: bucket_ok_def)
    with False show ?thesis by auto
  qed
  ultimately show ?thesis by (simp add: bucket_ok_def)
qed

lemma bucket_ok_seed:
  assumes ok: "bucket_ok h L table collided"
  shows "bucket_ok h (insert c L) (fst (seed table collided (h c) c)) (snd (seed table collided (h c) c))"
proof (cases "h c \<in> collided")
  case True
  then obtain a b where "a \<in> L" "b \<in> L" "a \<noteq> b" "h a = h c" "h b = h c"
    using ok by (auto simp: bucket_ok_def)
  then have "\<not> resolves h L (h c) d \<and> \<not> resolves h (insert c L) (h c) d" for d
    by (auto simp: resolves_def)
  moreover have "table (h c) = Some d \<longleftrightarrow> resolves h L (h c) d" for d using ok by (simp add: bucket_ok_def)
  ultimately show ?thesis using True by (intro bucket_ok_update [OF ok]) (simp_all add: seed_def)
next
  case nc: False
  show ?thesis
  proof (cases "table (h c)")
    case None
    have alone: "h d \<noteq> h c" if "d \<in> L" for d using bucket_ok_None [OF ok None nc that] .
    then have "resolves h (insert c L) (h c) d \<longleftrightarrow> d = c" for d by (auto simp: resolves_def)
    then show ?thesis using nc None alone by (intro bucket_ok_update [OF ok]) (auto simp: seed_def)
  next
    case (Some e)
    then have e: "resolves h L (h c) e" using ok by (simp add: bucket_ok_def)
    show ?thesis
    proof (cases "e = c")
      case True
      with e have "insert c L = L" by (auto simp: resolves_def)
      moreover have "table(h c \<mapsto> c) = table" using Some True by auto
      ultimately show ?thesis using ok nc Some True by (simp add: seed_def)
    next
      case False
      then have "\<not> resolves h (insert c L) (h c) d" for d using e by (auto simp: resolves_def)
      moreover have "\<exists>d\<in>L. d \<noteq> c \<and> h d = h c" using e False by (auto simp: resolves_def)
      ultimately show ?thesis using nc Some False by (intro bucket_ok_update [OF ok]) (auto simp: seed_def)
    qed
  qed
qed

lemma bucket_ok_unique:
  assumes "bucket_ok h L t1 c1" and "bucket_ok h L t2 c2"
  shows "t1 = t2 \<and> c1 = c2"
proof
  have "t1 x = Some c \<longleftrightarrow> t2 x = Some c" for x c using assms by (simp add: bucket_ok_def)
  then have "t1 x = t2 x" for x by (metis option.exhaust)
  then show "t1 = t2" ..
  show "c1 = c2" using assms by (simp add: bucket_ok_def set_eq_iff)
qed

section \<open>The table's invariant\<close>

definition table_ok :: "hash_table \<Rightarrow> bool" where
  "table_ok t \<longleftrightarrow>
     bucket_ok calculate_hash_10bit (all_learned t) (hash_10bit t) (collided_10bit t) \<and>
     bucket_ok calculate_hash_12bit (all_learned t) (hash_12bit t) (collided_12bit t) \<and>
     bucket_ok calculate_hash_22bit (all_learned t) (hash_22bit t) (collided_22bit t)"

lemma table_ok_new: "table_ok hash_table_new"
  by (simp add: table_ok_def hash_table_new_def bucket_ok_empty)

lemma table_ok_add: "table_ok t \<Longrightarrow> table_ok (add_callsign t c)"
  using bucket_ok_seed [of calculate_hash_10bit "all_learned t" "hash_10bit t" "collided_10bit t" "to_upper c"]
    bucket_ok_seed [of calculate_hash_12bit "all_learned t" "hash_12bit t" "collided_12bit t" "to_upper c"]
    bucket_ok_seed [of calculate_hash_22bit "all_learned t" "hash_22bit t" "collided_22bit t" "to_upper c"]
  by (simp add: table_ok_def add_callsign_def Let_def split_beta)

lemma all_learned_add [simp]: "all_learned (add_callsign t c) = insert (to_upper c) (all_learned t)"
  by (simp add: add_callsign_def Let_def split_beta)

lemma all_learned_new [simp]: "all_learned hash_table_new = {}"
  by (simp add: hash_table_new_def)

lemma learn_fold:
  "table_ok t \<Longrightarrow> table_ok (fold (\<lambda>c t. add_callsign t c) cs t) \<and>
     all_learned (fold (\<lambda>c t. add_callsign t c) cs t) = to_upper ` set cs \<union> all_learned t"
  by (induction cs arbitrary: t) (auto simp: table_ok_add)

lemma learn_all_ok: "table_ok (learn_all cs) \<and> all_learned (learn_all cs) = to_upper ` set cs"
  using learn_fold [OF table_ok_new, of cs] by (simp add: learn_all_def)

lemma table_ok_unique:
  fixes t u :: hash_table
  assumes "table_ok t" and "table_ok u" and "all_learned t = all_learned u"
  shows "t = u"
proof -
  have "hash_10bit t = hash_10bit u \<and> collided_10bit t = collided_10bit u"
    "hash_12bit t = hash_12bit u \<and> collided_12bit t = collided_12bit u"
    "hash_22bit t = hash_22bit u \<and> collided_22bit t = collided_22bit u"
    using assms unfolding table_ok_def by (metis bucket_ok_unique)+
  with assms(3) show ?thesis by (intro hash_table.equality) simp_all
qed

lemma table_lookup:
  assumes "table_ok t"
  shows "hash_10bit t x = Some c \<longleftrightarrow> resolves calculate_hash_10bit (all_learned t) x c"
    and "hash_12bit t x = Some c \<longleftrightarrow> resolves calculate_hash_12bit (all_learned t) x c"
    and "hash_22bit t x = Some c \<longleftrightarrow> resolves calculate_hash_22bit (all_learned t) x c"
  using assms by (simp_all add: table_ok_def bucket_ok_def)

section \<open>The interface of a directory of calls\<close>

locale call_directory =
  fixes learn :: "'t \<Rightarrow> string \<Rightarrow> 't"
    and ok :: "'t \<Rightarrow> bool"
    and known :: "'t \<Rightarrow> string set"
    and lookup :: "'t \<Rightarrow> u32 \<Rightarrow> string option"
    and hash :: "string \<Rightarrow> u32"
  assumes ok_learn: "ok t \<Longrightarrow> ok (learn t c)"
    and known_learn: "known (learn t c) = insert (to_upper c) (known t)"
    and lookup_known: "ok t \<Longrightarrow> lookup t x = Some c \<longleftrightarrow> resolves hash (known t) x c"
begin

lemma lookup_sound: "ok t \<Longrightarrow> lookup t x = Some c \<Longrightarrow> c \<in> known t \<and> hash c = x"
  by (simp add: lookup_known resolves_def)

lemma lookup_ambiguous:
  assumes "ok t" and "c \<in> known t" and "d \<in> known t" and "c \<noteq> d" and "hash c = hash d"
  shows "lookup t (hash c) = None"
proof (cases "lookup t (hash c)")
  case (Some e)
  with assms show ?thesis by (auto simp: lookup_known resolves_def)
qed

lemma lookup_complete:
  assumes "ok t" and "c \<in> known t" and "\<forall>d\<in>known t. hash d = hash c \<longrightarrow> d = c"
  shows "lookup t (hash c) = Some c"
  using assms by (simp add: lookup_known resolves_def)

lemma relearn: "ok t \<Longrightarrow> to_upper c \<in> known t \<Longrightarrow> lookup (learn t c) x = lookup t x"
  using lookup_known [of t x] lookup_known [of "learn t c" x] ok_learn [of t c]
  by (metis insert_absorb known_learn option.exhaust)

end

interpretation dir10: call_directory add_callsign table_ok all_learned lookup_10bit_hash calculate_hash_10bit
  by unfold_locales (simp_all add: table_ok_add lookup_10bit_hash_def table_lookup)

interpretation dir12: call_directory add_callsign table_ok all_learned lookup_12bit_hash calculate_hash_12bit
  by unfold_locales (simp_all add: table_ok_add lookup_12bit_hash_def table_lookup)

interpretation dir22: call_directory add_callsign table_ok all_learned lookup_22bit_hash calculate_hash_22bit
  by unfold_locales (simp_all add: table_ok_add lookup_22bit_hash_def table_lookup)

section \<open>Properties\<close>

text \<open>C12: the call table refines the abstract directory. After any sequence of calls has been learned, each of the
  three tables resolves a hash to a call exactly when that call (in upper case) is the only learned one
  with this hash, and marks as collided exactly the hashes of at least two different learned calls.\<close>

theorem hash_table_refines_directory:
  "(\<forall>x c. lookup_10bit_hash (learn_all cs) x = Some c \<longleftrightarrow> resolves calculate_hash_10bit (to_upper ` set cs) x c) \<and>
   (\<forall>x c. lookup_12bit_hash (learn_all cs) x = Some c \<longleftrightarrow> resolves calculate_hash_12bit (to_upper ` set cs) x c) \<and>
   (\<forall>x c. lookup_22bit_hash (learn_all cs) x = Some c \<longleftrightarrow> resolves calculate_hash_22bit (to_upper ` set cs) x c) \<and>
   (\<forall>x. x \<in> collided_12bit (learn_all cs) \<longleftrightarrow>
      (\<exists>c\<in>set cs. \<exists>d\<in>set cs. to_upper c \<noteq> to_upper d \<and> calculate_hash_12bit (to_upper c) = x \<and>
         calculate_hash_12bit (to_upper d) = x))"
proof -
  have "x \<in> collided_12bit (learn_all cs) \<longleftrightarrow>
      (\<exists>c\<in>set cs. \<exists>d\<in>set cs. to_upper c \<noteq> to_upper d \<and> calculate_hash_12bit (to_upper c) = x \<and>
         calculate_hash_12bit (to_upper d) = x)" for x
    using learn_all_ok [of cs] by (simp add: table_ok_def bucket_ok_def)
  then show ?thesis
    using learn_all_ok [of cs] by (simp add: dir10.lookup_known dir12.lookup_known dir22.lookup_known)
qed

text \<open>A rebuilt decoder loses nothing. Replaying the exported calls of a table, in whatever order the
  export lists them, through \<open>add_callsign\<close> on an empty table gives back the same table, collisions
  included.\<close>

theorem replayed_table_is_identical:
  assumes "learned_callsigns (learn_all cs) xs"
  shows "learn_all xs = learn_all cs"
proof -
  have upper: "to_upper x = x" if "x \<in> set xs" for x
    using that assms learn_all_ok [of cs] by (auto simp: learned_callsigns_def)
  then have "to_upper ` set xs = set xs" by (simp add: image_def)
  then show ?thesis
    using assms learn_all_ok [of cs] learn_all_ok [of xs]
    by (intro table_ok_unique) (auto simp: learned_callsigns_def)
qed

theorem replayed_table_is_identical_witness:
  "learn_all [''K0BAP'', ''K0AAA''] = learn_all [''k0aaa'', ''K0BAP'', ''K0AAA'']"
proof -
  have "to_upper ''k0aaa'' = ''K0AAA''" "to_upper ''K0BAP'' = ''K0BAP''" "to_upper ''K0AAA'' = ''K0AAA''"
    by code_simp+
  then have "learned_callsigns (learn_all [''k0aaa'', ''K0BAP'', ''K0AAA'']) [''K0BAP'', ''K0AAA'']"
    using learn_all_ok [of "[''k0aaa'', ''K0BAP'', ''K0AAA'']"] by (auto simp: learned_callsigns_def)
  then show ?thesis by (rule replayed_table_is_identical)
qed

text \<open>The exact 58-bit call field. A call fits when it has at most eleven characters, all of them letters,
  digits, blanks or a slash; then unpacking the field gives the call back (in upper case, without
  surrounding blanks), the field is below 38 to the 11th and so within 58 bits, and the 22-bit hash of
  the call is determined by the field.\<close>

theorem pack58_roundtrip:
  "(pack58 c = None \<longleftrightarrow> 11 < length c \<or> \<not> set (to_upper c) \<subseteq> set HASH_CALL_CHARSET) \<and>
   (\<forall>n58. pack58 c = Some n58 \<longrightarrow>
      unpack58 n58 = trim (to_upper c) \<and> unat n58 < 38 ^ 11 \<and> unat n58 < 2 ^ 58 \<and>
      calculate_n22 c = ucast (drop_bit 42 (47055833459 * n58) AND 0x3FFFFF))"
proof (intro conjI allI impI)
  fix n58 assume c: "pack58 c = Some n58"
  show "unpack58 n58 = trim (to_upper c)" and less: "unat n58 < 38 ^ 11" using pack58_unpack58 [OF c] by auto
  from less show "unat n58 < 2 ^ 58" by (rule order_less_le_trans) simp
  show "calculate_n22 c = ucast (drop_bit 42 (47055833459 * n58) AND 0x3FFFFF)" using c by (rule n22_of_pack58)
qed (auto simp: pack58_value not_le)

theorem pack58_roundtrip_witness: "unpack58 (the (pack58 ''ys/we9g'')) = ''YS/WE9G''"
proof -
  have "pack58 ''ys/we9g'' = Some (the (pack58 ''ys/we9g''))" "trim (to_upper ''ys/we9g'') = ''YS/WE9G''"
    by code_simp+
  then show ?thesis using pack58_roundtrip [of "''ys/we9g''"] by metis
qed

end
