(* ===== verification/Call_Field.thy ===== *)
theory Call_Field
  imports Radix Bits "HOL-Library.Monad_Syntax"
begin

text \<open>
  The 28-bit callsign field: \<open>pack28\<close>, \<open>pack_basecall\<close>, \<open>parse_cq_modifier\<close>, \<open>is_cq_modifier\<close> and the
  character tables of \<open>pancetta-ft8/src/encoder.rs\<close>, and \<open>unpack28\<close>, \<open>unpack_basecall\<close> and
  \<open>CallsignField\<close> of \<open>pancetta-ft8/src/message.rs\<close>. A field holds one of three special tokens, a CQ with
  a three-digit or one-to-four-letter modifier, a 22-bit hash, or a standard call as a mixed-radix
  number (37, 36, 10, 27, 27, 27).
\<close>

section \<open>Encoding\<close>

definition NTOKENS :: u32 where
  "NTOKENS = 2063592"

definition MAX22 :: u32 where
  "MAX22 = 4194304"

definition nchar_alphanum_space :: "char \<Rightarrow> u32 option" where
  "nchar_alphanum_space c =
     (if c = CHR '' '' then Some 0
      else if is_ascii_digit c then Some (of_nat (char_diff c CHR ''0'') + 1)
      else if is_ascii_uppercase c then Some (of_nat (char_diff c CHR ''A'') + 11)
      else None)"

definition nchar_alphanum :: "char \<Rightarrow> u32 option" where
  "nchar_alphanum c =
     (if is_ascii_digit c then Some (of_nat (char_diff c CHR ''0''))
      else if is_ascii_uppercase c then Some (of_nat (char_diff c CHR ''A'') + 10)
      else None)"

definition nchar_numeric :: "char \<Rightarrow> u32 option" where
  "nchar_numeric c = (if is_ascii_digit c then Some (of_nat (char_diff c CHR ''0'')) else None)"

definition nchar_letters_space :: "char \<Rightarrow> u32 option" where
  "nchar_letters_space c =
     (if c = CHR '' '' then Some 0
      else if is_ascii_uppercase c then Some (of_nat (char_diff c CHR ''A'') + 1)
      else None)"

text \<open>The loop that copies bytes into \<open>c6\<close> from index \<open>off\<close>, dropping what does not fit.\<close>

fun copy_into :: "nat \<Rightarrow> string \<Rightarrow> string \<Rightarrow> string" where
  "copy_into off [] c6 = c6"
| "copy_into off (b # bs) c6 = copy_into (Suc off) bs (if off < 6 then c6[off := b] else c6)"

text \<open>The six-character buffer of a call, or None when the call has no standard shape.\<close>

definition normalize_call :: "string \<Rightarrow> string option" where
  "normalize_call callsign =
     (let len = length callsign; c6 = replicate 6 CHR '' '' in
      if len < 3 \<or> 6 < len then None
      else if starts_with callsign ''3DA0'' \<and> 4 < len \<and> len \<le> 7
        then Some (copy_into 3 (drop 4 callsign) (c6[0 := CHR ''3'', 1 := CHR ''D'', 2 := CHR ''0'']))
      else if starts_with callsign ''3X'' \<and> 2 < len \<and> is_ascii_alphabetic (callsign ! 2) \<and> len \<le> 7
        then Some (copy_into 1 (drop 2 callsign) (c6[0 := CHR ''Q'']))
      else if 3 \<le> len \<and> is_ascii_digit (callsign ! 2) \<and> len \<le> 6
        then Some (copy_into 0 callsign c6)
      else if 2 \<le> len \<and> is_ascii_digit (callsign ! 1) \<and> len \<le> 5
        then Some (copy_into 1 callsign c6)
      else None)"

definition pack_c6 :: "string \<Rightarrow> u32 option" where
  "pack_c6 c6 = do {
     i0 \<leftarrow> nchar_alphanum_space (c6 ! 0);
     i1 \<leftarrow> nchar_alphanum (c6 ! 1);
     i2 \<leftarrow> nchar_numeric (c6 ! 2);
     i3 \<leftarrow> nchar_letters_space (c6 ! 3);
     i4 \<leftarrow> nchar_letters_space (c6 ! 4);
     i5 \<leftarrow> nchar_letters_space (c6 ! 5);
     Some (((((i0 * 36 + i1) * 10 + i2) * 27 + i3) * 27 + i4) * 27 + i5)
   }"

definition pack_basecall :: "string \<Rightarrow> u32 option" where
  "pack_basecall callsign = do { c6 \<leftarrow> normalize_call callsign; pack_c6 c6 }"

definition parse_cq_modifier :: "string \<Rightarrow> u32 option" where
  "parse_cq_modifier modifier =
     (if modifier = [] \<or> 4 < length modifier then None
      else if list_all is_ascii_digit modifier \<and> length modifier = 3 then Some (of_nat (dec_value modifier))
      else if list_all is_ascii_uppercase modifier \<and> length modifier \<le> 4
        then Some (1000 + foldl (\<lambda>m b. 27 * m + (of_nat (char_diff b CHR ''A'') + 1)) 0 modifier)
      else None)"

definition is_cq_modifier :: "string \<Rightarrow> bool" where
  "is_cq_modifier token \<longleftrightarrow>
     token = ''DX'' \<or>
     length token = 3 \<and> list_all is_ascii_digit token \<or>
     length token \<le> 4 \<and> token \<noteq> [] \<and> list_all is_ascii_uppercase token"

text \<open>The base call and the suffix flag of a portable (\<open>/P\<close>) or rover (\<open>/R\<close>) call.\<close>

definition strip_portable :: "string \<Rightarrow> string \<times> u8" where
  "strip_portable callsign =
     (if ends_with callsign ''/P'' \<or> ends_with callsign ''/R''
      then (take (length callsign - 2) callsign, 1) else (callsign, 0))"

definition pack28 :: "string \<Rightarrow> (u32 \<times> u8) ft8_result" where
  "pack28 callsign =
     (if callsign = ''DE'' then Inr (0, 0)
      else if callsign = ''QRZ'' then Inr (1, 0)
      else if callsign = ''CQ'' then Inr (2, 0)
      else if starts_with callsign ''CQ '' \<and> length callsign < 8 then
        (let modifier = drop 3 callsign in
         case parse_cq_modifier modifier of
           Some v \<Rightarrow> Inr (3 + v, 0)
         | None \<Rightarrow> Inl (MessageDecodingError (''Invalid CQ modifier: '' @ modifier)))
      else
        let (base_callsign, ip) = strip_portable callsign
        in case pack_basecall base_callsign of
             Some n28 \<Rightarrow> Inr (NTOKENS + MAX22 + n28, ip)
           | None \<Rightarrow> Inl (MessageDecodingError
               (''Cannot encode callsign: '' @ quoted callsign)))"

section \<open>Decoding\<close>

datatype callsign_field =
    CallField string
  | CqField "string option"
  | TokenField string
  | HashField u32

fun to_callsign :: "callsign_field \<Rightarrow> string option" where
  "to_callsign (CallField s) = Some s"
| "to_callsign (TokenField s) = Some s"
| "to_callsign (CqField (Some m)) = Some (''CQ '' @ m)"
| "to_callsign (CqField None) = Some ''CQ''"
| "to_callsign (HashField h) = Some (''<...'' @ nat_to_dec (unat (h AND 0xFFF)) @ ''>'')"

definition C0_TABLE :: string where
  "C0_TABLE = '' 0123456789ABCDEFGHIJKLMNOPQRSTUVWXYZ''"

definition C1_TABLE :: string where
  "C1_TABLE = ''0123456789ABCDEFGHIJKLMNOPQRSTUVWXYZ''"

definition C2_TABLE :: string where
  "C2_TABLE = ''0123456789''"

definition C3_TABLE :: string where
  "C3_TABLE = '' ABCDEFGHIJKLMNOPQRSTUVWXYZ''"

definition unpack_basecall :: "u32 \<Rightarrow> string option" where
  "unpack_basecall n =
     (let i5 = unat (n mod 27); n = n div 27;
          i4 = unat (n mod 27); n = n div 27;
          i3 = unat (n mod 27); n = n div 27;
          i2 = unat (n mod 10); n = n div 10;
          i1 = unat (n mod 36); n = n div 36;
          i0 = unat n
      in if length C0_TABLE \<le> i0 \<or> length C1_TABLE \<le> i1 \<or> length C2_TABLE \<le> i2 \<or>
            length C3_TABLE \<le> i3 \<or> length C3_TABLE \<le> i4 \<or> length C3_TABLE \<le> i5
         then None
         else let call = trim [C0_TABLE ! i0, C1_TABLE ! i1, C2_TABLE ! i2,
                               C3_TABLE ! i3, C3_TABLE ! i4, C3_TABLE ! i5]
              in if call = [] then None else Some call)"

text \<open>The loop that reads a letter modifier, least significant letter first; it stops at the first zero
  digit. The second argument of the result is the stack of characters read.\<close>

function cq_letters :: "u32 \<Rightarrow> string" where
  "cq_letters v =
     (if v = 0 then []
      else let r = v mod 27 in
           if r = 0 then []
           else char_add CHR ''A'' (unat r - 1) # cq_letters (v div 27))"
  by pat_completeness auto
termination
proof (relation "measure unat")
  fix v :: u32
  assume "v \<noteq> 0"
  then show "(v div 27, v) \<in> measure unat"
    by (simp add: unat_div word_neq_0_conv word_less_nat_alt)
qed simp

declare cq_letters.simps [simp del]

definition unpack28 :: "u32 \<Rightarrow> callsign_field" where
  "unpack28 n28 =
     (if n28 = 0 then TokenField ''DE''
      else if n28 = 1 then TokenField ''QRZ''
      else if n28 = 2 then CqField None
      else if n28 \<le> 2063591 then
        (let mod_val = n28 - 3 in
         if mod_val < 1000 then CqField (Some (pad3 (unat mod_val)))
         else let s = trim (rev (cq_letters (mod_val - 1000)))
              in CqField (if s = [] then None else Some s))
      else if n28 < NTOKENS + MAX22 then HashField (n28 - NTOKENS)
      else case unpack_basecall (n28 - NTOKENS - MAX22) of
             Some call \<Rightarrow> CallField call
           | None \<Rightarrow> HashField n28)"

section \<open>Standard calls\<close>

text \<open>An encoder table inverts the index of a decoder table.\<close>

definition table_inverse :: "(char \<Rightarrow> u32 option) \<Rightarrow> string \<Rightarrow> bool" where
  "table_inverse enc table \<longleftrightarrow> (\<forall>c i. enc c = Some i \<longrightarrow> (\<exists>k<length table. i = of_nat k \<and> table ! k = c))"

lemma table_inverseI:
  assumes "list_all (\<lambda>k. enc (table ! k) = Some (of_nat k)) [0..<length table]"
    and "\<And>c i. enc c = Some i \<Longrightarrow> c \<in> set table"
  shows "table_inverse enc table"
proof -
  have "\<exists>k<length table. i = of_nat k \<and> table ! k = c" if c: "enc c = Some i" for c i
  proof -
    obtain k where k: "k < length table" "table ! k = c" using assms(2) [OF c] by (auto simp: in_set_conv_nth)
    then have "enc c = Some (of_nat k)" using assms(1) by (auto simp: list_all_iff)
    with c k show ?thesis by auto
  qed
  then show ?thesis by (simp add: table_inverse_def)
qed

lemma alphanum_space_table: "table_inverse nchar_alphanum_space C0_TABLE"
proof (rule table_inverseI)
  show "list_all (\<lambda>k. nchar_alphanum_space (C0_TABLE ! k) = Some (of_nat k)) [0..<length C0_TABLE]" by code_simp
  show "c \<in> set C0_TABLE" if "nchar_alphanum_space c = Some i" for c i
    using that by (auto simp: nchar_alphanum_space_def digit_in upper_in C0_TABLE_def split: if_splits)
qed
lemma alphanum_table: "table_inverse nchar_alphanum C1_TABLE"
proof (rule table_inverseI)
  show "list_all (\<lambda>k. nchar_alphanum (C1_TABLE ! k) = Some (of_nat k)) [0..<length C1_TABLE]" by code_simp
  show "c \<in> set C1_TABLE" if "nchar_alphanum c = Some i" for c i
    using that by (auto simp: nchar_alphanum_def digit_in upper_in C1_TABLE_def split: if_splits)
qed
lemma numeric_table: "table_inverse nchar_numeric C2_TABLE"
proof (rule table_inverseI)
  show "list_all (\<lambda>k. nchar_numeric (C2_TABLE ! k) = Some (of_nat k)) [0..<length C2_TABLE]" by code_simp
  show "c \<in> set C2_TABLE" if "nchar_numeric c = Some i" for c i
    using that by (auto simp: nchar_numeric_def digit_in C2_TABLE_def split: if_splits)
qed
lemma letters_space_table: "table_inverse nchar_letters_space C3_TABLE"
proof (rule table_inverseI)
  show "list_all (\<lambda>k. nchar_letters_space (C3_TABLE ! k) = Some (of_nat k)) [0..<length C3_TABLE]" by code_simp
  show "c \<in> set C3_TABLE" if "nchar_letters_space c = Some i" for c i
    using that by (auto simp: nchar_letters_space_def upper_in C3_TABLE_def split: if_splits)
qed

lemma call_table_lengths: "length C0_TABLE = 37" "length C1_TABLE = 36" "length C2_TABLE = 10" "length C3_TABLE = 27"
  by (simp_all add: C0_TABLE_def C1_TABLE_def C2_TABLE_def C3_TABLE_def)

lemmas call_tables = alphanum_space_table alphanum_table numeric_table letters_space_table

definition basecall_value :: "nat \<Rightarrow> nat \<Rightarrow> nat \<Rightarrow> nat \<Rightarrow> nat \<Rightarrow> nat \<Rightarrow> nat" where
  "basecall_value k0 k1 k2 k3 k4 k5 = ((((k0 * 36 + k1) * 10 + k2) * 27 + k3) * 27 + k4) * 27 + k5"

lemma basecall_value_less:
  assumes "k0 < 37" "k1 < 36" "k2 < 10" "k3 < 27" "k4 < 27" "k5 < 27"
  shows "basecall_value k0 k1 k2 k3 k4 k5 < 262177560"
  using assms by (simp add: basecall_value_def)

lemma unpack_basecall_value:
  assumes k: "k0 < 37" "k1 < 36" "k2 < 10" "k3 < 27" "k4 < 27" "k5 < 27"
  shows "unpack_basecall (of_nat (basecall_value k0 k1 k2 k3 k4 k5)) =
    (let call = trim [C0_TABLE ! k0, C1_TABLE ! k1, C2_TABLE ! k2, C3_TABLE ! k3, C3_TABLE ! k4, C3_TABLE ! k5]
     in if call = [] then None else Some call)"
proof -
  define v where "v = basecall_value k0 k1 k2 k3 k4 k5"
  have v: "v < 262177560" using basecall_value_less [OF k] by (simp add: v_def)
  then have small: "v < 2 ^ LENGTH(32)" "v div 27 < 2 ^ LENGTH(32)" "v div 27 div 27 < 2 ^ LENGTH(32)"
    "v div 27 div 27 div 27 < 2 ^ LENGTH(32)" "v div 27 div 27 div 27 div 10 < 2 ^ LENGTH(32)"
    "v div 27 div 27 div 27 div 10 div 36 < 2 ^ LENGTH(32)"
    by simp_all
  have digits: "v mod 27 = k5" "v div 27 mod 27 = k4" "v div 27 div 27 mod 27 = k3"
    "v div 27 div 27 div 27 mod 10 = k2" "v div 27 div 27 div 27 div 10 mod 36 = k1"
    "v div 27 div 27 div 27 div 10 div 36 = k0"
    unfolding v_def basecall_value_def by (simp_all only: k radix_div radix_mod)
  have "unat (of_nat j :: u32) = j" if "j < 37" for j using that by (simp add: unat_of_nat_less)
  then show ?thesis
    unfolding v_def [symmetric] unpack_basecall_def Let_def call_table_lengths
    using k small by (simp add: word_of_nat_div word_of_nat_mod digits)
qed

lemma pack_c6_unpack:
  assumes "pack_c6 c6 = Some n" and len: "length c6 = 6"
  shows "(\<exists>v<262177560. n = of_nat v) \<and> unpack_basecall n = Some (trim c6)"
proof -
  obtain i0 i1 i2 i3 i4 i5 where i: "nchar_alphanum_space (c6 ! 0) = Some i0" "nchar_alphanum (c6 ! 1) = Some i1"
    "nchar_numeric (c6 ! 2) = Some i2" "nchar_letters_space (c6 ! 3) = Some i3" "nchar_letters_space (c6 ! 4) = Some i4"
    "nchar_letters_space (c6 ! 5) = Some i5" and n: "n = ((((i0 * 36 + i1) * 10 + i2) * 27 + i3) * 27 + i4) * 27 + i5"
    using assms(1) by (auto simp: pack_c6_def bind_eq_Some_conv)
  obtain k0 k1 k2 k3 k4 k5 where k: "k0 < 37" "k1 < 36" "k2 < 10" "k3 < 27" "k4 < 27" "k5 < 27"
    and ik: "i0 = of_nat k0" "i1 = of_nat k1" "i2 = of_nat k2" "i3 = of_nat k3" "i4 = of_nat k4" "i5 = of_nat k5"
    and c: "C0_TABLE ! k0 = c6 ! 0" "C1_TABLE ! k1 = c6 ! 1" "C2_TABLE ! k2 = c6 ! 2" "C3_TABLE ! k3 = c6 ! 3"
      "C3_TABLE ! k4 = c6 ! 4" "C3_TABLE ! k5 = c6 ! 5"
    using i call_tables [unfolded table_inverse_def call_table_lengths] by metis
  have c6: "c6 = [c6 ! 0, c6 ! 1, c6 ! 2, c6 ! 3, c6 ! 4, c6 ! 5]"
    using len by (simp add: list_eq_iff_nth_eq less_Suc_eq numeral_eq_Suc)
  have nv: "n = of_nat (basecall_value k0 k1 k2 k3 k4 k5)" by (simp add: n ik basecall_value_def)
  have "is_ascii_digit (c6 ! 2)" using i(3) by (simp add: nchar_numeric_def split: if_splits)
  then have "\<not> is_whitespace (c6 ! 2)" by (auto simp: ascii_simps)
  moreover have "c6 ! 2 \<in> set c6" using len by simp
  ultimately have "trim c6 \<noteq> []" by (auto simp: trim_eq_Nil list_all_iff)
  then show ?thesis
    using unpack_basecall_value [OF k, unfolded c, folded c6] basecall_value_less [OF k] by (auto simp: nv Let_def)
qed

lemma length_copy_into [simp]: "length (copy_into off bs c6) = length c6"
  by (induction off bs c6 rule: copy_into.induct) auto

lemma copy_into_append:
  "length xs = off \<Longrightarrow> length bs \<le> length ys \<Longrightarrow> length xs + length ys = 6 \<Longrightarrow>
     copy_into off bs (xs @ ys) = xs @ bs @ drop (length bs) ys"
proof (induction bs arbitrary: off xs ys)
  case (Cons b bs)
  then obtain y ys' where ys: "ys = y # ys'" by (cases ys) auto
  have "copy_into (Suc off) bs ((xs @ [b]) @ ys') = (xs @ [b]) @ bs @ drop (length bs) ys'"
    using Cons ys by (intro Cons.IH) auto
  with Cons.prems ys show ?case by (simp add: list_update_append)
qed simp

text \<open>The two prefixes the encoder rewrites: Swaziland and Guinea.\<close>

definition rewritten_prefix :: "string \<Rightarrow> bool" where
  "rewritten_prefix callsign \<longleftrightarrow>
     starts_with callsign ''3DA0'' \<and> 4 < length callsign \<or>
     starts_with callsign ''3X'' \<and> 2 < length callsign \<and> is_ascii_alphabetic (callsign ! 2)"

lemma normalize_call_padded:
  assumes "normalize_call c = Some c6" and "\<not> rewritten_prefix c"
  shows "length c6 = 6 \<and> (\<exists>a b. c6 = replicate a CHR '' '' @ c @ replicate b CHR '' '')"
proof -
  have len: "3 \<le> length c" "length c \<le> 6" using assms(1) by (auto simp: normalize_call_def Let_def split: if_splits)
  consider "c6 = copy_into 0 c (replicate 6 CHR '' '')" | "c6 = copy_into 1 c (replicate 6 CHR '' '')" "length c \<le> 5"
    using assms by (auto simp: normalize_call_def rewritten_prefix_def Let_def split: if_splits)
  then show ?thesis
  proof cases
    case 1
    then have "c6 = c @ replicate (6 - length c) CHR '' ''"
      using copy_into_append [of "[]" 0 c "replicate 6 CHR '' ''"] len by simp
    with 1 show ?thesis by (intro conjI exI [of _ 0] exI [of _ "6 - length c"]) simp_all
  next
    case 2
    have "copy_into 1 c ([CHR '' ''] @ replicate 5 CHR '' '') = [CHR '' ''] @ c @ drop (length c) (replicate 5 CHR '' '')"
      using 2(2) by (intro copy_into_append) simp_all
    moreover have "replicate 6 CHR '' '' = [CHR '' ''] @ replicate 5 CHR '' ''" by (simp add: numeral_eq_Suc)
    ultimately have "c6 = [CHR '' ''] @ c @ replicate (5 - length c) CHR '' ''" by (simp only: 2(1) drop_replicate)
    with 2 show ?thesis by (intro conjI exI [of _ 1] exI [of _ "5 - length c"]) simp_all
  qed
qed

lemma pack_basecall_unpack:
  assumes "pack_basecall c = Some n" and "\<not> rewritten_prefix c" and "\<forall>x\<in>set c. \<not> is_whitespace x"
  shows "(\<exists>v<262177560. n = of_nat v) \<and> unpack_basecall n = Some c"
proof -
  obtain c6 where c6: "normalize_call c = Some c6" "pack_c6 c6 = Some n"
    using assms(1) by (auto simp: pack_basecall_def bind_eq_Some_conv)
  obtain a b where ab: "length c6 = 6" "c6 = replicate a CHR '' '' @ c @ replicate b CHR '' ''"
    using normalize_call_padded [OF c6(1) assms(2)] by blast
  have "trim c6 = c" unfolding ab(2) using trim_id [OF assms(3)]
    by (simp add: trim_append_blank trim_prepend_blank list_all_iff is_whitespace_def)
  with pack_c6_unpack [OF c6(2) ab(1)] show ?thesis by simp
qed

section \<open>CQ modifiers\<close>

definition letter_digits :: "string \<Rightarrow> nat list" where
  "letter_digits m = map (\<lambda>b. char_diff b CHR ''A'' + 1) m"

lemma letter_digits_range:
  "list_all is_ascii_uppercase m \<Longrightarrow> \<forall>d\<in>set (letter_digits m). 0 < d \<and> d < 27"
  by (auto simp: letter_digits_def list_all_iff is_ascii_uppercase_def char_diff_def)

lemma cq_value:
  "foldl (\<lambda>m b. 27 * m + (of_nat (char_diff b CHR ''A'') + 1)) (of_nat v) bs =
     (of_nat (foldl (\<lambda>v d. v * 27 + d) v (letter_digits bs)) :: u32)"
proof (induction bs arbitrary: v)
  case (Cons b bs)
  have "27 * of_nat v + (of_nat (char_diff b CHR ''A'') + 1) = (of_nat (v * 27 + (char_diff b CHR ''A'' + 1)) :: u32)"
    by simp
  then show ?case
    using Cons [of "v * 27 + (char_diff b CHR ''A'' + 1)"] by (simp only: letter_digits_def foldl.simps list.map)
qed (simp add: letter_digits_def)

lemma cq_letters_value:
  assumes "\<forall>d\<in>set ds. 0 < d \<and> d < 27" and "length ds \<le> 4"
  shows "cq_letters (of_nat (radix_value 27 ds)) = rev (map (\<lambda>d. char_add CHR ''A'' (d - 1)) ds)"
  using assms
proof (induction ds rule: rev_induct)
  case Nil
  then show ?case by (simp add: cq_letters.simps)
next
  case (snoc d ds)
  define v where "v = radix_value 27 (ds @ [d])"
  have d: "0 < d" "d < 27" and ds: "\<forall>d\<in>set ds. d < 27" using snoc.prems by auto
  have "v < 27 ^ length (ds @ [d])" unfolding v_def by (rule r27.value_less) (use snoc.prems in auto)
  also have "\<dots> \<le> (27::nat) ^ 4" using snoc.prems by (intro power_increasing) auto
  finally have less: "v < 2 ^ LENGTH(32)" by simp
  have parts: "v mod 27 = d" "v div 27 = radix_value 27 ds" and pos: "v \<noteq> 0" using d by (simp_all add: v_def)
  have "(of_nat v :: u32) \<noteq> 0" using less pos word_of_nat_eq_iff [where 'a = 32, of v 0] by simp
  moreover have "(of_nat v :: u32) mod 27 = of_nat d" "(of_nat v :: u32) div 27 = of_nat (radix_value 27 ds)"
    using less parts by (simp_all add: word_of_nat_mod word_of_nat_div)
  moreover have "unat (of_nat d :: u32) = d" using d by (simp add: unat_of_nat_less)
  moreover have "(of_nat d :: u32) \<noteq> 0" using d word_of_nat_eq_iff [where 'a = 32, of d 0] by simp
  ultimately have "cq_letters (of_nat v) = char_add CHR ''A'' (d - 1) # cq_letters (of_nat (radix_value 27 ds))"
    by (subst cq_letters.simps) (simp add: Let_def)
  with snoc show ?case by (simp add: v_def)
qed

lemma pad3_digits:
  assumes "length m = 3" and "list_all is_ascii_digit m"
  shows "pad3 (dec_value m) = m \<and> dec_value m < 1000"
proof -
  obtain a b c where m: "m = [a, b, c]" using assms(1) by (auto simp: length_Suc_conv numeral_eq_Suc)
  define x y z where "x = char_diff a CHR ''0''" and "y = char_diff b CHR ''0''" and "z = char_diff c CHR ''0''"
  have less: "x < 10" "y < 10" "z < 10" using assms(2)
    by (auto simp: m x_def y_def z_def char_diff_def is_ascii_digit_def)
  have ch: "a = char_add CHR ''0'' x" "b = char_add CHR ''0'' y" "c = char_add CHR ''0'' z" using assms(2)
    by (auto simp: m x_def y_def z_def is_ascii_digit_def char_add_diff)
  have v: "dec_value m = (x * 10 + y) * 10 + z" by (simp add: m dec_value_def x_def y_def z_def)
  have zero: "char_add CHR ''0'' 0 = CHR ''0''" by code_simp
  have step: "nat_to_dec (n * 10 + d) = (if n = 0 then [char_add CHR ''0'' d] else nat_to_dec n @ [char_add CHR ''0'' d])"
    if "d < 10" for n d
    using that by (subst nat_to_dec.simps) auto
  have x1: "nat_to_dec x = [char_add CHR ''0'' x]" using less(1) by (subst nat_to_dec.simps) simp
  have r2: "replicate 2 e = [e, e]" for e :: char by (simp add: numeral_2_eq_2)
  have "x = 0 \<and> y = 0 \<or> x = 0 \<and> 0 < y \<or> 0 < x" by auto
  then have "pad3 ((x * 10 + y) * 10 + z) = m"
    by (elim disjE) (simp_all only: pad3_def step [OF less(3)] step [OF less(2)] x1 Let_def m ch,
      simp_all add: step [OF less(2), of 0, simplified] zero r2 ch)
  with less show ?thesis by (simp add: v)
qed

section \<open>The whole field\<close>

lemma n28_order:
  assumes "n < 2 ^ 28"
  shows "(of_nat n :: u32) = 0 \<longleftrightarrow> n = 0" and "(of_nat n :: u32) = 1 \<longleftrightarrow> n = 1" and "(of_nat n :: u32) = 2 \<longleftrightarrow> n = 2"
    and "(of_nat n :: u32) \<le> 2063591 \<longleftrightarrow> n \<le> 2063591" and "(of_nat n :: u32) < 6257896 \<longleftrightarrow> n < 6257896"
    and "(of_nat n :: u32) < 1000 \<longleftrightarrow> n < 1000"
proof -
  have lt: "n < 2 ^ LENGTH(32)" using assms by simp
  have eq: "(of_nat n :: u32) = of_nat k \<longleftrightarrow> n = k" if "k < 2 ^ 28" for k
    using that lt by (intro word_of_nat_eq_iff) simp_all
  have le: "(of_nat n :: u32) < of_nat k \<longleftrightarrow> n < k" if "k < 2 ^ 28" for k
    using that lt by (intro word_of_nat_less) simp_all
  show "(of_nat n :: u32) = 0 \<longleftrightarrow> n = 0" "(of_nat n :: u32) = 1 \<longleftrightarrow> n = 1" "(of_nat n :: u32) = 2 \<longleftrightarrow> n = 2"
    using eq [of 0] eq [of 1] eq [of 2] by simp_all
  show "(of_nat n :: u32) \<le> 2063591 \<longleftrightarrow> n \<le> 2063591" "(of_nat n :: u32) < 6257896 \<longleftrightarrow> n < 6257896"
    "(of_nat n :: u32) < 1000 \<longleftrightarrow> n < 1000"
    using le [of 6257896] le [of 1000] le [of 2063591] eq [of 2063591] by (simp_all add: order.order_iff_strict)
qed

lemma unpack28_cq_field:
  assumes "k < 2063589"
  shows "unpack28 (of_nat (k + 3)) =
    (if k < 1000 then CqField (Some (pad3 k))
     else let s = trim (rev (cq_letters (of_nat (k - 1000)))) in CqField (if s = [] then None else Some s))"
proof -
  have n: "k + 3 < 2 ^ 28" "k < 2 ^ 28" using assms by simp_all
  have sub: "(of_nat (k + 3) :: u32) - 3 = of_nat k" by simp
  have "unat (of_nat k :: u32) = k" using n by (intro unat_of_nat_less) simp
  moreover have "(of_nat k :: u32) - 1000 = of_nat (k - 1000)" if "\<not> k < 1000" using that by (simp add: of_nat_diff)
  ultimately show ?thesis
    unfolding unpack28_def n28_order [OF n(1)] sub Let_def n28_order [OF n(2)] using assms by simp
qed

lemma unpack28_call_field:
  assumes "v < 262177560"
  shows "unpack28 (of_nat (v + 6257896)) =
    (case unpack_basecall (of_nat v) of Some call \<Rightarrow> CallField call | None \<Rightarrow> HashField (of_nat (v + 6257896)))"
proof -
  have n: "v + 6257896 < 2 ^ 28" using assms by simp
  have sub: "(of_nat (v + 6257896) :: u32) - 2063592 - 4194304 = of_nat v" by simp
  have sum: "(2063592 + 4194304 :: u32) = 6257896" by simp
  show ?thesis
    unfolding unpack28_def NTOKENS_def MAX22_def sub sum n28_order [OF n] by simp
qed

lemma pack28_cq:
  assumes "pack28 (''CQ '' @ m) = Inr (n28, ip)"
  shows "unpack28 n28 = CqField (Some m) \<and> ip = 0 \<and> n28 < 2 ^ 28"
proof -
  let ?c = "''CQ '' @ m"
  have none: "pack_basecall (fst (strip_portable ?c)) = None" if len: "8 \<le> length ?c"
  proof -
    obtain b where "fst (strip_portable ?c) = ''CQ '' @ b"
    proof (cases "ends_with ?c ''/P'' \<or> ends_with ?c ''/R''")
      case True
      moreover have "take (length ?c - 2) ?c = ''CQ '' @ take (length m - 2) m"
        using len by (subst take_append) (simp add: numeral_2_eq_2)
      ultimately have "fst (strip_portable ?c) = ''CQ '' @ take (length m - 2) m"
        unfolding strip_portable_def by (simp only: if_True fst_conv)
      then show ?thesis by (rule that)
    qed (simp add: strip_portable_def that)
    then show ?thesis
      by (simp add: pack_basecall_def normalize_call_def starts_with_def is_ascii_digit_def Let_def)
  qed
  show ?thesis
  proof (cases "length ?c < 8")
    case False
    with none assms show ?thesis by (auto simp: pack28_def starts_with_def Let_def split_beta split: if_splits)
  next
    case True
    then obtain v where v: "parse_cq_modifier m = Some v" "n28 = 3 + v" "ip = 0"
      using assms by (auto simp: pack28_def starts_with_def Let_def split: option.splits)
    consider "length m = 3" "list_all is_ascii_digit m" "v = of_nat (dec_value m)"
      | "list_all is_ascii_uppercase m" "m \<noteq> []" "length m \<le> 4" "v = of_nat (1000 + radix_value 27 (letter_digits m))"
      using v(1) cq_value [of 0 m]
      by (auto simp: parse_cq_modifier_def radix_value_def split: if_splits)
    then show ?thesis
    proof cases
      case 1
      then have "pad3 (dec_value m) = m" "dec_value m < 1000" using pad3_digits [of m] by auto
      moreover have n: "n28 = of_nat (dec_value m + 3)" using 1 v by simp
      moreover have "unpack28 (of_nat (dec_value m + 3)) = CqField (Some (pad3 (dec_value m)))"
        using \<open>dec_value m < 1000\<close> by (subst unpack28_cq_field) simp_all
      moreover have "n28 < of_nat (2 ^ 28)" unfolding n
        using \<open>dec_value m < 1000\<close> by (subst word_of_nat_less) simp_all
      ultimately show ?thesis using v by (simp add: add.commute)
    next
      case 2
      define r where "r = radix_value 27 (letter_digits m)"
      have "r < 27 ^ length (letter_digits m)"
        unfolding r_def using letter_digits_range [OF 2(1)] by (intro r27.value_less) auto
      also have "\<dots> \<le> (27::nat) ^ 4" using 2(3) by (intro power_increasing) (simp_all add: letter_digits_def)
      finally have r: "r < 531441" by simp
      have "cq_letters (of_nat r) = rev (map (\<lambda>d. char_add CHR ''A'' (d - 1)) (letter_digits m))"
        unfolding r_def using letter_digits_range [OF 2(1)] 2(3)
        by (intro cq_letters_value) (auto simp: letter_digits_def)
      moreover have "map (\<lambda>d. char_add CHR ''A'' (d - 1)) (letter_digits m) = m"
        using 2(1) by (auto simp: letter_digits_def list_all_iff is_ascii_uppercase_def char_add_diff intro!: map_idI)
      moreover have "trim m = m" using 2(1) by (intro trim_id) (auto simp: list_all_iff ascii_simps)
      ultimately have "trim (rev (cq_letters (of_nat r))) = m" by simp
      moreover have n: "n28 = of_nat (r + 1000 + 3)" using 2 v by (simp add: r_def)
      moreover have "unpack28 (of_nat (r + 1000 + 3)) = CqField (Some m)"
        using r \<open>trim (rev (cq_letters (of_nat r))) = m\<close> 2(2) by (subst unpack28_cq_field) (simp_all add: Let_def)
      moreover have "n28 < of_nat (2 ^ 28)" unfolding n using r by (subst word_of_nat_less) simp_all
      ultimately show ?thesis using v by simp
    qed
  qed
qed

lemma pack28_call:
  assumes "pack28 c = Inr (n28, ip)" and "\<forall>x\<in>set c. \<not> is_whitespace x" and "c \<notin> {''DE'', ''QRZ'', ''CQ''}"
    and "\<not> rewritten_prefix (fst (strip_portable c))"
  shows "unpack28 n28 = CallField (fst (strip_portable c)) \<and> ip = snd (strip_portable c) \<and> n28 < 2 ^ 28"
proof -
  let ?b = "fst (strip_portable c)"
  have "\<not> starts_with c ''CQ ''"
  proof
    assume "starts_with c ''CQ ''"
    then have "CHR '' '' \<in> set (take (length ''CQ '') c)" unfolding starts_with_def by (simp only:) simp
    then have "CHR '' '' \<in> set c" by (rule in_set_takeD)
    then show False using assms(2) by (auto simp: is_whitespace_def)
  qed
  then obtain n where n: "pack_basecall ?b = Some n" "n28 = NTOKENS + MAX22 + n" "ip = snd (strip_portable c)"
    using assms(1,3) by (auto simp: pack28_def Let_def split_beta split: option.splits if_splits)
  have "set ?b \<subseteq> set c" by (auto simp: strip_portable_def dest: in_set_takeD split: if_splits)
  with assms(2) have "\<forall>x\<in>set ?b. \<not> is_whitespace x" by blast
  from pack_basecall_unpack [OF n(1) assms(4) this] obtain v where
    v: "v < 262177560" "n = of_nat v" "unpack_basecall (of_nat v) = Some ?b" by auto
  have n28: "n28 = of_nat (v + 6257896)" using n(2) v(2) by (simp add: NTOKENS_def MAX22_def)
  have "unpack28 (of_nat (v + 6257896)) = CallField ?b"
    using v by (subst unpack28_call_field) simp_all
  moreover have "n28 < of_nat (2 ^ 28)" unfolding n28 using v by (subst word_of_nat_less) simp_all
  ultimately show ?thesis using n28 n(3) by simp
qed

lemma normalize_call_length: "normalize_call c = Some c6 \<Longrightarrow> length c6 = 6"
  by (auto simp: normalize_call_def Let_def split: if_splits)

lemma pack28_bound:
  assumes "pack28 c = Inr (n28, ip)"
  shows "n28 < 2 ^ 28"
proof (cases "starts_with c ''CQ ''")
  case True
  then have "c = ''CQ '' @ drop (length ''CQ '') c" unfolding starts_with_def by (metis append_take_drop_id)
  with assms pack28_cq show ?thesis by metis
next
  case False
  consider "n28 \<le> 2" | n where "pack_basecall (fst (strip_portable c)) = Some n" "n28 = NTOKENS + MAX22 + n"
    using assms False by (auto simp: pack28_def Let_def split_beta split: option.splits if_splits)
  then show ?thesis
  proof cases
    case 1
    then show ?thesis by (rule order.strict_trans1) simp
  next
    case 2
    then obtain c6 where "pack_c6 c6 = Some n" "length c6 = 6"
      by (auto simp: pack_basecall_def bind_eq_Some_conv dest: normalize_call_length)
    then obtain v where v: "v < 262177560" "n = of_nat v" using pack_c6_unpack by blast
    then have "n28 = of_nat (v + 6257896)" using 2(2) by (simp add: NTOKENS_def MAX22_def)
    moreover have "(of_nat (v + 6257896) :: u32) < of_nat (2 ^ 28)" using v by (subst word_of_nat_less) simp_all
    ultimately show ?thesis by simp
  qed
qed

text \<open>The rewriting of the Swaziland and Guinea prefixes is not undone on reception: the rewritten call is
  shared with another call and decodes as that one.\<close>

lemma rewritten_prefix_is_lossy:
  "pack28 ''3DA0AB'' = pack28 ''3D0AB'' \<and> pack28 ''3XA1B'' = pack28 ''QA1B'' \<and>
   map_sum id (\<lambda>(n28, ip). unpack28 n28) (pack28 ''3DA0AB'') = Inr (CallField ''3D0AB'') \<and>
   map_sum id (\<lambda>(n28, ip). unpack28 n28) (pack28 ''3XA1B'') = Inr (CallField ''QA1B'')"
  by code_simp

text \<open>The 28-bit callsign field. Whatever the encoder packs fits 28 bits. Unpacking gives back the special
  tokens, a CQ with its modifier, and every standard call without its portable suffix, whose flag is
  reported; the calls with a Swaziland or Guinea prefix, which the encoder rewrites, are excluded.\<close>

theorem call_field_roundtrip:
  assumes "pack28 c = Inr (n28, ip)"
  shows "n28 < 2 ^ 28 \<and>
    (c = ''DE'' \<or> c = ''QRZ'' \<longrightarrow> unpack28 n28 = TokenField c) \<and>
    (c = ''CQ'' \<longrightarrow> unpack28 n28 = CqField None) \<and>
    (\<forall>m. c = ''CQ '' @ m \<longrightarrow> unpack28 n28 = CqField (Some m)) \<and>
    (c \<notin> {''DE'', ''QRZ'', ''CQ''} \<and> (\<forall>x\<in>set c. \<not> is_whitespace x) \<and>
       \<not> rewritten_prefix (fst (strip_portable c)) \<longrightarrow>
     unpack28 n28 = CallField (fst (strip_portable c)) \<and> ip = snd (strip_portable c))"
proof (intro conjI impI allI)
  show "n28 < 2 ^ 28" using assms by (rule pack28_bound)
  show "unpack28 n28 = TokenField c" if "c = ''DE'' \<or> c = ''QRZ''"
    using that assms by (auto simp: pack28_def unpack28_def)
  show "unpack28 n28 = CqField None" if "c = ''CQ''"
    using that assms by (simp add: pack28_def unpack28_def)
  show "unpack28 n28 = CqField (Some m)" if "c = ''CQ '' @ m" for m
    using assms pack28_cq [of m n28 ip] unfolding that by simp
qed (use pack28_call [OF assms] in auto)

theorem call_field_roundtrip_witness:
  "\<exists>n28. pack28 ''W1ABC/P'' = Inr (n28, 1) \<and> unpack28 n28 = CallField ''W1ABC''"
proof -
  obtain n28 where n: "pack28 ''W1ABC/P'' = Inr (n28, 1)"
  proof
    show "pack28 ''W1ABC/P'' = Inr (12576925, 1)" by code_simp
  qed
  have "fst (strip_portable ''W1ABC/P'') = ''W1ABC''" "list_all (\<lambda>x. \<not> is_whitespace x) ''W1ABC/P''"
    "\<not> rewritten_prefix ''W1ABC''" by code_simp+
  with n call_field_roundtrip [OF n] show ?thesis by (simp add: list_all_iff)
qed

end
