(* ===== verification/Exchange_Field.thy ===== *)
theory Exchange_Field
  imports Radix Bits
begin

text \<open>
  The exchange field of a standard message, sixteen bits on the way out (bit 15 is the R flag) and fifteen
  on the way in: \<open>packgrid\<close> and \<open>parse_report\<close> of \<open>pancetta-ft8/src/encoder.rs\<close> and \<open>unpackgrid\<close> of
  \<open>pancetta-ft8/src/message.rs\<close>. A field is a four-character grid locator, one of the tokens RRR, RR73
  and 73, a signal report, or blank.
\<close>

section \<open>Encoding\<close>

definition MAXGRID4 :: u16 where
  "MAXGRID4 = 32400"

definition parse_report :: "string \<Rightarrow> int option" where
  "parse_report s = parse_i32 s"

text \<open>Letters A to R, A to R and two digits.\<close>

definition is_grid4 :: "string \<Rightarrow> bool" where
  "is_grid4 bytes \<longleftrightarrow>
     length bytes = 4 \<and>
     char_between CHR ''A'' CHR ''R'' (bytes ! 0) \<and> char_between CHR ''A'' CHR ''R'' (bytes ! 1) \<and>
     is_ascii_digit (bytes ! 2) \<and> is_ascii_digit (bytes ! 3)"

definition grid4_value :: "string \<Rightarrow> u16" where
  "grid4_value bytes =
     (let igrid4 = of_nat (char_diff (bytes ! 0) CHR ''A'');
          igrid4 = igrid4 * 18 + of_nat (char_diff (bytes ! 1) CHR ''A'');
          igrid4 = igrid4 * 10 + of_nat (char_diff (bytes ! 2) CHR ''0'');
          igrid4 = igrid4 * 10 + of_nat (char_diff (bytes ! 3) CHR ''0'')
      in igrid4)"

text \<open>The R-plus-grid acknowledgement at the end of \<open>packgrid\<close>.\<close>

definition packgrid_ack :: "string \<Rightarrow> u16" where
  "packgrid_ack extra =
     (case strip_prefix ''R '' extra of
        Some gbytes \<Rightarrow> if is_grid4 gbytes then grid4_value gbytes OR 0x8000 else MAXGRID4 + 1
      | None \<Rightarrow> MAXGRID4 + 1)"

definition packgrid :: "string \<Rightarrow> u16" where
  "packgrid extra =
     (if extra = [] then MAXGRID4 + 1
      else if extra = ''RRR'' then MAXGRID4 + 2
      else if extra = ''RR73'' then MAXGRID4 + 3
      else if extra = ''73'' then MAXGRID4 + 4
      else if is_grid4 extra then grid4_value extra
      else if extra ! 0 = CHR ''R'' \<and> 2 \<le> length extra then
        (case parse_report (drop 1 extra) of
           Some dd \<Rightarrow> if \<not> (- 35 \<le> dd \<and> dd \<le> 30) then MAXGRID4 + 1
                      else (MAXGRID4 + of_int (35 + dd)) OR 0x8000
         | None \<Rightarrow> packgrid_ack extra)
      else
        (case parse_report extra of
           Some dd \<Rightarrow> if \<not> (- 35 \<le> dd \<and> dd \<le> 30) then MAXGRID4 + 1
                      else MAXGRID4 + of_int (35 + dd)
         | None \<Rightarrow> packgrid_ack extra))"

section \<open>Decoding\<close>

definition unpackgrid :: "u16 \<Rightarrow> u8 \<Rightarrow> string option \<times> int option \<times> string option" where
  "unpackgrid igrid4 ir =
     (let d3 = unat (igrid4 mod 10); g = igrid4 div 10;
          d2 = unat (g mod 10); g = g div 10;
          d1 = unat (g mod 18); g = g div 18;
          d0 = unat g
      in if igrid4 < MAXGRID4 \<and> d0 < 18 \<and> d1 < 18 \<and> d2 < 10 \<and> d3 < 10
         then (Some [char_add CHR ''A'' d0, char_add CHR ''A'' d1, char_add CHR ''0'' d2, char_add CHR ''0'' d3],
               None, None)
         else if igrid4 = MAXGRID4 + 1 then (None, None, None)
         else if igrid4 = MAXGRID4 + 2 then (None, None, Some ''RRR'')
         else if igrid4 = MAXGRID4 + 3 then (None, None, Some ''RR73'')
         else if igrid4 = MAXGRID4 + 4 then (None, None, Some ''73'')
         else (None, Some (sint (ucast (igrid4 - MAXGRID4 - 35) :: 8 word)), None))"

section \<open>Grids\<close>

text \<open>The digits of a locator.\<close>

definition grid4_nat :: "string \<Rightarrow> nat" where
  "grid4_nat g =
     ((char_diff (g ! 0) CHR ''A'' * 18 + char_diff (g ! 1) CHR ''A'') * 10 + char_diff (g ! 2) CHR ''0'') * 10 +
     char_diff (g ! 3) CHR ''0''"

lemma grid4_value_nat: "grid4_value g = of_nat (grid4_nat g)"
  by (simp add: grid4_value_def grid4_nat_def Let_def)

lemma grid4_digits:
  assumes "is_grid4 g"
  shows "char_diff (g ! 0) CHR ''A'' < 18" "char_diff (g ! 1) CHR ''A'' < 18"
    "char_diff (g ! 2) CHR ''0'' < 10" "char_diff (g ! 3) CHR ''0'' < 10"
  using assms by (auto simp: is_grid4_def is_ascii_digit_def char_diff_def char_between_def)

lemma grid4_nat_less: "is_grid4 g \<Longrightarrow> grid4_nat g < 32400"
  using grid4_digits [of g] by (simp add: grid4_nat_def)

lemma grid4_chars:
  assumes "is_grid4 g"
  shows "[char_add CHR ''A'' (char_diff (g ! 0) CHR ''A''), char_add CHR ''A'' (char_diff (g ! 1) CHR ''A''),
          char_add CHR ''0'' (char_diff (g ! 2) CHR ''0''), char_add CHR ''0'' (char_diff (g ! 3) CHR ''0'')] = g"
proof -
  have "g = [g ! 0, g ! 1, g ! 2, g ! 3]"
    using assms by (simp add: is_grid4_def list_eq_iff_nth_eq less_Suc_eq numeral_eq_Suc)
  then show ?thesis
    using assms by (simp add: is_grid4_def is_ascii_digit_def char_add_diff char_between_def)
qed

lemma unpackgrid_grid:
  assumes "is_grid4 g"
  shows "unpackgrid (of_nat (grid4_nat g)) ir = (Some g, None, None)"
proof -
  define n where "n = grid4_nat g"
  have n: "n < 32400" using grid4_nat_less [OF assms] by (simp add: n_def)
  have small: "n < 2 ^ LENGTH(16)" "n div 10 < 2 ^ LENGTH(16)" "n div 10 div 10 < 2 ^ LENGTH(16)"
    "n div 10 div 10 div 18 < 2 ^ LENGTH(16)" using n by simp_all
  have digits: "n mod 10 = char_diff (g ! 3) CHR ''0''" "n div 10 mod 10 = char_diff (g ! 2) CHR ''0''"
    "n div 10 div 10 mod 18 = char_diff (g ! 1) CHR ''A''" "n div 10 div 10 div 18 = char_diff (g ! 0) CHR ''A''"
    unfolding n_def grid4_nat_def by (simp_all only: radix_div radix_mod grid4_digits [OF assms])
  have un: "unat (of_nat j :: u16) = j" if "j < 18" for j using that by (simp add: unat_of_nat_less)
  have lt: "(of_nat n :: u16) < of_nat 32400" using n by (subst word_of_nat_less) simp_all
  show ?thesis
    unfolding n_def [symmetric] unpackgrid_def Let_def MAXGRID4_def
    using lt un small grid4_digits [OF assms] by (simp add: word_of_nat_div word_of_nat_mod digits grid4_chars [OF assms, simplified])
qed

lemma grid4_first:
  assumes "is_grid4 g"
  shows "g \<noteq> []" and "g \<noteq> ''RRR''" and "g \<noteq> ''73''" and "packgrid (''R '' @ g) = grid4_value g OR 0x8000"
proof -
  show "g \<noteq> []" "g \<noteq> ''RRR''" "g \<noteq> ''73''" using assms by (auto simp: is_grid4_def)
  have "\<not> is_grid4 (''R '' @ g)" using assms by (auto simp: is_grid4_def)
  moreover have "parse_report (drop 1 (''R '' @ g)) = None"
    by (simp add: parse_report_def parse_i32_def is_ascii_digit_def)
  moreover have "strip_prefix ''R '' (''R '' @ g) = Some g" by (simp add: strip_prefix_def starts_with_def)
  ultimately show "packgrid (''R '' @ g) = grid4_value g OR 0x8000"
    using assms by (simp add: packgrid_def packgrid_ack_def)
qed

lemma packgrid_grid: "is_grid4 g \<Longrightarrow> g \<noteq> ''RR73'' \<Longrightarrow> packgrid g = grid4_value g"
  using grid4_first [of g] by (simp add: packgrid_def)

section \<open>Reports\<close>

lemma parse_report_shape:
  assumes "parse_report s = Some d"
  shows "s \<noteq> []" and "\<not> is_grid4 s" and "s ! 0 \<noteq> CHR ''R''"
proof -
  obtain c cs where s: "s = c # cs" using assms by (cases s) (auto simp: parse_report_def parse_i32_def Let_def split: if_splits)
  then show "s \<noteq> []" by simp
  have c: "c = CHR ''-'' \<or> c = CHR ''+'' \<or> is_ascii_digit c"
    using assms by (auto simp: s parse_report_def parse_i32_def Let_def split: if_splits)
  then have "\<not> char_between CHR ''A'' CHR ''R'' c" "c \<noteq> CHR ''R''" by (auto simp: ascii_simps)
  then show "\<not> is_grid4 s" "s ! 0 \<noteq> CHR ''R''" by (simp_all add: s is_grid4_def)
qed

lemma packgrid_report:
  assumes "parse_report s = Some d" and "- 35 \<le> d" and "d \<le> 30"
  shows "packgrid s = of_nat (32435 + nat (d + 35) - 35)"
    and "packgrid (CHR ''R'' # s) = packgrid s OR 0x8000"
proof -
  note shape = parse_report_shape [OF assms(1)]
  have "s \<noteq> ''RRR''" "s \<noteq> ''RR73''" using shape(3) by auto
  moreover have "s \<noteq> ''73''"
  proof
    assume "s = ''73''"
    then have "parse_report s = Some 73" by (simp add: parse_report_def) code_simp
    with assms show False by simp
  qed
  ultimately have p: "packgrid s = MAXGRID4 + of_int (35 + d)"
    using shape assms by (simp add: packgrid_def)
  then show "packgrid s = of_nat (32435 + nat (d + 35) - 35)"
    using assms(2) by (simp add: MAXGRID4_def of_nat_nat)
  have "CHR ''R'' # s \<noteq> ''RRR''" "CHR ''R'' # s \<noteq> ''RR73''" "CHR ''R'' # s \<noteq> ''73''" using shape(3) by auto
  moreover have "\<not> is_grid4 (CHR ''R'' # s)"
  proof
    assume g: "is_grid4 (CHR ''R'' # s)"
    then obtain c cs where s: "s = c # cs" by (cases s) (auto simp: is_grid4_def)
    then have "char_between CHR ''A'' CHR ''R'' c" using g by (simp add: is_grid4_def)
    moreover have "c = CHR ''-'' \<or> c = CHR ''+'' \<or> is_ascii_digit c"
      using assms(1) by (auto simp: s parse_report_def parse_i32_def Let_def split: if_splits)
    ultimately show False by (auto simp: ascii_simps)
  qed
  moreover have "2 \<le> length (CHR ''R'' # s)" using shape(1) by (cases s) auto
  ultimately show "packgrid (CHR ''R'' # s) = packgrid s OR 0x8000"
    using assms p by (simp add: packgrid_def)
qed

lemma sint_low_byte:
  assumes "- 128 \<le> x" and "x < 128"
  shows "sint (ucast (word_of_int x :: u16) :: 8 word) = x"
proof -
  have "ucast (word_of_int x :: u16) = (word_of_int x :: 8 word)" by (simp add: ucast_down_wi is_down)
  then show ?thesis using assms by (simp add: signed_of_int signed_take_bit_int_eq_self)
qed

lemma unpackgrid_report:
  assumes "k \<le> 65" and "k = 0 \<or> 5 \<le> k"
  shows "unpackgrid (of_nat (32400 + k)) ir = (None, Some (int k - 35), None)"
proof -
  have ord: "\<not> (of_nat (32400 + k) :: u16) < 32400"
    using word_of_nat_less [where 'a = 16, of "32400 + k" 32400] assms(1) by simp
  have ne: "(of_nat (32400 + k) :: u16) \<noteq> of_nat j" if "j \<in> {32401, 32402, 32403, 32404}" for j
    using that assms by (subst word_of_nat_eq_iff) auto
  have "(of_nat (32400 + k) :: u16) - 32400 - 35 = word_of_int (int k - 35)" by simp
  moreover have "sint (ucast (word_of_int (int k - 35) :: u16) :: 8 word) = int k - 35"
    using assms(1) by (intro sint_low_byte) simp_all
  ultimately show ?thesis
    unfolding unpackgrid_def MAXGRID4_def Let_def
    using ord ne [of 32401] ne [of 32402] ne [of 32403] ne [of 32404] by (simp del: of_nat_add)
qed

section \<open>The R flag\<close>

lemma bit_32768: "bit (0x8000::u16) k \<longleftrightarrow> k = 15"
proof -
  have "bit (push_bit 15 1 :: u16) k \<longleftrightarrow> k = 15" by (auto simp: bit_simps simp del: push_bit_of_1)
  then show ?thesis by simp
qed

lemma r_flag_split:
  fixes w :: u16
  assumes "w < 0x8000"
  shows "w AND 0x7FFF = w" and "w AND 0x8000 = 0" and "(w OR 0x8000) AND 0x7FFF = w" and "(w OR 0x8000) AND 0x8000 \<noteq> 0"
proof -
  have m: "(0x7FFF :: u16) = mask 15" by (simp add: mask_eq_exp_minus_1)
  have "unat w < 2 ^ 15" using assms by (simp add: word_less_nat_alt)
  then have w: "take_bit 15 w = w" by (simp add: word_unat_eq_iff unsigned_take_bit_eq take_bit_nat_eq_self)
  then show "w AND 0x7FFF = w" by (simp only: m take_bit_eq_mask)
  have b: "\<not> bit w 15" using w by (metis bit_take_bit_iff less_irrefl)
  show "w AND 0x8000 = 0"
    by (rule bit_word_eqI, simp only: bit_and_iff bit_32768) (use b in auto)
  have "take_bit 15 (0x8000 :: u16) = 0" by simp
  then show "(w OR 0x8000) AND 0x7FFF = w"
    using w by (simp only: m take_bit_eq_mask [symmetric] take_bit_or or.right_neutral)
  have "bit ((w OR 0x8000) AND 0x8000) 15" by (simp add: bit_and_iff bit_or_iff bit_32768)
  then show "(w OR 0x8000) AND 0x8000 \<noteq> 0" by (metis bit_0_eq bot_apply bot_bool_def)
qed

lemma grid4_value_less: "is_grid4 g \<Longrightarrow> grid4_value g < 0x8000"
  using grid4_nat_less [of g] word_of_nat_less [where 'a = 16, of "grid4_nat g" 32768] by (simp add: grid4_value_nat)

section \<open>Properties\<close>

text \<open>The reports from -34 to -31 decibels are accepted but share their codes with blank, RRR, RR73 and 73.\<close>

lemma low_reports_alias_tokens:
  "packgrid ''-34'' = packgrid [] \<and> packgrid ''-33'' = packgrid ''RRR'' \<and>
   packgrid ''-32'' = packgrid ''RR73'' \<and> packgrid ''-31'' = packgrid ''73'' \<and>
   unpackgrid (packgrid ''-32'') 0 = (None, None, Some ''RR73'')"
  by code_simp

lemma grid_field:
  assumes "is_grid4 g" and "g \<noteq> ''RR73''"
  shows "unpackgrid (packgrid g AND 0x7FFF) ir = (Some g, None, None) \<and> packgrid g AND 0x8000 = 0 \<and>
    unpackgrid (packgrid (''R '' @ g) AND 0x7FFF) ir = (Some g, None, None) \<and> packgrid (''R '' @ g) AND 0x8000 \<noteq> 0"
proof -
  note flags = r_flag_split [OF grid4_value_less [OF assms(1)]]
  have "packgrid g = grid4_value g" "packgrid (''R '' @ g) = grid4_value g OR 0x8000"
    using assms packgrid_grid grid4_first(4) by blast+
  then show ?thesis
    using unpackgrid_grid [OF assms(1), of ir] by (simp only: flags grid4_value_nat [symmetric]) simp
qed

lemma report_field:
  assumes "parse_report s = Some d" and "- 30 \<le> d" and "d \<le> 30"
  shows "unpackgrid (packgrid s AND 0x7FFF) ir = (None, Some d, None) \<and> packgrid s AND 0x8000 = 0 \<and>
    unpackgrid (packgrid (CHR ''R'' # s) AND 0x7FFF) ir = (None, Some d, None) \<and>
    packgrid (CHR ''R'' # s) AND 0x8000 \<noteq> 0"
proof -
  have p: "packgrid s = of_nat (32400 + nat (d + 35))" "packgrid (CHR ''R'' # s) = packgrid s OR 0x8000"
    using assms packgrid_report [of s d] by auto
  have k: "nat (d + 35) \<le> 65" "5 \<le> nat (d + 35)" using assms by (simp_all add: nat_le_iff le_nat_iff)
  then have "(of_nat (32400 + nat (d + 35)) :: u16) < of_nat 0x8000" by (subst word_of_nat_less) simp_all
  then have "packgrid s < 0x8000" unfolding p(1) by simp
  note flags = r_flag_split [OF this]
  have "unpackgrid (packgrid s) ir = (None, Some d, None)"
    using assms p(1) k unpackgrid_report [of "nat (d + 35)" ir] by simp
  then show ?thesis by (simp only: p(2) flags) simp
qed

lemma token_field:
  "t \<in> {''RRR'', ''RR73'', ''73''} \<Longrightarrow>
     unpackgrid (packgrid t AND 0x7FFF) ir = (None, None, Some t) \<and> packgrid t AND 0x8000 = 0"
  "unpackgrid (packgrid [] AND 0x7FFF) ir = (None, None, None) \<and> packgrid [] AND 0x8000 = 0"
  by (elim insertE emptyE; simp add: packgrid_def unpackgrid_def MAXGRID4_def)
    (simp add: packgrid_def unpackgrid_def MAXGRID4_def)

text \<open>The exchange field. A grid locator, with or without the R flag, a closing token, and a signal report from
  -30 to +30 decibels in any spelling, with or without R, each come back from the decoder as they went
  into the encoder; the R flag is bit 15 and is set exactly for the R forms.\<close>

theorem exchange_field_roundtrip:
  "(is_grid4 g \<and> g \<noteq> ''RR73'' \<longrightarrow>
      unpackgrid (packgrid g AND 0x7FFF) ir = (Some g, None, None) \<and> packgrid g AND 0x8000 = 0 \<and>
      unpackgrid (packgrid (''R '' @ g) AND 0x7FFF) ir = (Some g, None, None) \<and>
      packgrid (''R '' @ g) AND 0x8000 \<noteq> 0) \<and>
   (parse_report s = Some d \<and> - 30 \<le> d \<and> d \<le> 30 \<longrightarrow>
      unpackgrid (packgrid s AND 0x7FFF) ir = (None, Some d, None) \<and> packgrid s AND 0x8000 = 0 \<and>
      unpackgrid (packgrid (CHR ''R'' # s) AND 0x7FFF) ir = (None, Some d, None) \<and>
      packgrid (CHR ''R'' # s) AND 0x8000 \<noteq> 0) \<and>
   (\<forall>t\<in>{''RRR'', ''RR73'', ''73''}.
      unpackgrid (packgrid t AND 0x7FFF) ir = (None, None, Some t) \<and> packgrid t AND 0x8000 = 0) \<and>
   unpackgrid (packgrid [] AND 0x7FFF) ir = (None, None, None) \<and> packgrid [] AND 0x8000 = 0"
  using grid_field [of g ir] report_field [of s d ir] token_field(1) [of _ ir] token_field(2) [of ir] by blast

theorem exchange_field_roundtrip_witness:
  "unpackgrid (packgrid ''R-07'' AND 0x7FFF) 1 = (None, Some (- 7), None) \<and>
   unpackgrid (packgrid ''FN42'' AND 0x7FFF) 0 = (Some ''FN42'', None, None) \<and> packgrid ''R-07'' AND 0x8000 \<noteq> 0"
proof -
  have "parse_report ''-07'' = Some (- 7)" "is_grid4 ''FN42''" by code_simp+
  then show ?thesis
    using exchange_field_roundtrip [of "''FN42''" 0 "''-07''" "- 7"] exchange_field_roundtrip [of "''FN42''" 1 "''-07''" "- 7"]
    by simp
qed
end
