(* ===== verification/Free_Text.thy ===== *)
theory Free_Text
  imports Radix Bits
begin

text \<open>
  Free text: \<open>encode_free_text\<close> and \<open>freetext_char_index\<close> of \<open>pancetta-ft8/src/encoder.rs\<close> and
  \<open>parse_freetext_type0\<close> of \<open>pancetta-ft8/src/message.rs\<close>. Thirteen characters of a 42-character set are
  one number below 42 to the 13th, kept in nine bytes and computed by multi-precision loops: multiply and
  add on the way out, a left shift by one bit, and on the way in a right shift and thirteen long
  divisions by 42.
\<close>

section \<open>Encoding\<close>

definition MAX_FREETEXT_LENGTH :: nat where
  "MAX_FREETEXT_LENGTH = 13"

definition FREETEXT_CHARS :: string where
  "FREETEXT_CHARS = '' 0123456789ABCDEFGHIJKLMNOPQRSTUVWXYZ+-./?''"

definition freetext_char_index :: "char \<Rightarrow> u8 ft8_result" where
  "freetext_char_index c =
     (case position (\<lambda>ch. ch = to_ascii_upper c) FREETEXT_CHARS of
        Some i \<Rightarrow> Inr (of_nat i)
      | None \<Rightarrow> Inl (MessageDecodingError
          (''Invalid free text character: '' @ quoted [c])))"

text \<open>One byte of the multiply-and-add loop.\<close>

definition mul_add_step :: "nat \<Rightarrow> u8 list \<times> u16 \<Rightarrow> u8 list \<times> u16" where
  "mul_add_step i st =
     (let (b71, rem) = st; rem = rem + ucast (b71 ! i) * 42
      in (b71[i := ucast (rem AND 0xFF)], drop_bit 8 rem))"

definition mul_add_42 :: "u8 \<Rightarrow> u8 list \<Rightarrow> u8 list" where
  "mul_add_42 cid b71 = fst (fold mul_add_step (rev [0..<9]) (b71, ucast cid))"

text \<open>The loop over the thirteen positions, from position \<open>idx\<close> on.\<close>

fun pack_chars :: "string \<Rightarrow> nat list \<Rightarrow> u8 list \<Rightarrow> u8 list ft8_result" where
  "pack_chars txt [] b71 = Inr b71"
| "pack_chars txt (idx # is) b71 =
     (let ch = (if idx < length txt then txt ! idx else CHR '' '') in
      case freetext_char_index ch of
        Inl e \<Rightarrow> Inl e
      | Inr cid \<Rightarrow> pack_chars txt is (mul_add_42 cid b71))"

text \<open>One byte of the shift to the left by one bit.\<close>

definition shl_step :: "u8 list \<Rightarrow> nat \<Rightarrow> u8 list \<times> u8 \<Rightarrow> u8 list \<times> u8" where
  "shl_step b71 i st =
     (let (payload, carry) = st in (payload[i := push_bit 1 (b71 ! i) OR carry], drop_bit 7 (b71 ! i)))"

definition encode_free_text :: "string \<Rightarrow> u8 list ft8_result" where
  "encode_free_text txt =
     (if MAX_FREETEXT_LENGTH < length txt
      then Inl (MessageDecodingError (''Free text too long: '' @ nat_to_dec (length txt) @ '' (max '' @
             nat_to_dec MAX_FREETEXT_LENGTH @ '')''))
      else case pack_chars txt [0..<13] (replicate 9 0) of
             Inl e \<Rightarrow> Inl e
           | Inr b71 \<Rightarrow> Inr (fst (fold (shl_step b71) (rev [0..<9]) (replicate 10 0, 0))))"

section \<open>Decoding\<close>

text \<open>The shift to the right by one bit, over \<open>iter_mut\<close>.\<close>

fun shr_bytes :: "u8 \<Rightarrow> u8 list \<Rightarrow> u8 list" where
  "shr_bytes carry [] = []"
| "shr_bytes carry (b # bs) = (drop_bit 1 b OR push_bit 7 carry) # shr_bytes (b AND 1) bs"

text \<open>The long division by 42, over \<open>iter_mut\<close>: the quotient's bytes and the remainder.\<close>

fun div_42 :: "u16 \<Rightarrow> u8 list \<Rightarrow> u8 list \<times> u16" where
  "div_42 rem [] = ([], rem)"
| "div_42 rem (b # bs) =
     (let rem = push_bit 8 rem OR ucast b; (qs, r) = div_42 (rem mod 42) bs
      in (ucast (rem div 42) # qs, r))"

definition char_step :: "nat \<Rightarrow> u8 list \<times> string \<Rightarrow> u8 list \<times> string" where
  "char_step i st =
     (let (b71, chars) = st; (b71, rem) = div_42 0 b71
      in (b71, if unat rem < length FREETEXT_CHARS then chars[i := FREETEXT_CHARS ! unat rem] else chars))"

definition parse_freetext_type0 :: "bool list \<Rightarrow> string option" where
  "parse_freetext_type0 bits71 =
     (let b71 = shr_bytes 0 (pack_msb 9 bits71);
          (_, chars) = fold char_step (rev [0..<13]) (b71, replicate 13 CHR '' '');
          txt = trim_end chars
      in if txt = [] then None else Some txt)"

section \<open>Byte lists as numbers\<close>

definition bytes_value :: "u8 list \<Rightarrow> nat" where
  "bytes_value bs = radix_value 256 (map unat bs)"

lemma bytes_value_snoc [simp]: "bytes_value (bs @ [b]) = bytes_value bs * 256 + unat b"
  by (simp add: bytes_value_def)

lemma bytes_value_Nil [simp]: "bytes_value [] = 0"
  by (simp add: bytes_value_def)

lemma bytes_value_Cons: "bytes_value (b # bs) = unat b * 256 ^ length bs + bytes_value bs"
  using radix_value_append [of 256 "[unat b]" "map unat bs"]
  by (simp add: bytes_value_def) (simp add: radix_value_def)

lemma unat_u8_less: "unat (b::u8) < 256"
proof -
  have "unat b < 2 ^ LENGTH(8)" by (rule unsigned_less)
  then show ?thesis by simp
qed

lemma bytes_value_less: "bytes_value bs < 256 ^ length bs"
proof -
  have "\<forall>d\<in>set (map unat bs). d < 256" by (auto intro: unat_u8_less)
  from r256.value_less [OF this] show ?thesis by (simp add: bytes_value_def)
qed

lemma map_unat_digits: "map unat bs = radix_digits 256 (length bs) (bytes_value bs)" for bs :: "u8 list"
proof -
  have "\<forall>d\<in>set (map unat bs). d < 256" by (auto intro: unat_u8_less)
  from r256.digits_value [OF this] show ?thesis by (simp add: bytes_value_def)
qed

lemma bytes_value_inj:
  assumes "length as = length bs" and "bytes_value as = bytes_value bs"
  shows "as = bs"
proof -
  have "map unat as = map unat bs" by (simp only: map_unat_digits assms)
  moreover have "inj (unat :: u8 \<Rightarrow> nat)" by (auto intro: injI simp: word_unat_eq_iff)
  ultimately show ?thesis by (simp add: inj_map_eq_map)
qed

section \<open>Multiply and add\<close>

lemma mul_add_step_value:
  assumes "i < length b" and "r < 256"
  shows "mul_add_step i (b, of_nat r) =
    (b[i := of_nat ((unat (b ! i) * 42 + r) mod 256)], of_nat ((unat (b ! i) * 42 + r) div 256))"
proof -
  define m where "m = unat (b ! i) * 42 + r"
  have m: "m < 2 ^ LENGTH(16)" using unat_u8_less [of "b ! i"] assms(2) by (simp add: m_def)
  have "ucast (b ! i) = (of_nat (unat (b ! i)) :: u16)" by simp
  then have w: "of_nat r + ucast (b ! i) * 42 = (of_nat m :: u16)" by (simp add: m_def)
  have "(of_nat m :: u16) AND 0xFF = of_nat (m mod 256)"
  proof -
    have "(0xFF :: u16) = mask 8" by (simp add: mask_eq_exp_minus_1)
    then show ?thesis using m
      by (simp only: take_bit_eq_mask [symmetric] take_bit_eq_mod) (simp add: word_of_nat_mod)
  qed
  moreover have "ucast (of_nat (m mod 256) :: u16) = (of_nat (m mod 256) :: u8)"
    by (simp add: word_unat_eq_iff unat_of_nat unsigned_ucast_eq take_bit_nat_eq_self)
  moreover have "drop_bit 8 (of_nat m :: u16) = of_nat (m div 256)"
    using m by (simp add: drop_bit_eq_div word_of_nat_div)
  ultimately show ?thesis unfolding mul_add_step_def Let_def prod.case w by (simp add: m_def)
qed


lemma mul_add_fold:
  assumes "k \<le> length b" and "r < 256"
  shows "\<exists>b' r'. fold mul_add_step (rev [0..<k]) (b, of_nat r) = (b', of_nat r') \<and> length b' = length b \<and>
    drop k b' = drop k b \<and> r' * 256 ^ k + bytes_value (take k b') = bytes_value (take k b) * 42 + r"
  using assms
proof (induction k arbitrary: b r)
  case 0
  then show ?case by simp
next
  case (Suc k)
  define m where "m = unat (b ! k) * 42 + r"
  define b1 where "b1 = b[k := of_nat (m mod 256)]"
  have m: "m div 256 < 256" using unat_u8_less [of "b ! k"] Suc.prems by (simp add: m_def)
  have step: "mul_add_step k (b, of_nat r) = (b1, of_nat (m div 256))"
    using Suc.prems by (simp add: mul_add_step_value m_def b1_def)
  obtain b' r' where IH: "fold mul_add_step (rev [0..<k]) (b1, of_nat (m div 256)) = (b', of_nat r')"
    "length b' = length b1" "drop k b' = drop k b1"
    "r' * 256 ^ k + bytes_value (take k b') = bytes_value (take k b1) * 42 + m div 256"
    using Suc.IH [OF _ m, of b1] Suc.prems by (auto simp: b1_def)
  have len: "length b' = length b" "k < length b" using IH(2) Suc.prems by (auto simp: b1_def)
  have "b' ! k = b1 ! k" using IH(3) len by (metis Cons_nth_drop_Suc length_list_update b1_def list.inject)
  then have "unat (b' ! k) = m mod 256" using len by (simp add: b1_def unat_of_nat_less)
  then have "bytes_value (take (Suc k) b') = bytes_value (take k b') * 256 + m mod 256"
    using len by (simp add: take_Suc_conv_app_nth)
  then have "r' * 256 ^ Suc k + bytes_value (take (Suc k) b') =
      (r' * 256 ^ k + bytes_value (take k b')) * 256 + m mod 256" by (simp add: algebra_simps)
  also have "\<dots> = bytes_value (take k b) * 42 * 256 + m"
    unfolding IH(4) by (simp add: b1_def algebra_simps)
  also have "\<dots> = bytes_value (take (Suc k) b) * 42 + r"
    using len by (simp add: take_Suc_conv_app_nth m_def algebra_simps)
  finally have val: "r' * 256 ^ Suc k + bytes_value (take (Suc k) b') = bytes_value (take (Suc k) b) * 42 + r" .
  have "drop (Suc k) b' = drop (Suc k) b"
    using IH(3) by (metis b1_def drop_Suc drop_update_cancel lessI tl_drop)
  with val step IH(1) len show ?case by auto
qed

lemma mul_add_42_value:
  assumes "length b = 9" and "bytes_value b * 42 + unat cid < 256 ^ 9"
  shows "length (mul_add_42 cid b) = 9 \<and> bytes_value (mul_add_42 cid b) = bytes_value b * 42 + unat cid"
proof -
  obtain b' r' where f: "fold mul_add_step (rev [0..<9]) (b, of_nat (unat cid)) = (b', of_nat r')"
    "length b' = length b" "r' * 256 ^ 9 + bytes_value (take 9 b') = bytes_value (take 9 b) * 42 + unat cid"
    using mul_add_fold [of 9 b "unat cid"] assms unat_u8_less [of cid] by auto
  have "r' = 0" using f(2,3) assms by (cases r') auto
  with f assms show ?thesis by (simp add: mul_add_42_def)
qed

section \<open>Division\<close>

lemma rem_or_byte:
  assumes "r < 42"
  shows "push_bit 8 (of_nat r :: u16) OR ucast (b::u8) = of_nat (r * 256 + unat b)"
proof -
  have "push_bit 8 (of_nat r :: u16) OR ucast b = push_bit 8 (of_nat r) + ucast b"
    by (rule disjunctive_add_eq_or [symmetric]) (rule bit_eqI, auto simp: bit_simps dest: bit_imp_le_length)
  also have "push_bit 8 (of_nat r :: u16) = of_nat (r * 256)" by (simp add: push_bit_eq_mult)
  finally show ?thesis by (simp add: push_bit_eq_mult)
qed

lemma div_42_value:
  assumes "r < 42"
  shows "\<exists>qs r'. div_42 (of_nat r) bs = (qs, of_nat r') \<and> r' < 42 \<and> length qs = length bs \<and>
    bytes_value qs * 42 + r' = r * 256 ^ length bs + bytes_value bs"
  using assms
proof (induction bs arbitrary: r)
  case Nil
  then show ?case by simp
next
  case (Cons b bs)
  define m where "m = r * 256 + unat b"
  have m: "m < 42 * 256" using Cons.prems unat_u8_less [of b] by (simp add: m_def)
  then have small: "m < 2 ^ LENGTH(16)" by simp
  obtain qs r' where IH: "div_42 (of_nat (m mod 42)) bs = (qs, of_nat r')" "r' < 42" "length qs = length bs"
    "bytes_value qs * 42 + r' = m mod 42 * 256 ^ length bs + bytes_value bs"
    using Cons.IH [of "m mod 42"] by auto
  have q: "m div 42 < 256" using m by (simp add: div_less_iff_less_mult)
  have "ucast (of_nat (m div 42) :: u16) = (of_nat (m div 42) :: u8)"
    using small by (simp add: word_unat_eq_iff unat_of_nat unsigned_ucast_eq take_bit_nat_eq_self take_bit_eq_mod le_less_trans [OF div_le_dividend])
  then have d: "div_42 (of_nat r) (b # bs) = (of_nat (m div 42) # qs, of_nat r')"
    unfolding div_42.simps Let_def rem_or_byte [OF Cons.prems] m_def [symmetric]
    using small IH(1) by (simp add: word_of_nat_mod word_of_nat_div)
  have "bytes_value ((of_nat (m div 42)) # qs) * 42 + r' =
      m div 42 * 42 * 256 ^ length bs + (bytes_value qs * 42 + r')"
    using q IH(3) by (simp add: bytes_value_Cons unat_of_nat_less algebra_simps)
  also have "\<dots> = (m div 42 * 42 + m mod 42) * 256 ^ length bs + bytes_value bs"
    unfolding IH(4) by (simp only: distrib_right add.assoc)
  also have "\<dots> = r * 256 ^ length (b # bs) + bytes_value (b # bs)"
    by (simp add: m_def bytes_value_Cons algebra_simps)
  finally show ?case using d IH(2,3) by auto
qed

lemma div_42_0:
  "\<exists>qs. div_42 0 bs = (qs, of_nat (bytes_value bs mod 42)) \<and> length qs = length bs \<and> bytes_value qs = bytes_value bs div 42"
proof -
  obtain qs r where d: "div_42 (of_nat 0) bs = (qs, of_nat r)" "r < 42" "length qs = length bs"
    "bytes_value qs * 42 + r = bytes_value bs"
    using div_42_value [of 0 bs] by auto
  then have "r = bytes_value bs mod 42" "bytes_value qs = bytes_value bs div 42" by (metis radix_div radix_mod)+
  with d show ?thesis by auto
qed

lemma length_freetext_chars: "length FREETEXT_CHARS = 42"
  by (simp add: FREETEXT_CHARS_def)

lemma char_step_fold:
  "k \<le> length chars \<Longrightarrow> \<exists>b'. fold char_step (rev [0..<k]) (b, chars) =
     (b', map ((!) FREETEXT_CHARS) (radix_digits 42 k (bytes_value b)) @ drop k chars)"
proof (induction k arbitrary: b chars)
  case 0
  then show ?case by simp
next
  case (Suc k)
  define x where "x = FREETEXT_CHARS ! (bytes_value b mod 42)"
  obtain qs where d: "div_42 0 b = (qs, of_nat (bytes_value b mod 42))" "bytes_value qs = bytes_value b div 42"
    using div_42_0 by blast
  have "bytes_value b mod 42 < 2 ^ LENGTH(16)" by (rule less_trans [of _ 42]) simp_all
  then have "unat (of_nat (bytes_value b mod 42) :: u16) = bytes_value b mod 42" by (rule unat_of_nat_less)
  then have step: "char_step k (b, chars) = (qs, chars[k := x])"
    by (simp add: char_step_def d(1) length_freetext_chars x_def)
  obtain b' where "fold char_step (rev [0..<k]) (qs, chars[k := x]) =
      (b', map ((!) FREETEXT_CHARS) (radix_digits 42 k (bytes_value b div 42)) @ drop k (chars[k := x]))"
    using Suc.IH [of "chars[k := x]" qs] Suc.prems d(2) by auto
  moreover have "drop k (chars[k := x]) = x # drop (Suc k) chars"
    using Suc.prems by (simp add: Cons_nth_drop_Suc [symmetric])
  ultimately show ?case using step by (auto simp: x_def)
qed
section \<open>Shifts\<close>

lemma shl_fold:
  "k \<le> length p \<Longrightarrow> \<exists>c'. fold (shl_step b) (rev [0..<k]) (p, c) =
     (map (\<lambda>i. push_bit 1 (b ! i) OR (if i + 1 < k then drop_bit 7 (b ! (i + 1)) else c)) [0..<k] @ drop k p, c')"
proof (induction k arbitrary: p c)
  case 0
  then show ?case by simp
next
  case (Suc k)
  have step: "shl_step b k (p, c) = (p[k := push_bit 1 (b ! k) OR c], drop_bit 7 (b ! k))"
    by (simp add: shl_step_def)
  obtain c' where "fold (shl_step b) (rev [0..<k]) (p[k := push_bit 1 (b ! k) OR c], drop_bit 7 (b ! k)) =
     (map (\<lambda>i. push_bit 1 (b ! i) OR (if i + 1 < k then drop_bit 7 (b ! (i + 1)) else drop_bit 7 (b ! k))) [0..<k] @
        drop k (p[k := push_bit 1 (b ! k) OR c]), c')"
    using Suc.IH [of "p[k := push_bit 1 (b ! k) OR c]" "drop_bit 7 (b ! k)"] Suc.prems by auto
  moreover have "drop k (p[k := push_bit 1 (b ! k) OR c]) = (push_bit 1 (b ! k) OR c) # drop (Suc k) p"
    using Suc.prems by (simp add: Cons_nth_drop_Suc [symmetric])
  moreover have "map (\<lambda>i. push_bit 1 (b ! i) OR (if i + 1 < k then drop_bit 7 (b ! (i + 1)) else drop_bit 7 (b ! k))) [0..<k] =
      map (\<lambda>i. push_bit 1 (b ! i) OR (if i + 1 < Suc k then drop_bit 7 (b ! (i + 1)) else c)) [0..<k]"
    by (rule map_cong) (auto simp: less_Suc_eq)
  ultimately show ?case using step by auto
qed

lemma get_msb_at: "t < 8 \<Longrightarrow> get_msb bs (8 * q + t) \<longleftrightarrow> bit (bs ! q) (7 - t)"
  by (simp add: get_msb_bit)

lemma bit_push_1: "bit (push_bit 1 (w::u8)) n \<longleftrightarrow> 0 < n \<and> n < 8 \<and> bit w (n - 1)"
  by (simp only: bit_push_bit_iff) auto

lemma msb_eqI:
  assumes "length as = length bs" and "\<And>j. j < 8 * length bs \<Longrightarrow> get_msb as j \<longleftrightarrow> get_msb bs j"
  shows "as = bs"
proof (rule nth_equalityI)
  show "length as = length bs" by (rule assms(1))
  fix i assume i: "i < length as"
  show "as ! i = bs ! i"
  proof (rule bit_word_eqI)
    fix n assume "n < LENGTH(8)"
    then have n: "7 - n < 8" "7 - (7 - n) = n" by auto
    then have "8 * i + (7 - n) < 8 * length bs" using i assms(1) by linarith
    from assms(2) [OF this] show "bit (as ! i) n \<longleftrightarrow> bit (bs ! i) n" by (simp only: get_msb_at [OF n(1)] n(2))
  qed
qed

lemma shl_bits:
  assumes "length b = 9" and "j < 80"
  shows "get_msb (fst (fold (shl_step b) (rev [0..<9]) (replicate 10 0, 0))) j \<longleftrightarrow> j < 71 \<and> get_msb b (Suc j)"
proof -
  let ?p = "fst (fold (shl_step b) (rev [0..<9]) (replicate 10 0, 0))"
  have p: "?p = map (\<lambda>i. push_bit 1 (b ! i) OR (if i + 1 < 9 then drop_bit 7 (b ! (i + 1)) else 0)) [0..<9] @ [0]"
    using shl_fold [of 9 "replicate 10 0" b 0] by auto
  obtain q t where j: "j = 8 * q + t" "t < 8" by (metis mod_less_divisor mult_div_mod_eq zero_less_numeral)
  show ?thesis
  proof (cases "q = 9")
    case True
    then have "?p ! q = 0" by (simp add: p nth_append)
    then show ?thesis using True j(2) unfolding j(1) get_msb_at [OF j(2)] by simp
  next
    case False
    then have q: "q < 9" using j assms(2) by auto
    then have pq: "?p ! q = push_bit 1 (b ! q) OR (if q + 1 < 9 then drop_bit 7 (b ! (q + 1)) else 0)"
      by (simp add: p nth_append)
    have nob: "\<not> bit (w::u8) n" if "8 \<le> n" for w n using that by (auto dest: bit_imp_le_length)
    show ?thesis
    proof (cases "t = 7")
      case True
      then have "get_msb b (Suc j) \<longleftrightarrow> bit (b ! Suc q) 7" using get_msb_at [of 0 b "Suc q"] by (simp add: j add.commute)
      then show ?thesis using q True unfolding get_msb_at [OF j(2), of _ q, folded j(1)] pq
        by (simp only: bit_or_iff bit_push_1) (auto simp: bit_simps j)
    next
      case t: False
      then have "get_msb b (Suc j) \<longleftrightarrow> bit (b ! q) (6 - t)" using get_msb_at [of "Suc t" b q] j by simp
      moreover have "\<not> bit (w::u8) (7 + (7 - t))" for w using t j(2) by (intro nob) simp
      moreover have "j < 71" "t < 7" using q t j by auto
      ultimately show ?thesis using q unfolding get_msb_at [OF j(2), of _ q, folded j(1)] pq
        by (simp only: bit_or_iff bit_push_1) (auto simp: bit_simps)
    qed
  qed
qed

lemma length_shr_bytes [simp]: "length (shr_bytes c bs) = length bs"
  by (induction c bs rule: shr_bytes.induct) auto

lemma nth_shr_bytes:
  "i < length bs \<Longrightarrow> shr_bytes c bs ! i = drop_bit 1 (bs ! i) OR push_bit 7 (if i = 0 then c else bs ! (i - 1) AND 1)"
proof (induction bs arbitrary: c i)
  case (Cons b bs)
  then show ?case by (cases i) (auto simp: nth_Cons' split: if_splits)
qed simp

lemma shr_bits:
  assumes "j < 8 * length bs"
  shows "get_msb (shr_bytes 0 bs) j \<longleftrightarrow> 0 < j \<and> get_msb bs (j - 1)"
proof -
  obtain q t where j: "j = 8 * q + t" "t < 8" by (metis mod_less_divisor mult_div_mod_eq zero_less_numeral)
  then have q: "q < length bs" using assms by auto
  have nob: "\<not> bit (w::u8) n" if "8 \<le> n" for w n using that by (auto dest: bit_imp_le_length)
  show ?thesis
  proof (cases "t = 0")
    case True
    show ?thesis
    proof (cases q)
      case 0
      then show ?thesis using True q unfolding j(1) get_msb_at [OF j(2)] nth_shr_bytes [OF q] by (simp add: bit_simps nob)
    next
      case (Suc r)
      then have "j - 1 = 8 * r + 7" using j True by simp
      then show ?thesis using True q Suc unfolding get_msb_at [OF j(2), of _ q, folded j(1)] nth_shr_bytes [OF q]
        using get_msb_at [of 7 bs r] by (simp add: bit_simps nob j add.commute)
    qed
  next
    case False
    then have i: "j - 1 = 8 * q + (t - 1)" "t - 1 < 8" "7 - (t - 1) = Suc (7 - t)" "0 < j" "\<not> 7 \<le> 7 - t" using j by auto
    have "get_msb bs (j - 1) \<longleftrightarrow> bit (bs ! q) (Suc (7 - t))" by (simp only: i(1) get_msb_at [OF i(2)] i(3))
    then show ?thesis using q i(4,5) unfolding get_msb_at [OF j(2), of _ q, folded j(1)] nth_shr_bytes [OF q]
      by (auto simp: bit_simps)
  qed
qed

lemma shl_shr:
  assumes "length b = 9" and "bytes_value b < 2 ^ 71"
  shows "shr_bytes 0 (pack_msb 9 (slice 0 71 (unpack_msb 77 (fst (fold (shl_step b) (rev [0..<9]) (replicate 10 0, 0)))))) = b"
proof (rule msb_eqI)
  let ?bits = "slice 0 71 (unpack_msb 77 (fst (fold (shl_step b) (rev [0..<9]) (replicate 10 0, 0))))"
  show "length (shr_bytes 0 (pack_msb 9 ?bits)) = length b" using assms by simp
  fix j assume j: "j < 8 * length b"
  have top: "\<not> get_msb b 0"
  proof
    assume "get_msb b 0"
    then have "bit (b ! 0) 7" by (simp add: get_msb_bit)
    then have "bit (unat (b ! 0)) 7" by (simp add: bit_unsigned_iff)
    then have "odd (unat (b ! 0) div 128)" by (simp add: bit_iff_odd)
    then have "128 \<le> unat (b ! 0)" by (metis div_less even_zero not_less)
    moreover obtain c cs where "b = c # cs" "length cs = 8" using assms(1) by (cases b) auto
    ultimately show False using assms(2) by (simp add: bytes_value_Cons)
  qed
  have "get_msb (shr_bytes 0 (pack_msb 9 ?bits)) j \<longleftrightarrow> 0 < j \<and> get_msb (pack_msb 9 ?bits) (j - 1)"
    using j assms(1) by (intro shr_bits) simp
  also have "\<dots> \<longleftrightarrow> 0 < j \<and> ?bits ! (j - 1)" using j assms(1) by (auto simp: get_pack_msb)
  also have "\<dots> \<longleftrightarrow> 0 < j \<and> get_msb b j"
    using j assms(1) by (auto simp: nth_slice unpack_msb_def shl_bits)
  finally show "get_msb (shr_bytes 0 (pack_msb 9 ?bits)) j \<longleftrightarrow> get_msb b j" using top by (cases j) auto
qed

section \<open>The characters\<close>

lemma distinct_freetext_chars: "distinct FREETEXT_CHARS"
  by (simp add: FREETEXT_CHARS_def)

lemma freetext_char_index_Inr:
  "freetext_char_index c = Inr w \<longleftrightarrow> (\<exists>i<42. w = of_nat i \<and> FREETEXT_CHARS ! i = to_ascii_upper c)"
proof
  assume "freetext_char_index c = Inr w"
  then obtain i where i: "position (\<lambda>ch. ch = to_ascii_upper c) FREETEXT_CHARS = Some i" "w = of_nat i"
    by (auto simp: freetext_char_index_def split: option.splits)
  then show "\<exists>i<42. w = of_nat i \<and> FREETEXT_CHARS ! i = to_ascii_upper c"
    using position_Some [OF i(1)] by (auto simp: length_freetext_chars)
next
  assume "\<exists>i<42. w = of_nat i \<and> FREETEXT_CHARS ! i = to_ascii_upper c"
  then obtain i where i: "i < 42" "w = of_nat i" "FREETEXT_CHARS ! i = to_ascii_upper c" by blast
  then have "position (\<lambda>ch. ch = to_ascii_upper c) FREETEXT_CHARS = Some i"
    using position_nth_distinct [OF distinct_freetext_chars, of i] by (simp add: length_freetext_chars)
  with i show "freetext_char_index c = Inr w" by (simp add: freetext_char_index_def)
qed

definition freetext_at :: "string \<Rightarrow> nat \<Rightarrow> char" where
  "freetext_at txt idx = (if idx < length txt then txt ! idx else CHR '' '')"

lemma pack_chars_value:
  assumes "pack_chars txt is b = Inr b'" and "length b = 9" and "bytes_value b < 42 ^ k" and "k + length is \<le> 13"
  shows "\<exists>ds. length ds = length is \<and> (\<forall>d\<in>set ds. d < 42) \<and>
     map ((!) FREETEXT_CHARS) ds = map (\<lambda>i. to_ascii_upper (freetext_at txt i)) is \<and>
     length b' = 9 \<and> bytes_value b' = foldl (\<lambda>v d. v * 42 + d) (bytes_value b) ds"
  using assms
proof (induction "is" arbitrary: b k)
  case Nil
  then show ?case by simp
next
  case (Cons idx "is")
  obtain cid where cid: "freetext_char_index (freetext_at txt idx) = Inr cid"
    and rest: "pack_chars txt is (mul_add_42 cid b) = Inr b'"
    using Cons.prems(1) by (auto simp: Let_def freetext_at_def split: sum.splits)
  obtain d where d: "d < 42" "cid = of_nat d" "FREETEXT_CHARS ! d = to_ascii_upper (freetext_at txt idx)"
    using cid by (auto simp: freetext_char_index_Inr)
  have u: "unat cid = d" using d by (simp add: unat_of_nat_less)
  have "(bytes_value b + 1) * 42 \<le> 42 ^ k * 42" using Cons.prems(3) by (intro mult_right_mono) simp_all
  then have less: "bytes_value b * 42 + unat cid < 42 ^ Suc k" using d(1) u by simp
  also have "\<dots> \<le> (42::nat) ^ 13" using Cons.prems(4) by (intro power_increasing) simp_all
  finally have "bytes_value b * 42 + unat cid < 256 ^ 9" by simp
  then have m: "length (mul_add_42 cid b) = 9" "bytes_value (mul_add_42 cid b) = bytes_value b * 42 + d"
    using mul_add_42_value [of b cid] Cons.prems(2) u by auto
  from Cons.IH [OF rest m(1), of "Suc k"] less Cons.prems(4) u m(2) obtain ds where
    "length ds = length is" "\<forall>d\<in>set ds. d < 42"
    "map ((!) FREETEXT_CHARS) ds = map (\<lambda>i. to_ascii_upper (freetext_at txt i)) is"
    "length b' = 9" "bytes_value b' = foldl (\<lambda>v d. v * 42 + d) (bytes_value b * 42 + d) ds" by auto
  with d show ?case by (intro exI [of _ "d # ds"]) simp
qed

lemma pack_chars_total:
  "\<forall>i\<in>set is. to_ascii_upper (freetext_at txt i) \<in> set FREETEXT_CHARS \<Longrightarrow> \<exists>b'. pack_chars txt is b = Inr b'"
proof (induction "is" arbitrary: b)
  case (Cons idx "is")
  then obtain i where "i < 42" "FREETEXT_CHARS ! i = to_ascii_upper (freetext_at txt idx)"
    by (auto simp: in_set_conv_nth length_freetext_chars)
  then have "freetext_char_index (freetext_at txt idx) = Inr (of_nat i)" by (auto simp: freetext_char_index_Inr)
  with Cons show ?case by (simp add: Let_def freetext_at_def)
qed simp

lemma freetext_padded:
  assumes "length txt \<le> 13"
  shows "map (\<lambda>i. to_ascii_upper (freetext_at txt i)) [0..<13] = to_upper txt @ replicate (13 - length txt) CHR '' ''"
proof -
  have "to_ascii_upper CHR '' '' = CHR '' ''" by (simp add: to_ascii_upper_def is_ascii_lowercase_def)
  then show ?thesis
    using assms by (intro nth_equalityI) (auto simp: freetext_at_def to_upper_def nth_append)
qed

lemma encode_free_text_bits:
  assumes "encode_free_text txt = Inr payload"
  shows "\<exists>b. length b = 9 \<and> bytes_value b < 42 ^ 13 \<and>
     payload = fst (fold (shl_step b) (rev [0..<9]) (replicate 10 0, 0)) \<and>
     map ((!) FREETEXT_CHARS) (radix_digits 42 13 (bytes_value b)) = to_upper txt @ replicate (13 - length txt) CHR '' ''"
proof -
  obtain b where len: "length txt \<le> 13" and pb: "pack_chars txt [0..<13] (replicate 9 0) = Inr b"
    and payload: "payload = fst (fold (shl_step b) (rev [0..<9]) (replicate 10 0, 0))"
    using assms by (auto simp: encode_free_text_def MAX_FREETEXT_LENGTH_def split: if_splits sum.splits)
  have "bytes_value (replicate 9 0) = 0" by (simp add: bytes_value_def radix_value_zeros)
  with pack_chars_value [OF pb, of 0] obtain ds where ds: "length ds = 13" "\<forall>d\<in>set ds. d < 42"
    "map ((!) FREETEXT_CHARS) ds = map (\<lambda>i. to_ascii_upper (freetext_at txt i)) [0..<13]"
    "length b = 9" "bytes_value b = radix_value 42 ds" by (auto simp: radix_value_def)
  have "bytes_value b < 42 ^ 13" using r42.value_less [OF ds(2)] ds(1,5) by simp
  moreover have "radix_digits 42 13 (bytes_value b) = ds" using r42.digits_value [OF ds(2)] ds(1,5) by simp
  ultimately show ?thesis using payload ds(3,4) freetext_padded [OF len] by auto
qed

section \<open>Properties\<close>

text \<open>Free text survives the air. Text of at most thirteen characters of the 42-character set is encoded; the
  decoder gives it back in upper case and without trailing blanks (nothing when it is blank), and the type
  bits 71 to 76 of the payload are zero, so the decoder reads it as free text.\<close>

theorem free_text_roundtrip:
  assumes "length txt \<le> 13" and "set (to_upper txt) \<subseteq> set FREETEXT_CHARS"
  shows "\<exists>payload. encode_free_text txt = Inr payload \<and> length payload = 10 \<and>
     parse_freetext_type0 (slice 0 71 (unpack_msb 77 payload)) =
       (if trim_end (to_upper txt) = [] then None else Some (trim_end (to_upper txt))) \<and>
     slice 71 77 (unpack_msb 77 payload) = replicate 6 False"
proof -
  have "CHR '' '' \<in> set FREETEXT_CHARS" by (simp add: FREETEXT_CHARS_def)
  then have "to_ascii_upper (freetext_at txt i) \<in> set FREETEXT_CHARS" for i
    using assms(2) by (auto simp: freetext_at_def to_upper_def to_ascii_upper_def is_ascii_lowercase_def subset_iff)
  then obtain b0 where "pack_chars txt [0..<13] (replicate 9 0) = Inr b0" using pack_chars_total by blast
  then obtain payload where p: "encode_free_text txt = Inr payload"
    using assms(1) by (auto simp: encode_free_text_def MAX_FREETEXT_LENGTH_def)
  obtain b where b: "length b = 9" "bytes_value b < 42 ^ 13"
    "payload = fst (fold (shl_step b) (rev [0..<9]) (replicate 10 0, 0))"
    "map ((!) FREETEXT_CHARS) (radix_digits 42 13 (bytes_value b)) = to_upper txt @ replicate (13 - length txt) CHR '' ''"
    using encode_free_text_bits [OF p] by blast
  have small: "bytes_value b < 2 ^ 71" using b(2) by simp
  have "trim_end (to_upper txt @ replicate (13 - length txt) CHR '' '') = trim_end (to_upper txt)"
    by (rule trim_end_append_blank) (simp add: list_all_iff is_whitespace_def)
  then have "parse_freetext_type0 (slice 0 71 (unpack_msb 77 payload)) =
      (if trim_end (to_upper txt) = [] then None else Some (trim_end (to_upper txt)))"
    using char_step_fold [of 13 "replicate 13 CHR '' ''" b] b(4)
    unfolding parse_freetext_type0_def b(3) shl_shr [OF b(1) small] by (auto simp: Let_def)
  moreover have "slice 71 77 (unpack_msb 77 payload) = replicate 6 False"
    unfolding b(3) using b(1)
    by (intro nth_equalityI) (auto simp: nth_slice unpack_msb_def shl_bits)
  moreover have "length payload = 10" using shl_fold [of 9 "replicate 10 0" b 0] b(3) by auto
  ultimately show ?thesis using p by blast
qed

theorem free_text_roundtrip_witness:
  "\<exists>payload. encode_free_text ''Tnx bob 73 gl'' = Inr payload \<and>
     parse_freetext_type0 (slice 0 71 (unpack_msb 77 payload)) = Some ''TNX BOB 73 GL''"
proof -
  have "list_all (\<lambda>c. c \<in> set FREETEXT_CHARS) (to_upper ''Tnx bob 73 gl'')" by code_simp
  then have "set (to_upper ''Tnx bob 73 gl'') \<subseteq> set FREETEXT_CHARS" by (auto simp: list_all_iff)
  moreover have "trim_end (to_upper ''Tnx bob 73 gl'') = ''TNX BOB 73 GL''" by code_simp
  ultimately show ?thesis using free_text_roundtrip [of "''Tnx bob 73 gl''"] by auto
qed

end
