(* ===== verification/Message.thy ===== *)
theory Message
  imports Crc14 Hash_Table Call_Field Exchange_Field Free_Text
begin

text \<open>
  The receiver's message parser, \<open>MessageParser\<close> of \<open>pancetta-ft8/src/message.rs\<close>: the message types and
  the parsed message, \<open>parse_payload\<close> with the parser of every payload type (standard, free text,
  telemetry, DXpedition, EU VHF contest, Field Day, RTTY Roundup, nonstandard call), and the code tables
  of the contest exchanges. The parser's state is its table of heard calls and the Hound flag.
\<close>

section \<open>Messages\<close>

datatype ft8_message_type =
  Standard | Extended | Contest | FieldDay | Telemetry | FreeText | DXpedition | RTTYRoundup | NonStdCall | Unknown

datatype standard_message_type = St_Cq | Reply | ReplyWithR | Report | ReportWithR | Rrr | Final73 | RR73

record dxpedition_contacts =
  rr73_to :: string
  report_to :: string
  fox_hash10 :: u16
  fox_call :: "string option"
  report_db :: int

record ft8_message =
  m_type :: ft8_message_type
  m_standard :: "standard_message_type option"
  m_from :: "string option"
  m_to :: "string option"
  m_grid :: "string option"
  m_report :: "int option"
  m_text :: "string option"
  m_exchange :: "string option"
  m_special :: "string option"
  m_payload :: "bool list"
  m_crc :: u16
  m_crc_valid :: bool
  m_uses_hash :: bool
  m_dxpedition :: "dxpedition_contacts option"

definition default_message :: ft8_message where
  "default_message =
     \<lparr> m_type = Unknown, m_standard = None, m_from = None, m_to = None, m_grid = None, m_report = None,
       m_text = None, m_exchange = None, m_special = None, m_payload = [], m_crc = 0, m_crc_valid = False,
       m_uses_hash = False, m_dxpedition = None \<rparr>"

text \<open>\<open>{:+03}\<close>: the sign, and zeros up to three characters.\<close>

definition plus03 :: "int \<Rightarrow> string" where
  "plus03 k = (let s = nat_to_dec (nat \<bar>k\<bar>)
               in (if k < 0 then CHR ''-'' else CHR ''+'') # replicate (2 - length s) CHR ''0'' @ s)"

definition contacts_text :: "dxpedition_contacts \<Rightarrow> string" where
  "contacts_text c =
     rr73_to c @ '' RR73; '' @ report_to c @ '' <'' @ (case fox_call c of Some f \<Rightarrow> f | None \<Rightarrow> ''...'') @ ''> '' @
     plus03 (report_db c)"

definition dxpedition_report_to_r5 :: "int \<Rightarrow> u8" where
  "dxpedition_report_to_r5 db = of_int (max 0 (min 31 (trunc_div (db + 30) 2)))"

definition dxpedition_r5_to_report :: "u8 \<Rightarrow> int" where
  "dxpedition_r5_to_report r5 = as_i8 (2 * int (unat (r5 AND 0x1F)) - 30)"

section \<open>Code tables\<close>

definition ARRL_SECTIONS :: "string list" where
  "ARRL_SECTIONS =
     [''CT'', ''EMA'', ''ME'', ''NH'', ''RI'', ''VT'', ''WMA'', ''ENY'', ''NLI'', ''NNJ'', ''NNY'', ''SNJ'', ''WNY'', ''DE'',
      ''EPA'', ''MDC'', ''WPA'', ''AL'', ''GA'', ''KY'', ''NC'', ''NFL'', ''SC'', ''SFL'', ''WCF'', ''TN'', ''VA'', ''PR'',
      ''MI'', ''OH'', ''WV'', ''IL'', ''IN'', ''WI'', ''AR'', ''LA'', ''MS'', ''NM'', ''OK'', ''NTX'', ''STX'', ''WTX'',
      ''CO'', ''IA'', ''KS'', ''MN'', ''MO'', ''NE'', ''ND'', ''SD'', ''OR'', ''EWA'', ''WWA'', ''ID'', ''MT'', ''WY'', ''AK'',
      ''HI'', ''PAC'', ''AZ'', ''EBay'', ''LAX'', ''ORG'', ''SB'', ''SDG'', ''SCV'', ''SF'', ''SJV'', ''SV'', ''NV'', ''UT'',
      ''AB'', ''BC'', ''GH'', ''MB'', ''NB'', ''NL'', ''NS'', ''NT'', ''ON'', ''PE'', ''QC'', ''SK'', ''YT'']"

definition STATE_CODES :: "string list" where
  "STATE_CODES =
     [''AL'', ''AK'', ''AZ'', ''AR'', ''CA'', ''CO'', ''CT'', ''DE'', ''FL'', ''GA'', ''HI'', ''ID'', ''IL'', ''IN'', ''IA'',
      ''KS'', ''KY'', ''LA'', ''ME'', ''MD'', ''MA'', ''MI'', ''MN'', ''MS'', ''MO'', ''MT'', ''NE'', ''NV'', ''NH'', ''NJ'',
      ''NM'', ''NY'', ''NC'', ''ND'', ''OH'', ''OK'', ''OR'', ''PA'', ''RI'', ''SC'', ''SD'', ''TN'', ''TX'', ''UT'', ''VT'',
      ''VA'', ''WA'', ''WV'', ''WI'', ''WY'', ''DC'', ''AB'', ''BC'', ''MB'', ''NB'', ''NL'', ''NS'', ''NT'', ''NU'', ''ON'',
      ''PE'', ''QC'', ''SK'']"

text \<open>\<open>{:02}\<close>.\<close>

definition pad2 :: "nat \<Rightarrow> string" where
  "pad2 n = (let s = nat_to_dec n in replicate (2 - length s) CHR ''0'' @ s)"

definition decode_arrl_section :: "u8 \<Rightarrow> string" where
  "decode_arrl_section code =
     (if unat code < length ARRL_SECTIONS then ARRL_SECTIONS ! unat code else CHR ''S'' # pad2 (unat code))"

definition decode_state_code :: "u8 \<Rightarrow> string" where
  "decode_state_code code = (if unat code < length STATE_CODES then STATE_CODES ! unat code else ''DX'')"

section \<open>Standard messages\<close>

definition apply_suffix :: "string option \<Rightarrow> u8 \<Rightarrow> string option" where
  "apply_suffix call ip =
     (case call of
        Some c \<Rightarrow>
          if ip = 1 \<and> \<not> starts_with c ''CQ'' \<and> \<not> starts_with c ''DE'' \<and> \<not> starts_with c ''QRZ''
          then Some (c @ ''/P'') else Some c
      | None \<Rightarrow> None)"

text \<open>The subtype and the fields of a standard message, from the unpacked fields.\<close>

definition fill_standard ::
  "callsign_field \<Rightarrow> u8 \<Rightarrow> callsign_field \<Rightarrow> u8 \<Rightarrow> u8 \<Rightarrow> string option \<times> int option \<times> string option \<Rightarrow>
   ft8_message \<Rightarrow> ft8_message" where
  "fill_standard call_a ipa call_b ipb ir field message =
     (let (grid, report, token) = field;
          call_a_str = apply_suffix (to_callsign call_a) ipa;
          call_b_str = apply_suffix (to_callsign call_b) ipb;
          (filtered_grid, rr73_from_grid) = (if grid = Some ''RR73'' then (None, True) else (grid, False));
          token = (if rr73_from_grid \<and> token = None then Some ''RR73'' else token)
      in case call_a of
           CqField m \<Rightarrow>
             message \<lparr> m_standard := Some St_Cq,
                       m_special := (case m of Some x \<Rightarrow> Some x | None \<Rightarrow> m_special message),
                       m_from := call_b_str, m_grid := filtered_grid \<rparr>
         | _ \<Rightarrow>
             (case token of
                Some tok \<Rightarrow>
                  message \<lparr> m_standard := Some (if tok = ''RRR'' then Rrr else if tok = ''RR73'' then RR73
                                               else if tok = ''73'' then Final73 else Reply),
                            m_to := call_a_str, m_from := call_b_str \<rparr>
              | None \<Rightarrow>
                  (case report of
                     Some rpt \<Rightarrow>
                       message \<lparr> m_report := Some rpt,
                                 m_standard := Some (if ir \<noteq> 0 then ReportWithR else Report),
                                 m_to := call_a_str, m_from := call_b_str \<rparr>
                   | None \<Rightarrow>
                       if grid \<noteq> None then
                         message \<lparr> m_standard := Some (if ir \<noteq> 0 then ReplyWithR else Reply),
                                   m_to := call_a_str, m_from := call_b_str, m_grid := filtered_grid \<rparr>
                       else
                         message \<lparr> m_standard := Some Reply, m_to := call_a_str, m_from := to_callsign call_b \<rparr>)))"

definition parse_type1_standard :: "bool list \<Rightarrow> ft8_message \<Rightarrow> ft8_message ft8_result" where
  "parse_type1_standard payload message =
     (let n29a = bits_to_u32 (slice 0 29 payload);
          n29b = bits_to_u32 (slice 29 58 payload);
          ir = (if payload ! 58 then 1 else 0);
          igrid4 = ucast (bits_to_u32 (slice 59 74 payload));
          n28a = drop_bit 1 n29a; ipa = ucast (n29a AND 1);
          n28b = drop_bit 1 n29b; ipb = ucast (n29b AND 1)
      in Inr (fill_standard (unpack28 n28a) ipa (unpack28 n28b) ipb ir (unpackgrid igrid4 ir) message))"

section \<open>The other types\<close>

definition parse_freetext :: "bool list \<Rightarrow> ft8_message \<Rightarrow> ft8_message ft8_result" where
  "parse_freetext bits71 message =
     Inr (case parse_freetext_type0 bits71 of Some txt \<Rightarrow> message \<lparr> m_text := Some txt \<rparr> | None \<Rightarrow> message)"

text \<open>\<open>{:02X}\<close>.\<close>

definition hex_digit :: "nat \<Rightarrow> char" where
  "hex_digit d = (if d < 10 then char_add CHR ''0'' d else char_add CHR ''A'' (d - 10))"

definition hex2 :: "u8 \<Rightarrow> string" where
  "hex2 b = [hex_digit (unat b div 16), hex_digit (unat b mod 16)]"

definition parse_telemetry_type0 :: "bool list \<Rightarrow> ft8_message \<Rightarrow> ft8_message ft8_result" where
  "parse_telemetry_type0 bits71 message =
     Inr (message \<lparr> m_text := Some (concat (map hex2 (shr_bytes 0 (pack_msb 9 bits71)))) \<rparr>)"

definition parse_nonstd_call :: "hash_table \<Rightarrow> bool list \<Rightarrow> ft8_message \<Rightarrow> ft8_message ft8_result" where
  "parse_nonstd_call ht payload message =
     (let n12 = (ucast (bits_to_u32 (slice 0 12 payload)) :: u16);
          n58 = bits_to_u64 (slice 12 70 payload);
          iflip = payload ! 70;
          nrpt = (ucast (bits_to_u32 (slice 71 73 payload)) :: u8);
          icq = payload ! 73;
          call_decoded = unpack58 n58;
          call_hashed = (case lookup_12bit_hash ht (ucast n12) of
                           Some c \<Rightarrow> ''<'' @ c @ ''>'' | None \<Rightarrow> ''<...>'');
          (call_1, call_2) = (if iflip then (call_decoded, call_hashed) else (call_hashed, call_decoded))
      in Inr (if icq then message \<lparr> m_to := Some ''CQ'', m_from := Some call_decoded \<rparr>
              else message \<lparr> m_to := Some call_1, m_from := Some call_2,
                             m_exchange := (if nrpt = 1 then Some ''RRR'' else if nrpt = 2 then Some ''RR73''
                                            else if nrpt = 3 then Some ''73'' else m_exchange message) \<rparr>))"

definition parse_rtty_roundup :: "bool list \<Rightarrow> ft8_message \<Rightarrow> ft8_message ft8_result" where
  "parse_rtty_roundup payload message =
     (let tu = payload ! 0;
          n28a = bits_to_u32 (slice 1 29 payload);
          n28b = bits_to_u32 (slice 30 58 payload);
          r_flag = payload ! 59;
          nrpt = (ucast (bits_to_u32 (slice 63 74 payload)) :: u16);
          call_a = unpack28 n28a; call_b = unpack28 n28b;
          message = (if tu then message \<lparr> m_special := Some ''TU'' \<rparr> else message);
          message = message \<lparr> m_to := to_callsign call_a, m_from := to_callsign call_b \<rparr>;
          rst = 519 + (nrpt AND 0x1FFF) div 84;
          state_idx = (nrpt AND 0x1FFF) mod 84;
          exchange = (if r_flag then ''R '' else []) @ nat_to_dec (unat rst) @ '' '' @ nat_to_dec (unat state_idx)
      in Inr (message \<lparr> m_exchange := Some exchange \<rparr>))"

text \<open>The \<open>Debug\<close> rendering of a call field, as the DXpedition error prints it.\<close>

fun field_debug :: "callsign_field \<Rightarrow> string" where
  "field_debug (CallField s) = ''Callsign('' @ [CHR 0x22] @ s @ [CHR 0x22] @ '')''"
| "field_debug (CqField None) = ''Cq(None)''"
| "field_debug (CqField (Some m)) = ''Cq(Some('' @ [CHR 0x22] @ m @ [CHR 0x22] @ ''))''"
| "field_debug (TokenField s) = ''Token('' @ [CHR 0x22] @ s @ [CHR 0x22] @ '')''"
| "field_debug (HashField h) = ''Hash('' @ nat_to_dec (unat h) @ '')''"

definition hound_field :: "u32 \<Rightarrow> string \<Rightarrow> string ft8_result" where
  "hound_field n28 which =
     (case unpack28 n28 of
        CallField call \<Rightarrow> Inr call
      | other \<Rightarrow> Inl (MessageDecodingError
          (''DXpedition '' @ which @ '' Hound is not a standard callsign: '' @ field_debug other)))"

definition parse_dxpedition_type0 :: "hash_table \<Rightarrow> bool list \<Rightarrow> ft8_message \<Rightarrow> ft8_message ft8_result" where
  "parse_dxpedition_type0 ht bits message =
     (let n28a = bits_to_u32 (slice 0 28 bits);
          n28b = bits_to_u32 (slice 28 56 bits);
          h10 = bits_to_u32 (slice 56 66 bits);
          r5 = ucast (bits_to_u32 (slice 66 71 bits))
      in case hound_field n28a ''RR73'' of
           Inl e \<Rightarrow> Inl e
         | Inr to1 \<Rightarrow>
             (case hound_field n28b ''report'' of
                Inl e \<Rightarrow> Inl e
              | Inr to2 \<Rightarrow>
                  let contacts = \<lparr> rr73_to = to1, report_to = to2, fox_hash10 = ucast h10,
                                   fox_call = lookup_10bit_hash ht h10, report_db = dxpedition_r5_to_report r5 \<rparr>
                  in Inr (message \<lparr> m_from := fox_call contacts, m_to := None,
                                    m_report := Some (report_db contacts), m_uses_hash := True,
                                    m_text := Some (contacts_text contacts), m_dxpedition := Some contacts \<rparr>)))"

definition or_question :: "string option \<Rightarrow> string" where
  "or_question s = (case s of Some x \<Rightarrow> x | None \<Rightarrow> ''?'')"

definition parse_eu_vhf_type0 :: "bool list \<Rightarrow> ft8_message \<Rightarrow> ft8_message ft8_result" where
  "parse_eu_vhf_type0 bits message =
     (let n28a = bits_to_u32 (slice 0 28 bits);
          n28b = bits_to_u32 (slice 28 56 bits);
          ir = bits ! 56;
          irpt = unat (bits_to_u32 (slice 57 71 bits));
          call_a = unpack28 n28a; call_b = unpack28 n28b;
          message = message \<lparr> m_to := to_callsign call_a, m_from := to_callsign call_b \<rparr>;
          head = or_question (m_to message) @ '' '' @ or_question (m_from message) @ '' '' @
                 (if ir then ''R '' else [])
      in if irpt < 16200 then
           (let lon = irpt div 900; remainder = irpt mod 900; lat = remainder div 50;
                lon_digit = remainder mod 50 div 5; lat_digit = remainder mod 5;
                grid = [char_add CHR ''A'' lon, char_add CHR ''A'' lat] @ nat_to_dec lon_digit @
                       nat_to_dec (lat_digit * 2)
            in Inr (message \<lparr> m_grid := Some grid, m_text := Some (head @ grid) \<rparr>))
         else
           (let rpt_val = irpt - 16200 in
            if rpt_val = 1 then Inr (message \<lparr> m_text := Some (head @ ''RRR'') \<rparr>)
            else if rpt_val = 2 then Inr (message \<lparr> m_text := Some (head @ ''RR73'') \<rparr>)
            else if rpt_val = 3 then Inr (message \<lparr> m_text := Some (head @ ''73'') \<rparr>)
            else let report = int rpt_val - 35
                 in Inr (message \<lparr> m_report := Some (as_i8 report), m_text := Some (head @ plus03 report) \<rparr>)))"

definition parse_field_day_type0 :: "bool list \<Rightarrow> ft8_message \<Rightarrow> ft8_message ft8_result" where
  "parse_field_day_type0 bits message =
     (let n28a = bits_to_u32 (slice 0 28 bits);
          n28b = bits_to_u32 (slice 28 56 bits);
          ir = bits ! 56;
          n_class_section = unat (bits_to_u32 (slice 57 71 bits));
          call_a = unpack28 n28a; call_b = unpack28 n28b;
          message = message \<lparr> m_to := to_callsign call_a, m_from := to_callsign call_b \<rparr>;
          class_code = n_class_section div 84; section_code = n_class_section mod 84;
          n_tx = class_code div 6 + 1;
          class_letter = char_add CHR ''A'' (class_code mod 6);
          section_name = decode_arrl_section (of_nat section_code);
          exchange = nat_to_dec n_tx @ [class_letter] @ '' '' @ section_name
      in Inr (message \<lparr> m_exchange := Some exchange,
                        m_text := Some (or_question (m_to message) @ '' '' @ or_question (m_from message) @ '' '' @
                                        (if ir then ''R '' else []) @ exchange) \<rparr>))"

section \<open>parse\_payload\<close>

definition parse_payload :: "hash_table \<Rightarrow> bool list \<Rightarrow> ft8_message ft8_result" where
  "parse_payload ht payload =
     (if length payload \<noteq> PAYLOAD_BITS
      then Inl (MessageDecodingError (''Invalid payload length: '' @ nat_to_dec (length payload) @ '' bits''))
      else
        let message = default_message \<lparr> m_payload := payload \<rparr>;
            i3 = bits_to_u32 (slice 74 77 payload)
        in if i3 = 0 then
             (let n3 = bits_to_u32 (slice 71 74 payload) in
              if n3 = 0 then parse_freetext (slice 0 71 payload) (message \<lparr> m_type := FreeText \<rparr>)
              else if n3 = 5 then parse_telemetry_type0 (slice 0 71 payload) (message \<lparr> m_type := Telemetry \<rparr>)
              else if n3 = 1 then parse_dxpedition_type0 ht (slice 0 71 payload) (message \<lparr> m_type := DXpedition \<rparr>)
              else if n3 = 2 then parse_eu_vhf_type0 (slice 0 71 payload) (message \<lparr> m_type := Contest \<rparr>)
              else if n3 = 3 \<or> n3 = 4 then parse_field_day_type0 (slice 0 71 payload) (message \<lparr> m_type := FieldDay \<rparr>)
              else Inr (message \<lparr> m_type := Unknown \<rparr>))
           else if i3 = 1 \<or> i3 = 2 then parse_type1_standard payload (message \<lparr> m_type := Standard \<rparr>)
           else if i3 = 3 then parse_rtty_roundup payload (message \<lparr> m_type := RTTYRoundup \<rparr>)
           else if i3 = 4 then parse_nonstd_call ht payload (message \<lparr> m_type := NonStdCall \<rparr>)
           else Inr (message \<lparr> m_type := Unknown \<rparr>))"

end
