(* ===== verification/Message_Text.thy ===== *)
theory Message_Text
  imports Message
begin

text \<open>
  Messages as text, \<open>pancetta-ft8/src/message.rs\<close>: the \<open>Display\<close> of a parsed message, which is what the
  operator and the QSO engine see of a decode, and \<open>Ft8Message::from_text\<close>, which reads such a text back when the
  decode comes from the external decoder.
\<close>

section \<open>Display\<close>

text \<open>The optional fields, alone or after a space.\<close>

definition field_text :: "string option \<Rightarrow> string" where
  "field_text f = (case f of Some s \<Rightarrow> s | None \<Rightarrow> [])"

definition spaced_text :: "string option \<Rightarrow> string" where
  "spaced_text f = (case f of Some s \<Rightarrow> '' '' @ s | None \<Rightarrow> [])"

definition calls_text :: "ft8_message \<Rightarrow> string" where
  "calls_text msg = field_text (m_to msg) @ spaced_text (m_from msg)"

definition display_standard :: "ft8_message \<Rightarrow> string" where
  "display_standard msg =
     (case m_standard msg of
        Some St_Cq \<Rightarrow> ''CQ'' @ spaced_text (m_special msg) @ spaced_text (m_from msg) @ spaced_text (m_grid msg)
      | Some Reply \<Rightarrow> calls_text msg @ spaced_text (m_grid msg)
      | Some ReplyWithR \<Rightarrow> calls_text msg @ '' R'' @ spaced_text (m_grid msg)
      | Some Report \<Rightarrow> calls_text msg @ spaced_text (map_option plus03 (m_report msg))
      | Some ReportWithR \<Rightarrow> calls_text msg @ '' R'' @ field_text (map_option plus03 (m_report msg))
      | Some Rrr \<Rightarrow> calls_text msg @ '' RRR''
      | Some Final73 \<Rightarrow> calls_text msg @ '' 73''
      | Some RR73 \<Rightarrow> calls_text msg @ '' RR73''
      | None \<Rightarrow> ''<Unknown Standard>'')"

definition display_message :: "ft8_message \<Rightarrow> string" where
  "display_message msg =
     (case m_type msg of
        Standard \<Rightarrow> display_standard msg
      | Contest \<Rightarrow> calls_text msg @ spaced_text (m_exchange msg)
      | FreeText \<Rightarrow> field_text (m_text msg)
      | FieldDay \<Rightarrow> calls_text msg @ spaced_text (m_exchange msg)
      | Telemetry \<Rightarrow> (case m_text msg of Some t \<Rightarrow> t | None \<Rightarrow> ''<Telemetry>'')
      | NonStdCall \<Rightarrow> calls_text msg @ spaced_text (m_exchange msg)
      | DXpedition \<Rightarrow>
          (case m_dxpedition msg of
             Some contacts \<Rightarrow> contacts_text contacts
           | None \<Rightarrow> calls_text msg @ spaced_text (m_exchange msg) @ spaced_text (m_grid msg))
      | Extended \<Rightarrow> calls_text msg @ spaced_text (m_exchange msg) @ spaced_text (m_grid msg)
      | RTTYRoundup \<Rightarrow> calls_text msg @ spaced_text (m_exchange msg) @ spaced_text (m_grid msg)
      | Unknown \<Rightarrow> ''<Unknown>'')"

section \<open>Reading a text\<close>

definition text_looks_like_callsign :: "string \<Rightarrow> bool" where
  "text_looks_like_callsign s \<longleftrightarrow>
     3 \<le> length s \<and> length s \<le> 10 \<and> list_all (\<lambda>c. is_ascii_alphanumeric c \<or> c = CHR ''/'') s \<and>
     list_ex is_ascii_digit s"

definition text_looks_like_grid :: "string \<Rightarrow> bool" where
  "text_looks_like_grid s \<longleftrightarrow>
     length s = 4 \<and>
     char_between CHR ''A'' CHR ''R'' (to_ascii_upper (s ! 0)) \<and>
     char_between CHR ''A'' CHR ''R'' (to_ascii_upper (s ! 1)) \<and>
     is_ascii_digit (s ! 2) \<and> is_ascii_digit (s ! 3)"

definition text_looks_like_report :: "string \<Rightarrow> bool" where
  "text_looks_like_report s \<longleftrightarrow>
     2 \<le> length s \<and> (s ! 0 = CHR ''+'' \<or> s ! 0 = CHR ''-'') \<and> list_all is_ascii_digit (drop 1 s)"

text \<open>\<open>parse::<i8>\<close>: the syntax of \<open>parse::<i32>\<close> in a smaller range.\<close>

definition text_parse_report :: "string \<Rightarrow> int option" where
  "text_parse_report s =
     (case parse_i32 s of Some v \<Rightarrow> if - 128 \<le> v \<and> v \<le> 127 then Some v else None | None \<Rightarrow> None)"

text \<open>The match on the words after the two calls, arm by arm.\<close>

definition from_suffix :: "string list \<Rightarrow> ft8_message \<Rightarrow> ft8_message" where
  "from_suffix words msg =
     (if words = [''RR73''] then msg \<lparr> m_standard := Some RR73 \<rparr>
      else if words = [''RRR''] then msg \<lparr> m_standard := Some Rrr \<rparr>
      else if words = [''73''] then msg \<lparr> m_standard := Some Final73 \<rparr>
      else if length words = 2 \<and> words ! 0 = ''R'' \<and> text_looks_like_grid (words ! 1)
        then msg \<lparr> m_standard := Some ReplyWithR, m_grid := Some (words ! 1) \<rparr>
      else if length words = 2 \<and> words ! 0 = ''R'' \<and> text_looks_like_report (words ! 1)
        then msg \<lparr> m_standard := Some ReportWithR, m_report := text_parse_report (words ! 1) \<rparr>
      else if length words = 1 \<and> 1 < length (words ! 0) \<and> starts_with (words ! 0) ''R'' \<and>
              text_looks_like_report (drop 1 (words ! 0))
        then msg \<lparr> m_standard := Some ReportWithR, m_report := text_parse_report (drop 1 (words ! 0)) \<rparr>
      else if length words = 1 \<and> text_looks_like_grid (words ! 0)
        then msg \<lparr> m_standard := Some Reply, m_grid := Some (words ! 0) \<rparr>
      else if length words = 1 \<and> text_looks_like_report (words ! 0)
        then msg \<lparr> m_standard := Some Report, m_report := text_parse_report (words ! 0) \<rparr>
      else msg \<lparr> m_standard := None \<rparr>)"

definition from_cq :: "string list \<Rightarrow> ft8_message \<Rightarrow> ft8_message" where
  "from_cq parts msg =
     (let msg = msg \<lparr> m_standard := Some St_Cq \<rparr>;
          (msg, idx) = (if 1 < length parts \<and> \<not> text_looks_like_callsign (parts ! 1) \<and> \<not> text_looks_like_grid (parts ! 1)
                        then (msg \<lparr> m_special := Some (parts ! 1) \<rparr>, 2) else (msg, 1));
          (msg, idx) = (if idx < length parts then (msg \<lparr> m_from := Some (parts ! idx) \<rparr>, idx + 1) else (msg, idx))
      in if idx < length parts \<and> text_looks_like_grid (parts ! idx) then msg \<lparr> m_grid := Some (parts ! idx) \<rparr> else msg)"

definition from_text :: "string \<Rightarrow> ft8_message" where
  "from_text t =
     (let parts = split_whitespace t;
          msg = default_message \<lparr> m_type := Standard \<rparr>
      in if parts = [] then msg \<lparr> m_type := FreeText, m_text := Some t \<rparr>
         else if parts ! 0 = ''CQ'' then from_cq parts msg
         else if 2 \<le> length parts then
           (let msg = msg \<lparr> m_to := Some (parts ! 0), m_from := Some (parts ! 1) \<rparr>
            in if length parts = 2 then msg \<lparr> m_standard := Some Reply \<rparr> else from_suffix (drop 2 parts) msg)
         else msg \<lparr> m_type := FreeText, m_text := Some t \<rparr>)"

end
