(* ===== verification/Slot.thy ===== *)
theory Slot
  imports Prelude "HOL-Library.Monad_Syntax"
begin

text \<open>
  Slot timing: \<^verbatim>\<open>pancetta-core/src/slot.rs\<close> and \<^verbatim>\<open>slot_clock.rs\<close>. An instant
  (\<open>DateTime<Utc>\<close>) and a \<open>Duration\<close> are integers of nanoseconds; the conversions to \<open>i64\<close> and the
  divisions panic as in the code (\<open>None\<close>), other \<open>i64\<close> arithmetic wraps around. The search loop for a
  slot boundary is a partial function: not returning is \<open>None\<close> too, and the theorems show it returns.
\<close>

section \<open>slot.rs\<close>

definition SLOT_NS :: int where "SLOT_NS = 15 * 1000000000"

definition PRE_ROLL_NS :: int where "PRE_ROLL_NS = 500000000"

definition TX_DURATION_NS :: int where "TX_DURATION_NS = 12640000000"

text \<open>\<open>timestamp_nanos_opt().expect(..)\<close>, and \<open>num_nanoseconds\<close> of a duration.\<close>

definition timestamp_nanos :: "int \<Rightarrow> int option" where
  "timestamp_nanos t = (if in_i64 t then Some t else None)"

definition num_nanoseconds :: "int \<Rightarrow> int option" where
  "num_nanoseconds d = (if in_i64 d then Some d else None)"

text \<open>\<open>i64\<close> division: the panics of a zero divisor and of \<open>i64::MIN / -1\<close>. For a negative divisor
  \<open>div_euclid\<close> rounds so that the remainder is not negative.\<close>

definition i64_div :: "int \<Rightarrow> int \<Rightarrow> int option" where
  "i64_div a b = (if b = 0 \<or> (a = I64_MIN \<and> b = - 1) then None else Some (trunc_div a b))"

definition i64_div_euclid :: "int \<Rightarrow> int \<Rightarrow> int option" where
  "i64_div_euclid a b =
     (if b = 0 \<or> (a = I64_MIN \<and> b = - 1) then None
      else Some (if 0 < b then a div b else - (a div (- b))))"

definition current_slot_start_with_period :: "int \<Rightarrow> int \<Rightarrow> int option" where
  "current_slot_start_with_period t slot_ns = do {
     ns \<leftarrow> timestamp_nanos t;
     q \<leftarrow> i64_div_euclid ns slot_ns;
     Some (i64_wrap (q * slot_ns))
   }"

definition current_slot_start :: "int \<Rightarrow> int option" where
  "current_slot_start t = current_slot_start_with_period t SLOT_NS"

datatype slot_parity = Even | Odd

definition of_with_period :: "int \<Rightarrow> int \<Rightarrow> slot_parity option" where
  "of_with_period t slot_ns = do {
     ns \<leftarrow> timestamp_nanos t;
     slot_index \<leftarrow> i64_div_euclid ns slot_ns;
     Some (if trunc_rem slot_index 2 = 0 then Even else Odd)
   }"

definition parity_of :: "int \<Rightarrow> slot_parity option" where
  "parity_of t = of_with_period t SLOT_NS"

fun opposite :: "slot_parity \<Rightarrow> slot_parity" where
  "opposite Even = Odd"
| "opposite Odd = Even"

text \<open>The loop \<open>while target_ns - now_ns < lead_ns { target_ns += slot_ns }\<close>.\<close>

partial_function (option) advance_target :: "int \<Rightarrow> int \<Rightarrow> int \<Rightarrow> int \<Rightarrow> int option" where
  "advance_target now_ns lead_ns slot_ns target_ns =
     (if i64_wrap (target_ns - now_ns) < lead_ns
      then advance_target now_ns lead_ns slot_ns (i64_wrap (target_ns + slot_ns))
      else Some target_ns)"

definition next_slot_start_with_period :: "int \<Rightarrow> int \<Rightarrow> int \<Rightarrow> int option" where
  "next_slot_start_with_period now min_lead slot_ns = do {
     now_ns \<leftarrow> timestamp_nanos now;
     let lead_ns = max (case num_nanoseconds min_lead of Some d \<Rightarrow> d | None \<Rightarrow> 0) 0;
     q \<leftarrow> i64_div now_ns slot_ns;
     advance_target now_ns lead_ns slot_ns (i64_wrap (i64_wrap (q + 1) * slot_ns))
   }"

definition next_slot_start :: "int \<Rightarrow> int \<Rightarrow> int option" where
  "next_slot_start now min_lead = next_slot_start_with_period now min_lead SLOT_NS"

definition next_slot_with_parity_with_period :: "int \<Rightarrow> slot_parity \<Rightarrow> int \<Rightarrow> int option" where
  "next_slot_with_parity_with_period now wanted slot_ns = do {
     candidate \<leftarrow> next_slot_start_with_period now 0 slot_ns;
     p \<leftarrow> of_with_period candidate slot_ns;
     Some (if p \<noteq> wanted then candidate + slot_ns else candidate)
   }"

definition next_slot_with_parity :: "int \<Rightarrow> slot_parity \<Rightarrow> int option" where
  "next_slot_with_parity now wanted = next_slot_with_parity_with_period now wanted SLOT_NS"

definition next_audio_start_with_period :: "int \<Rightarrow> int \<Rightarrow> int \<Rightarrow> int option" where
  "next_audio_start_with_period now min_lead slot_ns = do {
     let pre_roll = PRE_ROLL_NS;
     let slot_lead = (if min_lead > pre_roll then min_lead - pre_roll else 0);
     start \<leftarrow> next_slot_start_with_period now slot_lead slot_ns;
     Some (start + pre_roll)
   }"

definition next_audio_start :: "int \<Rightarrow> int \<Rightarrow> int option" where
  "next_audio_start now min_lead = next_audio_start_with_period now min_lead SLOT_NS"

definition next_phase_with_period :: "int \<Rightarrow> int \<Rightarrow> int \<Rightarrow> int option" where
  "next_phase_with_period now offset slot_ns = do {
     offset_ns \<leftarrow> num_nanoseconds offset;
     if 0 \<le> offset_ns \<and> offset_ns < slot_ns then do {
       now_ns \<leftarrow> timestamp_nanos now;
       q \<leftarrow> i64_div now_ns slot_ns;
       let current_slot_ns = i64_wrap (q * slot_ns);
       let candidate = i64_wrap (current_slot_ns + offset_ns);
       Some (if candidate > now_ns then candidate else i64_wrap (candidate + slot_ns))
     } else None
   }"

definition next_phase :: "int \<Rightarrow> int \<Rightarrow> int option" where
  "next_phase now offset = do {
     offset_ns \<leftarrow> num_nanoseconds offset;
     if 0 \<le> offset_ns \<and> offset_ns < SLOT_NS then next_phase_with_period now offset SLOT_NS else None
   }"

definition duration_until :: "int \<Rightarrow> int \<Rightarrow> nat" where
  "duration_until target now = (let delta = target - now in if 0 \<le> delta then nat delta else 0)"

section \<open>slot\_clock.rs\<close>

datatype wall_clock_jump = Forward int | Backward int

definition classify_deadline_jump :: "int \<Rightarrow> int \<Rightarrow> int \<Rightarrow> wall_clock_jump option" where
  "classify_deadline_jump now deadline period_ns =
     (let period = period_ns; ahead = deadline - now in
      if ahead > period then Some (Backward ahead)
      else if - ahead > period then Some (Forward (- ahead))
      else None)"

definition CLOCK_STEP_THRESHOLD_MS :: int where "CLOCK_STEP_THRESHOLD_MS = 250"

text \<open>The largest \<open>chrono::Duration\<close>: \<open>i64::MAX\<close> milliseconds.\<close>

definition DURATION_MAX :: int where "DURATION_MAX = I64_MAX * 1000000"

record clock_step_detector =
  last_wall :: int

definition detector_new :: "int \<Rightarrow> clock_step_detector" where
  "detector_new wall_now = \<lparr> last_wall = wall_now \<rparr>"

text \<open>\<open>observe\<close> returns the re-baselined detector and the skew when it reaches the threshold; \<open>None\<close> is
  the panic of a duration subtraction that overflows.\<close>

definition observe :: "clock_step_detector \<Rightarrow> int \<Rightarrow> nat \<Rightarrow> (clock_step_detector \<times> int option) option" where
  "observe self wall_now mono_elapsed =
     (let wall_elapsed = wall_now - last_wall self;
          self = self \<lparr> last_wall := wall_now \<rparr>;
          mono = (if int mono_elapsed \<le> DURATION_MAX then int mono_elapsed else DURATION_MAX);
          skew = wall_elapsed - mono
      in if \<bar>skew\<bar> \<le> DURATION_MAX
         then Some (self, if \<bar>trunc_div skew 1000000\<bar> \<ge> CLOCK_STEP_THRESHOLD_MS then Some skew else None)
         else None)"

section \<open>The slot grid\<close>

lemma trunc_rem_2: "trunc_rem q 2 = 0 \<longleftrightarrow> even q"
proof (cases "0 \<le> q")
  case True
  then show ?thesis by (simp add: trunc_rem_def trunc_div_nonneg even_iff_mod_2_eq_zero minus_div_mult_eq_mod)
next
  case False
  then have "trunc_rem q 2 = - ((- q) mod 2)"
    by (simp add: trunc_rem_def trunc_div_def sgn_if minus_div_mult_eq_mod [symmetric])
  then show ?thesis by (simp add: even_iff_mod_2_eq_zero [symmetric])
qed

text \<open>A grid of slots of a positive period, for instants from the epoch up to the end of the \<open>i64\<close>
  range less the look-ahead of the operation.\<close>

locale slot_grid =
  fixes slot_ns :: int
  assumes period_pos: "0 < slot_ns"
begin

lemma slot_bounds: "t div slot_ns * slot_ns \<le> t" "t < (t div slot_ns + 1) * slot_ns"
proof -
  have "t div slot_ns * slot_ns + t mod slot_ns = t" by simp
  moreover have "0 \<le> t mod slot_ns" "t mod slot_ns < slot_ns" using period_pos by simp_all
  ultimately show "t div slot_ns * slot_ns \<le> t" "t < (t div slot_ns + 1) * slot_ns"
    by (linarith, simp only: distrib_right mult_1)
qed

lemma slot_index_bounds: "0 \<le> t \<Longrightarrow> 0 \<le> t div slot_ns" "0 \<le> t \<Longrightarrow> t div slot_ns \<le> t"
  using period_pos zdiv_mono2 [of t 1 slot_ns] by (simp_all add: pos_imp_zdiv_nonneg_iff)

lemma advance_target_spec:
  assumes "0 \<le> now" and "now \<le> target" and "now + lead + slot_ns \<le> I64_MAX" and "target \<le> I64_MAX"
  shows "\<exists>t. advance_target now lead slot_ns target = Some t \<and> target \<le> t \<and> t mod slot_ns = target mod slot_ns \<and>
             lead \<le> t - now \<and> (t = target \<or> t - slot_ns - now < lead) \<and> t \<le> max target (now + lead + slot_ns)"
  using assms
proof (induction "nat (lead - (target - now))" arbitrary: target rule: less_induct)
  case less
  have w: "i64_wrap (target - now) = target - now"
    using less.prems by (intro i64_wrap_id) (auto simp: int_simps)
  show ?case
  proof (cases "target - now < lead")
    case True
    have w2: "i64_wrap (target + slot_ns) = target + slot_ns"
      using less.prems True period_pos by (intro i64_wrap_id) (auto simp: int_simps)
    have "\<exists>t. advance_target now lead slot_ns (target + slot_ns) = Some t \<and> target + slot_ns \<le> t \<and>
        t mod slot_ns = (target + slot_ns) mod slot_ns \<and> lead \<le> t - now \<and>
        (t = target + slot_ns \<or> t - slot_ns - now < lead) \<and>
        t \<le> max (target + slot_ns) (now + lead + slot_ns)"
      using less.prems True period_pos by (intro less.hyps) auto
    then show ?thesis
      using True w w2 period_pos by (subst advance_target.simps) (auto simp: max_def split: if_splits)
  next
    case False
    then show ?thesis using w less.prems by (subst advance_target.simps) auto
  qed
qed

lemma next_slot_start_spec:
  assumes "0 \<le> now" and "0 \<le> lead" and "now + lead + 2 * slot_ns \<le> I64_MAX"
  shows "\<exists>t. next_slot_start_with_period now lead slot_ns = Some t \<and> t mod slot_ns = 0 \<and> now < t \<and>
             now + lead \<le> t \<and> (t - slot_ns \<le> now \<or> t - slot_ns < now + lead) \<and>
             t \<le> now + lead + slot_ns"
proof -
  let ?q = "now div slot_ns"
  have q: "?q * slot_ns \<le> now" "now < (?q + 1) * slot_ns" "0 \<le> ?q" "?q \<le> now"
    using slot_bounds [of now] slot_index_bounds [OF assms(1)] by simp_all
  have r: "in_i64 now" "in_i64 (?q + 1)" "in_i64 ((?q + 1) * slot_ns)" "in_i64 lead"
    using assms period_pos q by (auto simp: int_simps algebra_simps)
  have lead: "max (case num_nanoseconds lead of Some d \<Rightarrow> d | None \<Rightarrow> 0) 0 = lead"
    using assms r by (simp add: num_nanoseconds_def)
  have start: "next_slot_start_with_period now lead slot_ns = advance_target now lead slot_ns ((?q + 1) * slot_ns)"
    using r lead period_pos assms
    by (simp add: next_slot_start_with_period_def timestamp_nanos_def i64_div_def trunc_div_nonneg i64_wrap_id Let_def)
  have "now \<le> (?q + 1) * slot_ns" "now + lead + slot_ns \<le> I64_MAX" "(?q + 1) * slot_ns \<le> I64_MAX"
    using q assms period_pos r by (auto simp: int_simps)
  from advance_target_spec [OF assms(1) this]
  obtain t where t: "advance_target now lead slot_ns ((?q + 1) * slot_ns) = Some t" "(?q + 1) * slot_ns \<le> t"
      "t mod slot_ns = 0" "lead \<le> t - now" "t = (?q + 1) * slot_ns \<or> t - slot_ns - now < lead"
      "t \<le> max ((?q + 1) * slot_ns) (now + lead + slot_ns)"
    by auto
  have "(?q + 1) * slot_ns \<le> now + slot_ns" using q(1) by (simp add: distrib_right)
  then have "t \<le> now + lead + slot_ns" "t = (?q + 1) * slot_ns \<Longrightarrow> t - slot_ns \<le> now"
    using t(6) assms(2) by (auto simp: algebra_simps)
  with t start q(2) show ?thesis by auto
qed

lemma next_slot_start_least:
  assumes "0 \<le> now" and "0 \<le> lead" and "now + lead + 2 * slot_ns \<le> I64_MAX"
    and "next_slot_start_with_period now lead slot_ns = Some t"
    and "b mod slot_ns = 0" and "now < b" and "now + lead \<le> b"
  shows "t \<le> b"
proof -
  have t: "t mod slot_ns = 0" "t - slot_ns \<le> now \<or> t - slot_ns < now + lead"
    using next_slot_start_spec [OF assms(1-3)] assms(4) by auto
  obtain k m where km: "t = slot_ns * k" "b = slot_ns * m"
    using t(1) assms(5) by (auto simp: mod_eq_0_iff_dvd elim!: dvdE)
  have "t - slot_ns < b" using t(2) assms(6,7) by auto
  then have "slot_ns * (k - 1) < slot_ns * m" using km by (simp add: right_diff_distrib)
  then have "k - 1 < m" using period_pos by (simp add: mult_less_cancel_left_pos)
  then show ?thesis using km period_pos by (simp add: mult_le_cancel_left_pos)
qed

lemma parity_spec: "in_i64 t \<Longrightarrow> of_with_period t slot_ns = Some (if even (t div slot_ns) then Even else Odd)"
  using period_pos by (simp add: of_with_period_def timestamp_nanos_def i64_div_euclid_def trunc_rem_2)

lemma parity_next_slot:
  assumes "in_i64 t" and "in_i64 (t + slot_ns)"
  shows "of_with_period (t + slot_ns) slot_ns = map_option opposite (of_with_period t slot_ns)"
proof -
  have "(t + slot_ns) div slot_ns = t div slot_ns + 1" using period_pos by (intro div_add_self2) simp
  with assms show ?thesis by (simp add: parity_spec)
qed

lemma current_slot_start_spec:
  assumes "in_i64 t" and "0 \<le> t"
  shows "\<exists>s. current_slot_start_with_period t slot_ns = Some s \<and> s mod slot_ns = 0 \<and> s \<le> t \<and> t < s + slot_ns"
proof -
  have "0 \<le> t div slot_ns * slot_ns" using assms slot_index_bounds [of t] period_pos by simp
  then have "in_i64 (t div slot_ns * slot_ns)" using assms slot_bounds [of t] by (auto simp: int_simps)
  then have "current_slot_start_with_period t slot_ns = Some (t div slot_ns * slot_ns)"
    using assms period_pos
    by (simp add: current_slot_start_with_period_def timestamp_nanos_def i64_div_euclid_def i64_wrap_id)
  then show ?thesis using slot_bounds [of t] by (simp add: distrib_right)
qed

lemma next_slot_with_parity_spec:
  assumes "0 \<le> now" and "now + 3 * slot_ns \<le> I64_MAX"
  shows "\<exists>t. next_slot_with_parity_with_period now wanted slot_ns = Some t \<and> t mod slot_ns = 0 \<and> now < t \<and>
             t \<le> now + 2 * slot_ns \<and> of_with_period t slot_ns = Some wanted"
proof -
  obtain c where c: "next_slot_start_with_period now 0 slot_ns = Some c" "c mod slot_ns = 0" "now < c" "c \<le> now + slot_ns"
    using next_slot_start_spec [of now 0] assms period_pos by auto
  have r: "in_i64 c" "in_i64 (c + slot_ns)" using c assms period_pos by (auto simp: int_simps)
  show ?thesis
  proof (cases "of_with_period c slot_ns = Some wanted")
    case True
    then show ?thesis using c period_pos by (simp add: next_slot_with_parity_with_period_def)
  next
    case False
    then obtain p where p: "of_with_period c slot_ns = Some p" "p \<noteq> wanted" using parity_spec [OF r(1)] by auto
    then have "opposite p = wanted" by (cases p; cases wanted) auto
    with p have "of_with_period (c + slot_ns) slot_ns = Some wanted" using parity_next_slot [OF r] by simp
    then show ?thesis using c p period_pos by (simp add: next_slot_with_parity_with_period_def)
  qed
qed

lemma next_phase_spec:
  assumes "0 \<le> now" and "now + 2 * slot_ns \<le> I64_MAX" and "0 \<le> off" and "off < slot_ns"
  shows "\<exists>t. next_phase_with_period now off slot_ns = Some t \<and> t mod slot_ns = off \<and> now < t \<and> t \<le> now + slot_ns"
proof -
  let ?c = "now div slot_ns * slot_ns"
  have b: "?c \<le> now" "now < ?c + slot_ns" "0 \<le> ?c"
    using slot_bounds [of now] slot_index_bounds [OF assms(1)] period_pos by (simp_all add: distrib_right)
  have r: "in_i64 now" "in_i64 off" "in_i64 ?c" "in_i64 (?c + off)" "in_i64 (?c + off + slot_ns)"
    using assms b by (auto simp: int_simps)
  have "next_phase_with_period now off slot_ns = Some (if ?c + off > now then ?c + off else ?c + off + slot_ns)"
    using r assms period_pos
    by (simp add: next_phase_with_period_def num_nanoseconds_def timestamp_nanos_def i64_div_def
        trunc_div_nonneg i64_wrap_id Let_def)
  moreover have "(?c + off) mod slot_ns = off" "(?c + off + slot_ns) mod slot_ns = off"
    using assms by (simp_all)
  ultimately show ?thesis using b assms by auto
qed

lemma next_audio_start_spec:
  assumes "0 \<le> now" and "0 \<le> lead" and "now + lead + 2 * slot_ns \<le> I64_MAX"
  shows "\<exists>t. next_audio_start_with_period now lead slot_ns = Some t \<and> now + lead \<le> t \<and> now < t \<and>
             (t - PRE_ROLL_NS) mod slot_ns = 0"
proof -
  define sl where "sl = (if lead > PRE_ROLL_NS then lead - PRE_ROLL_NS else 0)"
  have sl: "0 \<le> sl" "now + sl + 2 * slot_ns \<le> I64_MAX" "lead \<le> sl + PRE_ROLL_NS"
    using assms by (auto simp: sl_def PRE_ROLL_NS_def)
  from next_slot_start_spec [OF assms(1) sl(1,2)]
  obtain s where s: "next_slot_start_with_period now sl slot_ns = Some s" "s mod slot_ns = 0" "now < s" "now + sl \<le> s"
    by auto
  have "next_audio_start_with_period now lead slot_ns = Some (s + PRE_ROLL_NS)"
    using s(1) by (simp add: next_audio_start_with_period_def Let_def sl_def)
  then show ?thesis using s sl(3) by (simp add: PRE_ROLL_NS_def)
qed

text \<open>A deadline the scheduler has just computed is inside the healthy band, and stays there while it
  is polled for up to one more period.\<close>

lemma healthy_deadline:
  assumes "0 \<le> now" and "now + 2 * slot_ns \<le> I64_MAX" and "now \<le> later" and "later \<le> now + slot_ns"
  shows "\<exists>t. next_slot_start_with_period now 0 slot_ns = Some t \<and> classify_deadline_jump later t slot_ns = None"
proof -
  obtain t where "next_slot_start_with_period now 0 slot_ns = Some t" "now < t" "t \<le> now + slot_ns"
    using next_slot_start_spec [of now 0] assms by auto
  then show ?thesis using assms period_pos by (intro exI [of _ t]) (simp add: classify_deadline_jump_def Let_def)
qed

lemma clock_set_back:
  assumes "0 \<le> now" and "now + 2 * slot_ns \<le> I64_MAX" and "later < now - slot_ns"
  shows "\<exists>t. next_slot_start_with_period now 0 slot_ns = Some t \<and>
             classify_deadline_jump later t slot_ns = Some (Backward (t - later))"
proof -
  obtain t where "next_slot_start_with_period now 0 slot_ns = Some t" "now < t" "t \<le> now + slot_ns"
    using next_slot_start_spec [of now 0] assms by auto
  then show ?thesis using assms period_pos by (intro exI [of _ t]) (simp add: classify_deadline_jump_def Let_def)
qed

end

interpretation ft8: slot_grid SLOT_NS
  by unfold_locales (simp add: SLOT_NS_def)

section \<open>The clock-step detector\<close>

fun observe_run :: "clock_step_detector \<Rightarrow> (int \<times> nat) list \<Rightarrow> (clock_step_detector \<times> int option list) option" where
  "observe_run d [] = Some (d, [])"
| "observe_run d ((wall, mt) # os) = do {
     (d, r) \<leftarrow> observe d wall mt;
     (d, rs) \<leftarrow> observe_run d os;
     Some (d, r # rs)
   }"

lemma observe_quiet:
  assumes "observe d wall mt = Some (d', None)" and "int mt \<le> DURATION_MAX"
  shows "\<bar>wall - last_wall d - int mt\<bar> < 250000000" and "last_wall d' = wall"
proof -
  have "\<bar>trunc_div (wall - last_wall d - int mt) 1000000\<bar> < 250" and w: "last_wall d' = wall"
    using assms by (auto simp: observe_def Let_def CLOCK_STEP_THRESHOLD_MS_def split: if_splits)
  then have "\<bar>wall - last_wall d - int mt\<bar> div 1000000 < 250"
    by (simp add: trunc_div_def abs_mult sgn_if split: if_splits)
  then show "\<bar>wall - last_wall d - int mt\<bar> < 250000000" by linarith
  show "last_wall d' = wall" by (rule w)
qed

lemma observe_run_quiet:
  "observe_run d os = Some (d', rs) \<Longrightarrow> list_all (\<lambda>(_, mt). int mt \<le> DURATION_MAX) os \<Longrightarrow>
   list_all (\<lambda>r. r = None) rs \<Longrightarrow> os \<noteq> [] \<Longrightarrow>
   \<bar>(last_wall d' - last_wall d) - int (sum_list (map snd os))\<bar> < 250000000 * int (length os)"
proof (induction os arbitrary: d rs)
  case (Cons ob os)
  obtain wall mt where ob: "ob = (wall, mt)" by fastforce
  from Cons.prems ob obtain d1 rs1 where
    step: "observe d wall mt = Some (d1, None)" and rest: "observe_run d1 os = Some (d', rs1)" and q: "list_all (\<lambda>r. r = None) rs1"
    by (auto split: bind_splits)
  have m: "int mt \<le> DURATION_MAX" using Cons.prems ob by simp
  note s = observe_quiet [OF step m]
  show ?case
  proof (cases os)
    case Nil
    then show ?thesis using s rest ob by simp
  next
    case (Cons o2 os2)
    then have "\<bar>(last_wall d' - last_wall d1) - int (sum_list (map snd os))\<bar> < 250000000 * int (length os)"
      using Cons.IH [OF rest _ q] Cons.prems by simp
    then show ?thesis using s ob by (simp add: algebra_simps)
  qed
qed simp

section \<open>Properties\<close>

text \<open>C23: the next-slot search returns, and returns the earliest slot boundary that lies strictly after
  \<open>now\<close> and leaves at least the requested lead, for every instant after the epoch whose look-ahead stays
  inside the \<open>i64\<close> range.\<close>

theorem next_slot_start_correct:
  assumes "0 \<le> now" and "0 \<le> lead" and "now + lead + 2 * SLOT_NS \<le> I64_MAX"
  shows "\<exists>t. next_slot_start now lead = Some t \<and> t mod SLOT_NS = 0 \<and> now < t \<and> now + lead \<le> t \<and>
             (\<forall>b. b mod SLOT_NS = 0 \<and> now < b \<and> now + lead \<le> b \<longrightarrow> t \<le> b)"
  using ft8.next_slot_start_spec [OF assms] ft8.next_slot_start_least [OF assms]
  unfolding next_slot_start_def by metis

theorem next_slot_start_correct_witness:
  "\<exists>t. next_slot_start 20000000000 11000000000 = Some t \<and> t mod SLOT_NS = 0 \<and> 20000000000 < t \<and>
       20000000000 + 11000000000 \<le> t \<and>
       (\<forall>b. b mod SLOT_NS = 0 \<and> 20000000000 < b \<and> 20000000000 + 11000000000 \<le> b \<longrightarrow> t \<le> b)"
  by (rule next_slot_start_correct [of 20000000000 11000000000]) (simp_all add: SLOT_NS_def I64_MAX_def)

text \<open>Asking for the next slot of a parity returns a slot boundary of that parity, strictly in the
  future and at most two slots away.\<close>

theorem next_slot_with_parity_correct:
  assumes "0 \<le> now" and "now + 3 * SLOT_NS \<le> I64_MAX"
  shows "\<exists>t. next_slot_with_parity now wanted = Some t \<and> t mod SLOT_NS = 0 \<and> now < t \<and>
             t \<le> now + 2 * SLOT_NS \<and> parity_of t = Some wanted"
  using ft8.next_slot_with_parity_spec [OF assms] by (simp add: next_slot_with_parity_def parity_of_def)

theorem next_slot_with_parity_correct_witness:
  "\<exists>t. next_slot_with_parity 15000000000 Odd = Some t \<and> t mod SLOT_NS = 0 \<and> 15000000000 < t \<and>
       t \<le> 15000000000 + 2 * SLOT_NS \<and> parity_of t = Some Odd"
  by (rule next_slot_with_parity_correct [of 15000000000]) (simp_all add: SLOT_NS_def I64_MAX_def)

text \<open>A phase deadline is the offset past a slot boundary, strictly in the future and at most one
  slot away.\<close>

theorem next_phase_correct:
  assumes "0 \<le> now" and "now + 2 * SLOT_NS \<le> I64_MAX" and "0 \<le> offset" and "offset < SLOT_NS"
  shows "\<exists>t. next_phase now offset = Some t \<and> t mod SLOT_NS = offset \<and> now < t \<and> t \<le> now + SLOT_NS"
proof -
  have "in_i64 offset" using assms by (simp add: int_simps SLOT_NS_def)
  then show ?thesis using ft8.next_phase_spec [OF assms] assms(3,4) by (simp add: next_phase_def num_nanoseconds_def)
qed

theorem next_phase_correct_witness:
  "\<exists>t. next_phase 29000000000 13000000000 = Some t \<and> t mod SLOT_NS = 13000000000 \<and>
       29000000000 < t \<and> t \<le> 29000000000 + SLOT_NS"
  by (rule next_phase_correct [of 29000000000 13000000000]) (simp_all add: SLOT_NS_def I64_MAX_def)

text \<open>A slot deadline just computed is never reported as a clock jump while it is polled for up to
  one more period, and setting the clock back by more than a period is always reported as a backward jump.\<close>

theorem deadline_jump_detection:
  assumes "0 \<le> now" and "now + 2 * SLOT_NS \<le> I64_MAX"
  shows "\<exists>t. next_slot_start now 0 = Some t \<and>
             (\<forall>later. now \<le> later \<and> later \<le> now + SLOT_NS \<longrightarrow> classify_deadline_jump later t SLOT_NS = None) \<and>
             (\<forall>later. later < now - SLOT_NS \<longrightarrow>
                classify_deadline_jump later t SLOT_NS = Some (Backward (t - later)))"
proof -
  obtain t where t: "next_slot_start now 0 = Some t"
    using ft8.healthy_deadline [OF assms, of now] by (auto simp: next_slot_start_def SLOT_NS_def)
  then have "classify_deadline_jump later t SLOT_NS = None" if "now \<le> later" "later \<le> now + SLOT_NS" for later
    using ft8.healthy_deadline [OF assms that] by (simp add: next_slot_start_def)
  moreover have "classify_deadline_jump later t SLOT_NS = Some (Backward (t - later))"
    if "later < now - SLOT_NS" for later
    using ft8.clock_set_back [OF assms that] t by (simp add: next_slot_start_def)
  ultimately show ?thesis using t by blast
qed

theorem deadline_jump_detection_witness:
  "\<exists>t. next_slot_start 7000000000 0 = Some t \<and>
       (\<forall>later. 7000000000 \<le> later \<and> later \<le> 7000000000 + SLOT_NS \<longrightarrow>
          classify_deadline_jump later t SLOT_NS = None) \<and>
       (\<forall>later. later < 7000000000 - SLOT_NS \<longrightarrow>
          classify_deadline_jump later t SLOT_NS = Some (Backward (t - later)))"
  by (rule deadline_jump_detection [of 7000000000]) (simp_all add: SLOT_NS_def I64_MAX_def)

text \<open>When the clock-step detector stays silent over a run of observations, the wall clock and the
  monotonic clock have diverged by less than the threshold per observation over the whole run.\<close>

theorem silent_detector_bounds_drift:
  assumes "observe_run (detector_new w0) os = Some (d, rs)" and "os \<noteq> []"
    and "list_all (\<lambda>(_, mt). int mt \<le> DURATION_MAX) os" and "list_all (\<lambda>r. r = None) rs"
  shows "\<bar>(last_wall d - w0) - int (sum_list (map snd os))\<bar> < CLOCK_STEP_THRESHOLD_MS * 1000000 * int (length os)"
  using observe_run_quiet [OF assms(1,3,4,2)] by (simp add: detector_new_def CLOCK_STEP_THRESHOLD_MS_def)

theorem silent_detector_bounds_drift_witness:
  "observe_run (detector_new 0) [(1000000000, 999000000), (2100000000, 1000000000)] =
     Some (\<lparr> last_wall = 2100000000 \<rparr>, [None, None]) \<and>
   \<bar>(2100000000 - 0) - int (sum_list [999000000, 1000000000])\<bar> < CLOCK_STEP_THRESHOLD_MS * 1000000 * 2"
proof -
  have r: "observe_run (detector_new 0) [(1000000000, 999000000), (2100000000, 1000000000)] =
     Some (\<lparr> last_wall = 2100000000 \<rparr>, [None, None])"
    by (simp add: observe_def detector_new_def DURATION_MAX_def I64_MAX_def trunc_div_def CLOCK_STEP_THRESHOLD_MS_def)
  with silent_detector_bounds_drift [OF r] show ?thesis
    by (simp add: DURATION_MAX_def I64_MAX_def)
qed

text \<open>The documentation of \<open>next_slot_start\<close> allows a zero lead to return \<open>now\<close> itself on a boundary; the
  code never does. Before the epoch the truncating division skips a boundary.\<close>

lemma next_slot_start_on_boundary: "next_slot_start SLOT_NS 0 = Some (2 * SLOT_NS)"
  by (simp add: next_slot_start_def next_slot_start_with_period_def timestamp_nanos_def num_nanoseconds_def
      i64_div_def SLOT_NS_def int_simps trunc_div_def i64_wrap_def advance_target.simps)

lemma next_slot_start_before_epoch: "next_slot_start (- 1) 0 = Some SLOT_NS"
  by (simp add: next_slot_start_def next_slot_start_with_period_def timestamp_nanos_def num_nanoseconds_def
      i64_div_def SLOT_NS_def int_simps trunc_div_def i64_wrap_def advance_target.simps)

end
