(* ===== verification/Symbols.thy ===== *)
theory Symbols
  imports Complex_Main Ldpc Crc14 Slot "HOL-Library.Monad_Syntax"
begin

text \<open>
  From a payload to channel symbols: \<open>payload_to_ldpc\<close>, \<open>generate_symbols\<close>, \<open>generate_symbols_protocol\<close>
  and \<open>payload_to_symbols(_protocol)\<close> of \<open>pancetta-ft8/src/encoder.rs\<close>, and the protocol parameters of
  \<open>pancetta-ft8/src/protocol.rs\<close> that shape a transmission (FT8 and FT4). A Rust panic (an index out of
  range) is \<open>None\<close>; the properties show that no input reaches it. The parameters that only feed the
  modulator (symbol period, tone spacing, pulse shape) are left out.
\<close>

section \<open>Protocol parameters\<close>

datatype protocol = Ft8 | Ft4

record protocol_params =
  pp_protocol :: protocol
  num_tones :: nat
  bits_per_symbol :: nat
  num_symbols :: nat
  costas_arrays :: "nat list list"
  costas_positions :: "nat list"
  costas_length :: nat
  data_symbol_ranges :: "(nat \<times> nat) list"
  num_data_symbols :: nat
  cycle_duration :: rat
  xor_sequence :: "u8 list option"

definition FT8_COSTAS :: "nat list" where
  "FT8_COSTAS = [3, 1, 4, 0, 6, 5, 2]"

definition FT8_COSTAS_ARRAYS :: "nat list list" where
  "FT8_COSTAS_ARRAYS = [FT8_COSTAS, FT8_COSTAS, FT8_COSTAS]"

definition FT8_COSTAS_POSITIONS :: "nat list" where
  "FT8_COSTAS_POSITIONS = [0, 36, 72]"

definition FT8_DATA_RANGES :: "(nat \<times> nat) list" where
  "FT8_DATA_RANGES = [(7, 36), (43, 72)]"

definition FT4_COSTAS_ARRAYS :: "nat list list" where
  "FT4_COSTAS_ARRAYS = [[0, 1, 3, 2], [1, 0, 2, 3], [2, 3, 1, 0], [3, 2, 0, 1]]"

definition FT4_COSTAS_POSITIONS :: "nat list" where
  "FT4_COSTAS_POSITIONS = [1, 34, 67, 100]"

definition FT4_DATA_RANGES :: "(nat \<times> nat) list" where
  "FT4_DATA_RANGES = [(5, 34), (38, 67), (71, 100)]"

definition FT4_XOR_SEQUENCE :: "u8 list" where
  "FT4_XOR_SEQUENCE = [0x4A, 0x5E, 0x89, 0xB4, 0xB0, 0x8A, 0x79, 0x55, 0xBE, 0x28]"

definition ft8_params :: protocol_params where
  "ft8_params =
     \<lparr> pp_protocol = Ft8, num_tones = 8, bits_per_symbol = 3, num_symbols = 79,
       costas_arrays = FT8_COSTAS_ARRAYS, costas_positions = FT8_COSTAS_POSITIONS, costas_length = 7,
       data_symbol_ranges = FT8_DATA_RANGES, num_data_symbols = 58, cycle_duration = 15, xor_sequence = None \<rparr>"

definition ft4_params :: protocol_params where
  "ft4_params =
     \<lparr> pp_protocol = Ft4, num_tones = 4, bits_per_symbol = 2, num_symbols = 105,
       costas_arrays = FT4_COSTAS_ARRAYS, costas_positions = FT4_COSTAS_POSITIONS, costas_length = 4,
       data_symbol_ranges = FT4_DATA_RANGES, num_data_symbols = 87, cycle_duration = 15 / 2,
       xor_sequence = Some FT4_XOR_SEQUENCE \<rparr>"

fun from_protocol :: "protocol \<Rightarrow> protocol_params" where
  "from_protocol Ft8 = ft8_params"
| "from_protocol Ft4 = ft4_params"

definition slot_ns :: "protocol_params \<Rightarrow> int" where
  "slot_ns p = \<lfloor>cycle_duration p * 1000000000\<rfloor>"

definition is_sync_symbol :: "protocol_params \<Rightarrow> nat \<Rightarrow> bool" where
  "is_sync_symbol p idx \<longleftrightarrow> list_ex (\<lambda>pos. pos \<le> idx \<and> idx < pos + costas_length p) (costas_positions p)"

text \<open>The loop over \<open>costas_positions.iter().enumerate()\<close>; the outer \<open>None\<close> is an index panic.\<close>

fun costas_search :: "protocol_params \<Rightarrow> nat \<Rightarrow> nat \<Rightarrow> nat list \<Rightarrow> nat option option" where
  "costas_search p idx grp [] = Some None"
| "costas_search p idx grp (pos # ps) =
     (if pos \<le> idx \<and> idx < pos + costas_length p
      then do { arr \<leftarrow> index_checked (costas_arrays p) grp;
                v \<leftarrow> index_checked arr (idx - pos);
                Some (Some v) }
      else costas_search p idx (Suc grp) ps)"

definition costas_value :: "protocol_params \<Rightarrow> nat \<Rightarrow> nat option option" where
  "costas_value p idx = costas_search p idx 0 (costas_positions p)"

definition is_data_symbol :: "protocol_params \<Rightarrow> nat \<Rightarrow> bool" where
  "is_data_symbol p idx \<longleftrightarrow> list_ex (\<lambda>(a, b). a \<le> idx \<and> idx < b) (data_symbol_ranges p)"

definition data_symbol_indices :: "protocol_params \<Rightarrow> nat list" where
  "data_symbol_indices p = concat (map (\<lambda>(a, b). [a..<b]) (data_symbol_ranges p))"

section \<open>Payload to codeword\<close>

definition payload_to_ldpc :: "u8 list \<Rightarrow> bool list ft8_result" where
  "payload_to_ldpc payload =
     (let payload_bitvec = unpack_msb PAYLOAD_BITS payload;
          crc = calculate_crc14 payload_bitvec;
          message_bits = payload_bitvec @ word_to_bits CRC_BITS crc
      in ldpc_encode message_bits)"

section \<open>Codeword to symbols\<close>

definition NUM_SYMBOLS :: nat where
  "NUM_SYMBOLS = 79"

definition COSTAS_ARRAY :: "nat list" where
  "COSTAS_ARRAY = [3, 1, 4, 0, 6, 5, 2]"

definition read_bits3 :: "bool list \<Rightarrow> nat \<Rightarrow> nat option" where
  "read_bits3 cw bit_idx = do {
     b0 \<leftarrow> index_checked cw bit_idx;
     b1 \<leftarrow> index_checked cw (bit_idx + 1);
     b2 \<leftarrow> index_checked cw (bit_idx + 2);
     Some ((if b0 then 4 else 0) + (if b1 then 2 else 0) + (if b2 then 1 else 0)) }"

definition read_bits2 :: "bool list \<Rightarrow> nat \<Rightarrow> nat option" where
  "read_bits2 cw bit_idx = do {
     b0 \<leftarrow> index_checked cw bit_idx;
     b1 \<leftarrow> index_checked cw (bit_idx + 1);
     Some ((if b0 then 2 else 0) + (if b1 then 1 else 0)) }"

text \<open>The loop of \<open>generate_symbols\<close> from tone \<open>i_tone\<close> on; the state is \<open>bit_idx\<close>, the result the symbols.\<close>

fun ft8_tones :: "bool list \<Rightarrow> nat list \<Rightarrow> nat \<Rightarrow> nat list option" where
  "ft8_tones cw [] bit_idx = Some []"
| "ft8_tones cw (i_tone # ts) bit_idx =
     (if i_tone < 7 then do { s \<leftarrow> index_checked COSTAS_ARRAY i_tone; ss \<leftarrow> ft8_tones cw ts bit_idx; Some (s # ss) }
      else if 36 \<le> i_tone \<and> i_tone < 43
        then do { s \<leftarrow> index_checked COSTAS_ARRAY (i_tone - 36); ss \<leftarrow> ft8_tones cw ts bit_idx; Some (s # ss) }
      else if 72 \<le> i_tone
        then do { s \<leftarrow> index_checked COSTAS_ARRAY (i_tone - 72); ss \<leftarrow> ft8_tones cw ts bit_idx; Some (s # ss) }
      else do { bits3 \<leftarrow> read_bits3 cw bit_idx;
                s \<leftarrow> binary_to_gray bits3;
                ss \<leftarrow> ft8_tones cw ts (bit_idx + 3);
                Some (s # ss) })"

definition generate_symbols :: "bool list \<Rightarrow> nat list ft8_result option" where
  "generate_symbols cw =
     (if length cw \<noteq> 174
      then Some (Inl (MessageDecodingError (''Invalid LDPC codeword length: '' @ nat_to_dec (length cw))))
      else map_option Inr (ft8_tones cw [0..<NUM_SYMBOLS] 0))"

text \<open>The loop of \<open>generate_symbols_protocol\<close>.\<close>

fun protocol_tones :: "protocol_params \<Rightarrow> bool list \<Rightarrow> nat list \<Rightarrow> nat \<Rightarrow> nat list ft8_result option" where
  "protocol_tones p cw [] bit_idx = Some (Inr [])"
| "protocol_tones p cw (i # is) bit_idx = do {
     cv \<leftarrow> costas_value p i;
     case cv of
       Some c \<Rightarrow> do { r \<leftarrow> protocol_tones p cw is bit_idx; Some (map_sum id ((#) c) r) }
     | None \<Rightarrow>
         if is_data_symbol p i then
           (if bits_per_symbol p = 3 then
              do { bits3 \<leftarrow> read_bits3 cw bit_idx; s \<leftarrow> binary_to_gray bits3;
                   r \<leftarrow> protocol_tones p cw is (bit_idx + 3); Some (map_sum id ((#) s) r) }
            else if bits_per_symbol p = 2 then
              do { bits2 \<leftarrow> read_bits2 cw bit_idx; s \<leftarrow> binary_to_gray_4fsk bits2;
                   r \<leftarrow> protocol_tones p cw is (bit_idx + 2); Some (map_sum id ((#) s) r) }
            else Some (Inl (ConfigError (''Unsupported bits_per_symbol: '' @ nat_to_dec (bits_per_symbol p)))))
         else do { r \<leftarrow> protocol_tones p cw is bit_idx; Some (map_sum id ((#) 0) r) } }"

definition generate_symbols_protocol :: "protocol_params \<Rightarrow> bool list \<Rightarrow> nat list ft8_result option" where
  "generate_symbols_protocol p cw =
     (if length cw \<noteq> 174
      then Some (Inl (MessageDecodingError (''Invalid LDPC codeword length: '' @ nat_to_dec (length cw))))
      else protocol_tones p cw [0..<num_symbols p] 0)"

definition payload_to_symbols :: "u8 list \<Rightarrow> nat list ft8_result option" where
  "payload_to_symbols payload =
     (case payload_to_ldpc payload of Inl e \<Rightarrow> Some (Inl e) | Inr cw \<Rightarrow> generate_symbols cw)"

text \<open>The FT4 scrambling of the payload bytes.\<close>

definition scramble :: "u8 list \<Rightarrow> u8 list \<Rightarrow> u8 list" where
  "scramble xor_seq payload = map (\<lambda>i. payload ! i XOR xor_seq ! i) [0..<10]"

definition payload_to_symbols_protocol :: "protocol_params \<Rightarrow> u8 list \<Rightarrow> nat list ft8_result option" where
  "payload_to_symbols_protocol p payload =
     (let effective_payload = (case xor_sequence p of Some xor_seq \<Rightarrow> scramble xor_seq payload | None \<Rightarrow> payload)
      in case payload_to_ldpc effective_payload of
           Inl e \<Rightarrow> Some (Inl e)
         | Inr cw \<Rightarrow> generate_symbols_protocol p cw)"

section \<open>The two generators agree\<close>

lemma costas_ft8:
  "i < 79 \<Longrightarrow> costas_value ft8_params i =
     (if i < 7 then Some (Some (COSTAS_ARRAY ! i))
      else if 36 \<le> i \<and> i < 43 then Some (Some (COSTAS_ARRAY ! (i - 36)))
      else if 72 \<le> i then Some (Some (COSTAS_ARRAY ! (i - 72))) else Some None)"
  by (auto simp: costas_value_def ft8_params_def FT8_COSTAS_POSITIONS_def FT8_COSTAS_ARRAYS_def FT8_COSTAS_def
      COSTAS_ARRAY_def index_checked_def)

lemma data_ft8: "is_data_symbol ft8_params i \<longleftrightarrow> 7 \<le> i \<and> i < 36 \<or> 43 \<le> i \<and> i < 72"
  by (auto simp: is_data_symbol_def ft8_params_def FT8_DATA_RANGES_def)

lemma generators_agree_on:
  "\<forall>i\<in>set is. i < 79 \<Longrightarrow> protocol_tones ft8_params cw is k = map_option Inr (ft8_tones cw is k)"
proof (induction "is" arbitrary: k)
  case (Cons i "is")
  then have i: "i < 79" and IH: "\<And>k. protocol_tones ft8_params cw is k = map_option Inr (ft8_tones cw is k)" by auto
  have [simp]: "bits_per_symbol ft8_params = 3" "length COSTAS_ARRAY = 7" by (simp_all add: ft8_params_def COSTAS_ARRAY_def)
  have "map_sum id ((#) c) (Inr xs) = Inr (c # xs)" for c xs by simp
  show ?case
    using i unfolding protocol_tones.simps ft8_tones.simps costas_ft8 [OF i] data_ft8 IH
    by (auto simp: index_checked_def split: Option.bind_splits)
qed simp

section \<open>The layout of a transmission\<close>

text \<open>The symbols of the positions \<open>is\<close> when \<open>t k\<close> is the tone of data symbol \<open>k\<close>, counted from \<open>k\<close>.\<close>

fun layout :: "protocol_params \<Rightarrow> (nat \<Rightarrow> nat) \<Rightarrow> nat list \<Rightarrow> nat \<Rightarrow> nat list" where
  "layout p t [] k = []"
| "layout p t (i # is) k =
     (case costas_value p i of
        Some (Some c) \<Rightarrow> c # layout p t is k
      | _ \<Rightarrow> if is_data_symbol p i then t k # layout p t is (Suc k) else 0 # layout p t is k)"

definition data_count :: "protocol_params \<Rightarrow> nat list \<Rightarrow> nat" where
  "data_count p is = length (filter (\<lambda>i. costas_value p i = Some None \<and> is_data_symbol p i) is)"

definition data_value :: "nat \<Rightarrow> bool list \<Rightarrow> nat \<Rightarrow> nat" where
  "data_value w cw k =
     (if w = 3 then (if cw ! (3 * k) then 4 else 0) + (if cw ! (3 * k + 1) then 2 else 0) + (if cw ! (3 * k + 2) then 1 else 0)
      else (if cw ! (2 * k) then 2 else 0) + (if cw ! (2 * k + 1) then 1 else 0))"

definition data_tone :: "nat \<Rightarrow> bool list \<Rightarrow> nat \<Rightarrow> nat" where
  "data_tone w cw k = (if w = 3 then FT8_GRAY_MAP else FT4_GRAY_MAP) ! data_value w cw k"

lemma gray_lengths [simp]:
  "length FT8_GRAY_MAP = 8" "length FT4_GRAY_MAP = 4" "length FT8_GRAY_UNMAP = 8" "length FT4_GRAY_UNMAP = 4"
  by (simp_all add: FT8_GRAY_MAP_def FT4_GRAY_MAP_def FT8_GRAY_UNMAP_def FT4_GRAY_UNMAP_def)

lemma read_tone3:
  "3 * k + 2 < length cw \<Longrightarrow>
     read_bits3 cw (3 * k) = Some (data_value 3 cw k) \<and> binary_to_gray (data_value 3 cw k) = Some (data_tone 3 cw k)"
  by (auto simp: read_bits3_def index_checked_def data_value_def data_tone_def binary_to_gray_def)

lemma read_tone2:
  "2 * k + 1 < length cw \<Longrightarrow>
     read_bits2 cw (2 * k) = Some (data_value 2 cw k) \<and> binary_to_gray_4fsk (data_value 2 cw k) = Some (data_tone 2 cw k)"
  by (auto simp: read_bits2_def index_checked_def data_value_def data_tone_def binary_to_gray_4fsk_def)

lemma protocol_tones_layout:
  assumes w: "bits_per_symbol p = w" "w = 3 \<or> w = 2"
    and "\<forall>i\<in>set is. costas_value p i \<noteq> None" and "w * (k + data_count p is) \<le> length cw"
  shows "protocol_tones p cw is (w * k) = Some (Inr (layout p (data_tone w cw) is k))"
  using assms(3,4)
proof (induction "is" arbitrary: k)
  case (Cons i "is")
  show ?case
  proof (cases "costas_value p i = Some None \<and> is_data_symbol p i")
    case True
    then have "w * (Suc k + data_count p is) \<le> length cw" using Cons.prems by (simp add: data_count_def)
    then have IH: "protocol_tones p cw is (w * Suc k) = Some (Inr (layout p (data_tone w cw) is (Suc k)))"
      using Cons.prems(1) by (intro Cons.IH) simp_all
    have bound: "w * k + (w - 1) < length cw"
      using \<open>w * (Suc k + data_count p is) \<le> length cw\<close> w(2) by auto
    show ?thesis
      using w(2)
    proof
      assume "w = 3"
      with True IH w(1) bound read_tone3 [of k cw] show ?thesis by (simp add: add.commute [of 3])
    next
      assume "w = 2"
      with True IH w(1) bound read_tone2 [of k cw] show ?thesis by (simp add: add.commute [of 2])
    qed
  next
    case False
    then have "w * (k + data_count p is) \<le> length cw" using Cons.prems by (auto simp: data_count_def split: if_splits)
    then have "protocol_tones p cw is (w * k) = Some (Inr (layout p (data_tone w cw) is k))" using Cons by simp
    with False Cons.prems(1) show ?thesis by (auto split: option.splits)
  qed
qed simp

lemma layout_append: "\<forall>i\<in>set xs. costas_value p i \<noteq> None \<Longrightarrow>
  layout p t (xs @ ys) k = layout p t xs k @ layout p t ys (k + data_count p xs)"
  by (induction xs arbitrary: k) (auto simp: data_count_def split: option.splits)

lemma layout_data:
  "\<forall>i\<in>set is. costas_value p i = Some None \<and> is_data_symbol p i \<Longrightarrow>
     layout p t is k = map t [k..<k + length is] \<and> data_count p is = length is"
proof (induction "is" arbitrary: k)
  case (Cons i "is")
  have "[k..<k + length (i # is)] = k # [Suc k..<Suc k + length is]" by (subst upt_conv_Cons) simp_all
  with Cons show ?case by (simp add: data_count_def del: upt_Suc)
qed (simp add: data_count_def)

lemma layout_sync:
  "\<forall>i\<in>set is. costas_value p i = Some (Some (c i)) \<Longrightarrow> layout p t is k = map c is \<and> data_count p is = 0"
  by (induction "is") (auto simp: data_count_def)

lemma layout_idle:
  "\<forall>i\<in>set is. costas_value p i = Some None \<and> \<not> is_data_symbol p i \<Longrightarrow>
     layout p t is k = replicate (length is) 0 \<and> data_count p is = 0"
  by (induction "is") (auto simp: data_count_def)

lemma costas_ft4:
  "i < 105 \<Longrightarrow> costas_value ft4_params i =
     (if 1 \<le> i \<and> i < 5 then Some (Some ([0, 1, 3, 2] ! (i - 1)))
      else if 34 \<le> i \<and> i < 38 then Some (Some ([1, 0, 2, 3] ! (i - 34)))
      else if 67 \<le> i \<and> i < 71 then Some (Some ([2, 3, 1, 0] ! (i - 67)))
      else if 100 \<le> i \<and> i < 104 then Some (Some ([3, 2, 0, 1] ! (i - 100))) else Some None)"
  by (simp add: costas_value_def ft4_params_def FT4_COSTAS_POSITIONS_def FT4_COSTAS_ARRAYS_def index_checked_def)
    (auto simp: numeral_eq_Suc)

lemma data_ft4: "is_data_symbol ft4_params i \<longleftrightarrow> 5 \<le> i \<and> i < 34 \<or> 38 \<le> i \<and> i < 67 \<or> 71 \<le> i \<and> i < 100"
  by (auto simp: is_data_symbol_def ft4_params_def FT4_DATA_RANGES_def)

lemma map_nth_shift: "a + length xs = b \<Longrightarrow> map (\<lambda>i. xs ! (i - a)) [a..<b] = xs"
  by (rule nth_equalityI) auto

definition covered :: "protocol_params \<Rightarrow> nat \<Rightarrow> bool" where
  "covered p n \<longleftrightarrow> (\<forall>i<n. costas_value p i \<noteq> None)"

lemma layout_split:
  assumes "a \<le> b" and "b \<le> c" and "covered p c"
  shows "layout p t [a..<c] k = layout p t [a..<b] k @ layout p t [b..<c] (k + data_count p [a..<b]) \<and>
         data_count p [a..<c] = data_count p [a..<b] + data_count p [b..<c]"
proof -
  have "[a..<c] = [a..<b] @ [b..<c]" using assms by (metis le_add_diff_inverse upt_add_eq_append)
  moreover have "\<forall>i\<in>set [a..<b]. costas_value p i \<noteq> None" using assms by (simp add: covered_def)
  ultimately show ?thesis by (simp add: layout_append) (simp add: data_count_def)
qed

lemma sync_block:
  assumes "\<And>i. a \<le> i \<Longrightarrow> i < b \<Longrightarrow> costas_value p i = Some (Some (xs ! (i - a)))"
    and "a + length xs = b" and "b \<le> c" and "covered p c"
  shows "layout p t [a..<c] k = xs @ layout p t [b..<c] k" and "data_count p [a..<c] = data_count p [b..<c]"
proof -
  have "layout p t [a..<b] k = map (\<lambda>i. xs ! (i - a)) [a..<b] \<and> data_count p [a..<b] = 0"
    using assms(1) by (intro layout_sync) simp
  then show "layout p t [a..<c] k = xs @ layout p t [b..<c] k" "data_count p [a..<c] = data_count p [b..<c]"
    using layout_split [of a b c p t k] assms by (simp_all add: map_nth_shift)
qed

lemma data_block:
  assumes "\<And>i. a \<le> i \<Longrightarrow> i < b \<Longrightarrow> costas_value p i = Some None \<and> is_data_symbol p i"
    and "b = a + n" and "b \<le> c" and "covered p c" and "k' = k + n"
  shows "layout p t [a..<c] k = map t [k..<k'] @ layout p t [b..<c] k'"
    and "data_count p [a..<c] = n + data_count p [b..<c]"
proof -
  have "layout p t [a..<b] k = map t [k..<k + length [a..<b]] \<and> data_count p [a..<b] = length [a..<b]"
    using assms(1) by (intro layout_data) simp
  then show "layout p t [a..<c] k = map t [k..<k'] @ layout p t [b..<c] k'"
    "data_count p [a..<c] = n + data_count p [b..<c]"
    using layout_split [of a b c p t k] assms by simp_all
qed

lemma idle_block:
  assumes "costas_value p a = Some None" and "\<not> is_data_symbol p a" and "a < c" and "covered p c"
  shows "layout p t [a..<c] k = 0 # layout p t [Suc a..<c] k" and "data_count p [a..<c] = data_count p [Suc a..<c]"
  using assms by (simp_all add: upt_conv_Cons data_count_def)

lemma layout_end: "layout p t [c..<c] k = []" "data_count p [c..<c] = 0"
  by (simp_all add: data_count_def)

lemma covered_ft8: "covered ft8_params 79"
  by (simp add: covered_def costas_ft8)

lemma covered_ft4: "covered ft4_params 105"
  by (simp add: covered_def costas_ft4)

lemma costas_len: "length FT8_COSTAS = 7" "COSTAS_ARRAY = FT8_COSTAS"
  by (simp_all add: COSTAS_ARRAY_def FT8_COSTAS_def)

lemma layout_ft8:
  "layout ft8_params t [0..<79] 0 =
     FT8_COSTAS @ map t [0..<29] @ FT8_COSTAS @ map t [29..<58] @ FT8_COSTAS"
  "data_count ft8_params [0..<79] = 58"
proof -
  note c = costas_ft8 data_ft8 costas_len covered_ft8
  have 1: "layout ft8_params t [0..<79] k = FT8_COSTAS @ layout ft8_params t [7..<79] k"
    "data_count ft8_params [0..<79] = data_count ft8_params [7..<79]" for k
    by (rule sync_block [where xs = FT8_COSTAS]; simp add: c)+
  have 2: "layout ft8_params t [7..<79] 0 = map t [0..<29] @ layout ft8_params t [36..<79] 29"
    "data_count ft8_params [7..<79] = 29 + data_count ft8_params [36..<79]"
    by (rule data_block [where k = 0 and k' = 29 and n = 29]; simp add: c)+
  have 3: "layout ft8_params t [36..<79] k = FT8_COSTAS @ layout ft8_params t [43..<79] k"
    "data_count ft8_params [36..<79] = data_count ft8_params [43..<79]" for k
    by (rule sync_block [where xs = FT8_COSTAS]; simp add: c)+
  have 4: "layout ft8_params t [43..<79] 29 = map t [29..<58] @ layout ft8_params t [72..<79] 58"
    "data_count ft8_params [43..<79] = 29 + data_count ft8_params [72..<79]"
    by (rule data_block [where k = 29 and k' = 58 and n = 29]; simp add: c)+
  have 5: "layout ft8_params t [72..<79] k = FT8_COSTAS @ layout ft8_params t [79..<79] k"
    "data_count ft8_params [72..<79] = data_count ft8_params [79..<79]" for k
    by (rule sync_block [where xs = FT8_COSTAS]; simp add: c)+
  show "layout ft8_params t [0..<79] 0 =
     FT8_COSTAS @ map t [0..<29] @ FT8_COSTAS @ map t [29..<58] @ FT8_COSTAS"
    by (simp only: 1 2 3 4 5 layout_end append_Nil2)
  show "data_count ft8_params [0..<79] = 58" by (simp only: 1 2 3 4 5 layout_end)
qed

lemma layout_ft4:
  "layout ft4_params t [0..<105] 0 =
     [0] @ [0, 1, 3, 2] @ map t [0..<29] @ [1, 0, 2, 3] @ map t [29..<58] @ [2, 3, 1, 0] @ map t [58..<87] @ [3, 2, 0, 1] @ [0]"
  "data_count ft4_params [0..<105] = 87"
proof -
  note c = costas_ft4 data_ft4 covered_ft4
  have 0: "layout ft4_params t [0..<105] k = 0 # layout ft4_params t [1..<105] k"
    "data_count ft4_params [0..<105] = data_count ft4_params [1..<105]" for k
    using idle_block(1) [of ft4_params 0 105 t k] idle_block(2) [of ft4_params 0 105] by (simp_all add: c)
  have 1: "layout ft4_params t [1..<105] k = [0, 1, 3, 2] @ layout ft4_params t [5..<105] k"
    "data_count ft4_params [1..<105] = data_count ft4_params [5..<105]" for k
    by (rule sync_block [where xs = "[0, 1, 3, 2]"]; simp add: c)+
  have 2: "layout ft4_params t [5..<105] 0 = map t [0..<29] @ layout ft4_params t [34..<105] 29"
    "data_count ft4_params [5..<105] = 29 + data_count ft4_params [34..<105]"
    by (rule data_block [where k = 0 and k' = 29 and n = 29]; simp add: c)+
  have 3: "layout ft4_params t [34..<105] k = [1, 0, 2, 3] @ layout ft4_params t [38..<105] k"
    "data_count ft4_params [34..<105] = data_count ft4_params [38..<105]" for k
    by (rule sync_block [where xs = "[1, 0, 2, 3]"]; simp add: c)+
  have 4: "layout ft4_params t [38..<105] 29 = map t [29..<58] @ layout ft4_params t [67..<105] 58"
    "data_count ft4_params [38..<105] = 29 + data_count ft4_params [67..<105]"
    by (rule data_block [where k = 29 and k' = 58 and n = 29]; simp add: c)+
  have 5: "layout ft4_params t [67..<105] k = [2, 3, 1, 0] @ layout ft4_params t [71..<105] k"
    "data_count ft4_params [67..<105] = data_count ft4_params [71..<105]" for k
    by (rule sync_block [where xs = "[2, 3, 1, 0]"]; simp add: c)+
  have 6: "layout ft4_params t [71..<105] 58 = map t [58..<87] @ layout ft4_params t [100..<105] 87"
    "data_count ft4_params [71..<105] = 29 + data_count ft4_params [100..<105]"
    by (rule data_block [where k = 58 and k' = 87 and n = 29]; simp add: c)+
  have 7: "layout ft4_params t [100..<105] k = [3, 2, 0, 1] @ layout ft4_params t [104..<105] k"
    "data_count ft4_params [100..<105] = data_count ft4_params [104..<105]" for k
    by (rule sync_block [where xs = "[3, 2, 0, 1]"]; simp add: c)+
  have 8: "layout ft4_params t [104..<105] k = [0]" "data_count ft4_params [104..<105] = 0" for k
    using idle_block(1) [of ft4_params 104 105 t k] idle_block(2) [of ft4_params 104 105] by (simp_all add: c layout_end data_count_def)
  show "layout ft4_params t [0..<105] 0 =
     [0] @ [0, 1, 3, 2] @ map t [0..<29] @ [1, 0, 2, 3] @ map t [29..<58] @ [2, 3, 1, 0] @ map t [58..<87] @ [3, 2, 0, 1] @ [0]"
    by (simp only: 0 1 2 3 4 5 6 7 8 append.simps)
  show "data_count ft4_params [0..<105] = 87" by (simp only: 0 1 2 3 4 5 6 7 8)
qed

section \<open>The receiver's view\<close>

text \<open>The bits of the data tones of a received transmission, read with the inverse Gray maps of the decoder.\<close>

definition tone_bits :: "nat \<Rightarrow> nat \<Rightarrow> bool list" where
  "tone_bits w s =
     (if w = 3 then case gray_to_binary s of Some b \<Rightarrow> [odd (b div 4), odd (b div 2), odd b] | None \<Rightarrow> []
      else case gray_to_binary_4fsk s of Some b \<Rightarrow> [odd (b div 2), odd b] | None \<Rightarrow> [])"

definition hard_decision :: "protocol_params \<Rightarrow> nat list \<Rightarrow> bool list" where
  "hard_decision p symbols = concat (map (\<lambda>i. tone_bits (bits_per_symbol p) (symbols ! i)) (data_symbol_indices p))"

lemma gray_tables_inverse:
  "list_all (\<lambda>v. tone_bits 3 (FT8_GRAY_MAP ! v) = [odd (v div 4), odd (v div 2), odd v]) [0, 1, 2, 3, 4, 5, 6, 7]"
  "list_all (\<lambda>v. tone_bits 2 (FT4_GRAY_MAP ! v) = [odd (v div 2), odd v]) [0, 1, 2, 3]"
  by code_simp+

lemma tone_bits_data3: "tone_bits 3 (data_tone 3 cw k) = map (\<lambda>j. cw ! (3 * k + j)) [0..<3]"
proof -
  have u: "[0..<3] = [0, 1, 2::nat]" by (simp add: upt_rec)
  have "tone_bits 3 (FT8_GRAY_MAP ! ((if a then 4 else 0) + (if b then 2 else 0) + (if c then 1 else 0))) = [a, b, c]" for a b c
    using gray_tables_inverse(1) 
    by (cases a; cases b; cases c) (simp_all add: numeral_2_eq_2 [symmetric] numeral_3_eq_3 [symmetric])
  then show ?thesis unfolding u data_tone_def data_value_def by simp
qed

lemma tone_bits_data2: "tone_bits 2 (data_tone 2 cw k) = map (\<lambda>j. cw ! (2 * k + j)) [0..<2]"
proof -
  have u: "[0..<2] = [0, 1::nat]" by (simp add: upt_rec)
  have "tone_bits 2 (FT4_GRAY_MAP ! ((if a then 2 else 0) + (if b then 1 else 0))) = [a, b]" for a b
    using gray_tables_inverse(2) by (cases a; cases b) simp_all
  then show ?thesis unfolding u data_tone_def data_value_def by simp
qed

lemma concat_chunks:
  "w * n \<le> length xs \<Longrightarrow> concat (map (\<lambda>k. map (\<lambda>j. xs ! (w * k + j)) [0..<w]) [0..<n]) = take (w * n) xs"
proof (induction n)
  case (Suc n)
  have "take (w * Suc n) xs = take (w * n) xs @ take w (drop (w * n) xs)"
    by (metis add.commute mult_Suc_right take_add)
  moreover have "take w (drop (w * n) xs) = map (\<lambda>j. xs ! (w * n + j)) [0..<w]"
    using Suc.prems by (intro nth_equalityI) auto
  ultimately show ?case using Suc by simp
qed simp

lemma data_tone_less: "data_tone 3 cw k < 8" "data_tone 2 cw k < 4"
  by (auto simp: data_tone_def data_value_def FT8_GRAY_MAP_def FT4_GRAY_MAP_def)

lemma data_indices:
  "data_symbol_indices ft8_params = [7..<36] @ [43..<72]"
  "data_symbol_indices ft4_params = [5..<34] @ [38..<67] @ [71..<100]"
  by (simp_all add: data_symbol_indices_def ft8_params_def ft4_params_def FT8_DATA_RANGES_def FT4_DATA_RANGES_def)

lemma map_nth_middle:
  "length xs = a \<Longrightarrow> a + length ys = b \<Longrightarrow> map (\<lambda>i. f ((xs @ ys @ zs) ! i)) [a..<b] = map f ys"
  by (rule nth_equalityI) (auto simp: nth_append)

lemma data_symbols_ft8:
  assumes "ss = layout ft8_params t [0..<79] 0"
  shows "map (\<lambda>i. f (ss ! i)) (data_symbol_indices ft8_params) = map (\<lambda>k. f (t k)) [0..<58]"
proof -
  have "map (\<lambda>i. f (ss ! i)) [7..<36] = map f (map t [0..<29])"
    unfolding assms layout_ft8 by (rule map_nth_middle) (simp_all add: costas_len)
  moreover have "map (\<lambda>i. f (ss ! i)) [43..<72] = map f (map t [29..<58])"
  proof -
    have "ss = (FT8_COSTAS @ map t [0..<29] @ FT8_COSTAS) @ map t [29..<58] @ FT8_COSTAS"
      unfolding assms layout_ft8 by (simp only: append.assoc)
    then show ?thesis by (simp only:) (rule map_nth_middle, simp_all add: costas_len)
  qed
  moreover have "[0..<58::nat] = [0..<29] @ [29..<58]" using upt_add_eq_append [of 0 29 29] by simp
  ultimately show ?thesis by (simp only: data_indices map_append map_map comp_def)
qed

lemma data_symbols_ft4:
  assumes "ss = layout ft4_params t [0..<105] 0"
  shows "map (\<lambda>i. f (ss ! i)) (data_symbol_indices ft4_params) = map (\<lambda>k. f (t k)) [0..<87]"
proof -
  have 1: "ss = ([0] @ [0, 1, 3, 2]) @ map t [0..<29] @ ([1, 0, 2, 3] @ map t [29..<58] @ [2, 3, 1, 0] @ map t [58..<87] @ [3, 2, 0, 1] @ [0])"
    and 2: "ss = ([0] @ [0, 1, 3, 2] @ map t [0..<29] @ [1, 0, 2, 3]) @ map t [29..<58] @ ([2, 3, 1, 0] @ map t [58..<87] @ [3, 2, 0, 1] @ [0])"
    and 3: "ss = ([0] @ [0, 1, 3, 2] @ map t [0..<29] @ [1, 0, 2, 3] @ map t [29..<58] @ [2, 3, 1, 0]) @ map t [58..<87] @ ([3, 2, 0, 1] @ [0])"
    unfolding assms layout_ft4 by (simp_all only: append.assoc)
  have "map (\<lambda>i. f (ss ! i)) [5..<34] = map f (map t [0..<29])"
    unfolding 1 by (rule map_nth_middle) simp_all
  moreover have "map (\<lambda>i. f (ss ! i)) [38..<67] = map f (map t [29..<58])"
    unfolding 2 by (rule map_nth_middle) simp_all
  moreover have "map (\<lambda>i. f (ss ! i)) [71..<100] = map f (map t [58..<87])"
    unfolding 3 by (rule map_nth_middle) simp_all
  moreover have "[0..<87::nat] = [0..<29] @ [29..<58] @ [58..<87]"
    using upt_add_eq_append [of 0 29 58] upt_add_eq_append [of 29 58 29] by simp
  ultimately show ?thesis by (simp only: data_indices map_append map_map comp_def)
qed

lemma protocol_fields:
  "bits_per_symbol ft8_params = 3" "num_symbols ft8_params = 79" "num_tones ft8_params = 8"
  "bits_per_symbol ft4_params = 2" "num_symbols ft4_params = 105" "num_tones ft4_params = 4"
  by (simp_all add: ft8_params_def ft4_params_def)

lemma generate_layout:
  assumes "bits_per_symbol p = w" and "w = 3 \<or> w = 2" and "covered p (num_symbols p)"
    and "w * data_count p [0..<num_symbols p] = length cw" and "length cw = 174"
  shows "generate_symbols_protocol p cw = Some (Inr (layout p (data_tone w cw) [0..<num_symbols p] 0))"
proof -
  have "protocol_tones p cw [0..<num_symbols p] (w * 0) = Some (Inr (layout p (data_tone w cw) [0..<num_symbols p] 0))"
    using assms by (intro protocol_tones_layout) (simp_all add: covered_def)
  then show ?thesis using assms(5) by (simp add: generate_symbols_protocol_def)
qed

definition ft8_frame :: "bool list \<Rightarrow> nat list" where
  "ft8_frame cw = FT8_COSTAS @ map (data_tone 3 cw) [0..<29] @ FT8_COSTAS @ map (data_tone 3 cw) [29..<58] @ FT8_COSTAS"

lemma generate_ft8:
  assumes "length cw = 174"
  shows "generate_symbols_protocol ft8_params cw = Some (Inr (ft8_frame cw))"
    and "hard_decision ft8_params (ft8_frame cw) = cw"
proof -
  have frame: "layout ft8_params (data_tone 3 cw) [0..<79] 0 = ft8_frame cw" by (simp only: layout_ft8 ft8_frame_def)
  then show "generate_symbols_protocol ft8_params cw = Some (Inr (ft8_frame cw))"
    using generate_layout [of ft8_params 3 cw] assms covered_ft8
    by (simp only: protocol_fields layout_ft8(2)) simp
  have "hard_decision ft8_params (layout ft8_params (data_tone 3 cw) [0..<79] 0) =
      concat (map (\<lambda>k. tone_bits 3 (data_tone 3 cw k)) [0..<58])"
    unfolding hard_decision_def protocol_fields
    by (simp only: data_symbols_ft8 [OF refl, of "tone_bits 3" "data_tone 3 cw"])
  also have "\<dots> = take (3 * 58) cw" unfolding tone_bits_data3 using assms by (intro concat_chunks) simp
  finally show "hard_decision ft8_params (ft8_frame cw) = cw" using assms frame by simp
qed

definition ft4_frame :: "bool list \<Rightarrow> nat list" where
  "ft4_frame cw = [0] @ [0, 1, 3, 2] @ map (data_tone 2 cw) [0..<29] @ [1, 0, 2, 3] @ map (data_tone 2 cw) [29..<58] @
     [2, 3, 1, 0] @ map (data_tone 2 cw) [58..<87] @ [3, 2, 0, 1] @ [0]"

lemma generate_ft4:
  assumes "length cw = 174"
  shows "generate_symbols_protocol ft4_params cw = Some (Inr (ft4_frame cw))"
    and "hard_decision ft4_params (ft4_frame cw) = cw"
proof -
  have frame: "layout ft4_params (data_tone 2 cw) [0..<105] 0 = ft4_frame cw" by (simp only: layout_ft4 ft4_frame_def)
  then show "generate_symbols_protocol ft4_params cw = Some (Inr (ft4_frame cw))"
    using generate_layout [of ft4_params 2 cw] assms covered_ft4
    by (simp only: protocol_fields layout_ft4(2)) simp
  have "hard_decision ft4_params (layout ft4_params (data_tone 2 cw) [0..<105] 0) =
      concat (map (\<lambda>k. tone_bits 2 (data_tone 2 cw k)) [0..<87])"
    unfolding hard_decision_def protocol_fields
    by (simp only: data_symbols_ft4 [OF refl, of "tone_bits 2" "data_tone 2 cw"])
  also have "\<dots> = take (2 * 87) cw" unfolding tone_bits_data2 using assms by (intro concat_chunks) simp
  finally show "hard_decision ft4_params (ft4_frame cw) = cw" using assms frame by simp
qed

lemma sync_positions:
  "\<forall>g<length (costas_positions p). take (costas_length p) (drop (costas_positions p ! g) ss) = costas_arrays p ! g"
  if "p = ft8_params \<and> ss = ft8_frame cw \<or> p = ft4_params \<and> ss = ft4_frame cw"
  using that
  by (auto simp: ft8_params_def ft4_params_def FT8_COSTAS_POSITIONS_def FT4_COSTAS_POSITIONS_def ft8_frame_def ft4_frame_def
      FT8_COSTAS_ARRAYS_def FT4_COSTAS_ARRAYS_def FT8_COSTAS_def less_Suc_eq nth_Cons' simp del: upt_Suc)

lemma frame_tones: "\<forall>s\<in>set (ft8_frame cw). s < 8" "\<forall>s\<in>set (ft4_frame cw). s < 4"
  using data_tone_less by (auto simp: ft8_frame_def ft4_frame_def FT8_COSTAS_def)

lemma frame_lengths: "length (ft8_frame cw) = 79" "length (ft4_frame cw) = 105"
  by (simp_all add: ft8_frame_def ft4_frame_def costas_len)

lemma generators_agree: "generate_symbols cw = generate_symbols_protocol ft8_params cw"
  using generators_agree_on [of "[0..<79]" cw 0]
  by (simp add: generate_symbols_def generate_symbols_protocol_def NUM_SYMBOLS_def protocol_fields)

lemma slot_ns_ft8: "slot_ns ft8_params = SLOT_NS" "slot_ns ft4_params = 7500000000"
  by (simp_all add: slot_ns_def ft8_params_def ft4_params_def SLOT_NS_def)

section \<open>From payload to received bits\<close>

lemma payload_to_ldpc_ok:
  "\<exists>cw. payload_to_ldpc payload = Inr cw \<and> length cw = 174 \<and> verify_syndrome cw \<and>
     verify_crc14 (take 91 cw) \<and> take 77 cw = unpack_msb 77 payload"
proof -
  define m where "m = unpack_msb 77 payload @ word_to_bits 14 (calculate_crc14 (unpack_msb 77 payload))"
  have len: "length m = 91" by (simp add: m_def)
  define cw where "cw = m @ map (\<lambda>i. ldpc_nsum (pack_msb 12 m) i AND 1 \<noteq> 0) [0..<83]"
  have enc: "ldpc_encode m = Inr cw" using ldpc_encode_bits [OF len] by (simp add: cw_def)
  have "take 91 cw = m" using len by (simp add: cw_def)
  moreover have "take 77 cw = unpack_msb 77 payload" using len by (simp add: cw_def m_def)
  moreover have "verify_crc14 m" unfolding m_def by (rule crc_append_verifies) simp
  moreover have "payload_to_ldpc payload = Inr cw"
    using enc by (simp add: payload_to_ldpc_def Let_def PAYLOAD_BITS_def CRC_BITS_def m_def)
  moreover have "length cw = 174" using len by (simp add: cw_def)
  ultimately show ?thesis using ldpc_encode_verifies [OF len enc] by auto
qed

lemma payload_on_air:
  "\<exists>ss. payload_to_symbols payload = Some (Inr ss) \<and> length ss = 79 \<and>
     verify_syndrome (hard_decision ft8_params ss) \<and> verify_crc14 (take 91 (hard_decision ft8_params ss)) \<and>
     take 77 (hard_decision ft8_params ss) = unpack_msb 77 payload"
proof -
  obtain cw where cw: "payload_to_ldpc payload = Inr cw" "length cw = 174" "verify_syndrome cw"
    "verify_crc14 (take 91 cw)" "take 77 cw = unpack_msb 77 payload" using payload_to_ldpc_ok by blast
  then show ?thesis
    by (intro exI [of _ "ft8_frame cw"])
      (simp add: payload_to_symbols_def generators_agree generate_ft8 frame_lengths)
qed

lemma unpack_scramble:
  assumes "length a = 10" and "length b = 10" and "j < 80"
  shows "get_msb (scramble a b) j \<longleftrightarrow> (get_msb a j \<noteq> get_msb b j)"
proof -
  have "j div 8 < 10" using assms(3) by simp
  then show ?thesis using assms by (auto simp: get_msb_bit scramble_def bit_xor_iff)
qed

lemma descramble:
  assumes "length seq = 10" and "length payload = 10"
  shows "unpack_msb 77 (scramble seq (pack_msb 10 (unpack_msb 77 (scramble seq payload)))) = unpack_msb 77 payload"
proof (rule nth_equalityI)
  show "length (unpack_msb 77 (scramble seq (pack_msb 10 (unpack_msb 77 (scramble seq payload))))) =
      length (unpack_msb 77 payload)" by simp
  fix j assume "j < length (unpack_msb 77 (scramble seq (pack_msb 10 (unpack_msb 77 (scramble seq payload)))))"
  then have j: "j < 77" by simp
  have len: "length (scramble seq payload) = 10" by (simp add: scramble_def)
  have "get_msb (pack_msb 10 (unpack_msb 77 (scramble seq payload))) j \<longleftrightarrow> get_msb (scramble seq payload) j"
    using j by (subst get_pack_msb) (simp_all add: unpack_msb_def)
  with j assms show "unpack_msb 77 (scramble seq (pack_msb 10 (unpack_msb 77 (scramble seq payload)))) ! j =
      unpack_msb 77 payload ! j"
    by (auto simp: unpack_msb_def unpack_scramble)
qed

section \<open>Properties\<close>

text \<open>From codeword to channel symbols. For every 174-bit codeword the FT8 generator and the protocol-generic one
  give the same result; for both protocols no index is out of range, the transmission has the protocol's
  length, every symbol is one of its tones, each Costas array stands at its position, and the inverse Gray
  map on the data positions gives the codeword back.\<close>

theorem symbol_generation_correct:
  assumes "length cw = 174"
  shows "generate_symbols cw = generate_symbols_protocol ft8_params cw \<and>
    (\<forall>pr. \<exists>ss. generate_symbols_protocol (from_protocol pr) cw = Some (Inr ss) \<and>
       length ss = num_symbols (from_protocol pr) \<and> (\<forall>s\<in>set ss. s < num_tones (from_protocol pr)) \<and>
       (\<forall>g<length (costas_positions (from_protocol pr)).
          take (costas_length (from_protocol pr)) (drop (costas_positions (from_protocol pr) ! g) ss) =
          costas_arrays (from_protocol pr) ! g) \<and>
       hard_decision (from_protocol pr) ss = cw)"
proof (intro conjI allI)
  show "generate_symbols cw = generate_symbols_protocol ft8_params cw" by (rule generators_agree)
  fix pr
  show "\<exists>ss. generate_symbols_protocol (from_protocol pr) cw = Some (Inr ss) \<and>
       length ss = num_symbols (from_protocol pr) \<and> (\<forall>s\<in>set ss. s < num_tones (from_protocol pr)) \<and>
       (\<forall>g<length (costas_positions (from_protocol pr)).
          take (costas_length (from_protocol pr)) (drop (costas_positions (from_protocol pr) ! g) ss) =
          costas_arrays (from_protocol pr) ! g) \<and>
       hard_decision (from_protocol pr) ss = cw"
  proof (cases pr)
    case Ft8
    then show ?thesis
      using generate_ft8 [OF assms] frame_lengths frame_tones sync_positions [of ft8_params "ft8_frame cw" cw]
      by (intro exI [of _ "ft8_frame cw"]) (simp add: protocol_fields)
  next
    case Ft4
    then show ?thesis
      using generate_ft4 [OF assms] frame_lengths frame_tones sync_positions [of ft4_params "ft4_frame cw" cw]
      by (intro exI [of _ "ft4_frame cw"]) (simp add: protocol_fields)
  qed
qed

theorem symbol_generation_correct_witness:
  "\<exists>ss. generate_symbols_protocol ft4_params (replicate 174 True) = Some (Inr ss) \<and> length ss = 105 \<and>
     hard_decision ft4_params ss = replicate 174 True"
proof -
  have "length (replicate 174 True) = 174" by simp
  from symbol_generation_correct [OF this] have "\<exists>ss. generate_symbols_protocol (from_protocol Ft4) (replicate 174 True) = Some (Inr ss) \<and>
       length ss = num_symbols (from_protocol Ft4) \<and> hard_decision (from_protocol Ft4) ss = replicate 174 True" by blast
  then show ?thesis by (simp only: from_protocol.simps protocol_fields)
qed

text \<open>What a payload becomes on the air passes every check of a receiver without noise. The FT8 transmission of a
  ten-byte payload yields bits that satisfy all parity checks and the CRC and begin with the payload's 77
  bits; the FT4 transmission does the same with the scrambled payload, and undoing the scrambling on the
  received bits gives the payload's bits back.\<close>

theorem transmission_verifies:
  assumes "length payload = 10"
  shows "(\<exists>ss. payload_to_symbols payload = Some (Inr ss) \<and>
      verify_syndrome (hard_decision ft8_params ss) \<and> verify_crc14 (take 91 (hard_decision ft8_params ss)) \<and>
      take 77 (hard_decision ft8_params ss) = unpack_msb 77 payload) \<and>
    (\<exists>ss. payload_to_symbols_protocol ft4_params payload = Some (Inr ss) \<and>
      verify_syndrome (hard_decision ft4_params ss) \<and> verify_crc14 (take 91 (hard_decision ft4_params ss)) \<and>
      unpack_msb 77 (scramble FT4_XOR_SEQUENCE (pack_msb 10 (take 77 (hard_decision ft4_params ss)))) =
        unpack_msb 77 payload)"
proof
  show "\<exists>ss. payload_to_symbols payload = Some (Inr ss) \<and>
      verify_syndrome (hard_decision ft8_params ss) \<and> verify_crc14 (take 91 (hard_decision ft8_params ss)) \<and>
      take 77 (hard_decision ft8_params ss) = unpack_msb 77 payload" using payload_on_air by blast
  obtain cw where cw: "payload_to_ldpc (scramble FT4_XOR_SEQUENCE payload) = Inr cw" "length cw = 174"
    "verify_syndrome cw" "verify_crc14 (take 91 cw)" "take 77 cw = unpack_msb 77 (scramble FT4_XOR_SEQUENCE payload)"
    using payload_to_ldpc_ok by blast
  have "xor_sequence ft4_params = Some FT4_XOR_SEQUENCE" by (simp add: ft4_params_def)
  moreover have "length FT4_XOR_SEQUENCE = 10" by (simp add: FT4_XOR_SEQUENCE_def)
  ultimately show "\<exists>ss. payload_to_symbols_protocol ft4_params payload = Some (Inr ss) \<and>
      verify_syndrome (hard_decision ft4_params ss) \<and> verify_crc14 (take 91 (hard_decision ft4_params ss)) \<and>
      unpack_msb 77 (scramble FT4_XOR_SEQUENCE (pack_msb 10 (take 77 (hard_decision ft4_params ss)))) =
        unpack_msb 77 payload"
    using cw generate_ft4 [OF cw(2)] descramble [of FT4_XOR_SEQUENCE payload] assms
    by (intro exI [of _ "ft4_frame cw"]) (simp add: payload_to_symbols_protocol_def)
qed

theorem transmission_verifies_witness:
  "\<exists>ss. payload_to_symbols (replicate 10 0xA5) = Some (Inr ss) \<and> verify_syndrome (hard_decision ft8_params ss) \<and>
     take 77 (hard_decision ft8_params ss) = unpack_msb 77 (replicate 10 0xA5)"
  using transmission_verifies [of "replicate 10 0xA5"] by auto

end
