(* ===== verification/Gridsquare.thy ===== *)
theory Gridsquare
  imports Prelude
begin

text \<open>
  Maidenhead locators, \<open>pancetta-core/src/gridsquare.rs\<close>: precision levels, construction and validation of a
  \<open>GridSquare\<close>, truncation to a coarser precision, and the extraction of locators from text. The conversions
  to and from coordinates are floating-point computations and are not modelled.
\<close>

datatype pancetta_error = InvalidInput string

type_synonym 'a grid_result = "pancetta_error + 'a"

datatype grid_precision = Field | Square | Subsquare | ExtendedSquare | SubExtendedSquare

text \<open>The discriminants, \<open>precision as usize\<close>.\<close>

fun precision_as_usize :: "grid_precision \<Rightarrow> nat" where
  "precision_as_usize Field = 2"
| "precision_as_usize Square = 4"
| "precision_as_usize Subsquare = 6"
| "precision_as_usize ExtendedSquare = 8"
| "precision_as_usize SubExtendedSquare = 10"

record grid_square =
  grid :: string
  precision :: grid_precision

text \<open>\<open>chars.chunks(2)\<close>.\<close>

fun chunks2 :: "'a list \<Rightarrow> 'a list list" where
  "chunks2 [] = []"
| "chunks2 [x] = [[x]]"
| "chunks2 (x # y # zs) = [x, y] # chunks2 zs"

definition letter_pair :: "char \<Rightarrow> char list \<Rightarrow> bool" where
  "letter_pair hi chunk \<longleftrightarrow>
     is_ascii_alphabetic (chunk ! 0) \<and> is_ascii_alphabetic (chunk ! 1) \<and>
     char_between CHR ''A'' hi (chunk ! 0) \<and> char_between CHR ''A'' hi (chunk ! 1)"

definition digit_pair :: "char list \<Rightarrow> bool" where
  "digit_pair chunk \<longleftrightarrow> is_ascii_digit (chunk ! 0) \<and> is_ascii_digit (chunk ! 1)"

definition validate_chunk :: "nat \<Rightarrow> char list \<Rightarrow> unit grid_result" where
  "validate_chunk i chunk =
     (if i = 0 then (if letter_pair CHR ''R'' chunk then Inr () else Inl (InvalidInput ''First pair must be letters A-R''))
      else if i = 1 then (if digit_pair chunk then Inr () else Inl (InvalidInput ''Second pair must be digits 0-9''))
      else if i = 2 then (if letter_pair CHR ''X'' chunk then Inr () else Inl (InvalidInput ''Third pair must be letters A-X''))
      else if i = 3 then (if digit_pair chunk then Inr () else Inl (InvalidInput ''Fourth pair must be digits 0-9''))
      else if i = 4 then (if letter_pair CHR ''X'' chunk then Inr () else Inl (InvalidInput ''Fifth pair must be letters A-X''))
      else Inl (InvalidInput ''Too many character pairs''))"

fun validate_chunks :: "nat \<Rightarrow> char list list \<Rightarrow> unit grid_result" where
  "validate_chunks i [] = Inr ()"
| "validate_chunks i (c # cs) = (case validate_chunk i c of Inl e \<Rightarrow> Inl e | Inr _ \<Rightarrow> validate_chunks (Suc i) cs)"

definition validate :: "grid_square \<Rightarrow> unit grid_result" where
  "validate g =
     (let chars = grid g in
      if chars = [] \<or> 10 < length chars \<or> length chars mod 2 \<noteq> 0
      then Inl (InvalidInput ''Grid square must have 2, 4, 6, 8, or 10 characters'')
      else validate_chunks 0 (chunks2 chars))"

definition precision_of_length :: "nat \<Rightarrow> grid_precision grid_result" where
  "precision_of_length n =
     (if n = 2 then Inr Field else if n = 4 then Inr Square else if n = 6 then Inr Subsquare
      else if n = 8 then Inr ExtendedSquare else if n = 10 then Inr SubExtendedSquare
      else Inl (InvalidInput (''Invalid grid square length: '' @ nat_to_dec n)))"

definition grid_square_new :: "string \<Rightarrow> grid_square grid_result" where
  "grid_square_new s =
     (let g = to_upper s in
      case precision_of_length (length g) of
        Inl e \<Rightarrow> Inl e
      | Inr p \<Rightarrow>
          let gs = \<lparr> grid = g, precision = p \<rparr> in
          (case validate gs of Inl e \<Rightarrow> Inl e | Inr _ \<Rightarrow> Inr gs))"

definition reduce_precision :: "grid_square \<Rightarrow> grid_precision \<Rightarrow> grid_square grid_result" where
  "reduce_precision g new_precision =
     (if precision_as_usize (precision g) \<le> precision_as_usize new_precision
      then Inl (InvalidInput ''Cannot reduce to higher precision'')
      else Inr \<lparr> grid = take (precision_as_usize new_precision) (grid g), precision = new_precision \<rparr>)"

definition validate_grid :: "string \<Rightarrow> unit grid_result" where
  "validate_grid s = (case grid_square_new s of Inl e \<Rightarrow> Inl e | Inr _ \<Rightarrow> Inr ())"

text \<open>\<open>trim_matches\<close> of what is not alphanumeric, on ASCII words.\<close>

definition trim_punctuation :: "string \<Rightarrow> string" where
  "trim_punctuation w =
     rev (dropWhile (\<lambda>c. \<not> is_ascii_alphanumeric c) (rev (dropWhile (\<lambda>c. \<not> is_ascii_alphanumeric c) w)))"

fun collect_grids :: "string list \<Rightarrow> grid_square list" where
  "collect_grids [] = []"
| "collect_grids (w # ws) =
     (case grid_square_new (trim_punctuation w) of Inr g \<Rightarrow> g # collect_grids ws | Inl _ \<Rightarrow> collect_grids ws)"

definition parse_grids_from_text :: "string \<Rightarrow> grid_square list" where
  "parse_grids_from_text txt = collect_grids (split_whitespace txt)"

section \<open>Well-formed locators\<close>

definition grid_ok :: "grid_square \<Rightarrow> bool" where
  "grid_ok g \<longleftrightarrow> validate g = Inr () \<and> length (grid g) = precision_as_usize (precision g)"

lemma new_ok: "grid_square_new s = Inr g \<Longrightarrow> grid_ok g \<and> grid g = to_upper s"
  by (auto simp: grid_square_new_def grid_ok_def precision_of_length_def Let_def split: if_splits sum.splits)

lemma length_chunks2: "length (chunks2 xs) = (length xs + 1) div 2"
  by (induction xs rule: chunks2.induct) auto

lemma chunks2_take: "chunks2 (take (2 * n) xs) = take n (chunks2 xs)"
proof (induction xs arbitrary: n rule: chunks2.induct)
  case (3 x y zs)
  then show ?case by (cases n) auto
qed (auto simp: take_Cons' split: nat.splits)

lemma validate_chunks_take: "validate_chunks i cs = Inr () \<Longrightarrow> validate_chunks i (take n cs) = Inr ()"
proof (induction cs arbitrary: i n)
  case (Cons c cs)
  then show ?case by (cases n) (auto split: sum.splits)
qed simp

lemma precision_even: "\<exists>k>0. precision_as_usize p = 2 * k \<and> k \<le> 5"
  by (cases p) (auto intro: exI [of _ 1] exI [of _ 2] exI [of _ 3] exI [of _ 4] exI [of _ 5])

lemma reduce_ok:
  assumes "grid_ok g" and "reduce_precision g p = Inr h"
  shows "grid_ok h \<and> grid h = take (precision_as_usize p) (grid g) \<and> precision h = p"
proof -
  obtain k where k: "0 < k" "precision_as_usize p = 2 * k" "k \<le> 5" using precision_even by blast
  have h: "h = \<lparr> grid = take (2 * k) (grid g), precision = p \<rparr>" and less: "2 * k < precision_as_usize (precision g)"
    using assms(2) k by (auto simp: reduce_precision_def not_le split: if_splits)
  have len: "length (take (2 * k) (grid g)) = 2 * k" using assms(1) less by (simp add: grid_ok_def)
  have "validate_chunks 0 (chunks2 (grid g)) = Inr ()"
    using assms(1) by (auto simp: grid_ok_def validate_def Let_def split: if_splits)
  then have "validate_chunks 0 (chunks2 (take (2 * k) (grid g))) = Inr ()"
    unfolding chunks2_take by (rule validate_chunks_take)
  then show ?thesis using h k len by (auto simp: grid_ok_def validate_def Let_def)
qed

lemma validate_chunk_upper:
  "validate_chunk i [x, y] = Inr () \<Longrightarrow> \<not> is_ascii_lowercase x \<and> \<not> is_ascii_lowercase y"
  by (auto simp: validate_chunk_def letter_pair_def digit_pair_def ascii_simps split: if_splits)

lemma validate_chunks_upper:
  "validate_chunks i (chunks2 xs) = Inr () \<Longrightarrow> even (length xs) \<Longrightarrow> \<forall>c\<in>set xs. \<not> is_ascii_lowercase c"
proof (induction xs arbitrary: i rule: chunks2.induct)
  case (3 x y zs)
  then show ?case using validate_chunk_upper [of i x y] by (auto split: sum.splits)
qed auto

lemma new_of_ok: "grid_ok g \<Longrightarrow> grid_square_new (grid g) = Inr g"
proof -
  assume g: "grid_ok g"
  then have "to_upper (grid g) = grid g"
    using validate_chunks_upper [of 0 "grid g"]
    by (intro to_upper_id) (auto simp: grid_ok_def validate_def Let_def even_iff_mod_2_eq_zero split: if_splits)
  moreover have "precision_of_length (precision_as_usize p) = Inr p" for p
    by (cases p) (simp_all add: precision_of_length_def)
  ultimately show ?thesis using g
    by (cases g) (simp add: grid_square_new_def grid_ok_def Let_def)
qed

section \<open>Properties\<close>

text \<open>The type invariant of a locator. A \<open>GridSquare\<close> built from text, or found in a text, has a valid shape in
  upper case whose length is its precision; building it again from its own text gives the same locator;
  and truncation to a coarser precision keeps all that and never lengthens the locator.\<close>

theorem grid_square_invariant:
  "(grid_square_new s = Inr g \<longrightarrow> grid_ok g \<and> grid g = to_upper s) \<and>
   (\<forall>g\<in>set (parse_grids_from_text s). grid_ok g) \<and>
   (grid_ok g \<longrightarrow> grid_square_new (grid g) = Inr g) \<and>
   (grid_ok g \<and> reduce_precision g p = Inr h \<longrightarrow>
      grid_ok h \<and> precision h = p \<and> grid h = take (length (grid h)) (grid g) \<and> length (grid h) < length (grid g))"
proof (intro conjI impI ballI)
  show "grid_ok x" if "x \<in> set (parse_grids_from_text s)" for x
  proof -
    have "x \<in> set (collect_grids ws) \<Longrightarrow> grid_ok x" for ws
      by (induction ws) (auto dest: new_ok split: sum.splits)
    with that show ?thesis by (simp add: parse_grids_from_text_def)
  qed
  assume a: "grid_ok g \<and> reduce_precision g p = Inr h"
  then have h: "grid_ok h" "grid h = take (precision_as_usize p) (grid g)" "precision h = p"
    using reduce_ok [of g p h] by auto
  then show "grid_ok h" "precision h = p" by auto
  have len: "length (grid h) = precision_as_usize p" using h by (auto simp: grid_ok_def)
  then show "grid h = take (length (grid h)) (grid g)" using h(2) by simp
  show "length (grid h) < length (grid g)"
    using a len by (auto simp: reduce_precision_def grid_ok_def not_le split: if_splits)
qed (auto dest: new_ok new_of_ok)

theorem grid_square_invariant_witness:
  "reduce_precision \<lparr> grid = ''FN31PR'', precision = Subsquare \<rparr> Square = Inr \<lparr> grid = ''FN31'', precision = Square \<rparr> \<and>
   grid_ok \<lparr> grid = ''FN31'', precision = Square \<rparr>"
proof -
  have "grid_ok \<lparr> grid = ''FN31PR'', precision = Subsquare \<rparr>"
    "reduce_precision \<lparr> grid = ''FN31PR'', precision = Subsquare \<rparr> Square = Inr \<lparr> grid = ''FN31'', precision = Square \<rparr>"
    by code_simp+
  then show ?thesis
    using grid_square_invariant [of "[]" "\<lparr> grid = ''FN31PR'', precision = Subsquare \<rparr>" Square "\<lparr> grid = ''FN31'', precision = Square \<rparr>"]
    by blast
qed

end
