(* ===== verification/Encoder.thy ===== *)
theory Encoder
  imports Message Symbols Gridsquare
begin

text \<open>
  The transmit side, \<open>Ft8Encoder\<close> of \<open>pancetta-ft8/src/encoder.rs\<close>: text to payload for standard messages
  (\<open>try_encode_standard\<close>), nonstandard calls (\<open>try_encode_nonstandard\<close>), DXpedition and contest frames, and
  the entry points that try them in turn. The parser of the other side is \<open>Message\<close>, the way to channel
  symbols \<open>Symbols\<close>.
\<close>

section \<open>Standard messages\<close>

definition parse_standard_message :: "string list \<Rightarrow> (string \<times> string \<times> string) ft8_result" where
  "parse_standard_message parts =
     (if parts = [] then Inl (MessageDecodingError ''Empty message'')
      else if parts ! 0 = ''CQ'' then
        (let (call_to, idx) =
               (if 1 < length parts \<and> is_cq_modifier (parts ! 1) then (''CQ '' @ parts ! 1, 2) else (''CQ'', 1))
         in if \<not> idx < length parts then Inl (MessageDecodingError ''CQ message missing callsign'')
            else Inr (call_to, parts ! idx, if idx + 1 < length parts then parts ! (idx + 1) else []))
      else if length parts < 2 then Inl (MessageDecodingError ''Standard message needs at least 2 callsigns'')
      else Inr (parts ! 0, parts ! 1,
                if 3 < length parts \<and> parts ! 2 = ''R'' then parts ! 2 @ '' '' @ parts ! 3
                else if 2 < length parts then parts ! 2 else []))"

text \<open>The ten bytes of a standard payload: n29a, n29b, ir, igrid4 and i3.\<close>

definition standard_bytes :: "u32 \<Rightarrow> u32 \<Rightarrow> u8 \<Rightarrow> u16 \<Rightarrow> u8 \<Rightarrow> u8 list" where
  "standard_bytes n29a n29b ir igrid4_val i3 =
     [ucast (drop_bit 21 n29a), ucast (drop_bit 13 n29a), ucast (drop_bit 5 n29a),
      ucast (push_bit 3 n29a) OR ucast (drop_bit 26 n29b),
      ucast (drop_bit 18 n29b), ucast (drop_bit 10 n29b), ucast (drop_bit 2 n29b),
      ucast (push_bit 6 n29b) OR push_bit 5 ir OR ucast (drop_bit 10 igrid4_val),
      ucast (drop_bit 2 igrid4_val),
      ucast (push_bit 6 igrid4_val) OR push_bit 3 i3]"

definition try_encode_standard :: "string \<Rightarrow> u8 list ft8_result" where
  "try_encode_standard txt =
     (let parts = split_whitespace txt in
      if parts = [] then Inl (MessageDecodingError ''Empty message'')
      else case parse_standard_message parts of
             Inl e \<Rightarrow> Inl e
           | Inr (call_to, call_de, extra) \<Rightarrow>
               (case pack28 call_to of
                  Inl e \<Rightarrow> Inl e
                | Inr (n28a, ipa) \<Rightarrow>
                    (case pack28 call_de of
                       Inl e \<Rightarrow> Inl e
                     | Inr (n28b, ipb) \<Rightarrow>
                         let igrid4 = packgrid extra;
                             n29a = push_bit 1 n28a OR ucast ipa;
                             n29b = push_bit 1 n28b OR ucast ipb;
                             ir = (if igrid4 AND 0x8000 \<noteq> 0 then 1 else 0)
                         in Inr (standard_bytes n29a n29b ir (igrid4 AND 0x7FFF) 1))))"

section \<open>Nonstandard calls\<close>

definition looks_like_compound_callsign_shape :: "string \<Rightarrow> bool" where
  "looks_like_compound_callsign_shape bytes =
     (if length bytes < 2 then False
      else case rposition is_ascii_digit bytes of
             None \<Rightarrow> False
           | Some last_digit_pos \<Rightarrow>
               if length bytes \<le> last_digit_pos + 1 \<or> \<not> list_all is_ascii_alphabetic (drop (last_digit_pos + 1) bytes)
               then False
               else case position is_ascii_digit bytes of
                      None \<Rightarrow> False
                    | Some first_digit_pos \<Rightarrow>
                        let pre = take first_digit_pos bytes in
                        if pre = [] then first_digit_pos + 1 < length bytes \<and> is_ascii_alphabetic (bytes ! (first_digit_pos + 1))
                        else length pre \<le> 2 \<and> list_all is_ascii_alphabetic pre)"

lemma rposition_less: "rposition p xs = Some i \<Longrightarrow> i < length xs"
  by (induction xs arbitrary: i) (auto split: option.splits if_splits)

function looks_like_compound_callsign :: "string \<Rightarrow> bool" where
  "looks_like_compound_callsign s =
     (if length s < 3 then False
      else case rposition (\<lambda>c. c = CHR ''/'') s of
             Some slash_pos \<Rightarrow>
               (let base = take slash_pos s; suffix = drop (slash_pos + 1) s in
                if base = [] then False
                else if suffix \<noteq> [] \<and> list_all is_ascii_digit suffix then looks_like_compound_callsign base
                else looks_like_compound_callsign_shape suffix)
           | None \<Rightarrow> looks_like_compound_callsign_shape s)"
  by pat_completeness auto
termination
  by (relation "measure length") (auto dest: rposition_less)

declare looks_like_compound_callsign.simps [simp del]

definition extra_is_grid_locator :: "string \<Rightarrow> bool" where
  "extra_is_grid_locator s \<longleftrightarrow> is_grid4 s"

definition extra_is_grid_locator_or_extended :: "string \<Rightarrow> bool" where
  "extra_is_grid_locator_or_extended s \<longleftrightarrow>
     extra_is_grid_locator s \<or>
     (case grid_square_new s of
        Inr g \<Rightarrow> precision_as_usize Square < precision_as_usize (precision g)
      | Inl _ \<Rightarrow> False)"

definition extra_is_numeric_report :: "string \<Rightarrow> bool" where
  "extra_is_numeric_report s \<longleftrightarrow>
     (let body = (case strip_prefix ''R'' s of Some b \<Rightarrow> b | None \<Rightarrow> s) in body \<noteq> [] \<and> parse_i32 body \<noteq> None)"

definition pack_nonstandard :: "u32 \<Rightarrow> u64 \<Rightarrow> bool \<Rightarrow> u8 \<Rightarrow> bool \<Rightarrow> u8 list" where
  "pack_nonstandard n12 n58 iflip nrpt icq =
     pack_msb 10 (word_to_bits 12 n12 @ word_to_bits 58 n58 @ [iflip] @ word_to_bits 2 nrpt @ [icq] @
                  word_to_bits 3 (4::u8) @ replicate 3 False)"

text \<open>The two-bit report field of a nonstandard message.\<close>

definition nonstandard_report :: "string \<Rightarrow> u8 ft8_result" where
  "nonstandard_report extra =
     (if extra = [] then Inr 0
      else if extra = ''RRR'' then Inr 1
      else if extra = ''RR73'' then Inr 2
      else if extra = ''73'' then Inr 3
      else if extra_is_grid_locator_or_extended extra then Inr 0
      else if extra_is_numeric_report extra then
        Inl (MessageDecodingError (''Cannot represent report '' @ quoted extra @
          '' for a compound-callsign message: i3=4 has no numeric-report field, and dropping '' @
          ''it would silently send a different, misleading message''))
      else Inl (MessageDecodingError (''Cannot represent exchange field '' @ quoted extra @
          '' for a compound-callsign message'')))"

definition does_not_fit :: "string \<Rightarrow> ft8_error" where
  "does_not_fit call = MessageDecodingError (''Callsign '' @ quoted call @
     '' does not fit the 58-bit hash-callsign field (>11 chars or invalid character)'')"

definition std_callsign :: "string \<Rightarrow> bool" where
  "std_callsign call \<longleftrightarrow> (case pack28 call of Inr _ \<Rightarrow> True | Inl _ \<Rightarrow> False)"

text \<open>The CQ branch.\<close>

definition encode_nonstandard_cq :: "string list \<Rightarrow> u8 list ft8_result" where
  "encode_nonstandard_cq parts =
     (if length parts < 2 \<or> 3 < length parts
      then Inl (MessageDecodingError (''Nonstandard CQ must be '' @ quoted ''CQ <callsign>'' @ '' or '' @
             quoted ''CQ <callsign> <grid>''))
      else
        let call = parts ! 1 in
        if \<not> looks_like_compound_callsign call
        then Inl (MessageDecodingError (quoted call @ '' is not callsign-shaped''))
        else if std_callsign call then Inl (MessageDecodingError ''Callsign is standard-encodable'')
        else case pack58 call of
               None \<Rightarrow> Inl (does_not_fit call)
             | Some n58 \<Rightarrow>
                 if 2 < length parts \<and> \<not> extra_is_grid_locator_or_extended (parts ! 2)
                 then Inl (MessageDecodingError (quoted (parts ! 2) @
                        '' is not a valid grid locator for a compound-callsign CQ''))
                 else Inr (pack_nonstandard 0 n58 False 0 True))"

text \<open>Which call is sent exactly, which as a hash, and the flip flag.\<close>

definition choose_exact :: "string \<Rightarrow> string \<Rightarrow> (string \<times> string \<times> bool) ft8_result" where
  "choose_exact call_to call_de =
     (case (std_callsign call_to, std_callsign call_de) of
        (True, True) \<Rightarrow> Inl (MessageDecodingError ''Both callsigns are standard-encodable'')
      | (False, True) \<Rightarrow> Inr (call_to, call_de, True)
      | (True, False) \<Rightarrow> Inr (call_de, call_to, False)
      | (False, False) \<Rightarrow>
          if pack58 call_to \<noteq> None then Inr (call_to, call_de, True)
          else if pack58 call_de \<noteq> None then Inr (call_de, call_to, False)
          else Inl (MessageDecodingError (''Neither '' @ quoted call_to @ '' nor '' @ quoted call_de @
                 '' fits the 58-bit hash-callsign field'')))"

definition try_encode_nonstandard :: "string \<Rightarrow> u8 list ft8_result" where
  "try_encode_nonstandard txt =
     (let parts = split_whitespace txt in
      if parts = [] then Inl (MessageDecodingError ''Empty message'')
      else if parts ! 0 = ''CQ'' then encode_nonstandard_cq parts
      else if length parts < 2 then Inl (MessageDecodingError ''Nonstandard message needs at least 2 callsigns'')
      else
        let call_to = parts ! 0; call_de = parts ! 1; extra = (if 2 < length parts then parts ! 2 else []) in
        if \<not> looks_like_compound_callsign call_to \<or> \<not> looks_like_compound_callsign call_de
        then Inl (MessageDecodingError (quoted call_to @ '' / '' @ quoted call_de @ '' is not callsign-shaped''))
        else case choose_exact call_to call_de of
               Inl e \<Rightarrow> Inl e
             | Inr (exact_call, hashed_call, iflip) \<Rightarrow>
                 (case pack58 exact_call of
                    None \<Rightarrow> Inl (does_not_fit exact_call)
                  | Some n58 \<Rightarrow>
                      let n12 = hash12 hashed_call AND 0xFFF in
                      (case nonstandard_report extra of
                         Inl e \<Rightarrow> Inl e
                       | Inr nrpt \<Rightarrow> Inr (pack_nonstandard n12 n58 iflip nrpt False))))"

section \<open>Contest and DXpedition frames\<close>

definition pack_type0 :: "u32 \<Rightarrow> u32 \<Rightarrow> u8 \<Rightarrow> u16 \<Rightarrow> u8 \<Rightarrow> u8 list" where
  "pack_type0 n28a n28b ir field14 n3 =
     [ucast (drop_bit 20 n28a), ucast (drop_bit 12 n28a), ucast (drop_bit 4 n28a),
      ucast (push_bit 4 (n28a AND 0xF)) OR ucast (drop_bit 24 n28b),
      ucast (drop_bit 16 n28b), ucast (drop_bit 8 n28b), ucast n28b,
      push_bit 7 (ir AND 1) OR (ucast (drop_bit 8 field14) AND 0x7F),
      ucast field14,
      push_bit 3 n3]"

definition encode_arrl_section :: "string \<Rightarrow> u8 ft8_result" where
  "encode_arrl_section sec =
     (case position (\<lambda>s. to_upper s = to_upper sec) ARRL_SECTIONS of
        Some i \<Rightarrow> Inr (of_nat i)
      | None \<Rightarrow> Inl (MessageDecodingError (''Unknown ARRL section: '' @ quoted sec)))"

definition encode_state_code :: "string \<Rightarrow> u8 ft8_result" where
  "encode_state_code state =
     (case position (\<lambda>s. s = to_upper state) STATE_CODES of
        Some i \<Rightarrow> Inr (of_nat i)
      | None \<Rightarrow> Inl (MessageDecodingError (''Unknown state/province: '' @ quoted state)))"

definition class_letter_index :: "char \<Rightarrow> u32 ft8_result" where
  "class_letter_index class_letter =
     (case position (\<lambda>c. c = to_ascii_upper class_letter) ''ABCDEF'' of
        Some i \<Rightarrow> Inr (of_nat i)
      | None \<Rightarrow> Inl (MessageDecodingError (''Invalid Field Day class letter: '' @ [class_letter])))"

definition field_day_payload :: "string \<Rightarrow> string \<Rightarrow> bool \<Rightarrow> u8 \<Rightarrow> char \<Rightarrow> string \<Rightarrow> u8 list ft8_result" where
  "field_day_payload to_s from_s r_prefix n_transmitters class_letter sec =
     (if \<not> (1 \<le> n_transmitters \<and> n_transmitters \<le> 32)
      then Inl (MessageDecodingError (''Field Day transmitter count must be 1-32, got '' @ nat_to_dec (unat n_transmitters)))
      else case class_letter_index class_letter of
        Inl e \<Rightarrow> Inl e
      | Inr letter_idx \<Rightarrow>
          (case encode_arrl_section sec of
             Inl e \<Rightarrow> Inl e
           | Inr section_code \<Rightarrow>
               (case pack28 to_s of
                  Inl e \<Rightarrow> Inl e
                | Inr (n28a, _) \<Rightarrow>
                    (case pack28 from_s of
                       Inl e \<Rightarrow> Inl e
                     | Inr (n28b, _) \<Rightarrow>
                         let class_code = (ucast n_transmitters - 1) * 6 + letter_idx;
                             n_class_section = class_code * 84 + ucast section_code
                         in Inr (pack_type0 n28a n28b (if r_prefix then 1 else 0) (ucast (n_class_section :: u32)) 3)))))"

definition pack_eu_vhf_14bit :: "string \<Rightarrow> u16" where
  "pack_eu_vhf_14bit exchange =
     (if exchange = [] then 0
      else if exchange = ''RRR'' then 16200 + 1
      else if exchange = ''RR73'' then 16200 + 2
      else if exchange = ''73'' then 16200 + 3
      else if is_grid4 exchange then
        (let lon = of_nat (char_diff (exchange ! 0) CHR ''A'');
             lat = of_nat (char_diff (exchange ! 1) CHR ''A'');
             lon_digit = of_nat (char_diff (exchange ! 2) CHR ''0'');
             lat_digit = of_nat (char_diff (exchange ! 3) CHR ''0'') div 2
         in lon * 900 + lat * 50 + lon_digit * 5 + lat_digit)
      else case parse_i32 exchange of
             Some dd \<Rightarrow> of_int (16200 + 35 + dd)
           | None \<Rightarrow> 0)"

definition eu_vhf_payload :: "string \<Rightarrow> string \<Rightarrow> bool \<Rightarrow> string \<Rightarrow> u8 list ft8_result" where
  "eu_vhf_payload to_s from_s r_prefix exchange =
     (case pack28 to_s of
        Inl e \<Rightarrow> Inl e
      | Inr (n28a, _) \<Rightarrow>
          (case pack28 from_s of
             Inl e \<Rightarrow> Inl e
           | Inr (n28b, _) \<Rightarrow>
               Inr (pack_type0 n28a n28b (if r_prefix then 1 else 0) (pack_eu_vhf_14bit exchange) 2)))"

definition rst_code_of :: "nat \<Rightarrow> u16 ft8_result" where
  "rst_code_of rst =
     (case position (\<lambda>r. r = rst) [529, 539, 549, 559, 569, 579, 589, 599] of
        Some i \<Rightarrow> Inr (of_nat i)
      | None \<Rightarrow> Inl (MessageDecodingError (''Invalid RST: '' @ nat_to_dec rst @ '' (must be 529-599 in steps of 10)'')))"

definition rtty_roundup_payload :: "string \<Rightarrow> string \<Rightarrow> bool \<Rightarrow> nat \<Rightarrow> string \<Rightarrow> u8 list ft8_result" where
  "rtty_roundup_payload to_s from_s r_prefix rst state =
     (case pack28 to_s of
        Inl e \<Rightarrow> Inl e
      | Inr (n28a, _) \<Rightarrow>
          (case pack28 from_s of
             Inl e \<Rightarrow> Inl e
           | Inr (n28b, _) \<Rightarrow>
               (case encode_state_code state of
                  Inl e \<Rightarrow> Inl e
                | Inr state_code \<Rightarrow>
                    (case rst_code_of rst of
                       Inl e \<Rightarrow> Inl e
                     | Inr rst_code \<Rightarrow>
                         Inr (pack_type0 n28a n28b (if r_prefix then 1 else 0) (rst_code * 64 + ucast state_code) 5)))))"

definition hound_code :: "string \<Rightarrow> u32 ft8_result" where
  "hound_code call =
     (case pack28 call of
        Inr (n28, ip) \<Rightarrow>
          if ip = 0 \<and> NTOKENS + MAX22 \<le> n28 then Inr n28
          else Inl (MessageDecodingError (''DXpedition Hound must be a standard callsign: '' @ quoted call))
      | Inl _ \<Rightarrow> Inl (MessageDecodingError (''DXpedition Hound must be a standard callsign: '' @ quoted call)))"

text \<open>The loop writes the bits of the six fields one after the other into the payload.\<close>

definition pack_dxpedition_contacts :: "string \<Rightarrow> string \<Rightarrow> string \<Rightarrow> int \<Rightarrow> u8 list ft8_result" where
  "pack_dxpedition_contacts rr73_call report_call fox report =
     (case hound_code rr73_call of
        Inl e \<Rightarrow> Inl e
      | Inr n28a \<Rightarrow>
          (case hound_code report_call of
             Inl e \<Rightarrow> Inl e
           | Inr n28b \<Rightarrow>
               if trim fox = [] \<or> pack58 fox = None
               then Inl (MessageDecodingError (''DXpedition Fox callsign cannot be hashed: '' @ quoted fox))
               else Inr (pack_msb 10 (word_to_bits 28 n28a @ word_to_bits 28 n28b @ word_to_bits 10 (hash10 fox) @
                           word_to_bits 5 (ucast (dxpedition_report_to_r5 report) :: u32) @ word_to_bits 3 (1::u32) @
                           word_to_bits 3 (0::u32)))))"

section \<open>Entry points\<close>

text \<open>The payload of a text: the standard form, else the nonstandard-call form, else free text.\<close>

definition encode_payload :: "string \<Rightarrow> u8 list ft8_result" where
  "encode_payload txt =
     (case try_encode_standard txt of
        Inr payload \<Rightarrow> Inr payload
      | Inl _ \<Rightarrow>
          (case try_encode_nonstandard txt of
             Inr payload \<Rightarrow> Inr payload
           | Inl _ \<Rightarrow> encode_free_text txt))"

definition cannot_encode :: "string \<Rightarrow> ft8_error" where
  "cannot_encode message_text = MessageDecodingError (''Cannot encode message: '' @ quoted message_text)"

definition encode_message :: "string \<Rightarrow> nat list ft8_result option" where
  "encode_message message_text =
     (case encode_payload (trim (to_upper message_text)) of
        Inr payload \<Rightarrow> payload_to_symbols payload
      | Inl _ \<Rightarrow> Some (Inl (cannot_encode message_text)))"

definition encode_message_protocol :: "protocol_params \<Rightarrow> string \<Rightarrow> nat list ft8_result option" where
  "encode_message_protocol p message_text =
     (case encode_payload (trim (to_upper message_text)) of
        Inr payload \<Rightarrow> payload_to_symbols_protocol p payload
      | Inl _ \<Rightarrow> Some (Inl (cannot_encode message_text)))"

definition payload_result :: "u8 list ft8_result \<Rightarrow> nat list ft8_result option" where
  "payload_result r = (case r of Inl e \<Rightarrow> Some (Inl e) | Inr payload \<Rightarrow> payload_to_symbols payload)"

definition encode_cq :: "string \<Rightarrow> string \<Rightarrow> bool \<Rightarrow> nat list ft8_result option" where
  "encode_cq callsign grid_sq dx_call =
     encode_message (if dx_call then ''CQ DX '' @ callsign @ '' '' @ grid_sq else ''CQ '' @ callsign @ '' '' @ grid_sq)"

definition encode_response :: "string \<Rightarrow> string \<Rightarrow> string \<Rightarrow> nat list ft8_result option" where
  "encode_response to_s from_s grid_sq = encode_message (to_s @ '' '' @ from_s @ '' '' @ grid_sq)"

definition MAX_SIGNAL_REPORT :: int where
  "MAX_SIGNAL_REPORT = 30"

definition MIN_SIGNAL_REPORT :: int where
  "MIN_SIGNAL_REPORT = - 35"

definition encode_signal_report :: "string \<Rightarrow> string \<Rightarrow> int \<Rightarrow> nat list ft8_result option" where
  "encode_signal_report to_s from_s db =
     (if \<not> (MIN_SIGNAL_REPORT \<le> db \<and> db \<le> MAX_SIGNAL_REPORT)
      then Some (Inl (MessageDecodingError (''Signal report '' @ int_to_dec db @ '' dB out of range ('' @
             int_to_dec MIN_SIGNAL_REPORT @ '' to '' @ int_to_dec MAX_SIGNAL_REPORT @ '')'')))
      else encode_message (to_s @ '' '' @ from_s @ '' '' @ plus03 db))"

definition encode_rrr :: "string \<Rightarrow> string \<Rightarrow> nat list ft8_result option" where
  "encode_rrr to_s from_s = encode_message (to_s @ '' '' @ from_s @ '' RRR'')"

definition encode_73 :: "string \<Rightarrow> string \<Rightarrow> nat list ft8_result option" where
  "encode_73 to_s from_s = encode_message (to_s @ '' '' @ from_s @ '' 73'')"

definition encode_freetext :: "string \<Rightarrow> nat list ft8_result option" where
  "encode_freetext txt =
     (if MAX_FREETEXT_LENGTH < length txt
      then Some (Inl (MessageDecodingError (''Free text message too long: '' @ nat_to_dec (length txt) @
             '' characters (max '' @ nat_to_dec MAX_FREETEXT_LENGTH @ '')'')))
      else payload_result (encode_free_text (to_upper txt)))"

definition encode_field_day :: "string \<Rightarrow> string \<Rightarrow> bool \<Rightarrow> u8 \<Rightarrow> char \<Rightarrow> string \<Rightarrow> nat list ft8_result option" where
  "encode_field_day to_s from_s r n letter sec = payload_result (field_day_payload to_s from_s r n letter sec)"

definition encode_eu_vhf :: "string \<Rightarrow> string \<Rightarrow> bool \<Rightarrow> string \<Rightarrow> nat list ft8_result option" where
  "encode_eu_vhf to_s from_s r exchange = payload_result (eu_vhf_payload to_s from_s r exchange)"

definition encode_rtty_roundup :: "string \<Rightarrow> string \<Rightarrow> bool \<Rightarrow> nat \<Rightarrow> string \<Rightarrow> nat list ft8_result option" where
  "encode_rtty_roundup to_s from_s r rst state = payload_result (rtty_roundup_payload to_s from_s r rst state)"

definition encode_dxpedition_contacts :: "string \<Rightarrow> string \<Rightarrow> string \<Rightarrow> int \<Rightarrow> nat list ft8_result option" where
  "encode_dxpedition_contacts rr73_call report_call fox report =
     payload_result (pack_dxpedition_contacts rr73_call report_call fox report)"

end
