(* ===== verification/Plausible.thy ===== *)
theory Plausible
  imports Message Encoder
begin

text \<open>
  The receiver's acceptance policy, \<open>pancetta-ft8/src/message.rs\<close>: \<open>Ft8Message::is_plausible\<close> with the shape of
  calls, the allocated prefixes, the CQ modifiers and the payload checks, \<open>suspicion_score\<close>, and
  \<open>MessageParser::is_plausible\<close>, which admits DXpedition frames in Hound mode.
\<close>

section \<open>Prefixes\<close>

definition is_allocated_prefix_1char :: "char \<Rightarrow> bool" where
  "is_allocated_prefix_1char c \<longleftrightarrow> c \<in> set ''BCDEFGIJKMNRSTUVWYZ''"

definition is_allocated_prefix_2char_alpha :: "string \<Rightarrow> bool" where
  "is_allocated_prefix_2char_alpha pfx =
     (if length pfx \<noteq> 2 then False
      else
        let first = pfx ! 0; second = pfx ! 1 in
        if first = CHR ''A'' then
          char_between CHR ''A'' CHR ''L'' second \<or> char_between CHR ''M'' CHR ''P'' second \<or>
          char_between CHR ''R'' CHR ''Z'' second
        else if first \<in> set ''BCDEFGIJKMNOPRSW'' then True
        else if first = CHR ''H'' then is_ascii_uppercase second
        else if first = CHR ''L'' then
          char_between CHR ''A'' CHR ''N'' second \<or> char_between CHR ''O'' CHR ''W'' second \<or> second \<in> set ''XYZ''
        else if first = CHR ''Q'' then False
        else if first = CHR ''T'' then char_between CHR ''A'' CHR ''U'' second \<or> second \<in> set ''YZ''
        else if first = CHR ''U'' then is_ascii_uppercase second
        else if first = CHR ''V'' then
          char_between CHR ''A'' CHR ''G'' second \<or> char_between CHR ''H'' CHR ''N'' second \<or> second = CHR ''O'' \<or>
          char_between CHR ''P'' CHR ''Q'' second \<or> second \<in> set ''RSU'' \<or> char_between CHR ''X'' CHR ''Z'' second
        else if first = CHR ''X'' then
          char_between CHR ''A'' CHR ''I'' second \<or> char_between CHR ''J'' CHR ''O'' second \<or> second = CHR ''P'' \<or>
          char_between CHR ''Q'' CHR ''R'' second \<or> second \<in> set ''STUVWX'' \<or> char_between CHR ''Y'' CHR ''Z'' second
        else if first = CHR ''Y'' then is_ascii_uppercase second
        else if first = CHR ''Z'' then char_between CHR ''A'' CHR ''U'' second \<or> char_between CHR ''V'' CHR ''Z'' second
        else False)"

definition is_allocated_prefix_letter_digit :: "string \<Rightarrow> bool" where
  "is_allocated_prefix_letter_digit pfx =
     (if length pfx \<noteq> 2 \<or> \<not> is_ascii_alphabetic (pfx ! 0) \<or> \<not> is_ascii_digit (pfx ! 1) then False
      else pfx \<in> set [''A2'', ''A3'', ''A4'', ''A5'', ''A6'', ''A7'', ''A9'', ''H4'',
                         ''L2'', ''L3'', ''L4'', ''L5'', ''L6'', ''L7'', ''L8'', ''L9'', ''P2'', ''P4'', ''P5'',
                         ''O2'', ''O3'', ''O4'', ''O5'', ''O6'', ''O7'', ''O8'', ''O9''])"

definition is_allocated_prefix_2char_numeric :: "string \<Rightarrow> bool" where
  "is_allocated_prefix_2char_numeric pfx =
     (if length pfx \<noteq> 2 \<or> \<not> is_ascii_alphabetic (pfx ! 1) then False
      else
        let first = pfx ! 0; second = to_ascii_upper (pfx ! 1) in
        if first = CHR ''2'' then second \<in> set ''DEIJMW''
        else if first = CHR ''3'' then second \<in> set ''ABCDGVWXYZ''
        else if first = CHR ''4'' then second \<in> set ''JKLMOSUVWXZ''
        else if first = CHR ''5'' then second \<in> set ''ABCHINORSTUVWXYZ''
        else if first = CHR ''6'' then char_between CHR ''K'' CHR ''N'' second \<or> second \<in> set ''OVWY''
        else if first = CHR ''7'' then
          char_between CHR ''J'' CHR ''N'' second \<or> second \<in> set ''OPQRS'' \<or> char_between CHR ''T'' CHR ''Y'' second \<or>
          second = CHR ''Z''
        else if first = CHR ''8'' then char_between CHR ''J'' CHR ''N'' second \<or> second \<in> set ''PQRS''
        else if first = CHR ''9'' then
          second \<in> set ''AGHIJKLMN'' \<or> char_between CHR ''O'' CHR ''T'' second \<or> second \<in> set ''UVWXYZ''
        else False)"

definition is_valid_itu_prefix :: "string \<Rightarrow> bool" where
  "is_valid_itu_prefix chars =
     (if length chars < 3 then False
      else if is_ascii_digit (chars ! 0) then is_allocated_prefix_2char_numeric (take 2 chars)
      else if is_ascii_alphabetic (chars ! 0) \<and> is_ascii_digit (chars ! 1) then
        (if is_allocated_prefix_1char (chars ! 0) then True else is_allocated_prefix_letter_digit (take 2 chars))
      else if is_ascii_alphabetic (chars ! 0) \<and> is_ascii_alphabetic (chars ! 1) then
        is_allocated_prefix_2char_alpha (take 2 chars)
      else False)"

section \<open>Fields\<close>

definition is_valid_cq_modifier :: "string \<Rightarrow> bool" where
  "is_valid_cq_modifier modifier =
     (if modifier = [] then True
      else if to_upper modifier \<in> set [''DX'', ''NA'', ''SA'', ''EU'', ''AS'', ''AF'', ''OC'', ''QRP'', ''POTA'', ''SOTA'',
                                       ''FD'', ''RU'', ''TEST''] then True
      else let len = length modifier in
        if \<not> (1 \<le> len \<and> len \<le> 4) then False
        else if len \<le> 3 \<and> list_all is_ascii_digit modifier then True
        else if len \<le> 3 \<and> list_all is_ascii_alphabetic modifier then True
        else False)"

definition looks_like_callsign :: "string \<Rightarrow> bool" where
  "looks_like_callsign s =
     (if starts_with s ''<'' then True
      else
        let chars = hd (split_char CHR ''/'' s); len = length chars in
        if \<not> (3 \<le> len \<and> len \<le> 6) then False
        else if \<not> list_all is_ascii_alphanumeric chars then False
        else case rposition is_ascii_digit chars of
               Some pos \<Rightarrow>
                 if len - pos - 1 < 1 then False
                 else if \<not> list_all is_ascii_alphabetic (drop (pos + 1) chars) then False
                 else if 2 < pos then False
                 else if 2 < length (filter is_ascii_digit chars) then False
                 else if \<not> is_valid_itu_prefix chars then False
                 else True
             | None \<Rightarrow> False)"

definition looks_like_nonstandard_callsign :: "string \<Rightarrow> bool" where
  "looks_like_nonstandard_callsign s =
     (if s = ''CQ'' then True
      else if starts_with s ''<'' \<and> ends_with s ''>'' \<and> 2 \<le> length s then True
      else if \<not> (3 \<le> length s \<and> length s \<le> 11) then False
      else if \<not> list_all (\<lambda>c. is_ascii_alphanumeric c \<or> c = CHR ''/'') s then False
      else list_ex is_ascii_digit s \<and> list_ex is_ascii_alphabetic s)"

definition is_valid_4char_maidenhead :: "string \<Rightarrow> bool" where
  "is_valid_4char_maidenhead chars =
     (if length chars \<noteq> 4 then False
      else char_between CHR ''A'' CHR ''R'' (chars ! 0) \<and> char_between CHR ''A'' CHR ''R'' (chars ! 1) \<and>
           is_ascii_digit (chars ! 2) \<and> is_ascii_digit (chars ! 3))"

section \<open>Messages\<close>

definition has_plausible_payload :: "ft8_message \<Rightarrow> bool" where
  "has_plausible_payload msg =
     (if m_type msg \<noteq> Standard then True
      else if (case m_to msg of Some t \<Rightarrow> t = ''CQ'' \<or> starts_with t ''CQ '' | None \<Rightarrow> False) then True
      else case m_standard msg of
             None \<Rightarrow> False
           | Some stype \<Rightarrow>
               (case stype of
                  St_Cq \<Rightarrow> (case m_special msg of None \<Rightarrow> True | Some x \<Rightarrow> is_valid_cq_modifier x)
                | Rrr \<Rightarrow> True
                | RR73 \<Rightarrow> True
                | Final73 \<Rightarrow> True
                | Reply \<Rightarrow> (case m_grid msg of Some g \<Rightarrow> is_valid_4char_maidenhead g | None \<Rightarrow> True)
                | ReplyWithR \<Rightarrow> (case m_grid msg of Some g \<Rightarrow> is_valid_4char_maidenhead g | None \<Rightarrow> True)
                | Report \<Rightarrow> (case m_report msg of Some r \<Rightarrow> - 50 \<le> r \<and> r \<le> 49 | None \<Rightarrow> False)
                | ReportWithR \<Rightarrow> (case m_report msg of Some r \<Rightarrow> - 50 \<le> r \<and> r \<le> 49 | None \<Rightarrow> False)))"

text \<open>The calls that are present, the sender first.\<close>

definition present_calls :: "ft8_message \<Rightarrow> string list" where
  "present_calls msg = List.map_filter id [m_from msg, m_to msg]"

definition is_plausible :: "ft8_message \<Rightarrow> bool" where
  "is_plausible msg =
     (let calls = present_calls msg;
          std = (if calls = [] then False
                 else if \<not> list_all looks_like_callsign calls then False
                 else if length calls = 2 \<and> list_all (\<lambda>c. CHR ''/'' \<in> set c) calls then False
                 else if \<not> has_plausible_payload msg then False
                 else True)
      in case m_type msg of
           Unknown \<Rightarrow> False
         | FreeText \<Rightarrow> False
         | Telemetry \<Rightarrow> False
         | Contest \<Rightarrow> False
         | FieldDay \<Rightarrow> False
         | RTTYRoundup \<Rightarrow> False
         | DXpedition \<Rightarrow> False
         | NonStdCall \<Rightarrow> if calls = [] then False else list_all looks_like_nonstandard_callsign calls
         | Standard \<Rightarrow> std
         | Extended \<Rightarrow> std)"

definition suspicion_score :: "ft8_message \<Rightarrow> nat" where
  "suspicion_score msg =
     (let calls = present_calls msg in
      (if length calls = 2 \<and> list_all (\<lambda>c. length (filter (\<lambda>x. x \<noteq> CHR ''/'') c) = 6) calls then 1 else 0) +
      (if list_ex (\<lambda>c. CHR ''/'' \<in> set c) calls then 1 else 0) +
      (case m_special msg of
         Some op \<Rightarrow>
           if op \<notin> set [''DX'', ''NA'', ''EU'', ''AS'', ''AF'', ''SA'', ''OC'', ''AN'', ''RU'', ''POTA'', ''SOTA'', ''QRP'', ''FD'',
                          ''TU'', ''TEST''] \<and> \<not> list_all is_ascii_digit op
           then 2 else 0
       | None \<Rightarrow> 0))"

section \<open>The parser\<close>

record message_parser =
  mp_hash_table :: hash_table
  active_hound :: bool

definition message_parser_new :: message_parser where
  "message_parser_new = \<lparr> mp_hash_table = hash_table_new, active_hound = False \<rparr>"

definition parser_add_callsign :: "message_parser \<Rightarrow> string \<Rightarrow> message_parser" where
  "parser_add_callsign p callsign = p \<lparr> mp_hash_table := add_callsign (mp_hash_table p) callsign \<rparr>"

definition set_hound_foxes :: "message_parser \<Rightarrow> string list \<Rightarrow> message_parser" where
  "set_hound_foxes p foxes = foldl parser_add_callsign (p \<lparr> active_hound := (foxes \<noteq> []) \<rparr>) foxes"

definition parser_is_plausible :: "message_parser \<Rightarrow> ft8_message \<Rightarrow> bool" where
  "parser_is_plausible p msg =
     (if m_type msg \<noteq> DXpedition then is_plausible msg
      else active_hound p \<and>
        (case m_dxpedition msg of
           Some c \<Rightarrow> looks_like_callsign (rr73_to c) \<and> looks_like_callsign (report_to c) \<and> fox_hash10 c < 1024 \<and>
                     - 30 \<le> report_db c \<and> report_db c \<le> 32 \<and> trunc_rem (report_db c) 2 = 0
         | None \<Rightarrow> False))"

text \<open>Two examples from the documentation: \<open>XO4XKQ\<close>, named as a false positive that the prefix check eliminates, is
  accepted, and \<open>3DA0WW\<close>, named as a valid call, is rejected.\<close>

lemma documented_prefix_examples:
  "looks_like_callsign ''XO4XKQ'' \<and> \<not> looks_like_callsign ''3DA0WW'' \<and> looks_like_callsign ''W1AW'' \<and>
   \<not> looks_like_callsign ''H63SII''"
  by code_simp

end
