(* ===== verification/Codec.thy ===== *)
theory Codec
  imports Encoder
begin

text \<open>
  The encoder of \<open>pancetta-ft8/src/encoder.rs\<close> against the parser of \<open>pancetta-ft8/src/message.rs\<close>: the payload
  layouts the two sides agree on, and what a receiver reads from each kind of message a station sends.
\<close>

section \<open>Fields of a payload\<close>

lemma unpack_msb_bytes:
  "unpack_msb 77 [b0, b1, b2, b3, b4, b5, b6, b7, b8, b9] =
     word_to_bits 8 b0 @ word_to_bits 8 b1 @ word_to_bits 8 b2 @ word_to_bits 8 b3 @ word_to_bits 8 b4 @
     word_to_bits 8 b5 @ word_to_bits 8 b6 @ word_to_bits 8 b7 @ word_to_bits 8 b8 @ take 5 (word_to_bits 8 b9)"
  by (simp add: unpack_msb_def get_msb_bit word_to_bits_8 upt_rec)

lemma standard_bytes_bits:
  assumes "unat n29b < 2 ^ 29" "unat ir < 2 ^ 1" "unat igrid4 < 2 ^ 15" "unat i3 < 2 ^ 3"
  shows "unpack_msb 77 (standard_bytes n29a n29b ir igrid4 i3) =
    word_to_bits 29 n29a @ word_to_bits 29 n29b @ word_to_bits 1 ir @ word_to_bits 15 igrid4 @ word_to_bits 3 i3"
proof -
  note above = assms [THEN not_bit_above]
  have a: "word_to_bits 29 n29a =
    word_to_bits 8 (drop_bit 21 n29a) @ word_to_bits 8 (drop_bit 13 n29a) @ word_to_bits 8 (drop_bit 5 n29a) @ word_to_bits 5 n29a"
    using word_to_bits_split [of 8 21 n29a] word_to_bits_split [of 8 13 n29a] word_to_bits_split [of 8 5 n29a] by simp
  have b: "word_to_bits 29 n29b =
    word_to_bits 3 (drop_bit 26 n29b) @ word_to_bits 8 (drop_bit 18 n29b) @ word_to_bits 8 (drop_bit 10 n29b) @
    word_to_bits 8 (drop_bit 2 n29b) @ word_to_bits 2 n29b"
    using word_to_bits_split [of 3 26 n29b] word_to_bits_split [of 8 18 n29b] word_to_bits_split [of 8 10 n29b]
      word_to_bits_split [of 8 2 n29b] by simp
  have g: "word_to_bits 15 igrid4 = word_to_bits 5 (drop_bit 10 igrid4) @ word_to_bits 8 (drop_bit 2 igrid4) @ word_to_bits 2 igrid4"
    using word_to_bits_split [of 5 10 igrid4] word_to_bits_split [of 8 2 igrid4] by simp
  have "word_to_bits 8 (ucast (push_bit 3 n29a) OR ucast (drop_bit 26 n29b) :: u8) = word_to_bits 5 n29a @ word_to_bits 3 (drop_bit 26 n29b)"
    using word_to_bits_or_field [of 3 "ucast (drop_bit 26 n29b) :: u8" 5 "ucast n29a"] above(1)
    by (simp add: ucast_push_bit word_to_bits_ucast bit_ucast_iff bit_drop_bit_eq)
  moreover have "word_to_bits 8 (ucast (push_bit 6 n29b) OR push_bit 5 ir OR ucast (drop_bit 10 igrid4) :: u8) =
      word_to_bits 2 n29b @ word_to_bits 1 ir @ word_to_bits 5 (drop_bit 10 igrid4)"
    using word_to_bits_or_field [of 6 "push_bit 5 ir OR ucast (drop_bit 10 igrid4) :: u8" 2 "ucast n29b"]
      word_to_bits_or_field [of 5 "ucast (drop_bit 10 igrid4) :: u8" 1 ir] above(2,3)
    by (simp add: ucast_push_bit word_to_bits_ucast bit_ucast_iff bit_drop_bit_eq bit_or_iff bit_push_bit_iff)
  moreover have "take 5 (word_to_bits 8 (ucast (push_bit 6 igrid4) OR push_bit 3 i3 :: u8)) = word_to_bits 2 igrid4 @ word_to_bits 3 i3"
    using word_to_bits_or_field [of 6 "push_bit 3 i3" 2 "ucast igrid4"]
      word_to_bits_push [of 3 3 i3] above(4)
    by (simp add: ucast_push_bit word_to_bits_ucast bit_push_bit_iff)
  ultimately show ?thesis
    by (simp add: standard_bytes_def unpack_msb_bytes a b g word_to_bits_ucast)
qed

lemmas field_slices = slice_append_left slice_append_right slice_def nth_append bits_to_u32_def bits_to_u64_def
  bits_to_word_field take_bit_word_small

lemma suffix_flag:
  fixes n28 :: u32
  assumes "n28 < 2 ^ 28" and "ip = 0 \<or> ip = (1::u8)"
  shows "drop_bit 1 (push_bit 1 n28 OR ucast ip) = n28" and "ucast ((push_bit 1 n28 OR ucast ip) AND 1) = ip"
    and "unat (push_bit 1 n28 OR ucast ip) < 2 ^ 29"
proof -
  have hi: "unat n28 < 2 ^ 28" using assms(1) by (simp add: word_less_nat_alt)
  have lt: "k < 28" "k < 31" if "bit n28 k" for k using not_bit_above [OF hi, of k] that by linarith+
  show "drop_bit 1 (push_bit 1 n28 OR ucast ip) = n28"
    using assms(2) by (intro bit_word_eqI) (auto simp: bit_simps dest: lt simp del: One_nat_def push_bit_Suc)
  show "ucast ((push_bit 1 n28 OR ucast ip) AND 1) = ip"
    using assms(2) by (intro bit_word_eqI) (auto simp: bit_simps simp del: One_nat_def push_bit_Suc)
  show "unat (push_bit 1 n28 OR ucast ip) < 2 ^ 29"
    using assms(2) not_bit_above [OF hi]
    by (intro unat_less_bits) (auto simp: bit_simps simp del: One_nat_def push_bit_Suc)
qed

lemma parse_standard_bytes:
  assumes "n28a < 2 ^ 28" "n28b < 2 ^ 28" "ipa = 0 \<or> ipa = 1" "ipb = 0 \<or> ipb = 1" "ir = 0 \<or> ir = 1" "unat igrid4 < 2 ^ 15"
    and "payload = unpack_msb 77 (standard_bytes (push_bit 1 n28a OR ucast ipa) (push_bit 1 n28b OR ucast ipb) ir igrid4 1)"
  shows "parse_payload ht payload =
    Inr (fill_standard (unpack28 n28a) ipa (unpack28 n28b) ipb ir (unpackgrid igrid4 ir)
          (default_message \<lparr> m_payload := payload, m_type := Standard \<rparr>))"
proof -
  define n29a where "n29a = push_bit 1 n28a OR ucast ipa"
  define n29b where "n29b = push_bit 1 n28b OR ucast ipb"
  note a = suffix_flag [OF assms(1,3), folded n29a_def] and b = suffix_flag [OF assms(2,4), folded n29b_def]
  have ir: "unat ir < 2 ^ 1" using assms(5) by auto
  have p: "payload = word_to_bits 29 n29a @ word_to_bits 29 n29b @ word_to_bits 1 ir @ word_to_bits 15 igrid4 @
    word_to_bits 3 (1::u8)"
    unfolding assms(7) n29a_def [symmetric] n29b_def [symmetric]
    using b(3) ir assms(6) by (intro standard_bytes_bits) simp_all
  have f: "bits_to_u32 (slice 0 29 payload) = n29a" "bits_to_u32 (slice 29 58 payload) = n29b" "payload ! 58 \<longleftrightarrow> ir = 1"
    "bits_to_u32 (slice 59 74 payload) = ucast igrid4" "bits_to_u32 (slice 74 77 payload) = 1"
    unfolding p using a(3) b(3) assms(5,6) by (auto simp: field_slices nth_word_to_bits)
  have "ucast (ucast igrid4 :: u32) = igrid4" by (rule bit_word_eqI) (auto simp: bit_simps)
  moreover have "length payload = 77" by (simp add: p)
  ultimately show ?thesis
    unfolding parse_payload_def parse_type1_standard_def Let_def f
    using a b assms(5) by (auto simp: PAYLOAD_BITS_def)
qed

section \<open>Standard messages\<close>

text \<open>What a standard message can say after the two calls, with its text.\<close>

datatype exchange =
  No_Exchange | Grid string | R_Grid string | Db int | R_Db int | Ex_RRR | Ex_RR73 | Ex_73

fun exchange_words :: "exchange \<Rightarrow> string" where
  "exchange_words No_Exchange = []"
| "exchange_words (Grid g) = '' '' @ g"
| "exchange_words (R_Grid g) = '' R '' @ g"
| "exchange_words (Db d) = '' '' @ plus03 d"
| "exchange_words (R_Db d) = '' R'' @ plus03 d"
| "exchange_words Ex_RRR = '' RRR''"
| "exchange_words Ex_RR73 = '' RR73''"
| "exchange_words Ex_73 = '' 73''"

fun exchange_ok :: "exchange \<Rightarrow> bool" where
  "exchange_ok (Grid g) \<longleftrightarrow> is_grid4 g \<and> g \<noteq> ''RR73''"
| "exchange_ok (R_Grid g) \<longleftrightarrow> is_grid4 g \<and> g \<noteq> ''RR73''"
| "exchange_ok (Db d) \<longleftrightarrow> - 30 \<le> d \<and> d \<le> 30"
| "exchange_ok (R_Db d) \<longleftrightarrow> - 30 \<le> d \<and> d \<le> 30"
| "exchange_ok _ \<longleftrightarrow> True"

fun exchange_kind :: "exchange \<Rightarrow> standard_message_type" where
  "exchange_kind No_Exchange = Reply"
| "exchange_kind (Grid g) = Reply"
| "exchange_kind (R_Grid g) = ReplyWithR"
| "exchange_kind (Db d) = Report"
| "exchange_kind (R_Db d) = ReportWithR"
| "exchange_kind Ex_RRR = Rrr"
| "exchange_kind Ex_RR73 = RR73"
| "exchange_kind Ex_73 = Final73"

fun exchange_grid :: "exchange \<Rightarrow> string option" where
  "exchange_grid (Grid g) = Some g"
| "exchange_grid (R_Grid g) = Some g"
| "exchange_grid _ = None"

fun exchange_report :: "exchange \<Rightarrow> int option" where
  "exchange_report (Db d) = Some d"
| "exchange_report (R_Db d) = Some d"
| "exchange_report _ = None"

text \<open>The exchange field and the subtype and fields the parser derives from it.\<close>

definition extra_of :: "exchange \<Rightarrow> string" where
  "extra_of x = drop 1 (exchange_words x)"

lemma plus03_report:
  assumes "- 30 \<le> d" "d \<le> 30"
  shows "parse_report (plus03 d) = Some d" and "nonblank (plus03 d)" and "plus03 d ! 0 \<noteq> CHR ''R''"
proof -
  define s where "s = nat_to_dec (nat \<bar>d\<bar>)"
  define body where "body = replicate (2 - length s) CHR ''0'' @ s"
  have p: "plus03 d = (if d < 0 then CHR ''-'' else CHR ''+'') # body" by (simp add: plus03_def body_def s_def Let_def)
  have body: "body \<noteq> []" "list_all is_ascii_digit body" "dec_value body = nat \<bar>d\<bar>"
    using nat_to_dec_digits [of "nat \<bar>d\<bar>"] by (auto simp: body_def s_def list_all_iff dec_value_zeros is_ascii_digit_def)
  show "parse_report (plus03 d) = Some d"
    using assms body by (auto simp: p parse_report_def parse_i32_def Let_def)
  show "nonblank (plus03 d)"
    using body(2) by (auto simp: p nonblank_def list_all_iff is_ascii_digit_def is_whitespace_def)
  show "plus03 d ! 0 \<noteq> CHR ''R''" by (simp add: p)
qed

lemma exchange_field:
  assumes "exchange_ok x"
  defines "field \<equiv> packgrid (extra_of x)"
  shows "field AND 0x8000 = 0 \<longleftrightarrow> (case x of R_Grid _ \<Rightarrow> False | R_Db _ \<Rightarrow> False | _ \<Rightarrow> True)"
    and "unpackgrid (field AND 0x7FFF) ir =
      (exchange_grid x, exchange_report x,
       case x of Ex_RRR \<Rightarrow> Some ''RRR'' | Ex_RR73 \<Rightarrow> Some ''RR73'' | Ex_73 \<Rightarrow> Some ''73'' | _ \<Rightarrow> None)"
  using assms(1) grid_field [of _ ir] report_field [OF plus03_report(1), of _ ir] token_field(1) [of _ ir] token_field(2) [of ir]
  unfolding field_def by (cases x; simp add: extra_of_def)+

text \<open>Calls that fit the standard form: what \<open>pack28\<close> packs, without the rewritten prefixes, and without a suffix
  on the calls whose suffix the receiver does not render.\<close>

definition token_like :: "string \<Rightarrow> bool" where
  "token_like c \<longleftrightarrow> starts_with c ''CQ'' \<or> starts_with c ''DE'' \<or> starts_with c ''QRZ''"

definition plain_call :: "string \<Rightarrow> bool" where
  "plain_call c \<longleftrightarrow> nonblank c \<and> std_callsign c \<and> c \<notin> {''DE'', ''QRZ'', ''CQ''} \<and>
     \<not> rewritten_prefix (fst (strip_portable c)) \<and>
     (snd (strip_portable c) = 1 \<longrightarrow> \<not> token_like (fst (strip_portable c)))"

definition heard_call :: "string \<Rightarrow> string" where
  "heard_call c = fst (strip_portable c) @ (if snd (strip_portable c) = 1 then ''/P'' else [])"

lemma plain_call_packs:
  assumes "plain_call c"
  obtains n28 ip where "pack28 c = Inr (n28, ip)" "unpack28 n28 = CallField (fst (strip_portable c))"
    "n28 < 2 ^ 28" "ip = 0 \<or> ip = 1" "apply_suffix (Some (fst (strip_portable c))) ip = Some (heard_call c)"
proof -
  obtain n28 ip where p: "pack28 c = Inr (n28, ip)" using assms by (auto simp: plain_call_def std_callsign_def split: sum.splits)
  have "\<forall>x\<in>set c. \<not> is_whitespace x" using assms by (simp add: plain_call_def nonblank_def list_all_iff)
  then have u: "unpack28 n28 = CallField (fst (strip_portable c))" "ip = snd (strip_portable c)" "n28 < 2 ^ 28"
    using pack28_call [OF p] assms by (auto simp: plain_call_def)
  have "ip = 0 \<or> ip = 1" using u(2) by (simp add: strip_portable_def)
  then show thesis
    using p u assms by (intro that [of n28 ip]) (auto simp: apply_suffix_def heard_call_def plain_call_def token_like_def)
qed

lemma grid4_nonblank: "is_grid4 g \<Longrightarrow> nonblank g"
  by (cases g rule: list.exhaust)
    (auto simp: nonblank_def is_grid4_def list_all_length less_Suc_eq numeral_eq_Suc is_whitespace_def char_between_def is_ascii_digit_def)

lemma is_grid4_not_R: "is_grid4 g \<Longrightarrow> g \<noteq> ''R''"
  by (auto simp: is_grid4_def)

text \<open>The words of a standard message and the triple the encoder makes of them.\<close>

lemma split_exchange:
  assumes "nonblank a" "nonblank b" "exchange_ok x"
  shows "split_whitespace (a @ '' '' @ b @ exchange_words x) =
    a # b # (case x of No_Exchange \<Rightarrow> [] | R_Grid g \<Rightarrow> [''R'', g] | _ \<Rightarrow> [extra_of x])"
proof -
  note words = split_whitespace_word [OF assms(1)] split_whitespace_word [OF assms(2)]
  have tok: "nonblank ''RRR''" "nonblank ''RR73''" "nonblank ''73''" "nonblank ''R''" by code_simp+
  have rdb: "nonblank (CHR ''R'' # plus03 d)" if "- 30 \<le> d" "d \<le> 30" for d
    using plus03_report(2) [OF that] by (simp add: nonblank_def is_whitespace_def)
  have extra: "exchange_words x = (if x = No_Exchange then [] else '' '' @ extra_of x)"
    by (cases x) (simp_all add: extra_of_def)
  have "split_whitespace (extra_of x) = (case x of No_Exchange \<Rightarrow> [] | R_Grid g \<Rightarrow> [''R'', g] | _ \<Rightarrow> [extra_of x])" if "x \<noteq> No_Exchange"
    using assms(3) that tok rdb split_whitespace_word [OF tok(4)]
    by (cases x) (simp_all add: extra_of_def split_whitespace_last grid4_nonblank plus03_report)
  then show ?thesis
    unfolding words(1) extra using split_whitespace_last [OF assms(2)]
    by (cases "x = No_Exchange") (simp_all only: words(2) if_True if_False append_Nil2 exchange.case simp_thms)
qed

lemma parse_standard_exchange:
  assumes "nonblank a" "nonblank b" "a \<noteq> ''CQ''" "exchange_ok x"
  shows "parse_standard_message (split_whitespace (a @ '' '' @ b @ exchange_words x)) = Inr (a, b, extra_of x)"
    and "split_whitespace (a @ '' '' @ b @ exchange_words x) \<noteq> []"
  unfolding split_exchange [OF assms(1,2,4)] using assms(3,4) plus03_report(3)
  by (cases x; auto simp: parse_standard_message_def extra_of_def is_grid4_not_R)+

lemma encode_standard_parses:
  assumes "split_whitespace txt \<noteq> []" "parse_standard_message (split_whitespace txt) = Inr (a, b, extra)"
    and "pack28 a = Inr (n28a, ipa)" "pack28 b = Inr (n28b, ipb)"
    and "n28a < 2 ^ 28" "n28b < 2 ^ 28" "ipa = 0 \<or> ipa = 1" "ipb = 0 \<or> ipb = 1"
  obtains payload where "try_encode_standard txt = Inr payload"
    "\<And>ht. parse_payload ht (unpack_msb 77 payload) =
       (let ir = (if packgrid extra AND 0x8000 \<noteq> 0 then 1 else 0) in
        Inr (fill_standard (unpack28 n28a) ipa (unpack28 n28b) ipb ir (unpackgrid (packgrid extra AND 0x7FFF) ir)
          (default_message \<lparr> m_payload := unpack_msb 77 payload, m_type := Standard \<rparr>)))"
proof -
  define ir :: u8 where "ir = (if packgrid extra AND 0x8000 \<noteq> 0 then 1 else 0)"
  have ir: "ir = 0 \<or> ir = 1" by (simp add: ir_def)
  have "packgrid extra AND 0x7FFF = take_bit 15 (packgrid extra)" by (simp add: take_bit_eq_mask mask_eq_exp_minus_1)
  then have g: "unat (packgrid extra AND 0x7FFF) < 2 ^ 15"
    using take_bit_nat_less_exp [of 15 "unat (packgrid extra)"] by (simp add: unsigned_take_bit_eq)
  show thesis
    using assms(1-4) parse_standard_bytes [OF assms(5-8) ir g refl]
    by (intro that) (auto simp: try_encode_standard_def Let_def ir_def [symmetric] cong: if_cong)
qed

lemma encoded_on_air:
  assumes "encode_payload (trim (to_upper txt)) = Inr payload"
  obtains ss where "encode_message txt = Some (Inr ss)" "length ss = 79"
    "verify_syndrome (hard_decision ft8_params ss)" "verify_crc14 (take 91 (hard_decision ft8_params ss))"
    "take 77 (hard_decision ft8_params ss) = unpack_msb 77 payload"
  using payload_on_air [of payload] assms by (auto simp: encode_message_def)

lemma fill_standard_exchange:
  fixes p :: "bool list"
  assumes ok: "exchange_ok x" and suf: "apply_suffix (Some ca) ipa = Some ha" "apply_suffix (Some cb) ipb = Some hb"
  defines "ir \<equiv> (if packgrid (extra_of x) AND 0x8000 \<noteq> 0 then 1 else 0)"
  defines "msg \<equiv> fill_standard (CallField ca) ipa (CallField cb) ipb ir (unpackgrid (packgrid (extra_of x) AND 0x7FFF) ir)
      (default_message \<lparr> m_payload := p, m_type := Standard \<rparr>)"
  shows "m_type msg = Standard \<and> m_standard msg = Some (exchange_kind x) \<and> m_to msg = Some ha \<and>
    m_from msg = Some (if x = No_Exchange then cb else hb) \<and> m_grid msg = exchange_grid x \<and>
    m_report msg = exchange_report x"
proof -
  have ir: "ir = (case x of R_Grid _ \<Rightarrow> 1 | R_Db _ \<Rightarrow> 1 | _ \<Rightarrow> 0)"
    unfolding ir_def using exchange_field(1) [OF ok] by (cases x) simp_all
  show ?thesis
    unfolding msg_def exchange_field(2) [OF ok] ir fill_standard_def Let_def default_message_def to_callsign.simps suf
    using ok by (cases x) simp_all
qed

lemma standard_on_air:
  assumes "trim (to_upper txt) = a @ '' '' @ b @ exchange_words x"
    and "plain_call a" and "plain_call b" and "exchange_ok x"
  shows "\<exists>ss msg. encode_message txt = Some (Inr ss) \<and> length ss = 79 \<and>
    verify_syndrome (hard_decision ft8_params ss) \<and> verify_crc14 (take 91 (hard_decision ft8_params ss)) \<and>
    parse_payload ht (take 77 (hard_decision ft8_params ss)) = Inr msg \<and>
    m_type msg = Standard \<and> m_standard msg = Some (exchange_kind x) \<and>
    m_to msg = Some (heard_call a) \<and>
    m_from msg = Some (if x = No_Exchange then fst (strip_portable b) else heard_call b) \<and>
    m_grid msg = exchange_grid x \<and> m_report msg = exchange_report x"
proof -
  let ?txt = "trim (to_upper txt)"
  have ab: "nonblank a" "nonblank b" "a \<noteq> ''CQ''" using assms(2,3) by (auto simp: plain_call_def)
  note words = parse_standard_exchange [OF ab assms(4), folded assms(1)]
  obtain n28a ipa where a: "pack28 a = Inr (n28a, ipa)" "unpack28 n28a = CallField (fst (strip_portable a))"
    "n28a < 2 ^ 28" "ipa = 0 \<or> ipa = 1" "apply_suffix (Some (fst (strip_portable a))) ipa = Some (heard_call a)"
    using plain_call_packs [OF assms(2)] .
  obtain n28b ipb where b: "pack28 b = Inr (n28b, ipb)" "unpack28 n28b = CallField (fst (strip_portable b))"
    "n28b < 2 ^ 28" "ipb = 0 \<or> ipb = 1" "apply_suffix (Some (fst (strip_portable b))) ipb = Some (heard_call b)"
    using plain_call_packs [OF assms(3)] .
  obtain payload where p: "try_encode_standard ?txt = Inr payload"
    "\<And>ht. parse_payload ht (unpack_msb 77 payload) =
       (let ir = (if packgrid (extra_of x) AND 0x8000 \<noteq> 0 then 1 else 0) in
        Inr (fill_standard (unpack28 n28a) ipa (unpack28 n28b) ipb ir (unpackgrid (packgrid (extra_of x) AND 0x7FFF) ir)
          (default_message \<lparr> m_payload := unpack_msb 77 payload, m_type := Standard \<rparr>)))"
    using encode_standard_parses [OF words(2,1) a(1) b(1) a(3) b(3) a(4) b(4)] by blast
  then have "encode_payload ?txt = Inr payload" by (simp add: encode_payload_def)
  then obtain ss where ss: "encode_message txt = Some (Inr ss)" "length ss = 79"
    "verify_syndrome (hard_decision ft8_params ss)" "verify_crc14 (take 91 (hard_decision ft8_params ss))"
    "take 77 (hard_decision ft8_params ss) = unpack_msb 77 payload" by (rule encoded_on_air)
  have "parse_payload ht (take 77 (hard_decision ft8_params ss)) =
    (let ir = (if packgrid (extra_of x) AND 0x8000 \<noteq> 0 then 1 else 0) in
        Inr (fill_standard (CallField (fst (strip_portable a))) ipa (CallField (fst (strip_portable b))) ipb ir
          (unpackgrid (packgrid (extra_of x) AND 0x7FFF) ir)
          (default_message \<lparr> m_payload := unpack_msb 77 payload, m_type := Standard \<rparr>)))"
    unfolding ss(5) p(2) a(2) b(2) ..
  then show ?thesis
    unfolding Let_def using ss(1-4) fill_standard_exchange [OF assms(4) a(5) b(5)] by blast
qed

text \<open>C2: standard messages, end to end. A text whose upper-case form is two calls of the standard form and an exchange is
  encoded; the symbols carry a codeword whose parity and CRC check, and the parser reads from its payload
  the two calls (a rover suffix is heard as a portable one, and the sender's suffix is lost in a message with no
  exchange), the message type, the grid and the report that were sent.\<close>

theorem standard_message_roundtrip:
  assumes "trim (to_upper txt) = a @ '' '' @ b @ exchange_words x"
    and "plain_call a" and "plain_call b" and "exchange_ok x"
  shows "\<exists>ss msg. encode_message txt = Some (Inr ss) \<and> length ss = 79 \<and>
    verify_syndrome (hard_decision ft8_params ss) \<and> verify_crc14 (take 91 (hard_decision ft8_params ss)) \<and>
    parse_payload ht (take 77 (hard_decision ft8_params ss)) = Inr msg \<and>
    m_type msg = Standard \<and> m_standard msg = Some (exchange_kind x) \<and>
    m_to msg = Some (heard_call a) \<and>
    m_from msg = Some (if x = No_Exchange then fst (strip_portable b) else heard_call b) \<and>
    m_grid msg = exchange_grid x \<and> m_report msg = exchange_report x"
  using assms by (rule standard_on_air)

theorem standard_message_roundtrip_witness:
  "\<exists>ss msg. encode_message ''w1abc k9xyz/r r-07'' = Some (Inr ss) \<and>
     parse_payload hash_table_new (take 77 (hard_decision ft8_params ss)) = Inr msg \<and>
     m_standard msg = Some ReportWithR \<and> m_to msg = Some ''W1ABC'' \<and> m_from msg = Some ''K9XYZ/P'' \<and>
     m_report msg = Some (- 7)"
proof -
  have "trim (to_upper ''w1abc k9xyz/r r-07'') = ''W1ABC'' @ '' '' @ ''K9XYZ/R'' @ exchange_words (R_Db (- 7))"
    "plain_call ''W1ABC''" "plain_call ''K9XYZ/R''" "exchange_ok (R_Db (- 7))"
    "heard_call ''W1ABC'' = ''W1ABC''" "heard_call ''K9XYZ/R'' = ''K9XYZ/P''" by code_simp+
  with standard_message_roundtrip [OF this(1-4), of hash_table_new] show ?thesis by auto
qed

section \<open>CQ\<close>

lemma cq_packs:
  assumes "case m of None \<Rightarrow> True | Some x \<Rightarrow> is_cq_modifier x"
  defines "call_to \<equiv> ''CQ'' @ (case m of None \<Rightarrow> [] | Some x \<Rightarrow> '' '' @ x)"
  obtains n28 where "pack28 call_to = Inr (n28, 0)" "unpack28 n28 = CqField m" "n28 < 2 ^ 28"
proof (cases m)
  case None
  then show thesis by (intro that [of 2]) (simp_all add: call_to_def pack28_def unpack28_def)
next
  case (Some x)
  then have to_cq: "call_to = ''CQ '' @ x" and "is_cq_modifier x" using assms(1) by (simp_all add: call_to_def)
  have "x \<noteq> []" "length x \<le> 4" "list_all is_ascii_digit x \<and> length x = 3 \<or> list_all is_ascii_uppercase x"
    using \<open>is_cq_modifier x\<close> by (auto simp: is_cq_modifier_def is_ascii_uppercase_def)
  then have "parse_cq_modifier x \<noteq> None" by (auto simp: parse_cq_modifier_def)
  then obtain v where "parse_cq_modifier x = Some v" by blast
  with \<open>length x \<le> 4\<close> obtain n28 ip where "pack28 (''CQ '' @ x) = Inr (n28, ip)"
    by (auto simp: pack28_def starts_with_def)
  with pack28_cq [OF this] show thesis using Some to_cq that by auto
qed

lemma cq_modifier_nonblank: "is_cq_modifier m \<Longrightarrow> nonblank m"
  by (auto simp: is_cq_modifier_def nonblank_def list_all_iff is_ascii_digit_def is_ascii_uppercase_def is_whitespace_def)

definition cq_text :: "string option \<Rightarrow> string \<Rightarrow> string option \<Rightarrow> string" where
  "cq_text m b g = ''CQ'' @ '' '' @ (case m of None \<Rightarrow> [] | Some x \<Rightarrow> x @ '' '') @ b @
     (case g of None \<Rightarrow> [] | Some x \<Rightarrow> '' '' @ x)"

lemma parse_standard_cq:
  assumes "nonblank b" "case m of None \<Rightarrow> \<not> is_cq_modifier b | Some x \<Rightarrow> is_cq_modifier x"
    and "case g of None \<Rightarrow> True | Some x \<Rightarrow> is_grid4 x"
  shows "parse_standard_message (split_whitespace (cq_text m b g)) =
      Inr (''CQ'' @ (case m of None \<Rightarrow> [] | Some x \<Rightarrow> '' '' @ x), b, case g of None \<Rightarrow> [] | Some x \<Rightarrow> x)"
    and "split_whitespace (cq_text m b g) \<noteq> []"
proof -
  have "nonblank ''CQ''" by code_simp
  note cq = split_whitespace_word [OF this]
  have b: "split_whitespace (b @ (case g of None \<Rightarrow> [] | Some x \<Rightarrow> '' '' @ x)) = b # (case g of None \<Rightarrow> [] | Some x \<Rightarrow> [x])"
    using assms(3) split_whitespace_last [OF assms(1)] split_whitespace_word [OF assms(1)]
      split_whitespace_last [OF grid4_nonblank] by (cases g) simp_all
  have "split_whitespace (cq_text m b g) =
    ''CQ'' # (case m of None \<Rightarrow> [] | Some x \<Rightarrow> [x]) @ b # (case g of None \<Rightarrow> [] | Some x \<Rightarrow> [x])"
    unfolding cq_text_def cq using assms(2) b split_whitespace_word [OF cq_modifier_nonblank] by (cases m) simp_all
  then show "parse_standard_message (split_whitespace (cq_text m b g)) =
      Inr (''CQ'' @ (case m of None \<Rightarrow> [] | Some x \<Rightarrow> '' '' @ x), b, case g of None \<Rightarrow> [] | Some x \<Rightarrow> x)"
    "split_whitespace (cq_text m b g) \<noteq> []"
    using assms(2) by (cases m; cases g; simp add: parse_standard_message_def)+
qed


text \<open>C28: CQ calls, end to end. A CQ, plain or directed to a region, contest or frequency, from a call of the
  standard form with or without a grid is encoded; the receiver reads a CQ with that
  modifier, caller and grid, and nobody addressed.\<close>

theorem cq_message_roundtrip:
  assumes "trim (to_upper txt) = cq_text m b g" and "plain_call b"
    and "case m of None \<Rightarrow> \<not> is_cq_modifier b | Some x \<Rightarrow> is_cq_modifier x"
    and "case g of None \<Rightarrow> True | Some x \<Rightarrow> is_grid4 x \<and> x \<noteq> ''RR73''"
  shows "\<exists>ss msg. encode_message txt = Some (Inr ss) \<and> length ss = 79 \<and>
    verify_syndrome (hard_decision ft8_params ss) \<and> verify_crc14 (take 91 (hard_decision ft8_params ss)) \<and>
    parse_payload ht (take 77 (hard_decision ft8_params ss)) = Inr msg \<and>
    m_type msg = Standard \<and> m_standard msg = Some St_Cq \<and> m_special msg = m \<and> m_to msg = None \<and>
    m_from msg = Some (heard_call b) \<and> m_grid msg = g \<and> m_report msg = None"
proof -
  let ?txt = "trim (to_upper txt)"
  let ?x = "case g of None \<Rightarrow> No_Exchange | Some y \<Rightarrow> Grid y"
  have x: "exchange_ok ?x" "(case g of None \<Rightarrow> [] | Some x \<Rightarrow> x) = extra_of ?x" "exchange_grid ?x = g"
    using assms(4) by (simp_all add: extra_of_def split: option.splits)
  have "nonblank b" "case g of None \<Rightarrow> True | Some x \<Rightarrow> is_grid4 x"
    using assms(2,4) by (auto simp: plain_call_def split: option.splits)
  note words = parse_standard_cq [OF this(1) assms(3) this(2), folded assms(1), unfolded x(2)]
  obtain n28a where a: "pack28 (''CQ'' @ (case m of None \<Rightarrow> [] | Some x \<Rightarrow> '' '' @ x)) = Inr (n28a, 0)"
    "unpack28 n28a = CqField m" "n28a < 2 ^ 28"
    using cq_packs [of m] assms(3) by (auto split: option.splits)
  obtain n28b ipb where b: "pack28 b = Inr (n28b, ipb)" "unpack28 n28b = CallField (fst (strip_portable b))"
    "n28b < 2 ^ 28" "ipb = 0 \<or> ipb = 1" "apply_suffix (Some (fst (strip_portable b))) ipb = Some (heard_call b)"
    using plain_call_packs [OF assms(2)] .
  obtain payload where p: "try_encode_standard ?txt = Inr payload"
    "\<And>ht. parse_payload ht (unpack_msb 77 payload) =
       (let ir = (if packgrid (extra_of ?x) AND 0x8000 \<noteq> 0 then 1 else 0) in
        Inr (fill_standard (unpack28 n28a) 0 (unpack28 n28b) ipb ir (unpackgrid (packgrid (extra_of ?x) AND 0x7FFF) ir)
          (default_message \<lparr> m_payload := unpack_msb 77 payload, m_type := Standard \<rparr>)))"
    using encode_standard_parses [OF words(2,1) a(1) b(1) a(3) b(3) disjI1 [OF refl] b(4)] by blast
  then have "encode_payload ?txt = Inr payload" by (simp add: encode_payload_def)
  then obtain ss where ss: "encode_message txt = Some (Inr ss)" "length ss = 79"
    "verify_syndrome (hard_decision ft8_params ss)" "verify_crc14 (take 91 (hard_decision ft8_params ss))"
    "take 77 (hard_decision ft8_params ss) = unpack_msb 77 payload" by (rule encoded_on_air)
  have "parse_payload ht (take 77 (hard_decision ft8_params ss)) =
    Inr (default_message \<lparr> m_payload := unpack_msb 77 payload, m_type := Standard, m_standard := Some St_Cq,
           m_special := m, m_from := Some (heard_call b), m_grid := g \<rparr>)"
    unfolding ss(5) p(2) a(2) b(2) Let_def exchange_field(2) [OF x(1)] x(3) fill_standard_def to_callsign.simps b(5)
    using assms(4) by (auto simp: default_message_def split: option.splits)
  with ss(1-4) show ?thesis by (auto simp: default_message_def)
qed

theorem cq_message_roundtrip_witness:
  "\<exists>ss msg. encode_message ''cq dx k9xyz en52'' = Some (Inr ss) \<and>
     parse_payload hash_table_new (take 77 (hard_decision ft8_params ss)) = Inr msg \<and>
     m_standard msg = Some St_Cq \<and> m_special msg = Some ''DX'' \<and> m_from msg = Some ''K9XYZ'' \<and> m_grid msg = Some ''EN52''"
proof -
  have "trim (to_upper ''cq dx k9xyz en52'') = cq_text (Some ''DX'') ''K9XYZ'' (Some ''EN52'')" "plain_call ''K9XYZ''"
    "case Some ''DX'' of None \<Rightarrow> \<not> is_cq_modifier ''K9XYZ'' | Some x \<Rightarrow> is_cq_modifier x"
    "case Some ''EN52'' of None \<Rightarrow> True | Some x \<Rightarrow> is_grid4 x \<and> x \<noteq> ''RR73''"
    "heard_call ''K9XYZ'' = ''K9XYZ''" by code_simp+
  with cq_message_roundtrip [OF this(1-4), of hash_table_new] show ?thesis by auto
qed

section \<open>Nonstandard calls\<close>

lemma unpack_pack_prefix:
  "k \<le> length bits \<Longrightarrow> length bits \<le> 8 * n \<Longrightarrow> unpack_msb k (pack_msb n bits) = take k bits"
  by (intro nth_equalityI) (auto simp: unpack_msb_def get_pack_msb)

lemma n22_bound: "unat (calculate_n22 c) < 2 ^ 22"
  by (rule unat_less_bits) (auto simp: calculate_n22_def Let_def bit_simps dest: bit_imp_le_length)

lemma hash_fields: "unat (hash12 c) < 2 ^ 12" "unat (hash10 c) < 2 ^ 10"
  using not_bit_above [OF n22_bound, of _ c]
  by (simp_all only: hash12_def hash10_def) (rule unat_less_bits; simp add: bit_drop_bit_eq)+

lemma hash12_masked: "hash12 c AND 0xFFF = hash12 c"
proof -
  have "hash12 c AND 0xFFF = take_bit 12 (hash12 c)" by (simp add: take_bit_eq_mask mask_eq_exp_minus_1)
  then show ?thesis using take_bit_word_small [OF hash_fields(1)] by simp
qed

lemma parse_nonstandard:
  assumes "unat n12 < 2 ^ 12" "unat n58 < 2 ^ 58" "unat nrpt < 2 ^ 2"
    and "payload = unpack_msb 77 (pack_nonstandard n12 n58 iflip nrpt icq)"
  shows "parse_payload ht payload =
    (let exact = unpack58 n58;
         hashed = (case lookup_12bit_hash ht n12 of Some c \<Rightarrow> ''<'' @ c @ ''>'' | None \<Rightarrow> ''<...>'');
         message = default_message \<lparr> m_payload := payload, m_type := NonStdCall \<rparr>
     in Inr (if icq then message \<lparr> m_to := Some ''CQ'', m_from := Some exact \<rparr>
             else message \<lparr> m_to := Some (if iflip then exact else hashed), m_from := Some (if iflip then hashed else exact),
                            m_exchange := (if nrpt = 1 then Some ''RRR'' else if nrpt = 2 then Some ''RR73''
                                           else if nrpt = 3 then Some ''73'' else None) \<rparr>))"
proof -
  have p: "payload = word_to_bits 12 n12 @ word_to_bits 58 n58 @ [iflip] @ word_to_bits 2 nrpt @ [icq] @ word_to_bits 3 (4::u8)"
    unfolding assms(4) pack_nonstandard_def by (subst unpack_pack_prefix) simp_all
  have f: "bits_to_u32 (slice 0 12 payload) = n12" "bits_to_u64 (slice 12 70 payload) = n58" "payload ! 70 \<longleftrightarrow> iflip"
    "bits_to_u32 (slice 71 73 payload) = ucast nrpt" "payload ! 73 \<longleftrightarrow> icq" "bits_to_u32 (slice 74 77 payload) = 4"
    unfolding p using assms(1-3) by (auto simp: field_slices nth_word_to_bits)
  have n12: "ucast (ucast n12 :: u16) = n12"
    using not_bit_above [OF assms(1)] by (intro bit_word_eqI) (auto simp: bit_simps not_le [symmetric] intro: ccontr)
  have nr: "ucast (ucast nrpt :: u32) = nrpt" by (rule bit_word_eqI) (auto simp: bit_simps)
  have len: "length payload = 77" by (simp add: p)
  show ?thesis
    unfolding parse_payload_def parse_nonstd_call_def Let_def f n12 nr
    using len by (auto simp: PAYLOAD_BITS_def default_message_def)
qed

lemma trim_subset: "set (trim s) \<subseteq> set s"
  using set_dropWhileD [of _ is_whitespace "rev (dropWhile is_whitespace s)"] set_dropWhileD [of _ is_whitespace s]
  by (auto simp: trim_def trim_end_def trim_start_def)

lemma upper_part:
  assumes "trim (to_upper txt) = xs @ w @ ys"
  shows "to_upper w = w"
proof -
  have "c \<in> to_ascii_upper ` set txt" if "c \<in> set w" for c
    using trim_subset [of "to_upper txt"] that unfolding assms by (auto simp: to_upper_def)
  then show ?thesis by (fastforce simp: to_upper_def intro!: map_idI)
qed

text \<open>The exchanges a nonstandard message carries: the closing tokens; a grid is accepted and dropped.\<close>

fun nonstd_token :: "exchange \<Rightarrow> string option" where
  "nonstd_token Ex_RRR = Some ''RRR''"
| "nonstd_token Ex_RR73 = Some ''RR73''"
| "nonstd_token Ex_73 = Some ''73''"
| "nonstd_token _ = None"

fun nonstd_ok :: "exchange \<Rightarrow> bool" where
  "nonstd_ok (R_Grid g) \<longleftrightarrow> False"
| "nonstd_ok (Db d) \<longleftrightarrow> False"
| "nonstd_ok (R_Db d) \<longleftrightarrow> False"
| "nonstd_ok x \<longleftrightarrow> exchange_ok x"

lemma nonstandard_report_code:
  assumes "nonstd_ok x"
  obtains nrpt where "nonstandard_report (extra_of x) = Inr nrpt" "unat nrpt < 2 ^ 2"
    "(if nrpt = 1 then Some ''RRR'' else if nrpt = 2 then Some ''RR73'' else if nrpt = 3 then Some ''73'' else None) = nonstd_token x"
proof -
  have "nonstandard_report (extra_of x) =
      Inr (case x of Ex_RRR \<Rightarrow> 1 | Ex_RR73 \<Rightarrow> 2 | Ex_73 \<Rightarrow> 3 | _ \<Rightarrow> 0)"
    using assms grid4_first [of "extra_of x"]
    by (cases x) (auto simp: nonstandard_report_def extra_of_def extra_is_grid_locator_or_extended_def extra_is_grid_locator_def)
  then show thesis by (rule that) (cases x; simp)+
qed

lemma nonstd_words:
  assumes "nonblank a" "nonblank b" "nonstd_ok x"
  defines "parts \<equiv> split_whitespace (a @ '' '' @ b @ exchange_words x)"
  shows "parts \<noteq> []" "parts ! 0 = a" "2 \<le> length parts" "parts ! 1 = b" "(if 2 < length parts then parts ! 2 else []) = extra_of x"
proof -
  have "exchange_ok x" using assms(3) by (cases x) simp_all
  then show "parts \<noteq> []" "parts ! 0 = a" "2 \<le> length parts" "parts ! 1 = b" "(if 2 < length parts then parts ! 2 else []) = extra_of x"
    unfolding parts_def split_exchange [OF assms(1,2) \<open>exchange_ok x\<close>] using assms(3)
    by (cases x; simp add: extra_of_def)+
qed

lemma not_both_standard:
  assumes "choose_exact a b = Inr r"
  shows "\<not> (std_callsign a \<and> std_callsign b)" and "\<exists>e h flip. r = (e, h, flip) \<and> (if flip then e = a \<and> h = b else e = b \<and> h = a)"
  using assms by (auto simp: choose_exact_def split: bool.splits if_splits)

lemma nonstandard_falls_through:
  assumes "nonblank a" "nonblank b" "a \<noteq> ''CQ''" "nonstd_ok x" "choose_exact a b = Inr r"
  shows "\<exists>e. try_encode_standard (a @ '' '' @ b @ exchange_words x) = Inl e"
proof -
  have "exchange_ok x" using assms(4) by (cases x) simp_all
  note words = parse_standard_exchange [OF assms(1-3) this]
  have "\<not> (std_callsign a \<and> std_callsign b)" using not_both_standard(1) [OF assms(5)] .
  then show ?thesis
    using words by (auto simp: try_encode_standard_def std_callsign_def Let_def split: sum.splits)
qed


text \<open>How a receiver that has learned the calls \<open>L\<close> may render the hash of a call: the only learned call with that hash, or unresolved
  when none or several have it.\<close>

definition renders_hash :: "string set \<Rightarrow> string \<Rightarrow> string \<Rightarrow> bool" where
  "renders_hash L h r \<longleftrightarrow>
     (\<exists>d \<in> L. resolves calculate_hash_12bit L (calculate_hash_12bit h) d \<and> r = ''<'' @ d @ ''>'') \<or>
     r = ''<...>'' \<and> \<not> (\<exists>!d. d \<in> L \<and> calculate_hash_12bit d = calculate_hash_12bit h)"

definition hash_rendering :: "hash_table \<Rightarrow> string \<Rightarrow> string" where
  "hash_rendering ht h = (case lookup_12bit_hash ht (hash12 h) of Some c \<Rightarrow> ''<'' @ c @ ''>'' | None \<Rightarrow> ''<...>'')"

lemma hash_rendering_spec: "renders_hash (to_upper ` set cs) h (hash_rendering (learn_all cs) h)"
proof -
  have t: "table_ok (learn_all cs)" "all_learned (learn_all cs) = to_upper ` set cs" using learn_all_ok by blast+
  have h: "hash12 h = calculate_hash_12bit h" by (simp add: hash12_def calculate_hash_12bit_def)
  show ?thesis
  proof (cases "lookup_12bit_hash (learn_all cs) (calculate_hash_12bit h)")
    case None
    then have "\<not> (\<exists>!d. d \<in> to_upper ` set cs \<and> calculate_hash_12bit d = calculate_hash_12bit h)"
      using dir12.lookup_complete [OF t(1)] unfolding t(2) by (metis option.distinct(1))
    then show ?thesis by (simp add: renders_hash_def hash_rendering_def h None)
  next
    case (Some d)
    then have "resolves calculate_hash_12bit (to_upper ` set cs) (calculate_hash_12bit h) d"
      using table_lookup(2) [OF t(1)] unfolding t(2) lookup_12bit_hash_def by simp
    moreover have "d \<in> to_upper ` set cs" using dir12.lookup_sound [OF t(1) Some] unfolding t(2) by simp
    ultimately show ?thesis by (auto simp: renders_hash_def hash_rendering_def h Some)
  qed
qed

text \<open>A receiver that has learned the call itself renders it, or leaves it unresolved: another call can then not be the only one.\<close>

lemma renders_heard: "renders_hash L h r \<Longrightarrow> h \<in> L \<Longrightarrow> r = ''<'' @ h @ ''>'' \<or> r = ''<...>''"
  by (auto simp: renders_hash_def resolves_def)

lemma pack58_exact:
  assumes "pack58 e = Some n58" "nonblank e" "to_upper e = e"
  shows "unpack58 n58 = e" and "unat n58 < 2 ^ 58"
proof -
  note p = pack58_unpack58 [OF assms(1)]
  show "unpack58 n58 = e" using p assms(2,3) trim_id [of e] by (simp add: nonblank_def list_all_iff)
  have "(38::nat) ^ 11 < 2 ^ 58" by simp
  with p show "unat n58 < 2 ^ 58" using order.strict_trans by blast
qed

text \<open>C17: nonstandard calls, end to end. When one of two calls does not fit the standard form, the message is sent in the
  nonstandard form: the receiver reads the call that is sent in full exactly, in its place as addressee or
  sender, and the closing token. The call sent as a hash is rendered in angle brackets as the only call the receiver has heard with
  that hash, or as unresolved when it has heard none or several. So a receiver that has heard the call itself never reads it as another;
  one that has heard only another call with the same hash does.\<close>

theorem nonstandard_message_roundtrip:
  assumes t: "trim (to_upper message_text) = a @ '' '' @ b @ exchange_words x"
    and calls: "nonblank a" "nonblank b" "a \<noteq> ''CQ''" "looks_like_compound_callsign a" "looks_like_compound_callsign b"
    and ex: "choose_exact a b = Inr (e, h, iflip)" "pack58 e = Some n58"
    and x: "nonstd_ok x"
  shows "\<exists>ss msg r. encode_message message_text = Some (Inr ss) \<and> length ss = 79 \<and>
    verify_syndrome (hard_decision ft8_params ss) \<and> verify_crc14 (take 91 (hard_decision ft8_params ss)) \<and>
    parse_payload (learn_all cs) (take 77 (hard_decision ft8_params ss)) = Inr msg \<and> m_type msg = NonStdCall \<and>
    m_to msg = Some (if iflip then a else r) \<and> m_from msg = Some (if iflip then r else b) \<and>
    m_exchange msg = nonstd_token x \<and> renders_hash (to_upper ` set cs) h r \<and>
    (h \<in> to_upper ` set cs \<longrightarrow> r = ''<'' @ h @ ''>'' \<or> r = ''<...>'')"
proof -
  let ?txt = "trim (to_upper message_text)" and ?r = "hash_rendering (learn_all cs) h"
  have eh: "if iflip then e = a \<and> h = b else e = b \<and> h = a" using not_both_standard(2) [OF ex(1)] by simp
  have "to_upper a = a" "to_upper b = b" using upper_part [of message_text "[]" a] upper_part [of message_text "a @ '' ''" b] t by simp_all
  then have exact: "unpack58 n58 = e" "unat n58 < 2 ^ 58" using pack58_exact [OF ex(2)] eh calls(1,2) by (auto split: if_splits)
  obtain nrpt where nrpt: "nonstandard_report (extra_of x) = Inr nrpt" "unat nrpt < 2 ^ 2"
    "(if nrpt = 1 then Some ''RRR'' else if nrpt = 2 then Some ''RR73'' else if nrpt = 3 then Some ''73'' else None) = nonstd_token x"
    using nonstandard_report_code [OF x] .
  define payload where "payload = pack_nonstandard (hash12 h) n58 iflip nrpt False"
  note words = nonstd_words [OF calls(1,2) x]
  have "try_encode_nonstandard (a @ '' '' @ b @ exchange_words x) = Inr payload"
    unfolding try_encode_nonstandard_def Let_def words(2,4,5)
    using words(1,3) calls(3-5) ex nrpt(1) by (simp add: hash12_masked payload_def)
  then have "encode_payload ?txt = Inr payload"
    using nonstandard_falls_through [OF calls(1-3) x ex(1)] unfolding t by (auto simp: encode_payload_def)
  then obtain ss where ss: "encode_message message_text = Some (Inr ss)" "length ss = 79"
    "verify_syndrome (hard_decision ft8_params ss)" "verify_crc14 (take 91 (hard_decision ft8_params ss))"
    "take 77 (hard_decision ft8_params ss) = unpack_msb 77 payload" by (rule encoded_on_air)
  have "parse_payload (learn_all cs) (take 77 (hard_decision ft8_params ss)) =
    Inr (default_message \<lparr> m_payload := unpack_msb 77 payload, m_type := NonStdCall,
      m_to := Some (if iflip then e else ?r), m_from := Some (if iflip then ?r else e), m_exchange := nonstd_token x \<rparr>)"
    unfolding ss(5) payload_def parse_nonstandard [OF hash_fields(1) exact(2) nrpt(2) refl] Let_def exact(1) nrpt(3)
    by (simp add: hash_rendering_def)
  moreover have "renders_hash (to_upper ` set cs) h ?r" by (rule hash_rendering_spec)
  ultimately show ?thesis using ss(1-4) eh renders_heard [of "to_upper ` set cs" h ?r]
    by (intro exI [of _ ss] exI [of _ "default_message \<lparr> m_payload := unpack_msb 77 payload, m_type := NonStdCall,
      m_to := Some (if iflip then e else ?r), m_from := Some (if iflip then ?r else e), m_exchange := nonstd_token x \<rparr>"] exI [of _ ?r])
      (auto split: if_splits)
qed

theorem nonstandard_message_roundtrip_witness:
  "\<exists>ss msg r. encode_message ''k1abc pj4/w9xyz rr73'' = Some (Inr ss) \<and>
     parse_payload (learn_all [''K1ABC'']) (take 77 (hard_decision ft8_params ss)) = Inr msg \<and>
     m_to msg = Some r \<and> (r = ''<K1ABC>'' \<or> r = ''<...>'') \<and> m_from msg = Some ''PJ4/W9XYZ'' \<and> m_exchange msg = Some ''RR73''"
proof -
  have "trim (to_upper ''k1abc pj4/w9xyz rr73'') = ''K1ABC'' @ '' '' @ ''PJ4/W9XYZ'' @ exchange_words Ex_RR73"
    "nonblank ''K1ABC''" "nonblank ''PJ4/W9XYZ''" "''K1ABC'' \<noteq> ''CQ''" "looks_like_compound_callsign ''K1ABC''"
    "looks_like_compound_callsign ''PJ4/W9XYZ''" "choose_exact ''K1ABC'' ''PJ4/W9XYZ'' = Inr (''PJ4/W9XYZ'', ''K1ABC'', False)"
    "pack58 ''PJ4/W9XYZ'' = Some (the (pack58 ''PJ4/W9XYZ''))" "nonstd_ok Ex_RR73"
    "to_upper ''K1ABC'' = ''K1ABC''" by code_simp+
  moreover from this(10) have "''K1ABC'' \<in> to_upper ` set [''K1ABC'']" by simp
  ultimately show ?thesis
    using nonstandard_message_roundtrip [of "''k1abc pj4/w9xyz rr73''" "''K1ABC''" "''PJ4/W9XYZ''" Ex_RR73 "''PJ4/W9XYZ''" "''K1ABC''" False
      "the (pack58 ''PJ4/W9XYZ'')" "[''K1ABC'']"] by (simp only: if_False nonstd_token.simps append_Cons append_Nil) blast
qed

section \<open>DXpedition frames\<close>

lemma nonblank_not_cq: "nonblank c \<Longrightarrow> \<not> starts_with c ''CQ ''"
proof
  assume "nonblank c" "starts_with c ''CQ ''"
  then have "CHR '' '' \<in> set (take (length ''CQ '') c)" unfolding starts_with_def by (simp only:) simp
  then have "CHR '' '' \<in> set c" by (rule in_set_takeD)
  then show False using \<open>nonblank c\<close> by (auto simp: nonblank_def list_all_iff is_whitespace_def)
qed

lemma hound_code_parses:
  assumes "hound_code c = Inr n28" "nonblank c" "\<not> rewritten_prefix c"
  shows "hound_field n28 which = Inr c" and "unat n28 < 2 ^ 28"
proof -
  have p: "pack28 c = Inr (n28, 0)" "NTOKENS + MAX22 \<le> n28" using assms(1) by (auto simp: hound_code_def split: sum.splits if_splits)
  have "c \<notin> {''DE'', ''QRZ'', ''CQ''}"
    using p by (auto simp: pack28_def NTOKENS_def MAX22_def word_le_nat_alt)
  moreover have "strip_portable c = (c, 0)"
    using p(1) calculation nonblank_not_cq [OF assms(2)] by (auto simp: pack28_def strip_portable_def Let_def split: if_splits option.splits)
  ultimately have "unpack28 n28 = CallField c \<and> n28 < 2 ^ 28"
    using pack28_call [OF p(1)] assms(2,3) by (simp add: nonblank_def list_all_iff)
  then show "hound_field n28 which = Inr c" "unat n28 < 2 ^ 28" by (simp_all add: hound_field_def word_less_nat_alt)
qed

lemma r5_value:
  fixes db :: int
  defines "k \<equiv> max 0 (min 31 (trunc_div (db + 30) 2))"
  shows "unat (dxpedition_report_to_r5 db) = nat k" and "unat (dxpedition_report_to_r5 db) < 2 ^ 5"
    and "dxpedition_r5_to_report (dxpedition_report_to_r5 db) = 2 * k - 30"
proof -
  have k: "0 \<le> k" "k \<le> 31" by (auto simp: k_def)
  have "dxpedition_report_to_r5 db = of_nat (nat k)" using k by (simp add: dxpedition_report_to_r5_def k_def)
  then show u: "unat (dxpedition_report_to_r5 db) = nat k" using k unat_of_nat_less [where 'a = 8, of "nat k"] by (simp add: nat_less_iff)
  then show small: "unat (dxpedition_report_to_r5 db) < 2 ^ 5" using k by (simp add: nat_less_iff)
  have "dxpedition_report_to_r5 db AND 0x1F = take_bit 5 (dxpedition_report_to_r5 db)"
    by (simp add: take_bit_eq_mask mask_eq_exp_minus_1)
  then have "dxpedition_report_to_r5 db AND 0x1F = dxpedition_report_to_r5 db" using take_bit_word_small [OF small] by simp
  then show "dxpedition_r5_to_report (dxpedition_report_to_r5 db) = 2 * k - 30"
    using u k by (simp add: dxpedition_r5_to_report_def as_i8_id)
qed

lemma r5_report:
  assumes "- 30 \<le> db" "db \<le> 33"
  shows "dxpedition_r5_to_report (dxpedition_report_to_r5 db) = db - db mod 2"
proof -
  have "trunc_div (db + 30) 2 = (db + 30) div 2" using assms by (simp add: trunc_div_nonneg)
  moreover have "2 * ((db + 30) div 2) = db + 30 - (db + 30) mod 2" by (simp add: minus_mod_eq_mult_div)
  moreover have "(db + 30) mod 2 = db mod 2" by presburger
  moreover have "0 \<le> (db + 30) div 2" "(db + 30) div 2 \<le> 31" using assms by simp_all
  ultimately show ?thesis using r5_value(3) [of db] by simp
qed

text \<open>DXpedition frames, end to end. A Fox's frame that closes the contact with one Hound and sends a report to another is
  transmitted, and a receiver reads the two Hounds, the 10-bit hash of the Fox with the call its table resolves
  that hash to, and the report rounded down to an even number of decibels.\<close>

theorem dxpedition_roundtrip:
  assumes enc: "pack_dxpedition_contacts rr73_call report_call fox db = Inr payload"
    and calls: "nonblank rr73_call" "nonblank report_call" "\<not> rewritten_prefix rr73_call" "\<not> rewritten_prefix report_call"
    and db: "- 30 \<le> db" "db \<le> 33"
  shows "\<exists>ss msg. encode_dxpedition_contacts rr73_call report_call fox db = Some (Inr ss) \<and>
    verify_syndrome (hard_decision ft8_params ss) \<and> verify_crc14 (take 91 (hard_decision ft8_params ss)) \<and>
    parse_payload ht (take 77 (hard_decision ft8_params ss)) = Inr msg \<and> m_type msg = DXpedition \<and>
    m_from msg = lookup_10bit_hash ht (hash10 fox) \<and> m_to msg = None \<and> m_report msg = Some (db - db mod 2) \<and>
    m_dxpedition msg = Some \<lparr> rr73_to = rr73_call, report_to = report_call, fox_hash10 = ucast (hash10 fox),
                             fox_call = lookup_10bit_hash ht (hash10 fox), report_db = db - db mod 2 \<rparr>"
proof -
  obtain n28a n28b where n: "hound_code rr73_call = Inr n28a" "hound_code report_call = Inr n28b"
    and pl: "payload = pack_msb 10 (word_to_bits 28 n28a @ word_to_bits 28 n28b @ word_to_bits 10 (hash10 fox) @
       word_to_bits 5 (ucast (dxpedition_report_to_r5 db) :: u32) @ word_to_bits 3 (1::u32) @ word_to_bits 3 (0::u32))"
    using enc by (auto simp: pack_dxpedition_contacts_def split: sum.splits if_splits)
  note a = hound_code_parses [OF n(1) calls(1,3)] and b = hound_code_parses [OF n(2) calls(2,4)]
  define bits where "bits = unpack_msb 77 payload"
  have p: "bits = word_to_bits 28 n28a @ word_to_bits 28 n28b @ word_to_bits 10 (hash10 fox) @
       word_to_bits 5 (dxpedition_report_to_r5 db) @ word_to_bits 3 (1::u32) @ word_to_bits 3 (0::u32)"
    unfolding bits_def pl by (subst unpack_pack_prefix) (simp_all add: word_to_bits_ucast)
  define head where "head = slice 0 71 bits"
  have h: "head = word_to_bits 28 n28a @ word_to_bits 28 n28b @ word_to_bits 10 (hash10 fox) @ word_to_bits 5 (dxpedition_report_to_r5 db)"
    by (simp add: head_def p slice_def)
  have f: "bits_to_u32 (slice 0 28 head) = n28a" "bits_to_u32 (slice 28 56 head) = n28b" "bits_to_u32 (slice 56 66 head) = hash10 fox"
    "bits_to_u32 (slice 66 71 head) = ucast (dxpedition_report_to_r5 db)"
    unfolding h using a(2) b(2) hash_fields(2) [of fox] r5_value(2) [of db] by (simp_all add: field_slices)
  have i: "bits_to_u32 (slice 74 77 bits) = 0" "bits_to_u32 (slice 71 74 bits) = 1"
    unfolding p by (simp_all add: field_slices)
  have r5: "ucast (ucast (dxpedition_report_to_r5 db) :: u32) = dxpedition_report_to_r5 db"
    by (rule bit_word_eqI) (auto simp: bit_simps)
  obtain ss where ss: "payload_to_symbols payload = Some (Inr ss)" "verify_syndrome (hard_decision ft8_params ss)"
    "verify_crc14 (take 91 (hard_decision ft8_params ss))" "take 77 (hard_decision ft8_params ss) = bits"
    using payload_on_air [of payload] by (auto simp: bits_def)
  let ?c = "\<lparr> rr73_to = rr73_call, report_to = report_call, fox_hash10 = ucast (hash10 fox),
              fox_call = lookup_10bit_hash ht (hash10 fox), report_db = db - db mod 2 \<rparr>"
  have "parse_payload ht bits = Inr (default_message \<lparr> m_payload := bits, m_type := DXpedition,
      m_from := fox_call ?c, m_to := None, m_report := Some (db - db mod 2), m_uses_hash := True,
      m_text := Some (contacts_text ?c), m_dxpedition := Some ?c \<rparr>)"
    unfolding parse_payload_def parse_dxpedition_type0_def Let_def i head_def [symmetric] f r5 r5_report [OF db] a(1) b(1)
    by (simp add: PAYLOAD_BITS_def p)
  then show ?thesis
    using ss enc by (auto simp: encode_dxpedition_contacts_def payload_result_def default_message_def)
qed

theorem dxpedition_roundtrip_witness:
  "\<exists>ss msg. encode_dxpedition_contacts ''K1ABC'' ''W9XYZ'' ''KH1/KH7Z'' (- 11) = Some (Inr ss) \<and>
     parse_payload hash_table_new (take 77 (hard_decision ft8_params ss)) = Inr msg \<and> m_report msg = Some (- 12)"
proof -
  have e: "pack_dxpedition_contacts ''K1ABC'' ''W9XYZ'' ''KH1/KH7Z'' (- 11) =
      Inr (projr (pack_dxpedition_contacts ''K1ABC'' ''W9XYZ'' ''KH1/KH7Z'' (- 11)))"
    and c: "nonblank ''K1ABC''" "nonblank ''W9XYZ''" "\<not> rewritten_prefix ''K1ABC''" "\<not> rewritten_prefix ''W9XYZ''"
    by code_simp+
  show ?thesis using dxpedition_roundtrip [OF e c, of hash_table_new] by simp blast
qed

section \<open>Contest frames\<close>

text \<open>The frame \<open>pack_type0\<close> builds has its subtype in the bits of the message type, and \<open>0\<close> or \<open>4\<close> where the
  parser looks for the subtype.\<close>

lemma pack_type0_fields:
  assumes "unat n3 < 2 ^ 3"
  shows "bits_to_u32 (slice 74 77 (unpack_msb 77 (pack_type0 n28a n28b ir field14 n3))) = ucast n3"
proof -
  have "word_to_bits 8 (push_bit 3 n3) = word_to_bits 2 (drop_bit 3 n3) @ word_to_bits 3 n3 @ replicate 3 False"
    using word_to_bits_push [of 5 3 n3] word_to_bits_split [of 2 3 n3] by simp
  moreover have "word_to_bits 2 (drop_bit 3 n3) = [False, False]"
    using not_bit_above [OF assms] by (simp add: word_to_bits_def drop_bit_and_1 upt_rec bit_drop_bit_eq)
  ultimately have "slice 74 77 (unpack_msb 77 (pack_type0 n28a n28b ir field14 n3)) = word_to_bits 3 n3"
    by (simp add: pack_type0_def unpack_msb_bytes slice_def)
  then show ?thesis using assms by (simp add: bits_to_u32_def bits_to_word_field take_bit_word_small)
qed

lemma fill_standard_type [simp]: "m_type (fill_standard call_a ipa call_b ipb ir field message) = m_type message"
  by (simp add: fill_standard_def Let_def split: prod.splits callsign_field.splits option.splits)

lemma parse_by_i3:
  assumes "length bits = 77"
  shows "bits_to_u32 (slice 74 77 bits) = 2 \<Longrightarrow> \<exists>msg. parse_payload ht bits = Inr msg \<and> m_type msg = Standard"
    and "bits_to_u32 (slice 74 77 bits) = 3 \<Longrightarrow> \<exists>msg. parse_payload ht bits = Inr msg \<and> m_type msg = RTTYRoundup"
    and "bits_to_u32 (slice 74 77 bits) = 5 \<Longrightarrow> \<exists>msg. parse_payload ht bits = Inr msg \<and> m_type msg = Unknown"
  using assms
  by (simp_all add: parse_payload_def PAYLOAD_BITS_def parse_type1_standard_def parse_rtty_roundup_def Let_def)

text \<open>The contest encoders write their subtype into the bits of the message type, so that the receiver takes a
  Field Day frame for an RTTY Roundup one, an EU VHF frame for a standard message, and an RTTY Roundup
  frame for one of no known type.\<close>

theorem contest_frames_misread:
  "(\<forall>payload. field_day_payload to_s from_s r n letter sec = Inr payload \<longrightarrow>
      (\<exists>msg. parse_payload ht (unpack_msb 77 payload) = Inr msg \<and> m_type msg = RTTYRoundup)) \<and>
   (\<forall>payload. eu_vhf_payload to_s from_s r exchange = Inr payload \<longrightarrow>
      (\<exists>msg. parse_payload ht (unpack_msb 77 payload) = Inr msg \<and> m_type msg = Standard)) \<and>
   (\<forall>payload. rtty_roundup_payload to_s from_s r rst state = Inr payload \<longrightarrow>
      (\<exists>msg. parse_payload ht (unpack_msb 77 payload) = Inr msg \<and> m_type msg = Unknown))"
proof (intro conjI allI impI)
  fix payload
  show "\<exists>msg. parse_payload ht (unpack_msb 77 payload) = Inr msg \<and> m_type msg = RTTYRoundup"
    if "field_day_payload to_s from_s r n letter sec = Inr payload"
    using that pack_type0_fields [of 3]
    by (intro parse_by_i3) (auto simp: field_day_payload_def Let_def split: if_splits sum.splits)
  show "\<exists>msg. parse_payload ht (unpack_msb 77 payload) = Inr msg \<and> m_type msg = Standard"
    if "eu_vhf_payload to_s from_s r exchange = Inr payload"
    using that pack_type0_fields [of 2]
    by (intro parse_by_i3) (auto simp: eu_vhf_payload_def Let_def split: if_splits sum.splits)
  show "\<exists>msg. parse_payload ht (unpack_msb 77 payload) = Inr msg \<and> m_type msg = Unknown"
    if "rtty_roundup_payload to_s from_s r rst state = Inr payload"
    using that pack_type0_fields [of 5]
    by (intro parse_by_i3) (auto simp: rtty_roundup_payload_def Let_def split: if_splits sum.splits)
qed

theorem contest_frames_misread_witness:
  "\<exists>payload msg. field_day_payload ''K1DEF'' ''W1ABC'' False 2 CHR ''A'' ''CT'' = Inr payload \<and>
     parse_payload hash_table_new (unpack_msb 77 payload) = Inr msg \<and> m_type msg = RTTYRoundup"
proof -
  have "field_day_payload ''K1DEF'' ''W1ABC'' False 2 CHR ''A'' ''CT'' =
    Inr (projr (field_day_payload ''K1DEF'' ''W1ABC'' False 2 CHR ''A'' ''CT''))" by code_simp
  then show ?thesis using contest_frames_misread by blast
qed

text \<open>The suffix of a portable call is lost in a message with no exchange, and on a call that begins like a token.\<close>

lemma portable_suffix_lost:
  "(case try_encode_standard ''W1ABC K9XYZ/P'' of
      Inr p \<Rightarrow> map_sum id m_from (parse_payload hash_table_new (unpack_msb 77 p)) = Inr (Some ''K9XYZ'') | Inl _ \<Rightarrow> False) \<and>
   (case try_encode_standard ''W1ABC DE5AB/P JO65'' of
      Inr p \<Rightarrow> map_sum id m_from (parse_payload hash_table_new (unpack_msb 77 p)) = Inr (Some ''DE5AB'') | Inl _ \<Rightarrow> False)"
  by code_simp

end
