(* ===== verification/Reception.thy ===== *)
theory Reception
  imports Codec Message_Text Plausible
begin

text \<open>
  What becomes of a decode on the receiving side of \<open>pancetta-ft8/src/message.rs\<close>: the text a parsed message is
  displayed as, the reading of that text by \<open>from_text\<close>, and the acceptance filter applied to what the parser makes of an
  arbitrary payload.
\<close>

section \<open>Displayed text\<close>

text \<open>The fields of a message that came from the calls \<open>a\<close>, \<open>b\<close> and the exchange \<open>x\<close>.\<close>

definition says :: "ft8_message \<Rightarrow> string \<Rightarrow> string \<Rightarrow> exchange \<Rightarrow> bool" where
  "says msg a b x \<longleftrightarrow>
     m_type msg = Standard \<and> m_standard msg = Some (exchange_kind x) \<and> m_to msg = Some a \<and> m_from msg = Some b \<and>
     m_grid msg = exchange_grid x \<and> m_report msg = exchange_report x"

lemma display_says: "says msg a b x \<Longrightarrow> display_message msg = a @ '' '' @ b @ exchange_words x"
  by (cases x) (simp_all add: says_def display_message_def display_standard_def calls_text_def field_text_def spaced_text_def)

lemma grid4_text: "is_grid4 g \<Longrightarrow> text_looks_like_grid g"
  by (auto simp: is_grid4_def text_looks_like_grid_def to_ascii_upper_def is_ascii_lowercase_def char_between_def)

lemma plus03_shape:
  assumes "- 30 \<le> d" "d \<le> 30"
  shows "text_looks_like_report (plus03 d)" "text_parse_report (plus03 d) = Some d" "\<not> text_looks_like_grid (plus03 d)"
    "length (plus03 d) > 1"
proof -
  define s where "s = nat_to_dec (nat \<bar>d\<bar>)"
  define body where "body = replicate (2 - length s) CHR ''0'' @ s"
  have p: "plus03 d = (if d < 0 then CHR ''-'' else CHR ''+'') # body" by (simp add: plus03_def body_def s_def Let_def)
  have body: "body \<noteq> []" "list_all is_ascii_digit body"
    using nat_to_dec_digits [of "nat \<bar>d\<bar>"] by (auto simp: body_def s_def list_all_iff is_ascii_digit_def)
  show "text_looks_like_report (plus03 d)" "length (plus03 d) > 1"
    using body by (auto simp: text_looks_like_report_def p Suc_le_eq)
  show "text_parse_report (plus03 d) = Some d"
    using plus03_report(1) [OF assms] assms by (simp add: text_parse_report_def parse_report_def)
  show "\<not> text_looks_like_grid (plus03 d)"
    by (simp add: text_looks_like_grid_def p to_ascii_upper_def is_ascii_lowercase_def char_between_def)
qed

lemma grid4_not_report: "is_grid4 g \<Longrightarrow> \<not> text_looks_like_report (drop 1 g)"
  by (auto simp: is_grid4_def text_looks_like_report_def char_between_def)

text \<open>The match on the words of an exchange.\<close>

lemma from_suffix_words:
  shows "from_suffix [''RRR''] msg = msg \<lparr> m_standard := Some Rrr \<rparr>"
    and "from_suffix [''RR73''] msg = msg \<lparr> m_standard := Some RR73 \<rparr>"
    and "from_suffix [''73''] msg = msg \<lparr> m_standard := Some Final73 \<rparr>"
    and "is_grid4 g \<Longrightarrow> g \<noteq> ''RR73'' \<Longrightarrow> from_suffix [g] msg = msg \<lparr> m_standard := Some Reply, m_grid := Some g \<rparr>"
    and "is_grid4 g \<Longrightarrow> from_suffix [''R'', g] msg = msg \<lparr> m_standard := Some ReplyWithR, m_grid := Some g \<rparr>"
  using grid4_first [of g] grid4_text [of g] grid4_not_report [of g] by (simp_all add: from_suffix_def)

lemma from_suffix_reports:
  assumes "- 30 \<le> d" "d \<le> 30"
  shows "from_suffix [plus03 d] msg = msg \<lparr> m_standard := Some Report, m_report := Some d \<rparr>"
    and "from_suffix [CHR ''R'' # plus03 d] msg = msg \<lparr> m_standard := Some ReportWithR, m_report := Some d \<rparr>"
proof -
  have "plus03 d \<notin> {''RR73'', ''RRR'', ''73''}" "CHR ''R'' # plus03 d \<notin> {''RR73'', ''RRR'', ''73''}" "\<not> starts_with (plus03 d) ''R''"
    "plus03 d \<noteq> []" by (auto simp: plus03_def starts_with_def Let_def)
  then show "from_suffix [plus03 d] msg = msg \<lparr> m_standard := Some Report, m_report := Some d \<rparr>"
    "from_suffix [CHR ''R'' # plus03 d] msg = msg \<lparr> m_standard := Some ReportWithR, m_report := Some d \<rparr>"
    using plus03_shape [OF assms] by (simp_all add: from_suffix_def starts_with_def)
qed

lemma from_text_says:
  assumes "nonblank a" "nonblank b" "a \<noteq> ''CQ''" "exchange_ok x"
  shows "says (from_text (a @ '' '' @ b @ exchange_words x)) a b x"
  using assms(3,4) unfolding from_text_def Let_def split_exchange [OF assms(1,2,4)]
  by (cases x) (simp_all add: says_def default_message_def from_suffix_words from_suffix_reports extra_of_def)

text \<open>A standard message on the air says what was sent, when no suffix is changed on the way.\<close>

lemma standard_says:
  assumes "trim (to_upper message_text) = a @ '' '' @ b @ exchange_words x"
    and "plain_call a" and "plain_call b" and "exchange_ok x"
    and "heard_call a = a" and "heard_call b = b" and "x = No_Exchange \<longrightarrow> fst (strip_portable b) = b"
  shows "\<exists>ss msg. encode_message message_text = Some (Inr ss) \<and>
    parse_payload ht (take 77 (hard_decision ft8_params ss)) = Inr msg \<and> says msg a b x"
proof -
  have b: "(if x = No_Exchange then fst (strip_portable b) else heard_call b) = b" using assms(6,7) by simp
  show ?thesis using standard_on_air [OF assms(1-4), of ht] unfolding says_def assms(5) b by blast
qed

text \<open>A decode shows what was sent. The message a receiver parses from a transmitted standard message is displayed as the
  text that was sent, in upper case, and reading that text back gives the same calls, message type, grid
  and report as the parser had read from the payload.\<close>

theorem decode_shows_what_was_sent:
  assumes "trim (to_upper message_text) = a @ '' '' @ b @ exchange_words x"
    and "plain_call a" and "plain_call b" and "exchange_ok x"
    and "heard_call a = a" and "heard_call b = b" and "x = No_Exchange \<longrightarrow> fst (strip_portable b) = b"
  shows "\<exists>ss msg. encode_message message_text = Some (Inr ss) \<and>
    parse_payload ht (take 77 (hard_decision ft8_params ss)) = Inr msg \<and>
    display_message msg = trim (to_upper message_text) \<and>
    (let back = from_text (display_message msg) in
       m_type back = m_type msg \<and> m_standard back = m_standard msg \<and> m_to back = m_to msg \<and>
       m_from back = m_from msg \<and> m_grid back = m_grid msg \<and> m_report back = m_report msg)"
proof -
  obtain ss msg where m: "encode_message message_text = Some (Inr ss)"
    "parse_payload ht (take 77 (hard_decision ft8_params ss)) = Inr msg" "says msg a b x"
    using standard_says [OF assms] by blast
  have d: "display_message msg = a @ '' '' @ b @ exchange_words x" using m(3) by (rule display_says)
  have "says (from_text (display_message msg)) a b x"
    unfolding d using assms(2-4) by (intro from_text_says) (auto simp: plain_call_def)
  with m d assms(1) show ?thesis unfolding Let_def says_def by (intro exI [of _ ss] exI [of _ msg]) simp
qed

theorem decode_shows_what_was_sent_witness:
  "\<exists>ss msg. encode_message ''w1abc/p k9xyz r en52'' = Some (Inr ss) \<and>
     parse_payload hash_table_new (take 77 (hard_decision ft8_params ss)) = Inr msg \<and>
     display_message msg = ''W1ABC/P K9XYZ R EN52''"
proof -
  have "trim (to_upper ''w1abc/p k9xyz r en52'') = ''W1ABC/P'' @ '' '' @ ''K9XYZ'' @ exchange_words (R_Grid ''EN52'')"
    "plain_call ''W1ABC/P''" "plain_call ''K9XYZ''" "exchange_ok (R_Grid ''EN52'')"
    "heard_call ''W1ABC/P'' = ''W1ABC/P''" "heard_call ''K9XYZ'' = ''K9XYZ''"
    "R_Grid ''EN52'' = No_Exchange \<longrightarrow> fst (strip_portable ''K9XYZ'') = ''K9XYZ''"
    "trim (to_upper ''w1abc/p k9xyz r en52'') = ''W1ABC/P K9XYZ R EN52''" by code_simp+
  with decode_shows_what_was_sent [OF this(1-7), of hash_table_new] show ?thesis by auto
qed

section \<open>Acceptance\<close>

lemma says_plausible:
  assumes "says msg a b x" "exchange_ok x" "looks_like_callsign a" "looks_like_callsign b"
    and "CHR ''/'' \<in> set a \<Longrightarrow> CHR ''/'' \<notin> set b"
  shows "is_plausible msg"
proof -
  have "present_calls msg = [b, a]" using assms(1) by (simp add: says_def present_calls_def List.map_filter_def)
  moreover have "has_plausible_payload msg"
    using assms(1,2) by (cases x) (auto simp: says_def has_plausible_payload_def is_valid_4char_maidenhead_def is_grid4_def)
  ultimately show ?thesis using assms(1,3-5) by (auto simp: is_plausible_def says_def Let_def)
qed

text \<open>What is sent is accepted. A standard message between two calls of accepted shape, not both with a suffix, passes the
  receiver's filter whatever its table and mode.\<close>

theorem sent_messages_are_accepted:
  assumes "trim (to_upper message_text) = a @ '' '' @ b @ exchange_words x"
    and "plain_call a" and "plain_call b" and "exchange_ok x"
    and "heard_call a = a" and "heard_call b = b" and "x = No_Exchange \<longrightarrow> fst (strip_portable b) = b"
    and "looks_like_callsign a" and "looks_like_callsign b" and "CHR ''/'' \<in> set a \<Longrightarrow> CHR ''/'' \<notin> set b"
  shows "\<exists>ss msg. encode_message message_text = Some (Inr ss) \<and>
    parse_payload (mp_hash_table p) (take 77 (hard_decision ft8_params ss)) = Inr msg \<and> parser_is_plausible p msg"
proof -
  obtain ss msg where m: "encode_message message_text = Some (Inr ss)"
    "parse_payload (mp_hash_table p) (take 77 (hard_decision ft8_params ss)) = Inr msg" "says msg a b x"
    using standard_says [OF assms(1-7)] by blast
  have "is_plausible msg" using m(3) assms(4,8-10) by (rule says_plausible)
  moreover have "m_type msg = Standard" using m(3) by (simp add: says_def)
  ultimately show ?thesis using m(1,2) by (auto simp: parser_is_plausible_def)
qed

theorem sent_messages_are_accepted_witness:
  "\<exists>ss msg. encode_message ''w1abc k9xyz -12'' = Some (Inr ss) \<and>
     parse_payload hash_table_new (take 77 (hard_decision ft8_params ss)) = Inr msg \<and> parser_is_plausible message_parser_new msg"
proof -
  have "trim (to_upper ''w1abc k9xyz -12'') = ''W1ABC'' @ '' '' @ ''K9XYZ'' @ exchange_words (Db (- 12))"
    "plain_call ''W1ABC''" "plain_call ''K9XYZ''" "exchange_ok (Db (- 12))"
    "heard_call ''W1ABC'' = ''W1ABC''" "heard_call ''K9XYZ'' = ''K9XYZ''"
    "Db (- 12) = No_Exchange \<longrightarrow> fst (strip_portable ''K9XYZ'') = ''K9XYZ''"
    "looks_like_callsign ''W1ABC''" "looks_like_callsign ''K9XYZ''" "CHR ''/'' \<notin> set ''W1ABC''" by code_simp+
  with sent_messages_are_accepted [OF this(1-9), of message_parser_new] show ?thesis by (auto simp: message_parser_new_def)
qed

text \<open>The shape of an accepted call: a hash rendering, or a base call with a digit within its first three
  characters, letters after it, and an allocated prefix.\<close>

definition call_shape :: "string \<Rightarrow> bool" where
  "call_shape c \<longleftrightarrow>
     starts_with c ''<'' \<or>
     (\<exists>pre d post. hd (split_char CHR ''/'' c) = pre @ d # post \<and> length pre \<le> 2 \<and> is_ascii_digit d \<and> post \<noteq> [] \<and>
        list_all is_ascii_alphabetic post \<and> is_valid_itu_prefix (pre @ d # post))"

lemma rposition_digit: "rposition p xs = Some i \<Longrightarrow> p (xs ! i)"
  by (induction xs arbitrary: i) (auto split: option.splits if_splits)

lemma looks_like_callsign_shape: "looks_like_callsign c \<Longrightarrow> call_shape c"
proof -
  assume c: "looks_like_callsign c"
  show ?thesis
  proof (cases "starts_with c ''<''")
    case False
    define base where "base = hd (split_char CHR ''/'' c)"
    from c False obtain pos where pos: "rposition is_ascii_digit base = Some pos" "\<not> length base - pos - 1 < 1"
      "list_all is_ascii_alphabetic (drop (pos + 1) base)" "pos \<le> 2" "is_valid_itu_prefix base"
      by (auto simp: looks_like_callsign_def Let_def base_def split: if_splits option.splits)
    have "base = take pos base @ base ! pos # drop (pos + 1) base"
      using rposition_less [OF pos(1)] by (simp add: id_take_nth_drop)
    moreover have "is_ascii_digit (base ! pos)" "drop (pos + 1) base \<noteq> []"
      using pos(1,2) rposition_digit by auto
    ultimately show ?thesis using pos(3-5) unfolding call_shape_def base_def [symmetric]
      by (intro disjI2 exI [of _ "take pos base"] exI [of _ "base ! pos"] exI [of _ "drop (pos + 1) base"]) simp
  qed (simp add: call_shape_def)
qed

lemma call_not_cq: "looks_like_callsign c \<Longrightarrow> c \<noteq> ''CQ'' \<and> \<not> starts_with c ''CQ ''"
proof -
  have "\<not> looks_like_callsign (''CQ '' @ r)" for r
  proof -
    have "hd (split_char CHR ''/'' (''CQ '' @ r)) = ''CQ '' @ hd (split_char CHR ''/'' r)"
      by (cases "split_char CHR ''/'' r") simp_all
    then show ?thesis by (simp add: looks_like_callsign_def starts_with_def Let_def is_ascii_alphanumeric_def
        is_ascii_alphabetic_def is_ascii_uppercase_def is_ascii_lowercase_def is_ascii_digit_def)
  qed
  moreover have "c = ''CQ '' @ drop (length ''CQ '') c" if "starts_with c ''CQ ''"
    using that unfolding starts_with_def by (metis append_take_drop_id)
  moreover have "\<not> looks_like_callsign ''CQ''" by code_simp
  ultimately show "looks_like_callsign c \<Longrightarrow> c \<noteq> ''CQ'' \<and> \<not> starts_with c ''CQ ''" by metis
qed

lemma unpackgrid_is_grid4:
  assumes "unpackgrid v ir = (Some g, r, t)"
  shows "is_grid4 g"
proof -
  have letter: "char_between CHR ''A'' CHR ''R'' (char_add CHR ''A'' d)" if "d < 18" for d
    using that by (simp add: char_between_def of_char_char_add)
  show ?thesis
    using assms letter digit_char_add
    by (auto simp: unpackgrid_def Let_def is_grid4_def split: if_splits)
qed

lemma to_callsign_Some: "to_callsign f \<noteq> None"
  by (cases f rule: to_callsign.cases) simp_all

lemma apply_suffix_None: "apply_suffix c ip = None \<longleftrightarrow> c = None"
  by (simp add: apply_suffix_def split: option.splits)

lemma fill_standard_from: "m_from (fill_standard call_a ipa call_b ipb ir field message) \<noteq> None"
proof -
  obtain grid report token where f: "field = (grid, report, token)" by (cases field)
  have "m_from (fill_standard call_a ipa call_b ipb ir field message) \<in>
      {to_callsign call_b, apply_suffix (to_callsign call_b) ipb}"
    by (simp add: f fill_standard_def Let_def split: callsign_field.splits option.splits)
  then show ?thesis using to_callsign_Some [of call_b] apply_suffix_None [of "to_callsign call_b" ipb] by auto
qed

lemma fill_standard_grid:
  assumes "m_grid (fill_standard call_a ipa call_b ipb ir field message) = Some g" "m_grid message = None"
  shows "fst field = Some g \<and> g \<noteq> ''RR73''"
proof -
  obtain grid report token where f: "field = (grid, report, token)" by (cases field)
  have "m_grid (fill_standard call_a ipa call_b ipb ir field message) \<in>
      {None, if grid = Some ''RR73'' then None else grid}"
    using assms(2) by (simp add: f fill_standard_def Let_def split: callsign_field.splits option.splits)
  then show ?thesis using assms(1) by (auto simp: f split: if_splits)
qed

lemma fill_standard_report:
  assumes "m_report (fill_standard call_a ipa call_b ipb ir field message) = Some r" "m_report message = None"
  shows "m_standard (fill_standard call_a ipa call_b ipb ir field message) \<in> {Some Report, Some ReportWithR}"
  using assms
  by (simp add: fill_standard_def Let_def split: prod.splits callsign_field.splits option.splits if_split_asm)

text \<open>Every parser keeps the type it is given.\<close>

lemma parsers_keep_type:
  "parse_freetext bits message = Inr msg \<Longrightarrow> m_type msg = m_type message"
  "parse_telemetry_type0 bits message = Inr msg \<Longrightarrow> m_type msg = m_type message"
  "parse_dxpedition_type0 ht bits message = Inr msg \<Longrightarrow> m_type msg = m_type message"
  "parse_eu_vhf_type0 bits message = Inr msg \<Longrightarrow> m_type msg = m_type message"
  "parse_field_day_type0 bits message = Inr msg \<Longrightarrow> m_type msg = m_type message"
  "parse_rtty_roundup bits message = Inr msg \<Longrightarrow> m_type msg = m_type message"
  "parse_nonstd_call ht bits message = Inr msg \<Longrightarrow> m_type msg = m_type message"
  unfolding parse_freetext_def parse_telemetry_type0_def parse_dxpedition_type0_def parse_eu_vhf_type0_def
    parse_field_day_type0_def parse_rtty_roundup_def parse_nonstd_call_def Let_def
  by (auto split: option.splits sum.splits if_splits)

lemma parse_payload_types:
  assumes "parse_payload ht bits = Inr msg"
  shows "m_type msg = Standard \<and> parse_type1_standard bits (default_message \<lparr> m_payload := bits, m_type := Standard \<rparr>) = Inr msg \<or>
    m_type msg \<in> {FreeText, Telemetry, DXpedition, Contest, FieldDay, RTTYRoundup, NonStdCall, Unknown}"
proof -
  have std: "parse_type1_standard bits m0 = Inr msg \<Longrightarrow> m_type msg = m_type m0" for m0
    by (auto simp: parse_type1_standard_def Let_def)
  show ?thesis
    using assms unfolding parse_payload_def Let_def
    by (auto dest: parsers_keep_type std split: if_splits)
qed

lemma parse_standard_fields:
  assumes "parse_payload ht bits = Inr msg" "m_type msg = Standard"
  shows "m_from msg \<noteq> None" "m_grid msg = Some g \<Longrightarrow> is_grid4 g \<and> g \<noteq> ''RR73''"
    "m_report msg = Some r \<Longrightarrow> m_standard msg = Some Report \<or> m_standard msg = Some ReportWithR"
proof -
  obtain ca ipa cb ipb ir v where m: "msg = fill_standard ca ipa cb ipb ir (unpackgrid v ir)
      (default_message \<lparr> m_payload := bits, m_type := Standard \<rparr>)"
    using parse_payload_types [OF assms(1)] assms(2) by (auto simp: parse_type1_standard_def Let_def)
  show "m_from msg \<noteq> None" unfolding m by (rule fill_standard_from)
  show "m_report msg = Some r \<Longrightarrow> m_standard msg = Some Report \<or> m_standard msg = Some ReportWithR"
    unfolding m by (drule fill_standard_report) (simp_all add: default_message_def)
  show "m_grid msg = Some g \<Longrightarrow> is_grid4 g \<and> g \<noteq> ''RR73''"
    unfolding m using unpackgrid_is_grid4 [of v ir g] by (drule_tac fill_standard_grid) (auto simp: default_message_def prod_eq_iff)
qed

lemma parse_nonstd_fields:
  assumes "parse_payload ht bits = Inr msg" "m_type msg = NonStdCall"
  shows "m_from msg \<noteq> None" "m_to msg \<noteq> None" "m_exchange msg \<in> {None, Some ''RRR'', Some ''RR73'', Some ''73''}"
proof -
  have "parse_nonstd_call ht bits (default_message \<lparr> m_payload := bits, m_type := NonStdCall \<rparr>) = Inr msg"
    using assms parsers_keep_type unfolding parse_payload_def parse_type1_standard_def Let_def
    by (auto simp: default_message_def split: if_splits)
  then show "m_from msg \<noteq> None" "m_to msg \<noteq> None" "m_exchange msg \<in> {None, Some ''RRR'', Some ''RR73'', Some ''73''}"
    by (auto simp: parse_nonstd_call_def Let_def default_message_def split: if_splits)
qed

text \<open>The calls of a message with a nonstandard call: \<open>CQ\<close>, a hash rendering, or a call of 3 to 11 letters, digits and slashes with a
  letter and a digit among them.\<close>

definition nonstd_shape :: "string \<Rightarrow> bool" where
  "nonstd_shape c \<longleftrightarrow>
     c = ''CQ'' \<or> (\<exists>x. c = ''<'' @ x @ ''>'') \<or>
     3 \<le> length c \<and> length c \<le> 11 \<and> (\<forall>x \<in> set c. is_ascii_alphanumeric x \<or> x = CHR ''/'') \<and>
     (\<exists>d \<in> set c. is_ascii_digit d) \<and> (\<exists>l \<in> set c. is_ascii_alphabetic l)"

lemma bracketed: "starts_with c ''<'' \<Longrightarrow> ends_with c ''>'' \<Longrightarrow> 2 \<le> length c \<Longrightarrow> \<exists>x. c = ''<'' @ x @ ''>''"
proof -
  assume c: "starts_with c ''<''" "ends_with c ''>''" "2 \<le> length c"
  from c(1) obtain r where r: "c = CHR ''<'' # r" by (cases c) (auto simp: starts_with_def)
  then have "drop (length r - 1) r = ''>''" using c(2,3) by (cases "length r") (auto simp: ends_with_def)
  then have "r = take (length r - 1) r @ ''>''" by (metis append_take_drop_id)
  then have "c = ''<'' @ take (length r - 1) r @ ''>''" using r by simp
  then show ?thesis by blast
qed

lemma trunc_rem_even: "trunc_rem a 2 = 0 \<Longrightarrow> even a"
  unfolding trunc_rem_def by (rule dvdI [of _ _ "trunc_div a 2"]) simp

lemma looks_like_nonstandard_shape: "looks_like_nonstandard_callsign c \<Longrightarrow> nonstd_shape c"
  using bracketed [of c] by (auto simp: looks_like_nonstandard_callsign_def nonstd_shape_def list_all_iff list_ex_iff split: if_splits)

text \<open>C21: what is accepted. Whatever 77 bits are decoded, the receiver passes on only standard messages, messages with a nonstandard
  call, and in Hound mode DXpedition frames. In a standard one the sender is present, every call is a hash rendering or has the
  shape and prefix of a call, a grid is a locator, and a report is between -50 and +49 dB. In one with a nonstandard call both
  calls are present, each is \<open>CQ\<close>, a hash rendering or 3 to 11 letters, digits and slashes with a letter and a digit, and the
  exchange is a closing token or none. In a DXpedition frame both Hounds' calls have the shape and prefix of a call, and the report
  is an even number from -30 to 32.\<close>

theorem accepted_decodes_are_well_formed:
  assumes "parse_payload (mp_hash_table p) bits = Inr msg" and "parser_is_plausible p msg"
  shows "m_type msg \<in> {Standard, NonStdCall, DXpedition} \<and>
    (m_type msg = Standard \<longrightarrow>
       m_from msg \<noteq> None \<and> list_all call_shape (present_calls msg) \<and>
       (\<forall>g. m_grid msg = Some g \<longrightarrow> is_grid4 g \<and> g \<noteq> ''RR73'') \<and>
       (\<forall>r. m_report msg = Some r \<longrightarrow> - 50 \<le> r \<and> r \<le> 49)) \<and>
    (m_type msg = NonStdCall \<longrightarrow>
       (\<exists>a b. m_to msg = Some a \<and> m_from msg = Some b \<and> nonstd_shape a \<and> nonstd_shape b) \<and>
       m_exchange msg \<in> {None, Some ''RRR'', Some ''RR73'', Some ''73''}) \<and>
    (m_type msg = DXpedition \<longrightarrow> active_hound p \<and>
       (\<exists>c. m_dxpedition msg = Some c \<and> call_shape (rr73_to c) \<and> call_shape (report_to c) \<and>
          - 30 \<le> report_db c \<and> report_db c \<le> 32 \<and> even (report_db c)))"
proof -
  have types: "m_type msg \<in> {Standard, NonStdCall, DXpedition}"
    using parse_payload_types [OF assms(1)] assms(2)
    by (auto simp: parser_is_plausible_def is_plausible_def Let_def split: if_splits)
  have standard: "m_from msg \<noteq> None \<and> list_all call_shape (present_calls msg) \<and>
       (\<forall>g. m_grid msg = Some g \<longrightarrow> is_grid4 g \<and> g \<noteq> ''RR73'') \<and> (\<forall>r. m_report msg = Some r \<longrightarrow> - 50 \<le> r \<and> r \<le> 49)"
    if std: "m_type msg = Standard"
  proof (intro conjI allI impI)
    note f = parse_standard_fields [OF assms(1) std]
    have pl: "list_all looks_like_callsign (present_calls msg)" "has_plausible_payload msg"
      using assms(2) std by (auto simp: parser_is_plausible_def is_plausible_def Let_def split: if_splits)
    show "m_from msg \<noteq> None" by (rule f(1))
    show "list_all call_shape (present_calls msg)" using pl(1) looks_like_callsign_shape by (simp add: list_all_iff)
    show "is_grid4 g" "g \<noteq> ''RR73''" if "m_grid msg = Some g" for g using f(2) [OF that] by simp_all
    have "\<not> (case m_to msg of Some t \<Rightarrow> t = ''CQ'' \<or> starts_with t ''CQ '' | None \<Rightarrow> False)"
      using pl(1) call_not_cq by (auto simp: present_calls_def List.map_filter_def split: option.splits if_splits)
    then show "- 50 \<le> r" "r \<le> 49" if "m_report msg = Some r" for r
      using f(3) [OF that] pl(2) std that by (auto simp: has_plausible_payload_def)
  qed
  have nonstandard: "(\<exists>a b. m_to msg = Some a \<and> m_from msg = Some b \<and> nonstd_shape a \<and> nonstd_shape b) \<and>
       m_exchange msg \<in> {None, Some ''RRR'', Some ''RR73'', Some ''73''}" if "m_type msg = NonStdCall"
  proof
    note f = parse_nonstd_fields [OF assms(1) that]
    obtain a b where ab: "m_to msg = Some a" "m_from msg = Some b" using f(1,2) by blast
    have "list_all looks_like_nonstandard_callsign (present_calls msg)"
      using assms(2) that by (auto simp: parser_is_plausible_def is_plausible_def Let_def split: if_splits)
    then have "nonstd_shape a \<and> nonstd_shape b"
      using looks_like_nonstandard_shape by (simp add: present_calls_def ab map_filter_simps)
    with ab show "\<exists>a b. m_to msg = Some a \<and> m_from msg = Some b \<and> nonstd_shape a \<and> nonstd_shape b" by blast
    show "m_exchange msg \<in> {None, Some ''RRR'', Some ''RR73'', Some ''73''}" by (rule f(3))
  qed
  have dx: "active_hound p \<and> (\<exists>c. m_dxpedition msg = Some c \<and> call_shape (rr73_to c) \<and> call_shape (report_to c) \<and>
          - 30 \<le> report_db c \<and> report_db c \<le> 32 \<and> even (report_db c))" if "m_type msg = DXpedition"
    using assms(2) that looks_like_callsign_shape trunc_rem_even
    by (auto simp: parser_is_plausible_def split: option.splits)
  show ?thesis using types standard nonstandard dx by blast
qed

definition accepted_bits :: "bool list" where
  "accepted_bits = unpack_msb 77 (projr (try_encode_standard ''W1ABC K9XYZ -12''))"

theorem accepted_decodes_are_well_formed_witness:
  "\<exists>msg. parse_payload hash_table_new accepted_bits = Inr msg \<and> m_type msg = Standard \<and>
     parser_is_plausible message_parser_new msg \<and> list_all call_shape (present_calls msg) \<and>
     (\<forall>r. m_report msg = Some r \<longrightarrow> - 50 \<le> r \<and> r \<le> 49)"
proof -
  let ?m = "projr (parse_payload hash_table_new accepted_bits)"
  have p: "parse_payload (mp_hash_table message_parser_new) accepted_bits = Inr ?m" by code_simp
  have a: "parser_is_plausible message_parser_new ?m" "m_type ?m = Standard" by code_simp+
  have "mp_hash_table message_parser_new = hash_table_new" by (simp add: message_parser_new_def)
  with accepted_decodes_are_well_formed [OF p a(1)] p a show ?thesis by auto
qed

end
