(* ===== verification/Policy.thy ===== *)
theory Policy
  imports Prelude
begin

text \<open>
  The operator's global switches of \<^verbatim>\<open>pancetta-core\<close>: \<^verbatim>\<open>tx_policy.rs\<close>,
  \<^verbatim>\<open>tx_freq_mode.rs\<close> and \<^verbatim>\<open>response_step.rs\<close>. Both switches are stored in an
  \<open>AtomicU8\<close>; the interface of such a stored enumeration is a locale.
\<close>

section \<open>Definitions\<close>

datatype tx_policy = Full | RespondOnly | Disabled

definition tx_policy_default :: tx_policy where "tx_policy_default = Full"

fun allows_initiation :: "tx_policy \<Rightarrow> bool" where
  "allows_initiation Full = True"
| "allows_initiation _ = False"

fun allows_any_tx :: "tx_policy \<Rightarrow> bool" where
  "allows_any_tx Full = True"
| "allows_any_tx RespondOnly = True"
| "allows_any_tx Disabled = False"

fun policy_as_u8 :: "tx_policy \<Rightarrow> u8" where
  "policy_as_u8 Full = 0"
| "policy_as_u8 RespondOnly = 1"
| "policy_as_u8 Disabled = 2"

definition policy_from_u8 :: "u8 \<Rightarrow> tx_policy" where
  "policy_from_u8 v =
     (if v = 0 then Full else if v = 1 then RespondOnly else if v = 2 then Disabled else Full)"

fun cycle :: "tx_policy \<Rightarrow> tx_policy" where
  "cycle Full = RespondOnly"
| "cycle RespondOnly = Disabled"
| "cycle Disabled = Full"

fun policy_label :: "tx_policy \<Rightarrow> string" where
  "policy_label Full = ''FULL''"
| "policy_label RespondOnly = ''RESPOND-ONLY''"
| "policy_label Disabled = ''DISABLED''"

datatype tx_freq_mode = Hold | Auto_Freq

definition tx_freq_mode_default :: tx_freq_mode where "tx_freq_mode_default = Hold"

fun allows_auto_change :: "tx_freq_mode \<Rightarrow> bool" where
  "allows_auto_change Auto_Freq = True"
| "allows_auto_change Hold = False"

fun freq_mode_as_u8 :: "tx_freq_mode \<Rightarrow> u8" where
  "freq_mode_as_u8 Hold = 0"
| "freq_mode_as_u8 Auto_Freq = 1"

definition freq_mode_from_u8 :: "u8 \<Rightarrow> tx_freq_mode" where
  "freq_mode_from_u8 v = (if v = 1 then Auto_Freq else Hold)"

fun toggle :: "tx_freq_mode \<Rightarrow> tx_freq_mode" where
  "toggle Hold = Auto_Freq"
| "toggle Auto_Freq = Hold"

fun freq_mode_label :: "tx_freq_mode \<Rightarrow> string" where
  "freq_mode_label Hold = ''HOLD''"
| "freq_mode_label Auto_Freq = ''AUTO''"

datatype response_step = Grid_Step | Report_Step | ReportAck_Step | Rr73_Step | SeventyThree_Step

definition response_step_default :: response_step where "response_step_default = Grid_Step"

section \<open>An enumeration stored in an atomic byte\<close>

locale atomic_enum =
  fixes enc :: "'a \<Rightarrow> u8"
    and dec :: "u8 \<Rightarrow> 'a"
    and dflt :: 'a
    and nxt :: "'a \<Rightarrow> 'a"
  assumes dec_enc: "dec (enc x) = x"
    and dec_unknown: "v \<notin> range enc \<Longrightarrow> dec v = dflt"
    and nxt_moves: "nxt x \<noteq> x"
begin

lemma enc_inj: "enc x = enc y \<Longrightarrow> x = y"
  by (metis dec_enc)

text \<open>A load, an operator's key press and a store: the stored byte always decodes to a value the
  operator's key reaches, and the press is never lost.\<close>

definition press :: "u8 \<Rightarrow> u8" where
  "press v = enc (nxt (dec v))"

lemma press_decodes: "dec (press v) = nxt (dec v)"
  by (simp add: press_def dec_enc)

lemma press_changes: "press v \<noteq> v"
  by (metis press_decodes nxt_moves)

lemma press_iterate: "dec ((press ^^ n) v) = (nxt ^^ n) (dec v)"
  by (induction n) (simp_all add: press_decodes)

end

interpretation policy: atomic_enum policy_as_u8 policy_from_u8 tx_policy_default cycle
proof
  show "policy_from_u8 (policy_as_u8 x) = x" for x by (cases x) (simp_all add: policy_from_u8_def)
  show "policy_from_u8 v = tx_policy_default" if "v \<notin> range policy_as_u8" for v
  proof -
    have "policy_as_u8 Full \<noteq> v" "policy_as_u8 RespondOnly \<noteq> v" "policy_as_u8 Disabled \<noteq> v" using that by blast+
    then show ?thesis by (auto simp: policy_from_u8_def tx_policy_default_def)
  qed
  show "cycle x \<noteq> x" for x by (cases x) simp_all
qed

interpretation freq_mode: atomic_enum freq_mode_as_u8 freq_mode_from_u8 tx_freq_mode_default toggle
proof
  show "freq_mode_from_u8 (freq_mode_as_u8 x) = x" for x by (cases x) (simp_all add: freq_mode_from_u8_def)
  show "freq_mode_from_u8 v = tx_freq_mode_default" if "v \<notin> range freq_mode_as_u8" for v
  proof -
    have "freq_mode_as_u8 Auto_Freq \<noteq> v" using that by blast
    then show ?thesis by (auto simp: freq_mode_from_u8_def tx_freq_mode_default_def)
  qed
  show "toggle x \<noteq> x" for x by (cases x) simp_all
qed

lemma initiation_needs_tx: "allows_initiation p \<Longrightarrow> allows_any_tx p"
  by (cases p) simp_all

lemma cycle_three: "(cycle ^^ 3) p = p" "cycle p \<noteq> p" "(cycle ^^ 2) p \<noteq> p"
  by (cases p; simp add: numeral_eq_Suc)+

section \<open>Properties\<close>

text \<open>The stored transmit policy survives the atomic byte, the operator's key reaches the hard mute
  from every stored value within two presses and returns after three, and permission to initiate
  always includes permission to transmit.\<close>

theorem tx_policy_switch:
  "policy_from_u8 (policy_as_u8 p) = p \<and>
   (\<exists>n\<le>2. \<not> allows_any_tx ((cycle ^^ n) p)) \<and> (cycle ^^ 3) p = p \<and>
   (\<not> allows_any_tx p \<longrightarrow> \<not> allows_initiation p)"
proof -
  have "\<exists>n\<le>2. \<not> allows_any_tx ((cycle ^^ n) p)"
  proof (cases p)
    case Full
    then show ?thesis by (intro exI [of _ 2]) (simp add: numeral_eq_Suc)
  next
    case RespondOnly
    then show ?thesis by (intro exI [of _ 1]) simp
  next
    case Disabled
    then show ?thesis by (intro exI [of _ 0]) simp
  qed
  then show ?thesis using policy.dec_enc cycle_three(1) initiation_needs_tx by blast
qed

theorem tx_policy_switch_witness:
  "policy_from_u8 (policy_as_u8 Disabled) = Disabled \<and> \<not> allows_any_tx Disabled \<and> \<not> allows_initiation Disabled"
  using tx_policy_switch [of Disabled] by simp

end
