(* ===== verification/Arm.thy ===== *)
theory Arm
  imports Prelude Machine
begin

text \<open>
  The armed-TX safety state machine of \<^verbatim>\<open>pancetta-agent/src/arm.rs\<close>: grants, the armed
  session and its three kinds of deadline (signed wall-clock horizons, elapsed lifetime, heartbeat
  silence), every event of \<open>ArmState\<close> with the effects it returns, and the gate \<open>tx_permitted\<close>.
  Monotonic instants and durations are nanoseconds, the suspend-aware clock and wall time are \<open>i64\<close>
  milliseconds.
\<close>

section \<open>Audit records\<close>

datatype audit_kind =
    Armed | Disarmed_Kind | TxRequested | TxDenied | LocalKill | LocalConsentChanged | Summary

record audit_event =
  ts_unix_ms :: int
  kind :: audit_kind
  ev_operator :: "string option"
  detail :: string

section \<open>Grants and reasons\<close>

definition HEARTBEAT_TIMEOUT_MS :: int where "HEARTBEAT_TIMEOUT_MS = 30000"

text \<open>\<open>HEARTBEAT_TIMEOUT\<close>, in nanoseconds.\<close>

definition HEARTBEAT_TIMEOUT :: int where "HEARTBEAT_TIMEOUT = HEARTBEAT_TIMEOUT_MS * 1000000"

record arm_time =
  unix_ms :: int
  monotonic :: int
  suspend_aware_ms :: int

datatype disarm_reason =
    OperatorDisarm | TtlExpired | CapabilityExpired | TxEnablementExpired | HeartbeatLost
  | ComponentCrash | AuthorizationRevoked

fun disarm_reason_as_str :: "disarm_reason \<Rightarrow> string" where
  "disarm_reason_as_str OperatorDisarm = ''operator-disarm''"
| "disarm_reason_as_str TtlExpired = ''ttl-expired''"
| "disarm_reason_as_str CapabilityExpired = ''capability-expired''"
| "disarm_reason_as_str TxEnablementExpired = ''tx-enablement-expired''"
| "disarm_reason_as_str HeartbeatLost = ''heartbeat-lost''"
| "disarm_reason_as_str ComponentCrash = ''component-crash''"
| "disarm_reason_as_str AuthorizationRevoked = ''authorization-revoked''"

datatype deny_reason =
    NotArmed | Deny_Expired | Deny_CapabilityExpired | Deny_TxEnablementExpired | Deny_HeartbeatLost
  | NoLocalConsent | LocallyKilled | NoTxScope

fun deny_reason_as_str :: "deny_reason \<Rightarrow> string" where
  "deny_reason_as_str NotArmed = ''not-armed''"
| "deny_reason_as_str Deny_Expired = ''ttl-expired''"
| "deny_reason_as_str Deny_CapabilityExpired = ''capability-expired''"
| "deny_reason_as_str Deny_TxEnablementExpired = ''tx-enablement-expired''"
| "deny_reason_as_str Deny_HeartbeatLost = ''heartbeat-lost''"
| "deny_reason_as_str NoLocalConsent = ''no-local-consent''"
| "deny_reason_as_str LocallyKilled = ''locally-killed''"
| "deny_reason_as_str NoTxScope = ''no-tx-scope''"

datatype tx_permit = Permitted | Denied deny_reason

datatype consent_channel = StationAgent | WsjtxUdp

fun consent_channel_as_str :: "consent_channel \<Rightarrow> string" where
  "consent_channel_as_str StationAgent = ''station_agent''"
| "consent_channel_as_str WsjtxUdp = ''wsjtx_udp''"

record verified_arm_grant =
  g_operator_callsign :: string
  g_ttl_ms :: int
  g_armed_until_ms :: int
  g_capability_exp_ms :: int
  g_tx_enabled_until_ms :: int
  g_effective_ttl_ms :: int
  g_heartbeat_interval_sec :: int
  g_scope_tx :: bool
  g_jti :: string
  g_client_key_id :: string

definition authority_deadline :: "int \<Rightarrow> int \<Rightarrow> int \<Rightarrow> int \<times> disarm_reason" where
  "authority_deadline arm capability enablement =
     (if capability \<le> enablement \<and> capability \<le> arm then (capability, CapabilityExpired)
      else if enablement \<le> arm then (enablement, TxEnablementExpired)
      else (arm, TtlExpired))"

definition effective_deadline :: "verified_arm_grant \<Rightarrow> int \<times> disarm_reason" where
  "effective_deadline g =
     authority_deadline (g_armed_until_ms g) (g_capability_exp_ms g) (g_tx_enabled_until_ms g)"

section \<open>The armed session\<close>

datatype arm_effect =
    Audit audit_event
  | Disarmed disarm_reason
  | HeartbeatRejected string

record armed_session =
  s_operator_callsign :: string
  armed_at :: int
  armed_at_suspend_aware_ms :: int
  lifetime :: int
  armed_until_ms :: int
  capability_exp_ms :: int
  tx_enabled_until_ms :: int
  lifetime_reason :: disarm_reason
  last_heartbeat :: int
  last_heartbeat_suspend_aware_ms :: int
  heartbeat_interval_sec :: int
  scope_tx :: bool
  current_jti :: string
  client_key_id :: string
  last_heartbeat_seq :: "nat option"

definition suspend_aware_elapsed_reaches :: "int \<Rightarrow> int \<Rightarrow> int \<Rightarrow> bool" where
  "suspend_aware_elapsed_reaches now since limit_ms \<longleftrightarrow>
     now < since \<or> i64_saturating_sub now since \<ge> limit_ms"

text \<open>\<open>now.checked_duration_since(since).is_none_or(|elapsed| elapsed >= limit)\<close>.\<close>

definition monotonic_elapsed_reaches :: "int \<Rightarrow> int \<Rightarrow> int \<Rightarrow> bool" where
  "monotonic_elapsed_reaches now since limit \<longleftrightarrow> now < since \<or> now - since \<ge> limit"

definition lifetime_over :: "armed_session \<Rightarrow> arm_time \<Rightarrow> bool" where
  "lifetime_over s now \<longleftrightarrow>
     (let lifetime_ms = (let ms = lifetime s div 1000000 in if ms \<le> I64_MAX then ms else I64_MAX) in
      monotonic_elapsed_reaches (monotonic now) (armed_at s) (lifetime s) \<or>
      suspend_aware_elapsed_reaches (suspend_aware_ms now) (armed_at_suspend_aware_ms s) lifetime_ms)"

definition silence_over :: "armed_session \<Rightarrow> arm_time \<Rightarrow> bool" where
  "silence_over s now \<longleftrightarrow>
     monotonic_elapsed_reaches (monotonic now) (last_heartbeat s) HEARTBEAT_TIMEOUT \<or>
     suspend_aware_elapsed_reaches (suspend_aware_ms now) (last_heartbeat_suspend_aware_ms s)
       HEARTBEAT_TIMEOUT_MS"

definition expired_reason :: "armed_session \<Rightarrow> arm_time \<Rightarrow> disarm_reason option" where
  "expired_reason s now =
     (let (deadline, reason) = authority_deadline (armed_until_ms s) (capability_exp_ms s) (tx_enabled_until_ms s) in
      if unix_ms now \<ge> deadline then Some reason
      else if lifetime_over s now then Some (lifetime_reason s)
      else if silence_over s now then Some HeartbeatLost
      else None)"

section \<open>The state and its events\<close>

record arm_state =
  session :: "armed_session option"
  station_agent_consent :: bool
  wsjtx_consent :: bool
  local_kill :: bool

definition arm_state_new :: arm_state where
  "arm_state_new = \<lparr> session = None, station_agent_consent = False, wsjtx_consent = False, local_kill = False \<rparr>"

definition is_armed :: "arm_state \<Rightarrow> bool" where
  "is_armed st \<longleftrightarrow> session st \<noteq> None"

fun channel_consent :: "arm_state \<Rightarrow> consent_channel \<Rightarrow> bool" where
  "channel_consent st StationAgent = station_agent_consent st"
| "channel_consent st WsjtxUdp = wsjtx_consent st"

definition operator_callsign :: "arm_state \<Rightarrow> string option" where
  "operator_callsign st = map_option s_operator_callsign (session st)"

definition current_arm_jti :: "arm_state \<Rightarrow> string option" where
  "current_arm_jti st = map_option current_jti (session st)"

definition armed_client_key_id :: "arm_state \<Rightarrow> string option" where
  "armed_client_key_id st = map_option client_key_id (session st)"

definition audit :: "int \<Rightarrow> audit_kind \<Rightarrow> string option \<Rightarrow> string \<Rightarrow> arm_effect" where
  "audit ts k op d = Audit \<lparr> ts_unix_ms = ts, kind = k, ev_operator = op, detail = d \<rparr>"

text \<open>The remaining authority at acceptance and its cause.\<close>

definition grant_lifetime :: "verified_arm_grant \<Rightarrow> arm_time \<Rightarrow> int \<times> disarm_reason" where
  "grant_lifetime g now =
     (let (deadline, deadline_reason) = effective_deadline g;
          authority_lifetime = min (g_effective_ttl_ms g) (i64_saturating_sub deadline (unix_ms now));
          reason = (if g_ttl_ms g < authority_lifetime then TtlExpired else deadline_reason)
      in (min (g_ttl_ms g) authority_lifetime, reason))"

definition session_of_grant :: "verified_arm_grant \<Rightarrow> arm_time \<Rightarrow> armed_session" where
  "session_of_grant g now =
     (let (lifetime_ms, reason) = grant_lifetime g now in
      \<lparr> s_operator_callsign = g_operator_callsign g,
        armed_at = monotonic now,
        armed_at_suspend_aware_ms = suspend_aware_ms now,
        lifetime = \<bar>lifetime_ms\<bar> * 1000000,
        armed_until_ms = g_armed_until_ms g,
        capability_exp_ms = g_capability_exp_ms g,
        tx_enabled_until_ms = g_tx_enabled_until_ms g,
        lifetime_reason = reason,
        last_heartbeat = monotonic now,
        last_heartbeat_suspend_aware_ms = suspend_aware_ms now,
        heartbeat_interval_sec = g_heartbeat_interval_sec g,
        scope_tx = True,
        current_jti = g_jti g,
        client_key_id = g_client_key_id g,
        last_heartbeat_seq = None \<rparr>)"

definition arm :: "arm_state \<Rightarrow> verified_arm_grant \<Rightarrow> arm_time \<Rightarrow> arm_state \<times> arm_effect list" where
  "arm st g now =
     (if \<not> g_scope_tx g then
        (st, [audit (unix_ms now) TxDenied (Some (g_operator_callsign g))
                (''arm rejected: '' @ deny_reason_as_str NoTxScope)])
      else if \<not> station_agent_consent st then
        (st, [audit (unix_ms now) TxDenied (Some (g_operator_callsign g))
                (''arm rejected: '' @ deny_reason_as_str NoLocalConsent @ '' ('' @
                 consent_channel_as_str StationAgent @ '')'')])
      else
        let (lifetime_ms, reason) = grant_lifetime g now in
        if lifetime_ms \<le> 0 then
          (st, [audit (unix_ms now) TxDenied (Some (g_operator_callsign g))
                  (''arm rejected: '' @ disarm_reason_as_str reason)])
        else
          (st \<lparr> session := Some (session_of_grant g now) \<rparr>,
           [audit (unix_ms now) Armed (Some (g_operator_callsign g))
              (''armed ttl_ms='' @ int_to_dec lifetime_ms @
               '' heartbeat_interval_sec='' @ int_to_dec (g_heartbeat_interval_sec g) @
               '' heartbeat_timeout_ms='' @ int_to_dec HEARTBEAT_TIMEOUT_MS)]))"

definition tick :: "arm_state \<Rightarrow> arm_time \<Rightarrow> arm_state \<times> arm_effect list" where
  "tick st now =
     (case session st of
        None \<Rightarrow> (st, [])
      | Some s \<Rightarrow>
          (case expired_reason s now of
             Some reason \<Rightarrow>
               (st \<lparr> session := None \<rparr>,
                [audit (unix_ms now) Disarmed_Kind (Some (s_operator_callsign s))
                   (''auto-disarm: '' @ disarm_reason_as_str reason),
                 Disarmed reason])
           | None \<Rightarrow> (st, [])))"

text \<open>The part of \<open>heartbeat\<close> after the expiry sweep, on the live session.\<close>

definition heartbeat_live :: "arm_state \<Rightarrow> armed_session \<Rightarrow> string \<Rightarrow> nat \<Rightarrow> arm_time \<Rightarrow> arm_state \<times> arm_effect list" where
  "heartbeat_live st s arm_jti seq now =
     (if arm_jti \<noteq> current_jti s then
        (st, [audit (unix_ms now) TxDenied (Some (s_operator_callsign s))
                (''heartbeat rejected: '' @ ''arm_jti mismatch''),
              HeartbeatRejected ''arm_jti mismatch''])
      else
        case last_heartbeat_seq s of
          Some l \<Rightarrow>
            if seq \<le> l then
              (st, [audit (unix_ms now) TxDenied (Some (s_operator_callsign s))
                      (''heartbeat rejected: '' @ ''non-monotonic seq'' @ '' (seq='' @ nat_to_dec seq @
                       '', last='' @ nat_to_dec l @ '')''),
                    HeartbeatRejected ''non-monotonic seq''])
            else
              (st \<lparr> session := Some (s \<lparr> last_heartbeat_seq := Some seq, last_heartbeat := monotonic now,
                                      last_heartbeat_suspend_aware_ms := suspend_aware_ms now \<rparr>) \<rparr>, [])
        | None \<Rightarrow>
            (st \<lparr> session := Some (s \<lparr> last_heartbeat_seq := Some seq, last_heartbeat := monotonic now,
                                    last_heartbeat_suspend_aware_ms := suspend_aware_ms now \<rparr>) \<rparr>, []))"

definition heartbeat :: "arm_state \<Rightarrow> string \<Rightarrow> nat \<Rightarrow> arm_time \<Rightarrow> arm_state \<times> arm_effect list" where
  "heartbeat st arm_jti seq now =
     (let (st, expired) = tick st now in
      if expired \<noteq> [] then (st, expired)
      else case session st of
             None \<Rightarrow> (st, [])
           | Some s \<Rightarrow> heartbeat_live st s arm_jti seq now)"

definition disarm_with_reason :: "arm_state \<Rightarrow> disarm_reason \<Rightarrow> int \<Rightarrow> arm_state \<times> arm_effect list" where
  "disarm_with_reason st reason now_ms =
     (case session st of
        Some s \<Rightarrow>
          (st \<lparr> session := None \<rparr>,
           [audit now_ms Disarmed_Kind (Some (s_operator_callsign s))
              (''disarmed: '' @ disarm_reason_as_str reason),
            Disarmed reason])
      | None \<Rightarrow> (st, []))"

definition disarm :: "arm_state \<Rightarrow> int \<Rightarrow> arm_state \<times> arm_effect list" where
  "disarm st now_ms = disarm_with_reason st OperatorDisarm now_ms"

definition bool_to_str :: "bool \<Rightarrow> string" where
  "bool_to_str b = (if b then ''true'' else ''false'')"

fun with_channel_consent :: "arm_state \<Rightarrow> consent_channel \<Rightarrow> bool \<Rightarrow> arm_state" where
  "with_channel_consent st StationAgent b = st \<lparr> station_agent_consent := b \<rparr>"
| "with_channel_consent st WsjtxUdp b = st \<lparr> wsjtx_consent := b \<rparr>"

definition set_channel_consent :: "arm_state \<Rightarrow> consent_channel \<Rightarrow> bool \<Rightarrow> int \<Rightarrow> arm_state \<times> arm_effect list" where
  "set_channel_consent st channel enabled now_ms =
     (if channel_consent st channel = enabled then (st, [])
      else (with_channel_consent st channel enabled,
            [audit now_ms LocalConsentChanged (operator_callsign st)
               (''local consent '' @ consent_channel_as_str channel @ ''='' @ bool_to_str enabled)]))"

definition set_local_kill :: "arm_state \<Rightarrow> bool \<Rightarrow> int \<Rightarrow> arm_state \<times> arm_effect list" where
  "set_local_kill st engaged now_ms =
     (if local_kill st = engaged then (st, [])
      else (st \<lparr> local_kill := engaged \<rparr>,
            [audit now_ms LocalKill (operator_callsign st) (''local_kill engaged='' @ bool_to_str engaged)]))"

section \<open>The gate\<close>

definition tx_permit_reason :: "arm_state \<Rightarrow> arm_time \<Rightarrow> consent_channel \<Rightarrow> tx_permit" where
  "tx_permit_reason st now channel =
     (case session st of
        None \<Rightarrow> Denied NotArmed
      | Some s \<Rightarrow>
          if \<not> scope_tx s then Denied NoTxScope
          else case expired_reason s now of
              Some TtlExpired \<Rightarrow> Denied Deny_Expired
            | Some CapabilityExpired \<Rightarrow> Denied Deny_CapabilityExpired
            | Some TxEnablementExpired \<Rightarrow> Denied Deny_TxEnablementExpired
            | Some HeartbeatLost \<Rightarrow> Denied Deny_HeartbeatLost
            | Some OperatorDisarm \<Rightarrow> Denied NotArmed
            | Some ComponentCrash \<Rightarrow> Denied NotArmed
            | Some AuthorizationRevoked \<Rightarrow> Denied NotArmed
            | None \<Rightarrow>
                if \<not> channel_consent st channel then Denied NoLocalConsent
                else if local_kill st then Denied LocallyKilled
                else Permitted)"

definition tx_permitted :: "arm_state \<Rightarrow> arm_time \<Rightarrow> consent_channel \<Rightarrow> bool" where
  "tx_permitted st now channel = (case tx_permit_reason st now channel of Permitted \<Rightarrow> True | Denied _ \<Rightarrow> False)"

section \<open>Events\<close>

datatype arm_event =
    Ev_Arm verified_arm_grant arm_time
  | Ev_Heartbeat string nat arm_time
  | Ev_Disarm int
  | Ev_DisarmReason disarm_reason int
  | Ev_Consent consent_channel bool int
  | Ev_Kill bool int
  | Ev_Tick arm_time

fun arm_step :: "arm_state \<Rightarrow> arm_event \<Rightarrow> arm_state \<times> arm_effect list" where
  "arm_step st (Ev_Arm g now) = arm st g now"
| "arm_step st (Ev_Heartbeat jti seq now) = heartbeat st jti seq now"
| "arm_step st (Ev_Disarm ms) = disarm st ms"
| "arm_step st (Ev_DisarmReason r ms) = disarm_with_reason st r ms"
| "arm_step st (Ev_Consent ch b ms) = set_channel_consent st ch b ms"
| "arm_step st (Ev_Kill b ms) = set_local_kill st b ms"
| "arm_step st (Ev_Tick now) = tick st now"

fun is_arm_event :: "arm_event \<Rightarrow> bool" where
  "is_arm_event (Ev_Arm g now) = True"
| "is_arm_event _ = False"

lemmas arm_ops = arm_def tick_def heartbeat_def heartbeat_live_def disarm_def disarm_with_reason_def
  set_channel_consent_def set_local_kill_def

section \<open>What each event does to the session\<close>

lemma session_with_consent [simp]: "session (with_channel_consent st ch b) = session st"
  by (cases ch) simp_all

lemma session_consent_kill [simp]:
  "session (fst (set_channel_consent st ch b ms)) = session st"
  "session (fst (set_local_kill st b ms)) = session st"
  by (simp_all add: set_channel_consent_def set_local_kill_def)

lemma session_disarm [simp]: "session (fst (disarm_with_reason st r ms)) = None" "session (fst (disarm st ms)) = None"
  by (simp_all add: disarm_def disarm_with_reason_def split: option.splits)

lemma session_tick:
  "session (fst (tick st now)) = (case session st of None \<Rightarrow> None
     | Some s \<Rightarrow> if expired_reason s now = None then Some s else None)"
  by (auto simp: tick_def split: option.splits)

lemma tick_effects: "snd (tick st now) = [] \<longleftrightarrow> session (fst (tick st now)) = session st"
  by (auto simp: tick_def split: option.splits)

text \<open>A session that accepted heartbeat \<open>seq\<close> at \<open>now\<close>.\<close>

definition slide :: "armed_session \<Rightarrow> nat \<Rightarrow> arm_time \<Rightarrow> armed_session" where
  "slide s seq now = s \<lparr> last_heartbeat_seq := Some seq, last_heartbeat := monotonic now,
                        last_heartbeat_suspend_aware_ms := suspend_aware_ms now \<rparr>"

definition heartbeat_accepted :: "armed_session \<Rightarrow> string \<Rightarrow> nat \<Rightarrow> arm_time \<Rightarrow> bool" where
  "heartbeat_accepted s jti seq now \<longleftrightarrow>
     expired_reason s now = None \<and> jti = current_jti s \<and>
     (case last_heartbeat_seq s of None \<Rightarrow> True | Some l \<Rightarrow> l < seq)"

lemma session_heartbeat:
  "session (fst (heartbeat st jti seq now)) = (case session st of None \<Rightarrow> None
     | Some s \<Rightarrow> if expired_reason s now \<noteq> None then None
                 else if heartbeat_accepted s jti seq now then Some (slide s seq now) else Some s)"
  by (auto simp: heartbeat_def heartbeat_live_def tick_def heartbeat_accepted_def slide_def split: option.splits)

lemma session_arm:
  "session (fst (arm st g now)) =
     (if g_scope_tx g \<and> station_agent_consent st \<and> 0 < fst (grant_lifetime g now)
      then Some (session_of_grant g now) else session st)"
  by (simp add: arm_def split: prod.splits)

lemmas session_simps = session_arm session_heartbeat session_tick

lemma consent_step:
  "station_agent_consent (fst (arm_step st e)) =
     (case e of Ev_Consent StationAgent b ms \<Rightarrow> b | _ \<Rightarrow> station_agent_consent st)"
  by (cases e; cases "session st")
    (auto simp: arm_ops split: option.splits prod.splits if_splits consent_channel.splits)

section \<open>Deadlines\<close>

lemma authority_deadline_min: "fst (authority_deadline a c e) = min a (min c e)"
  by (auto simp: authority_deadline_def min_def)

lemma grant_lifetime_le:
  "fst (grant_lifetime g now) \<le> g_ttl_ms g" "fst (grant_lifetime g now) \<le> g_effective_ttl_ms g"
  "fst (grant_lifetime g now) \<le> I64_MAX"
  by (auto simp: grant_lifetime_def i64_saturating_sub_def min_le_iff_disj I64_MAX_def I64_MIN_def split: prod.splits)

lemma not_expired_iff:
  "expired_reason s now = None \<longleftrightarrow>
     unix_ms now < armed_until_ms s \<and> unix_ms now < capability_exp_ms s \<and> unix_ms now < tx_enabled_until_ms s \<and>
     \<not> lifetime_over s now \<and> \<not> silence_over s now"
  using authority_deadline_min [of "armed_until_ms s" "capability_exp_ms s" "tx_enabled_until_ms s"]
  by (auto simp: expired_reason_def split: prod.splits if_splits)

lemma not_silent:
  "\<not> silence_over s now \<longleftrightarrow>
     last_heartbeat s \<le> monotonic now \<and> monotonic now - last_heartbeat s < 30000 * 1000000 \<and>
     last_heartbeat_suspend_aware_ms s \<le> suspend_aware_ms now \<and>
     suspend_aware_ms now - last_heartbeat_suspend_aware_ms s < 30000"
  using i64_saturating_sub_ge [of 30000 "suspend_aware_ms now" "last_heartbeat_suspend_aware_ms s"]
  by (auto simp: silence_over_def monotonic_elapsed_reaches_def suspend_aware_elapsed_reaches_def
      HEARTBEAT_TIMEOUT_def HEARTBEAT_TIMEOUT_MS_def I64_MAX_def I64_MIN_def)

lemma within_lifetime:
  "\<not> lifetime_over s now \<Longrightarrow> armed_at s \<le> monotonic now \<and> monotonic now - armed_at s < lifetime s \<and>
     armed_at_suspend_aware_ms s \<le> suspend_aware_ms now"
  by (auto simp: lifetime_over_def Let_def monotonic_elapsed_reaches_def suspend_aware_elapsed_reaches_def)

section \<open>The invariant\<close>

definition session_inv :: "armed_session \<Rightarrow> bool" where
  "session_inv s \<longleftrightarrow> scope_tx s \<and> 1000000 \<le> lifetime s \<and>
     lifetime_reason s \<in> {TtlExpired, CapabilityExpired, TxEnablementExpired} \<and>
     armed_at s \<le> last_heartbeat s \<and> armed_at_suspend_aware_ms s \<le> last_heartbeat_suspend_aware_ms s"

definition arm_inv :: "arm_state \<Rightarrow> bool" where
  "arm_inv st \<longleftrightarrow> (case session st of None \<Rightarrow> True | Some s \<Rightarrow> session_inv s)"

lemma session_inv_grant: "0 < fst (grant_lifetime g now) \<Longrightarrow> session_inv (session_of_grant g now)"
  by (auto simp: session_inv_def session_of_grant_def grant_lifetime_def effective_deadline_def authority_deadline_def
      Let_def split: prod.splits if_splits)

lemma session_inv_slide: "session_inv s \<Longrightarrow> expired_reason s now = None \<Longrightarrow> session_inv (slide s seq now)"
  by (auto simp: session_inv_def slide_def not_expired_iff not_silent)

interpretation arm: event_machine arm_step arm_state_new arm_inv "\<lambda>_. True"
proof
  show "arm_inv arm_state_new" by (simp add: arm_inv_def arm_state_new_def)
  show "arm_inv (fst (arm_step s e))" if "arm_inv s" for s e
    using that
    by (cases e) (auto simp: arm_inv_def session_simps session_inv_grant session_inv_slide split: option.splits)
qed

section \<open>The gate\<close>

lemma tx_permitted_iff:
  "tx_permitted st now ch \<longleftrightarrow>
     (\<exists>s. session st = Some s \<and> scope_tx s \<and> expired_reason s now = None) \<and>
     channel_consent st ch \<and> \<not> local_kill st"
  by (auto simp: tx_permitted_def tx_permit_reason_def split: option.splits disarm_reason.splits)

lemma no_session_absorbing:
  assumes "session st = None" and "list_all (\<lambda>e. \<not> is_arm_event e) es"
  shows "session (fst (run arm_step st es)) = None"
proof (rule arm.absorbing [where ok = "\<lambda>e. \<not> is_arm_event e" and P = "\<lambda>st. session st = None"])
  show "session (fst (arm_step s e)) = None" if "session s = None" "\<not> is_arm_event e" for s e
    using that by (cases e) (simp_all add: session_simps)
qed (use assms in \<open>simp_all add: arm_inv_def list_all_iff\<close>)

section \<open>Where an arm comes from\<close>

text \<open>A session less its heartbeats: what a grant fixed once and for all.\<close>

definition arm_core :: "armed_session \<Rightarrow> armed_session" where
  "arm_core s = s \<lparr> last_heartbeat_seq := None, last_heartbeat := 0, last_heartbeat_suspend_aware_ms := 0 \<rparr>"

definition same_arm :: "armed_session \<Rightarrow> armed_session \<Rightarrow> bool" where
  "same_arm s s0 \<longleftrightarrow> arm_core s = arm_core s0"

lemma same_arm_fields:
  assumes "same_arm s s0"
  shows "current_jti s = current_jti s0" "lifetime s = lifetime s0" "armed_at s = armed_at s0"
    "armed_until_ms s = armed_until_ms s0" "capability_exp_ms s = capability_exp_ms s0"
    "tx_enabled_until_ms s = tx_enabled_until_ms s0" "client_key_id s = client_key_id s0"
    "s_operator_callsign s = s_operator_callsign s0"
  using assms unfolding same_arm_def arm_core_def
  by (cases s; cases s0; simp)+

definition kept_alive :: "verified_arm_grant \<Rightarrow> arm_time \<Rightarrow> arm_event list \<Rightarrow> arm_time \<Rightarrow> bool" where
  "kept_alive g t post kt \<longleftrightarrow> kt = t \<or> (\<exists>seq. Ev_Heartbeat (g_jti g) seq kt \<in> set post)"

definition authorised_by :: "arm_event list \<Rightarrow> verified_arm_grant \<Rightarrow> arm_time \<Rightarrow> arm_event list \<Rightarrow> armed_session \<Rightarrow> bool" where
  "authorised_by pre g t post s \<longleftrightarrow>
     g_scope_tx g \<and> station_agent_consent (fst (run arm_step arm_state_new pre)) \<and>
     0 < fst (grant_lifetime g t) \<and> same_arm s (session_of_grant g t) \<and>
     (\<exists>kt. kept_alive g t post kt \<and> last_heartbeat s = monotonic kt \<and>
           last_heartbeat_suspend_aware_ms s = suspend_aware_ms kt)"

lemma same_arm_slide: "same_arm s s0 \<Longrightarrow> same_arm (slide s seq now) s0"
  by (simp add: same_arm_def arm_core_def slide_def)

lemma authorised_by_more: "authorised_by pre g t post s \<Longrightarrow> authorised_by pre g t (post @ [e]) s"
  by (auto simp: authorised_by_def kept_alive_def)

lemma same_arm_jti: "same_arm s (session_of_grant g t) \<Longrightarrow> current_jti s = g_jti g"
  by (drule same_arm_fields(1)) (simp add: session_of_grant_def split: prod.splits)

lemma authorised_arm:
  assumes "g_scope_tx g" "station_agent_consent (fst (run arm_step arm_state_new pre))" "0 < fst (grant_lifetime g t)"
  shows "authorised_by pre g t [] (session_of_grant g t)"
  using assms by (auto simp: authorised_by_def kept_alive_def same_arm_def session_of_grant_def split: prod.splits)

lemma authorised_slide:
  assumes "authorised_by pre g t post s" and "heartbeat_accepted s jti seq now"
  shows "authorised_by pre g t (post @ [Ev_Heartbeat jti seq now]) (slide s seq now)"
proof -
  have "jti = g_jti g" using assms same_arm_jti by (auto simp: authorised_by_def heartbeat_accepted_def)
  then show ?thesis using assms same_arm_slide
    by (auto simp: authorised_by_def kept_alive_def slide_def intro!: exI [of _ now])
qed

lemma armed_session_authorised:
  "session (fst (run arm_step arm_state_new es)) = Some s \<Longrightarrow>
     \<exists>pre g t post. es = pre @ Ev_Arm g t # post \<and> authorised_by pre g t post s"
proof (induction es arbitrary: s rule: rev_induct)
  case Nil
  then show ?case by (simp add: arm_state_new_def)
next
  case (snoc e es)
  let ?st = "fst (run arm_step arm_state_new es)"
  have keep: "\<exists>pre g t post. es @ [e] = pre @ Ev_Arm g t # post \<and> authorised_by pre g t post s"
    if "session ?st = Some s"
    using snoc.IH [OF that] authorised_by_more by fastforce
  from snoc.prems have step: "session (fst (arm_step ?st e)) = Some s" by (simp add: fst_run_snoc)
  show ?case
  proof (cases e)
    case (Ev_Arm g t)
    then show ?thesis using step keep authorised_arm [of g es t]
      by (auto simp: session_arm split: if_splits)
  next
    case (Ev_Heartbeat jti seq t)
    show ?thesis
    proof (cases "session ?st = Some s")
      case False
      then obtain s1 where s1: "session ?st = Some s1" "heartbeat_accepted s1 jti seq t" "s = slide s1 seq t"
        using step Ev_Heartbeat by (auto simp: session_heartbeat split: option.splits if_splits)
      obtain pre g u post where "es = pre @ Ev_Arm g u # post" "authorised_by pre g u post s1"
        using snoc.IH [OF s1(1)] by blast
      then show ?thesis using authorised_slide [of pre g u post s1 jti seq t] s1 Ev_Heartbeat by fastforce
    qed (rule keep)
  qed (use step keep in \<open>auto simp: session_simps split: option.splits if_splits\<close>)
qed

text \<open>A grant whose authority still covers \<open>now\<close>: before every signed horizon, and within the lifetimes
  verified for it.\<close>

definition grant_covers :: "verified_arm_grant \<Rightarrow> arm_time \<Rightarrow> arm_time \<Rightarrow> bool" where
  "grant_covers g t now \<longleftrightarrow>
     g_scope_tx g \<and>
     unix_ms now < g_armed_until_ms g \<and> unix_ms now < g_capability_exp_ms g \<and> unix_ms now < g_tx_enabled_until_ms g \<and>
     monotonic t \<le> monotonic now \<and>
     monotonic now - monotonic t < g_ttl_ms g * 1000000 \<and> monotonic now - monotonic t < g_effective_ttl_ms g * 1000000"

definition heard_within_timeout :: "arm_time \<Rightarrow> arm_time \<Rightarrow> bool" where
  "heard_within_timeout kt now \<longleftrightarrow>
     monotonic kt \<le> monotonic now \<and> monotonic now - monotonic kt < HEARTBEAT_TIMEOUT \<and>
     suspend_aware_ms kt \<le> suspend_aware_ms now \<and>
     suspend_aware_ms now - suspend_aware_ms kt < HEARTBEAT_TIMEOUT_MS"

lemma grant_session_fields:
  "armed_at (session_of_grant g t) = monotonic t" "armed_until_ms (session_of_grant g t) = g_armed_until_ms g"
  "capability_exp_ms (session_of_grant g t) = g_capability_exp_ms g"
  "tx_enabled_until_ms (session_of_grant g t) = g_tx_enabled_until_ms g"
  "lifetime (session_of_grant g t) = \<bar>fst (grant_lifetime g t)\<bar> * 1000000"
  by (simp_all add: session_of_grant_def split: prod.splits)

lemma authorised_covers:
  assumes "authorised_by pre g t post s" and "expired_reason s now = None"
  shows "grant_covers g t now" and "\<exists>kt. kept_alive g t post kt \<and> heard_within_timeout kt now"
proof -
  have live: "unix_ms now < armed_until_ms s" "unix_ms now < capability_exp_ms s" "unix_ms now < tx_enabled_until_ms s"
      "\<not> lifetime_over s now" "\<not> silence_over s now"
    using assms(2) by (simp_all add: not_expired_iff)
  have same: "same_arm s (session_of_grant g t)" and pos: "0 < fst (grant_lifetime g t)" and sc: "g_scope_tx g"
    using assms(1) by (simp_all add: authorised_by_def)
  note f = same_arm_fields [OF same, unfolded grant_session_fields]
  have lt: "fst (grant_lifetime g t) * 1000000 \<le> g_ttl_ms g * 1000000"
      "fst (grant_lifetime g t) * 1000000 \<le> g_effective_ttl_ms g * 1000000"
    using grant_lifetime_le [of g t] by simp_all
  show "grant_covers g t now"
    using live within_lifetime [OF live(4)] f pos sc lt by (simp add: grant_covers_def)
  obtain kt where "kept_alive g t post kt" "last_heartbeat s = monotonic kt"
      "last_heartbeat_suspend_aware_ms s = suspend_aware_ms kt"
    using assms(1) by (auto simp: authorised_by_def)
  then show "\<exists>kt. kept_alive g t post kt \<and> heard_within_timeout kt now"
    using live(5) by (auto simp: not_silent heard_within_timeout_def HEARTBEAT_TIMEOUT_def HEARTBEAT_TIMEOUT_MS_def)
qed

section \<open>Replays\<close>

text \<open>The live arm has accepted \<open>seq\<close> already, or is over.\<close>

definition seq_spent :: "string \<Rightarrow> nat \<Rightarrow> arm_state \<Rightarrow> bool" where
  "seq_spent jti seq st \<longleftrightarrow>
     (case session st of None \<Rightarrow> True
      | Some s \<Rightarrow> current_jti s = jti \<and> (\<exists>l. last_heartbeat_seq s = Some l \<and> seq \<le> l))"

lemma slide_fields [simp]: "current_jti (slide s seq now) = current_jti s" "last_heartbeat_seq (slide s seq now) = Some seq"
  by (simp_all add: slide_def)

lemma seq_spent_step: "seq_spent jti seq st \<Longrightarrow> \<not> is_arm_event e \<Longrightarrow> seq_spent jti seq (fst (arm_step st e))"
  by (cases e) (auto simp: seq_spent_def session_simps heartbeat_accepted_def split: option.splits if_splits)

lemma seq_spent_run: "seq_spent jti seq st \<Longrightarrow> arm_inv st \<Longrightarrow> list_all (\<lambda>e. \<not> is_arm_event e) es \<Longrightarrow>
    seq_spent jti seq (fst (run arm_step st es))"
  by (rule arm.absorbing [where ok = "\<lambda>e. \<not> is_arm_event e"])
    (simp_all add: seq_spent_step list_all_iff)

lemma replay_no_slide:
  assumes "seq_spent jti seq st"
  shows "session (fst (heartbeat st jti seq now)) = session (fst (tick st now))"
  using assms by (auto simp: seq_spent_def session_simps heartbeat_accepted_def split: option.splits)

section \<open>Audit\<close>

text \<open>The effects that announce the end of an arm: an audit record that names the operator, then the
  stand-down.\<close>

definition announces_disarm :: "string \<Rightarrow> arm_effect list \<Rightarrow> bool" where
  "announces_disarm op effs \<longleftrightarrow>
     (\<exists>ev r. effs = [Audit ev, Disarmed r] \<and> kind ev = Disarmed_Kind \<and> ev_operator ev = Some op)"

lemma disarm_announced:
  assumes "session st = Some s" and "session (fst (arm_step st e)) = None"
  shows "announces_disarm (s_operator_callsign s) (snd (arm_step st e))"
  using assms
  by (cases e) (auto simp: announces_disarm_def audit_def arm_ops split: option.splits if_splits prod.splits)

section \<open>Properties\<close>

text \<open>The transmit gate opens exactly when a session with transmit scope is armed, wall time is before
  all three signed horizons, neither clock has reached the lifetime or the heartbeat timeout, the
  requesting channel's own consent is on and the local kill switch is off.\<close>

theorem tx_permitted_gate:
  "tx_permitted st now ch \<longleftrightarrow>
     (\<exists>s. session st = Some s \<and> scope_tx s \<and>
        unix_ms now < armed_until_ms s \<and> unix_ms now < capability_exp_ms s \<and> unix_ms now < tx_enabled_until_ms s \<and>
        \<not> lifetime_over s now \<and> \<not> silence_over s now) \<and>
     channel_consent st ch \<and> \<not> local_kill st"
  by (auto simp: tx_permitted_iff not_expired_iff)

text \<open>C4: in every history of events from a fresh state, remote transmission is permitted only when some
  earlier arm event carried a grant with transmit scope, was accepted under station-agent consent, still
  covers the present time on every horizon and lifetime, and that very arm or a later heartbeat naming its
  id was received less than the heartbeat timeout ago on both clocks; the channel's consent is on and the
  kill switch off.\<close>

theorem remote_tx_is_authorised:
  assumes "tx_permitted (fst (run arm_step arm_state_new es)) now ch"
  shows "\<exists>pre g t post. es = pre @ Ev_Arm g t # post \<and>
           station_agent_consent (fst (run arm_step arm_state_new pre)) \<and> grant_covers g t now \<and>
           (\<exists>kt. kept_alive g t post kt \<and> heard_within_timeout kt now) \<and>
           channel_consent (fst (run arm_step arm_state_new es)) ch \<and>
           \<not> local_kill (fst (run arm_step arm_state_new es))"
proof -
  let ?st = "fst (run arm_step arm_state_new es)"
  obtain s where s: "session ?st = Some s" "expired_reason s now = None" "channel_consent ?st ch" "\<not> local_kill ?st"
    using assms by (auto simp: tx_permitted_iff)
  obtain pre g t post where a: "es = pre @ Ev_Arm g t # post" "authorised_by pre g t post s"
    using armed_session_authorised [OF s(1)] by blast
  then have "station_agent_consent (fst (run arm_step arm_state_new pre))" by (simp add: authorised_by_def)
  then show ?thesis using a s(3,4) authorised_covers [OF a(2) s(2)] by blast
qed

definition demo_grant :: verified_arm_grant where
  "demo_grant = \<lparr> g_operator_callsign = ''W1ABC'', g_ttl_ms = 600000, g_armed_until_ms = 1600000,
     g_capability_exp_ms = 2000000, g_tx_enabled_until_ms = 2000000, g_effective_ttl_ms = 600000,
     g_heartbeat_interval_sec = 10, g_scope_tx = True, g_jti = ''j1'', g_client_key_id = ''k1'' \<rparr>"

definition demo_time :: "int \<Rightarrow> arm_time" where
  "demo_time ms = \<lparr> unix_ms = 1000000 + ms, monotonic = ms * 1000000, suspend_aware_ms = ms \<rparr>"

definition demo_events :: "arm_event list" where
  "demo_events = [Ev_Consent StationAgent True 0, Ev_Arm demo_grant (demo_time 0), Ev_Heartbeat ''j1'' 1 (demo_time 20000)]"

lemmas demo_defs = demo_grant_def demo_time_def demo_events_def arm_state_new_def arm_ops grant_lifetime_def
  effective_deadline_def authority_deadline_def session_of_grant_def expired_reason_def lifetime_over_def silence_over_def
  monotonic_elapsed_reaches_def suspend_aware_elapsed_reaches_def HEARTBEAT_TIMEOUT_def HEARTBEAT_TIMEOUT_MS_def
  i64_saturating_sub_def I64_MAX_def I64_MIN_def

lemma demo_permitted: "tx_permitted (fst (run arm_step arm_state_new demo_events)) (demo_time 40000) StationAgent"
  by (simp add: tx_permitted_def tx_permit_reason_def demo_defs)

theorem remote_tx_is_authorised_witness:
  "tx_permitted (fst (run arm_step arm_state_new demo_events)) (demo_time 40000) StationAgent \<and>
   (\<exists>pre g t post. demo_events = pre @ Ev_Arm g t # post \<and>
      station_agent_consent (fst (run arm_step arm_state_new pre)) \<and> grant_covers g t (demo_time 40000) \<and>
      (\<exists>kt. kept_alive g t post kt \<and> heard_within_timeout kt (demo_time 40000)) \<and>
      channel_consent (fst (run arm_step arm_state_new demo_events)) StationAgent \<and>
      \<not> local_kill (fst (run arm_step arm_state_new demo_events)))"
  using demo_permitted remote_tx_is_authorised [OF demo_permitted] by blast

text \<open>C19: expiry is terminal: once the sweep has run at an instant where a deadline had passed, no sequence
  of heartbeats, consent changes, kill toggles, sweeps and disarms makes transmission permitted again;
  only a fresh arm event can.\<close>

theorem expiry_is_terminal:
  assumes "session st = Some s" and "expired_reason s now \<noteq> None" and "list_all (\<lambda>e. \<not> is_arm_event e) es"
  shows "\<not> tx_permitted (fst (run arm_step (fst (tick st now)) es)) later ch"
proof -
  have "session (fst (tick st now)) = None" using assms(1,2) by (simp add: session_tick)
  then show ?thesis using no_session_absorbing [OF _ assms(3)] by (simp add: tx_permitted_iff)
qed

definition demo_state :: arm_state where
  "demo_state = \<lparr> session = Some (session_of_grant demo_grant (demo_time 0)),
     station_agent_consent = True, wsjtx_consent = False, local_kill = False \<rparr>"

theorem expiry_is_terminal_witness:
  "expired_reason (session_of_grant demo_grant (demo_time 0)) (demo_time 30000) = Some HeartbeatLost \<and>
   \<not> tx_permitted (fst (run arm_step (fst (tick demo_state (demo_time 30000)))
        [Ev_Heartbeat ''j1'' 7 (demo_time 30001)])) (demo_time 30002) StationAgent"
proof -
  have e: "expired_reason (session_of_grant demo_grant (demo_time 0)) (demo_time 30000) = Some HeartbeatLost"
    by (simp add: demo_defs)
  show ?thesis
    using expiry_is_terminal [of demo_state "session_of_grant demo_grant (demo_time 0)" "demo_time 30000"
        "[Ev_Heartbeat ''j1'' 7 (demo_time 30001)]"] e by (simp add: demo_state_def)
qed

text \<open>C31: a heartbeat accepted once is never accepted again by the same arm: replaying it after any events
  that contain no fresh arm does to the session exactly what the expiry sweep does, so it never extends
  the dead-man window.\<close>

theorem replayed_heartbeat_never_extends:
  assumes "arm_inv st" and "session st = Some s" and "heartbeat_accepted s jti seq t"
    and "list_all (\<lambda>e. \<not> is_arm_event e) es"
  shows "let st' = fst (run arm_step (fst (heartbeat st jti seq t)) es) in
         session (fst (heartbeat st' jti seq t')) = session (fst (tick st' t'))"
proof -
  have ok: "expired_reason s t = None" "jti = current_jti s" using assms(3) by (simp_all add: heartbeat_accepted_def)
  have "seq_spent jti seq (fst (heartbeat st jti seq t))"
    using assms(2,3) ok by (simp add: seq_spent_def session_heartbeat)
  moreover have "arm_inv (fst (heartbeat st jti seq t))"
    using arm.inv_step [OF assms(1), of "Ev_Heartbeat jti seq t"] by simp
  ultimately show ?thesis using seq_spent_run assms(4) replay_no_slide by (simp add: Let_def)
qed

theorem replayed_heartbeat_never_extends_witness:
  "heartbeat_accepted (session_of_grant demo_grant (demo_time 0)) ''j1'' 5 (demo_time 9000) \<and>
   (let st' = fst (run arm_step (fst (heartbeat demo_state ''j1'' 5 (demo_time 9000))) [Ev_Tick (demo_time 9500)]) in
    session (fst (heartbeat st' ''j1'' 5 (demo_time 20000))) = session (fst (tick st' (demo_time 20000))))"
proof -
  have i: "arm_inv demo_state"
    by (simp add: arm_inv_def demo_state_def session_inv_grant demo_defs session_inv_def)
  have a: "heartbeat_accepted (session_of_grant demo_grant (demo_time 0)) ''j1'' 5 (demo_time 9000)"
    by (simp add: heartbeat_accepted_def demo_defs)
  show ?thesis
    using replayed_heartbeat_never_extends [OF i _ a, of "[Ev_Tick (demo_time 9500)]" "demo_time 20000"] a
    by (simp add: demo_state_def)
qed

text \<open>The sweep and the gate agree: running the sweep never changes what the gate answers for the same
  instant, the sweep disarms exactly when some deadline has passed, and changing one channel's consent
  never changes the gate of the other channel.\<close>

theorem sweep_and_gate_agree:
  "tx_permitted (fst (tick st now)) now ch = tx_permitted st now ch \<and>
   (session st = Some s \<longrightarrow> (Disarmed r \<in> set (snd (tick st now)) \<longleftrightarrow> expired_reason s now = Some r)) \<and>
   (ch' \<noteq> ch \<longrightarrow> tx_permitted (fst (set_channel_consent st ch' b ms)) now ch = tx_permitted st now ch)"
proof -
  have "channel_consent (fst (tick st now)) ch = channel_consent st ch" "local_kill (fst (tick st now)) = local_kill st"
    by (cases ch; auto simp: tick_def split: option.splits)+
  then have "tx_permitted (fst (tick st now)) now ch = tx_permitted st now ch"
    by (auto simp: tx_permitted_iff session_tick split: option.splits if_splits)
  moreover have "session st = Some s \<Longrightarrow> Disarmed r \<in> set (snd (tick st now)) \<longleftrightarrow> expired_reason s now = Some r"
    by (auto simp: tick_def audit_def split: option.splits)
  moreover have "tx_permitted (fst (set_channel_consent st ch' b ms)) now ch = tx_permitted st now ch" if "ch' \<noteq> ch"
    using that by (cases ch; cases ch') (auto simp: tx_permitted_iff set_channel_consent_def)
  ultimately show ?thesis by blast
qed

theorem sweep_and_gate_agree_witness:
  "(Disarmed HeartbeatLost \<in> set (snd (tick demo_state (demo_time 30000)))) \<and>
   tx_permitted (fst (set_channel_consent demo_state WsjtxUdp True 0)) (demo_time 1) StationAgent =
     tx_permitted demo_state (demo_time 1) StationAgent"
proof -
  have e: "expired_reason (session_of_grant demo_grant (demo_time 0)) (demo_time 30000) = Some HeartbeatLost"
    by (simp add: demo_defs)
  show ?thesis
    using sweep_and_gate_agree [of demo_state "demo_time 30000" StationAgent "session_of_grant demo_grant (demo_time 0)" HeartbeatLost]
      sweep_and_gate_agree [of demo_state "demo_time 1" StationAgent _ _ WsjtxUdp True 0] e
    by (simp add: demo_state_def)
qed

text \<open>Whatever event ends an armed session (operator, crash, revocation, expiry found by a sweep or by a
  heartbeat), it returns the audit record naming the operator of that arm followed by the stand-down
  effect.\<close>

theorem every_disarm_is_announced:
  assumes "session st = Some s" and "session (fst (arm_step st e)) = None"
  shows "announces_disarm (s_operator_callsign s) (snd (arm_step st e))"
  using assms by (rule disarm_announced)

theorem every_disarm_is_announced_witness:
  "session (fst (arm_step demo_state (Ev_DisarmReason AuthorizationRevoked 5))) = None \<and>
   announces_disarm ''W1ABC'' (snd (arm_step demo_state (Ev_DisarmReason AuthorizationRevoked 5)))"
  using every_disarm_is_announced [of demo_state "session_of_grant demo_grant (demo_time 0)" "Ev_DisarmReason AuthorizationRevoked 5"]
  by (simp add: demo_state_def session_of_grant_def demo_grant_def split: prod.splits)

end
