(* ===== verification/Callsign.thy ===== *)
theory Callsign
  imports Prelude
begin

text \<open>
  Callsign equivalence and plausibility, \<^verbatim>\<open>pancetta-core/src/callsign.rs\<close>: extraction of the home
  call of a compound callsign, the matching of two calls as one station, hash renders, and the shape
  checks. Matching is shown to be the kernel of one identity function, hence a partial equivalence; that
  contract is the locale the QSO engine relies on.
\<close>

section \<open>Definitions\<close>

definition is_callsign_shaped :: "string \<Rightarrow> bool" where
  "is_callsign_shaped c \<longleftrightarrow> length c \<ge> 3 \<and> list_ex is_ascii_digit c \<and> list_ex is_ascii_alphabetic c"

definition base_callsign :: "string \<Rightarrow> string" where
  "base_callsign callsign =
     (let upper = to_upper (trim callsign) in
      if upper = [] then []
      else
        let components = filter (\<lambda>c. c \<noteq> []) (split_char CHR ''/'' upper) in
        if components = [] then upper
        else case max_by_key length (filter is_callsign_shaped components) of
               Some best \<Rightarrow> best
             | None \<Rightarrow> (case max_by_key length components of Some c \<Rightarrow> c | None \<Rightarrow> upper))"

definition resolve_hash_render :: "string \<Rightarrow> string option" where
  "resolve_hash_render call =
     (case Option.bind (strip_prefix ''<'' call) (strip_suffix ''>'') of
        Some inner \<Rightarrow> if inner = [] \<or> list_all (\<lambda>b. b = CHR ''.'') inner then None else Some inner
      | None \<Rightarrow> Some call)"

definition callsigns_match :: "string \<Rightarrow> string \<Rightarrow> bool" where
  "callsigns_match a b =
     (let au = to_upper (trim a); bu = to_upper (trim b) in
      if au = [] \<or> bu = [] then au = bu
      else case (resolve_hash_render au, resolve_hash_render bu) of
             (Some au, Some bu) \<Rightarrow> au = bu \<or> base_callsign au = base_callsign bu
           | _ \<Rightarrow> False)"

definition is_grid_shape :: "string \<Rightarrow> bool" where
  "is_grid_shape t \<longleftrightarrow>
     length t = 4 \<and> is_ascii_alphabetic (t ! 0) \<and> is_ascii_alphabetic (t ! 1) \<and>
     is_ascii_digit (t ! 2) \<and> is_ascii_digit (t ! 3)"

definition has_plausible_callsign_shape :: "string \<Rightarrow> bool" where
  "has_plausible_callsign_shape bytes =
     (if length bytes < 2 then False
      else case rposition is_ascii_digit bytes of
        None \<Rightarrow> False
      | Some last_digit_pos \<Rightarrow>
          if last_digit_pos + 1 \<ge> length bytes \<or>
             \<not> list_all is_ascii_alphabetic (drop (last_digit_pos + 1) bytes) then False
          else case position is_ascii_digit bytes of
            None \<Rightarrow> False
          | Some first_digit_pos \<Rightarrow>
              let prefix = take first_digit_pos bytes in
              if prefix = []
              then first_digit_pos + 1 < length bytes \<and> is_ascii_alphabetic (bytes ! (first_digit_pos + 1))
              else length prefix \<le> 2 \<and> list_all is_ascii_alphabetic prefix)"

definition is_plausible_callsign :: "string \<Rightarrow> bool" where
  "is_plausible_callsign callsign =
     (case resolve_hash_render (to_upper (trim callsign)) of
        None \<Rightarrow> False
      | Some resolved \<Rightarrow>
          (3 \<le> length resolved \<and> length resolved \<le> 11) \<and>
          \<not> is_grid_shape resolved \<and>
          list_all (\<lambda>b. is_ascii_alphanumeric b \<or> b = CHR ''/'') resolved \<and>
          \<not> list_ex (\<lambda>c. c = []) (split_char CHR ''/'' resolved) \<and>
          (list_ex is_ascii_digit resolved \<and> list_ex is_ascii_alphabetic resolved) \<and>
          has_plausible_callsign_shape (base_callsign resolved))"

section \<open>Matching as the kernel of an identity\<close>

text \<open>The station a call names: nothing for the unresolved placeholder, a class of its own for the empty
  call, the base call otherwise.\<close>

definition station_identity :: "string \<Rightarrow> (unit + string) option" where
  "station_identity a =
     (let u = to_upper (trim a) in
      if u = [] then Some (Inl ()) else map_option (Inr \<circ> base_callsign) (resolve_hash_render u))"

lemma callsigns_match_identity:
  "callsigns_match a b \<longleftrightarrow> station_identity a \<noteq> None \<and> station_identity a = station_identity b"
proof (cases "to_upper (trim a) = [] \<or> to_upper (trim b) = []")
  case True
  then show ?thesis
    by (cases "resolve_hash_render (to_upper (trim a))"; cases "resolve_hash_render (to_upper (trim b))")
      (auto simp: callsigns_match_def station_identity_def Let_def)
next
  case False
  then show ?thesis
    by (auto simp: callsigns_match_def station_identity_def Let_def split: option.splits)
qed

text \<open>What a client may rely on: one station on both sides, whatever the order.\<close>

locale station_matching =
  fixes same :: "string \<Rightarrow> string \<Rightarrow> bool"
  assumes same_sym: "same a b \<Longrightarrow> same b a"
    and same_trans: "same a b \<Longrightarrow> same b c \<Longrightarrow> same a c"
begin

lemma same_self: "same a b \<Longrightarrow> same a a" "same a b \<Longrightarrow> same b b"
  by (metis same_sym same_trans)+

text \<open>Calls that match a common call match each other: a partner latched under one form is recognised
  under every form that ever matched it.\<close>

lemma same_common: "same x p \<Longrightarrow> same y p \<Longrightarrow> same x y"
  by (metis same_sym same_trans)

lemma same_filter: "list_all (\<lambda>x. same x p) xs \<Longrightarrow> x \<in> set xs \<Longrightarrow> y \<in> set xs \<Longrightarrow> same x y"
  by (auto simp: list_all_iff intro: same_common)

end

interpretation call: station_matching callsigns_match
  by unfold_locales (metis callsigns_match_identity)+

lemma unresolved_never_matches:
  assumes "resolve_hash_render (to_upper (trim a)) = None"
  shows "\<not> callsigns_match a b" and "\<not> callsigns_match b a"
proof -
  have ne: "to_upper (trim a) \<noteq> []"
    using assms by (auto simp: resolve_hash_render_def rust_str_simps)
  then have "station_identity a = None" using assms by (simp add: station_identity_def)
  then show "\<not> callsigns_match a b" "\<not> callsigns_match b a" by (auto simp: callsigns_match_identity)
qed

section \<open>Base calls\<close>

lemma base_callsign_component:
  assumes "to_upper (trim c) \<noteq> []"
  shows "base_callsign c \<noteq> [] \<and> (base_callsign c = to_upper (trim c) \<or>
         base_callsign c \<in> set (split_char CHR ''/'' (to_upper (trim c))))"
  using assms
  by (auto simp: base_callsign_def Let_def dest!: max_by_key_in split: option.splits)

lemma base_callsign_plain:
  assumes "CHR ''/'' \<notin> set c" and "\<forall>x\<in>set c. \<not> is_whitespace x \<and> \<not> is_ascii_lowercase x"
  shows "base_callsign c = c"
proof -
  have "to_upper (trim c) = c" using assms(2) by (simp add: trim_id to_upper_id)
  with assms(1) show ?thesis by (simp add: base_callsign_def Let_def split_char_single)
qed

lemma upper_not_lower: "\<not> is_ascii_lowercase (to_ascii_upper c)"
  by (auto simp: to_ascii_upper_def is_ascii_lowercase_def)

text \<open>A component that the longest-shaped rule selects.\<close>

lemma base_callsign_longest:
  assumes "c \<in> set (split_char CHR ''/'' (to_upper (trim s)))" and "is_callsign_shaped c"
    and "\<forall>d\<in>set (split_char CHR ''/'' (to_upper (trim s))). is_callsign_shaped d \<longrightarrow> d \<noteq> c \<longrightarrow> length d < length c"
  shows "base_callsign s = c"
proof -
  let ?cs = "filter (\<lambda>c. c \<noteq> []) (split_char CHR ''/'' (to_upper (trim s)))"
  have ne: "c \<noteq> []" using assms(2) by (auto simp: is_callsign_shaped_def)
  then have u: "to_upper (trim s) \<noteq> []" using assms(1) by auto
  obtain best where best: "max_by_key length (filter is_callsign_shaped ?cs) = Some best"
    using assms(1,2) ne by (cases "max_by_key length (filter is_callsign_shaped ?cs)") (auto simp: filter_empty_conv)
  have "best = c"
  proof (rule ccontr)
    assume "best \<noteq> c"
    moreover have "length c \<le> length best"
      using max_by_key_max [OF best, of c] assms(1,2) ne by simp
    moreover have "best \<in> set (split_char CHR ''/'' (to_upper (trim s)))" "is_callsign_shaped best"
      using max_by_key_in [OF best] by auto
    ultimately show False using assms(3) by fastforce
  qed
  moreover have "?cs \<noteq> []" using assms(1) ne by (auto simp: filter_empty_conv)
  ultimately show ?thesis using u best by (simp add: base_callsign_def Let_def)
qed

section \<open>Plausible shapes\<close>

lemma rposition_Some: "rposition p xs = Some i \<Longrightarrow> i < length xs \<and> p (xs ! i) \<and> (\<forall>j. i < j \<and> j < length xs \<longrightarrow> \<not> p (xs ! j))"
proof (induction xs arbitrary: i)
  case (Cons x xs)
  have none: "rposition p ys = None \<Longrightarrow> \<forall>j<length ys. \<not> p (ys ! j)" for ys
    by (induction ys) (auto split: option.splits if_splits simp: nth_Cons split: nat.splits)
  show ?case
  proof (cases "rposition p xs")
    case None
    with Cons.prems none [of xs] show ?thesis by (auto split: if_splits simp: nth_Cons split: nat.splits)
  next
    case (Some k)
    with Cons.prems Cons.IH [OF Some] show ?thesis by (auto simp: nth_Cons split: nat.splits)
  qed
qed simp

lemma plausible_shape_suffix:
  assumes "has_plausible_callsign_shape b"
  shows "is_ascii_alphabetic (last b) \<and> list_ex is_ascii_digit b \<and>
         (\<exists>i. position is_ascii_digit b = Some i \<and> i \<le> 2 \<and> list_all is_ascii_alphabetic (take i b))"
proof -
  obtain l f where l: "rposition is_ascii_digit b = Some l" and f: "position is_ascii_digit b = Some f"
      and suf: "l + 1 < length b" "list_all is_ascii_alphabetic (drop (l + 1) b)"
      and pre: "take f b = [] \<or> (length (take f b) \<le> 2 \<and> list_all is_ascii_alphabetic (take f b))"
    using assms by (auto simp: has_plausible_callsign_shape_def Let_def split: option.splits if_splits)
  have "drop (l + 1) b \<noteq> []" "last (drop (l + 1) b) = last b" using suf(1) by simp_all
  then have "is_ascii_alphabetic (last b)" using suf(2) by (metis last_in_set list_all_iff)
  moreover have "list_ex is_ascii_digit b" using position_Some [OF f] by (auto simp: list_ex_length)
  moreover have "f \<le> 2 \<and> list_all is_ascii_alphabetic (take f b)"
    using pre position_Some [OF f] by (cases "f = 0") auto
  ultimately show ?thesis using f by blast
qed

section \<open>Properties\<close>

text \<open>Two callsigns match exactly when both name a station and name the same one: matching is the
  kernel of a single identity function (empty call, or base call of the resolved form), so it is symmetric
  and transitive, and the unresolved hash placeholder names nobody.\<close>

theorem callsigns_match_is_identity:
  "(callsigns_match a b \<longleftrightarrow> station_identity a \<noteq> None \<and> station_identity a = station_identity b) \<and>
   (callsigns_match a b \<longrightarrow> callsigns_match b a) \<and>
   (callsigns_match a b \<and> callsigns_match b c \<longrightarrow> callsigns_match a c) \<and>
   \<not> callsigns_match ''<...>'' a \<and> \<not> callsigns_match a ''<...>''"
proof -
  have "resolve_hash_render (to_upper (trim ''<...>'')) = None" by code_simp
  from unresolved_never_matches [OF this] show ?thesis
    using callsigns_match_identity call.same_sym call.same_trans by blast
qed

theorem callsigns_match_is_identity_witness:
  "callsigns_match ''EA8/G8BCG'' ''<g8bcg/P>'' \<and> callsigns_match ''<g8bcg/P>'' ''G8BCG'' \<and>
   callsigns_match ''EA8/G8BCG'' ''G8BCG''"
proof -
  have "callsigns_match ''EA8/G8BCG'' ''<g8bcg/P>''" "callsigns_match ''<g8bcg/P>'' ''G8BCG''" by code_simp+
  then show ?thesis using callsigns_match_is_identity [of "''EA8/G8BCG''" "''<g8bcg/P>''" "''G8BCG''"] by blast
qed

text \<open>When one component of a compound call is callsign-shaped and longer than every other shaped
  component, it is the base call; a plain call is its own base.\<close>

theorem base_callsign_is_longest_shaped:
  assumes "c \<in> set (split_char CHR ''/'' (to_upper (trim s)))" and "is_callsign_shaped c"
    and "\<forall>d\<in>set (split_char CHR ''/'' (to_upper (trim s))). is_callsign_shaped d \<longrightarrow> d \<noteq> c \<longrightarrow> length d < length c"
  shows "base_callsign s = c"
  using assms by (rule base_callsign_longest)

theorem base_callsign_is_longest_shaped_witness:
  "split_char CHR ''/'' (to_upper (trim '' VK9/W1XYZ/MM'')) = [''VK9'', ''W1XYZ'', ''MM''] \<and>
   base_callsign '' VK9/W1XYZ/MM'' = ''W1XYZ''"
proof -
  have s: "split_char CHR ''/'' (to_upper (trim '' VK9/W1XYZ/MM'')) = [''VK9'', ''W1XYZ'', ''MM'']" by code_simp
  have "is_callsign_shaped ''W1XYZ''" "\<not> is_callsign_shaped ''MM''" by code_simp+
  then show ?thesis
    using base_callsign_is_longest_shaped [of "''W1XYZ''" "'' VK9/W1XYZ/MM''"] s by simp
qed

text \<open>A callsign accepted as plausible is 3 to 11 bytes of letters, digits and slashes, is not a grid
  square, and its base call has a digit within its first three bytes preceded only by letters, and ends
  in a letter.\<close>

theorem plausible_callsign_shape:
  assumes "is_plausible_callsign c"
  shows "\<exists>r. resolve_hash_render (to_upper (trim c)) = Some r \<and> 3 \<le> length r \<and> length r \<le> 11 \<and>
           list_all (\<lambda>b. is_ascii_alphanumeric b \<or> b = CHR ''/'') r \<and> \<not> is_grid_shape r \<and>
           is_ascii_alphabetic (last (base_callsign r)) \<and>
           (\<exists>i\<le>2. position is_ascii_digit (base_callsign r) = Some i \<and>
                  list_all is_ascii_alphabetic (take i (base_callsign r)))"
proof -
  obtain r where r: "resolve_hash_render (to_upper (trim c)) = Some r" "has_plausible_callsign_shape (base_callsign r)"
      "3 \<le> length r" "length r \<le> 11" "\<not> is_grid_shape r" "list_all (\<lambda>b. is_ascii_alphanumeric b \<or> b = CHR ''/'') r"
    using assms by (auto simp: is_plausible_callsign_def split: option.splits)
  then show ?thesis using plausible_shape_suffix [OF r(2)] by blast
qed

theorem plausible_callsign_shape_witness:
  "is_plausible_callsign ''k1abc/p'' \<and>
   (\<exists>r. resolve_hash_render (to_upper (trim ''k1abc/p'')) = Some r \<and> 3 \<le> length r \<and> length r \<le> 11 \<and>
      list_all (\<lambda>b. is_ascii_alphanumeric b \<or> b = CHR ''/'') r \<and> \<not> is_grid_shape r \<and>
      is_ascii_alphabetic (last (base_callsign r)) \<and>
      (\<exists>i\<le>2. position is_ascii_digit (base_callsign r) = Some i \<and>
             list_all is_ascii_alphabetic (take i (base_callsign r))))"
proof -
  have p: "is_plausible_callsign ''k1abc/p''" by code_simp
  with plausible_callsign_shape [OF p] show ?thesis by blast
qed

text \<open>The longest-shaped rule is not always the home call: a four-character prefix wins over a
  three-character home call, and two different stations under it are taken for one.\<close>

lemma callsigns_match_merges_short_calls: "callsigns_match ''VP2E/W1A'' ''VP2E/K5B''"
  by code_simp

end
