(* ===== verification/Qso_State.thy ===== *)
theory Qso_State
  imports Callsign
begin

text \<open>
  The vocabulary of the QSO engine, \<^verbatim>\<open>pancetta-qso/src/states.rs\<close>: QSO states, messages, roles,
  rejection reasons and the accessors on them. Instants are nanoseconds; a signal report is an \<open>i8\<close>, here
  an integer; an \<open>f64\<close> frequency is its 64 bits, since these modules only copy it.
\<close>

type_synonym f64 = u64
type_synonym timestamp = int
type_synonym qso_id = nat

datatype qso_failure_reason =
    Timeout | SignalLost | Duplicate | InvalidCallsign | FrequencyConflict | UserCancelled | Superseded
  | StationQrt | ProtocolError string | SupervisorRestart | ComponentCrashed string
  | MessageUnencodable string | ControlTransferred

text \<open>Fields in the order of the source: \<open>ExchangingInfo\<close> their call, our serial, their serial, frequency,
  start; \<open>ContestCompleted\<close> their call, our serial, their serial, frequency, completion, category.\<close>

datatype contest_state =
    ExchangingInfo string nat "nat option" f64 timestamp
  | ContestCompleted string nat nat f64 timestamp string

text \<open>Fields in the order of the source: \<open>WaitingForReport\<close> their call, frequency, start, their grid, our
  report; \<open>SendingReport\<close> their call, their report, our report, frequency, start;
  \<open>WaitingForConfirmation\<close> and \<open>SendingConfirmation\<close> their call, their report, our report, frequency, grid,
  start; \<open>Completed\<close> their call, their report, our report, frequency, grid, completion, seconds.\<close>

datatype qso_state =
    Idle
  | CallingCq f64 timestamp nat
  | RespondingToCq string f64 timestamp
  | WaitingForReport string f64 timestamp "string option" int
  | SendingReport string "int option" int f64 timestamp
  | WaitingForConfirmation string int int f64 "string option" timestamp
  | SendingConfirmation string int int f64 "string option" timestamp
  | Completed string int int f64 "string option" timestamp nat
  | Failed qso_failure_reason timestamp qso_state
  | Contest contest_state

datatype rejection_reason =
    SenderNotPartner | AddresseeNotUs | SenderAndAddresseeMismatch | UnsafeCompoundUpgrade

fun rejection_reason_as_str :: "rejection_reason \<Rightarrow> string" where
  "rejection_reason_as_str SenderNotPartner = ''sender-not-partner''"
| "rejection_reason_as_str AddresseeNotUs = ''addressee-not-us''"
| "rejection_reason_as_str SenderAndAddresseeMismatch = ''sender-and-addressee-mismatch''"
| "rejection_reason_as_str UnsafeCompoundUpgrade = ''unsafe-compound-upgrade''"

fun classify :: "bool \<Rightarrow> bool \<Rightarrow> rejection_reason option" where
  "classify True True = None"
| "classify False True = Some SenderNotPartner"
| "classify True False = Some AddresseeNotUs"
| "classify False False = Some SenderAndAddresseeMismatch"

text \<open>\<open>CqResponse\<close> calling station, responding station, grid; the directed messages to station, from
  station and their payload.\<close>

datatype message_type =
    Cq string "string option"
  | CqResponse string string "string option"
  | SignalReport string string int
  | ReportAck string string int
  | FinalConfirmation string string
  | SeventyThree string string
  | ContestExchange string string int nat
  | ContestReply string string string bool
  | NonStandard string

datatype qso_role = Cqer | Caller

datatype call_initiation = Manual | Auto

definition qso_role_default :: qso_role where "qso_role_default = Caller"

definition call_initiation_default :: call_initiation where "call_initiation_default = Auto"

section \<open>QsoState\<close>

fun is_terminal :: "qso_state \<Rightarrow> bool" where
  "is_terminal (Completed _ _ _ _ _ _ _) = True"
| "is_terminal (Failed _ _ _) = True"
| "is_terminal _ = False"

definition is_active :: "qso_state \<Rightarrow> bool" where
  "is_active s \<longleftrightarrow> s \<noteq> Idle \<and> \<not> is_terminal s"

fun state_frequency :: "qso_state \<Rightarrow> f64 option" where
  "state_frequency (CallingCq f _ _) = Some f"
| "state_frequency (RespondingToCq _ f _) = Some f"
| "state_frequency (WaitingForReport _ f _ _ _) = Some f"
| "state_frequency (SendingReport _ _ _ f _) = Some f"
| "state_frequency (WaitingForConfirmation _ _ _ f _ _) = Some f"
| "state_frequency (SendingConfirmation _ _ _ f _ _) = Some f"
| "state_frequency (Completed _ _ _ f _ _ _) = Some f"
| "state_frequency (Contest (ExchangingInfo _ _ _ f _)) = Some f"
| "state_frequency (Contest (ContestCompleted _ _ _ f _ _)) = Some f"
| "state_frequency _ = None"

text \<open>\<open>set_frequency\<close>: the updated state and whether a field was written.\<close>

fun set_frequency :: "qso_state \<Rightarrow> f64 \<Rightarrow> qso_state \<times> bool" where
  "set_frequency (CallingCq _ t n) hz = (CallingCq hz t n, True)"
| "set_frequency (RespondingToCq c _ t) hz = (RespondingToCq c hz t, True)"
| "set_frequency (WaitingForReport c _ t g r) hz = (WaitingForReport c hz t g r, True)"
| "set_frequency (SendingReport c tr r _ t) hz = (SendingReport c tr r hz t, True)"
| "set_frequency (WaitingForConfirmation c tr r _ g t) hz = (WaitingForConfirmation c tr r hz g t, True)"
| "set_frequency (SendingConfirmation c tr r _ g t) hz = (SendingConfirmation c tr r hz g t, True)"
| "set_frequency (Contest (ExchangingInfo c s ts _ t)) hz = (Contest (ExchangingInfo c s ts hz t), True)"
| "set_frequency s hz = (s, False)"

fun state_their_callsign :: "qso_state \<Rightarrow> string option" where
  "state_their_callsign (RespondingToCq c _ _) = Some c"
| "state_their_callsign (WaitingForReport c _ _ _ _) = Some c"
| "state_their_callsign (SendingReport c _ _ _ _) = Some c"
| "state_their_callsign (WaitingForConfirmation c _ _ _ _ _) = Some c"
| "state_their_callsign (SendingConfirmation c _ _ _ _ _) = Some c"
| "state_their_callsign (Completed c _ _ _ _ _ _) = Some c"
| "state_their_callsign (Contest (ExchangingInfo c _ _ _ _)) = Some c"
| "state_their_callsign (Contest (ContestCompleted c _ _ _ _ _)) = Some c"
| "state_their_callsign _ = None"

fun state_started_at :: "qso_state \<Rightarrow> timestamp option" where
  "state_started_at (CallingCq _ t _) = Some t"
| "state_started_at (RespondingToCq _ _ t) = Some t"
| "state_started_at (WaitingForReport _ _ t _ _) = Some t"
| "state_started_at (SendingReport _ _ _ _ t) = Some t"
| "state_started_at (WaitingForConfirmation _ _ _ _ _ t) = Some t"
| "state_started_at (SendingConfirmation _ _ _ _ _ t) = Some t"
| "state_started_at (Contest (ExchangingInfo _ _ _ _ t)) = Some t"
| "state_started_at _ = None"

definition state_duration :: "qso_state \<Rightarrow> timestamp \<Rightarrow> int option" where
  "state_duration s now = map_option (\<lambda>start. now - start) (state_started_at s)"

section \<open>The display ladder\<close>

record qso_ladder_view =
  labels :: "string list"
  ours :: "bool list"
  index :: nat
  now_line :: string
  next_line :: string

definition CQER_LABELS :: "string list" where
  "CQER_LABELS = [''CQ'', ''Grid'', ''Rpt'', ''R-Rpt'', ''RR73'']"

definition CALLER_LABELS :: "string list" where
  "CALLER_LABELS = [''Grid'', ''Rpt'', ''R-Rpt'', ''RR73'', ''73'']"

definition LADDER_OURS :: "bool list" where
  "LADDER_OURS = [True, False, True, False, True]"

text \<open>\<open>{:+}\<close> formatting.\<close>

definition int_to_dec_signed :: "int \<Rightarrow> string" where
  "int_to_dec_signed k = (if 0 \<le> k then CHR ''+'' # int_to_dec k else int_to_dec k)"

definition em_dash :: string where "em_dash = [CHR 0xE2, CHR 0x80, CHR 0x94]"

definition cqer_view :: "nat \<Rightarrow> string \<Rightarrow> string \<Rightarrow> qso_ladder_view option" where
  "cqer_view i nw nx = Some \<lparr> labels = CQER_LABELS, ours = LADDER_OURS, index = i, now_line = nw, next_line = nx \<rparr>"

definition caller_view :: "nat \<Rightarrow> string \<Rightarrow> string \<Rightarrow> qso_ladder_view option" where
  "caller_view i nw nx = Some \<lparr> labels = CALLER_LABELS, ours = LADDER_OURS, index = i, now_line = nw, next_line = nx \<rparr>"

fun ladder_view :: "qso_state \<Rightarrow> qso_role \<Rightarrow> qso_ladder_view option" where
  "ladder_view (CallingCq _ _ _) role = cqer_view 0 ''calling CQ'' ''expect a caller''"
| "ladder_view (SendingConfirmation _ _ _ _ _ _) role =
     cqer_view 4 ''sending RR73'' (''their 73 '' @ em_dash @ '' QSO logged'')"
| "ladder_view (RespondingToCq _ _ _) role = caller_view 0 ''sending our grid/call'' ''expect their report''"
| "ladder_view (WaitingForReport _ _ _ _ _) role =
     (if role = Cqer then cqer_view 1 ''caller answered'' ''we send their report''
      else caller_view 1 ''waiting'' ''their signal report'')"
| "ladder_view (SendingReport _ _ our_report _ _) role =
     (if role = Cqer then cqer_view 2 (''sending '' @ int_to_dec_signed our_report) ''expect their R-report''
      else caller_view 2 (''sending R'' @ int_to_dec_signed our_report) ''expect their RR73'')"
| "ladder_view (WaitingForConfirmation _ _ _ _ _ _) role =
     (if role = Cqer then cqer_view 4 ''sending RR73'' (''their 73 '' @ em_dash @ '' QSO logged'')
      else caller_view 3 ''waiting'' (''their RR73 '' @ em_dash @ '' we log + send 73''))"
| "ladder_view _ role = None"

section \<open>MessageType\<close>

fun is_addressed_to :: "message_type \<Rightarrow> string \<Rightarrow> bool" where
  "is_addressed_to (CqResponse calling _ _) c = (calling = c)"
| "is_addressed_to (SignalReport to_s _ _) c = (to_s = c)"
| "is_addressed_to (ReportAck to_s _ _) c = (to_s = c)"
| "is_addressed_to (FinalConfirmation to_s _) c = (to_s = c)"
| "is_addressed_to (SeventyThree to_s _) c = (to_s = c)"
| "is_addressed_to (ContestExchange to_s _ _ _) c = (to_s = c)"
| "is_addressed_to (ContestReply to_s _ _ _) c = (to_s = c)"
| "is_addressed_to _ c = False"

fun sender_callsign :: "message_type \<Rightarrow> string option" where
  "sender_callsign (Cq c _) = Some c"
| "sender_callsign (CqResponse _ responding _) = Some responding"
| "sender_callsign (SignalReport _ from_s _) = Some from_s"
| "sender_callsign (ReportAck _ from_s _) = Some from_s"
| "sender_callsign (FinalConfirmation _ from_s) = Some from_s"
| "sender_callsign (SeventyThree _ from_s) = Some from_s"
| "sender_callsign (ContestExchange _ from_s _ _) = Some from_s"
| "sender_callsign (ContestReply _ from_s _ _) = Some from_s"
| "sender_callsign (NonStandard _) = None"

fun addressee_callsign :: "message_type \<Rightarrow> string option" where
  "addressee_callsign (CqResponse calling _ _) = Some calling"
| "addressee_callsign (SignalReport to_s _ _) = Some to_s"
| "addressee_callsign (ReportAck to_s _ _) = Some to_s"
| "addressee_callsign (FinalConfirmation to_s _) = Some to_s"
| "addressee_callsign (SeventyThree to_s _) = Some to_s"
| "addressee_callsign (ContestExchange to_s _ _ _) = Some to_s"
| "addressee_callsign (ContestReply to_s _ _ _) = Some to_s"
| "addressee_callsign _ = None"

fun is_from :: "message_type \<Rightarrow> string \<Rightarrow> bool" where
  "is_from (Cq call _) c = (call = c)"
| "is_from (CqResponse _ responding _) c = (responding = c)"
| "is_from (SignalReport _ from_s _) c = (from_s = c)"
| "is_from (ReportAck _ from_s _) c = (from_s = c)"
| "is_from (FinalConfirmation _ from_s) c = (from_s = c)"
| "is_from (SeventyThree _ from_s) c = (from_s = c)"
| "is_from (ContestExchange _ from_s _ _) c = (from_s = c)"
| "is_from (ContestReply _ from_s _ _) c = (from_s = c)"
| "is_from _ c = False"

section \<open>Lemmas\<close>

lemma is_addressed_to_iff: "is_addressed_to m c \<longleftrightarrow> addressee_callsign m = Some c"
  by (cases m) auto

lemma is_from_iff: "is_from m c \<longleftrightarrow> sender_callsign m = Some c"
  by (cases m) auto

lemma classify_None [simp]: "classify a b = None \<longleftrightarrow> a \<and> b"
  by (cases a; cases b) auto

lemma set_frequency_reads:
  "state_frequency (fst (set_frequency s hz)) = (if snd (set_frequency s hz) then Some hz else state_frequency s)"
  "snd (set_frequency s hz) \<longleftrightarrow> is_active s \<and> state_started_at s \<noteq> None"
  "state_their_callsign (fst (set_frequency s hz)) = state_their_callsign s"
  by (cases "(s, hz)" rule: set_frequency.cases; simp add: is_active_def)+

lemma set_frequency_terminal: "is_terminal s \<Longrightarrow> set_frequency s hz = (s, False)"
  by (cases s) auto

lemma ladder_view_rung:
  "ladder_view s role = Some v \<Longrightarrow> index v < length (labels v) \<and> length (ours v) = length (labels v) \<and> is_active s"
  by (cases "(s, role)" rule: ladder_view.cases)
    (auto simp: cqer_view_def caller_view_def CQER_LABELS_def CALLER_LABELS_def LADDER_OURS_def is_active_def split: if_splits)

section \<open>Properties\<close>

text \<open>A frequency move is written exactly into the states that are under way, reads back as the new
  frequency, keeps the partner, and never rewrites the record of a finished QSO.\<close>

theorem set_frequency_correct:
  "state_frequency (fst (set_frequency s hz)) = (if snd (set_frequency s hz) then Some hz else state_frequency s) \<and>
   (snd (set_frequency s hz) \<longleftrightarrow> is_active s \<and> state_started_at s \<noteq> None) \<and>
   state_their_callsign (fst (set_frequency s hz)) = state_their_callsign s \<and>
   (is_terminal s \<longrightarrow> fst (set_frequency s hz) = s)"
  using set_frequency_reads set_frequency_terminal [of s hz] by auto

theorem set_frequency_correct_witness:
  "is_terminal (Completed ''K1ABC'' (-5) (-7) 1500 None 0 60) \<and>
   fst (set_frequency (Completed ''K1ABC'' (-5) (-7) 1500 None 0 60) 900) = Completed ''K1ABC'' (-5) (-7) 1500 None 0 60"
  using set_frequency_correct [of "Completed ''K1ABC'' (-5) (-7) 1500 None 0 60" 900] by simp

end
