(* ===== verification/Qso_Exchange.thy ===== *)
theory Qso_Exchange
  imports Complex_Main Qso_State
begin

text \<open>
  The message exchange of the QSO engine, \<^verbatim>\<open>pancetta-qso/src/exchange.rs\<close>: compound-call upgrades,
  the text of outgoing messages, the reply to a received message in a given state, and the check of a
  complete exchange. An \<open>f32\<close> is a rational, an infinity or NaN. Parsing of received text (regular
  expressions) is not part of this theory.
\<close>

section \<open>Signal strengths\<close>

datatype f32 = Finite rat | PosInf | NegInf | NaN

text \<open>\<open>f32::round\<close>: to the nearest integer, halves away from zero.\<close>

definition round_half_away :: "rat \<Rightarrow> int" where
  "round_half_away x = (if 0 \<le> x then \<lfloor>x + 1 / 2\<rfloor> else - \<lfloor>- x + 1 / 2\<rfloor>)"

text \<open>\<open>(x.round() as i8)\<close>: the cast saturates and sends NaN to 0.\<close>

fun round_as_i8 :: "f32 \<Rightarrow> int" where
  "round_as_i8 (Finite x) = max (- 128) (min 127 (round_half_away x))"
| "round_as_i8 PosInf = 127"
| "round_as_i8 NegInf = - 128"
| "round_as_i8 NaN = 0"

text \<open>\<open>(snr.round() as i8).clamp(-30, 50)\<close>.\<close>

definition snr_report :: "f32 \<Rightarrow> int" where
  "snr_report snr = max (- 30) (min 50 (round_as_i8 snr))"

lemma snr_report_range: "- 30 \<le> snr_report snr \<and> snr_report snr \<le> 50"
  by (simp add: snr_report_def)

definition snr_report_or :: "f32 option \<Rightarrow> int \<Rightarrow> int" where
  "snr_report_or snr d = (case snr of Some s \<Rightarrow> snr_report s | None \<Rightarrow> d)"

section \<open>Compound callsigns\<close>

definition split_compound :: "string \<Rightarrow> string \<times> string list" where
  "split_compound callsign =
     (let upper = to_upper (trim callsign);
          base = base_callsign upper;
          extras = filter (\<lambda>c. c \<noteq> [] \<and> c \<noteq> base) (split_char CHR ''/'' upper)
      in (base, extras))"

definition is_recognized_affix_token :: "string \<Rightarrow> bool" where
  "is_recognized_affix_token token \<longleftrightarrow> token \<noteq> [] \<and> length token \<le> 4 \<and> list_all is_ascii_alphanumeric token"

definition normalize_callsign_token :: "string \<Rightarrow> string" where
  "normalize_callsign_token token =
     (case Option.bind (strip_prefix ''<'' token) (strip_suffix ''>'') of
        Some inner \<Rightarrow> if inner \<noteq> [] \<and> \<not> list_all (\<lambda>b. b = CHR ''.'') inner then inner else token
      | None \<Rightarrow> token)"

definition is_safe_compound_upgrade :: "string \<Rightarrow> string \<Rightarrow> bool" where
  "is_safe_compound_upgrade latched candidate =
     (let lu = to_upper (trim latched); cu = to_upper (trim candidate) in
      if length cu \<le> length lu \<or> \<not> callsigns_match lu cu then False
      else
        let (_, l_extras) = split_compound lu; (_, c_extras) = split_compound cu in
        if \<not> list_all is_recognized_affix_token c_extras then False
        else if \<not> list_all (\<lambda>t. List.member c_extras t) l_extras then False
        else True)"

section \<open>The exchange handler\<close>

datatype exchange_error =
    InvalidFormat string
  | InvalidCallsignError string
  | InvalidGrid string
  | InvalidReport string
  | UnsupportedType
  | ParseError string
  | MissingCapture nat string

datatype exchange_format = RstSerial | RstState | RstGrid | CustomFormat string

record contest_exchange_config =
  contest_name :: string
  exchange_format :: exchange_format
  our_exchange :: string

text \<open>The handler: \<open>saved_serial\<close> is the serial last written to the persistence file.\<close>

record message_exchange =
  our_callsign :: string
  contest_mode :: "contest_exchange_config option"
  contest_serial :: nat
  saved_serial :: "nat option"

definition set_contest_mode :: "message_exchange \<Rightarrow> contest_exchange_config \<Rightarrow> message_exchange" where
  "set_contest_mode me config = me \<lparr> contest_mode := Some config \<rparr>"

definition disable_contest_mode :: "message_exchange \<Rightarrow> message_exchange" where
  "disable_contest_mode me = me \<lparr> contest_mode := None \<rparr>"

definition outbound_grid_field :: "string option \<Rightarrow> string option" where
  "outbound_grid_field grid =
     (case grid of None \<Rightarrow> None
      | Some g \<Rightarrow> let g = trim g in if g = [] then None else Some (to_upper (take 4 g)))"

fun generate_message :: "message_type \<Rightarrow> string" where
  "generate_message (Cq callsign grid) =
     (case outbound_grid_field grid of
        Some g \<Rightarrow> ''CQ '' @ callsign @ '' '' @ g
      | None \<Rightarrow> ''CQ '' @ callsign)"
| "generate_message (CqResponse calling responding grid) =
     (case outbound_grid_field grid of
        Some g \<Rightarrow> calling @ '' '' @ responding @ '' '' @ g
      | None \<Rightarrow> calling @ '' '' @ responding)"
| "generate_message (SignalReport to_s from_s report) = to_s @ '' '' @ from_s @ '' '' @ int_to_dec_signed report"
| "generate_message (ReportAck to_s from_s report) = to_s @ '' '' @ from_s @ '' R'' @ int_to_dec_signed report"
| "generate_message (FinalConfirmation to_s from_s) = to_s @ '' '' @ from_s @ '' RR73''"
| "generate_message (SeventyThree to_s from_s) = to_s @ '' '' @ from_s @ '' 73''"
| "generate_message (ContestExchange to_s from_s report serial) =
     to_s @ '' '' @ from_s @ '' '' @ pad3 (nat (as_i8 (report + 35) mod 2 ^ 32)) @ '' '' @ pad3 serial"
| "generate_message (ContestReply to_s from_s grid is_ack) =
     (if is_ack then to_s @ '' '' @ from_s @ '' R '' @ grid else to_s @ '' '' @ from_s @ '' '' @ grid)"
| "generate_message (NonStandard text) = text"

definition validate_report :: "int \<Rightarrow> exchange_error + unit" where
  "validate_report report =
     (if \<not> (- 50 \<le> report \<and> report \<le> 50) then Inl (InvalidReport (int_to_dec report)) else Inr ())"

text \<open>The contest serial is taken with a wrapping \<open>fetch_add\<close> on a \<open>u32\<close>; the next one is saved.\<close>

definition generate_contest_response ::
  "message_exchange \<Rightarrow> qso_state \<Rightarrow> message_type \<Rightarrow> int \<Rightarrow> message_exchange \<times> (exchange_error + message_type option)" where
  "generate_contest_response me current_state received computed_report =
     (case contest_mode me of
        None \<Rightarrow> (me, Inl (InvalidFormat ''contest mode not configured''))
      | Some _ \<Rightarrow>
          (case (current_state, received) of
             (RespondingToCq target _ _, ContestExchange _ _ _ _) \<Rightarrow>
               let serial = contest_serial me; next_serial = (serial + 1) mod 2 ^ 32 in
               (me \<lparr> contest_serial := next_serial, saved_serial := Some next_serial \<rparr>,
                Inr (Some (ContestExchange target (our_callsign me) computed_report serial)))
           | _ \<Rightarrow> (me, Inr None)))"

definition generate_response ::
  "message_exchange \<Rightarrow> qso_state \<Rightarrow> message_type \<Rightarrow> f32 option \<Rightarrow> message_exchange \<times> (exchange_error + message_type option)" where
  "generate_response me current_state received snr =
     (let computed_report = snr_report_or snr (- 10); us = our_callsign me in
      case (current_state, received) of
        (CallingCq _ _ _, CqResponse _ responding _) \<Rightarrow> (me, Inr (Some (SignalReport responding us computed_report)))
      | (CallingCq _ _ _, SignalReport _ from_s _) \<Rightarrow> (me, Inr (Some (SignalReport from_s us computed_report)))
      | (WaitingForReport their _ _ _ _, FinalConfirmation _ _) \<Rightarrow> (me, Inr (Some (SeventyThree their us)))
      | (WaitingForReport their _ _ _ _, SeventyThree _ _) \<Rightarrow> (me, Inr (Some (SeventyThree their us)))
      | (RespondingToCq target _ _, SignalReport _ _ _) \<Rightarrow> (me, Inr (Some (ReportAck target us computed_report)))
      | (RespondingToCq target _ _, CqResponse _ _ _) \<Rightarrow> (me, Inr (Some (SignalReport target us computed_report)))
      | (RespondingToCq target _ _, ReportAck _ _ _) \<Rightarrow> (me, Inr (Some (FinalConfirmation target us)))
      | (RespondingToCq target _ _, FinalConfirmation _ _) \<Rightarrow> (me, Inr (Some (SeventyThree target us)))
      | (RespondingToCq _ _ _, SeventyThree _ _) \<Rightarrow> (me, Inr None)
      | (SendingReport their _ _ _ _, ReportAck _ _ _) \<Rightarrow> (me, Inr (Some (FinalConfirmation their us)))
      | (WaitingForReport their _ _ _ _, ReportAck _ _ _) \<Rightarrow> (me, Inr (Some (FinalConfirmation their us)))
      | (SendingReport their _ _ _ _, FinalConfirmation _ _) \<Rightarrow> (me, Inr (Some (SeventyThree their us)))
      | (SendingReport _ _ _ _ _, SeventyThree _ _) \<Rightarrow> (me, Inr None)
      | (WaitingForConfirmation their _ _ _ _ _, FinalConfirmation _ _) \<Rightarrow> (me, Inr (Some (SeventyThree their us)))
      | (WaitingForConfirmation their _ _ _ _ _, SignalReport _ _ _) \<Rightarrow> (me, Inr (Some (ReportAck their us computed_report)))
      | (WaitingForConfirmation their _ _ _ _ _, CqResponse _ _ _) \<Rightarrow> (me, Inr (Some (CqResponse their us None)))
      | _ \<Rightarrow>
          if contest_mode me \<noteq> None then generate_contest_response me current_state received computed_report
          else (me, Inr None))"

text \<open>\<open>calculate_signal_report\<close> from the difference \<open>signal_strength - noise_floor\<close> on.\<close>

definition calculate_signal_report :: "f32 \<Rightarrow> int" where
  "calculate_signal_report snr = (let report = snr_report snr in trunc_div (report + 1) 3 * 3)"

record qso_message =
  msg_timestamp :: timestamp
  msg_sent :: bool
  msg_type :: message_type
  msg_raw_text :: string
  msg_signal_strength :: "f32 option"
  msg_frequency :: f64

definition is_duplicate_message :: "message_type \<Rightarrow> qso_message list \<Rightarrow> bool" where
  "is_duplicate_message message previous \<longleftrightarrow> list_ex (\<lambda>prev. msg_type prev = message) previous"

section \<open>Complete exchanges\<close>

datatype validation_result = Valid | Warning string | Invalid string

datatype qso_sequence_state =
    Initial | CqSent | ResponseReceived | ReportSent | ReportAckReceived | ConfirmationSent | Complete

fun sequence_step :: "qso_sequence_state \<Rightarrow> message_type \<Rightarrow> qso_sequence_state option" where
  "sequence_step Initial (Cq _ _) = Some CqSent"
| "sequence_step CqSent (CqResponse _ _ _) = Some ResponseReceived"
| "sequence_step ResponseReceived (SignalReport _ _ _) = Some ReportSent"
| "sequence_step ReportSent (ReportAck _ _ _) = Some ReportAckReceived"
| "sequence_step ReportAckReceived (FinalConfirmation _ _) = Some ConfirmationSent"
| "sequence_step ConfirmationSent (SeventyThree _ _) = Some Complete"
| "sequence_step _ _ = None"

text \<open>The loop over the messages; \<open>dbg\<close> is the derived debug rendering.\<close>

fun sequence_loop :: "(message_type \<Rightarrow> string) \<Rightarrow> qso_sequence_state \<Rightarrow> message_type list \<Rightarrow> validation_result" where
  "sequence_loop dbg state [] =
     (if state = Complete then Valid else Warning ''Incomplete QSO sequence'')"
| "sequence_loop dbg state (m # ms) =
     (case sequence_step state m of
        Some state' \<Rightarrow> sequence_loop dbg state' ms
      | None \<Rightarrow> Warning (''Unexpected message in sequence: '' @ dbg m))"

definition validate_exchange_sequence :: "(message_type \<Rightarrow> string) \<Rightarrow> message_type list \<Rightarrow> validation_result" where
  "validate_exchange_sequence dbg messages =
     (if messages = [] then Invalid ''Empty message sequence'' else sequence_loop dbg Initial messages)"

section \<open>Upgrades\<close>

definition affixes :: "string \<Rightarrow> string set" where
  "affixes c = set (snd (split_compound (to_upper (trim c))))"

lemma safe_upgrade_iff:
  "is_safe_compound_upgrade l c \<longleftrightarrow>
     length (to_upper (trim l)) < length (to_upper (trim c)) \<and>
     callsigns_match (to_upper (trim l)) (to_upper (trim c)) \<and>
     (\<forall>t\<in>affixes c. is_recognized_affix_token t) \<and> affixes l \<subseteq> affixes c"
  by (auto simp: is_safe_compound_upgrade_def affixes_def Let_def list_all_iff split: prod.splits)

text \<open>A chain of accepted upgrades, oldest first.\<close>

fun upgrade_chain :: "string \<Rightarrow> string list \<Rightarrow> bool" where
  "upgrade_chain l [] = True"
| "upgrade_chain l (c # cs) = (is_safe_compound_upgrade l c \<and> upgrade_chain c cs)"

lemma upgrade_chain_last:
  "upgrade_chain l cs \<Longrightarrow> cs \<noteq> [] \<Longrightarrow>
     length (to_upper (trim l)) + length cs \<le> length (to_upper (trim (last cs))) \<and>
     callsigns_match (to_upper (trim l)) (to_upper (trim (last cs))) \<and>
     (\<forall>t\<in>affixes (last cs). is_recognized_affix_token t) \<and> affixes l \<subseteq> affixes (last cs)"
proof (induction cs arbitrary: l)
  case (Cons c cs)
  have s: "is_safe_compound_upgrade l c" using Cons.prems by simp
  show ?case
  proof (cases cs)
    case Nil
    then show ?thesis using s by (simp add: safe_upgrade_iff Suc_le_eq)
  next
    case (Cons d ds)
    then have "length (to_upper (trim c)) + length cs \<le> length (to_upper (trim (last cs)))"
        "callsigns_match (to_upper (trim c)) (to_upper (trim (last cs)))"
        "\<forall>t\<in>affixes (last cs). is_recognized_affix_token t" "affixes c \<subseteq> affixes (last cs)"
      using Cons.IH [of c] Cons.prems by simp_all
    moreover have "length (to_upper (trim l)) < length (to_upper (trim c))" "affixes l \<subseteq> affixes c"
        "callsigns_match (to_upper (trim l)) (to_upper (trim c))"
      using s by (simp_all add: safe_upgrade_iff)
    moreover have "last (c # cs) = last cs" using Cons by simp
    ultimately show ?thesis using call.same_trans by auto
  qed
qed simp

section \<open>The canonical exchange\<close>

fun sequence_rank :: "qso_sequence_state \<Rightarrow> nat" where
  "sequence_rank Initial = 0" | "sequence_rank CqSent = 1" | "sequence_rank ResponseReceived = 2"
| "sequence_rank ReportSent = 3" | "sequence_rank ReportAckReceived = 4" | "sequence_rank ConfirmationSent = 5"
| "sequence_rank Complete = 6"

fun rung :: "message_type \<Rightarrow> nat" where
  "rung (Cq _ _) = 0" | "rung (CqResponse _ _ _) = 1" | "rung (SignalReport _ _ _) = 2"
| "rung (ReportAck _ _ _) = 3" | "rung (FinalConfirmation _ _) = 4" | "rung (SeventyThree _ _) = 5"
| "rung _ = 6"

lemma sequence_step_rung:
  "sequence_step s m = Some s' \<longleftrightarrow> rung m = sequence_rank s \<and> sequence_rank s' = Suc (sequence_rank s)"
  by (cases s; cases m; cases s') simp_all

lemma sequence_step_enabled: "(\<exists>s'. sequence_step s m = Some s') \<longleftrightarrow> rung m = sequence_rank s \<and> s \<noteq> Complete"
  by (cases s; cases m) simp_all

lemma sequence_loop_Valid:
  "sequence_loop dbg s ms = Valid \<longleftrightarrow> map rung ms = [sequence_rank s..<6]"
proof (induction ms arbitrary: s)
  case Nil
  then show ?case by (cases s) (simp_all add: upt_rec)
next
  case (Cons m ms)
  have r: "sequence_rank s \<le> 6" "s \<noteq> Complete \<longleftrightarrow> sequence_rank s < 6" by (cases s; simp)+
  show ?case
  proof (cases "sequence_step s m")
    case None
    then have "\<not> (rung m = sequence_rank s \<and> s \<noteq> Complete)" using sequence_step_enabled by (metis option.distinct(1))
    then show ?thesis using None r by (auto simp: upt_eq_Cons_conv upt_conv_Cons dest: sym)
  next
    case (Some s')
    then have "rung m = sequence_rank s" "sequence_rank s' = Suc (sequence_rank s)" "s \<noteq> Complete"
      using sequence_step_rung sequence_step_enabled by metis+
    then show ?thesis using Some r Cons.IH [of s'] by (simp add: upt_conv_Cons)
  qed
qed

section \<open>Replies\<close>

lemma generate_response_addressed:
  assumes "generate_response me s m snr = (me', Inr (Some reply))"
  shows "sender_callsign reply = Some (our_callsign me) \<and>
         addressee_callsign reply = (case state_their_callsign s of Some p \<Rightarrow> Some p | None \<Rightarrow> sender_callsign m)"
  using assms
  by (cases s; cases m)
    (auto simp: generate_response_def generate_contest_response_def Let_def split: option.splits if_splits)

section \<open>Properties\<close>

text \<open>The logged callsign can only be completed, never replaced: after any chain of accepted
  compound-call upgrades the call still matches the first one, is longer by at least one byte per upgrade,
  still carries every affix of the first one, and every affix is a token of one to four letters or digits.\<close>

theorem compound_upgrades_only_complete:
  assumes "upgrade_chain l cs" and "cs \<noteq> []"
  shows "callsigns_match (to_upper (trim l)) (to_upper (trim (last cs))) \<and>
         length (to_upper (trim l)) + length cs \<le> length (to_upper (trim (last cs))) \<and>
         affixes l \<subseteq> affixes (last cs) \<and>
         (\<forall>t\<in>affixes (last cs). t \<noteq> [] \<and> length t \<le> 4 \<and> list_all is_ascii_alphanumeric t)"
  using upgrade_chain_last [OF assms] by (auto simp: is_recognized_affix_token_def)

theorem compound_upgrades_only_complete_witness:
  "upgrade_chain ''G8BCG'' [''EA8/G8BCG'', ''EA8/G8BCG/P''] \<and>
   callsigns_match (to_upper (trim ''G8BCG'')) (to_upper (trim ''EA8/G8BCG/P'')) \<and>
   affixes ''G8BCG'' \<subseteq> affixes ''EA8/G8BCG/P''"
proof -
  have c: "upgrade_chain ''G8BCG'' [''EA8/G8BCG'', ''EA8/G8BCG/P'']" by code_simp
  show ?thesis using compound_upgrades_only_complete [OF c] c by simp
qed

text \<open>A message sequence is accepted as a complete exchange exactly when it is CQ, answer, report,
  acknowledged report, RR73 and 73, in this order and with nothing else.\<close>

theorem exchange_sequence_valid:
  "validate_exchange_sequence dbg ms = Valid \<longleftrightarrow> map rung ms = [0, 1, 2, 3, 4, 5]"
proof -
  have u: "[0..<6] = [0, 1, 2, 3, 4, 5 :: nat]" by (simp add: upt_rec)
  show ?thesis
    using sequence_loop_Valid [of dbg Initial ms] by (cases ms) (simp_all add: validate_exchange_sequence_def u)
qed

text \<open>Every reply the engine generates is signed with our callsign and addressed to the partner of the
  QSO, or, while still calling CQ, to the station that answered.\<close>

theorem replies_go_to_the_partner:
  assumes "generate_response me s m snr = (me', Inr (Some reply))"
  shows "sender_callsign reply = Some (our_callsign me) \<and>
         addressee_callsign reply = (case state_their_callsign s of Some p \<Rightarrow> Some p | None \<Rightarrow> sender_callsign m)"
  using assms by (rule generate_response_addressed)

definition demo_exchange :: message_exchange where
  "demo_exchange = \<lparr> our_callsign = ''W1ABC'', contest_mode = None, contest_serial = 1, saved_serial = None \<rparr>"

theorem replies_go_to_the_partner_witness:
  "generate_response demo_exchange (RespondingToCq ''K1DEF'' 1500 0) (SignalReport ''W1ABC'' ''K1DEF'' (-7)) None =
     (demo_exchange, Inr (Some (ReportAck ''K1DEF'' ''W1ABC'' (-10)))) \<and>
   sender_callsign (ReportAck ''K1DEF'' ''W1ABC'' (-10)) = Some (our_callsign demo_exchange)"
proof -
  have r: "generate_response demo_exchange (RespondingToCq ''K1DEF'' 1500 0) (SignalReport ''W1ABC'' ''K1DEF'' (-7)) None =
     (demo_exchange, Inr (Some (ReportAck ''K1DEF'' ''W1ABC'' (-10))))"
    by (simp add: generate_response_def snr_report_or_def demo_exchange_def)
  then show ?thesis using replies_go_to_the_partner [OF r] by simp
qed

text \<open>Rounding to three decibels goes towards zero below zero: \<open>-2\<close> becomes \<open>0\<close>, not \<open>-3\<close>.\<close>

lemma signal_report_rounding_negative: "calculate_signal_report (Finite (- 2)) = 0"
proof -
  have "\<lfloor>5 / 2 :: rat\<rfloor> = 2" by (simp add: floor_eq_iff)
  then show ?thesis
    by (simp add: calculate_signal_report_def snr_report_def round_half_away_def trunc_div_def Let_def)
qed

end
