(* ===== verification/Qso_Engine.thy ===== *)
theory Qso_Engine
  imports Qso_Exchange Machine
begin

text \<open>
  The state machine of the QSO engine, \<^verbatim>\<open>pancetta-qso/src/qso_manager.rs\<close>: sender verification with
  the rejection events it emits, the transition function \<open>determine_state_transition\<close> with one definition
  per arm, the two progress ladders, and the auto-sequenced reply of \<open>process_message_for_qso\<close>. The
  context of a transition carries our callsign, the QSO id, the received signal strength and the clock
  readings (an arm that reads the clock twice uses both).
\<close>

section \<open>Sender verification\<close>

datatype qso_event = MessageRejected qso_id rejection_reason "string option" "string option"

record transition_ctx =
  cfg_callsign :: string
  ctx_qso_id :: qso_id
  ctx_snr :: "f32 option"
  clock1 :: timestamp
  clock2 :: timestamp

definition is_us :: "string \<Rightarrow> string \<Rightarrow> bool" where
  "is_us our call = callsigns_match call our"

definition is_partner :: "string \<Rightarrow> string \<Rightarrow> bool" where
  "is_partner from_s partner = callsigns_match from_s partner"

definition verify_sender :: "string \<Rightarrow> string \<Rightarrow> string \<Rightarrow> string \<Rightarrow> rejection_reason option" where
  "verify_sender our from_s partner to_s = classify (is_partner from_s partner) (is_us our to_s)"

definition verify_addressee :: "string \<Rightarrow> string \<Rightarrow> rejection_reason option" where
  "verify_addressee our to_s = (if \<not> is_us our to_s then Some AddresseeNotUs else None)"

text \<open>The rejecting helpers return the event they emit; none means not rejected.\<close>

definition reject_sender :: "transition_ctx \<Rightarrow> string \<Rightarrow> string \<Rightarrow> string \<Rightarrow> qso_event list" where
  "reject_sender ctx from_s partner to_s =
     (case verify_sender (cfg_callsign ctx) from_s partner to_s of
        None \<Rightarrow> []
      | Some reason \<Rightarrow> [MessageRejected (ctx_qso_id ctx) reason (Some from_s) (Some to_s)])"

definition reject_addressee :: "transition_ctx \<Rightarrow> string \<Rightarrow> string \<Rightarrow> qso_event list" where
  "reject_addressee ctx from_s to_s =
     (case verify_addressee (cfg_callsign ctx) to_s of
        None \<Rightarrow> []
      | Some reason \<Rightarrow> [MessageRejected (ctx_qso_id ctx) reason (Some from_s) (Some to_s)])"

text \<open>\<open>(Utc::now() - started_at).num_seconds().max(0) as u32\<close>.\<close>

definition duration_secs :: "timestamp \<Rightarrow> timestamp \<Rightarrow> nat" where
  "duration_secs now started_at = nat (max (trunc_div (now - started_at) 1000000000) 0) mod 2 ^ 32"

text \<open>The shape of every arm: a rejected frame leaves the state as it was.\<close>

definition guarded :: "qso_event list \<Rightarrow> qso_state \<Rightarrow> qso_state \<Rightarrow> qso_event list \<times> qso_state" where
  "guarded rejected current next = (if rejected \<noteq> [] then (rejected, current) else ([], next))"

section \<open>The arms of determine\_state\_transition\<close>

definition tr_cq_response :: "transition_ctx \<Rightarrow> qso_state \<Rightarrow> f64 \<Rightarrow> string \<Rightarrow> string \<Rightarrow> string option \<Rightarrow> qso_event list \<times> qso_state" where
  "tr_cq_response ctx cur frequency calling responding grid =
     guarded (reject_addressee ctx responding calling) cur
       (WaitingForReport responding frequency (clock1 ctx) grid (snr_report_or (ctx_snr ctx) (- 15)))"

definition tr_cq_report :: "transition_ctx \<Rightarrow> qso_state \<Rightarrow> f64 \<Rightarrow> string \<Rightarrow> string \<Rightarrow> qso_event list \<times> qso_state" where
  "tr_cq_report ctx cur frequency from_s to_s =
     guarded (reject_addressee ctx from_s to_s) cur
       (WaitingForReport from_s frequency (clock1 ctx) None (snr_report_or (ctx_snr ctx) (- 15)))"

definition tr_waiting_close :: "transition_ctx \<Rightarrow> qso_state \<Rightarrow> string \<Rightarrow> f64 \<Rightarrow> timestamp \<Rightarrow> string \<Rightarrow> string \<Rightarrow> qso_event list \<times> qso_state" where
  "tr_waiting_close ctx cur their frequency started_at from_s to_s =
     guarded (reject_sender ctx from_s their to_s) cur
       (Completed their (- 15) (snr_report_or (ctx_snr ctx) (- 15)) frequency None (clock2 ctx)
          (duration_secs (clock1 ctx) started_at))"

definition tr_waiting_repeat :: "transition_ctx \<Rightarrow> qso_state \<Rightarrow> string \<Rightarrow> f64 \<Rightarrow> timestamp \<Rightarrow> string option \<Rightarrow> int \<Rightarrow> string \<Rightarrow> string \<Rightarrow> qso_event list \<times> qso_state" where
  "tr_waiting_repeat ctx cur their frequency started_at their_grid our_report calling responding =
     guarded (reject_sender ctx responding their calling) cur
       (WaitingForReport their frequency started_at their_grid our_report)"

definition tr_waiting_ack :: "transition_ctx \<Rightarrow> qso_state \<Rightarrow> string \<Rightarrow> f64 \<Rightarrow> string option \<Rightarrow> string \<Rightarrow> string \<Rightarrow> int \<Rightarrow> qso_event list \<times> qso_state" where
  "tr_waiting_ack ctx cur their frequency their_grid from_s to_s report =
     guarded (reject_sender ctx from_s their to_s) cur
       (WaitingForConfirmation their report (snr_report_or (ctx_snr ctx) report) frequency their_grid (clock1 ctx))"

definition tr_responding_call :: "transition_ctx \<Rightarrow> qso_state \<Rightarrow> string \<Rightarrow> f64 \<Rightarrow> string \<Rightarrow> string \<Rightarrow> qso_event list \<times> qso_state" where
  "tr_responding_call ctx cur target frequency calling responding =
     guarded (reject_sender ctx responding target calling) cur
       (SendingReport target None (snr_report_or (ctx_snr ctx) (- 15)) frequency (clock1 ctx))"

definition tr_responding_report :: "transition_ctx \<Rightarrow> qso_state \<Rightarrow> string \<Rightarrow> f64 \<Rightarrow> string \<Rightarrow> string \<Rightarrow> int \<Rightarrow> qso_event list \<times> qso_state" where
  "tr_responding_report ctx cur target frequency from_s to_s report =
     guarded (reject_sender ctx from_s target to_s) cur
       (SendingReport target (Some report) (snr_report_or (ctx_snr ctx) report) frequency (clock1 ctx))"

definition tr_responding_ack :: "transition_ctx \<Rightarrow> qso_state \<Rightarrow> string \<Rightarrow> f64 \<Rightarrow> string \<Rightarrow> string \<Rightarrow> int \<Rightarrow> qso_event list \<times> qso_state" where
  "tr_responding_ack ctx cur target frequency from_s to_s report =
     guarded (reject_sender ctx from_s target to_s) cur
       (WaitingForConfirmation target report (snr_report_or (ctx_snr ctx) report) frequency None (clock1 ctx))"

definition tr_responding_contest :: "transition_ctx \<Rightarrow> qso_state \<Rightarrow> bool \<Rightarrow> string \<Rightarrow> f64 \<Rightarrow> string \<Rightarrow> string \<Rightarrow> string \<Rightarrow> qso_event list \<times> qso_state" where
  "tr_responding_contest ctx cur contest_engaged target frequency from_s to_s grid =
     (if \<not> contest_engaged then ([], cur)
      else guarded (reject_sender ctx from_s target to_s) cur
             (WaitingForConfirmation target (- 15) (snr_report_or (ctx_snr ctx) (- 15)) frequency (Some grid) (clock1 ctx)))"

definition tr_responding_close :: "transition_ctx \<Rightarrow> qso_state \<Rightarrow> string \<Rightarrow> f64 \<Rightarrow> string \<Rightarrow> string \<Rightarrow> qso_event list \<times> qso_state" where
  "tr_responding_close ctx cur target frequency from_s to_s =
     guarded (reject_sender ctx from_s target to_s) cur
       (Completed target (- 15) (snr_report_or (ctx_snr ctx) (- 15)) frequency None (clock1 ctx) 0)"

definition tr_sending_ack :: "transition_ctx \<Rightarrow> qso_state \<Rightarrow> string \<Rightarrow> int option \<Rightarrow> int \<Rightarrow> f64 \<Rightarrow> string \<Rightarrow> string \<Rightarrow> qso_event list \<times> qso_state" where
  "tr_sending_ack ctx cur their their_report our_report frequency from_s to_s =
     guarded (reject_sender ctx from_s their to_s) cur
       (WaitingForConfirmation their (case their_report of Some r \<Rightarrow> r | None \<Rightarrow> - 15) our_report frequency None (clock1 ctx))"

definition tr_sending_close :: "transition_ctx \<Rightarrow> qso_state \<Rightarrow> string \<Rightarrow> int option \<Rightarrow> int \<Rightarrow> f64 \<Rightarrow> timestamp \<Rightarrow> string \<Rightarrow> string \<Rightarrow> qso_event list \<times> qso_state" where
  "tr_sending_close ctx cur their their_report our_report frequency started_at from_s to_s =
     guarded (reject_sender ctx from_s their to_s) cur
       (Completed their (case their_report of Some r \<Rightarrow> r | None \<Rightarrow> - 15) our_report frequency None (clock2 ctx)
          (duration_secs (clock1 ctx) started_at))"

definition tr_confirm_close :: "transition_ctx \<Rightarrow> qso_state \<Rightarrow> string \<Rightarrow> int \<Rightarrow> int \<Rightarrow> f64 \<Rightarrow> string option \<Rightarrow> timestamp \<Rightarrow> string \<Rightarrow> string \<Rightarrow> qso_event list \<times> qso_state" where
  "tr_confirm_close ctx cur their their_report our_report frequency grid started_at from_s to_s =
     guarded (reject_sender ctx from_s their to_s) cur
       (Completed their their_report our_report frequency grid (clock2 ctx) (duration_secs (clock1 ctx) started_at))"

definition tr_confirm_report :: "transition_ctx \<Rightarrow> qso_state \<Rightarrow> string \<Rightarrow> int \<Rightarrow> f64 \<Rightarrow> string \<Rightarrow> string \<Rightarrow> int \<Rightarrow> qso_event list \<times> qso_state" where
  "tr_confirm_report ctx cur their our_report frequency from_s to_s report =
     guarded (reject_sender ctx from_s their to_s) cur
       (SendingReport their (Some report) (snr_report_or (ctx_snr ctx) our_report) frequency (clock1 ctx))"

definition tr_sending_repeat :: "transition_ctx \<Rightarrow> qso_state \<Rightarrow> string \<Rightarrow> int \<Rightarrow> f64 \<Rightarrow> timestamp \<Rightarrow> string \<Rightarrow> string \<Rightarrow> int \<Rightarrow> qso_event list \<times> qso_state" where
  "tr_sending_repeat ctx cur their our_report frequency started_at from_s to_s report =
     guarded (reject_sender ctx from_s their to_s) cur
       (SendingReport their (Some report) our_report frequency started_at)"

definition tr_confirm_restart :: "transition_ctx \<Rightarrow> qso_state \<Rightarrow> string \<Rightarrow> f64 \<Rightarrow> string \<Rightarrow> string \<Rightarrow> qso_event list \<times> qso_state" where
  "tr_confirm_restart ctx cur their frequency calling responding =
     guarded (reject_sender ctx responding their calling) cur (RespondingToCq their frequency (clock1 ctx))"

definition determine_state_transition ::
  "transition_ctx \<Rightarrow> qso_state \<Rightarrow> message_type \<Rightarrow> call_initiation \<Rightarrow> bool \<Rightarrow> qso_event list \<times> qso_state" where
  "determine_state_transition ctx cur msg initiated_by contest_engaged =
     (case cur of
        CallingCq f _ _ \<Rightarrow>
          (case msg of
             CqResponse calling responding grid \<Rightarrow> tr_cq_response ctx cur f calling responding grid
           | SignalReport to_s from_s _ \<Rightarrow> tr_cq_report ctx cur f from_s to_s
           | _ \<Rightarrow> ([], cur))
      | WaitingForReport their f started their_grid our_report \<Rightarrow>
          (case msg of
             FinalConfirmation to_s from_s \<Rightarrow> tr_waiting_close ctx cur their f started from_s to_s
           | SeventyThree to_s from_s \<Rightarrow> tr_waiting_close ctx cur their f started from_s to_s
           | CqResponse calling responding _ \<Rightarrow>
               tr_waiting_repeat ctx cur their f started their_grid our_report calling responding
           | ReportAck to_s from_s report \<Rightarrow> tr_waiting_ack ctx cur their f their_grid from_s to_s report
           | _ \<Rightarrow> ([], cur))
      | RespondingToCq target f _ \<Rightarrow>
          (case msg of
             CqResponse calling responding _ \<Rightarrow> tr_responding_call ctx cur target f calling responding
           | SignalReport to_s from_s report \<Rightarrow> tr_responding_report ctx cur target f from_s to_s report
           | ReportAck to_s from_s report \<Rightarrow> tr_responding_ack ctx cur target f from_s to_s report
           | ContestReply to_s from_s grid is_ack \<Rightarrow>
               if is_ack then tr_responding_contest ctx cur contest_engaged target f from_s to_s grid else ([], cur)
           | FinalConfirmation to_s from_s \<Rightarrow> tr_responding_close ctx cur target f from_s to_s
           | SeventyThree to_s from_s \<Rightarrow> tr_responding_close ctx cur target f from_s to_s
           | _ \<Rightarrow> ([], cur))
      | SendingReport their their_report our_report f started \<Rightarrow>
          (case msg of
             ReportAck to_s from_s _ \<Rightarrow> tr_sending_ack ctx cur their their_report our_report f from_s to_s
           | FinalConfirmation to_s from_s \<Rightarrow> tr_sending_close ctx cur their their_report our_report f started from_s to_s
           | SeventyThree to_s from_s \<Rightarrow> tr_sending_close ctx cur their their_report our_report f started from_s to_s
           | SignalReport to_s from_s report \<Rightarrow> tr_sending_repeat ctx cur their our_report f started from_s to_s report
           | _ \<Rightarrow> ([], cur))
      | WaitingForConfirmation their their_report our_report f grid started \<Rightarrow>
          (case msg of
             FinalConfirmation to_s from_s \<Rightarrow> tr_confirm_close ctx cur their their_report our_report f grid started from_s to_s
           | SeventyThree to_s from_s \<Rightarrow> tr_confirm_close ctx cur their their_report our_report f grid started from_s to_s
           | SignalReport to_s from_s report \<Rightarrow>
               if initiated_by = Manual then tr_confirm_report ctx cur their our_report f from_s to_s report else ([], cur)
           | CqResponse calling responding _ \<Rightarrow>
               if initiated_by = Manual then tr_confirm_restart ctx cur their f calling responding else ([], cur)
           | _ \<Rightarrow> ([], cur))
      | _ \<Rightarrow> ([], cur))"

section \<open>Ladders\<close>

fun ladder_rank :: "qso_state \<Rightarrow> nat option" where
  "ladder_rank (RespondingToCq _ _ _) = Some 0"
| "ladder_rank (SendingReport _ _ _ _ _) = Some 1"
| "ladder_rank (WaitingForConfirmation _ _ _ _ _ _) = Some 2"
| "ladder_rank (SendingConfirmation _ _ _ _ _ _) = Some 2"
| "ladder_rank (Completed _ _ _ _ _ _ _) = Some 3"
| "ladder_rank _ = None"

fun progress_rank :: "qso_state \<Rightarrow> nat option" where
  "progress_rank (CallingCq _ _ _) = Some 0"
| "progress_rank (RespondingToCq _ _ _) = Some 0"
| "progress_rank (WaitingForReport _ _ _ _ _) = Some 1"
| "progress_rank (SendingReport _ None _ _ _) = Some 1"
| "progress_rank (SendingReport _ (Some _) _ _ _) = Some 2"
| "progress_rank (Contest (ExchangingInfo _ _ None _ _)) = Some 1"
| "progress_rank (Contest (ExchangingInfo _ _ (Some _) _ _)) = Some 2"
| "progress_rank (WaitingForConfirmation _ _ _ _ _ _) = Some 3"
| "progress_rank (SendingConfirmation _ _ _ _ _ _) = Some 3"
| "progress_rank (Completed _ _ _ _ _ _ _) = Some 4"
| "progress_rank (Contest (ContestCompleted _ _ _ _ _ _)) = Some 4"
| "progress_rank Idle = None"
| "progress_rank (Failed _ _ _) = None"

text \<open>The order of \<open>Option<u8>\<close>: \<open>None\<close> below every rank.\<close>

fun rank_less :: "nat option \<Rightarrow> nat option \<Rightarrow> bool" where
  "rank_less None (Some _) = True"
| "rank_less (Some a) (Some b) = (a < b)"
| "rank_less _ None = False"

definition dx_frame_advanced :: "qso_state \<Rightarrow> qso_state \<Rightarrow> bool" where
  "dx_frame_advanced old new = rank_less (progress_rank old) (progress_rank new)"

section \<open>The auto-sequenced reply\<close>

fun repeated_report :: "qso_state \<Rightarrow> qso_state \<Rightarrow> message_type \<Rightarrow> bool" where
  "repeated_report (SendingReport _ (Some _) _ _ _) (SendingReport _ _ _ _ _) (SignalReport _ _ _) = True"
| "repeated_report _ _ _ = False"

definition is_manual_regression :: "call_initiation \<Rightarrow> qso_state \<Rightarrow> qso_state \<Rightarrow> message_type \<Rightarrow> bool" where
  "is_manual_regression initiated_by old new msg \<longleftrightarrow>
     initiated_by = Manual \<and> (rank_less (ladder_rank new) (ladder_rank old) \<or> repeated_report old new msg)"

fun hound_suppresses_reply :: "message_type option \<Rightarrow> bool" where
  "hound_suppresses_reply (Some (SeventyThree _ _)) = True"
| "hound_suppresses_reply _ = False"

text \<open>\<open>MessageExchange::new\<close> as the engine uses it for one reply: no contest mode; the serial plays no part.\<close>

definition reply_exchange :: "string \<Rightarrow> message_exchange" where
  "reply_exchange our = \<lparr> our_callsign = our, contest_mode = None, contest_serial = 1, saved_serial = None \<rparr>"

definition reply_to_emit ::
  "transition_ctx \<Rightarrow> bool \<Rightarrow> call_initiation \<Rightarrow> qso_state \<Rightarrow> qso_state \<Rightarrow> message_type \<Rightarrow> message_type option" where
  "reply_to_emit ctx hound initiated_by old new msg =
     (let reply =
        (if new \<noteq> old \<or> is_manual_regression initiated_by old new msg
         then case snd (generate_response (reply_exchange (cfg_callsign ctx)) old msg (ctx_snr ctx)) of
                Inr (Some reply) \<Rightarrow> Some reply
              | Inr None \<Rightarrow> None
              | Inl _ \<Rightarrow> None
         else None)
      in if hound \<and> hound_suppresses_reply reply then None else reply)"

lemmas transition_arms = tr_cq_response_def tr_cq_report_def tr_waiting_close_def tr_waiting_repeat_def tr_waiting_ack_def
  tr_responding_call_def tr_responding_report_def tr_responding_ack_def tr_responding_contest_def tr_responding_close_def
  tr_sending_ack_def tr_sending_close_def tr_confirm_close_def tr_confirm_report_def tr_sending_repeat_def
  tr_confirm_restart_def

section \<open>What a transition needs and keeps\<close>

lemma reject_sender_Nil: "reject_sender ctx from_s p to_s = [] \<longleftrightarrow> is_partner from_s p \<and> is_us (cfg_callsign ctx) to_s"
  by (auto simp: reject_sender_def verify_sender_def split: option.splits)

lemma reject_addressee_Nil: "reject_addressee ctx from_s to_s = [] \<longleftrightarrow> is_us (cfg_callsign ctx) to_s"
  by (simp add: reject_addressee_def verify_addressee_def)

lemma guarded_change: "snd (guarded rej cur nxt) \<noteq> cur \<Longrightarrow> rej = [] \<and> snd (guarded rej cur nxt) = nxt"
  by (simp add: guarded_def split: if_splits)

text \<open>The frame comes from the partner (any station, while none is latched) and is addressed to us.\<close>

definition verified_frame :: "transition_ctx \<Rightarrow> qso_state \<Rightarrow> message_type \<Rightarrow> bool" where
  "verified_frame ctx cur msg \<longleftrightarrow>
     (\<exists>from_s to_s. sender_callsign msg = Some from_s \<and> addressee_callsign msg = Some to_s \<and>
        callsigns_match to_s (cfg_callsign ctx) \<and>
        (\<forall>p. state_their_callsign cur = Some p \<longrightarrow> callsigns_match from_s p))"

lemma transition_verified:
  assumes "snd (determine_state_transition ctx cur msg ini eng) \<noteq> cur"
  shows "verified_frame ctx cur msg"
  using assms
  by (cases cur; cases msg)
    (auto simp: determine_state_transition_def transition_arms verified_frame_def is_us_def is_partner_def
      reject_sender_Nil reject_addressee_Nil dest!: guarded_change split: if_splits)

lemma guarded_events: "fst (guarded rej cur nxt) \<noteq> [] \<Longrightarrow> snd (guarded rej cur nxt) = cur"
  by (simp add: guarded_def split: if_splits)

lemma transition_rejected_unchanged:
  "fst (determine_state_transition ctx cur msg ini eng) \<noteq> [] \<Longrightarrow> snd (determine_state_transition ctx cur msg ini eng) = cur"
  by (cases cur; cases msg)
    (auto simp: determine_state_transition_def transition_arms dest: guarded_events split: if_splits)

lemma transition_keeps:
  "state_frequency (snd (determine_state_transition ctx cur msg ini eng)) = state_frequency cur"
  "state_their_callsign cur = Some p \<Longrightarrow> state_their_callsign (snd (determine_state_transition ctx cur msg ini eng)) = Some p"
  by (cases cur; cases msg;
      simp add: determine_state_transition_def transition_arms guarded_def)+

lemma transition_terminal:
  "is_terminal cur \<or> cur = Idle \<or> (\<exists>c. cur = Contest c) \<Longrightarrow> determine_state_transition ctx cur msg ini eng = ([], cur)"
  by (cases cur) (auto simp: determine_state_transition_def)

definition rank_nat :: "qso_state \<Rightarrow> nat" where
  "rank_nat s = (case progress_rank s of None \<Rightarrow> 0 | Some n \<Rightarrow> Suc n)"

lemma rank_less_nat: "dx_frame_advanced old new \<longleftrightarrow> rank_nat old < rank_nat new"
  by (auto simp: dx_frame_advanced_def rank_nat_def split: option.splits)

lemma rank_nat_sending: "rank_nat (SendingReport c tr r f t) = (case tr of None \<Rightarrow> 2 | Some _ \<Rightarrow> 3)"
  by (cases tr) (simp_all add: rank_nat_def)

lemma transition_progress_auto:
  "rank_nat cur \<le> rank_nat (snd (determine_state_transition ctx cur msg Auto eng))"
  by (cases cur; cases msg)
    (auto simp: determine_state_transition_def transition_arms guarded_def rank_nat_sending split: option.splits,
     auto simp: rank_nat_def)

section \<open>Reports\<close>

definition report_ok :: "int \<Rightarrow> bool" where
  "report_ok r \<longleftrightarrow> - 50 \<le> r \<and> r \<le> 50"

fun state_reports_ok :: "qso_state \<Rightarrow> bool" where
  "state_reports_ok (WaitingForReport _ _ _ _ r) = report_ok r"
| "state_reports_ok (SendingReport _ tr r _ _) = (report_ok r \<and> (case tr of None \<Rightarrow> True | Some t \<Rightarrow> report_ok t))"
| "state_reports_ok (WaitingForConfirmation _ tr r _ _ _) = (report_ok tr \<and> report_ok r)"
| "state_reports_ok (SendingConfirmation _ tr r _ _ _) = (report_ok tr \<and> report_ok r)"
| "state_reports_ok (Completed _ tr r _ _ _ _) = (report_ok tr \<and> report_ok r)"
| "state_reports_ok _ = True"

fun message_report_ok :: "message_type \<Rightarrow> bool" where
  "message_report_ok (SignalReport _ _ r) = report_ok r"
| "message_report_ok (ReportAck _ _ r) = report_ok r"
| "message_report_ok _ = True"

lemma snr_report_or_ok: "report_ok d \<Longrightarrow> report_ok (snr_report_or snr d)"
proof (cases snr)
  case (Some x)
  then show ?thesis using snr_report_range [of x] by (simp add: snr_report_or_def report_ok_def)
qed (simp add: snr_report_or_def)

lemma transition_reports:
  assumes "state_reports_ok cur" and "message_report_ok msg"
  shows "state_reports_ok (snd (determine_state_transition ctx cur msg ini eng))"
proof -
  have d: "report_ok (- 15)" by (simp add: report_ok_def)
  show ?thesis
    using assms d
    by (cases cur; cases msg)
      (auto simp: determine_state_transition_def transition_arms guarded_def snr_report_or_ok split: option.splits if_splits)
qed

section \<open>Runs\<close>

type_synonym qso_input = "transition_ctx \<times> message_type \<times> call_initiation \<times> bool"

fun qso_step :: "qso_state \<Rightarrow> qso_input \<Rightarrow> qso_state \<times> qso_event list" where
  "qso_step s (ctx, msg, ini, eng) =
     (let (evs, s') = determine_state_transition ctx s msg ini eng in (s', evs))"

lemma fst_qso_step: "fst (qso_step s (ctx, msg, ini, eng)) = snd (determine_state_transition ctx s msg ini eng)"
  by (simp split: prod.splits)

definition input_report_ok :: "qso_input \<Rightarrow> bool" where
  "input_report_ok i = message_report_ok (fst (snd i))"

definition auto_input :: "qso_input \<Rightarrow> bool" where
  "auto_input i \<longleftrightarrow> fst (snd (snd i)) = Auto"

interpretation qso: event_machine qso_step Idle state_reports_ok input_report_ok
proof
  show "state_reports_ok (fst (qso_step s e))" if "state_reports_ok s" "input_report_ok e" for s e
    using that by (cases e rule: prod_cases4) (simp only: fst_qso_step transition_reports input_report_ok_def fst_conv snd_conv)
qed simp

lemma run_keeps_partner:
  assumes "state_reports_ok s" and "list_all input_report_ok es" and "state_their_callsign s = Some p"
  shows "state_their_callsign (fst (run qso_step s es)) = Some p \<and>
         state_frequency (fst (run qso_step s es)) = state_frequency s"
proof (rule qso.absorbing [where ok = "\<lambda>_. True" and P = "\<lambda>t. state_their_callsign t = Some p \<and> state_frequency t = state_frequency s"])
  show "state_their_callsign (fst (qso_step t e)) = Some p \<and> state_frequency (fst (qso_step t e)) = state_frequency s"
    if "state_their_callsign t = Some p \<and> state_frequency t = state_frequency s" for t e
    using that by (cases e rule: prod_cases4) (simp del: qso_step.simps add: fst_qso_step transition_keeps)
qed (use assms in \<open>simp_all add: list_all_iff\<close>)

lemma run_progress_auto:
  assumes "state_reports_ok s" and "list_all input_report_ok es" and "list_all auto_input es"
  shows "rank_nat s \<le> rank_nat (fst (run qso_step s es))"
proof (rule qso.measure_mono [OF _ assms])
  show "rank_nat t \<le> rank_nat (fst (qso_step t e))" if "auto_input e" for t e
    using that transition_progress_auto
    by (cases e rule: prod_cases4) (simp only: fst_qso_step auto_input_def fst_conv snd_conv)
qed

lemma run_terminal:
  assumes "state_reports_ok s" and "list_all input_report_ok es" and "is_terminal s"
  shows "fst (run qso_step s es) = s"
proof (rule qso.absorbing [where ok = "\<lambda>_. True" and P = "\<lambda>t. t = s"])
  show "fst (qso_step t e) = s" if "t = s" for t e
    using that assms(3) transition_terminal by (cases e rule: prod_cases4) simp
qed (use assms in \<open>simp_all add: list_all_iff\<close>)

section \<open>Replies agree with transitions\<close>

lemma reply_when_changed:
  assumes "reply_to_emit ctx hound ini cur (snd (determine_state_transition ctx cur msg ini eng)) msg = Some reply"
  shows "sender_callsign reply = Some (cfg_callsign ctx) \<and>
         addressee_callsign reply = state_their_callsign (snd (determine_state_transition ctx cur msg ini eng)) \<and>
         verified_frame ctx cur msg"
  using assms
  by (cases cur; cases msg)
    (auto simp: determine_state_transition_def transition_arms guarded_def reply_to_emit_def generate_response_def
      reply_exchange_def Let_def is_manual_regression_def verified_frame_def is_us_def is_partner_def
      reject_sender_Nil reject_addressee_Nil split: if_splits option.splits)

section \<open>Two stations\<close>

definition deliver :: "transition_ctx \<Rightarrow> call_initiation \<Rightarrow> qso_state \<Rightarrow> message_type \<Rightarrow> qso_state \<times> message_type option" where
  "deliver ctx ini s msg =
     (let s' = snd (determine_state_transition ctx s msg ini False) in (s', reply_to_emit ctx False ini s s' msg))"

text \<open>Frames alternate between two stations; each delivery has its own context (callsign of the receiver,
  signal strength, clock). The station to receive next comes first.\<close>

fun converse :: "call_initiation \<Rightarrow> call_initiation \<Rightarrow> transition_ctx list \<Rightarrow> qso_state \<Rightarrow> qso_state \<Rightarrow> message_type option \<Rightarrow>
    qso_state \<times> qso_state \<times> message_type option" where
  "converse ix iy [] sx sy m = (sx, sy, m)"
| "converse ix iy (c # cs) sx sy None = (sx, sy, None)"
| "converse ix iy (c # cs) sx sy (Some m) =
     (let (sx', r) = deliver c ix sx m in converse iy ix cs sy sx' r)"

lemma two_station_exchange:
  assumes "callsigns_match a a" and "callsigns_match b b"
    and "cfg_callsign c1 = a" "cfg_callsign c2 = b" "cfg_callsign c3 = a" "cfg_callsign c4 = b" "cfg_callsign c5 = a"
  defines "ra \<equiv> snr_report_or (ctx_snr c1) (- 10)" and "rb \<equiv> snr_report_or (ctx_snr c2) (- 10)"
  shows "converse ia ib [c1, c2, c3, c4, c5] (CallingCq fa ta n) (RespondingToCq a fb tb) (Some (CqResponse a b grid)) =
           (Completed a ra (snr_report_or (ctx_snr c2) ra) fb None (clock2 c4) (duration_secs (clock1 c4) (clock1 c2)),
            Completed b rb (snr_report_or (ctx_snr c3) rb) fa grid (clock2 c5) (duration_secs (clock1 c5) (clock1 c3)),
            None)"
  using assms
  by (simp add: deliver_def determine_state_transition_def transition_arms guarded_def reply_to_emit_def
      generate_response_def reply_exchange_def reject_sender_def reject_addressee_def verify_sender_def verify_addressee_def
      is_us_def is_partner_def Let_def)

text \<open>The frames that are delivered in the course of it.\<close>

fun transcript :: "call_initiation \<Rightarrow> call_initiation \<Rightarrow> transition_ctx list \<Rightarrow> qso_state \<Rightarrow> qso_state \<Rightarrow> message_type option \<Rightarrow>
    message_type list" where
  "transcript ix iy [] sx sy m = []"
| "transcript ix iy (c # cs) sx sy None = []"
| "transcript ix iy (c # cs) sx sy (Some m) =
     (let (sx', r) = deliver c ix sx m in m # transcript iy ix cs sy sx' r)"

lemma two_station_frames:
  assumes "callsigns_match a a" and "callsigns_match b b"
    and "cfg_callsign c1 = a" "cfg_callsign c2 = b" "cfg_callsign c3 = a" "cfg_callsign c4 = b" "cfg_callsign c5 = a"
  shows "transcript ia ib [c1, c2, c3, c4, c5] (CallingCq fa ta n) (RespondingToCq a fb tb) (Some (CqResponse a b grid)) =
           [CqResponse a b grid, SignalReport b a (snr_report_or (ctx_snr c1) (- 10)),
            ReportAck a b (snr_report_or (ctx_snr c2) (- 10)), FinalConfirmation b a, SeventyThree a b]"
  using assms
  by (simp add: deliver_def determine_state_transition_def transition_arms guarded_def reply_to_emit_def
      generate_response_def reply_exchange_def reject_sender_def reject_addressee_def verify_sender_def verify_addressee_def
      is_us_def is_partner_def Let_def)

section \<open>Properties\<close>

text \<open>C16: no frame moves a QSO unless it is addressed to us and, once a partner is latched, sent by that
  partner; a rejected frame changes nothing.\<close>

theorem qso_moves_only_on_verified_frames:
  "(snd (determine_state_transition ctx cur msg ini eng) \<noteq> cur \<longrightarrow> verified_frame ctx cur msg) \<and>
   (fst (determine_state_transition ctx cur msg ini eng) \<noteq> [] \<longrightarrow>
      snd (determine_state_transition ctx cur msg ini eng) = cur)"
  using transition_verified transition_rejected_unchanged by blast

definition demo_ctx :: "string \<Rightarrow> transition_ctx" where
  "demo_ctx c = \<lparr> cfg_callsign = c, ctx_qso_id = 1, ctx_snr = None, clock1 = 0, clock2 = 0 \<rparr>"

lemma demo_moves:
  "snd (determine_state_transition (demo_ctx ''W1ABC'') (RespondingToCq ''K1DEF'' 1500 0)
     (SignalReport ''W1ABC'' ''K1DEF'' (-7)) Auto False) = SendingReport ''K1DEF'' (Some (-7)) (-7) 1500 0"
proof -
  have "callsigns_match ''K1DEF'' ''K1DEF''" "callsigns_match ''W1ABC'' ''W1ABC''" by code_simp+
  then show ?thesis
    by (simp add: determine_state_transition_def tr_responding_report_def guarded_def reject_sender_Nil demo_ctx_def
        is_partner_def is_us_def snr_report_or_def)
qed

theorem qso_moves_only_on_verified_frames_witness:
  "verified_frame (demo_ctx ''W1ABC'') (RespondingToCq ''K1DEF'' 1500 0) (SignalReport ''W1ABC'' ''K1DEF'' (-7))"
  using qso_moves_only_on_verified_frames [of "demo_ctx ''W1ABC''" "RespondingToCq ''K1DEF'' 1500 0"
      "SignalReport ''W1ABC'' ''K1DEF'' (-7)" Auto False] demo_moves by simp

definition demo_inputs :: "qso_input list" where
  "demo_inputs = [(demo_ctx ''W1ABC'', SignalReport ''W1ABC'' ''K1DEF'' (-7), Auto, False),
                  (demo_ctx ''W1ABC'', FinalConfirmation ''W1ABC'' ''K1DEF'', Auto, False)]"

text \<open>An autonomous QSO never loses ground: over any sequence of frames its rung on the progress ladder
  does not go down.\<close>

theorem autonomous_qso_never_regresses:
  assumes "state_reports_ok s" and "list_all input_report_ok es" and "list_all auto_input es"
  shows "\<not> dx_frame_advanced (fst (run qso_step s es)) s"
  using run_progress_auto [OF assms] by (simp add: rank_less_nat)

theorem autonomous_qso_never_regresses_witness:
  "list_all auto_input demo_inputs \<and>
   \<not> dx_frame_advanced (fst (run qso_step (RespondingToCq ''K1DEF'' 1500 0) demo_inputs)) (RespondingToCq ''K1DEF'' 1500 0)"
proof -
  have ok: "list_all input_report_ok demo_inputs" "list_all auto_input demo_inputs"
    by (simp_all add: demo_inputs_def input_report_ok_def report_ok_def auto_input_def)
  then show ?thesis using autonomous_qso_never_regresses [of "RespondingToCq ''K1DEF'' 1500 0" demo_inputs] by simp
qed

text \<open>When the engine answers a frame, the frame passed sender verification, and the answer is signed with
  our call and addressed to the partner of the state the QSO has moved to.\<close>

theorem auto_replies_are_addressed_to_the_partner:
  assumes "reply_to_emit ctx hound ini cur (snd (determine_state_transition ctx cur msg ini eng)) msg = Some reply"
  shows "sender_callsign reply = Some (cfg_callsign ctx) \<and>
         addressee_callsign reply = state_their_callsign (snd (determine_state_transition ctx cur msg ini eng)) \<and>
         verified_frame ctx cur msg"
  using assms by (rule reply_when_changed)

theorem auto_replies_are_addressed_to_the_partner_witness:
  "reply_to_emit (demo_ctx ''W1ABC'') False Auto (RespondingToCq ''K1DEF'' 1500 0)
     (snd (determine_state_transition (demo_ctx ''W1ABC'') (RespondingToCq ''K1DEF'' 1500 0)
        (SignalReport ''W1ABC'' ''K1DEF'' (-7)) Auto False)) (SignalReport ''W1ABC'' ''K1DEF'' (-7)) =
     Some (ReportAck ''K1DEF'' ''W1ABC'' (-10)) \<and>
   verified_frame (demo_ctx ''W1ABC'') (RespondingToCq ''K1DEF'' 1500 0) (SignalReport ''W1ABC'' ''K1DEF'' (-7))"
proof -
  have r: "reply_to_emit (demo_ctx ''W1ABC'') False Auto (RespondingToCq ''K1DEF'' 1500 0)
     (snd (determine_state_transition (demo_ctx ''W1ABC'') (RespondingToCq ''K1DEF'' 1500 0)
        (SignalReport ''W1ABC'' ''K1DEF'' (-7)) Auto False)) (SignalReport ''W1ABC'' ''K1DEF'' (-7)) =
     Some (ReportAck ''K1DEF'' ''W1ABC'' (-10))"
    unfolding demo_moves
    by (simp add: reply_to_emit_def generate_response_def reply_exchange_def demo_ctx_def snr_report_or_def)
  then show ?thesis using auto_replies_are_addressed_to_the_partner [OF r] by blast
qed

text \<open>C6: two stations running this engine complete a contact: from a CQ and an answer to it, exactly five frames
  are delivered, and they take both to the completed state with no frame left to send. Each logs the other's call and, as received,
  the report the other one transmitted. As sent, the answering station logs the report for the strength it measured, which is the one
  it transmitted, and falls back on the received one when it measured none; the calling station logs the report for the strength of
  the acknowledgement, not of the answer it reported on. So the two logs mirror each other when both stations measured a strength
  and the calling one measured the same twice. Which side is manual or autonomous and the clocks do not matter.\<close>

theorem two_stations_complete:
  assumes "callsigns_match a a" and "callsigns_match b b"
    and "map cfg_callsign [c1, c2, c3, c4, c5] = [a, b, a, b, a]"
  defines "report_a \<equiv> snr_report_or (ctx_snr c1) (- 10)" and "report_b \<equiv> snr_report_or (ctx_snr c2) (- 10)"
    and "logged_a \<equiv> snr_report_or (ctx_snr c3) (snr_report_or (ctx_snr c2) (- 10))"
    and "logged_b \<equiv> snr_report_or (ctx_snr c2) (snr_report_or (ctx_snr c1) (- 10))"
  shows "converse ia ib [c1, c2, c3, c4, c5] (CallingCq fa ta n) (RespondingToCq a fb tb) (Some (CqResponse a b grid)) =
      (Completed a report_a logged_b fb None (clock2 c4) (duration_secs (clock1 c4) (clock1 c2)),
       Completed b report_b logged_a fa grid (clock2 c5) (duration_secs (clock1 c5) (clock1 c3)), None) \<and>
    transcript ia ib [c1, c2, c3, c4, c5] (CallingCq fa ta n) (RespondingToCq a fb tb) (Some (CqResponse a b grid)) =
      [CqResponse a b grid, SignalReport b a report_a, ReportAck a b report_b, FinalConfirmation b a, SeventyThree a b] \<and>
    (ctx_snr c2 \<noteq> None \<longrightarrow> logged_b = report_b) \<and>
    (ctx_snr c3 = ctx_snr c1 \<and> ctx_snr c1 \<noteq> None \<longrightarrow> logged_a = report_a)"
  using two_station_exchange [OF assms(1,2), of c1 c2 c3 c4 c5 ia ib fa ta n fb tb grid] assms
    two_station_frames [OF assms(1,2), of c1 c2 c3 c4 c5 ia ib fa ta n fb tb grid]
  by (auto simp: snr_report_or_def)

text \<open>A station that hears the other at -7 and then again at -7, and one that hears it at 3.\<close>

definition demo_heard :: "string \<Rightarrow> rat \<Rightarrow> transition_ctx" where
  "demo_heard c snr = (demo_ctx c)\<lparr> ctx_snr := Some (Finite snr) \<rparr>"

theorem two_stations_complete_witness:
  "\<exists>ca cb da db.
     converse Manual Auto [demo_heard ''W1ABC'' (-7), demo_heard ''K1DEF'' 3, demo_heard ''W1ABC'' (-7), demo_heard ''K1DEF'' 3, demo_heard ''W1ABC'' (-7)]
       (CallingCq 1500 0 1) (RespondingToCq ''W1ABC'' 1500 0) (Some (CqResponse ''W1ABC'' ''K1DEF'' (Some ''FN31''))) =
       (Completed ''W1ABC'' (- 7) 3 1500 None cb db, Completed ''K1DEF'' 3 (- 7) 1500 (Some ''FN31'') ca da, None)"
proof -
  have m: "callsigns_match ''W1ABC'' ''W1ABC''" "callsigns_match ''K1DEF'' ''K1DEF''" by code_simp+
  have r: "snr_report (Finite (- 7)) = - 7" "snr_report (Finite 3) = 3" by code_simp+
  show ?thesis
    using two_stations_complete [OF m, of "demo_heard ''W1ABC'' (-7)" "demo_heard ''K1DEF'' 3" "demo_heard ''W1ABC'' (-7)"
        "demo_heard ''K1DEF'' 3" "demo_heard ''W1ABC'' (-7)" Manual Auto 1500 0 1 1500 0 "Some ''FN31''"] r
    by (simp add: demo_heard_def demo_ctx_def snr_report_or_def)
qed

text \<open>Two places where the report a station has sent and the one it latches as sent differ: with no measured
  signal strength the reply carries -10 and the state -15, and the CQ side recomputes its own report from
  the strength of the acknowledgement instead of keeping the one it sent.\<close>

lemma cq_report_sent_and_latched_differ:
  assumes "callsigns_match a a" and "cfg_callsign c = a" and "ctx_snr c = None"
  shows "deliver c ini (CallingCq f t n) (CqResponse a b g) =
           (WaitingForReport b f (clock1 c) g (- 15), Some (SignalReport b a (- 10)))"
  using assms
  by (simp add: deliver_def determine_state_transition_def transition_arms guarded_def reply_to_emit_def
      generate_response_def reply_exchange_def reject_addressee_def verify_addressee_def is_us_def Let_def snr_report_or_def)

lemma cq_report_recomputed_on_ack:
  assumes "callsigns_match a a" and "callsigns_match b b" and "cfg_callsign c = a" and "ctx_snr c = Some snr"
  shows "fst (deliver c ini (WaitingForReport b f t g sent) (ReportAck a b r)) =
           WaitingForConfirmation b r (snr_report snr) f g (clock1 c)"
  using assms
  by (simp add: deliver_def determine_state_transition_def transition_arms guarded_def reject_sender_def verify_sender_def
      is_us_def is_partner_def Let_def snr_report_or_def)

end
