(* ===== verification/Wire.thy ===== *)
theory Wire
  imports Complex_Main Prelude "HOL-Library.Char_ord" "HOL-Library.List_Lexorder"
begin

text \<open>
  What the remote-operation crate \<^verbatim>\<open>pancetta-agent\<close> has in common: byte strings, results that
  stop at the first error (the \<open>?\<close> operator), the JSON values the \<open>serde_json\<close> library hands to the
  program, the domain-separated preimages of every identity-key signature, and the signature library
  itself as a parameter.
\<close>

named_theorems result_simps \<open>when a chain of fallible steps succeeds or fails\<close>

section \<open>Results\<close>

text \<open>\<open>Result::and_then\<close>, the meaning of \<open>?\<close> in a function that returns a \<open>Result\<close>, and \<open>Option::ok_or\<close>.\<close>

fun and_then :: "'e + 'a \<Rightarrow> ('a \<Rightarrow> 'e + 'b) \<Rightarrow> 'e + 'b" where
  "and_then (Inl e) f = Inl e"
| "and_then (Inr x) f = f x"

fun ok_or :: "'a option \<Rightarrow> 'e \<Rightarrow> 'e + 'a" where
  "ok_or None e = Inl e"
| "ok_or (Some x) e = Inr x"

fun map_err :: "('e \<Rightarrow> 'f) \<Rightarrow> 'e + 'a \<Rightarrow> 'f + 'a" where
  "map_err f (Inl e) = Inl (f e)"
| "map_err f (Inr x) = Inr x"

text \<open>An early \<open>return Err(e)\<close> under a condition.\<close>

definition bail_if :: "bool \<Rightarrow> 'e \<Rightarrow> 'e + unit" where
  "bail_if c e = (if c then Inl e else Inr ())"

lemma and_then_Inr [result_simps]: "and_then r f = Inr y \<longleftrightarrow> (\<exists>x. r = Inr x \<and> f x = Inr y)"
  by (cases r) auto

lemma ok_or_Inr [result_simps]: "ok_or v e = Inr x \<longleftrightarrow> v = Some x"
  by (cases v) auto

lemma map_err_Inr [result_simps]: "map_err f r = Inr x \<longleftrightarrow> r = Inr x"
  by (cases r) auto

lemma bail_if_Inr [result_simps]: "bail_if c e = Inr u \<longleftrightarrow> \<not> c"
  by (simp add: bail_if_def)

section \<open>Bytes and signed preimages\<close>

type_synonym bytes = "u8 list"

definition as_bytes :: "string \<Rightarrow> bytes" where
  "as_bytes s = map of_char s"

lemma of_char_u8_eq: "(of_char c :: u8) = of_char d \<longleftrightarrow> c = d"
proof
  assume "(of_char c :: u8) = of_char d"
  then have "unat (of_char c :: u8) = unat (of_char d :: u8)" by simp
  moreover have "unat (of_char x :: u8) = of_char x" for x
  proof -
    have "(of_char x :: u8) = of_nat (of_char x)" by (simp only: of_nat_of_char)
    then have "unat (of_char x :: u8) = of_char x mod 2 ^ LENGTH(8)" by (simp only: unat_of_nat)
    then show ?thesis by simp
  qed
  ultimately show "c = d" by simp
qed simp

lemma as_bytes_inject [simp]: "as_bytes s = as_bytes t \<longleftrightarrow> s = t"
  unfolding as_bytes_def by (rule inj_map_eq_map) (simp add: inj_on_def of_char_u8_eq)

text \<open>The preimage of \<open>AgentIdentity::sign_domain\<close> and of every verification of such a signature:
  the tag, a zero byte, the message.\<close>

definition domain_sep :: "string \<Rightarrow> bytes \<Rightarrow> bytes" where
  "domain_sep tag msg = as_bytes tag @ [0] @ msg"

definition IDSIG_TAG :: string where "IDSIG_TAG = ''cqdx-pair-idsig-v1''"
definition AUTH_DOMAIN_TAG :: string where "AUTH_DOMAIN_TAG = ''cqdx-relay-agent-auth-v1''"
definition TX_ARM_GRANT_DOMAIN_TAG :: string where "TX_ARM_GRANT_DOMAIN_TAG = ''cqdx-tx-arm-grant-v1''"

text \<open>Two lists that avoid a separator are recovered from what the separator joins.\<close>

lemma separator_unique:
  assumes "xs @ z # as = ys @ z # bs" and "z \<notin> set xs" and "z \<notin> set ys"
  shows "xs = ys \<and> as = bs"
  using assms
proof (induction xs arbitrary: ys)
  case Nil
  then show ?case by (cases ys) auto
next
  case (Cons x xs)
  then show ?case by (cases ys) auto
qed

text \<open>\<open>split(c)\<close> loses nothing but the separators.\<close>

lemma split_char_join: "split_char c s = w # ws \<Longrightarrow> s = w @ concat (map (\<lambda>v. c # v) ws)"
proof (induction c s arbitrary: w ws rule: split_char.induct)
  case (2 c x xs)
  obtain v vs where v: "split_char c xs = v # vs" by (cases "split_char c xs") auto
  show ?case
  proof (cases "x = c")
    case True
    then have "xs = v @ concat (map (\<lambda>u. c # u) vs)" using 2(1) v by blast
    then show ?thesis using 2(3) True v by simp
  next
    case False
    then have "xs = v @ concat (map (\<lambda>u. c # u) vs)" using 2(2) v by blast
    then show ?thesis using 2(3) False v by auto
  qed
qed simp

section \<open>JSON values\<close>

text \<open>\<open>serde_json::Value\<close>. A number is an integer or something \<open>as_i64\<close> refuses (a float, kept as its
  text); an object is the list of its members, whose keys are distinct.\<close>

datatype json =
    JNull
  | JBool bool
  | JInt int
  | JFloat string
  | JString string
  | JArray "json list"
  | JObject "(string \<times> json) list"

fun json_get :: "json \<Rightarrow> string \<Rightarrow> json option" where
  "json_get (JObject kvs) k = map_of kvs k"
| "json_get _ k = None"

fun as_str :: "json \<Rightarrow> string option" where
  "as_str (JString s) = Some s"
| "as_str _ = None"

fun as_i64 :: "json \<Rightarrow> int option" where
  "as_i64 (JInt i) = (if in_i64 i then Some i else None)"
| "as_i64 _ = None"

fun as_u64 :: "json \<Rightarrow> nat option" where
  "as_u64 (JInt i) = (if 0 \<le> i \<and> i < 2 ^ 64 then Some (nat i) else None)"
| "as_u64 _ = None"

fun as_bool :: "json \<Rightarrow> bool option" where
  "as_bool (JBool b) = Some b"
| "as_bool _ = None"

fun as_array :: "json \<Rightarrow> json list option" where
  "as_array (JArray xs) = Some xs"
| "as_array _ = None"

fun as_object :: "json \<Rightarrow> (string \<times> json) list option" where
  "as_object (JObject kvs) = Some kvs"
| "as_object _ = None"

text \<open>\<open>.get(k).and_then(Value::as_str)\<close> and the same for integers.\<close>

definition get_str :: "json \<Rightarrow> string \<Rightarrow> string option" where
  "get_str v k = Option.bind (json_get v k) as_str"

definition get_i64 :: "json \<Rightarrow> string \<Rightarrow> int option" where
  "get_i64 v k = Option.bind (json_get v k) as_i64"

lemma get_i64_range: "get_i64 v k = Some i \<Longrightarrow> in_i64 i"
  by (auto simp: get_i64_def Option.bind_eq_Some_conv split: if_splits elim!: as_i64.elims)

section \<open>The libraries\<close>

text \<open>What the crate calls of \<open>base64\<close>, \<open>serde_json\<close>, \<open>sha2\<close> and \<open>ed25519_dalek\<close>. A verifying key is its
  32 bytes; \<open>ed25519_point\<close> is whether \<open>VerifyingKey::from_bytes\<close> accepts them. The numbers of JSON texts
  are finite, so an \<open>f64\<close> that comes from one is a rational.\<close>

record wire_lib =
  base64_standard_decode :: "string \<Rightarrow> bytes option"
  base64_url_decode :: "string \<Rightarrow> bytes option"
  base64_url_encode :: "bytes \<Rightarrow> string"
  json_from_slice :: "bytes \<Rightarrow> json option"
  json_to_vec :: "(string \<times> json) list \<Rightarrow> bytes option"
  json_as_f64 :: "json \<Rightarrow> rat option"
  sha256 :: "bytes \<Rightarrow> bytes"
  ed25519_point :: "bytes \<Rightarrow> bool"
  verify_strict :: "bytes \<Rightarrow> bytes \<Rightarrow> bytes \<Rightarrow> bool"

end
