(* ===== verification/Capability.thy ===== *)
theory Capability
  imports Wire Arm
begin

text \<open>
  Capability tokens and transmit grants, \<^verbatim>\<open>pancetta-agent/src/capability.rs\<close>: the compact-JWS token
  checked against the pinned identity-provider keys, and the client-signed arm grant that is the only
  source of a \<open>VerifiedArmGrant\<close>. The base64, JSON and Ed25519 libraries are the parameter \<open>lib\<close>.
\<close>

section \<open>Data\<close>

definition MAX_ARM_MS :: int where "MAX_ARM_MS = 3600000"
definition MIN_HEARTBEAT_SEC :: int where "MIN_HEARTBEAT_SEC = 5"
definition MAX_HEARTBEAT_SEC :: int where "MAX_HEARTBEAT_SEC = 15"
definition MAX_NON_ENABLED_TTL_SEC :: int where "MAX_NON_ENABLED_TTL_SEC = 900"
definition MAX_ENABLEMENT_SEC :: int where "MAX_ENABLEMENT_SEC = 86400"
definition MAX_IAT_SKEW_SEC :: int where "MAX_IAT_SKEW_SEC = 120"

lemmas cap_bounds = MAX_ARM_MS_def MIN_HEARTBEAT_SEC_def MAX_HEARTBEAT_SEC_def MAX_NON_ENABLED_TTL_SEC_def
  MAX_ENABLEMENT_SEC_def MAX_IAT_SKEW_SEC_def

record idp_key =
  kid :: string
  public_key :: bytes

record capability_verifier =
  agent_key_id :: string
  pinned_idp_keys :: "idp_key list"

record verified_capability =
  vc_scopes :: "string list"
  vc_client_key_id :: string
  vc_jti :: string
  vc_exp_ms :: int
  vc_tx_enabled_until :: "int option"
  vc_operator_callsign :: "string option"

datatype cap_error =
    MalformedJws | BadAlg | NotPinned | BadSignature | AudMismatch | Expired | MalformedClaim string
  | ClientMismatch | ClientNotAllowed | CapabilityMismatch | ArmTooLong | BadHeartbeat | Cap_NoTxScope
  | ReplayedJti | TtlTooLong | EnablementMismatch | EnablementTooLong | NotTxEnabled | Revoked | FutureIat
  | CallsignMismatch | SessionMismatch

section \<open>Integer operations of the checks\<close>

definition i64_saturate :: "int \<Rightarrow> int" where
  "i64_saturate x = max I64_MIN (min I64_MAX x)"

definition i64_checked :: "int \<Rightarrow> int option" where
  "i64_checked x = (if in_i64 x then Some x else None)"

section \<open>Base64 and canonical bytes\<close>

definition url_to_standard :: "char \<Rightarrow> char" where
  "url_to_standard c = (if c = CHR ''-'' then CHR ''+'' else if c = CHR ''_'' then CHR ''/'' else c)"

text \<open>Each push of a padding character lowers the number missing, which is three times the length modulo four.\<close>

lemma pad_measure:
  assumes "n mod 4 \<noteq> 0"
  shows "3 * (n + 1) mod 4 < 3 * n mod (4 :: nat)"
proof -
  obtain q r where n: "n = 4 * q + r" "r = n mod 4" by (metis div_mult_mod_eq mult.commute)
  have "3 * n mod 4 = (3 * r + 4 * (3 * q)) mod 4" "3 * (n + 1) mod 4 = (3 * r + 3 + 4 * (3 * q)) mod 4"
    by (simp_all add: n(1) algebra_simps)
  then have "3 * n mod 4 = 3 * r mod 4" "3 * (n + 1) mod 4 = (3 * r + 3) mod 4" by (simp_all only: mod_mult_self2)
  moreover have "r = 1 \<or> r = 2 \<or> r = 3" using assms n(2) by auto
  ultimately show ?thesis by auto
qed

text \<open>The loop that pushes padding until the length is a multiple of four.\<close>

function pad_multiple_of_4 :: "string \<Rightarrow> string" where
  "pad_multiple_of_4 s = (if length s mod 4 = 0 then s else pad_multiple_of_4 (s @ ''=''))"
  by pat_completeness auto

termination
  by (relation "measure (\<lambda>s. 3 * length s mod 4)") (use pad_measure in simp_all)

declare pad_multiple_of_4.simps [simp del]

definition decode_b64url :: "wire_lib \<Rightarrow> string \<Rightarrow> bytes option" where
  "decode_b64url lib input = base64_standard_decode lib (pad_multiple_of_4 (map url_to_standard input))"

definition decode_b64url_jws :: "wire_lib \<Rightarrow> string \<Rightarrow> cap_error + bytes" where
  "decode_b64url_jws lib input = ok_or (decode_b64url lib input) MalformedJws"

text \<open>The members that are signed, in key order.\<close>

definition signed_members :: "(string \<times> json) list \<Rightarrow> (string \<times> json) list" where
  "signed_members grant = sort_key fst (filter (\<lambda>(k, _). k \<noteq> ''clientSig'') grant)"

definition canonical_grant_bytes :: "wire_lib \<Rightarrow> (string \<times> json) list \<Rightarrow> cap_error + bytes" where
  "canonical_grant_bytes lib grant = ok_or (json_to_vec lib (signed_members grant)) (MalformedClaim ''grant'')"

section \<open>Tokens\<close>

definition require_tx_enabled :: "verified_capability \<Rightarrow> int \<Rightarrow> cap_error + unit" where
  "require_tx_enabled capability now_ms =
     (let now_s = now_ms div 1000 in
      case vc_tx_enabled_until capability of
        Some teu \<Rightarrow> if teu > now_s then Inr () else Inl NotTxEnabled
      | None \<Rightarrow> Inl NotTxEnabled)"

text \<open>The collection of the \<open>scopes\<close> array, which stops at the first entry that is not a string.\<close>

fun collect_scopes :: "json list \<Rightarrow> cap_error + string list" where
  "collect_scopes [] = Inr []"
| "collect_scopes (v # vs) =
     and_then (ok_or (as_str v) (MalformedClaim ''scopes[]'')) (\<lambda>s.
     and_then (collect_scopes vs) (\<lambda>ss. Inr (s # ss)))"

definition claim_str :: "json \<Rightarrow> string \<Rightarrow> cap_error + string" where
  "claim_str v k = ok_or (get_str v k) (MalformedClaim k)"

definition claim_i64 :: "json \<Rightarrow> string \<Rightarrow> cap_error + int" where
  "claim_i64 v k = ok_or (get_i64 v k) (MalformedClaim k)"

text \<open>The enablement horizon of the payload and the lifetime limit that goes with it.\<close>

definition token_enablement :: "json \<Rightarrow> int \<Rightarrow> int \<Rightarrow> cap_error + int option" where
  "token_enablement payload exp_s iat_s =
     (case json_get payload ''txEnabledUntil'' of
        None \<Rightarrow>
          and_then (bail_if (i64_saturating_sub exp_s iat_s > MAX_NON_ENABLED_TTL_SEC) TtlTooLong) (\<lambda>_. Inr None)
      | Some v \<Rightarrow>
          and_then (ok_or (as_i64 v) (MalformedClaim ''txEnabledUntil'')) (\<lambda>teu.
          and_then (bail_if (exp_s \<noteq> teu) EnablementMismatch) (\<lambda>_.
          and_then (bail_if (i64_saturating_sub teu iat_s > MAX_ENABLEMENT_SEC) EnablementTooLong) (\<lambda>_.
          Inr (Some teu)))))"

text \<open>Step 5, the claims of a payload whose signature has been checked.\<close>

definition token_claims :: "capability_verifier \<Rightarrow> json \<Rightarrow> int \<Rightarrow> cap_error + verified_capability" where
  "token_claims v payload now_ms =
     and_then (claim_str payload ''aud'') (\<lambda>aud.
     and_then (bail_if (aud \<noteq> agent_key_id v) AudMismatch) (\<lambda>_.
     and_then (claim_i64 payload ''exp'') (\<lambda>exp_s.
     let now_s = now_ms div 1000 in
     and_then (bail_if (exp_s \<le> now_s) Expired) (\<lambda>_.
     and_then (claim_i64 payload ''iat'') (\<lambda>iat_s.
     and_then (bail_if (iat_s > i64_saturate (now_s + MAX_IAT_SKEW_SEC)) FutureIat) (\<lambda>_.
     and_then (token_enablement payload exp_s iat_s) (\<lambda>teu.
     and_then (ok_or (Option.bind (json_get payload ''scopes'') as_array) (MalformedClaim ''scopes'')) (\<lambda>arr.
     and_then (collect_scopes arr) (\<lambda>scopes.
     and_then (claim_str payload ''clientKeyId'') (\<lambda>client.
     and_then (claim_str payload ''jti'') (\<lambda>jti.
     Inr \<lparr> vc_scopes = scopes, vc_client_key_id = client, vc_jti = jti,
           vc_exp_ms = i64_saturate (exp_s * 1000), vc_tx_enabled_until = teu,
           vc_operator_callsign = get_str payload ''operatorCallsign'' \<rparr>)))))))))))"

text \<open>Steps 2 to 4: the header, the pinned key and the signature over the first two segments.\<close>

definition token_signature :: "wire_lib \<Rightarrow> capability_verifier \<Rightarrow> json \<Rightarrow> string \<Rightarrow> string \<Rightarrow> string \<Rightarrow> cap_error + unit" where
  "token_signature lib v header header_b64 payload_b64 sig_b64 =
     and_then (ok_or (get_str header ''alg'') BadAlg) (\<lambda>alg.
     and_then (bail_if (alg \<noteq> ''EdDSA'') BadAlg) (\<lambda>_.
     and_then (ok_or (get_str header ''kid'') MalformedJws) (\<lambda>k.
     and_then (ok_or (find (\<lambda>p. kid p = k) (pinned_idp_keys v)) NotPinned) (\<lambda>pinned.
     and_then (bail_if (\<not> ed25519_point lib (public_key pinned)) NotPinned) (\<lambda>_.
     and_then (decode_b64url_jws lib sig_b64) (\<lambda>sig_raw.
     and_then (bail_if (length sig_raw \<noteq> 64) BadSignature) (\<lambda>_.
     bail_if (\<not> verify_strict lib (public_key pinned) (as_bytes header_b64 @ as_bytes ''.'' @ as_bytes payload_b64) sig_raw)
       BadSignature)))))))"

definition verify_capability_token :: "wire_lib \<Rightarrow> capability_verifier \<Rightarrow> string \<Rightarrow> int \<Rightarrow> cap_error + verified_capability" where
  "verify_capability_token lib v jws now_ms =
     (case split_char CHR ''.'' jws of
        [header_b64, payload_b64, sig_b64] \<Rightarrow>
          and_then (decode_b64url_jws lib header_b64) (\<lambda>header_bytes.
          and_then (decode_b64url_jws lib payload_b64) (\<lambda>payload_bytes.
          and_then (ok_or (json_from_slice lib header_bytes) MalformedJws) (\<lambda>header.
          and_then (ok_or (json_from_slice lib payload_bytes) MalformedJws) (\<lambda>payload.
          and_then (token_signature lib v header header_b64 payload_b64 sig_b64) (\<lambda>_.
          token_claims v payload now_ms)))))
      | _ \<Rightarrow> Inl MalformedJws)"

section \<open>Arm grants\<close>

text \<open>Steps 1 and 2: the client's signature over the tagged canonical bytes.\<close>

definition grant_signature :: "wire_lib \<Rightarrow> bytes \<Rightarrow> (string \<times> json) list \<Rightarrow> cap_error + unit" where
  "grant_signature lib client_verifying_key obj =
     and_then (claim_str (JObject obj) ''clientSig'') (\<lambda>client_sig_b64.
     and_then (canonical_grant_bytes lib obj) (\<lambda>canon.
     and_then (ok_or (decode_b64url lib client_sig_b64) BadSignature) (\<lambda>sig_raw.
     and_then (bail_if (length sig_raw \<noteq> 64) BadSignature) (\<lambda>_.
     bail_if (\<not> verify_strict lib client_verifying_key (domain_sep TX_ARM_GRANT_DOMAIN_TAG canon) sig_raw) BadSignature))))"

text \<open>Step 3: the station, the client, the capability and the live session the grant is bound to.\<close>

definition grant_binding :: "capability_verifier \<Rightarrow> (string \<times> json) list \<Rightarrow> verified_capability \<Rightarrow> string set \<Rightarrow> string
    \<Rightarrow> cap_error + string" where
  "grant_binding v obj capability tx_allow_list expected_session_id =
     and_then (claim_str (JObject obj) ''aud'') (\<lambda>aud.
     and_then (bail_if (aud \<noteq> agent_key_id v) AudMismatch) (\<lambda>_.
     and_then (claim_str (JObject obj) ''clientKeyId'') (\<lambda>client.
     and_then (bail_if (client \<notin> tx_allow_list) ClientNotAllowed) (\<lambda>_.
     and_then (bail_if (client \<noteq> vc_client_key_id capability) ClientMismatch) (\<lambda>_.
     and_then (claim_str (JObject obj) ''capabilityJti'') (\<lambda>cjti.
     and_then (bail_if (cjti \<noteq> vc_jti capability) CapabilityMismatch) (\<lambda>_.
     and_then (claim_str (JObject obj) ''sessionId'') (\<lambda>sid.
     and_then (bail_if (sid \<noteq> expected_session_id) SessionMismatch) (\<lambda>_.
     Inr client)))))))))"

text \<open>Steps 4 and 5 and the horizons kept on the grant; \<open>g_operator_callsign\<close> and \<open>g_jti\<close> are filled in last.\<close>

definition grant_window :: "(string \<times> json) list \<Rightarrow> verified_capability \<Rightarrow> string \<Rightarrow> int \<Rightarrow> cap_error + verified_arm_grant" where
  "grant_window obj capability client now_ms =
     and_then (claim_i64 (JObject obj) ''armedUntil'') (\<lambda>armed_until.
     and_then (bail_if (armed_until \<le> now_ms) Expired) (\<lambda>_.
     and_then (ok_or (i64_checked (armed_until - now_ms)) ArmTooLong) (\<lambda>ttl_ms.
     and_then (bail_if (ttl_ms > MAX_ARM_MS) ArmTooLong) (\<lambda>_.
     and_then (claim_i64 (JObject obj) ''heartbeatIntervalSec'') (\<lambda>hb.
     and_then (bail_if (\<not> (MIN_HEARTBEAT_SEC \<le> hb \<and> hb \<le> MAX_HEARTBEAT_SEC)) BadHeartbeat) (\<lambda>_.
     and_then (bail_if (''tx'' \<notin> set (vc_scopes capability)) Cap_NoTxScope) (\<lambda>_.
     and_then (ok_or (vc_tx_enabled_until capability) NotTxEnabled) (\<lambda>teu.
     and_then (ok_or (i64_checked (teu * 1000)) (MalformedClaim ''txEnabledUntil'')) (\<lambda>teu_ms.
     let g = \<lparr> g_operator_callsign = '''', g_ttl_ms = ttl_ms, g_armed_until_ms = armed_until,
               g_capability_exp_ms = vc_exp_ms capability, g_tx_enabled_until_ms = teu_ms, g_effective_ttl_ms = 0,
               g_heartbeat_interval_sec = hb, g_scope_tx = True, g_jti = '''', g_client_key_id = client \<rparr> in
     and_then (ok_or (case i64_checked (fst (effective_deadline g) - now_ms) of
                        Some remaining \<Rightarrow> if remaining > 0 then Some remaining else None
                      | None \<Rightarrow> None) Expired) (\<lambda>eff.
     Inr (g\<lparr> g_effective_ttl_ms := eff \<rparr>)))))))))))"

text \<open>Every check before the replay set is touched.\<close>

definition arm_grant_checks :: "wire_lib \<Rightarrow> capability_verifier \<Rightarrow> json \<Rightarrow> verified_capability \<Rightarrow> bytes \<Rightarrow> string set
    \<Rightarrow> string set \<Rightarrow> string \<Rightarrow> int \<Rightarrow> cap_error + (string \<times> json) list \<times> verified_arm_grant" where
  "arm_grant_checks lib v grant capability vk tx_allow_list revoked_jtis expected_session_id now_ms =
     and_then (require_tx_enabled capability now_ms) (\<lambda>_.
     and_then (bail_if (vc_jti capability \<in> revoked_jtis) Revoked) (\<lambda>_.
     and_then (ok_or (as_object grant) (MalformedClaim ''grant'')) (\<lambda>obj.
     and_then (grant_signature lib vk obj) (\<lambda>_.
     and_then (grant_binding v obj capability tx_allow_list expected_session_id) (\<lambda>client.
     and_then (grant_window obj capability client now_ms) (\<lambda>g.
     Inr (obj, g)))))))"

text \<open>Step 7: the callsign, which must be the one the token carries, if it carries one.\<close>

definition mint_grant :: "(string \<times> json) list \<Rightarrow> verified_capability \<Rightarrow> verified_arm_grant \<Rightarrow> string \<Rightarrow> cap_error + verified_arm_grant" where
  "mint_grant obj capability g jti =
     and_then (claim_str (JObject obj) ''operatorCallsign'') (\<lambda>call.
     and_then (bail_if (\<exists>token_call \<in> set_option (vc_operator_callsign capability). token_call \<noteq> call) CallsignMismatch) (\<lambda>_.
     Inr (g\<lparr> g_operator_callsign := call, g_jti := jti \<rparr>)))"

text \<open>\<open>verify_arm_grant\<close>: the result and the set of ids seen, which step 6 extends.\<close>

definition verify_arm_grant :: "wire_lib \<Rightarrow> capability_verifier \<Rightarrow> json \<Rightarrow> verified_capability \<Rightarrow> bytes \<Rightarrow> string set
    \<Rightarrow> string set \<Rightarrow> string \<Rightarrow> int \<Rightarrow> string set \<Rightarrow> (cap_error + verified_arm_grant) \<times> string set" where
  "verify_arm_grant lib v grant capability vk tx_allow_list revoked_jtis expected_session_id now_ms seen_jtis =
     (case arm_grant_checks lib v grant capability vk tx_allow_list revoked_jtis expected_session_id now_ms of
        Inl e \<Rightarrow> (Inl e, seen_jtis)
      | Inr (obj, g) \<Rightarrow>
          (case get_str (JObject obj) ''jti'' of
             None \<Rightarrow> (Inl (MalformedClaim ''jti''), seen_jtis)
           | Some jti \<Rightarrow>
               if jti \<in> seen_jtis then (Inl ReplayedJti, seen_jtis)
               else (mint_grant obj capability g jti, insert jti seen_jtis)))"

section \<open>What an accepted grant has passed\<close>

lemma claims_Inr [result_simps]:
  "claim_str v k = Inr s \<longleftrightarrow> get_str v k = Some s" "claim_i64 v k = Inr i \<longleftrightarrow> get_i64 v k = Some i"
  "decode_b64url_jws lib t = Inr bs \<longleftrightarrow> decode_b64url lib t = Some bs"
  "canonical_grant_bytes lib obj = Inr cs \<longleftrightarrow> json_to_vec lib (signed_members obj) = Some cs"
  by (simp_all add: claim_str_def claim_i64_def decode_b64url_jws_def canonical_grant_bytes_def result_simps)

lemma require_tx_enabled_Inr [result_simps]:
  "require_tx_enabled cap now = Inr u \<longleftrightarrow> (\<exists>teu. vc_tx_enabled_until cap = Some teu \<and> now < teu * 1000)"
proof -
  have "now div 1000 < teu \<longleftrightarrow> now < teu * 1000" for teu :: int by linarith
  then show ?thesis by (simp add: require_tx_enabled_def Let_def split: option.splits)
qed

text \<open>The client's key signed every member of the grant but the signature itself.\<close>

definition grant_signed :: "wire_lib \<Rightarrow> bytes \<Rightarrow> (string \<times> json) list \<Rightarrow> bool" where
  "grant_signed lib vk obj \<longleftrightarrow>
     (\<exists>text sig canon. get_str (JObject obj) ''clientSig'' = Some text \<and> decode_b64url lib text = Some sig \<and>
        length sig = 64 \<and> json_to_vec lib (signed_members obj) = Some canon \<and>
        verify_strict lib vk (domain_sep TX_ARM_GRANT_DOMAIN_TAG canon) sig)"

text \<open>It names this station, an allow-listed client that is the token's, the token and the live session.\<close>

definition grant_bound :: "capability_verifier \<Rightarrow> (string \<times> json) list \<Rightarrow> verified_capability \<Rightarrow> string set \<Rightarrow> string \<Rightarrow> bool" where
  "grant_bound v obj cap allow sid \<longleftrightarrow>
     get_str (JObject obj) ''aud'' = Some (agent_key_id v) \<and>
     get_str (JObject obj) ''clientKeyId'' = Some (vc_client_key_id cap) \<and> vc_client_key_id cap \<in> allow \<and>
     get_str (JObject obj) ''capabilityJti'' = Some (vc_jti cap) \<and>
     get_str (JObject obj) ''sessionId'' = Some sid"

lemma grant_signature_Inr [result_simps]: "grant_signature lib vk obj = Inr u \<longleftrightarrow> grant_signed lib vk obj"
  by (auto simp: grant_signature_def grant_signed_def result_simps)

lemma grant_binding_Inr [result_simps]:
  "grant_binding v obj cap allow sid = Inr c \<longleftrightarrow> grant_bound v obj cap allow sid \<and> c = vc_client_key_id cap"
  by (auto simp: grant_binding_def grant_bound_def result_simps)

text \<open>The window of a grant: at most an hour, a heartbeat of five to fifteen seconds, and all three horizons
  ahead of now.\<close>

definition grant_timely :: "(string \<times> json) list \<Rightarrow> verified_capability \<Rightarrow> int \<Rightarrow> int \<Rightarrow> int \<Rightarrow> int \<Rightarrow> bool" where
  "grant_timely obj cap now until hb teu \<longleftrightarrow>
     get_i64 (JObject obj) ''armedUntil'' = Some until \<and> now < until \<and> until \<le> now + 3600000 \<and>
     get_i64 (JObject obj) ''heartbeatIntervalSec'' = Some hb \<and> 5 \<le> hb \<and> hb \<le> 15 \<and>
     vc_tx_enabled_until cap = Some teu \<and> in_i64 (teu * 1000) \<and> now < teu * 1000 \<and> now < vc_exp_ms cap"

definition timely_grant :: "verified_capability \<Rightarrow> int \<Rightarrow> int \<Rightarrow> int \<Rightarrow> int \<Rightarrow> verified_arm_grant" where
  "timely_grant cap now until hb teu =
     \<lparr> g_operator_callsign = '''', g_ttl_ms = until - now, g_armed_until_ms = until,
       g_capability_exp_ms = vc_exp_ms cap, g_tx_enabled_until_ms = teu * 1000,
       g_effective_ttl_ms = min until (min (vc_exp_ms cap) (teu * 1000)) - now,
       g_heartbeat_interval_sec = hb, g_scope_tx = True, g_jti = '''', g_client_key_id = vc_client_key_id cap \<rparr>"

lemma i64_checked_Some [result_simps]: "i64_checked x = Some y \<longleftrightarrow> in_i64 x \<and> y = x"
  by (auto simp: i64_checked_def)

lemma remaining_Some [result_simps]:
  "(case i64_checked x of Some r \<Rightarrow> if r > 0 then Some r else None | None \<Rightarrow> None) = Some y \<longleftrightarrow> in_i64 x \<and> 0 < x \<and> y = x"
  by (auto simp: i64_checked_def)

lemma grant_window_Inr [result_simps]:
  "grant_window obj cap (vc_client_key_id cap) now = Inr g \<longleftrightarrow>
     ''tx'' \<in> set (vc_scopes cap) \<and> (\<exists>until hb teu. grant_timely obj cap now until hb teu \<and> g = timely_grant cap now until hb teu)"
proof -
  have pos: "0 < x \<Longrightarrow> x \<le> 3600000 \<Longrightarrow> in_i64 x" for x :: int by (simp add: int_simps)
  have eff: "fst (effective_deadline g) = min (g_armed_until_ms g) (min (g_capability_exp_ms g) (g_tx_enabled_until_ms g))" for g
    by (simp add: effective_deadline_def authority_deadline_min)
  show ?thesis
    unfolding grant_window_def grant_timely_def timely_grant_def Let_def cap_bounds
    by (auto simp: result_simps eff intro!: pos)
qed

lemma mint_grant_Inr [result_simps]:
  "mint_grant obj cap g jti = Inr g' \<longleftrightarrow>
     (\<exists>call. get_str (JObject obj) ''operatorCallsign'' = Some call \<and> vc_operator_callsign cap \<in> {None, Some call} \<and>
        g' = g\<lparr> g_operator_callsign := call, g_jti := jti \<rparr>)"
  by (cases "vc_operator_callsign cap") (auto simp: mint_grant_def result_simps)

text \<open>The grant minted from what was checked.\<close>

definition minted_grant :: "verified_capability \<Rightarrow> int \<Rightarrow> int \<Rightarrow> int \<Rightarrow> int \<Rightarrow> string \<Rightarrow> string \<Rightarrow> verified_arm_grant" where
  "minted_grant cap now until hb teu call jti =
     (timely_grant cap now until hb teu)\<lparr> g_operator_callsign := call, g_jti := jti \<rparr>"

lemma arm_grant_checks_Inr [result_simps]:
  "arm_grant_checks lib v grant cap vk allow revoked sid now = Inr (obj, g) \<longleftrightarrow>
     grant = JObject obj \<and> vc_jti cap \<notin> revoked \<and> grant_signed lib vk obj \<and> grant_bound v obj cap allow sid \<and>
     ''tx'' \<in> set (vc_scopes cap) \<and> (\<exists>until hb teu. grant_timely obj cap now until hb teu \<and> g = timely_grant cap now until hb teu)"
proof -
  have [simp]: "as_object grant = Some obj \<longleftrightarrow> grant = JObject obj" for obj by (cases grant) auto
  show ?thesis by (auto simp: arm_grant_checks_def result_simps grant_timely_def)
qed

lemma verify_arm_grant_accepts:
  "verify_arm_grant lib v grant cap vk allow revoked sid now seen = (Inr g, seen') \<longleftrightarrow>
     (\<exists>obj until hb teu jti call. grant = JObject obj \<and> vc_jti cap \<notin> revoked \<and> grant_signed lib vk obj \<and>
        grant_bound v obj cap allow sid \<and> ''tx'' \<in> set (vc_scopes cap) \<and> grant_timely obj cap now until hb teu \<and>
        get_str (JObject obj) ''jti'' = Some jti \<and> jti \<notin> seen \<and>
        get_str (JObject obj) ''operatorCallsign'' = Some call \<and> vc_operator_callsign cap \<in> {None, Some call} \<and>
        g = minted_grant cap now until hb teu call jti \<and> seen' = insert jti seen)"
proof (cases "arm_grant_checks lib v grant cap vk allow revoked sid now")
  case (Inl e)
  then have "arm_grant_checks lib v grant cap vk allow revoked sid now \<noteq> Inr (obj, g)" for obj g by simp
  then show ?thesis unfolding arm_grant_checks_Inr using Inl by (simp add: verify_arm_grant_def) blast
next
  case (Inr og)
  obtain obj g0 where og: "og = (obj, g0)" by fastforce
  obtain u h t where facts: "grant = JObject obj" "vc_jti cap \<notin> revoked" "grant_signed lib vk obj"
      "grant_bound v obj cap allow sid" "''tx'' \<in> set (vc_scopes cap)" "grant_timely obj cap now u h t"
      "g0 = timely_grant cap now u h t"
    using Inr by (auto simp: og arm_grant_checks_Inr)
  have same: "grant_timely obj cap now u' h' t' \<longleftrightarrow> u' = u \<and> h' = h \<and> t' = t" for u' h' t'
    using facts(6) by (auto simp: grant_timely_def)
  have "verify_arm_grant lib v grant cap vk allow revoked sid now seen =
      (case get_str (JObject obj) ''jti'' of None \<Rightarrow> (Inl (MalformedClaim ''jti''), seen)
       | Some jti \<Rightarrow> if jti \<in> seen then (Inl ReplayedJti, seen) else (mint_grant obj cap g0 jti, insert jti seen))"
    by (simp add: verify_arm_grant_def Inr og)
  then show ?thesis
    using facts by (auto simp: same minted_grant_def mint_grant_Inr split: option.splits)
qed

lemma seen_grows: "seen \<subseteq> snd (verify_arm_grant lib v grant cap vk allow revoked sid now seen)"
  by (auto simp: verify_arm_grant_def split: sum.splits option.splits if_splits)

section \<open>What an accepted token has passed\<close>

text \<open>A pinned key signed the first two segments of the token, as they stand in it.\<close>

definition token_signed :: "wire_lib \<Rightarrow> capability_verifier \<Rightarrow> string \<Rightarrow> json \<Rightarrow> bool" where
  "token_signed lib v jws payload \<longleftrightarrow>
     (\<exists>hb pb sb hbytes pbytes header key sig.
        jws = hb @ ''.'' @ pb @ ''.'' @ sb \<and> decode_b64url lib hb = Some hbytes \<and> decode_b64url lib pb = Some pbytes \<and>
        json_from_slice lib hbytes = Some header \<and> json_from_slice lib pbytes = Some payload \<and>
        get_str header ''alg'' = Some ''EdDSA'' \<and> key \<in> set (pinned_idp_keys v) \<and> get_str header ''kid'' = Some (kid key) \<and>
        decode_b64url lib sb = Some sig \<and> length sig = 64 \<and>
        verify_strict lib (public_key key) (as_bytes (hb @ ''.'' @ pb)) sig)"

lemma find_pinned: "find (\<lambda>p. kid p = k) ps = Some key \<Longrightarrow> key \<in> set ps \<and> kid key = k"
  by (auto simp: find_Some_iff)

lemma token_signature_Inr:
  "token_signature lib v header hb pb sb = Inr u \<Longrightarrow>
     \<exists>key sig. get_str header ''alg'' = Some ''EdDSA'' \<and> key \<in> set (pinned_idp_keys v) \<and> get_str header ''kid'' = Some (kid key) \<and>
       decode_b64url lib sb = Some sig \<and> length sig = 64 \<and>
       verify_strict lib (public_key key) (as_bytes (hb @ ''.'' @ pb)) sig"
  by (auto simp: token_signature_def result_simps as_bytes_def dest!: find_pinned)

lemma token_enablement_Inr:
  "token_enablement payload exp_s iat_s = Inr teu \<Longrightarrow> in_i64 exp_s \<Longrightarrow> in_i64 iat_s \<Longrightarrow>
     teu = None \<and> exp_s - iat_s \<le> 900 \<or> teu = Some exp_s \<and> exp_s - iat_s \<le> 86400"
  by (auto simp: token_enablement_def result_simps cap_bounds i64_saturating_sub_def int_simps split: option.splits)

text \<open>The time claims of a token accepted at \<open>now\<close> (milliseconds; the claims are seconds).\<close>

definition token_fresh :: "json \<Rightarrow> int \<Rightarrow> verified_capability \<Rightarrow> int \<Rightarrow> int \<Rightarrow> bool" where
  "token_fresh payload now cap exp_s iat_s \<longleftrightarrow>
     get_i64 payload ''exp'' = Some exp_s \<and> get_i64 payload ''iat'' = Some iat_s \<and>
     now < exp_s * 1000 \<and> iat_s \<le> now div 1000 + 120 \<and>
     (vc_tx_enabled_until cap = None \<and> exp_s - iat_s \<le> 900 \<or> vc_tx_enabled_until cap = Some exp_s \<and> exp_s - iat_s \<le> 86400)"

lemma token_claims_Inr:
  assumes "token_claims v payload now = Inr cap" and "in_i64 now"
  shows "\<exists>exp_s iat_s. token_fresh payload now cap exp_s iat_s \<and> vc_exp_ms cap = i64_saturate (exp_s * 1000)"
    and "get_str payload ''aud'' = Some (agent_key_id v)"
    and "get_str payload ''clientKeyId'' = Some (vc_client_key_id cap)" and "get_str payload ''jti'' = Some (vc_jti cap)"
proof -
  obtain exp_s iat_s teu where c: "get_i64 payload ''exp'' = Some exp_s" "get_i64 payload ''iat'' = Some iat_s"
      "\<not> exp_s \<le> now div 1000" "iat_s \<le> i64_saturate (now div 1000 + MAX_IAT_SKEW_SEC)"
      "token_enablement payload exp_s iat_s = Inr teu" "vc_tx_enabled_until cap = teu" "vc_exp_ms cap = i64_saturate (exp_s * 1000)"
    and s: "get_str payload ''aud'' = Some (agent_key_id v)"
      "get_str payload ''clientKeyId'' = Some (vc_client_key_id cap)" "get_str payload ''jti'' = Some (vc_jti cap)"
    using assms(1) by (auto simp: token_claims_def Let_def result_simps)
  have "iat_s \<le> now div 1000 + 120" using c(4) assms(2) by (auto simp: i64_saturate_def cap_bounds int_simps)
  moreover have "now < exp_s * 1000" using c(3) by linarith
  ultimately have "token_fresh payload now cap exp_s iat_s"
    using c token_enablement_Inr [OF c(5)] get_i64_range by (auto simp: token_fresh_def)
  then show "\<exists>exp_s iat_s. token_fresh payload now cap exp_s iat_s \<and> vc_exp_ms cap = i64_saturate (exp_s * 1000)" using c(7) by blast
qed (use assms(1) in \<open>auto simp: token_claims_def Let_def result_simps\<close>)

lemma verify_capability_token_Inr:
  assumes "verify_capability_token lib v jws now = Inr cap"
  shows "\<exists>payload. token_signed lib v jws payload \<and> token_claims v payload now = Inr cap"
proof -
  obtain hb pb sb where s: "split_char CHR ''.'' jws = [hb, pb, sb]"
    using assms by (auto simp: verify_capability_token_def split: list.splits)
  have j: "jws = hb @ ''.'' @ pb @ ''.'' @ sb" using split_char_join [OF s] by simp
  obtain hbytes pbytes header payload u where "decode_b64url lib hb = Some hbytes" "decode_b64url lib pb = Some pbytes"
      "json_from_slice lib hbytes = Some header" "json_from_slice lib pbytes = Some payload"
      "token_signature lib v header hb pb sb = Inr u" "token_claims v payload now = Inr cap"
    using assms s by (auto simp: verify_capability_token_def result_simps)
  with token_signature_Inr [OF this(5)] j show ?thesis unfolding token_signed_def by blast
qed

section \<open>Canonical bytes\<close>

lemma signed_members_shape:
  assumes "distinct (map fst obj)"
  shows "sorted (map fst (signed_members obj))" and "distinct (map fst (signed_members obj))"
    and "set (signed_members obj) = {(k, x). (k, x) \<in> set obj \<and> k \<noteq> ''clientSig''}"
proof -
  let ?f = "filter (\<lambda>(k, _). k \<noteq> ''clientSig'') obj"
  have "distinct (map fst ?f)" using assms by (simp add: distinct_map_filter)
  moreover have "distinct (map f (sort_key f xs)) \<longleftrightarrow> distinct (map f xs)" for f :: "string \<times> json \<Rightarrow> string" and xs
    by (induction xs) (simp_all add: distinct_insort_key)
  ultimately show "distinct (map fst (signed_members obj))" by (simp add: signed_members_def)
qed (auto simp: signed_members_def)

text \<open>Two member lists sign alike exactly when they agree on every key but \<open>clientSig\<close>, whatever their order.\<close>

lemma signed_members_eq_iff:
  assumes a: "distinct (map fst a)" and b: "distinct (map fst b)"
  shows "signed_members a = signed_members b \<longleftrightarrow> (\<forall>k. k \<noteq> ''clientSig'' \<longrightarrow> map_of a k = map_of b k)"
proof -
  note sa = signed_members_shape [OF a] and sb = signed_members_shape [OF b]
  have "signed_members a = signed_members b \<longleftrightarrow> set (signed_members a) = set (signed_members b)"
  proof
    assume eq: "set (signed_members a) = set (signed_members b)"
    moreover have "inj_on fst (set (signed_members a))" using sa(2) by (simp add: distinct_map)
    ultimately show "signed_members a = signed_members b"
      using sa sb by (intro map_sorted_distinct_set_unique [where f = fst]) simp_all
  qed simp
  also have "\<dots> \<longleftrightarrow> (\<forall>k. k \<noteq> ''clientSig'' \<longrightarrow> (\<forall>x. (k, x) \<in> set a \<longleftrightarrow> (k, x) \<in> set b))"
    unfolding sa(3) sb(3) by blast
  also have "\<dots> \<longleftrightarrow> (\<forall>k. k \<noteq> ''clientSig'' \<longrightarrow> (\<forall>x. map_of a k = Some x \<longleftrightarrow> map_of b k = Some x))"
    by (simp add: map_of_eq_Some_iff a b)
  also have "\<dots> \<longleftrightarrow> (\<forall>k. k \<noteq> ''clientSig'' \<longrightarrow> map_of a k = map_of b k)"
    by (metis not_Some_eq)
  finally show ?thesis .
qed

section \<open>Grants presented one after the other\<close>

text \<open>The arguments of one call, and a session's calls as a machine over the replay set whose outputs are the
  grants minted.\<close>

record arm_request =
  rq_grant :: json
  rq_capability :: verified_capability
  rq_key :: bytes
  rq_allow :: "string set"
  rq_revoked :: "string set"
  rq_session :: string
  rq_now :: int

definition present_grant :: "wire_lib \<Rightarrow> capability_verifier \<Rightarrow> string set \<Rightarrow> arm_request \<Rightarrow> string set \<times> verified_arm_grant list" where
  "present_grant lib v seen rq =
     (case verify_arm_grant lib v (rq_grant rq) (rq_capability rq) (rq_key rq) (rq_allow rq) (rq_revoked rq) (rq_session rq)
        (rq_now rq) seen of
        (Inr g, seen') \<Rightarrow> (seen', [g])
      | (Inl e, seen') \<Rightarrow> (seen', []))"

lemma accepted_jti:
  assumes "verify_arm_grant lib v grant cap vk allow revoked sid now seen = (Inr g, seen')"
  shows "g_jti g \<notin> seen \<and> seen' = insert (g_jti g) seen"
  using assms unfolding verify_arm_grant_accepts by (elim exE conjE) (simp add: minted_grant_def)

lemma present_grant_step:
  "seen \<subseteq> fst (present_grant lib v seen rq)"
  "g \<in> set (snd (present_grant lib v seen rq)) \<Longrightarrow> g_jti g \<notin> seen \<and> g_jti g \<in> fst (present_grant lib v seen rq)"
  "distinct (map g_jti (snd (present_grant lib v seen rq)))"
proof -
  let ?r = "verify_arm_grant lib v (rq_grant rq) (rq_capability rq) (rq_key rq) (rq_allow rq) (rq_revoked rq) (rq_session rq) (rq_now rq) seen"
  have "fst (present_grant lib v seen rq) = snd ?r" by (simp add: present_grant_def split: prod.splits sum.splits)
  then show "seen \<subseteq> fst (present_grant lib v seen rq)" by (simp add: seen_grows)
  show "distinct (map g_jti (snd (present_grant lib v seen rq)))" by (simp add: present_grant_def split: prod.splits sum.splits)
  assume "g \<in> set (snd (present_grant lib v seen rq))"
  then obtain seen' where r: "?r = (Inr g, seen')" by (auto simp: present_grant_def split: prod.splits sum.splits)
  then have "fst (present_grant lib v seen rq) = seen'" by (simp add: present_grant_def)
  with accepted_jti [OF r] show "g_jti g \<notin> seen \<and> g_jti g \<in> fst (present_grant lib v seen rq)" by simp
qed

lemma presented_fresh:
  "distinct (map g_jti (snd (run (present_grant lib v) seen rqs))) \<and> g_jti ` set (snd (run (present_grant lib v) seen rqs)) \<inter> seen = {}"
proof (induction rqs arbitrary: seen)
  case (Cons rq rqs)
  let ?s = "fst (present_grant lib v seen rq)" and ?o = "snd (present_grant lib v seen rq)"
  have out: "snd (run (present_grant lib v) seen (rq # rqs)) = ?o @ snd (run (present_grant lib v) ?s rqs)"
    by (simp add: Let_def split: prod.splits)
  let ?r = "snd (run (present_grant lib v) ?s rqs)"
  have "g_jti ` set ?o \<inter> seen = {}" "g_jti ` set ?o \<subseteq> ?s" "seen \<subseteq> ?s" "distinct (map g_jti ?o)"
    using present_grant_step [where lib = lib and v = v and seen = seen and rq = rq] by blast+
  then show ?case using Cons [of ?s] unfolding out map_append distinct_append set_append image_Un set_map by blast
qed simp

section \<open>A concrete station, token and grant\<close>

definition demo_key :: bytes where "demo_key = replicate 32 65"

definition demo_sig_text :: string where "demo_sig_text = replicate 64 CHR ''A''"

definition demo_payload :: json where
  "demo_payload = JObject [(''aud'', JString ''station''), (''exp'', JInt 2000), (''iat'', JInt 900), (''txEnabledUntil'', JInt 2000),
     (''scopes'', JArray [JString ''tx'']), (''clientKeyId'', JString ''phone''), (''jti'', JString ''t1'')]"

definition demo_wire :: wire_lib where
  "demo_wire = \<lparr> base64_standard_decode = (\<lambda>s. Some (as_bytes s)), base64_url_decode = (\<lambda>s. Some (as_bytes s)),
     base64_url_encode = (\<lambda>bs. map (\<lambda>b. char_of (unat b)) bs),
     json_from_slice = (\<lambda>bs. if bs = as_bytes ''HEAD'' then Some (JObject [(''alg'', JString ''EdDSA''), (''kid'', JString ''idp'')])
                            else if bs = as_bytes ''BODY'' then Some demo_payload else None),
     json_to_vec = (\<lambda>ms. Some (concat (map (\<lambda>(k, _). as_bytes k) ms))), json_as_f64 = (\<lambda>_. None), sha256 = (\<lambda>bs. bs),
     ed25519_point = (\<lambda>_. True), verify_strict = (\<lambda>key _ sig. take 32 sig = key) \<rparr>"

definition demo_verifier :: capability_verifier where
  "demo_verifier = \<lparr> agent_key_id = ''station'', pinned_idp_keys = [\<lparr> kid = ''idp'', public_key = demo_key \<rparr>] \<rparr>"

definition demo_jws :: string where "demo_jws = ''HEAD.BODY.'' @ demo_sig_text"

definition demo_cap :: verified_capability where
  "demo_cap = \<lparr> vc_scopes = [''tx''], vc_client_key_id = ''phone'', vc_jti = ''t1'', vc_exp_ms = 2000000,
     vc_tx_enabled_until = Some 2000, vc_operator_callsign = None \<rparr>"

definition demo_arm :: json where
  "demo_arm = JObject [(''aud'', JString ''station''), (''clientKeyId'', JString ''phone''), (''capabilityJti'', JString ''t1''),
     (''sessionId'', JString ''s1''), (''armedUntil'', JInt 1600000), (''heartbeatIntervalSec'', JInt 10), (''jti'', JString ''a1''),
     (''operatorCallsign'', JString ''W1ABC''), (''clientSig'', JString demo_sig_text)]"

definition demo_minted :: verified_arm_grant where
  "demo_minted = minted_grant demo_cap 1000000 1600000 10 2000 ''W1ABC'' ''a1''"

lemma demo_token: "verify_capability_token demo_wire demo_verifier demo_jws 1000000 = Inr demo_cap"
  by code_simp

lemma demo_grant_accepted:
  "verify_arm_grant demo_wire demo_verifier demo_arm demo_cap demo_key {''phone''} {} ''s1'' 1000000 {} = (Inr demo_minted, {''a1''})"
  by code_simp

section \<open>Properties\<close>

text \<open>C9: an arm grant is accepted exactly when the client's key signed all its other members under the grant tag, it names
  this station, the live session, the token and the token's client, that client is on the station's own allow list, the token
  is not revoked, has the transmit scope and still-running horizons, the window is at most an hour, the heartbeat is between
  five and fifteen seconds, the grant id is new and the callsign is the token's; the minted grant then carries these horizons
  and the id is spent.\<close>

theorem arm_grant_accepted_iff:
  "verify_arm_grant lib v grant cap vk allow revoked sid now seen = (Inr g, seen') \<longleftrightarrow>
     (\<exists>obj until hb teu jti call. grant = JObject obj \<and> vc_jti cap \<notin> revoked \<and> grant_signed lib vk obj \<and>
        grant_bound v obj cap allow sid \<and> ''tx'' \<in> set (vc_scopes cap) \<and> grant_timely obj cap now until hb teu \<and>
        get_str (JObject obj) ''jti'' = Some jti \<and> jti \<notin> seen \<and>
        get_str (JObject obj) ''operatorCallsign'' = Some call \<and> vc_operator_callsign cap \<in> {None, Some call} \<and>
        g = minted_grant cap now until hb teu call jti \<and> seen' = insert jti seen)"
  by (rule verify_arm_grant_accepts)

text \<open>C35: a token that verifies was signed, segment for segment, by a pinned key, is addressed to this station, has not
  expired and was not issued more than two minutes in the future; it lives at most fifteen minutes, or at most a day with
  transmission enabled until exactly its expiry, so no accepted token is good for more than a day and two minutes from now.\<close>

theorem capability_token_sound:
  assumes "verify_capability_token lib v jws now = Inr cap" and "in_i64 now"
  shows "\<exists>payload exp_s iat_s. token_signed lib v jws payload \<and> get_str payload ''aud'' = Some (agent_key_id v) \<and>
           get_str payload ''clientKeyId'' = Some (vc_client_key_id cap) \<and> get_str payload ''jti'' = Some (vc_jti cap) \<and>
           token_fresh payload now cap exp_s iat_s \<and>
           vc_exp_ms cap = i64_saturate (exp_s * 1000) \<and> vc_exp_ms cap \<le> now + 86520000"
proof -
  obtain payload where p: "token_signed lib v jws payload" "token_claims v payload now = Inr cap"
    using verify_capability_token_Inr [OF assms(1)] by blast
  note c = token_claims_Inr [OF p(2) assms(2)]
  obtain e i where t: "token_fresh payload now cap e i" "vc_exp_ms cap = i64_saturate (e * 1000)" using c(1) by blast
  have "e * 1000 \<le> now + 86520000" using t(1) by (auto simp: token_fresh_def)
  then have "vc_exp_ms cap \<le> now + 86520000" using t(2) assms(2) by (auto simp: i64_saturate_def int_simps)
  then show ?thesis using p(1) c(2-4) t by blast
qed

theorem capability_token_sound_witness:
  "\<exists>payload exp_s iat_s. token_signed demo_wire demo_verifier demo_jws payload \<and> token_fresh payload 1000000 demo_cap exp_s iat_s \<and>
     vc_exp_ms demo_cap \<le> 1000000 + 86520000"
proof -
  have "in_i64 1000000" by (simp add: int_simps)
  from capability_token_sound [OF demo_token this] show ?thesis by blast
qed

text \<open>Whatever grants are presented in whatever order within a session, no two of those accepted carry the same id, and
  none carries an id already spent.\<close>

theorem grants_are_single_use:
  "distinct (map g_jti (snd (run (present_grant lib v) seen rqs))) \<and>
   g_jti ` set (snd (run (present_grant lib v) seen rqs)) \<inter> seen = {}"
  by (rule presented_fresh)

text \<open>The bytes a client signs determine every member of the grant but the signature, and do not depend on the order the
  members came in, as far as the serialiser tells the two member lists apart.\<close>

theorem canonical_bytes_cover_the_grant:
  assumes "distinct (map fst a)" and "distinct (map fst b)"
    and "inj_on (json_to_vec lib) {signed_members a, signed_members b}"
  shows "canonical_grant_bytes lib a = canonical_grant_bytes lib b \<longleftrightarrow> (\<forall>k. k \<noteq> ''clientSig'' \<longrightarrow> map_of a k = map_of b k)"
proof -
  have "canonical_grant_bytes lib a = canonical_grant_bytes lib b \<longleftrightarrow> json_to_vec lib (signed_members a) = json_to_vec lib (signed_members b)"
    by (cases "json_to_vec lib (signed_members a)"; cases "json_to_vec lib (signed_members b)") (simp_all add: canonical_grant_bytes_def)
  also have "\<dots> \<longleftrightarrow> signed_members a = signed_members b" by (intro inj_on_eq_iff [OF assms(3)]) simp_all
  finally show ?thesis using signed_members_eq_iff [OF assms(1,2)] by simp
qed

definition demo_members :: "(string \<times> json) list" where
  "demo_members = [(''b'', JNull), (''clientSig'', JString ''x''), (''a'', JInt 1)]"

definition demo_members' :: "(string \<times> json) list" where
  "demo_members' = [(''a'', JInt 1), (''b'', JNull), (''clientSig'', JString ''y'')]"

theorem canonical_bytes_cover_the_grant_witness:
  "canonical_grant_bytes demo_wire demo_members = canonical_grant_bytes demo_wire demo_members' \<longleftrightarrow>
     (\<forall>k. k \<noteq> ''clientSig'' \<longrightarrow> map_of demo_members k = map_of demo_members' k)"
proof -
  have "signed_members demo_members = signed_members demo_members'" by code_simp
  then show ?thesis
    by (intro canonical_bytes_cover_the_grant) (simp_all add: demo_members_def demo_members'_def)
qed

text \<open>The preimages of the three kinds of identity-key signature never coincide: from the bytes signed both the tag and the
  message are recovered, so a signature given for pairing or relay login never counts as an arm grant.\<close>

theorem signature_domains_are_separate:
  assumes "t \<in> {IDSIG_TAG, AUTH_DOMAIN_TAG, TX_ARM_GRANT_DOMAIN_TAG}" and "t' \<in> {IDSIG_TAG, AUTH_DOMAIN_TAG, TX_ARM_GRANT_DOMAIN_TAG}"
  shows "domain_sep t m = domain_sep t' m' \<longleftrightarrow> t = t' \<and> m = m'"
proof -
  have z: "(0 :: u8) \<notin> set (as_bytes IDSIG_TAG)" "(0 :: u8) \<notin> set (as_bytes AUTH_DOMAIN_TAG)" "(0 :: u8) \<notin> set (as_bytes TX_ARM_GRANT_DOMAIN_TAG)"
    by (simp_all add: as_bytes_def IDSIG_TAG_def AUTH_DOMAIN_TAG_def TX_ARM_GRANT_DOMAIN_TAG_def)
  then have "0 \<notin> set (as_bytes t)" "0 \<notin> set (as_bytes t')" using assms by auto
  then show ?thesis using separator_unique [of "as_bytes t" 0 m "as_bytes t'" m'] by (auto simp: domain_sep_def)
qed

theorem signature_domains_are_separate_witness:
  "domain_sep IDSIG_TAG [1] = domain_sep TX_ARM_GRANT_DOMAIN_TAG [2] \<longleftrightarrow> IDSIG_TAG = TX_ARM_GRANT_DOMAIN_TAG \<and> [1 :: u8] = [2]"
  by (rule signature_domains_are_separate) simp_all

text \<open>C40: the loop that pads base64url input ends on every input, after appending exactly the number of padding characters that
  completes the last group of four, at most three, and leaves what was there in place.\<close>

theorem padding_loop_ends:
  "pad_multiple_of_4 s = s @ replicate (3 * length s mod 4) CHR ''='' \<and> 4 dvd length (pad_multiple_of_4 s) \<and>
   length (pad_multiple_of_4 s) \<le> length s + 3"
proof -
  have "pad_multiple_of_4 s = s @ replicate (3 * length s mod 4) CHR ''=''"
  proof (induction s rule: pad_multiple_of_4.induct)
    case (1 s)
    show ?case
    proof (cases "length s mod 4 = 0")
      case True
      then have "3 * length s mod 4 = 0" by presburger
      then show ?thesis using True by (subst pad_multiple_of_4.simps) simp
    next
      case False
      then have "3 * length s mod 4 = Suc (3 * (length s + 1) mod 4)" by presburger
      then show ?thesis using 1 [OF False] False by (subst pad_multiple_of_4.simps) (simp add: replicate_append_same)
    qed
  qed
  moreover have "4 dvd n + 3 * n mod 4" "3 * n mod 4 \<le> 3" for n :: nat by presburger+
  ultimately show ?thesis by simp
qed

end
