(* ===== verification/Control.thy ===== *)
theory Control
  imports Wire
begin

text \<open>
  Control frames, \<^verbatim>\<open>pancetta-agent/src/control.rs\<close>: the mapping of a decrypted inner frame to the action
  it asks for. A frame with a \<open>type\<close> is an authorisation frame, one with a \<open>frame\<close> tag a hello or a command;
  everything unknown is \<open>Unsupported\<close>, and only malformed JSON or an incomplete arm is an error.
\<close>

section \<open>Actions\<close>

datatype tx_kind =
    CallStation string rat "string option"
  | AnswerCaller string rat string "string option" "rat option"
  | StartCq rat

datatype control_action =
    Qsy int rat
  | SetSplit bool rat
  | TxRequest tx_kind
  | StopCq
  | TakeControl
  | ReleaseControl
  | Heartbeat string nat
  | ArmAction string json
  | DisarmAction string
  | Hello "string option"
  | Unsupported

datatype control_error = Json_Error | MalformedFrame string

section \<open>The mapping\<close>

definition json_number :: "wire_lib \<Rightarrow> json \<Rightarrow> rat option" where
  "json_number lib v = json_as_f64 lib v"

definition get_number :: "wire_lib \<Rightarrow> json \<Rightarrow> string \<Rightarrow> rat option" where
  "get_number lib v k = Option.bind (json_get v k) (json_number lib)"

definition map_client_command :: "wire_lib \<Rightarrow> json \<Rightarrow> control_action" where
  "map_client_command lib cmd =
     (case get_str cmd ''cmd'' of
        None \<Rightarrow> Unsupported
      | Some name \<Rightarrow>
          if name = ''setFrequency'' then
            (case (Option.bind (json_get cmd ''vfo'') as_i64, get_number lib cmd ''frequencyHz'') of
               (Some vfo, Some hz) \<Rightarrow> Qsy vfo hz
             | _ \<Rightarrow> Unsupported)
          else if name = ''setSplit'' then
            (case (Option.bind (json_get cmd ''enabled'') as_bool, get_number lib cmd ''txFrequencyHz'') of
               (Some enabled, Some hz) \<Rightarrow> SetSplit enabled hz
             | _ \<Rightarrow> Unsupported)
          else if name = ''callStation'' then
            (case (get_str cmd ''callsign'', get_number lib cmd ''frequencyHz'') of
               (Some call, Some hz) \<Rightarrow> TxRequest (CallStation call hz (get_str cmd ''dxParity''))
             | _ \<Rightarrow> Unsupported)
          else if name = ''answerCaller'' then
            (case (get_str cmd ''callsign'', get_number lib cmd ''frequencyHz'', get_str cmd ''step'') of
               (Some call, Some hz, Some step) \<Rightarrow>
                 TxRequest (AnswerCaller call hz step (get_str cmd ''dxParity'') (get_number lib cmd ''snr''))
             | _ \<Rightarrow> Unsupported)
          else if name = ''startCq'' then
            (case get_number lib cmd ''frequencyOffsetHz'' of
               Some hz \<Rightarrow> TxRequest (StartCq hz)
             | None \<Rightarrow> Unsupported)
          else if name = ''stopCq'' then StopCq
          else if name = ''takeControl'' then TakeControl
          else if name = ''releaseControl'' then ReleaseControl
          else if name = ''setTransmitArmed'' then
            (case Option.bind (json_get cmd ''armed'') as_bool of
               Some False \<Rightarrow> DisarmAction []
             | _ \<Rightarrow> Unsupported)
          else Unsupported)"

definition map_auth_control :: "string \<Rightarrow> json \<Rightarrow> control_error + control_action" where
  "map_auth_control ty v =
     (if ty = ''txHeartbeat'' then
        (case (get_str v ''armJti'', Option.bind (json_get v ''seq'') as_u64) of
           (Some jti, Some seq) \<Rightarrow> Inr (Heartbeat jti seq)
         | _ \<Rightarrow> Inr Unsupported)
      else if ty = ''txArm'' then
        and_then (ok_or (get_str v ''capabilityToken'') (MalformedFrame ''txArm missing capabilityToken'')) (\<lambda>token.
        and_then (ok_or (json_get v ''grant'') (MalformedFrame ''txArm missing grant'')) (\<lambda>grant.
        Inr (ArmAction token grant)))
      else if ty = ''txDisarm'' then
        Inr (DisarmAction (case get_str v ''armJti'' of Some jti \<Rightarrow> jti | None \<Rightarrow> []))
      else Inr Unsupported)"

definition map_client_frame :: "wire_lib \<Rightarrow> bytes \<Rightarrow> control_error + control_action" where
  "map_client_frame lib decrypted =
     and_then (ok_or (json_from_slice lib decrypted) Json_Error) (\<lambda>v.
     case get_str v ''type'' of
       Some ty \<Rightarrow> map_auth_control ty v
     | None \<Rightarrow>
         (case get_str v ''frame'' of
            Some tag \<Rightarrow>
              if tag = ''command'' then
                (case json_get v ''command'' of
                   Some cmd \<Rightarrow> Inr (map_client_command lib cmd)
                 | None \<Rightarrow> Inr Unsupported)
              else if tag = ''hello'' then
                Inr (Hello (Option.bind (json_get v ''hello'') (\<lambda>h. get_str h ''capabilityToken'')))
              else Inr Unsupported
          | None \<Rightarrow> Inr Unsupported))"

section \<open>Properties\<close>

lemma branches:
  "P a \<Longrightarrow> P b \<Longrightarrow> P (if c then a else b)"
  "P a \<Longrightarrow> P b \<Longrightarrow> P (case c of True \<Rightarrow> a | False \<Rightarrow> b)"
  "P a \<Longrightarrow> (\<And>x. P (f x)) \<Longrightarrow> P (case opt of None \<Rightarrow> a | Some x \<Rightarrow> f x)"
  by (simp_all split: bool.split option.split)

text \<open>What a command can become, for any property of actions.\<close>

lemma command_actions:
  assumes "P Unsupported" "\<And>vfo hz. P (Qsy vfo hz)" "\<And>e hz. P (SetSplit e hz)" "\<And>r. P (TxRequest r)" "P StopCq" "P TakeControl"
    "P ReleaseControl" "\<And>jti. P (DisarmAction jti)"
  shows "P (map_client_command lib cmd)"
  unfolding map_client_command_def prod.case
  by (intro branches [where P = P] assms)

lemma command_never_authorises:
  "map_client_command lib cmd \<noteq> ArmAction token grant" "map_client_command lib cmd \<noteq> Heartbeat jti seq"
  "map_client_command lib cmd \<noteq> Hello tok"
  by (rule command_actions [where P = "\<lambda>a. a \<noteq> ArmAction token grant"]
        command_actions [where P = "\<lambda>a. a \<noteq> Heartbeat jti seq"] command_actions [where P = "\<lambda>a. a \<noteq> Hello tok"]; simp)+

lemma auth_control_arm:
  "map_auth_control ty v = Inr (ArmAction token grant) \<longleftrightarrow>
     ty = ''txArm'' \<and> get_str v ''capabilityToken'' = Some token \<and> json_get v ''grant'' = Some grant"
  by (auto simp: map_auth_control_def result_simps split: option.splits)

lemma auth_control_error:
  "isl (map_auth_control ty v) \<longleftrightarrow> ty = ''txArm'' \<and> (get_str v ''capabilityToken'' = None \<or> json_get v ''grant'' = None)"
  by (cases "get_str v ''capabilityToken''"; cases "json_get v ''grant''") (auto simp: map_auth_control_def split: option.splits)

text \<open>An arm is asked for exactly by a \<open>txArm\<close> frame that carries both the token and the grant; no command, hello or
  other frame can be read as one. The only errors are bytes that are not JSON and a \<open>txArm\<close> that lacks a part.\<close>

theorem only_a_complete_arm_frame_arms:
  "(map_client_frame lib bs = Inr (ArmAction token grant) \<longleftrightarrow>
      (\<exists>v. json_from_slice lib bs = Some v \<and> get_str v ''type'' = Some ''txArm'' \<and>
         get_str v ''capabilityToken'' = Some token \<and> json_get v ''grant'' = Some grant)) \<and>
   (isl (map_client_frame lib bs) \<longleftrightarrow>
      json_from_slice lib bs = None \<or>
      (\<exists>v. json_from_slice lib bs = Some v \<and> get_str v ''type'' = Some ''txArm'' \<and>
         (get_str v ''capabilityToken'' = None \<or> json_get v ''grant'' = None)))"
proof (cases "json_from_slice lib bs")
  case (Some v)
  then show ?thesis
    by (cases "get_str v ''type''")
      (auto simp: map_client_frame_def auth_control_arm auth_control_error command_never_authorises split: option.splits)
qed (simp add: map_client_frame_def)

end
