(* ===== verification/Relay_Session.thy ===== *)
theory Relay_Session
  imports Wire Machine "HOL-Library.Finite_Map"
begin

text \<open>
  The relay leg of the station agent, \<^verbatim>\<open>pancetta-agent/src\<close>: relay frames and their limits (\<open>relay.rs\<close>), the
  Noise wrapper (\<open>noise.rs\<close>), the client identity proof (\<open>peer_identity.rs\<close>, \<open>keys.rs\<close>) and the session that
  multiplexes up to eight peers over one socket (\<open>multi_session.rs\<close>). The web socket, serde's frame codec and
  the Noise library are the fields of \<open>lib\<close>; the human-readable texts inside errors are left out.
\<close>

section \<open>Relay frames\<close>

definition MAX_FRAME_BYTES :: nat where "MAX_FRAME_BYTES = 65536"
definition MAX_NOISE_MSG :: nat where "MAX_NOISE_MSG = 65535"

datatype relay_error =
    FrameTooLarge nat nat
  | BadFrame
  | BadPayload
  | PayloadTooLarge nat nat
  | Relay_Transport

datatype relay_frame =
    F_Hello string
  | F_Auth string string string
  | F_Ready string bool
  | F_Presence string string
  | F_Env string string "string option"
  | F_Bye "string option"
  | F_Error string "string option"

definition TERMINAL_CODES :: "string list" where
  "TERMINAL_CODES = [''BAD_AUTH'', ''TOKEN_INVALID'', ''TOKEN_EXPIRED'', ''TOKEN_REVOKED'', ''AUD_MISMATCH'', ''SCOPE_EMPTY'',
     ''AGENT_OCCUPIED'', ''CAPACITY'', ''NOT_ADMITTED'', ''FRAME_TOO_LARGE'', ''BAD_FRAME'', ''BAD_ROUTE'']"

definition is_terminal_code :: "string \<Rightarrow> bool" where
  "is_terminal_code code \<longleftrightarrow> code \<in> set TERMINAL_CODES"

datatype recv_outcome = Got_Frame string | Got_Quiet | Got_Closed

record client_identity_proof =
  proof_v :: nat
  identity_public_key :: string
  id_sig :: string

text \<open>The libraries: the socket \<open>'w\<close>, the handshake \<open>'h\<close> and transport \<open>'t\<close> states of \<open>snow\<close>, the derived
  (de)serialisers.\<close>

record ('w, 'h, 't) relay_lib =
  wire :: wire_lib
  ws_send_text :: "'w \<Rightarrow> string \<Rightarrow> 'w \<times> (relay_error + unit)"
  ws_recv_text_within :: "'w \<Rightarrow> nat \<Rightarrow> 'w \<times> (relay_error + recv_outcome)"
  ws_send_capacity :: "'w \<Rightarrow> nat option"
  frame_from_str :: "string \<Rightarrow> relay_frame option"
  frame_to_string :: "relay_frame \<Rightarrow> string option"
  proof_from_slice :: "bytes \<Rightarrow> client_identity_proof option"
  snow_build_responder :: "bytes \<Rightarrow> 'h option"
  snow_read :: "'h \<Rightarrow> bytes \<Rightarrow> 'h \<times> bytes option"
  snow_write :: "'h \<Rightarrow> bytes \<Rightarrow> 'h \<times> bytes option"
  snow_hash :: "'h \<Rightarrow> bytes"
  snow_remote_static :: "'h \<Rightarrow> bytes option"
  snow_into_transport :: "'h \<Rightarrow> 't option"
  snow_t_write :: "'t \<Rightarrow> bytes \<Rightarrow> 't \<times> bytes option"
  snow_t_read :: "'t \<Rightarrow> bytes \<Rightarrow> 't \<times> bytes option"

definition to_json :: "('w, 'h, 't) relay_lib \<Rightarrow> relay_frame \<Rightarrow> relay_error + string" where
  "to_json lib f = ok_or (frame_to_string lib f) BadFrame"

definition parse_frame :: "('w, 'h, 't) relay_lib \<Rightarrow> string \<Rightarrow> relay_error + relay_frame" where
  "parse_frame lib s =
     (if length s > MAX_FRAME_BYTES then Inl (FrameTooLarge (length s) MAX_FRAME_BYTES)
      else ok_or (frame_from_str lib s) BadFrame)"

definition decode_env_payload :: "wire_lib \<Rightarrow> string \<Rightarrow> relay_error + bytes" where
  "decode_env_payload lib payload =
     (let max_encoded = (MAX_NOISE_MSG div 3 + 1) * 4 in
      if length payload > max_encoded then Inl (PayloadTooLarge (length payload) MAX_NOISE_MSG)
      else and_then (ok_or (base64_url_decode lib payload) BadPayload) (\<lambda>bs.
           if length bs > MAX_NOISE_MSG then Inl (PayloadTooLarge (length bs) MAX_NOISE_MSG) else Inr bs))"

definition encode_env_payload :: "wire_lib \<Rightarrow> bytes \<Rightarrow> string" where
  "encode_env_payload lib bs = base64_url_encode lib bs"

section \<open>The Noise wrapper\<close>

datatype noise_error = Noise_Build | Noise_Handshake | Noise_Transport | Noise_Cipher

definition responder_new :: "('w, 'h, 't) relay_lib \<Rightarrow> bytes \<Rightarrow> noise_error + 'h" where
  "responder_new lib local_static_priv = ok_or (snow_build_responder lib local_static_priv) Noise_Build"

definition read_msg1 :: "('w, 'h, 't) relay_lib \<Rightarrow> 'h \<Rightarrow> bytes \<Rightarrow> 'h \<times> (noise_error + bytes)" where
  "read_msg1 lib hs msg1 = (case snow_read lib hs msg1 of (hs', r) \<Rightarrow> (hs', ok_or r Noise_Handshake))"

definition write_msg2 :: "('w, 'h, 't) relay_lib \<Rightarrow> 'h \<Rightarrow> bytes \<Rightarrow> 'h \<times> (noise_error + bytes)" where
  "write_msg2 lib hs payload = (case snow_write lib hs payload of (hs', r) \<Rightarrow> (hs', ok_or r Noise_Handshake))"

definition into_transport :: "('w, 'h, 't) relay_lib \<Rightarrow> 'h \<Rightarrow> noise_error + 't" where
  "into_transport lib hs = ok_or (snow_into_transport lib hs) Noise_Transport"

definition remote_static :: "('w, 'h, 't) relay_lib \<Rightarrow> 'h \<Rightarrow> bytes option" where
  "remote_static lib hs = Option.bind (snow_remote_static lib hs) (\<lambda>k. if length k = 32 then Some k else None)"

definition encrypt :: "('w, 'h, 't) relay_lib \<Rightarrow> 't \<Rightarrow> bytes \<Rightarrow> 't \<times> (noise_error + bytes)" where
  "encrypt lib t plaintext = (case snow_t_write lib t plaintext of (t', r) \<Rightarrow> (t', ok_or r Noise_Cipher))"

definition decrypt :: "('w, 'h, 't) relay_lib \<Rightarrow> 't \<Rightarrow> bytes \<Rightarrow> 't \<times> (noise_error + bytes)" where
  "decrypt lib t ciphertext = (case snow_t_read lib t ciphertext of (t', r) \<Rightarrow> (t', ok_or r Noise_Cipher))"

section \<open>Identities\<close>

record agent_identity =
  identity_public_raw :: bytes
  identity_sign :: "bytes \<Rightarrow> bytes"
  agreement_private_bytes :: bytes

definition ED25519_SPKI_PREFIX :: bytes where
  "ED25519_SPKI_PREFIX = [0x30, 0x2a, 0x30, 0x05, 0x06, 0x03, 0x2b, 0x65, 0x70, 0x03, 0x21, 0x00]"

definition key_id_from_identity_public :: "wire_lib \<Rightarrow> bytes \<Rightarrow> string" where
  "key_id_from_identity_public lib pub = base64_url_encode lib (sha256 lib (ED25519_SPKI_PREFIX @ pub))"

definition key_id :: "wire_lib \<Rightarrow> agent_identity \<Rightarrow> string" where
  "key_id lib ident = key_id_from_identity_public lib (identity_public_raw ident)"

definition sign_domain :: "agent_identity \<Rightarrow> string \<Rightarrow> bytes \<Rightarrow> bytes" where
  "sign_domain ident tag msg = identity_sign ident (domain_sep tag msg)"

definition CLIENT_IDENTITY_PROOF_VERSION :: nat where "CLIENT_IDENTITY_PROOF_VERSION = 1"
definition MAX_CLIENT_IDENTITY_PROOF_LEN :: nat where "MAX_CLIENT_IDENTITY_PROOF_LEN = 1024"

datatype peer_identity_error = Proof_Missing | Proof_Malformed string | UnsupportedVersion nat | Proof_BadSignature

definition decode_exact :: "wire_lib \<Rightarrow> nat \<Rightarrow> string \<Rightarrow> string \<Rightarrow> peer_identity_error + bytes" where
  "decode_exact lib n s what =
     and_then (ok_or (base64_url_decode lib s) (Proof_Malformed what)) (\<lambda>bs.
     if length bs = n then Inr bs else Inl (Proof_Malformed what))"

definition verify_client_identity_proof :: "('w, 'h, 't) relay_lib \<Rightarrow> bytes \<Rightarrow> bytes \<Rightarrow> peer_identity_error + string" where
  "verify_client_identity_proof lib payload rs =
     and_then (bail_if (payload = []) Proof_Missing) (\<lambda>_.
     and_then (bail_if (length payload > MAX_CLIENT_IDENTITY_PROOF_LEN) (Proof_Malformed ''proof exceeds 1024 bytes'')) (\<lambda>_.
     and_then (ok_or (proof_from_slice lib payload) (Proof_Malformed ''not a client identity proof object'')) (\<lambda>p.
     and_then (bail_if (proof_v p \<noteq> CLIENT_IDENTITY_PROOF_VERSION) (UnsupportedVersion (proof_v p))) (\<lambda>_.
     and_then (decode_exact (wire lib) 32 (identity_public_key p) ''identityPublicKey is not 32 bytes of base64url'') (\<lambda>pub.
     and_then (decode_exact (wire lib) 64 (id_sig p) ''idSig is not 64 bytes of base64url'') (\<lambda>sig.
     and_then (bail_if (\<not> ed25519_point (wire lib) pub) (Proof_Malformed ''identityPublicKey is not an Ed25519 point'')) (\<lambda>_.
     and_then (bail_if (\<not> verify_strict (wire lib) pub (domain_sep IDSIG_TAG rs) sig) Proof_BadSignature) (\<lambda>_.
     Inr (key_id_from_identity_public (wire lib) pub)))))))))"

section \<open>The session\<close>

definition MAX_PEERS :: nat where "MAX_PEERS = 8"

record 't peer_state =
  ps_transport :: 't
  ps_session_id :: string

datatype refuse_reason =
    NotAllowListed | AtCapacity | Refuse_Handshake | IdentityProofMissing | IdentityProofInvalid | IdentityMismatch

datatype poll =
    Plaintext string bytes
  | PeerEstablished string string
  | PeerRefused string refuse_reason
  | PeerDown string
  | Poll_Idle
  | Poll_Quiet
  | Poll_Closed

datatype session_error =
    S_Relay relay_error
  | S_Noise noise_error
  | UnexpectedClose string
  | UnexpectedFrame string string
  | S_Terminal string
  | BadChallenge
  | S_Timeout string

record ('w, 't) multi_peer_session =
  ms_ws :: 'w
  ms_allowed :: "string set"
  ms_peers :: "(string, 't peer_state) fmap"
  ms_transport_failed :: bool

definition session_new :: "'w \<Rightarrow> string set \<Rightarrow> ('w, 't) multi_peer_session" where
  "session_new ws allowed = \<lparr> ms_ws = ws, ms_allowed = allowed, ms_peers = fmempty, ms_transport_failed = False \<rparr>"

fun describe :: "relay_frame \<Rightarrow> string" where
  "describe (F_Hello _) = ''hello''"
| "describe (F_Auth _ _ _) = ''auth''"
| "describe (F_Ready _ _) = ''ready''"
| "describe (F_Presence _ _) = ''presence''"
| "describe (F_Env _ _ _) = ''env''"
| "describe (F_Bye _) = ''bye''"
| "describe (F_Error code _) = ''error('' @ code @ '')''"

definition handle_error_frame :: "string \<Rightarrow> session_error + unit" where
  "handle_error_frame code = (if is_terminal_code code then Inl (S_Terminal code) else Inr ())"

definition send_frame :: "('w, 'h, 't) relay_lib \<Rightarrow> ('w, 't) multi_peer_session \<Rightarrow> string
    \<Rightarrow> ('w, 't) multi_peer_session \<times> (relay_error + unit)" where
  "send_frame lib s json =
     (if ms_transport_failed s then (s, Inl Relay_Transport)
      else case ws_send_text lib (ms_ws s) json of
        (w, sent) \<Rightarrow>
          (let s1 = s\<lparr> ms_ws := w \<rparr> in
           (if sent = Inl Relay_Transport then s1\<lparr> ms_transport_failed := True \<rparr> else s1, sent)))"

text \<open>A fallible step whose error ends the call with a state.\<close>

definition or_return :: "'s \<Rightarrow> 'e + 'a \<Rightarrow> ('a \<Rightarrow> 's \<times> ('e + 'b)) \<Rightarrow> 's \<times> ('e + 'b)" where
  "or_return s r f = (case r of Inl e \<Rightarrow> (s, Inl e) | Inr x \<Rightarrow> f x)"

definition authenticate :: "('w, 'h, 't) relay_lib \<Rightarrow> agent_identity \<Rightarrow> ('w, 't) multi_peer_session \<Rightarrow> nat
    \<Rightarrow> ('w, 't) multi_peer_session \<times> (session_error + unit)" where
  "authenticate lib ident s timeout =
     (case ws_recv_text_within lib (ms_ws s) timeout of
        (w, r) \<Rightarrow>
          (let s = s\<lparr> ms_ws := w \<rparr> in
           case r of
             Inl e \<Rightarrow> (s, Inl (S_Relay e))
           | Inr Got_Quiet \<Rightarrow> (s, Inl (S_Timeout ''awaiting hello''))
           | Inr Got_Closed \<Rightarrow> (s, Inl (UnexpectedClose ''awaiting hello''))
           | Inr (Got_Frame t) \<Rightarrow>
               or_return s (map_err S_Relay (parse_frame lib t)) (\<lambda>frame.
               case frame of
                 F_Hello challenge_b64 \<Rightarrow>
                   or_return s (map_err (\<lambda>_. BadChallenge) (decode_env_payload (wire lib) challenge_b64)) (\<lambda>challenge.
                   let auth = F_Auth ''agent'' (key_id (wire lib) ident)
                         (encode_env_payload (wire lib) (sign_domain ident AUTH_DOMAIN_TAG challenge)) in
                   or_return s (map_err S_Relay (to_json lib auth)) (\<lambda>json.
                   case send_frame lib s json of (s', sent) \<Rightarrow> (s', map_err S_Relay sent)))
               | F_Error code _ \<Rightarrow> (s, handle_error_frame code)
               | other \<Rightarrow> (s, Inl (UnexpectedFrame ''awaiting hello'' (describe other))))))"

text \<open>The responder's half of the handshake for an admitted label, identity first.\<close>

definition refuse_identity :: "peer_identity_error \<Rightarrow> refuse_reason" where
  "refuse_identity e = (if e = Proof_Missing then IdentityProofMissing else IdentityProofInvalid)"

definition bootstrap_peer :: "('w, 'h, 't) relay_lib \<Rightarrow> agent_identity \<Rightarrow> ('w, 't) multi_peer_session \<Rightarrow> string \<Rightarrow> bytes
    \<Rightarrow> ('w, 't) multi_peer_session \<times> (refuse_reason + string)" where
  "bootstrap_peer lib ident s src msg1 =
     or_return s (map_err (\<lambda>_. Refuse_Handshake) (responder_new lib (agreement_private_bytes ident))) (\<lambda>hs.
     case read_msg1 lib hs msg1 of (hs, r1) \<Rightarrow>
     or_return s (map_err (\<lambda>_. Refuse_Handshake) r1) (\<lambda>payload.
     or_return s (ok_or (remote_static lib hs) Refuse_Handshake) (\<lambda>rs.
     or_return s (map_err refuse_identity (verify_client_identity_proof lib payload rs)) (\<lambda>proven.
     if proven \<noteq> src then (s, Inl IdentityMismatch)
     else case write_msg2 lib hs [] of (hs, r2) \<Rightarrow>
     or_return s (map_err (\<lambda>_. Refuse_Handshake) r2) (\<lambda>msg2.
     let out = F_Env proven (encode_env_payload (wire lib) msg2) None in
     or_return s (map_err (\<lambda>_. Refuse_Handshake) (to_json lib out)) (\<lambda>json.
     case send_frame lib s json of (s, sent) \<Rightarrow>
     or_return s (map_err (\<lambda>_. Refuse_Handshake) sent) (\<lambda>_.
     let sid = base64_url_encode (wire lib) (snow_hash lib hs) in
     or_return s (map_err (\<lambda>_. Refuse_Handshake) (into_transport lib hs)) (\<lambda>transport.
     (s\<lparr> ms_peers := fmupd proven \<lparr> ps_transport = transport, ps_session_id = sid \<rparr> (ms_peers s) \<rparr>, Inr sid)))))))))"

definition drop_peer :: "string \<Rightarrow> ('w, 't) multi_peer_session \<Rightarrow> ('w, 't) multi_peer_session" where
  "drop_peer p s = s\<lparr> ms_peers := fmdrop p (ms_peers s) \<rparr>"

definition process_env :: "('w, 'h, 't) relay_lib \<Rightarrow> agent_identity \<Rightarrow> ('w, 't) multi_peer_session \<Rightarrow> string \<Rightarrow> string option
    \<Rightarrow> ('w, 't) multi_peer_session \<times> (session_error + poll)" where
  "process_env lib ident s payload_b64 src =
     (case src of
        None \<Rightarrow> (s, Inr Poll_Idle)
      | Some peer \<Rightarrow>
          (case fmlookup (ms_peers s) peer of
             Some st \<Rightarrow>
               (case decode_env_payload (wire lib) payload_b64 of
                  Inl _ \<Rightarrow> (drop_peer peer s, Inr (PeerDown peer))
                | Inr payload \<Rightarrow>
                    (case decrypt lib (ps_transport st) payload of
                       (t, Inr plaintext) \<Rightarrow>
                         (s\<lparr> ms_peers := fmupd peer (st\<lparr> ps_transport := t \<rparr>) (ms_peers s) \<rparr>, Inr (Plaintext peer plaintext))
                     | (t, Inl _) \<Rightarrow> (drop_peer peer s, Inr (PeerDown peer))))
           | None \<Rightarrow>
               if peer \<notin> ms_allowed s then (s, Inr (PeerRefused peer NotAllowListed))
               else if fcard (fmdom (ms_peers s)) \<ge> MAX_PEERS then (s, Inr (PeerRefused peer AtCapacity))
               else (case decode_env_payload (wire lib) payload_b64 of
                       Inl _ \<Rightarrow> (s, Inr (PeerRefused peer Refuse_Handshake))
                     | Inr msg1 \<Rightarrow>
                         (case bootstrap_peer lib ident s peer msg1 of
                            (s', Inr sid) \<Rightarrow> (s', Inr (PeerEstablished peer sid))
                          | (s', Inl reason) \<Rightarrow> (s', Inr (PeerRefused peer reason))))))"

definition process_frame :: "('w, 'h, 't) relay_lib \<Rightarrow> agent_identity \<Rightarrow> ('w, 't) multi_peer_session \<Rightarrow> relay_frame
    \<Rightarrow> ('w, 't) multi_peer_session \<times> (session_error + poll)" where
  "process_frame lib ident s frame =
     (case frame of
        F_Ready _ _ \<Rightarrow> (s, Inr Poll_Idle)
      | F_Presence peer state \<Rightarrow>
          if state = ''down'' \<and> fmlookup (ms_peers s) peer \<noteq> None then (drop_peer peer s, Inr (PeerDown peer))
          else (s, Inr Poll_Idle)
      | F_Env _ payload src \<Rightarrow> process_env lib ident s payload src
      | F_Error code _ \<Rightarrow> (s, and_then (handle_error_frame code) (\<lambda>_. Inr Poll_Idle))
      | F_Bye _ \<Rightarrow> (s, Inl (UnexpectedClose ''peer sent bye''))
      | other \<Rightarrow> (s, Inl (UnexpectedFrame ''post-auth'' (describe other))))"

definition process_next :: "('w, 'h, 't) relay_lib \<Rightarrow> agent_identity \<Rightarrow> ('w, 't) multi_peer_session \<Rightarrow> nat
    \<Rightarrow> ('w, 't) multi_peer_session \<times> (session_error + poll)" where
  "process_next lib ident s timeout =
     (if ms_transport_failed s then (s, Inl (S_Relay Relay_Transport))
      else case ws_recv_text_within lib (ms_ws s) timeout of
        (w, r) \<Rightarrow>
          (let s = s\<lparr> ms_ws := w \<rparr> in
           case r of
             Inl e \<Rightarrow> (s, Inl (S_Relay e))
           | Inr Got_Quiet \<Rightarrow> (s, Inr Poll_Quiet)
           | Inr Got_Closed \<Rightarrow> (s, Inr Poll_Closed)
           | Inr (Got_Frame t) \<Rightarrow>
               or_return s (map_err S_Relay (parse_frame lib t)) (\<lambda>frame. process_frame lib ident s frame)))"

definition send_to :: "('w, 'h, 't) relay_lib \<Rightarrow> ('w, 't) multi_peer_session \<Rightarrow> string \<Rightarrow> bytes
    \<Rightarrow> ('w, 't) multi_peer_session \<times> (session_error + unit)" where
  "send_to lib s peer plaintext =
     (if ms_transport_failed s then (s, Inl (S_Relay Relay_Transport))
      else case fmlookup (ms_peers s) peer of
        None \<Rightarrow> (s, Inl (UnexpectedFrame ''send_to'' (''unknown peer '' @ peer)))
      | Some st \<Rightarrow>
          (case encrypt lib (ps_transport st) plaintext of
             (t, r) \<Rightarrow>
               (let s = s\<lparr> ms_peers := fmupd peer (st\<lparr> ps_transport := t \<rparr>) (ms_peers s) \<rparr> in
                or_return s (map_err S_Noise r) (\<lambda>ct.
                or_return s (map_err S_Relay (to_json lib (F_Env peer (encode_env_payload (wire lib) ct) None))) (\<lambda>json.
                case send_frame lib s json of (s', sent) \<Rightarrow> (s', map_err S_Relay sent))))))"

text \<open>The fan-out: encrypt for every selected peer, in the order the map is iterated; send; drop the peers that failed.\<close>

fun encrypt_each :: "('w, 'h, 't) relay_lib \<Rightarrow> bytes \<Rightarrow> (string \<Rightarrow> bool) \<Rightarrow> string list \<Rightarrow> (string, 't peer_state) fmap
    \<Rightarrow> (string, 't peer_state) fmap \<times> (string \<times> string) list \<times> string list" where
  "encrypt_each lib plaintext recipient [] peers = (peers, [], [])"
| "encrypt_each lib plaintext recipient (p # order) peers =
     (if \<not> recipient p then encrypt_each lib plaintext recipient order peers
      else case fmlookup peers p of
        None \<Rightarrow> encrypt_each lib plaintext recipient order peers
      | Some st \<Rightarrow>
          (case encrypt lib (ps_transport st) plaintext of
             (t, r) \<Rightarrow>
               (case encrypt_each lib plaintext recipient order (fmupd p (st\<lparr> ps_transport := t \<rparr>) peers) of
                  (peers', outbound, failed) \<Rightarrow>
                    (case and_then (map_err (\<lambda>_. ()) r) (\<lambda>ct.
                            map_err (\<lambda>_. ()) (to_json lib (F_Env p (encode_env_payload (wire lib) ct) None))) of
                       Inr json \<Rightarrow> (peers', (p, json) # outbound, failed)
                     | Inl _ \<Rightarrow> (peers', outbound, p # failed)))))"

fun send_each :: "('w, 'h, 't) relay_lib \<Rightarrow> ('w, 't) multi_peer_session \<Rightarrow> (string \<times> string) list
    \<Rightarrow> ('w, 't) multi_peer_session \<times> nat \<times> string list" where
  "send_each lib s [] = (s, 0, [])"
| "send_each lib s ((p, json) # rest) =
     (case send_frame lib s json of
        (s1, r) \<Rightarrow>
          (case send_each lib s1 rest of
             (s2, sent, failed) \<Rightarrow> (case r of Inr _ \<Rightarrow> (s2, sent + 1, failed) | Inl _ \<Rightarrow> (s2, sent, p # failed))))"

definition broadcast_to :: "('w, 'h, 't) relay_lib \<Rightarrow> string list \<Rightarrow> ('w, 't) multi_peer_session \<Rightarrow> bytes \<Rightarrow> (string \<Rightarrow> bool)
    \<Rightarrow> ('w, 't) multi_peer_session \<times> nat" where
  "broadcast_to lib order s plaintext recipient =
     (if ms_transport_failed s then (s, 0)
      else case encrypt_each lib plaintext recipient order (ms_peers s) of
        (peers, outbound, failed) \<Rightarrow>
          (case send_each lib (s\<lparr> ms_peers := peers \<rparr>) outbound of
             (s2, sent, failed2) \<Rightarrow> (fold drop_peer (failed @ failed2) s2, sent)))"

definition session_id :: "('w, 't) multi_peer_session \<Rightarrow> string \<Rightarrow> string option" where
  "session_id s peer = map_option ps_session_id (fmlookup (ms_peers s) peer)"

definition established_peers :: "('w, 't) multi_peer_session \<Rightarrow> string set" where
  "established_peers s = fset (fmdom (ms_peers s))"

definition replace_allowed :: "('w, 't) multi_peer_session \<Rightarrow> string set \<Rightarrow> ('w, 't) multi_peer_session \<times> string list" where
  "replace_allowed s allowed =
     (let evicted = sorted_list_of_fset (ffilter (\<lambda>p. p \<notin> allowed) (fmdom (ms_peers s))) in
      ((fold drop_peer evicted s)\<lparr> ms_allowed := allowed \<rparr>, evicted))"

section \<open>Established means proven\<close>

text \<open>A transport state reached from the one the handshake produced by encrypting and decrypting only.\<close>

inductive transport_from :: "('w, 'h, 't) relay_lib \<Rightarrow> 't \<Rightarrow> 't \<Rightarrow> bool" for lib t0 where
  transport_start: "transport_from lib t0 t0"
| transport_encrypt: "transport_from lib t0 t \<Longrightarrow> encrypt lib t m = (t', r) \<Longrightarrow> transport_from lib t0 t'"
| transport_decrypt: "transport_from lib t0 t \<Longrightarrow> decrypt lib t m = (t', r) \<Longrightarrow> transport_from lib t0 t'"

text \<open>The holder of identity \<open>p\<close> signed the static key of the handshake that gave this peer its transport and session id.\<close>

definition proven_peer :: "('w, 'h, 't) relay_lib \<Rightarrow> agent_identity \<Rightarrow> string \<Rightarrow> 't peer_state \<Rightarrow> bool" where
  "proven_peer lib ident p ps \<longleftrightarrow>
     (\<exists>hs0 msg1 hs1 payload rs hs2 msg2 t0.
        responder_new lib (agreement_private_bytes ident) = Inr hs0 \<and> read_msg1 lib hs0 msg1 = (hs1, Inr payload) \<and>
        remote_static lib hs1 = Some rs \<and> verify_client_identity_proof lib payload rs = Inr p \<and>
        write_msg2 lib hs1 [] = (hs2, Inr msg2) \<and> ps_session_id ps = base64_url_encode (wire lib) (snow_hash lib hs2) \<and>
        into_transport lib hs2 = Inr t0 \<and> transport_from lib t0 (ps_transport ps))"

lemma proven_peer_moves:
  assumes "proven_peer lib ident p ps"
  shows "encrypt lib (ps_transport ps) m = (t, r) \<Longrightarrow> proven_peer lib ident p (ps\<lparr> ps_transport := t \<rparr>)"
    and "decrypt lib (ps_transport ps) m = (t, r) \<Longrightarrow> proven_peer lib ident p (ps\<lparr> ps_transport := t \<rparr>)"
  using assms unfolding proven_peer_def by (auto intro: transport_from.intros) (metis transport_encrypt transport_decrypt)+

lemma or_return_Inr: "or_return s r f = (s', Inr y) \<longleftrightarrow> (\<exists>x. r = Inr x \<and> f x = (s', Inr y))"
  by (cases r) (simp_all add: or_return_def)

lemma case_prod_eq_ex: "(case p of (a, b) \<Rightarrow> f a b) = z \<longleftrightarrow> (\<exists>a b. p = (a, b) \<and> f a b = z)"
  by (cases p) simp

lemma if_return_Inr: "(if c then (s, Inl e) else x) = (s', Inr y) \<longleftrightarrow> \<not> c \<and> x = (s', Inr y)"
  by simp

lemmas success_simps = or_return_Inr case_prod_eq_ex if_return_Inr result_simps

lemma send_frame_keeps [simp]:
  "ms_peers (fst (send_frame lib s json)) = ms_peers s" "ms_allowed (fst (send_frame lib s json)) = ms_allowed s"
  by (simp_all add: send_frame_def Let_def split: prod.splits)

lemma send_frame_latched [simp]: "ms_transport_failed s \<Longrightarrow> send_frame lib s json = (s, Inl Relay_Transport)"
  by (simp add: send_frame_def)

lemma drop_peer_fields [simp]:
  "ms_peers (drop_peer p s) = fmdrop p (ms_peers s)" "ms_allowed (drop_peer p s) = ms_allowed s"
  "ms_ws (drop_peer p s) = ms_ws s" "ms_transport_failed (drop_peer p s) = ms_transport_failed s"
  by (simp_all add: drop_peer_def)

lemma drop_peers_fields [simp]:
  "ms_allowed (fold drop_peer ps s) = ms_allowed s" "ms_ws (fold drop_peer ps s) = ms_ws s"
  "ms_transport_failed (fold drop_peer ps s) = ms_transport_failed s"
  "fmlookup (ms_peers (fold drop_peer ps s)) q = (if q \<in> set ps then None else fmlookup (ms_peers s) q)"
  by (induction ps arbitrary: s) auto

text \<open>The bootstrap inserts one peer, proven under its label, or changes no peer at all.\<close>

lemma send_frame_result:
  assumes "send_frame lib s json = (s', r)"
  shows "ms_peers s' = ms_peers s" "ms_allowed s' = ms_allowed s"
  using send_frame_keeps [of lib s json] assms by simp_all

lemma bootstrap_refused:
  assumes "bootstrap_peer lib ident s src msg1 = (s', Inl reason)"
  shows "ms_peers s' = ms_peers s \<and> ms_allowed s' = ms_allowed s"
  using assms unfolding bootstrap_peer_def
  by (auto simp: or_return_def Let_def dest: send_frame_result split: sum.splits prod.splits if_splits)

lemma bootstrap_established:
  assumes "bootstrap_peer lib ident s src msg1 = (s', Inr sid)"
  shows "\<exists>ps. ms_peers s' = fmupd src ps (ms_peers s) \<and> ms_allowed s' = ms_allowed s \<and> proven_peer lib ident src ps \<and> ps_session_id ps = sid"
proof -
  obtain hs0 hs1 payload rs hs2 msg2 j s1 t0 where h:
      "responder_new lib (agreement_private_bytes ident) = Inr hs0" "read_msg1 lib hs0 msg1 = (hs1, Inr payload)"
      "remote_static lib hs1 = Some rs" "verify_client_identity_proof lib payload rs = Inr src"
      "write_msg2 lib hs1 [] = (hs2, Inr msg2)" "into_transport lib hs2 = Inr t0"
      "send_frame lib s j = (s1, Inr ())" "sid = base64_url_encode (wire lib) (snow_hash lib hs2)"
      "s' = s1\<lparr> ms_peers := fmupd src \<lparr> ps_transport = t0, ps_session_id = sid \<rparr> (ms_peers s1) \<rparr>"
    using assms unfolding bootstrap_peer_def
    by (auto simp: success_simps Let_def)
  have "proven_peer lib ident src \<lparr> ps_transport = t0, ps_session_id = sid \<rparr>"
    unfolding proven_peer_def peer_state.select_convs using h(1-6,8) transport_start [of lib t0] by blast
  then show ?thesis using h(8,9) send_frame_result [OF h(7)] by auto
qed

section \<open>The invariant of the session\<close>

text \<open>At most eight peers, all admitted, each proven under its key.\<close>

definition peers_proven :: "('w, 'h, 't) relay_lib \<Rightarrow> agent_identity \<Rightarrow> (string, 't peer_state) fmap \<Rightarrow> bool" where
  "peers_proven lib ident peers \<longleftrightarrow> (\<forall>p ps. fmlookup peers p = Some ps \<longrightarrow> proven_peer lib ident p ps)"

definition relay_inv :: "('w, 'h, 't) relay_lib \<Rightarrow> agent_identity \<Rightarrow> ('w, 't) multi_peer_session \<Rightarrow> bool" where
  "relay_inv lib ident s \<longleftrightarrow>
     fset (fmdom (ms_peers s)) \<subseteq> ms_allowed s \<and> fcard (fmdom (ms_peers s)) \<le> MAX_PEERS \<and> peers_proven lib ident (ms_peers s)"

lemma peers_proven_simps [intro]:
  "peers_proven lib ident m \<Longrightarrow> proven_peer lib ident p ps \<Longrightarrow> peers_proven lib ident (fmupd p ps m)"
  "peers_proven lib ident m \<Longrightarrow> peers_proven lib ident (fmdrop p m)"
  "peers_proven lib ident fmempty"
  by (auto simp: peers_proven_def split: if_splits)

lemma peers_provenD: "peers_proven lib ident m \<Longrightarrow> fmlookup m p = Some ps \<Longrightarrow> proven_peer lib ident p ps"
  by (simp add: peers_proven_def)

text \<open>Fewer peers, with states that are still proven, keep the invariant; so does one more below the limit.\<close>

lemma relay_inv_shrink:
  assumes "relay_inv lib ident s" and "ms_allowed s' = ms_allowed s" and "fmdom (ms_peers s') |\<subseteq>| fmdom (ms_peers s)"
    and "peers_proven lib ident (ms_peers s')"
  shows "relay_inv lib ident s'"
  using assms fcard_mono [OF assms(3)] by (fastforce simp: relay_inv_def)

lemma relay_inv_insert:
  assumes "relay_inv lib ident s" and "p \<in> ms_allowed s" and "fcard (fmdom (ms_peers s)) < MAX_PEERS"
    and "ms_allowed s' = ms_allowed s" and "ms_peers s' = fmupd p ps (ms_peers s)" and "proven_peer lib ident p ps"
  shows "relay_inv lib ident s'"
proof -
  have "fcard (finsert p (fmdom (ms_peers s))) \<le> MAX_PEERS"
    using assms(3) by (simp add: fcard_finsert_if)
  then show ?thesis using assms by (auto simp: relay_inv_def)
qed

lemma relay_inv_drop: "relay_inv lib ident s \<Longrightarrow> relay_inv lib ident (drop_peer p s)"
  by (rule relay_inv_shrink) (auto simp: relay_inv_def)

lemma relay_inv_fields:
  "ms_peers s' = ms_peers s \<Longrightarrow> ms_allowed s' = ms_allowed s \<Longrightarrow> relay_inv lib ident s' = relay_inv lib ident s"
  by (simp add: relay_inv_def)

lemma relay_inv_move:
  assumes "relay_inv lib ident s" and "fmlookup (ms_peers s) p = Some ps" and "proven_peer lib ident p ps'"
  shows "relay_inv lib ident (s\<lparr> ms_peers := fmupd p ps' (ms_peers s) \<rparr>)"
  using assms by (intro relay_inv_shrink [OF assms(1)]) (auto simp: relay_inv_def fmdomI)

lemma relay_inv_provenD: "relay_inv lib ident s \<Longrightarrow> fmlookup (ms_peers s) p = Some ps \<Longrightarrow> proven_peer lib ident p ps"
  by (auto simp: relay_inv_def dest: peers_provenD)

lemma relay_inv_send_frame [simp]: "relay_inv lib ident (fst (send_frame lib s json)) = relay_inv lib ident s"
  by (rule relay_inv_fields) simp_all

lemma bootstrap_inv:
  assumes "relay_inv lib ident s" and "p \<in> ms_allowed s" and "fcard (fmdom (ms_peers s)) < MAX_PEERS"
  shows "relay_inv lib ident (fst (bootstrap_peer lib ident s p m))"
proof -
  obtain s' r where b: "bootstrap_peer lib ident s p m = (s', r)" by fastforce
  show ?thesis
  proof (cases r)
    case (Inl e)
    then show ?thesis using b bootstrap_refused [of lib ident s p m s' e] assms(1) by (simp add: relay_inv_def)
  next
    case (Inr sid)
    then obtain ps where "ms_peers s' = fmupd p ps (ms_peers s)" "ms_allowed s' = ms_allowed s" "proven_peer lib ident p ps"
      using b bootstrap_established [of lib ident s p m s' sid] by blast
    then show ?thesis using b relay_inv_insert [OF assms] by simp
  qed
qed

lemma process_env_inv:
  assumes "relay_inv lib ident s"
  shows "relay_inv lib ident (fst (process_env lib ident s payload src))"
proof (cases src)
  case (Some p)
  show ?thesis
  proof (cases "fmlookup (ms_peers s) p")
    case (Some ps)
    note pr = relay_inv_provenD [OF assms Some]
    show ?thesis using \<open>src = Some p\<close> Some assms
      by (auto simp: process_env_def relay_inv_drop intro!: relay_inv_move proven_peer_moves(2) [OF pr] split: sum.splits prod.splits)
  next
    case None
    have "fst (process_env lib ident s payload src) \<in> {s} \<union> (if p \<in> ms_allowed s \<and> fcard (fmdom (ms_peers s)) < MAX_PEERS
        then {s'. \<exists>m. s' = fst (bootstrap_peer lib ident s p m)} else {})"
      using \<open>src = Some p\<close> None by (auto simp: process_env_def not_le split: sum.splits prod.splits) (metis fst_conv)+
    then show ?thesis using assms bootstrap_inv by (auto split: if_splits)
  qed
qed (simp add: process_env_def assms)

lemma fst_or_return_cases: "fst (or_return s r f) = s \<or> (\<exists>x. r = Inr x \<and> fst (or_return s r f) = fst (f x))"
  by (cases r) (simp_all add: or_return_def)

lemma process_frame_inv: "relay_inv lib ident s \<Longrightarrow> relay_inv lib ident (fst (process_frame lib ident s frame))"
  by (cases frame) (auto simp: process_frame_def process_env_inv relay_inv_drop)

text \<open>A poll either fails before a frame is read, or is the handling of one frame on the socket's next state.\<close>

lemma process_next_cases:
  obtains (untouched) w where "fst (process_next lib ident s n) = s\<lparr> ms_ws := w \<rparr>"
      "\<forall>p pt. snd (process_next lib ident s n) \<noteq> Inr (Plaintext p pt)" "\<forall>p x. snd (process_next lib ident s n) \<noteq> Inr (PeerRefused p x)"
  | (frame) w t f where "ws_recv_text_within lib (ms_ws s) n = (w, Inr (Got_Frame t))" "parse_frame lib t = Inr f" "\<not> ms_transport_failed s"
      "process_next lib ident s n = process_frame lib ident (s\<lparr> ms_ws := w \<rparr>) f"
proof (cases "ms_transport_failed s")
  case True
  then show ?thesis using untouched [of "ms_ws s"] by (simp add: process_next_def)
next
  case False
  obtain w r where r: "ws_recv_text_within lib (ms_ws s) n = (w, r)" by fastforce
  show ?thesis
  proof (cases "\<exists>t f. r = Inr (Got_Frame t) \<and> parse_frame lib t = Inr f")
    case True
    then show ?thesis using frame r False by (auto simp: process_next_def or_return_def)
  next
    case no: False
    then have "process_next lib ident s n = (s\<lparr> ms_ws := w \<rparr>, snd (process_next lib ident s n)) \<and>
        (isl (snd (process_next lib ident s n)) \<or> snd (process_next lib ident s n) \<in> {Inr Poll_Quiet, Inr Poll_Closed})"
      using r False by (auto simp: process_next_def or_return_def Let_def map_err_Inr split: sum.splits recv_outcome.splits)
    then show ?thesis using untouched [of w] by (metis fst_conv insert_iff isl_def poll.distinct singletonD sum.disc(2) sum.inject(2))
  qed
qed

lemma relay_inv_ws [simp]: "relay_inv lib ident (s\<lparr> ms_ws := w \<rparr>) = relay_inv lib ident s"
  by (simp add: relay_inv_def)

lemma process_next_inv: "relay_inv lib ident s \<Longrightarrow> relay_inv lib ident (fst (process_next lib ident s n))"
  by (rule process_next_cases [of lib ident s n]) (simp_all add: process_frame_inv)

lemma send_to_inv:
  assumes "relay_inv lib ident s"
  shows "relay_inv lib ident (fst (send_to lib s p m))"
proof (cases "ms_transport_failed s \<or> fmlookup (ms_peers s) p = None")
  case True
  then show ?thesis using assms by (auto simp: send_to_def)
next
  case False
  then obtain ps where ps: "fmlookup (ms_peers s) p = Some ps" by auto
  obtain t r where e: "encrypt lib (ps_transport ps) m = (t, r)" by fastforce
  have "relay_inv lib ident (s\<lparr> ms_peers := fmupd p (ps\<lparr> ps_transport := t \<rparr>) (ms_peers s) \<rparr>)"
    using relay_inv_move [OF assms ps] proven_peer_moves(1) [OF relay_inv_provenD [OF assms ps] e] by blast
  then show ?thesis using False ps e
    by (auto simp: send_to_def Let_def or_return_def split: sum.splits prod.splits
        dest!: arg_cong [where f = fst and x = "send_frame lib _ _"])
qed

lemma encrypt_each_shape:
  assumes "encrypt_each lib m rcp order peers = (peers', out, failed)"
  shows "fmdom peers' = fmdom peers" and "peers_proven lib ident peers \<Longrightarrow> peers_proven lib ident peers'"
    and "set (map fst out) \<union> set failed \<subseteq> {p. rcp p} \<inter> fset (fmdom peers)"
    and "\<And>q. \<not> rcp q \<Longrightarrow> fmlookup peers' q = fmlookup peers q"
proof -
  have "fmdom peers' = fmdom peers \<and> (peers_proven lib ident peers \<longrightarrow> peers_proven lib ident peers') \<and>
      set (map fst out) \<union> set failed \<subseteq> {p. rcp p} \<inter> fset (fmdom peers) \<and> (\<forall>q. \<not> rcp q \<longrightarrow> fmlookup peers' q = fmlookup peers q)"
    using assms
  proof (induction order arbitrary: peers peers' out failed)
    case (Cons p order)
    show ?case
    proof (cases "rcp p \<and> fmlookup peers p \<noteq> None")
      case False
      then show ?thesis using Cons by (auto split: option.splits if_splits)
    next
      case True
      then obtain ps where ps: "rcp p" "fmlookup peers p = Some ps" by auto
      obtain t r where e: "encrypt lib (ps_transport ps) m = (t, r)" by fastforce
      let ?m = "fmupd p (ps\<lparr> ps_transport := t \<rparr>) peers"
      obtain o1 f1 where rest: "encrypt_each lib m rcp order ?m = (peers', o1, f1)" "fst ` set out \<subseteq> insert p (fst ` set o1)"
          "set failed \<subseteq> insert p (set f1)"
        using Cons.prems ps e by (force split: prod.splits sum.splits)
      have p: "p |\<in>| fmdom peers" using ps(2) by (rule fmdomI)
      then have d: "fmdom ?m = fmdom peers" by (simp add: finsert_absorb)
      have "peers_proven lib ident peers \<longrightarrow> peers_proven lib ident ?m"
        using proven_peer_moves(1) [OF peers_provenD [OF _ ps(2)] e] by blast
      moreover have "set (map fst out) \<union> set failed \<subseteq> {p. rcp p} \<inter> fset (fmdom peers)"
        using Cons.IH [OF rest(1)] rest(2,3) ps(1) p unfolding d set_map by blast
      moreover have "\<forall>q. \<not> rcp q \<longrightarrow> fmlookup peers' q = fmlookup peers q" using Cons.IH [OF rest(1)] ps(1) by auto
      ultimately show ?thesis using Cons.IH [OF rest(1)] unfolding d by blast
    qed
  qed simp
  then show "fmdom peers' = fmdom peers" and "peers_proven lib ident peers \<Longrightarrow> peers_proven lib ident peers'"
    and "set (map fst out) \<union> set failed \<subseteq> {p. rcp p} \<inter> fset (fmdom peers)"
    and "\<And>q. \<not> rcp q \<Longrightarrow> fmlookup peers' q = fmlookup peers q"
    by blast+
qed

lemma send_each_shape:
  "send_each lib s out = (s', n, failed) \<Longrightarrow>
     ms_peers s' = ms_peers s \<and> ms_allowed s' = ms_allowed s \<and> set failed \<subseteq> fst ` set out \<and> n \<le> length out"
proof (induction out arbitrary: s s' n failed)
  case (Cons pj out)
  obtain p j where pj: "pj = (p, j)" by fastforce
  obtain s1 r where s1: "send_frame lib s j = (s1, r)" by fastforce
  obtain s2 k f where s2: "send_each lib s1 out = (s2, k, f)" by (metis prod_cases3)
  show ?case using Cons.IH [OF s2] Cons.prems s1 s2 send_frame_result [OF s1] by (auto simp: pj split: sum.splits)
qed simp

text \<open>The fan-out drops peers or advances the transports of recipients, nothing else.\<close>

lemma broadcast_shape:
  assumes "broadcast_to lib order s m rcp = (s', n)"
  shows "ms_allowed s' = ms_allowed s" and "fmdom (ms_peers s') |\<subseteq>| fmdom (ms_peers s)"
    and "peers_proven lib ident (ms_peers s) \<Longrightarrow> peers_proven lib ident (ms_peers s')"
    and "\<not> rcp q \<Longrightarrow> fmlookup (ms_peers s') q = fmlookup (ms_peers s) q"
proof -
  have "ms_allowed s' = ms_allowed s \<and> fmdom (ms_peers s') |\<subseteq>| fmdom (ms_peers s) \<and>
      (peers_proven lib ident (ms_peers s) \<longrightarrow> peers_proven lib ident (ms_peers s')) \<and>
      (\<not> rcp q \<longrightarrow> fmlookup (ms_peers s') q = fmlookup (ms_peers s) q)"
  proof (cases "ms_transport_failed s")
    case False
    obtain peers out failed where e: "encrypt_each lib m rcp order (ms_peers s) = (peers, out, failed)" by (metis prod_cases3)
    obtain s2 k failed2 where f: "send_each lib (s\<lparr> ms_peers := peers \<rparr>) out = (s2, k, failed2)" by (metis prod_cases3)
    note es = encrypt_each_shape [OF e] and ss = send_each_shape [OF f]
    have s': "s' = fold drop_peer (failed @ failed2) s2" using assms False e f by (simp add: broadcast_to_def)
    have look: "fmlookup (ms_peers s') p = (if p \<in> set (failed @ failed2) then None else fmlookup peers p)" for p
      unfolding s' drop_peers_fields using ss by simp
    have "fmdom (ms_peers s') |\<subseteq>| fmdom peers" by (auto simp: look fmlookup_dom_iff split: if_splits)
    moreover have "peers_proven lib ident peers \<longrightarrow> peers_proven lib ident (ms_peers s')" by (auto simp: peers_proven_def look split: if_splits)
    moreover have "q \<notin> set (failed @ failed2)" if "\<not> rcp q"
    proof -
      have "set failed \<union> set failed2 \<subseteq> Collect rcp" using es(3) ss by force
      then show ?thesis using that by auto
    qed
    ultimately show ?thesis using es(1,2) es(4) [of q] ss s' look [of q] by (simp del: fold_append)
  qed (use assms in \<open>simp add: broadcast_to_def\<close>)
  then show "ms_allowed s' = ms_allowed s" and "fmdom (ms_peers s') |\<subseteq>| fmdom (ms_peers s)"
    and "peers_proven lib ident (ms_peers s) \<Longrightarrow> peers_proven lib ident (ms_peers s')"
    and "\<not> rcp q \<Longrightarrow> fmlookup (ms_peers s') q = fmlookup (ms_peers s) q"
    by blast+
qed

lemma broadcast_inv:
  assumes "relay_inv lib ident s"
  shows "relay_inv lib ident (fst (broadcast_to lib order s m rcp))"
proof -
  obtain s' n where b: "broadcast_to lib order s m rcp = (s', n)" by fastforce
  show ?thesis using relay_inv_shrink [OF assms] broadcast_shape [OF b] assms by (simp add: b relay_inv_def)
qed

lemma replace_allowed_shape:
  assumes "replace_allowed s allowed = (s', evicted)"
  shows "ms_allowed s' = allowed" and "ms_ws s' = ms_ws s" and "ms_transport_failed s' = ms_transport_failed s"
    and "set evicted = fset (fmdom (ms_peers s)) - allowed" and "sorted evicted" and "distinct evicted"
    and "fmlookup (ms_peers s') q = (if q \<in> allowed then fmlookup (ms_peers s) q else None)"
proof -
  let ?ev = "sorted_list_of_fset (ffilter (\<lambda>p. p \<notin> allowed) (fmdom (ms_peers s)))"
  have s: "s' = (fold drop_peer ?ev s)\<lparr> ms_allowed := allowed \<rparr>" "evicted = ?ev"
    using assms by (auto simp: replace_allowed_def Let_def)
  show set: "set evicted = fset (fmdom (ms_peers s)) - allowed" by (auto simp: s)
  show "ms_allowed s' = allowed" "ms_ws s' = ms_ws s" "ms_transport_failed s' = ms_transport_failed s" by (simp_all add: s(1))
  show "sorted evicted" "distinct evicted" by (simp_all add: s(2) sorted_list_of_fset.rep_eq)
  show "fmlookup (ms_peers s') q = (if q \<in> allowed then fmlookup (ms_peers s) q else None)"
    using set by (auto simp: s dest: fmdom_notD)
qed

lemma replace_allowed_inv:
  assumes "relay_inv lib ident s"
  shows "relay_inv lib ident (fst (replace_allowed s allowed))"
proof -
  obtain s' ev where r: "replace_allowed s allowed = (s', ev)" by fastforce
  note sh = replace_allowed_shape [OF r]
  have dom: "fmdom (ms_peers s') |\<subseteq>| fmdom (ms_peers s)" by (auto simp: fmlookup_dom_iff sh(7) split: if_splits)
  have "fset (fmdom (ms_peers s')) \<subseteq> allowed" by (auto simp: fmlookup_dom_iff sh(7) split: if_splits)
  moreover have "peers_proven lib ident (ms_peers s')" using assms by (auto simp: relay_inv_def peers_proven_def sh(7) split: if_splits)
  ultimately show ?thesis using assms fcard_mono [OF dom] by (simp add: r relay_inv_def sh(1))
qed

section \<open>Runs of a session\<close>

datatype session_event =
    Se_Authenticate nat
  | Se_Process nat
  | Se_Send string bytes
  | Se_Broadcast "string list" bytes "string \<Rightarrow> bool"
  | Se_Replace "string set"

fun session_step :: "('w, 'h, 't) relay_lib \<Rightarrow> agent_identity \<Rightarrow> ('w, 't) multi_peer_session \<Rightarrow> session_event
    \<Rightarrow> ('w, 't) multi_peer_session \<times> (session_error + poll) list" where
  "session_step lib ident s (Se_Authenticate n) = (fst (authenticate lib ident s n), [])"
| "session_step lib ident s (Se_Process n) = (case process_next lib ident s n of (s', r) \<Rightarrow> (s', [r]))"
| "session_step lib ident s (Se_Send p m) = (fst (send_to lib s p m), [])"
| "session_step lib ident s (Se_Broadcast order m rcp) = (fst (broadcast_to lib order s m rcp), [])"
| "session_step lib ident s (Se_Replace allowed) = (fst (replace_allowed s allowed), [])"

lemma authenticate_fields:
  "ms_peers (fst (authenticate lib ident s n)) = ms_peers s \<and> ms_allowed (fst (authenticate lib ident s n)) = ms_allowed s"
  by (auto simp: authenticate_def or_return_def Let_def dest: send_frame_result
      split: prod.splits sum.splits recv_outcome.splits relay_frame.splits)

interpretation relay: event_machine "session_step lib ident" "session_new w allowed" "relay_inv lib ident" "\<lambda>_. True"
  for lib :: "('w, 'h, 't) relay_lib" and ident w allowed
proof
  show "relay_inv lib ident (session_new w allowed)" by (auto simp: relay_inv_def session_new_def fcard.rep_eq)
  fix s :: "('w, 't) multi_peer_session" and e
  assume "relay_inv lib ident s"
  then show "relay_inv lib ident (fst (session_step lib ident s e))"
    using authenticate_fields [of lib ident s]
    by (cases e) (auto simp: relay_inv_def [of lib ident "fst (authenticate lib ident s _)"] relay_inv_def [of lib ident s]
        process_next_inv send_to_inv broadcast_inv replace_allowed_inv split: prod.splits dest!: arg_cong [where f = fst])
qed

section \<open>Isolation and the latch\<close>

text \<open>The peer a frame is about.\<close>

fun frame_subject :: "relay_frame \<Rightarrow> string option" where
  "frame_subject (F_Presence p _) = Some p"
| "frame_subject (F_Env _ _ src) = src"
| "frame_subject _ = None"

lemma bootstrap_other:
  "q \<noteq> p \<Longrightarrow> fmlookup (ms_peers (fst (bootstrap_peer lib ident s p m))) q = fmlookup (ms_peers s) q"
proof -
  assume q: "q \<noteq> p"
  obtain s' r where b: "bootstrap_peer lib ident s p m = (s', r)" by fastforce
  show ?thesis
  proof (cases r)
    case (Inl e)
    then show ?thesis using b bootstrap_refused by (metis fst_conv)
  next
    case (Inr sid)
    then obtain ps where "ms_peers s' = fmupd p ps (ms_peers s)" using b bootstrap_established [of lib ident s p m s' sid] by blast
    then show ?thesis using b q by simp
  qed
qed

lemma process_env_other:
  assumes "src \<noteq> Some q"
  shows "fmlookup (ms_peers (fst (process_env lib ident s payload src))) q = fmlookup (ms_peers s) q"
proof (cases src)
  case (Some p)
  then have "q \<noteq> p" using assms by simp
  have "fmlookup (ms_peers s') q = fmlookup (ms_peers s) q" if "bootstrap_peer lib ident s p m = (s', r)" for m s' r
    using bootstrap_other [OF \<open>q \<noteq> p\<close>, of lib ident s m] that by simp
  then show ?thesis using \<open>q \<noteq> p\<close> Some by (auto simp: process_env_def split: option.splits sum.splits prod.splits)
qed (simp add: process_env_def)

lemma process_frame_other:
  "frame_subject f \<noteq> Some q \<Longrightarrow> fmlookup (ms_peers (fst (process_frame lib ident s f))) q = fmlookup (ms_peers s) q"
  by (cases f) (auto simp: process_frame_def process_env_other)

lemma send_to_other: "q \<noteq> p \<Longrightarrow> fmlookup (ms_peers (fst (send_to lib s p m))) q = fmlookup (ms_peers s) q"
  by (auto simp: send_to_def or_return_def Let_def dest: send_frame_result split: option.splits sum.splits prod.splits)

lemma process_env_plaintext:
  "snd (process_env lib ident s payload src) = Inr (Plaintext p pt) \<Longrightarrow>
     src = Some p \<and> (\<exists>ps c t. fmlookup (ms_peers s) p = Some ps \<and> decode_env_payload (wire lib) payload = Inr c \<and>
        decrypt lib (ps_transport ps) c = (t, Inr pt))"
  by (auto simp: process_env_def split: option.splits sum.splits prod.splits if_splits)

lemma process_frame_plaintext:
  "snd (process_frame lib ident s f) = Inr (Plaintext p pt) \<Longrightarrow>
     \<exists>ps c t. fmlookup (ms_peers s) p = Some ps \<and> decrypt lib (ps_transport ps) c = (t, Inr pt)"
  by (cases f) (auto simp: process_frame_def handle_error_frame_def split: if_splits dest!: process_env_plaintext)

text \<open>Nothing moves on the socket once a send has failed.\<close>

lemma latched_step:
  assumes "ms_transport_failed s" and "\<forall>n. e \<noteq> Se_Authenticate n"
  shows "ms_transport_failed (fst (session_step lib ident s e)) \<and> ms_ws (fst (session_step lib ident s e)) = ms_ws s \<and>
    list_all isl (snd (session_step lib ident s e))"
proof (cases e)
  case (Se_Replace allowed)
  obtain s' ev where "replace_allowed s allowed = (s', ev)" by fastforce
  then show ?thesis using replace_allowed_shape [of s allowed s' ev] assms Se_Replace by simp
qed (use assms in \<open>auto simp: process_next_def send_to_def broadcast_to_def\<close>)

lemma latched_run:
  "ms_transport_failed s \<Longrightarrow> list_all (\<lambda>e. \<forall>n. e \<noteq> Se_Authenticate n) es \<Longrightarrow>
     ms_ws (fst (run (session_step lib ident) s es)) = ms_ws s \<and> list_all isl (snd (run (session_step lib ident) s es))"
proof (induction es arbitrary: s)
  case (Cons e es)
  let ?s = "fst (session_step lib ident s e)"
  note st = latched_step [OF Cons.prems(1), of e lib ident]
  have "snd (run (session_step lib ident) s (e # es)) = snd (session_step lib ident s e) @ snd (run (session_step lib ident) ?s es)"
    by (simp add: Let_def split: prod.splits)
  then show ?case using Cons.IH [of ?s] Cons.prems(2) st by (simp add: fst_run_Cons del: run.simps)
qed simp

text \<open>A refusal for admission or identity happens before anything is sent.\<close>

lemma bootstrap_identity_refusal:
  assumes "bootstrap_peer lib ident s src m = (s', Inl reason)" and "reason \<noteq> Refuse_Handshake"
  shows "s' = s"
  using assms unfolding bootstrap_peer_def
  by (auto simp: or_return_def Let_def split: sum.splits prod.splits if_splits elim!: map_err.elims)

lemma process_env_refusal:
  assumes "process_env lib ident s payload src = (s', Inr (PeerRefused p reason))"
  shows "ms_peers s' = ms_peers s" and "reason \<noteq> Refuse_Handshake \<Longrightarrow> s' = s"
  using assms
  by (auto simp: process_env_def dest: bootstrap_refused bootstrap_identity_refusal
      split: option.splits sum.splits prod.splits if_splits)

lemma process_frame_refusal:
  assumes "process_frame lib ident s f = (s', Inr (PeerRefused p reason))"
  shows "ms_peers s' = ms_peers s" and "reason \<noteq> Refuse_Handshake \<Longrightarrow> s' = s"
  using assms by (cases f; auto simp: process_frame_def handle_error_frame_def dest: process_env_refusal split: if_splits)+

section \<open>A concrete relay\<close>

text \<open>A scripted socket (texts to come, texts sent) and a Noise stand-in that counts its steps.\<close>

definition demo_peer :: string where "demo_peer = replicate 32 CHR ''P''"

definition demo_relay :: "(string list \<times> string list, nat, nat) relay_lib" where
  "demo_relay =
     \<lparr> wire = \<lparr> base64_standard_decode = (\<lambda>s. Some (as_bytes s)), base64_url_decode = (\<lambda>s. Some (as_bytes s)),
         base64_url_encode = (\<lambda>bs. map (\<lambda>b. char_of (unat b)) bs), json_from_slice = (\<lambda>_. None), json_to_vec = (\<lambda>_. None),
         json_as_f64 = (\<lambda>_. None), sha256 = drop 12, ed25519_point = (\<lambda>_. True), verify_strict = (\<lambda>key _ sig. take 32 sig = key) \<rparr>,
       ws_send_text = (\<lambda>(i, out) j. ((i, out @ [j]), Inr ())),
       ws_recv_text_within = (\<lambda>(i, out) _. case i of [] \<Rightarrow> (([], out), Inr Got_Closed) | t # ts \<Rightarrow> ((ts, out), Inr (Got_Frame t))),
       ws_send_capacity = (\<lambda>_. None),
       frame_from_str = (\<lambda>t. if t = ''peer'' then Some (F_Env ''me'' ''abc'' (Some demo_peer))
                            else if t = ''other'' then Some (F_Env ''me'' ''abc'' (Some ''unlisted'')) else None),
       frame_to_string = (\<lambda>_. Some ''reply''),
       proof_from_slice = (\<lambda>_. Some \<lparr> proof_v = 1, identity_public_key = demo_peer, id_sig = demo_peer @ demo_peer \<rparr>),
       snow_build_responder = (\<lambda>_. Some 0), snow_read = (\<lambda>h m. (h + 1, Some m)), snow_write = (\<lambda>h m. (h + 1, Some m)),
       snow_hash = (\<lambda>h. [65]), snow_remote_static = (\<lambda>h. if h = 0 then None else Some (replicate 32 7)),
       snow_into_transport = Some, snow_t_write = (\<lambda>t m. (t + 1, Some m)), snow_t_read = (\<lambda>t m. (t + 1, Some m)) \<rparr>"

definition demo_identity :: agent_identity where
  "demo_identity = \<lparr> identity_public_raw = replicate 32 1, identity_sign = (\<lambda>m. replicate 64 2), agreement_private_bytes = replicate 32 3 \<rparr>"

definition demo_session :: "(string list \<times> string list, nat) multi_peer_session" where
  "demo_session = session_new ([''peer'', ''peer'', ''other''], []) {demo_peer}"

definition demo_established :: "(string list \<times> string list, nat) multi_peer_session" where
  "demo_established = fst (run (session_step demo_relay demo_identity) demo_session [Se_Process 1])"

lemma demo_peer_bytes:
  "as_bytes demo_peer = replicate 32 80" "as_bytes (demo_peer @ demo_peer) = replicate 64 80" "as_bytes ''abc'' = [97, 98, 99]"
proof -
  show "as_bytes (demo_peer @ demo_peer) = replicate 64 80"
    by (simp add: demo_peer_def as_bytes_def replicate_add [symmetric])
qed (simp_all add: demo_peer_def as_bytes_def)

lemma demo_chars: "char_of (65 :: nat) = CHR ''A''" "char_of (80 :: nat) = CHR ''P''"
  by code_simp+

lemma demo_key_id: "key_id_from_identity_public (wire demo_relay) (replicate 32 80) = demo_peer"
  by (simp add: key_id_from_identity_public_def demo_relay_def ED25519_SPKI_PREFIX_def demo_peer_def demo_chars)

lemma demo_proof: "verify_client_identity_proof demo_relay [97, 98, 99] rs = Inr demo_peer"
proof -
  have "decode_exact (wire demo_relay) 32 demo_peer w = Inr (replicate 32 80)"
      "decode_exact (wire demo_relay) 64 (demo_peer @ demo_peer) w = Inr (replicate 64 80)" for w
    by (simp_all add: decode_exact_def demo_relay_def demo_peer_bytes)
  moreover have "take 32 (replicate 64 (80 :: u8)) = replicate 32 80" by (simp add: take_replicate)
  moreover have "proof_from_slice demo_relay m = Some \<lparr> proof_v = 1, identity_public_key = demo_peer, id_sig = demo_peer @ demo_peer \<rparr>"
      "ed25519_point (wire demo_relay) k" "verify_strict (wire demo_relay) k m g \<longleftrightarrow> take 32 g = k" for m k g
    by (simp_all add: demo_relay_def)
  ultimately show ?thesis
    by (simp add: verify_client_identity_proof_def bail_if_def demo_key_id MAX_CLIENT_IDENTITY_PROOF_LEN_def CLIENT_IDENTITY_PROOF_VERSION_def)
qed

text \<open>The scripted library, call by call.\<close>

lemma demo_calls:
  "ws_send_text demo_relay (i, out) j = ((i, out @ [j]), Inr ())"
  "ws_recv_text_within demo_relay (x # xs, out) n = ((xs, out), Inr (Got_Frame x))"
  "parse_frame demo_relay ''peer'' = Inr (F_Env ''me'' ''abc'' (Some demo_peer))"
  "decode_env_payload (wire demo_relay) ''abc'' = Inr [97, 98, 99]"
  "to_json demo_relay f = Inr ''reply''"
  "responder_new demo_relay k = Inr 0" "read_msg1 demo_relay h m = (h + 1, Inr m)" "write_msg2 demo_relay h m = (h + 1, Inr m)"
  "remote_static demo_relay (Suc h) = Some (replicate 32 7)" "into_transport demo_relay h = Inr h"
  "base64_url_encode (wire demo_relay) (snow_hash demo_relay h) = ''A''"
  "encrypt demo_relay t m = (t + 1, Inr m)" "decrypt demo_relay t m = (t + 1, Inr m)"
  by (simp_all add: demo_relay_def parse_frame_def decode_env_payload_def to_json_def responder_new_def read_msg1_def write_msg2_def
      remote_static_def into_transport_def encrypt_def decrypt_def demo_peer_bytes MAX_FRAME_BYTES_def MAX_NOISE_MSG_def demo_chars)

lemmas demo_eval = session_new_def process_next_def process_frame_def process_env_def bootstrap_peer_def or_return_def
  send_frame_def demo_proof demo_calls demo_peer_bytes fcard.rep_eq MAX_PEERS_def Let_def numeral_2_eq_2

lemma demo_established_eq:
  "demo_established = \<lparr> ms_ws = ([''peer'', ''other''], [''reply'']), ms_allowed = {demo_peer},
     ms_peers = fmupd demo_peer \<lparr> ps_transport = 2, ps_session_id = ''A'' \<rparr> fmempty, ms_transport_failed = False \<rparr>"
  by (simp add: demo_established_def demo_session_def demo_eval)

section \<open>Properties\<close>

text \<open>C8: whatever frames the relay forwards and whatever the station sends or re-authorises, a session never has more than
  eight peers, every established peer is on the current admission list, and each one is named by the key id whose holder signed
  the static key of the very handshake that produced its transport and session id.\<close>

theorem relay_peers_are_proven:
  "let s = fst (run (session_step lib ident) (session_new w allowed) es) in
     established_peers s \<subseteq> ms_allowed s \<and> card (established_peers s) \<le> 8 \<and>
     (\<forall>p. case fmlookup (ms_peers s) p of None \<Rightarrow> p \<notin> established_peers s | Some ps \<Rightarrow> proven_peer lib ident p ps)"
proof -
  let ?s = "fst (run (session_step lib ident) (session_new w allowed) es)"
  have "relay_inv lib ident ?s" by (rule relay.inv_run) (simp add: list_all_iff)
  then show ?thesis
    by (auto simp: relay_inv_def established_peers_def fcard.rep_eq MAX_PEERS_def Let_def fmlookup_dom_iff
        dest: peers_provenD split: option.splits)
qed

text \<open>C36: plaintext that a session attributes to a peer was decrypted by a transport derived from a handshake whose static
  key the holder of that peer's identity key signed, and the peer is on the admission list.\<close>

theorem plaintext_is_authentic:
  assumes "s = fst (run (session_step lib ident) (session_new w allowed) es)"
    and "snd (process_next lib ident s n) = Inr (Plaintext p pt)"
  shows "\<exists>ps c t. fmlookup (ms_peers s) p = Some ps \<and> p \<in> ms_allowed s \<and> proven_peer lib ident p ps \<and>
           decrypt lib (ps_transport ps) c = (t, Inr pt)"
proof -
  have inv: "relay_inv lib ident s" unfolding assms(1) by (rule relay.inv_run) (simp add: list_all_iff)
  have "\<exists>ps c t. fmlookup (ms_peers s) p = Some ps \<and> decrypt lib (ps_transport ps) c = (t, Inr pt)"
  proof (rule process_next_cases [of lib ident s n])
    fix w' t f
    assume "process_next lib ident s n = process_frame lib ident (s\<lparr> ms_ws := w' \<rparr>) f"
    then show ?thesis using assms(2) process_frame_plaintext [of lib ident "s\<lparr> ms_ws := w' \<rparr>" f p pt] by simp
  qed (use assms(2) in simp)
  then obtain ps c t where ps: "fmlookup (ms_peers s) p = Some ps" and d: "decrypt lib (ps_transport ps) c = (t, Inr pt)" by blast
  have "p \<in> ms_allowed s" using inv fmdomI [OF ps] by (auto simp: relay_inv_def)
  then show ?thesis using ps d relay_inv_provenD [OF inv ps] by blast
qed

theorem plaintext_is_authentic_witness:
  "\<exists>ps c t. fmlookup (ms_peers demo_established) demo_peer = Some ps \<and> demo_peer \<in> ms_allowed demo_established \<and>
     proven_peer demo_relay demo_identity demo_peer ps \<and> decrypt demo_relay (ps_transport ps) c = (t, Inr (as_bytes ''abc''))"
proof (rule plaintext_is_authentic [where es = "[Se_Process 1]" and n = 1 and w = "([''peer'', ''peer'', ''other''], [])" and allowed = "{demo_peer}"])
  show "demo_established = fst (run (session_step demo_relay demo_identity) (session_new ([''peer'', ''peer'', ''other''], []) {demo_peer}) [Se_Process 1])"
    by (simp add: demo_established_def demo_session_def)
  show "snd (process_next demo_relay demo_identity demo_established 1) = Inr (Plaintext demo_peer (as_bytes ''abc''))"
    by (simp add: demo_established_eq demo_eval)
qed

text \<open>A peer's state is touched only by a frame about it, a message sent to it or a fan-out that selects it: handling any
  other frame, sending to another peer or broadcasting past it leaves its transport and session id as they were.\<close>

theorem peers_are_isolated:
  "(frame_subject f \<noteq> Some q \<longrightarrow> fmlookup (ms_peers (fst (process_frame lib ident s f))) q = fmlookup (ms_peers s) q) \<and>
   (p \<noteq> q \<longrightarrow> fmlookup (ms_peers (fst (send_to lib s p m))) q = fmlookup (ms_peers s) q) \<and>
   (\<not> rcp q \<longrightarrow> fmlookup (ms_peers (fst (broadcast_to lib order s m rcp))) q = fmlookup (ms_peers s) q)"
  using process_frame_other [of f q lib ident s] send_to_other [of q p lib s m]
    broadcast_shape(4) [of lib order s m rcp "fst (broadcast_to lib order s m rcp)" "snd (broadcast_to lib order s m rcp)" q]
  by auto

theorem peers_are_isolated_witness:
  "fmlookup (ms_peers (fst (process_frame demo_relay demo_identity demo_established (F_Presence ''x'' ''down'')))) demo_peer =
     Some \<lparr> ps_transport = 2, ps_session_id = ''A'' \<rparr>"
proof -
  have "frame_subject (F_Presence ''x'' ''down'') \<noteq> Some demo_peer" by (simp add: demo_peer_def numeral_eq_Suc)
  then have "fmlookup (ms_peers (fst (process_frame demo_relay demo_identity demo_established (F_Presence ''x'' ''down'')))) demo_peer =
      fmlookup (ms_peers demo_established) demo_peer"
    using peers_are_isolated by blast
  then show ?thesis by (simp add: demo_established_eq)
qed

text \<open>Once a send on the shared socket has failed with a transport error, no later operation of the session touches the
  socket and every poll returns an error, whatever is asked of it.\<close>

theorem transport_failure_is_final:
  assumes "ms_transport_failed s" and "list_all (\<lambda>e. \<forall>n. e \<noteq> Se_Authenticate n) es"
  shows "ms_ws (fst (run (session_step lib ident) s es)) = ms_ws s \<and> list_all isl (snd (run (session_step lib ident) s es))"
  by (rule latched_run) (rule assms)+

theorem transport_failure_is_final_witness:
  "ms_ws (fst (run (session_step demo_relay demo_identity) (demo_established\<lparr> ms_transport_failed := True \<rparr>)
       [Se_Process 1, Se_Send demo_peer [1], Se_Broadcast [demo_peer] [1] (\<lambda>_. True), Se_Replace {}, Se_Process 1])) = ms_ws demo_established"
  using transport_failure_is_final [of "demo_established\<lparr> ms_transport_failed := True \<rparr>"
      "[Se_Process 1, Se_Send demo_peer [1], Se_Broadcast [demo_peer] [1] (\<lambda>_. True), Se_Replace {}, Se_Process 1]" demo_relay demo_identity]
  by (simp del: run.simps)

text \<open>A peer refused for admission, capacity or identity leaves the session exactly as the receipt of its frame found it:
  no peer is added or removed and nothing is sent. A refusal of any kind adds no peer.\<close>

theorem refused_peers_cost_nothing:
  assumes "process_next lib ident s n = (s', Inr (PeerRefused p reason))"
  shows "ms_peers s' = ms_peers s \<and> (reason = Refuse_Handshake \<or> s' = s\<lparr> ms_ws := fst (ws_recv_text_within lib (ms_ws s) n) \<rparr>)"
proof (rule process_next_cases [of lib ident s n])
  fix w t f
  assume "ws_recv_text_within lib (ms_ws s) n = (w, Inr (Got_Frame t))" "process_next lib ident s n = process_frame lib ident (s\<lparr> ms_ws := w \<rparr>) f"
  with assms process_frame_refusal [of lib ident "s\<lparr> ms_ws := w \<rparr>" f s' p reason] show ?thesis by auto
qed (use assms in simp)

theorem refused_peers_cost_nothing_witness:
  "ms_peers (fst (process_next demo_relay demo_identity (demo_established\<lparr> ms_ws := ([''other''], []) \<rparr>) 1)) = ms_peers demo_established"
proof -
  let ?s = "demo_established\<lparr> ms_ws := ([''other''], []) \<rparr>"
  have "demo_peer \<noteq> ''unlisted''" by (simp add: demo_peer_def numeral_eq_Suc)
  moreover have "parse_frame demo_relay ''other'' = Inr (F_Env ''me'' ''abc'' (Some ''unlisted''))"
    by (simp add: parse_frame_def demo_relay_def MAX_FRAME_BYTES_def)
  ultimately have "snd (process_next demo_relay demo_identity ?s 1) = Inr (PeerRefused ''unlisted'' NotAllowListed)"
    by (simp add: demo_established_eq demo_eval)
  then have "process_next demo_relay demo_identity ?s 1 = (fst (process_next demo_relay demo_identity ?s 1), Inr (PeerRefused ''unlisted'' NotAllowListed))"
    by (metis prod.collapse)
  from refused_peers_cost_nothing [OF this] show ?thesis by simp
qed

text \<open>The exception is real: when the handshake reply has gone out and the transport then cannot be entered, the peer is
  refused although a reply was sent.\<close>

lemma refusal_after_reply:
  "process_next (demo_relay\<lparr> snow_into_transport := (\<lambda>_. None) \<rparr>) demo_identity demo_session 1 =
     (demo_session\<lparr> ms_ws := ([''peer'', ''other''], [''reply'']) \<rparr>, Inr (PeerRefused demo_peer Refuse_Handshake))"
proof -
  let ?lib = "demo_relay\<lparr> snow_into_transport := (\<lambda>_. None) \<rparr>"
  have same: "parse_frame ?lib = parse_frame demo_relay" "to_json ?lib = to_json demo_relay" "responder_new ?lib = responder_new demo_relay"
      "read_msg1 ?lib = read_msg1 demo_relay" "write_msg2 ?lib = write_msg2 demo_relay" "remote_static ?lib = remote_static demo_relay"
      "verify_client_identity_proof ?lib = verify_client_identity_proof demo_relay" "into_transport ?lib h = Inl Noise_Transport" for h
    by (simp_all add: fun_eq_iff parse_frame_def to_json_def responder_new_def read_msg1_def write_msg2_def remote_static_def
        verify_client_identity_proof_def into_transport_def)
  show ?thesis by (simp add: demo_session_def demo_eval same)
qed

text \<open>Replacing the admission list evicts exactly the established peers it no longer holds, reports them sorted without
  repetition, keeps every other peer's transport, and leaves the socket alone; the next envelope from an evicted peer is refused
  as not listed.\<close>

theorem replace_allowed_evicts_exactly:
  assumes "replace_allowed s allowed = (s', evicted)"
  shows "set evicted = established_peers s - allowed \<and> sorted evicted \<and> distinct evicted \<and>
           established_peers s' = established_peers s \<inter> allowed \<and>
           (\<forall>q \<in> allowed. fmlookup (ms_peers s') q = fmlookup (ms_peers s) q) \<and> ms_ws s' = ms_ws s \<and>
           (\<forall>p \<in> set evicted. process_env lib ident s' payload (Some p) = (s', Inr (PeerRefused p NotAllowListed)))"
proof -
  note sh = replace_allowed_shape [OF assms]
  have dom: "established_peers s' = established_peers s \<inter> allowed"
    by (auto simp: established_peers_def fmlookup_dom_iff sh(7) split: if_splits)
  have "process_env lib ident s' payload (Some p) = (s', Inr (PeerRefused p NotAllowListed))" if "p \<in> set evicted" for p
    using that by (simp add: sh process_env_def)
  then show ?thesis using sh dom by (simp add: established_peers_def)
qed

theorem replace_allowed_evicts_exactly_witness:
  "set (snd (replace_allowed demo_established {})) = established_peers demo_established - {} \<and>
   established_peers (fst (replace_allowed demo_established {})) = {}"
  using replace_allowed_evicts_exactly [of demo_established "{}" "fst (replace_allowed demo_established {})" "snd (replace_allowed demo_established {})" demo_relay demo_identity "[]"]
  by simp

text \<open>The early test on the length of the text never rejects a payload that the limit on the decoded bytes would let
  through: for a decoder with the length law of unpadded base64, a payload that decodes is accepted exactly when it decodes to at
  most 65535 bytes.\<close>

theorem payload_limit_is_exact:
  assumes law: "\<And>t bs. base64_url_decode lib t = Some bs \<Longrightarrow> length t = (4 * length bs + 2) div 3"
    and "base64_url_decode lib payload = Some bs"
  shows "(decode_env_payload lib payload = Inr bs \<longleftrightarrow> length bs \<le> 65535) \<and> (isl (decode_env_payload lib payload) \<longleftrightarrow> 65535 < length bs)"
proof -
  have "length payload = (4 * length bs + 2) div 3" by (rule law) (rule assms(2))
  then have "length bs \<le> 65535 \<Longrightarrow> length payload \<le> 87384" by linarith
  then show ?thesis using assms(2) by (auto simp: decode_env_payload_def MAX_NOISE_MSG_def Let_def)
qed

text \<open>A decoder with that law: every text whose length is possible decodes to as many zero bytes.\<close>

definition zero_decoder :: wire_lib where
  "zero_decoder = (wire demo_relay)\<lparr> base64_url_decode := (\<lambda>t. if length t mod 4 = 1 then None else Some (replicate (3 * length t div 4) 0)) \<rparr>"

lemma zero_decoder_law: "base64_url_decode zero_decoder t = Some bs \<Longrightarrow> length t = (4 * length bs + 2) div 3"
proof -
  assume "base64_url_decode zero_decoder t = Some bs"
  then have bs: "length t mod 4 \<noteq> 1" "length bs = 3 * length t div 4" by (auto simp: zero_decoder_def split: if_splits)
  obtain k r where k: "length t = 4 * k + r" "r = length t mod 4" by (metis div_mult_mod_eq mult.commute)
  have "(12 * k + 6) div 4 = 3 * k + 1" "(12 * k + 9) div 4 = 3 * k + 2" by (rule div_nat_eqI; simp)+
  moreover have "(12 * k + 2) div 3 = 4 * k" "(12 * k + 6) div 3 = 4 * k + 2" "(12 * k + 10) div 3 = 4 * k + 3" by (rule div_nat_eqI; simp)+
  moreover have "r = 0 \<or> r = 2 \<or> r = 3" using bs(1) k(2) by auto
  ultimately show ?thesis using bs(2) k(1) by (elim disjE) (simp_all add: algebra_simps)
qed

theorem payload_limit_is_exact_witness:
  "decode_env_payload zero_decoder ''AAAA'' = Inr [0, 0, 0] \<longleftrightarrow> length [0 :: u8, 0, 0] \<le> 65535"
proof -
  have "base64_url_decode zero_decoder ''AAAA'' = Some (replicate 3 0)" by (simp add: zero_decoder_def)
  also have "replicate 3 (0 :: u8) = [0, 0, 0]" by (simp only: numeral_3_eq_3 replicate.simps)
  finally have "base64_url_decode zero_decoder ''AAAA'' = Some [0, 0, 0]" .
  from payload_limit_is_exact [OF zero_decoder_law this] show ?thesis by blast
qed

text \<open>A client identity proof is accepted exactly when it is present and at most a kilobyte, parses as version 1, carries a
  32-byte Ed25519 point and a 64-byte signature, and that key signed the pairing tag followed by the static key the handshake
  authenticated; the identity it proves is the key id of that key.\<close>

theorem identity_proof_accepted_iff:
  "verify_client_identity_proof lib payload rs = Inr kid \<longleftrightarrow>
     (\<exists>p pub sig. payload \<noteq> [] \<and> length payload \<le> 1024 \<and> proof_from_slice lib payload = Some p \<and> proof_v p = 1 \<and>
        base64_url_decode (wire lib) (identity_public_key p) = Some pub \<and> length pub = 32 \<and>
        base64_url_decode (wire lib) (id_sig p) = Some sig \<and> length sig = 64 \<and> ed25519_point (wire lib) pub \<and>
        verify_strict (wire lib) pub (domain_sep IDSIG_TAG rs) sig \<and> kid = key_id_from_identity_public (wire lib) pub)"
proof -
  have [simp]: "decode_exact l n t w = Inr bs \<longleftrightarrow> base64_url_decode l t = Some bs \<and> length bs = n" for l n t w bs
    by (auto simp: decode_exact_def result_simps split: if_splits)
  show ?thesis
    by (auto simp: verify_client_identity_proof_def result_simps MAX_CLIENT_IDENTITY_PROOF_LEN_def CLIENT_IDENTITY_PROOF_VERSION_def not_less)
qed

end
