(* ===== verification/Station_Agent.thy ===== *)
theory Station_Agent
  imports Capability Control Relay_Session Slot Policy
begin

text \<open>
  The station agent, \<^verbatim>\<open>pancetta/src/coordinator/station_agent/mod.rs\<close>: the context shared by all peers of a relay
  session (arm, allow lists, per-peer capabilities, the controller), the dispatch of control actions, the two-step arming
  with its re-check under the arm lock, the authorisation refresh of the polling task, eviction, expiry, and one turn of
  the session loop. What the agent asks of its surroundings while handling one frame (clock samples, the iteration order
  of its maps, whether the inboxes take a message, what the transmitter is doing) is the record \<open>agent_env\<close>; the audit log
  is the list of records written. The gate the transmitter consults (\<^verbatim>\<open>coordinator/tx.rs\<close>, \<open>ArmSnapshot\<close>) closes the theory.
\<close>

section \<open>Data\<close>

record peer_auth =
  pa_scopes :: "string list"
  pa_exp_ms :: int
  pa_jti :: string

record owed_qso_cleanup =
  oc_controller :: string
  oc_failed_attempts :: nat

record arm_context =
  ac_arm :: arm_state
  ac_poisoned :: bool
  ac_split_tx_hz :: nat
  ac_client_keys :: "(string, bytes) fmap"
  ac_tx_allow_list :: "string set"
  ac_allow_poisoned :: bool
  ac_tx_arm_allow_list :: "string set"
  ac_revoked_jtis :: "string set"
  ac_seen_jtis :: "string set"
  ac_audit :: "audit_event list"
  ac_peers :: "(string, peer_auth option) fmap"
  ac_controller :: "string option"
  ac_cleanup_owed :: "owed_qso_cleanup option"
  ac_revocation_pending :: bool
  ac_authz_generation :: nat
  ac_generation_seen :: nat

datatype server_event = ControlState bool bool | ServerError string string

record peer_send =
  send_target :: string
  send_event :: server_event

datatype qso_bus_message =
    StartQso string nat "slot_parity option" bool "string option"
  | RespondToCaller string nat "slot_parity option" response_step "rat option" bool "string option"
  | Qso_StartCq nat "slot_parity option" bool "string option"
  | Qso_StopCq
  | RemoteControllerChanged string

datatype bus_message =
    Rig_SetFrequency nat nat
  | Rig_SetSplit bool nat
  | Split_Status nat
  | To_Qso qso_bus_message

text \<open>An edge of the identity provider's authorisation list, as far as the poll reads it.\<close>

record authorization_edge =
  ae_agent_key_id :: string
  ae_client_key_id :: string
  ae_delegated_by :: "string option"

text \<open>The atomic steps of the tasks that change authorisation while the session runs.\<close>

datatype authz_op =
    Publish_Tx_Arm "string set" int
  | Publish_Allow "string set"
  | Publish_Keys "(string, bytes) fmap"
  | Bump_Generation
  | Revoke_Tx_Arm "string list" int
  | Revoke_Allow "string list"

record agent_env =
  en_clock :: "nat \<Rightarrow> arm_time"
  en_send_clock :: "nat \<Rightarrow> nat \<Rightarrow> int"
  en_feed_clock :: "nat \<Rightarrow> string \<Rightarrow> int"
  en_iter :: "string fset \<Rightarrow> string list"
  en_between :: "authz_op list"
  en_ptt_active :: bool
  en_gain_tx_gate :: u64
  en_active_qsos :: "string option list option"
  en_cleanup_accepted :: bool
  en_qso_accepted :: bool
  en_split_accepted :: bool
  en_as_f32 :: "rat \<Rightarrow> rat"
  en_f64_display :: "rat \<Rightarrow> string"
  en_frame_bytes :: "server_event \<Rightarrow> bytes option"
  en_flush_accepted :: bool
  en_shutdown :: bool

section \<open>Conversions\<close>

text \<open>\<open>x.max(0.0) as u64\<close> and \<open>vfo.clamp(0, 255) as u8\<close>.\<close>

definition max0_as_u64 :: "rat \<Rightarrow> nat" where
  "max0_as_u64 x = nat (min (2 ^ 64 - 1) \<lfloor>max 0 x\<rfloor>)"

definition clamp_u8 :: "int \<Rightarrow> nat" where
  "clamp_u8 x = nat (max 0 (min 255 x))"

fun parse_dx_parity :: "string option \<Rightarrow> slot_parity option" where
  "parse_dx_parity None = None"
| "parse_dx_parity (Some s) = (if s = ''even'' then Some Even else if s = ''odd'' then Some Odd else None)"

definition parse_response_step :: "string \<Rightarrow> response_step" where
  "parse_response_step s =
     (if s = ''report'' then Report_Step else if s = ''reportAck'' then ReportAck_Step else if s = ''rr73'' then Rr73_Step
      else if s = ''seventyThree'' then SeventyThree_Step else Grid_Step)"

fun tx_kind_to_qso_message :: "(rat \<Rightarrow> rat) \<Rightarrow> tx_kind \<Rightarrow> string \<Rightarrow> qso_bus_message" where
  "tx_kind_to_qso_message as_f32 (CallStation call hz parity) peer =
     StartQso call (max0_as_u64 hz) (parse_dx_parity parity) True (Some peer)"
| "tx_kind_to_qso_message as_f32 (AnswerCaller call hz step parity snr) peer =
     RespondToCaller call (max0_as_u64 hz) (parse_dx_parity parity) (parse_response_step step) (map_option as_f32 snr) True (Some peer)"
| "tx_kind_to_qso_message as_f32 (StartCq hz) peer = Qso_StartCq (max0_as_u64 hz) None True (Some peer)"

definition scope_tier :: "string \<Rightarrow> nat" where
  "scope_tier s = (if s = ''status'' then 1 else if s = ''qsy'' then 2 else if s = ''tx'' then 3 else 0)"

definition scope_at_least :: "string list \<Rightarrow> string \<Rightarrow> bool" where
  "scope_at_least scopes required = list_ex (\<lambda>s. scope_tier s \<ge> scope_tier required \<and> scope_tier required > 0) scopes"

section \<open>Capabilities of peers\<close>

definition auth_grants :: "peer_auth option \<Rightarrow> string \<Rightarrow> int \<Rightarrow> string set \<Rightarrow> bool" where
  "auth_grants auth required now revoked =
     (case auth of
        None \<Rightarrow> False
      | Some a \<Rightarrow> now < pa_exp_ms a \<and> pa_jti a \<notin> revoked \<and> scope_at_least (pa_scopes a) required)"

definition peer_admitted :: "arm_context \<Rightarrow> string \<Rightarrow> bool" where
  "peer_admitted ctx peer \<longleftrightarrow> \<not> ac_allow_poisoned ctx \<and> peer \<in> ac_tx_allow_list ctx"

definition peer_grants :: "arm_context \<Rightarrow> string \<Rightarrow> string \<Rightarrow> int \<Rightarrow> bool" where
  "peer_grants ctx peer required now \<longleftrightarrow>
     peer_admitted ctx peer \<and>
     (case fmlookup (ac_peers ctx) peer of None \<Rightarrow> False | Some auth \<Rightarrow> auth_grants auth required now (ac_revoked_jtis ctx))"

definition peer_may_receive :: "arm_context \<Rightarrow> string \<Rightarrow> int \<Rightarrow> bool" where
  "peer_may_receive ctx peer now = peer_grants ctx peer ''status'' now"

section \<open>The arm behind its lock\<close>

definition audit_effects :: "arm_effect list \<Rightarrow> audit_event list" where
  "audit_effects effects = concat (map (\<lambda>e. case e of Audit ev \<Rightarrow> [ev] | Disarmed _ \<Rightarrow> [] | HeartbeatRejected _ \<Rightarrow> []) effects)"

definition apply_arm_effects :: "arm_effect list \<Rightarrow> arm_context \<Rightarrow> arm_context" where
  "apply_arm_effects effects ctx = ctx\<lparr> ac_audit := ac_audit ctx @ audit_effects effects \<rparr>"

definition record_audit :: "int \<Rightarrow> audit_kind \<Rightarrow> string option \<Rightarrow> string \<Rightarrow> arm_context \<Rightarrow> arm_context" where
  "record_audit ts k op d ctx =
     ctx\<lparr> ac_audit := ac_audit ctx @ [\<lparr> ts_unix_ms = ts, kind = k, ev_operator = op, detail = d \<rparr>] \<rparr>"

text \<open>\<open>match ctx.arm.lock() { Ok(mut st) => f(st), Err(_) => Vec::new() }\<close>, and the form that enters a poisoned lock.\<close>

definition locked :: "(arm_state \<Rightarrow> arm_state \<times> arm_effect list) \<Rightarrow> arm_context \<Rightarrow> arm_context \<times> arm_effect list" where
  "locked f ctx =
     (if ac_poisoned ctx then (ctx, [])
      else case f (ac_arm ctx) of (st, effects) \<Rightarrow> (ctx\<lparr> ac_arm := st \<rparr>, effects))"

definition entered :: "(arm_state \<Rightarrow> arm_state \<times> arm_effect list) \<Rightarrow> arm_context \<Rightarrow> arm_context \<times> arm_effect list" where
  "entered f ctx = (case f (ac_arm ctx) of (st, effects) \<Rightarrow> (ctx\<lparr> ac_arm := st \<rparr>, effects))"

text \<open>Disarm under the lock, then write the audit records.\<close>

definition disarm_audited :: "int \<Rightarrow> arm_context \<Rightarrow> arm_context" where
  "disarm_audited now_ms ctx = (case locked (\<lambda>st. disarm st now_ms) ctx of (ctx1, effects) \<Rightarrow> apply_arm_effects effects ctx1)"

definition fresh_arm_time :: "arm_time \<Rightarrow> arm_time \<Rightarrow> arm_time" where
  "fresh_arm_time fresh base =
     \<lparr> unix_ms = max (unix_ms fresh) (unix_ms base), monotonic = max (monotonic fresh) (monotonic base),
       suspend_aware_ms = max (suspend_aware_ms fresh) (suspend_aware_ms base) \<rparr>"

definition control_state_sends :: "agent_env \<Rightarrow> arm_context \<Rightarrow> arm_time \<Rightarrow> arm_time \<Rightarrow> string option \<Rightarrow> peer_send list" where
  "control_state_sends env ctx sample now only =
     (let armed = \<not> ac_poisoned ctx \<and> tx_permitted (ac_arm ctx) (fresh_arm_time sample now) StationAgent in
      map (\<lambda>p. \<lparr> send_target = p, send_event = ControlState (ac_controller ctx = Some p) armed \<rparr>)
        (filter (\<lambda>p. case only of None \<Rightarrow> True | Some q \<Rightarrow> q = p) (en_iter env (fmdom (ac_peers ctx)))))"

text \<open>The dash in the program's messages, in UTF-8.\<close>

definition dash_utf8 :: string where "dash_utf8 = [CHR 0xE2, CHR 0x80, CHR 0x94]"

definition station_error :: "string \<Rightarrow> string \<Rightarrow> peer_send" where
  "station_error peer message = \<lparr> send_target = peer, send_event = ServerError ''stationAgent'' message \<rparr>"

definition arm_transition_sends :: "agent_env \<Rightarrow> arm_context \<Rightarrow> arm_effect list \<Rightarrow> arm_time \<Rightarrow> arm_time \<Rightarrow> arm_context \<times> peer_send list" where
  "arm_transition_sends env ctx effects sample now =
     (let ctx = apply_arm_effects effects ctx in
      (ctx, if list_ex (\<lambda>e. case e of Disarmed _ \<Rightarrow> True | _ \<Rightarrow> False) effects then control_state_sends env ctx sample now None else []))"

definition sweep_arm_expiry :: "agent_env \<Rightarrow> arm_context \<Rightarrow> arm_time \<Rightarrow> arm_time \<Rightarrow> arm_time \<Rightarrow> arm_context \<times> peer_send list" where
  "sweep_arm_expiry env ctx sample sample2 now =
     (case locked (\<lambda>st. tick st (fresh_arm_time sample now)) ctx of
        (ctx, effects) \<Rightarrow> arm_transition_sends env ctx effects sample2 now)"

section \<open>Control of the station\<close>

definition owe_qso_cleanup :: "string \<Rightarrow> arm_context \<Rightarrow> arm_context" where
  "owe_qso_cleanup peer ctx = ctx\<lparr> ac_cleanup_owed := Some \<lparr> oc_controller = peer, oc_failed_attempts = 0 \<rparr> \<rparr>"

definition U32_MAX :: nat where "U32_MAX = 4294967295"

definition flush_qso_cleanup :: "bool \<Rightarrow> arm_context \<Rightarrow> arm_context \<times> bus_message list" where
  "flush_qso_cleanup accepted ctx =
     (case ac_cleanup_owed ctx of
        None \<Rightarrow> (ctx, [])
      | Some owed \<Rightarrow>
          if accepted then (ctx\<lparr> ac_cleanup_owed := None \<rparr>, [To_Qso (RemoteControllerChanged (oc_controller owed))])
          else (ctx\<lparr> ac_cleanup_owed := Some (owed\<lparr> oc_failed_attempts := min U32_MAX (oc_failed_attempts owed + 1) \<rparr>) \<rparr>, []))"

datatype controller_gate = Proceed "peer_send list" | Gate_Refused "peer_send list"

definition controller_gate_check :: "agent_env \<Rightarrow> arm_context \<Rightarrow> string \<Rightarrow> arm_time \<Rightarrow> arm_time \<Rightarrow> arm_context \<times> controller_gate" where
  "controller_gate_check env ctx peer sample now =
     (case ac_controller ctx of
        None \<Rightarrow>
          (let ctx = owe_qso_cleanup peer (ctx\<lparr> ac_controller := Some peer \<rparr>) in
           (ctx, Proceed (control_state_sends env ctx sample now None)))
      | Some p \<Rightarrow>
          if p = peer then (ctx, Proceed [])
          else (record_audit (unix_ms now) TxDenied None ''refused: not controller'' ctx,
                Gate_Refused [station_error peer (''another client holds control '' @ dash_utf8 @ '' takeControl first'')]))"

definition remote_qsy_refusal :: "agent_env \<Rightarrow> string option" where
  "remote_qsy_refusal env =
     (if en_ptt_active env \<or> en_gain_tx_gate env AND (NOT 1) \<noteq> 0 then Some ''the rig is transmitting''
      else case en_active_qsos env of
        Some owners \<Rightarrow> if list_ex (\<lambda>k. k = None) owners then Some ''the station is running a local or autonomous QSO'' else None
      | None \<Rightarrow> None)"

definition qsy_refused :: "string \<Rightarrow> string \<Rightarrow> string \<Rightarrow> peer_send list" where
  "qsy_refused peer command reason = [station_error peer (command @ '' refused '' @ dash_utf8 @ '' '' @ reason)]"

section \<open>Authorisation refresh\<close>

text \<open>The sets one successful poll computes from the edges it fetched.\<close>

definition poll_allow :: "string \<Rightarrow> authorization_edge list \<Rightarrow> string set" where
  "poll_allow agent edges = set (map ae_client_key_id (filter (\<lambda>e. ae_agent_key_id e = agent) edges))"

definition poll_tx_arm_allow :: "string \<Rightarrow> authorization_edge list \<Rightarrow> string set" where
  "poll_tx_arm_allow agent edges =
     set (map ae_client_key_id (filter (\<lambda>e. ae_agent_key_id e = agent \<and> ae_delegated_by e = None) edges))"

text \<open>The critical section of the poll: disarm a client that lost eligibility and publish, all under the arm lock.\<close>

definition publish_tx_arm :: "string set \<Rightarrow> int \<Rightarrow> arm_context \<Rightarrow> arm_context" where
  "publish_tx_arm new_allow now_ms ctx =
     (case armed_client_key_id (ac_arm ctx) of
        Some cur \<Rightarrow>
          if cur \<notin> new_allow then
            (case entered (\<lambda>st. disarm_with_reason st AuthorizationRevoked now_ms) ctx of
               (ctx, effects) \<Rightarrow> apply_arm_effects effects (ctx\<lparr> ac_revocation_pending := True, ac_tx_arm_allow_list := new_allow \<rparr>))
          else ctx\<lparr> ac_tx_arm_allow_list := new_allow \<rparr>
      | None \<Rightarrow> ctx\<lparr> ac_tx_arm_allow_list := new_allow \<rparr>)"

text \<open>The critical section of \<open>revoke_static_allow_list_entries\<close>.\<close>

definition revoke_tx_arm :: "string list \<Rightarrow> int \<Rightarrow> arm_context \<Rightarrow> arm_context" where
  "revoke_tx_arm removed now_ms ctx =
     (let armed_removed = (case armed_client_key_id (ac_arm ctx) of Some cur \<Rightarrow> cur \<in> set removed | None \<Rightarrow> False);
          (ctx1, effects) = (if armed_removed then entered (\<lambda>st. disarm_with_reason st AuthorizationRevoked now_ms) ctx else (ctx, []));
          ctx2 = (if armed_removed then ctx1\<lparr> ac_revocation_pending := True \<rparr> else ctx1) in
      apply_arm_effects effects (ctx2\<lparr> ac_tx_arm_allow_list := ac_tx_arm_allow_list ctx2 - set removed \<rparr>))"

definition drop_keys :: "string list \<Rightarrow> (string, bytes) fmap \<Rightarrow> (string, bytes) fmap" where
  "drop_keys removed keys = fmfilter (\<lambda>k. k \<notin> set removed) keys"

fun authz_step :: "authz_op \<Rightarrow> arm_context \<Rightarrow> arm_context" where
  "authz_step (Publish_Tx_Arm s ms) ctx = publish_tx_arm s ms ctx"
| "authz_step (Publish_Allow s) ctx = ctx\<lparr> ac_tx_allow_list := s \<rparr>"
| "authz_step (Publish_Keys ks) ctx = ctx\<lparr> ac_client_keys := ks \<rparr>"
| "authz_step Bump_Generation ctx = ctx\<lparr> ac_authz_generation := ac_authz_generation ctx + 1 \<rparr>"
| "authz_step (Revoke_Tx_Arm removed ms) ctx = revoke_tx_arm removed ms ctx"
| "authz_step (Revoke_Allow removed) ctx =
     ctx\<lparr> ac_tx_allow_list := ac_tx_allow_list ctx - set removed, ac_client_keys := drop_keys removed (ac_client_keys ctx) \<rparr>"

text \<open>A whole successful poll and a whole static revocation, uninterrupted.\<close>

definition poll_refresh :: "string \<Rightarrow> authorization_edge list \<Rightarrow> (string, bytes) fmap \<Rightarrow> int \<Rightarrow> arm_context \<Rightarrow> arm_context" where
  "poll_refresh agent edges keys now_ms ctx =
     (let new_allow = poll_allow agent edges; new_arm = poll_tx_arm_allow agent edges;
          changed = (ac_tx_arm_allow_list ctx \<noteq> new_arm \<or> ac_tx_allow_list ctx \<noteq> new_allow);
          ctx1 = fold authz_step [Publish_Tx_Arm new_arm now_ms, Publish_Allow new_allow, Publish_Keys keys] ctx in
      if changed then authz_step Bump_Generation ctx1 else ctx1)"

definition revoke_static_allow_list_entries :: "string list \<Rightarrow> int \<Rightarrow> arm_context \<Rightarrow> arm_context \<times> bool" where
  "revoke_static_allow_list_entries removed now_ms ctx =
     (if removed = [] then (ctx, False)
      else
        let changed = (ac_tx_arm_allow_list ctx \<inter> set removed \<noteq> {} \<or> ac_tx_allow_list ctx \<inter> set removed \<noteq> {});
            ctx1 = fold authz_step [Revoke_Tx_Arm removed now_ms, Revoke_Allow removed] ctx in
        (if changed then authz_step Bump_Generation ctx1 else ctx1, changed))"

definition seed_tx_arm_allow_list :: "string set \<Rightarrow> bool \<Rightarrow> string set" where
  "seed_tx_arm_allow_list static_list cqdx_will_poll = (if cqdx_will_poll then {} else static_list)"

section \<open>Arming\<close>

fun cap_error_text :: "cap_error \<Rightarrow> string" where
  "cap_error_text MalformedJws = ''malformed JWS''"
| "cap_error_text BadAlg = ''unsupported or forbidden alg''"
| "cap_error_text NotPinned = ''token kid is not a pinned IdP key''"
| "cap_error_text BadSignature = ''bad signature''"
| "cap_error_text AudMismatch = ''aud mismatch''"
| "cap_error_text Expired = ''expired''"
| "cap_error_text (MalformedClaim k) = ''missing or malformed claim: '' @ k"
| "cap_error_text ClientMismatch = ''grant client does not match capability''"
| "cap_error_text ClientNotAllowed = ''client key id not in station-local TX-allow-list''"
| "cap_error_text CapabilityMismatch = ''grant capabilityJti does not match capability jti''"
| "cap_error_text ArmTooLong = ''armed window too long''"
| "cap_error_text BadHeartbeat = ''heartbeat interval out of bounds''"
| "cap_error_text Cap_NoTxScope = ''capability lacks tx scope''"
| "cap_error_text ReplayedJti = ''replayed jti''"
| "cap_error_text TtlTooLong = ''token ttl too long for a non-enabled token''"
| "cap_error_text EnablementMismatch = ''enabled token exp does not equal txEnabledUntil''"
| "cap_error_text EnablementTooLong = ''enablement window too long''"
| "cap_error_text NotTxEnabled = ''capability is not tx-enabled''"
| "cap_error_text Revoked = ''capability jti is revoked''"
| "cap_error_text FutureIat = ''token iat is in the future''"
| "cap_error_text CallsignMismatch = ''grant operatorCallsign does not match the token'' @ [CHR 0x27] @ ''s''"
| "cap_error_text SessionMismatch = ''grant sessionId does not match the live session''"

text \<open>The part of \<open>verify_and_arm\<close> under the arm lock: eligibility is read again there.\<close>

definition arm_under_lock :: "arm_context \<Rightarrow> string \<Rightarrow> verified_arm_grant \<Rightarrow> arm_time \<Rightarrow> arm_context \<times> (string + unit)" where
  "arm_under_lock ctx client g now =
     (if ac_poisoned ctx then (ctx, Inl ''arm mutex poisoned'')
      else if client \<notin> ac_tx_arm_allow_list ctx then
        (ctx, Inl (''client '' @ client @ '' not in station-local TX-arm-allow-list (revoked by a concurrent authorization refresh)''))
      else if \<not> channel_consent (ac_arm ctx) StationAgent then
        (ctx, Inl ''station-agent remote TX consent is off (remote_tx_enabled=false)'')
      else case arm (ac_arm ctx) g now of
             (st, effects) \<Rightarrow> (apply_arm_effects effects (ctx\<lparr> ac_arm := st \<rparr>), Inr ()))"

text \<open>\<open>verify_and_arm\<close>. The authorisation steps \<open>en_between\<close> are those that complete after the grant was verified and before
  the arm lock is taken.\<close>

definition verify_and_arm :: "wire_lib \<Rightarrow> capability_verifier \<Rightarrow> agent_env \<Rightarrow> arm_context \<Rightarrow> string \<Rightarrow> json \<Rightarrow> string \<Rightarrow> string
    \<Rightarrow> arm_time \<Rightarrow> arm_time \<Rightarrow> arm_context \<times> (string + unit)" where
  "verify_and_arm lib v env ctx token grant peer sid sample now =
     (case as_object grant of
        None \<Rightarrow> (ctx, Inl ''grant is not a JSON object'')
      | Some obj \<Rightarrow>
          (case get_str grant ''clientKeyId'' of
             None \<Rightarrow> (ctx, Inl ''grant missing clientKeyId'')
           | Some client \<Rightarrow>
               if client \<noteq> peer then
                 (ctx, Inl (''grant clientKeyId '' @ client @ '' does not match the sending peer '' @ peer))
               else if client \<notin> ac_tx_arm_allow_list ctx then
                 (ctx, Inl (''client '' @ client @ '' not in station-local TX-arm-allow-list''))
               else
                 (case fmlookup (ac_client_keys ctx) client of
                    None \<Rightarrow> (ctx, Inl (''no device key for client '' @ client))
                  | Some vk \<Rightarrow>
                      (case verify_capability_token lib v token (unix_ms now) of
                         Inl e \<Rightarrow> (ctx, Inl (''capability: '' @ cap_error_text e))
                       | Inr cap \<Rightarrow>
                           (case verify_arm_grant lib v grant cap vk (ac_tx_arm_allow_list ctx) (ac_revoked_jtis ctx) sid (unix_ms now)
                                   (ac_seen_jtis ctx) of
                              (Inl e, seen) \<Rightarrow> (ctx\<lparr> ac_seen_jtis := seen \<rparr>, Inl (''arm grant: '' @ cap_error_text e))
                            | (Inr g, seen) \<Rightarrow>
                                arm_under_lock (fold authz_step (en_between env) (ctx\<lparr> ac_seen_jtis := seen \<rparr>)) client g
                                  (fresh_arm_time sample now))))))"

section \<open>Hello, expiry and loss of a peer\<close>

text \<open>Disarm, release control and tell the remaining peers: what happens whenever the controller loses its standing.\<close>

definition release_controller :: "agent_env \<Rightarrow> int \<Rightarrow> arm_time \<Rightarrow> arm_time \<Rightarrow> arm_context \<Rightarrow> arm_context \<times> peer_send list" where
  "release_controller env now_ms sample now ctx =
     (let ctx = (disarm_audited now_ms ctx)\<lparr> ac_controller := None \<rparr> in (ctx, control_state_sends env ctx sample now None))"

definition clear_peer_auth :: "agent_env \<Rightarrow> arm_time \<Rightarrow> arm_context \<Rightarrow> string \<Rightarrow> int \<Rightarrow> arm_context \<times> peer_send list" where
  "clear_peer_auth env sample ctx peer now_ms =
     (case fmlookup (ac_peers ctx) peer of
        Some (Some a) \<Rightarrow>
          (let ctx = ctx\<lparr> ac_peers := fmupd peer None (ac_peers ctx) \<rparr> in
           if ac_controller ctx \<noteq> Some peer then (ctx, []) else release_controller env now_ms (en_clock env 2) sample ctx)
      | _ \<Rightarrow> (ctx, []))"

definition dispatch_hello :: "wire_lib \<Rightarrow> capability_verifier \<Rightarrow> agent_env \<Rightarrow> arm_time \<Rightarrow> arm_context \<Rightarrow> string option \<Rightarrow> string \<Rightarrow> int
    \<Rightarrow> arm_context \<times> bool \<times> peer_send list" where
  "dispatch_hello lib v env sample ctx token peer now_ms =
     (let refuse = (case clear_peer_auth env sample ctx peer now_ms of (ctx', sends) \<Rightarrow> (ctx', False, sends)) in
      case token of
        None \<Rightarrow> refuse
      | Some tok \<Rightarrow>
          (case verify_capability_token lib v tok now_ms of
             Inl e \<Rightarrow> refuse
           | Inr cap \<Rightarrow>
               if vc_client_key_id cap = peer \<and> vc_jti cap \<in> ac_revoked_jtis ctx then refuse
               else if vc_client_key_id cap = peer \<and> \<not> scope_at_least (vc_scopes cap) ''status'' then refuse
               else if vc_client_key_id cap = peer then
                 (case fmlookup (ac_peers ctx) peer of
                    Some _ \<Rightarrow>
                      (ctx\<lparr> ac_peers := fmupd peer (Some \<lparr> pa_scopes = vc_scopes cap, pa_exp_ms = vc_exp_ms cap, pa_jti = vc_jti cap \<rparr>)
                                        (ac_peers ctx) \<rparr>, True, [])
                  | None \<Rightarrow> (ctx, False, []))
               else refuse))"

definition auth_expired :: "int \<Rightarrow> peer_auth option \<Rightarrow> bool" where
  "auth_expired now_ms auth = (case auth of None \<Rightarrow> False | Some a \<Rightarrow> pa_exp_ms a \<le> now_ms)"

definition sweep_expired_peer_auth :: "agent_env \<Rightarrow> arm_context \<Rightarrow> int \<Rightarrow> arm_context \<times> string list" where
  "sweep_expired_peer_auth env ctx now_ms =
     (ctx\<lparr> ac_peers := fmmap (\<lambda>auth. if auth_expired now_ms auth then None else auth) (ac_peers ctx) \<rparr>,
      filter (\<lambda>p. case fmlookup (ac_peers ctx) p of None \<Rightarrow> False | Some auth \<Rightarrow> auth_expired now_ms auth)
        (en_iter env (fmdom (ac_peers ctx))))"

fun release_expired :: "agent_env \<Rightarrow> arm_time \<Rightarrow> arm_time \<Rightarrow> string list \<Rightarrow> arm_context \<times> peer_send list \<Rightarrow> arm_context \<times> peer_send list" where
  "release_expired env sample now [] acc = acc"
| "release_expired env sample now (p # ps) (ctx, sends) =
     release_expired env sample now ps
       (if ac_controller ctx = Some p then release_controller env (unix_ms now) sample now ctx else (ctx, sends))"

definition expire_peer_auth :: "agent_env \<Rightarrow> arm_time \<Rightarrow> arm_context \<Rightarrow> arm_time \<Rightarrow> arm_context \<times> peer_send list" where
  "expire_peer_auth env sample ctx now =
     (case sweep_expired_peer_auth env ctx (unix_ms now) of (ctx, expired) \<Rightarrow> release_expired env sample now expired (ctx, []))"

definition peer_left :: "agent_env \<Rightarrow> arm_time \<Rightarrow> arm_context \<Rightarrow> string \<Rightarrow> arm_time \<Rightarrow> arm_context \<times> peer_send list" where
  "peer_left env sample ctx peer now =
     (let was_controller = (ac_controller ctx = Some peer); ctx = ctx\<lparr> ac_peers := fmdrop peer (ac_peers ctx) \<rparr> in
      if was_controller then release_controller env (unix_ms now) sample now ctx else (ctx, []))"

section \<open>Dispatch of one action\<close>

definition tx_detail :: "agent_env \<Rightarrow> tx_kind \<Rightarrow> string" where
  "tx_detail env k =
     (case k of
        CallStation call _ _ \<Rightarrow> ''callStation '' @ call
      | AnswerCaller call _ step _ _ \<Rightarrow> ''answerCaller '' @ call @ '' step='' @ step
      | StartCq hz \<Rightarrow> ''startCq offset='' @ en_f64_display env hz)"

definition dispatch_tx_request :: "agent_env \<Rightarrow> arm_context \<Rightarrow> tx_kind \<Rightarrow> string \<Rightarrow> arm_time \<Rightarrow> peer_send list
    \<Rightarrow> arm_context \<times> bus_message list \<times> peer_send list" where
  "dispatch_tx_request env ctx k peer now grab =
     (let d = tx_detail env k; op = (if ac_poisoned ctx then None else operator_callsign (ac_arm ctx)) in
      if ac_poisoned ctx \<or> \<not> channel_consent (ac_arm ctx) StationAgent then
        (record_audit (unix_ms now) TxDenied op (''txRequest refused: station-agent remote TX consent off ('' @ d @ '')'') ctx, [], grab)
      else
        case flush_qso_cleanup (en_cleanup_accepted env) (record_audit (unix_ms now) TxRequested op d ctx) of
          (ctx, flushed) \<Rightarrow>
            if ac_cleanup_owed ctx \<noteq> None then
              (ctx, flushed, grab @ [station_error peer ''control change pending; retry the QSO request''])
            else if \<not> en_qso_accepted env then
              (ctx, flushed, grab @ [station_error peer ''QSO request not delivered; retry the QSO request''])
            else (ctx, flushed @ [To_Qso (tx_kind_to_qso_message (en_as_f32 env) k peer)], grab))"

definition dispatch_stop_cq :: "agent_env \<Rightarrow> arm_context \<Rightarrow> string \<Rightarrow> peer_send list \<Rightarrow> arm_context \<times> bus_message list \<times> peer_send list" where
  "dispatch_stop_cq env ctx peer grab =
     (case flush_qso_cleanup (en_cleanup_accepted env) ctx of
        (ctx, flushed) \<Rightarrow>
          if \<not> en_qso_accepted env then (ctx, flushed, grab @ [station_error peer ''stop CQ not delivered; retry stopCq''])
          else (ctx, flushed @ [To_Qso Qso_StopCq], grab))"

definition forward_split_change :: "agent_env \<Rightarrow> arm_context \<Rightarrow> bool \<Rightarrow> nat \<Rightarrow> arm_context \<times> bus_message list" where
  "forward_split_change env ctx enabled tx_frequency =
     (if en_split_accepted env then
        (ctx\<lparr> ac_split_tx_hz := (if enabled then tx_frequency else 0) \<rparr>,
         [Rig_SetSplit enabled tx_frequency, Split_Status (if enabled then tx_frequency else 0)])
      else (ctx, [Split_Status (ac_split_tx_hz ctx)]))"

definition take_control :: "agent_env \<Rightarrow> arm_context \<Rightarrow> string \<Rightarrow> arm_time \<Rightarrow> arm_context \<times> peer_send list" where
  "take_control env ctx peer now =
     (let displacing = (ac_controller ctx \<noteq> None \<and> ac_controller ctx \<noteq> Some peer);
          ctx1 = (if displacing then disarm_audited (unix_ms now) ctx else ctx);
          ctx2 = (if ac_controller ctx1 \<noteq> Some peer then owe_qso_cleanup peer ctx1 else ctx1);
          ctx3 = ctx2\<lparr> ac_controller := Some peer \<rparr> in
      (ctx3, control_state_sends env ctx3 (en_clock env 0) now None))"

text \<open>Run an action behind the controller gate.\<close>

definition gated :: "agent_env \<Rightarrow> arm_context \<Rightarrow> string \<Rightarrow> arm_time
    \<Rightarrow> (arm_context \<Rightarrow> peer_send list \<Rightarrow> arm_context \<times> bus_message list \<times> peer_send list)
    \<Rightarrow> arm_context \<times> bus_message list \<times> peer_send list" where
  "gated env ctx peer now f =
     (case controller_gate_check env ctx peer (en_clock env 0) now of
        (ctx, Gate_Refused sends) \<Rightarrow> (ctx, [], sends)
      | (ctx, Proceed grab) \<Rightarrow> f ctx grab)"

fun only_gives_up :: "control_action \<Rightarrow> bool" where
  "only_gives_up (DisarmAction _) = True"
| "only_gives_up ReleaseControl = True"
| "only_gives_up _ = False"

fun dispatch_admitted :: "wire_lib \<Rightarrow> capability_verifier \<Rightarrow> agent_env \<Rightarrow> arm_context \<Rightarrow> control_action \<Rightarrow> string \<Rightarrow> string \<Rightarrow> arm_time
    \<Rightarrow> arm_context \<times> bus_message list \<times> peer_send list" where
  "dispatch_admitted lib v env ctx (ArmAction token grant) peer sid now =
     gated env ctx peer now (\<lambda>ctx grab.
       case verify_and_arm lib v env ctx token grant peer sid (en_clock env 1) now of
         (ctx, Inr _) \<Rightarrow> (ctx, [], grab @ control_state_sends env ctx (en_clock env 2) now None)
       | (ctx, Inl reason) \<Rightarrow> (record_audit (unix_ms now) TxDenied None (''arm rejected: '' @ reason) ctx, [], grab))"
| "dispatch_admitted lib v env ctx (Heartbeat jti seq) peer sid now =
     (case locked (\<lambda>st. heartbeat st jti seq (fresh_arm_time (en_clock env 0) now)) ctx of
        (ctx, effects) \<Rightarrow>
          (case arm_transition_sends env ctx effects (en_clock env 1) now of (ctx, sends) \<Rightarrow> (ctx, [], sends)))"
| "dispatch_admitted lib v env ctx (DisarmAction jti) peer sid now =
     (let ctx = disarm_audited (unix_ms now) ctx in (ctx, [], control_state_sends env ctx (en_clock env 0) now None))"
| "dispatch_admitted lib v env ctx (Hello token) peer sid now =
     (case dispatch_hello lib v env (en_clock env 0) ctx token peer (unix_ms now) of
        (ctx, verified, sends) \<Rightarrow>
          (ctx, [], sends @ (if verified then control_state_sends env ctx (en_clock env 1) now (Some peer) else [])))"
| "dispatch_admitted lib v env ctx (Qsy vfo hz) peer sid now =
     (case remote_qsy_refusal env of
        Some reason \<Rightarrow> (ctx, [], qsy_refused peer ''setFrequency'' reason)
      | None \<Rightarrow>
          gated env ctx peer now (\<lambda>ctx grab.
            if \<not> peer_grants ctx peer ''qsy'' (unix_ms now) then (ctx, [], grab)
            else (ctx, [Rig_SetFrequency (clamp_u8 vfo) (max0_as_u64 hz)], grab)))"
| "dispatch_admitted lib v env ctx (SetSplit enabled hz) peer sid now =
     (case remote_qsy_refusal env of
        Some reason \<Rightarrow> (ctx, [], qsy_refused peer ''setSplit'' reason)
      | None \<Rightarrow>
          gated env ctx peer now (\<lambda>ctx grab.
            if \<not> peer_grants ctx peer ''qsy'' (unix_ms now) then (ctx, [], grab)
            else case forward_split_change env ctx enabled (max0_as_u64 hz) of (ctx, msgs) \<Rightarrow> (ctx, msgs, grab)))"
| "dispatch_admitted lib v env ctx (TxRequest k) peer sid now =
     gated env ctx peer now (\<lambda>ctx grab. dispatch_tx_request env ctx k peer now grab)"
| "dispatch_admitted lib v env ctx StopCq peer sid now =
     (if \<not> peer_grants ctx peer ''status'' (unix_ms now) then (ctx, [], [])
      else gated env ctx peer now (\<lambda>ctx grab. dispatch_stop_cq env ctx peer grab))"
| "dispatch_admitted lib v env ctx TakeControl peer sid now =
     (if \<not> peer_grants ctx peer ''qsy'' (unix_ms now) then (ctx, [], [])
      else case take_control env ctx peer now of (ctx, sends) \<Rightarrow> (ctx, [], sends))"
| "dispatch_admitted lib v env ctx ReleaseControl peer sid now =
     (if ac_controller ctx = Some peer then
        case release_controller env (unix_ms now) (en_clock env 0) now ctx of (ctx, sends) \<Rightarrow> (ctx, [], sends)
      else (ctx, [], []))"
| "dispatch_admitted lib v env ctx Unsupported peer sid now = (ctx, [], [])"

definition dispatch_action :: "wire_lib \<Rightarrow> capability_verifier \<Rightarrow> agent_env \<Rightarrow> arm_context \<Rightarrow> control_action \<Rightarrow> string \<Rightarrow> string \<Rightarrow> arm_time
    \<Rightarrow> arm_context \<times> bus_message list \<times> peer_send list" where
  "dispatch_action lib v env ctx action peer sid now =
     (if \<not> only_gives_up action \<and> \<not> peer_admitted ctx peer then (ctx, [], [])
      else dispatch_admitted lib v env ctx action peer sid now)"

section \<open>Delivery\<close>

text \<open>Frames in order, the clock read for each; a frame for a peer without a valid capability is withheld.\<close>

fun deliver_sends :: "('w, 'h, 't) relay_lib \<Rightarrow> agent_env \<Rightarrow> arm_context \<Rightarrow> (nat \<Rightarrow> int) \<Rightarrow> peer_send list
    \<Rightarrow> ('w, 't) multi_peer_session \<Rightarrow> ('w, 't) multi_peer_session" where
  "deliver_sends rl env ctx clock [] sess = sess"
| "deliver_sends rl env ctx clock (send # sends) sess =
     deliver_sends rl env ctx (\<lambda>k. clock (k + 1)) sends
       (if \<not> peer_may_receive ctx (send_target send) (clock 0) then sess
        else case en_frame_bytes env (send_event send) of
          None \<Rightarrow> sess
        | Some bs \<Rightarrow> fst (send_to rl sess (send_target send) bs))"

definition READ_STREAM_DRAIN_MAX :: nat where "READ_STREAM_DRAIN_MAX = 64"
definition DISPLAY_FEED_MIN_SEND_CAPACITY :: nat where "DISPLAY_FEED_MIN_SEND_CAPACITY = 2 * MAX_PEERS"

text \<open>What the display feed holds: events, as their serialised bytes when that succeeds, and lag notices.\<close>

datatype feed_item = Feed_Event "bytes option" | Feed_Lagged

fun drain_read_stream :: "('w, 'h, 't) relay_lib \<Rightarrow> agent_env \<Rightarrow> arm_context \<Rightarrow> (nat \<Rightarrow> string \<Rightarrow> int) \<Rightarrow> nat \<Rightarrow> feed_item list
    \<Rightarrow> ('w, 't) multi_peer_session \<Rightarrow> feed_item list \<times> ('w, 't) multi_peer_session" where
  "drain_read_stream rl env ctx clock 0 feed sess = (feed, sess)"
| "drain_read_stream rl env ctx clock (Suc n) feed sess =
     (if (case ws_send_capacity rl (ms_ws sess) of Some free \<Rightarrow> free < DISPLAY_FEED_MIN_SEND_CAPACITY | None \<Rightarrow> False) then (feed, sess)
      else case feed of
        [] \<Rightarrow> ([], sess)
      | Feed_Lagged # rest \<Rightarrow> drain_read_stream rl env ctx clock n rest sess
      | Feed_Event None # rest \<Rightarrow> drain_read_stream rl env ctx clock n rest sess
      | Feed_Event (Some bs) # rest \<Rightarrow>
          drain_read_stream rl env ctx clock n rest
            (fst (broadcast_to rl (en_iter env (fmdom (ms_peers sess))) sess bs (\<lambda>p. peer_may_receive ctx p (clock n p)))))"

section \<open>Eviction\<close>

definition evict_peer :: "string \<Rightarrow> arm_context \<Rightarrow> arm_context" where
  "evict_peer peer ctx =
     (case fmlookup (ac_peers ctx) peer of
        Some (Some a) \<Rightarrow> ctx\<lparr> ac_peers := fmdrop peer (ac_peers ctx), ac_revoked_jtis := insert (pa_jti a) (ac_revoked_jtis ctx) \<rparr>
      | _ \<Rightarrow> ctx\<lparr> ac_peers := fmdrop peer (ac_peers ctx) \<rparr>)"

definition reconcile_authorizations :: "agent_env \<Rightarrow> arm_time \<Rightarrow> arm_context \<Rightarrow> ('w, 't) multi_peer_session \<Rightarrow> arm_time
    \<Rightarrow> arm_context \<times> ('w, 't) multi_peer_session \<times> peer_send list" where
  "reconcile_authorizations env sample ctx sess now =
     (if ac_authz_generation ctx = ac_generation_seen ctx then (ctx, sess, [])
      else
        let allow = (if ac_allow_poisoned ctx then {} else ac_tx_allow_list ctx);
            (sess, evicted1) = replace_allowed sess allow;
            stale = sorted_list_of_fset (ffilter (\<lambda>p. p \<notin> allow \<and> p \<notin> set evicted1) (fmdom (ac_peers ctx)));
            evicted = evicted1 @ stale;
            ctx = fold evict_peer evicted ctx;
            controller_evicted = (case ac_controller ctx of None \<Rightarrow> False | Some c \<Rightarrow> c \<in> set evicted);
            armer_evicted = (case armed_client_key_id (ac_arm ctx) of None \<Rightarrow> False | Some k \<Rightarrow> k \<in> set evicted);
            (ctx, effects) = (if controller_evicted \<or> armer_evicted
                              then entered (\<lambda>st. disarm_with_reason st AuthorizationRevoked (unix_ms now)) ctx else (ctx, []));
            ctx = apply_arm_effects effects ctx;
            ctx = (if controller_evicted then ctx\<lparr> ac_controller := None \<rparr> else ctx);
            sends = (if controller_evicted \<or> armer_evicted then control_state_sends env ctx sample now None else []) in
        (ctx\<lparr> ac_generation_seen := ac_authz_generation ctx \<rparr>, sess, sends))"

section \<open>One turn of the session loop\<close>

definition session_housekeeping :: "('w, 'h, 't) relay_lib \<Rightarrow> agent_env \<Rightarrow> arm_context \<Rightarrow> ('w, 't) multi_peer_session
    \<Rightarrow> arm_context \<times> ('w, 't) multi_peer_session" where
  "session_housekeeping rl env ctx sess =
     (let now = en_clock env 20;
          (ctx, sess, sends) = reconcile_authorizations env (en_clock env 21) ctx sess now;
          sess = deliver_sends rl env ctx (en_send_clock env 3) sends sess;
          sess = (if ac_revocation_pending ctx
                  then deliver_sends rl env (ctx\<lparr> ac_revocation_pending := False \<rparr>) (en_send_clock env 4)
                         (control_state_sends env ctx (en_clock env 22) now None) sess
                  else sess);
          ctx = ctx\<lparr> ac_revocation_pending := False \<rparr>;
          now = fresh_arm_time (en_clock env 23) now;
          (ctx, sends) = expire_peer_auth env (en_clock env 24) ctx now in
      (ctx, deliver_sends rl env ctx (en_send_clock env 5) sends sess))"

definition RECV_TICK_MS :: nat where "RECV_TICK_MS = 200"

text \<open>Handling of what the poll returned; the flag says whether the session goes on.\<close>

definition drain_all :: "('w, 'h, 't) relay_lib \<Rightarrow> agent_env \<Rightarrow> arm_context \<Rightarrow> feed_item list \<Rightarrow> ('w, 't) multi_peer_session
    \<Rightarrow> feed_item list \<times> ('w, 't) multi_peer_session" where
  "drain_all rl env ctx feed sess = drain_read_stream rl env ctx (en_feed_clock env) READ_STREAM_DRAIN_MAX feed sess"

definition handle_plaintext :: "('w, 'h, 't) relay_lib \<Rightarrow> capability_verifier \<Rightarrow> agent_env \<Rightarrow> arm_context \<Rightarrow> ('w, 't) multi_peer_session
    \<Rightarrow> feed_item list \<Rightarrow> string \<Rightarrow> bytes \<Rightarrow> arm_time \<Rightarrow> arm_context \<times> ('w, 't) multi_peer_session \<times> feed_item list \<times> bus_message list" where
  "handle_plaintext rl v env ctx sess feed peer pt now =
     (case map_client_frame (wire rl) pt of
        Inl e \<Rightarrow> (ctx, sess, feed, [])
      | Inr action \<Rightarrow>
          (let sid = (case session_id sess peer of None \<Rightarrow> [] | Some s \<Rightarrow> s);
               (ctx, sends1) = expire_peer_auth env (en_clock env 14) ctx now;
               (ctx, msgs, sends2) = dispatch_action (wire rl) v env ctx action peer sid now;
               sess = deliver_sends rl env ctx (en_send_clock env 1) (sends1 @ sends2) sess;
               (feed, sess) = drain_all rl env ctx feed sess in
           (ctx, sess, feed, msgs)))"

definition handle_poll :: "('w, 'h, 't) relay_lib \<Rightarrow> capability_verifier \<Rightarrow> agent_env \<Rightarrow> arm_context \<Rightarrow> ('w, 't) multi_peer_session
    \<Rightarrow> feed_item list \<Rightarrow> poll \<Rightarrow> arm_time \<Rightarrow> arm_context \<times> ('w, 't) multi_peer_session \<times> feed_item list \<times> bus_message list" where
  "handle_poll rl v env ctx sess feed p now =
     (case p of
        Plaintext peer pt \<Rightarrow> handle_plaintext rl v env ctx sess feed peer pt now
      | PeerEstablished peer _ \<Rightarrow> (ctx\<lparr> ac_peers := fmupd peer None (ac_peers ctx) \<rparr>, sess, feed, [])
      | PeerDown peer \<Rightarrow>
          (case peer_left env (en_clock env 15) ctx peer now of
             (ctx, sends) \<Rightarrow> (ctx, deliver_sends rl env ctx (en_send_clock env 2) sends sess, feed, []))
      | Poll_Idle \<Rightarrow> (case drain_all rl env ctx feed sess of (feed, sess) \<Rightarrow> (ctx, sess, feed, []))
      | Poll_Quiet \<Rightarrow> (case drain_all rl env ctx feed sess of (feed, sess) \<Rightarrow> (ctx, sess, feed, []))
      | _ \<Rightarrow> (ctx, sess, feed, []))"

definition session_turn :: "('w, 'h, 't) relay_lib \<Rightarrow> agent_identity \<Rightarrow> capability_verifier \<Rightarrow> agent_env \<Rightarrow> arm_context
    \<Rightarrow> ('w, 't) multi_peer_session \<Rightarrow> feed_item list
    \<Rightarrow> (arm_context \<times> ('w, 't) multi_peer_session \<times> feed_item list \<times> bus_message list) \<times> bool" where
  "session_turn rl ident v env ctx sess feed =
     (if en_shutdown env then ((ctx, sess, feed, []), False)
      else
        let (ctx, msgs0) = flush_qso_cleanup (en_flush_accepted env) ctx;
            (sess, polled) = process_next rl ident sess RECV_TICK_MS;
            now = en_clock env 10;
            (ctx, sends) = sweep_arm_expiry env ctx (en_clock env 11) (en_clock env 12) now;
            sess = deliver_sends rl env ctx (en_send_clock env 0) sends sess in
        if ms_transport_failed sess then ((ctx, sess, feed, msgs0), False)
        else
          let now = fresh_arm_time (en_clock env 13) now in
          case polled of
            Inl e \<Rightarrow> ((ctx, sess, feed, msgs0), False)
          | Inr Poll_Closed \<Rightarrow> ((ctx, sess, feed, msgs0), False)
          | Inr p \<Rightarrow>
              (case handle_poll rl v env ctx sess feed p now of
                 (ctx, sess, feed, msgs) \<Rightarrow>
                   (case session_housekeeping rl env ctx sess of (ctx, sess) \<Rightarrow> ((ctx, sess, feed, msgs0 @ msgs), True))))"

definition disarm_on_loss :: "int \<Rightarrow> arm_context \<Rightarrow> arm_context" where
  "disarm_on_loss now_ms ctx = (disarm_audited now_ms ctx)\<lparr> ac_controller := None \<rparr>"

text \<open>The start of \<open>run_one_session\<close>: nothing established, the generation recorded before the list is copied.\<close>

definition session_start :: "('w, 'h, 't) relay_lib \<Rightarrow> agent_identity \<Rightarrow> 'w \<Rightarrow> nat \<Rightarrow> arm_context
    \<Rightarrow> arm_context \<times> ('w, 't) multi_peer_session \<times> bool" where
  "session_start rl ident w hello_timeout ctx =
     (let ctx = ctx\<lparr> ac_peers := fmempty, ac_generation_seen := ac_authz_generation ctx \<rparr> in
      case authenticate rl ident (session_new w (ac_tx_allow_list ctx)) hello_timeout of
        (sess, Inr _) \<Rightarrow> (ctx, sess, True)
      | (sess, Inl _) \<Rightarrow> (ctx, sess, False))"

text \<open>\<open>RemoteTxDisarmGuard::drop\<close>: the reason, and the disarm that enters even a poisoned lock.\<close>

definition guard_reason :: "bool \<Rightarrow> bool \<Rightarrow> bool \<Rightarrow> bool \<Rightarrow> disarm_reason" where
  "guard_reason normal_exit panicking shutdown stop_requested =
     (if normal_exit \<or> \<not> panicking \<and> (shutdown \<or> stop_requested) then OperatorDisarm else ComponentCrash)"

definition guard_drop :: "disarm_reason \<Rightarrow> int \<Rightarrow> arm_context \<Rightarrow> arm_context" where
  "guard_drop reason now_ms ctx =
     (case entered (\<lambda>st. disarm_with_reason st reason now_ms) ctx of (ctx, effects) \<Rightarrow> apply_arm_effects effects ctx)"

definition fail_safe_disarm_remote_tx :: "int \<Rightarrow> arm_context \<Rightarrow> arm_context" where
  "fail_safe_disarm_remote_tx now_ms ctx = (guard_drop ComponentCrash now_ms ctx)\<lparr> ac_poisoned := False \<rparr>"

section \<open>The transmitter's gate\<close>

record arm_snapshot =
  as_station_agent_permitted :: bool
  as_wsjtx_permitted :: bool
  as_armed_client_key_id :: "string option"
  as_operator_callsign :: "string option"
  as_decided_at_unix_ms :: int

definition snapshot_take :: "arm_state \<Rightarrow> bool \<Rightarrow> arm_time \<Rightarrow> arm_snapshot" where
  "snapshot_take st poisoned now =
     (if poisoned then
        \<lparr> as_station_agent_permitted = False, as_wsjtx_permitted = False, as_armed_client_key_id = None,
          as_operator_callsign = None, as_decided_at_unix_ms = unix_ms now \<rparr>
      else
        \<lparr> as_station_agent_permitted = tx_permitted st now StationAgent, as_wsjtx_permitted = tx_permitted st now WsjtxUdp,
          as_armed_client_key_id = armed_client_key_id st, as_operator_callsign = operator_callsign st,
          as_decided_at_unix_ms = unix_ms now \<rparr>)"

fun consent_channel_for :: "string option \<Rightarrow> consent_channel" where
  "consent_channel_for (Some _) = StationAgent"
| "consent_channel_for None = WsjtxUdp"

definition channel_permitted :: "arm_snapshot \<Rightarrow> string option \<Rightarrow> bool" where
  "channel_permitted sn client =
     (case consent_channel_for client of StationAgent \<Rightarrow> as_station_agent_permitted sn | WsjtxUdp \<Rightarrow> as_wsjtx_permitted sn)"

definition snapshot_permits :: "arm_snapshot \<Rightarrow> string option \<Rightarrow> bool" where
  "snapshot_permits sn client =
     (channel_permitted sn client \<and> (case client of None \<Rightarrow> True | Some k \<Rightarrow> as_armed_client_key_id sn = Some k))"

definition is_identity_mismatch :: "arm_snapshot \<Rightarrow> string option \<Rightarrow> bool" where
  "is_identity_mismatch sn client =
     (channel_permitted sn client \<and> (case client of None \<Rightarrow> False | Some k \<Rightarrow> as_armed_client_key_id sn \<noteq> Some k))"

definition operator_attribution :: "arm_snapshot \<Rightarrow> string option \<Rightarrow> string option" where
  "operator_attribution sn client =
     (if (case client of None \<Rightarrow> False | Some k \<Rightarrow> as_armed_client_key_id sn \<noteq> Some k) then None else as_operator_callsign sn)"

text \<open>The live gate, on the arm state under its lock.\<close>

definition remote_tx_permitted :: "arm_state \<Rightarrow> bool \<Rightarrow> arm_time \<Rightarrow> consent_channel \<Rightarrow> bool" where
  "remote_tx_permitted st poisoned now channel = (\<not> poisoned \<and> tx_permitted st now channel)"

definition remote_tx_permitted_for :: "arm_state \<Rightarrow> bool \<Rightarrow> arm_time \<Rightarrow> string option \<Rightarrow> bool" where
  "remote_tx_permitted_for st poisoned now client =
     (if poisoned then False
      else if \<not> tx_permitted st now (consent_channel_for client) then False
      else case client of None \<Rightarrow> True | Some k \<Rightarrow> armed_client_key_id st = Some k)"

definition tx_denied_operator_attribution :: "arm_state \<Rightarrow> bool \<Rightarrow> string option \<Rightarrow> string option" where
  "tx_denied_operator_attribution st poisoned client =
     (if poisoned then None
      else if (case client of None \<Rightarrow> False | Some k \<Rightarrow> armed_client_key_id st \<noteq> Some k) then None
      else operator_callsign st)"

datatype tx_origin = Local_Origin | Remote_Origin

definition tx_send_authorized :: "tx_origin \<Rightarrow> arm_state \<Rightarrow> bool \<Rightarrow> arm_time \<Rightarrow> string option \<Rightarrow> bool" where
  "tx_send_authorized origin st poisoned now client = (origin \<noteq> Remote_Origin \<or> remote_tx_permitted_for st poisoned now client)"

end
