(* ===== verification/Station_Safety.thy ===== *)
theory Station_Safety
  imports Station_Agent
begin

text \<open>
  What the station agent guarantees: over every interleaving of session turns, authorisation refreshes, local switches,
  crashes and restarts, the armed client is the controller and is on the transmit list, and capabilities are never
  attributed to another peer; then the scope of every message to the rig and the QSO engine, the outbound gate, and
  revocation.
\<close>

section \<open>The agent as a machine\<close>

record ('w, 't) agent_state =
  ag_ctx :: arm_context
  ag_sess :: "('w, 't) multi_peer_session option"

text \<open>Everything that touches the shared state: the loop, the tasks that refresh authorisation, the operator's switches, a lock
  poisoned by a panic elsewhere, the end of the task with its guard, and the coordinator's recovery.\<close>

datatype 'w agent_event =
    Ag_Start 'w nat int
  | Ag_Turn agent_env "feed_item list" int
  | Ag_Authz authz_op
  | Ag_Switch arm_event
  | Ag_Poison
  | Ag_Task_End disarm_reason int
  | Ag_Recover int

definition fresh_task :: "arm_context \<Rightarrow> arm_context" where
  "fresh_task ctx =
     ctx\<lparr> ac_peers := fmempty, ac_controller := None, ac_cleanup_owed := None, ac_revoked_jtis := {}, ac_seen_jtis := {},
          ac_generation_seen := 0 \<rparr>"

fun agent_step :: "('w, 'h, 't) relay_lib \<Rightarrow> agent_identity \<Rightarrow> capability_verifier \<Rightarrow> ('w, 't) agent_state \<Rightarrow> 'w agent_event
    \<Rightarrow> ('w, 't) agent_state \<times> bus_message list" where
  "agent_step rl ident v s (Ag_Start w n ms) =
     (case ag_sess s of
        Some _ \<Rightarrow> (s, [])
      | None \<Rightarrow>
          (case session_start rl ident w n (ag_ctx s) of
             (ctx, sess, True) \<Rightarrow> (\<lparr> ag_ctx = ctx, ag_sess = Some sess \<rparr>, [])
           | (ctx, sess, False) \<Rightarrow> (\<lparr> ag_ctx = disarm_on_loss ms ctx, ag_sess = None \<rparr>, [])))"
| "agent_step rl ident v s (Ag_Turn env feed ms) =
     (case ag_sess s of
        None \<Rightarrow> (s, [])
      | Some sess \<Rightarrow>
          (case session_turn rl ident v env (ag_ctx s) sess feed of
             ((ctx, sess, feed, msgs), True) \<Rightarrow> (\<lparr> ag_ctx = ctx, ag_sess = Some sess \<rparr>, msgs)
           | ((ctx, sess, feed, msgs), False) \<Rightarrow> (\<lparr> ag_ctx = disarm_on_loss ms ctx, ag_sess = None \<rparr>, msgs)))"
| "agent_step rl ident v s (Ag_Authz op) = (s\<lparr> ag_ctx := authz_step op (ag_ctx s) \<rparr>, [])"
| "agent_step rl ident v s (Ag_Switch e) =
     (if is_arm_event e then (s, [])
      else case entered (\<lambda>st. arm_step st e) (ag_ctx s) of (ctx, effects) \<Rightarrow> (s\<lparr> ag_ctx := apply_arm_effects effects ctx \<rparr>, []))"
| "agent_step rl ident v s Ag_Poison = (s\<lparr> ag_ctx := (ag_ctx s)\<lparr> ac_poisoned := True \<rparr> \<rparr>, [])"
| "agent_step rl ident v s (Ag_Task_End reason ms) =
     (\<lparr> ag_ctx = fresh_task (guard_drop reason ms (ag_ctx s)), ag_sess = None \<rparr>, [])"
| "agent_step rl ident v s (Ag_Recover ms) =
     (if ag_sess s = None then (s\<lparr> ag_ctx := fail_safe_disarm_remote_tx ms (ag_ctx s) \<rparr>, []) else (s, []))"

definition agent_init :: "string set \<Rightarrow> bool \<Rightarrow> (string, bytes) fmap \<Rightarrow> ('w, 't) agent_state" where
  "agent_init static_list cqdx_will_poll keys =
     \<lparr> ag_ctx =
         \<lparr> ac_arm = arm_state_new, ac_poisoned = False, ac_split_tx_hz = 0, ac_client_keys = keys, ac_tx_allow_list = static_list,
           ac_allow_poisoned = False, ac_tx_arm_allow_list = seed_tx_arm_allow_list static_list cqdx_will_poll,
           ac_revoked_jtis = {}, ac_seen_jtis = {}, ac_audit = [], ac_peers = fmempty, ac_controller = None,
           ac_cleanup_owed = None, ac_revocation_pending = False, ac_authz_generation = 0, ac_generation_seen = 0 \<rparr>,
       ag_sess = None \<rparr>"

section \<open>The arm invariant\<close>

text \<open>The armed client is eligible; it is also the controller, unless the lock is poisoned, when nothing may be keyed.\<close>

definition arm_client_ok :: "arm_context \<Rightarrow> bool" where
  "arm_client_ok ctx \<longleftrightarrow>
     (\<forall>c. armed_client_key_id (ac_arm ctx) = Some c \<longrightarrow>
        c \<in> ac_tx_arm_allow_list ctx \<and> (ac_poisoned ctx \<or> ac_controller ctx = Some c))"

text \<open>What decides it: the arm, its lock, the list and the controller.\<close>

lemma arm_client_ok_cong:
  "ac_arm ctx' = ac_arm ctx \<Longrightarrow> ac_tx_arm_allow_list ctx' = ac_tx_arm_allow_list ctx \<Longrightarrow> ac_poisoned ctx' = ac_poisoned ctx \<Longrightarrow>
     ac_controller ctx' = ac_controller ctx \<Longrightarrow> arm_client_ok ctx' = arm_client_ok ctx"
  by (simp add: arm_client_ok_def)

lemma disarmed_client: "armed_client_key_id (fst (disarm_with_reason st r ms)) = None"
  by (simp add: armed_client_key_id_def)

lemma unarmed_ok: "armed_client_key_id (ac_arm ctx) = None \<Longrightarrow> arm_client_ok ctx"
  by (simp add: arm_client_ok_def)

text \<open>The transitions that can only shorten the arm.\<close>

definition arm_shrinks :: "arm_state \<Rightarrow> arm_state \<Rightarrow> bool" where
  "arm_shrinks st' st \<longleftrightarrow>
     (case session st' of None \<Rightarrow> True | Some s' \<Rightarrow> (case session st of None \<Rightarrow> False | Some s \<Rightarrow> same_arm s' s))"

lemma arm_shrinks_client: "arm_shrinks st' st \<Longrightarrow> armed_client_key_id st' \<in> {None, armed_client_key_id st}"
  by (auto simp: arm_shrinks_def armed_client_key_id_def same_arm_fields split: option.splits)

lemma arm_shrinks_disarmed [simp]: "session st' = None \<Longrightarrow> arm_shrinks st' st"
  by (simp add: arm_shrinks_def)

lemma non_arm_shrinks:
  assumes "\<not> is_arm_event e"
  shows "arm_shrinks (fst (arm_step st e)) st"
proof -
  have refl: "same_arm s s" for s by (simp add: same_arm_def)
  have same: "same_arm s s" "same_arm (slide s seq now) s" for s seq now by (rule refl, rule same_arm_slide [OF refl])
  show ?thesis using assms by (cases e) (simp_all add: arm_shrinks_def session_simps same split: option.splits)
qed

text \<open>Fields that the small steps leave alone.\<close>

definition same_control :: "arm_context \<Rightarrow> arm_context \<Rightarrow> bool" where
  "same_control ctx' ctx \<longleftrightarrow>
     ac_tx_arm_allow_list ctx' = ac_tx_arm_allow_list ctx \<and> ac_poisoned ctx' = ac_poisoned ctx \<and> ac_controller ctx' = ac_controller ctx"

lemma audit_keeps [simp]:
  "ac_arm (apply_arm_effects effs ctx) = ac_arm ctx" "ac_arm (record_audit ts k op d ctx) = ac_arm ctx"
  "same_control (apply_arm_effects effs ctx) ctx' = same_control ctx ctx'" "same_control (record_audit ts k op d ctx) ctx' = same_control ctx ctx'"
  "ac_peers (apply_arm_effects effs ctx) = ac_peers ctx" "ac_peers (record_audit ts k op d ctx) = ac_peers ctx"
  "ac_controller (apply_arm_effects effs ctx) = ac_controller ctx" "ac_controller (record_audit ts k op d ctx) = ac_controller ctx"
  "ac_poisoned (apply_arm_effects effs ctx) = ac_poisoned ctx" "ac_poisoned (record_audit ts k op d ctx) = ac_poisoned ctx"
  "ac_tx_arm_allow_list (apply_arm_effects effs ctx) = ac_tx_arm_allow_list ctx"
  "ac_tx_arm_allow_list (record_audit ts k op d ctx) = ac_tx_arm_allow_list ctx"
  "ac_tx_allow_list (apply_arm_effects effs ctx) = ac_tx_allow_list ctx" "ac_tx_allow_list (record_audit ts k op d ctx) = ac_tx_allow_list ctx"
  "ac_allow_poisoned (apply_arm_effects effs ctx) = ac_allow_poisoned ctx" "ac_allow_poisoned (record_audit ts k op d ctx) = ac_allow_poisoned ctx"
  "ac_revoked_jtis (apply_arm_effects effs ctx) = ac_revoked_jtis ctx" "ac_revoked_jtis (record_audit ts k op d ctx) = ac_revoked_jtis ctx"
  by (simp_all add: apply_arm_effects_def record_audit_def same_control_def)

text \<open>Every capability held for a peer is that of a token which verified and names this very peer.\<close>

definition auth_of_token :: "wire_lib \<Rightarrow> capability_verifier \<Rightarrow> string \<Rightarrow> peer_auth \<Rightarrow> bool" where
  "auth_of_token lib v p a \<longleftrightarrow>
     (\<exists>token t cap. verify_capability_token lib v token t = Inr cap \<and> vc_client_key_id cap = p \<and>
        a = \<lparr> pa_scopes = vc_scopes cap, pa_exp_ms = vc_exp_ms cap, pa_jti = vc_jti cap \<rparr>)"

definition auths_verified :: "wire_lib \<Rightarrow> capability_verifier \<Rightarrow> (string, peer_auth option) fmap \<Rightarrow> bool" where
  "auths_verified lib v peers \<longleftrightarrow> (\<forall>p a. fmlookup peers p = Some (Some a) \<longrightarrow> auth_of_token lib v p a)"

text \<open>An armed session is that of a grant which verified, with the token it names.\<close>

definition granted_session :: "wire_lib \<Rightarrow> capability_verifier \<Rightarrow> armed_session \<Rightarrow> bool" where
  "granted_session lib v s \<longleftrightarrow>
     (\<exists>token cap grant vk allow revoked sid t seen g seen' begun.
        verify_capability_token lib v token t = Inr cap \<and> verify_arm_grant lib v grant cap vk allow revoked sid t seen = (Inr g, seen') \<and>
        same_arm s (session_of_grant g begun))"

definition arm_granted :: "wire_lib \<Rightarrow> capability_verifier \<Rightarrow> arm_state \<Rightarrow> bool" where
  "arm_granted lib v st \<longleftrightarrow> (case session st of None \<Rightarrow> True | Some s \<Rightarrow> granted_session lib v s)"

lemma granted_same: "granted_session lib v s \<Longrightarrow> same_arm s' s \<Longrightarrow> granted_session lib v s'"
  by (simp add: granted_session_def same_arm_def)

lemma arm_granted_shrinks: "arm_granted lib v st \<Longrightarrow> arm_shrinks st' st \<Longrightarrow> arm_granted lib v st'"
  by (auto simp: arm_granted_def arm_shrinks_def granted_same split: option.splits)

lemma arm_granted_unarmed [simp]: "armed_client_key_id st = None \<Longrightarrow> arm_granted lib v st"
  by (simp add: arm_granted_def armed_client_key_id_def)

definition ctx_inv :: "wire_lib \<Rightarrow> capability_verifier \<Rightarrow> arm_context \<Rightarrow> bool" where
  "ctx_inv lib v ctx \<longleftrightarrow> arm_client_ok ctx \<and> arm_granted lib v (ac_arm ctx) \<and> auths_verified lib v (ac_peers ctx)"

lemma auths_verified_simps [intro]:
  "auths_verified lib v m \<Longrightarrow> auths_verified lib v (fmupd p None m)"
  "auths_verified lib v m \<Longrightarrow> auth_of_token lib v p a \<Longrightarrow> auths_verified lib v (fmupd p (Some a) m)"
  "auths_verified lib v m \<Longrightarrow> auths_verified lib v (fmdrop p m)"
  "auths_verified lib v m \<Longrightarrow> (\<And>x. f x \<in> {None, x}) \<Longrightarrow> auths_verified lib v (fmmap f m)"
  "auths_verified lib v fmempty"
proof -
  show "auths_verified lib v m \<Longrightarrow> (\<And>x. f x \<in> {None, x}) \<Longrightarrow> auths_verified lib v (fmmap f m)"
    unfolding auths_verified_def by (auto simp: fmlookup_map) (metis insertE option.distinct(1) singletonD)
qed (auto simp: auths_verified_def split: if_splits)

lemma ctx_inv_cong:
  "same_control ctx' ctx \<Longrightarrow> ac_arm ctx' = ac_arm ctx \<Longrightarrow> ac_peers ctx' = ac_peers ctx \<Longrightarrow> ctx_inv lib v ctx' = ctx_inv lib v ctx"
  by (simp add: ctx_inv_def same_control_def arm_client_ok_def)

lemma ctx_inv_audit [simp]:
  "ctx_inv lib v (apply_arm_effects effs ctx) = ctx_inv lib v ctx" "ctx_inv lib v (record_audit ts k op d ctx) = ctx_inv lib v ctx"
  by (simp_all add: ctx_inv_def arm_client_ok_def)

lemma ctx_inv_irrelevant [simp]:
  "ctx_inv lib v (ctx\<lparr> ac_cleanup_owed := x1 \<rparr>) = ctx_inv lib v ctx" "ctx_inv lib v (ctx\<lparr> ac_seen_jtis := x2 \<rparr>) = ctx_inv lib v ctx"
  "ctx_inv lib v (ctx\<lparr> ac_revocation_pending := x3 \<rparr>) = ctx_inv lib v ctx" "ctx_inv lib v (ctx\<lparr> ac_generation_seen := x4 \<rparr>) = ctx_inv lib v ctx"
  "ctx_inv lib v (ctx\<lparr> ac_authz_generation := x5 \<rparr>) = ctx_inv lib v ctx" "ctx_inv lib v (ctx\<lparr> ac_tx_allow_list := x6 \<rparr>) = ctx_inv lib v ctx"
  "ctx_inv lib v (ctx\<lparr> ac_client_keys := x7 \<rparr>) = ctx_inv lib v ctx" "ctx_inv lib v (ctx\<lparr> ac_revoked_jtis := x8 \<rparr>) = ctx_inv lib v ctx"
  "ctx_inv lib v (ctx\<lparr> ac_split_tx_hz := x9 \<rparr>) = ctx_inv lib v ctx"
  by (simp_all add: ctx_inv_def arm_client_ok_def)

lemma ctx_inv_peers: "ctx_inv lib v ctx \<Longrightarrow> auths_verified lib v m \<Longrightarrow> ctx_inv lib v (ctx\<lparr> ac_peers := m \<rparr>)"
  by (simp add: ctx_inv_def arm_client_ok_def)

text \<open>A transition of the arm that keeps or clears its client, and any disarm, keep the invariant; after a disarm under a sound
  lock the controller may change.\<close>

lemma ctx_inv_shrink_arm:
  "ctx_inv lib v ctx \<Longrightarrow> arm_shrinks st (ac_arm ctx) \<Longrightarrow> ctx_inv lib v (ctx\<lparr> ac_arm := st \<rparr>)"
  using arm_shrinks_client [of st "ac_arm ctx"] arm_granted_shrinks [of lib v "ac_arm ctx" st] by (auto simp: ctx_inv_def arm_client_ok_def)

lemma ctx_inv_locked:
  assumes "ctx_inv lib v ctx" and "\<And>st. arm_shrinks (fst (f st)) st"
  shows "ctx_inv lib v (fst (locked f ctx))" and "ctx_inv lib v (fst (entered f ctx))"
  using assms ctx_inv_shrink_arm [OF assms(1)] by (auto simp: locked_def entered_def split: prod.splits) (metis fst_conv)+

lemma step_shrinks:
  "arm_shrinks (fst (tick st now)) st" "arm_shrinks (fst (heartbeat st j q now)) st"
  "arm_shrinks (fst (disarm st ms)) st" "arm_shrinks (fst (disarm_with_reason st r ms)) st"
  using non_arm_shrinks [of "Ev_Tick now" st] non_arm_shrinks [of "Ev_Heartbeat j q now" st] non_arm_shrinks [of "Ev_Disarm ms" st]
    non_arm_shrinks [of "Ev_DisarmReason r ms" st] by simp_all

lemma disarm_audited_inv:
  assumes "ctx_inv lib v ctx"
  shows "ctx_inv lib v ((disarm_audited ms ctx)\<lparr> ac_controller := c \<rparr>)" and "ctx_inv lib v (disarm_audited ms ctx)"
proof -
  have un: "armed_client_key_id (fst (disarm (ac_arm ctx) ms)) = None" by (simp add: disarm_def disarmed_client)
  show "ctx_inv lib v ((disarm_audited ms ctx)\<lparr> ac_controller := c \<rparr>)"
    using assms un by (auto simp: disarm_audited_def locked_def ctx_inv_def arm_client_ok_def split: prod.splits)
  show "ctx_inv lib v (disarm_audited ms ctx)"
    using assms un by (auto simp: disarm_audited_def locked_def ctx_inv_def arm_client_ok_def split: prod.splits)
qed

lemma release_controller_inv: "ctx_inv lib v ctx \<Longrightarrow> ctx_inv lib v (fst (release_controller env ms sample now ctx))"
  by (simp add: release_controller_def Let_def disarm_audited_inv)

section \<open>Every operation keeps it\<close>

lemma authz_step_frame [simp]:
  "ac_controller (authz_step op ctx) = ac_controller ctx" "ac_poisoned (authz_step op ctx) = ac_poisoned ctx"
  "ac_peers (authz_step op ctx) = ac_peers ctx" "ac_revoked_jtis (authz_step op ctx) = ac_revoked_jtis ctx"
  by (cases op; auto simp: publish_tx_arm_def revoke_tx_arm_def entered_def Let_def split: option.splits prod.splits)+

lemma authz_run_frame [simp]:
  "ac_controller (fold authz_step ops ctx) = ac_controller ctx" "ac_poisoned (fold authz_step ops ctx) = ac_poisoned ctx"
  "ac_peers (fold authz_step ops ctx) = ac_peers ctx"
  by (induction ops arbitrary: ctx) simp_all

lemma authz_step_inv: "ctx_inv lib v ctx \<Longrightarrow> ctx_inv lib v (authz_step op ctx)"
proof (cases op)
  case (Publish_Tx_Arm s ms)
  assume i: "ctx_inv lib v ctx"
  have un: "armed_client_key_id (fst (disarm_with_reason (ac_arm ctx) AuthorizationRevoked ms)) = None" by (rule disarmed_client)
  show ?thesis
  proof (cases "\<exists>c. armed_client_key_id (ac_arm ctx) = Some c \<and> c \<notin> s")
    case True
    then show ?thesis using i un Publish_Tx_Arm
      by (auto simp: publish_tx_arm_def entered_def ctx_inv_def arm_client_ok_def split: prod.splits)
  next
    case False
    then show ?thesis using i Publish_Tx_Arm by (auto simp: publish_tx_arm_def ctx_inv_def arm_client_ok_def split: option.splits)
  qed
next
  case (Revoke_Tx_Arm removed ms)
  assume i: "ctx_inv lib v ctx"
  have un: "armed_client_key_id (fst (disarm_with_reason (ac_arm ctx) AuthorizationRevoked ms)) = None" by (rule disarmed_client)
  show ?thesis
  proof (cases "\<exists>c. armed_client_key_id (ac_arm ctx) = Some c \<and> c \<in> set removed")
    case True
    then show ?thesis using i un Revoke_Tx_Arm
      by (auto simp: revoke_tx_arm_def entered_def ctx_inv_def arm_client_ok_def Let_def split: prod.splits)
  next
    case False
    then show ?thesis using i Revoke_Tx_Arm by (auto simp: revoke_tx_arm_def ctx_inv_def arm_client_ok_def Let_def split: option.splits)
  qed
qed (simp_all)

lemma authz_run_inv: "ctx_inv lib v ctx \<Longrightarrow> ctx_inv lib v (fold authz_step ops ctx)"
  by (induction ops arbitrary: ctx) (simp_all add: authz_step_inv)

text \<open>The gate: whoever passes is the controller.\<close>

lemma controller_gate_proceeds:
  assumes "controller_gate_check env ctx peer sample now = (ctx', Proceed grab)"
  shows "ac_controller ctx' = Some peer" and "ac_peers ctx' = ac_peers ctx" and "ac_tx_allow_list ctx' = ac_tx_allow_list ctx"
    and "ac_allow_poisoned ctx' = ac_allow_poisoned ctx" and "ac_revoked_jtis ctx' = ac_revoked_jtis ctx" and "ac_arm ctx' = ac_arm ctx"
    and "ac_poisoned ctx' = ac_poisoned ctx"
  using assms by (auto simp: controller_gate_check_def owe_qso_cleanup_def Let_def split: option.splits if_splits)

lemma controller_gate_inv:
  assumes "ctx_inv lib v ctx"
  shows "ctx_inv lib v (fst (controller_gate_check env ctx peer sample now))"
  using assms
  by (auto simp: controller_gate_check_def owe_qso_cleanup_def Let_def ctx_inv_def arm_client_ok_def split: option.splits)

lemma gated_inv:
  assumes "ctx_inv lib v ctx" and "\<And>ctx' grab. ctx_inv lib v ctx' \<Longrightarrow> ac_controller ctx' = Some peer \<Longrightarrow> ctx_inv lib v (fst (f ctx' grab))"
  shows "ctx_inv lib v (fst (gated env ctx peer now f))"
proof -
  obtain ctx' g where c: "controller_gate_check env ctx peer (en_clock env 0) now = (ctx', g)" by fastforce
  have "ctx_inv lib v ctx'" using controller_gate_inv [OF assms(1), of env peer "en_clock env 0" now] by (simp add: c)
  then show ?thesis using assms(2) c controller_gate_proceeds [of env ctx peer "en_clock env 0" now ctx']
    by (cases g) (auto simp: gated_def)
qed

text \<open>Arming under the lock.\<close>

lemma armed_by_grant: "armed_client_key_id (fst (arm st g now)) \<in> {armed_client_key_id st, Some (g_client_key_id g)}"
  by (auto simp: arm_def armed_client_key_id_def session_of_grant_def Let_def split: prod.splits)

lemma arm_granted_arm:
  "arm_granted lib v st \<Longrightarrow> granted_session lib v (session_of_grant g now) \<Longrightarrow> arm_granted lib v (fst (arm st g now))"
  by (auto simp: arm_def arm_granted_def Let_def split: prod.splits)

lemma arm_under_lock_inv:
  assumes "ctx_inv lib v ctx" and "ac_controller ctx = Some client" and "g_client_key_id g = client"
    and "granted_session lib v (session_of_grant g now)"
  shows "ctx_inv lib v (fst (arm_under_lock ctx client g now))"
  using assms armed_by_grant [of "ac_arm ctx" g now] arm_granted_arm [of lib v "ac_arm ctx" g now]
  by (auto simp: arm_under_lock_def ctx_inv_def arm_client_ok_def split: prod.splits)

lemma granted_by_verification:
  "verify_capability_token lib v token t = Inr cap \<Longrightarrow> verify_arm_grant lib v grant cap vk allow revoked sid t seen = (Inr g, seen') \<Longrightarrow>
     granted_session lib v (session_of_grant g now)"
  unfolding granted_session_def same_arm_def by blast

lemma accepted_client:
  assumes "verify_arm_grant lib v grant cap vk allow revoked sid now seen = (Inr g, seen')"
  shows "get_str grant ''clientKeyId'' = Some (g_client_key_id g)"
  using assms unfolding verify_arm_grant_accepts
  by (elim exE conjE) (simp add: minted_grant_def timely_grant_def grant_bound_def)

lemma verify_and_arm_inv:
  assumes "ctx_inv lib v ctx" and "ac_controller ctx = Some peer"
  shows "ctx_inv lib v (fst (verify_and_arm lib v env ctx token grant peer sid sample now))"
proof -
  have "ctx_inv lib v (fst (arm_under_lock (fold authz_step ops (ctx\<lparr> ac_seen_jtis := seen' \<rparr>)) peer g t))"
    if "get_str grant ''clientKeyId'' = Some peer" "verify_capability_token lib v token ms = Inr cap"
      "verify_arm_grant lib v grant cap vk allow revoked sid ms seen = (Inr g, seen')" for cap vk allow revoked ms seen g seen' ops t
  proof (rule arm_under_lock_inv)
    show "ctx_inv lib v (fold authz_step ops (ctx\<lparr> ac_seen_jtis := seen' \<rparr>))" using assms(1) by (simp add: authz_run_inv)
    show "ac_controller (fold authz_step ops (ctx\<lparr> ac_seen_jtis := seen' \<rparr>)) = Some peer" using assms(2) by simp
    show "g_client_key_id g = peer" using accepted_client [OF that(3)] that(1) by simp
    show "granted_session lib v (session_of_grant g t)" using granted_by_verification [OF that(2,3)] .
  qed
  then show ?thesis using assms(1) by (auto simp: verify_and_arm_def split: option.splits sum.splits prod.splits)
qed

text \<open>Hello, expiry, departures.\<close>

lemma ctx_inv_auths: "ctx_inv lib v ctx \<Longrightarrow> auths_verified lib v (ac_peers ctx)"
  by (simp add: ctx_inv_def)

lemma ctx_inv_forget:
  "ctx_inv lib v ctx \<Longrightarrow> ctx_inv lib v (ctx\<lparr> ac_peers := fmupd p None (ac_peers ctx) \<rparr>)"
  "ctx_inv lib v ctx \<Longrightarrow> ctx_inv lib v (ctx\<lparr> ac_peers := fmdrop p (ac_peers ctx) \<rparr>)"
  "ctx_inv lib v ctx \<Longrightarrow> ctx_inv lib v (ctx\<lparr> ac_peers := fmempty \<rparr>)"
  "ctx_inv lib v ctx \<Longrightarrow> (\<And>x. f x \<in> {None, x}) \<Longrightarrow> ctx_inv lib v (ctx\<lparr> ac_peers := fmmap f (ac_peers ctx) \<rparr>)"
  by (rule ctx_inv_peers; auto dest: ctx_inv_auths)+

lemma clear_peer_auth_inv: "ctx_inv lib v ctx \<Longrightarrow> ctx_inv lib v (fst (clear_peer_auth env sample ctx peer ms))"
  by (auto simp: clear_peer_auth_def Let_def split: option.splits intro!: release_controller_inv ctx_inv_forget)

lemma hello_auth:
  "verify_capability_token lib v token t = Inr cap \<Longrightarrow>
     auth_of_token lib v (vc_client_key_id cap) \<lparr> pa_scopes = vc_scopes cap, pa_exp_ms = vc_exp_ms cap, pa_jti = vc_jti cap \<rparr>"
  by (auto simp: auth_of_token_def)

lemma dispatch_hello_inv:
  assumes "ctx_inv lib v ctx"
  shows "ctx_inv lib v (fst (dispatch_hello lib v env sample ctx token peer ms))"
proof -
  have c: "ctx_inv lib v ctx'" if "clear_peer_auth env sample ctx peer ms = (ctx', sends)" for ctx' sends
    using clear_peer_auth_inv [OF assms, of env sample peer ms] that by simp
  have a: "auths_verified lib v (ac_peers ctx)" using assms by (simp add: ctx_inv_def)
  show ?thesis using assms c a
    by (auto simp: dispatch_hello_def Let_def intro!: ctx_inv_peers auths_verified_simps(2) hello_auth split: option.splits sum.splits prod.splits)
qed

lemma sweep_expired_inv: "ctx_inv lib v ctx \<Longrightarrow> ctx_inv lib v (fst (sweep_expired_peer_auth env ctx ms))"
  by (simp add: sweep_expired_peer_auth_def ctx_inv_forget(4))

lemma release_expired_inv:
  "ctx_inv lib v (fst acc) \<Longrightarrow> ctx_inv lib v (fst (release_expired env sample now ps acc))"
proof (induction ps arbitrary: acc)
  case (Cons p ps)
  obtain ctx sends where acc: "acc = (ctx, sends)" by fastforce
  show ?case using Cons by (auto simp: acc intro!: Cons.IH release_controller_inv)
qed simp

lemma expire_peer_auth_inv:
  assumes "ctx_inv lib v ctx"
  shows "ctx_inv lib v (fst (expire_peer_auth env sample ctx now))"
  using sweep_expired_inv [OF assms, of env "unix_ms now"]
  by (auto simp: expire_peer_auth_def split: prod.splits intro!: release_expired_inv)

lemma peer_left_inv: "ctx_inv lib v ctx \<Longrightarrow> ctx_inv lib v (fst (peer_left env sample ctx peer now))"
  by (simp add: peer_left_def Let_def release_controller_inv ctx_inv_forget)

lemma flush_inv [simp]: "ctx_inv lib v (fst (flush_qso_cleanup b ctx)) = ctx_inv lib v ctx"
  by (simp add: flush_qso_cleanup_def split: option.splits)

lemma arm_transition_inv [simp]: "ctx_inv lib v (fst (arm_transition_sends env ctx effs sample now)) = ctx_inv lib v ctx"
  by (simp add: arm_transition_sends_def Let_def)

lemma sweep_arm_expiry_inv: "ctx_inv lib v ctx \<Longrightarrow> ctx_inv lib v (fst (sweep_arm_expiry env ctx s1 s2 now))"
  using ctx_inv_locked(1) [of lib v ctx "\<lambda>st. tick st (fresh_arm_time s1 now)"] step_shrinks(1)
  by (auto simp: sweep_arm_expiry_def split: prod.splits dest!: arg_cong [where f = fst])

lemma take_control_inv:
  assumes "ctx_inv lib v ctx"
  shows "ctx_inv lib v (fst (take_control env ctx peer now))"
proof (cases "ac_controller ctx \<noteq> None \<and> ac_controller ctx \<noteq> Some peer")
  case True
  then show ?thesis using disarm_audited_inv(1) [OF assms, where ms = "unix_ms now" and c = "Some peer"]
    by (simp add: take_control_def owe_qso_cleanup_def Let_def ctx_inv_def arm_client_ok_def)
next
  case False
  then show ?thesis using assms by (auto simp: take_control_def owe_qso_cleanup_def Let_def ctx_inv_def arm_client_ok_def)
qed

lemma tx_request_inv: "ctx_inv lib v ctx \<Longrightarrow> ctx_inv lib v (fst (dispatch_tx_request env ctx k peer now grab))"
proof -
  assume i: "ctx_inv lib v ctx"
  have "ctx_inv lib v ctx'" if "flush_qso_cleanup b (record_audit ts kd op d ctx) = (ctx', m)" for b ts kd op d ctx' m
    using flush_inv [of lib v b "record_audit ts kd op d ctx"] that i by simp
  then show ?thesis using i by (auto simp: dispatch_tx_request_def Let_def split: prod.splits)
qed

lemma stop_cq_inv: "ctx_inv lib v ctx \<Longrightarrow> ctx_inv lib v (fst (dispatch_stop_cq env ctx peer grab))"
proof -
  assume i: "ctx_inv lib v ctx"
  have "ctx_inv lib v ctx'" if "flush_qso_cleanup b ctx = (ctx', m)" for b ctx' m using flush_inv [of lib v b ctx] that i by simp
  then show ?thesis by (auto simp: dispatch_stop_cq_def split: prod.splits)
qed

lemma dispatch_action_inv:
  assumes "ctx_inv lib v ctx"
  shows "ctx_inv lib v (fst (dispatch_action lib v env ctx action peer sid now))"
proof -
  have "ctx_inv lib v (fst (dispatch_admitted lib v env ctx action peer sid now))"
  proof (cases action)
    case (ArmAction token grant)
    have "ctx_inv lib v ctx'" if "ctx_inv lib v c" "ac_controller c = Some peer"
        "verify_and_arm lib v env c token grant peer sid (en_clock env 1) now = (ctx', r)" for c ctx' r
      using verify_and_arm_inv [OF that(1,2), of env token grant sid "en_clock env 1" now] that(3) by simp
    then show ?thesis unfolding ArmAction dispatch_admitted.simps
      by (intro gated_inv [OF assms]) (auto split: prod.splits sum.splits)
  next
    case (Heartbeat jti seq)
    have "ctx_inv lib v ctx'" if "locked (\<lambda>st. heartbeat st jti seq t) ctx = (ctx', effs)" for ctx' effs t
      using ctx_inv_locked(1) [OF assms, of "\<lambda>st. heartbeat st jti seq t"] step_shrinks(2) that by (metis fst_conv)
    then show ?thesis unfolding Heartbeat by (auto simp: arm_transition_sends_def Let_def split: prod.splits)
  next
    case (Hello token)
    have "ctx_inv lib v ctx'" if "dispatch_hello lib v env t ctx token peer ms = (ctx', r)" for ctx' r t ms
      using dispatch_hello_inv [OF assms, of env t token peer ms] that by simp
    then show ?thesis unfolding Hello by (auto split: prod.splits)
  next
    case (SetSplit enabled hz)
    then show ?thesis
      by (auto simp: assms forward_split_change_def split: option.splits intro!: gated_inv [OF assms])
  next
    case TakeControl
    then show ?thesis using assms take_control_inv [OF assms, of env peer now] by (auto split: prod.splits)
  next
    case ReleaseControl
    then show ?thesis using assms release_controller_inv [OF assms] by (auto split: prod.splits) (metis fst_conv)
  qed (auto simp: assms disarm_audited_inv Let_def intro!: gated_inv [OF assms] tx_request_inv stop_cq_inv split: option.splits)
  then show ?thesis by (simp add: dispatch_action_def assms)
qed

text \<open>Eviction: the released controller is the evicted one, and an evicted armer is disarmed.\<close>

lemma evict_frame [simp]:
  "ac_arm (fold evict_peer ps ctx) = ac_arm ctx" "ac_controller (fold evict_peer ps ctx) = ac_controller ctx"
  "ac_poisoned (fold evict_peer ps ctx) = ac_poisoned ctx" "ac_tx_arm_allow_list (fold evict_peer ps ctx) = ac_tx_arm_allow_list ctx"
  "ac_authz_generation (fold evict_peer ps ctx) = ac_authz_generation ctx"
  "ac_tx_allow_list (fold evict_peer ps ctx) = ac_tx_allow_list ctx"
  "ac_allow_poisoned (fold evict_peer ps ctx) = ac_allow_poisoned ctx"
  by (induction ps arbitrary: ctx) (auto simp: evict_peer_def split: option.splits)

lemma evict_inv: "ctx_inv lib v ctx \<Longrightarrow> ctx_inv lib v (fold evict_peer ps ctx)"
proof (induction ps arbitrary: ctx)
  case (Cons p ps)
  have "ctx_inv lib v (evict_peer p ctx)"
    using ctx_inv_forget(2) [OF Cons.prems, of p] by (auto simp: evict_peer_def split: option.splits simp: ctx_inv_def arm_client_ok_def)
  then show ?case using Cons.IH by simp
qed simp

text \<open>The part of the reconciliation after the peers are gone.\<close>

definition settle_eviction :: "string list \<Rightarrow> int \<Rightarrow> arm_context \<Rightarrow> arm_context" where
  "settle_eviction evicted ms ctx =
     (let controller_evicted = (case ac_controller ctx of None \<Rightarrow> False | Some c \<Rightarrow> c \<in> set evicted);
          armer_evicted = (case armed_client_key_id (ac_arm ctx) of None \<Rightarrow> False | Some k \<Rightarrow> k \<in> set evicted);
          (ctx, effects) = (if controller_evicted \<or> armer_evicted
                            then entered (\<lambda>st. disarm_with_reason st AuthorizationRevoked ms) ctx else (ctx, []));
          ctx = apply_arm_effects effects ctx in
      if controller_evicted then ctx\<lparr> ac_controller := None \<rparr> else ctx)"

lemma reconcile_eq:
  assumes "ac_authz_generation ctx \<noteq> ac_generation_seen ctx"
    and "replace_allowed sess (if ac_allow_poisoned ctx then {} else ac_tx_allow_list ctx) = (sess', ev1)"
    and "ev = ev1 @ sorted_list_of_fset (ffilter (\<lambda>p. p \<notin> (if ac_allow_poisoned ctx then {} else ac_tx_allow_list ctx) \<and> p \<notin> set ev1) (fmdom (ac_peers ctx)))"
    and "ctx1 = settle_eviction ev (unix_ms now) (fold evict_peer ev ctx)"
  shows "fst (reconcile_authorizations env sample ctx sess now) = ctx1\<lparr> ac_generation_seen := ac_authz_generation ctx1 \<rparr> \<and>
    fst (snd (reconcile_authorizations env sample ctx sess now)) = sess'"
  using assms by (simp add: reconcile_authorizations_def settle_eviction_def Let_def split: prod.splits)

lemma settle_inv:
  assumes "ctx_inv lib v ctx"
  shows "ctx_inv lib v (settle_eviction ev ms ctx)"
proof -
  have un: "armed_client_key_id (fst (disarm_with_reason (ac_arm ctx) AuthorizationRevoked ms)) = None" by (rule disarmed_client)
  show ?thesis
    using assms un by (auto simp: settle_eviction_def entered_def ctx_inv_def arm_client_ok_def Let_def split: option.splits prod.splits)
qed

lemma reconcile_inv:
  assumes "ctx_inv lib v ctx" and "relay_inv rl ident sess" and "reconcile_authorizations env sample ctx sess now = (ctx', sess', sends)"
  shows "ctx_inv lib v ctx'" and "relay_inv rl ident sess'"
proof -
  let ?allow = "if ac_allow_poisoned ctx then {} else ac_tx_allow_list ctx"
  obtain s1 ev1 where r: "replace_allowed sess ?allow = (s1, ev1)" by fastforce
  have "ctx_inv lib v ctx' \<and> relay_inv rl ident sess'"
  proof (cases "ac_authz_generation ctx = ac_generation_seen ctx")
    case True
    then show ?thesis using assms by (simp add: reconcile_authorizations_def)
  next
    case False
    note eq = reconcile_eq [OF False r refl refl, of env sample now]
    have c: "ctx_inv lib v ((settle_eviction ev ms (fold evict_peer ev ctx))\<lparr> ac_generation_seen := g \<rparr>)" for ev ms g
      unfolding ctx_inv_irrelevant by (rule settle_inv [OF evict_inv [OF assms(1)]])
    have "ctx_inv lib v ctx'" using conjunct1 [OF eq] unfolding assms(3) fst_conv by (simp only: c)
    moreover have "relay_inv rl ident sess'" using eq assms(3) replace_allowed_inv [OF assms(2), of ?allow] r by auto
    ultimately show ?thesis ..
  qed
  then show "ctx_inv lib v ctx'" and "relay_inv rl ident sess'" by simp_all
qed

lemma deliver_inv: "relay_inv rl ident sess \<Longrightarrow> relay_inv rl ident (deliver_sends rl env ctx clock sends sess)"
  by (induction sends arbitrary: sess clock) (auto simp: send_to_inv split: option.splits)

lemma drain_inv:
  "relay_inv rl ident sess \<Longrightarrow> relay_inv rl ident (snd (drain_read_stream rl env ctx clock n feed sess))"
  by (induction n arbitrary: feed sess) (auto simp: broadcast_inv split: option.splits list.splits feed_item.splits)

lemma housekeeping_inv:
  assumes "ctx_inv lib v ctx" and "relay_inv rl ident sess" and "session_housekeeping rl env ctx sess = (ctx', sess')"
  shows "ctx_inv lib v ctx' \<and> relay_inv rl ident sess'"
proof -
  obtain c1 s1 sends1 where r: "reconcile_authorizations env (en_clock env 21) ctx sess (en_clock env 20) = (c1, s1, sends1)"
    by (metis prod_cases3)
  note i = reconcile_inv [OF assms(1,2) r]
  let ?c2 = "c1\<lparr> ac_revocation_pending := False \<rparr>"
  obtain c3 sends3 where e: "expire_peer_auth env (en_clock env 24) ?c2 (fresh_arm_time (en_clock env 23) (en_clock env 20)) = (c3, sends3)" by fastforce
  have "ctx_inv lib v c3" using expire_peer_auth_inv [of lib v ?c2 env "en_clock env 24" "fresh_arm_time (en_clock env 23) (en_clock env 20)"] i(1) by (simp add: e)
  then show ?thesis using assms(3) i(2) by (auto simp: session_housekeeping_def r e deliver_inv Let_def)
qed

lemma handle_plaintext_inv:
  assumes "ctx_inv (wire rl) v ctx" and "relay_inv rl ident sess"
    and "handle_plaintext rl v env ctx sess feed peer pt now = (ctx', sess', feed', msgs)"
  shows "ctx_inv (wire rl) v ctx' \<and> relay_inv rl ident sess'"
proof (cases "map_client_frame (wire rl) pt")
  case (Inl e)
  then show ?thesis using assms by (simp add: handle_plaintext_def)
next
  case (Inr action)
  let ?sid = "case session_id sess peer of None \<Rightarrow> [] | Some s \<Rightarrow> s"
  obtain c1 sends1 where e: "expire_peer_auth env (en_clock env 14) ctx now = (c1, sends1)" by fastforce
  obtain c2 m sends2 where d: "dispatch_action (wire rl) v env c1 action peer ?sid now = (c2, m, sends2)" by (metis prod_cases3)
  let ?s = "deliver_sends rl env c2 (en_send_clock env 1) (sends1 @ sends2) sess"
  obtain f s where r: "drain_all rl env c2 feed ?s = (f, s)" by fastforce
  have "ctx_inv (wire rl) v c1" using expire_peer_auth_inv [OF assms(1), of env "en_clock env 14" now] by (simp add: e)
  then have "ctx_inv (wire rl) v c2" using dispatch_action_inv [of "wire rl" v c1 env action peer ?sid now] by (simp add: d)
  moreover have "relay_inv rl ident s"
    using drain_inv [OF deliver_inv [OF assms(2)], of env c2 "en_feed_clock env" READ_STREAM_DRAIN_MAX feed env c2 "en_send_clock env 1" "sends1 @ sends2"] r
    by (simp add: drain_all_def)
  ultimately show ?thesis using assms(3) by (simp add: handle_plaintext_def Inr e d r del: One_nat_def)
qed

lemma handle_poll_inv:
  assumes "ctx_inv (wire rl) v ctx" and "relay_inv rl ident sess"
    and "handle_poll rl v env ctx sess feed p now = (ctx', sess', feed', msgs)"
  shows "ctx_inv (wire rl) v ctx' \<and> relay_inv rl ident sess'"
proof -
  have d: "relay_inv rl ident s" if "drain_all rl env ctx feed sess = (f, s)" for f s
    using drain_inv [OF assms(2), of env ctx "en_feed_clock env" READ_STREAM_DRAIN_MAX feed] that by (simp add: drain_all_def)
  have l: "ctx_inv (wire rl) v c" if "peer_left env t ctx q now = (c, sends)" for t q c sends
    using peer_left_inv [OF assms(1), of env t q now] that by simp
  show ?thesis
  proof (cases p)
    case (Plaintext peer pt)
    then show ?thesis using handle_plaintext_inv [OF assms(1,2)] assms(3) by (simp add: handle_poll_def)
  next
    case (PeerEstablished peer k)
    then show ?thesis using assms ctx_inv_forget(1) [OF assms(1)] by (auto simp: handle_poll_def)
  next
    case (PeerDown peer)
    then show ?thesis using assms l by (auto simp: handle_poll_def deliver_inv split: prod.splits)
  qed (use assms d in \<open>auto simp: handle_poll_def split: prod.splits\<close>)
qed

lemma session_turn_inv:
  assumes "ctx_inv (wire rl) v ctx" and "relay_inv rl ident sess"
    and "session_turn rl ident v env ctx sess feed = ((ctx', sess', feed', msgs), cont)"
  shows "ctx_inv (wire rl) v ctx' \<and> relay_inv rl ident sess'"
proof -
  obtain c0 m0 where f: "flush_qso_cleanup (en_flush_accepted env) ctx = (c0, m0)" by fastforce
  obtain s1 polled where p: "process_next rl ident sess RECV_TICK_MS = (s1, polled)" by fastforce
  obtain c2 sends where w: "sweep_arm_expiry env c0 (en_clock env 11) (en_clock env 12) (en_clock env 10) = (c2, sends)" by fastforce
  let ?s2 = "deliver_sends rl env c2 (en_send_clock env 0) sends s1"
  have "ctx_inv (wire rl) v c0" using flush_inv [of "wire rl" v "en_flush_accepted env" ctx] assms(1) by (simp add: f)
  then have c: "ctx_inv (wire rl) v c2"
    using sweep_arm_expiry_inv [of "wire rl" v c0 env "en_clock env 11" "en_clock env 12" "en_clock env 10"] by (simp add: w)
  have s: "relay_inv rl ident ?s2" using process_next_inv [OF assms(2), of RECV_TICK_MS] deliver_inv by (simp add: p)
  have ok: "ctx_inv (wire rl) v ctx' \<and> relay_inv rl ident sess'"
    if "handle_poll rl v env c2 ?s2 feed q t = (c3, s3, fd, m3)" "session_housekeeping rl env c3 s3 = (ctx', sess')" for q t c3 s3 fd m3
    using handle_poll_inv [OF c s that(1)] housekeeping_inv that(2) by blast
  show ?thesis
  proof (cases "en_shutdown env \<or> ms_transport_failed ?s2")
    case True
    then show ?thesis using assms c s by (cases "en_shutdown env") (auto simp: session_turn_def f p w Let_def)
  next
    case False
    then show ?thesis
    proof (cases polled)
      case (Inr q)
      then show ?thesis using False assms(3) c s ok
        by (cases q) (auto simp: session_turn_def f p w split: prod.splits)
    qed (use False assms(3) c s in \<open>auto simp: session_turn_def f p w\<close>)
  qed
qed

section \<open>Every run\<close>

definition agent_inv :: "('w, 'h, 't) relay_lib \<Rightarrow> agent_identity \<Rightarrow> capability_verifier \<Rightarrow> ('w, 't) agent_state \<Rightarrow> bool" where
  "agent_inv rl ident v s \<longleftrightarrow>
     ctx_inv (wire rl) v (ag_ctx s) \<and> (case ag_sess s of None \<Rightarrow> True | Some sess \<Rightarrow> relay_inv rl ident sess)"

lemma disarm_on_loss_inv: "ctx_inv lib v ctx \<Longrightarrow> ctx_inv lib v (disarm_on_loss ms ctx)"
  by (simp add: disarm_on_loss_def disarm_audited_inv)

lemma guard_drop_unarmed: "armed_client_key_id (ac_arm (guard_drop r ms ctx)) = None"
  by (simp add: guard_drop_def entered_def disarmed_client split: prod.splits) (metis disarmed_client fst_conv)

lemma guard_drop_peers [simp]: "ac_peers (guard_drop r ms ctx) = ac_peers ctx"
  by (simp add: guard_drop_def entered_def split: prod.splits)

lemma session_start_inv:
  assumes "ctx_inv (wire rl) v ctx" and "session_start rl ident w n ctx = (ctx', sess, ok)"
  shows "ctx_inv (wire rl) v ctx' \<and> relay_inv rl ident sess"
proof -
  let ?c = "ctx\<lparr> ac_peers := fmempty, ac_generation_seen := ac_authz_generation ctx \<rparr>"
  have "ctx_inv (wire rl) v ?c" using ctx_inv_forget(3) [OF assms(1)] by (simp add: ctx_inv_def arm_client_ok_def)
  moreover have "relay_inv rl ident (fst (authenticate rl ident (session_new w (ac_tx_allow_list ?c)) n))"
    by (simp add: authenticate_fields relay_inv_def session_new_def peers_proven_simps fcard.rep_eq)
  ultimately show ?thesis using assms(2) by (auto simp: session_start_def Let_def split: prod.splits sum.splits)
qed

interpretation agent: event_machine "agent_step rl ident v" "agent_init static_list will_poll keys" "agent_inv rl ident v" "\<lambda>_. True"
proof
  show "agent_inv rl ident v (agent_init static_list will_poll keys)"
    by (simp add: agent_inv_def agent_init_def ctx_inv_def arm_client_ok_def auths_verified_def armed_client_key_id_def arm_state_new_def)
  fix s :: "('a, 'c) agent_state" and e
  assume i: "agent_inv rl ident v s"
  then have c: "ctx_inv (wire rl) v (ag_ctx s)" by (simp add: agent_inv_def)
  show "agent_inv rl ident v (fst (agent_step rl ident v s e))"
  proof (cases e)
    case (Ag_Start w n ms)
    then show ?thesis using i session_start_inv [OF c, of ident w n]
      by (auto simp: agent_inv_def disarm_on_loss_inv split: option.splits prod.splits bool.splits)
  next
    case (Ag_Turn env feed ms)
    then show ?thesis using i session_turn_inv [OF c, of ident _ env feed]
      by (auto simp: agent_inv_def disarm_on_loss_inv split: option.splits prod.splits bool.splits)
  next
    case (Ag_Authz op)
    then show ?thesis using i by (simp add: agent_inv_def authz_step_inv)
  next
    case (Ag_Switch ev)
    have "ctx_inv (wire rl) v (fst (entered (\<lambda>st. arm_step st ev) (ag_ctx s)))" if "\<not> is_arm_event ev"
      by (rule ctx_inv_locked(2) [OF c non_arm_shrinks [OF that]])
    then show ?thesis using i Ag_Switch by (auto simp: agent_inv_def split: prod.splits)
  next
    case Ag_Poison
    then show ?thesis using i by (auto simp: agent_inv_def ctx_inv_def arm_client_ok_def)
  next
    case (Ag_Task_End reason ms)
    then show ?thesis
      using guard_drop_unarmed [of reason ms "ag_ctx s"] by (auto simp: agent_inv_def fresh_task_def ctx_inv_def arm_client_ok_def)
  next
    case (Ag_Recover ms)
    then show ?thesis using i guard_drop_unarmed [of ComponentCrash ms "ag_ctx s"]
      by (auto simp: agent_inv_def fail_safe_disarm_remote_tx_def ctx_inv_def arm_client_ok_def)
  qed
qed

end
