(* ===== verification/Station_Demo.thy ===== *)
theory Station_Demo
  imports Station_Safety
begin

text \<open>
  One station, run: a phone completes the handshake, says hello with a capability token, arms with a signed grant, and its
  transmissions are then permitted. The libraries are stand-ins (a scripted socket, a counter for Noise), the agent's code is
  the model itself; the witnesses of the agent's properties use this run.
\<close>

abbreviation demo_auths :: "(string, peer_auth option) fmap" where
  "demo_auths \<equiv> fmupd ''phone'' (Some \<lparr>pa_scopes = [''tx''], pa_exp_ms = 2000000, pa_jti = ''t1''\<rparr>) fmempty"

abbreviation demo_now :: arm_time where
  "demo_now \<equiv> \<lparr> unix_ms = 1000000, monotonic = 5000, suspend_aware_ms = 5000 \<rparr>"

definition demo_hello_frame :: json where
  "demo_hello_frame = JObject [(''frame'', JString ''hello''), (''hello'', JObject [(''capabilityToken'', JString demo_jws)])]"

definition demo_arm_frame :: json where
  "demo_arm_frame = JObject [(''type'', JString ''txArm''), (''capabilityToken'', JString demo_jws), (''grant'', demo_arm)]"

definition demo_station :: "(string list \<times> string list, nat, nat) relay_lib" where
  "demo_station =
     \<lparr> wire = demo_wire\<lparr> sha256 := (\<lambda>_. as_bytes ''phone''),
         json_from_slice := (\<lambda>bs. if bs = as_bytes ''hi'' then Some demo_hello_frame else if bs = as_bytes ''arm'' then Some demo_arm_frame
                                  else json_from_slice demo_wire bs) \<rparr>,
       ws_send_text = (\<lambda>(i, out) j. ((i, out @ [j]), Inr ())),
       ws_recv_text_within = (\<lambda>(i, out) _. case i of [] \<Rightarrow> (([], out), Inr Got_Quiet) | t # ts \<Rightarrow> ((ts, out), Inr (Got_Frame t))),
       ws_send_capacity = (\<lambda>_. None),
       frame_from_str = (\<lambda>t. if t = ''hello'' then Some (F_Hello ''c'') else Some (F_Env ''station'' t (Some ''phone''))),
       frame_to_string = (\<lambda>_. Some ''frame''),
       proof_from_slice = (\<lambda>_. Some \<lparr> proof_v = 1, identity_public_key = replicate 32 CHR ''A'', id_sig = demo_sig_text \<rparr>),
       snow_build_responder = (\<lambda>_. Some 0), snow_read = (\<lambda>h m. (h + 1, Some m)), snow_write = (\<lambda>h m. (h + 1, Some m)),
       snow_hash = (\<lambda>h. as_bytes ''s1''), snow_remote_static = (\<lambda>h. if h = 0 then None else Some (replicate 32 7)),
       snow_into_transport = Some, snow_t_write = (\<lambda>t m. (t + 1, Some m)), snow_t_read = (\<lambda>t m. (t + 1, Some m)) \<rparr>"

definition demo_env :: agent_env where
  "demo_env = \<lparr> en_clock = (\<lambda>k. demo_now), en_send_clock = (\<lambda>_ _. 1000000), en_feed_clock = (\<lambda>_ _. 1000000),
     en_iter = (\<lambda>s. if ''phone'' |\<in>| s then [''phone''] else []), en_between = [], en_ptt_active = False, en_gain_tx_gate = 0, en_active_qsos = Some [],
     en_cleanup_accepted = True, en_qso_accepted = True, en_split_accepted = True, en_as_f32 = (\<lambda>x. x), en_f64_display = (\<lambda>_. ''0''),
     en_frame_bytes = (\<lambda>_. Some [1]), en_flush_accepted = True, en_shutdown = False \<rparr>"

definition demo_station_events :: "(string list \<times> string list) agent_event list" where
  "demo_station_events = [Ag_Switch (Ev_Consent StationAgent True 0), Ag_Start ([''hello'', ''m1'', ''hi'', ''arm''], []) 1000 0,
     Ag_Turn demo_env [] 0, Ag_Turn demo_env [] 0, Ag_Turn demo_env [] 0]"

definition demo_start :: "(string list \<times> string list, nat) agent_state" where
  "demo_start = agent_init {''phone''} False (fmupd ''phone'' demo_key fmempty)"

section \<open>The libraries, call by call\<close>

lemma demo_proves:
  assumes "p = as_bytes ''m1''"
  shows "verify_client_identity_proof demo_station p rs = Inr ''phone''"
proof -
  have d: "as_bytes demo_sig_text = replicate 64 65" "as_bytes (replicate 32 CHR ''A'') = replicate 32 65" "as_bytes ''m1'' = [109, 49]"
    by (simp_all add: demo_sig_text_def as_bytes_def)
  have "decode_exact (wire demo_station) 32 (replicate 32 CHR ''A'') w = Inr (replicate 32 65)"
      "decode_exact (wire demo_station) 64 demo_sig_text w = Inr (replicate 64 65)" for w
    by (simp_all add: decode_exact_def demo_station_def demo_wire_def d)
  moreover have "take 32 (replicate 64 (65 :: u8)) = replicate 32 65" by (simp add: take_replicate)
  moreover have "key_id_from_identity_public (wire demo_station) k = ''phone''" for k
    unfolding key_id_from_identity_public_def demo_station_def demo_wire_def by simp code_simp
  ultimately show ?thesis unfolding assms d
    by (simp add: verify_client_identity_proof_def bail_if_def MAX_CLIENT_IDENTITY_PROOF_LEN_def CLIENT_IDENTITY_PROOF_VERSION_def
       demo_station_def demo_wire_def)
qed

lemma demo_station_calls:
  "ws_send_text demo_station (i, out) j = ((i, out @ [j]), Inr ())"
  "ws_recv_text_within demo_station (x # xs, out) n = ((xs, out), Inr (Got_Frame x))"
  "parse_frame demo_station ''hello'' = Inr (F_Hello ''c'')"
  "parse_frame demo_station ''m1'' = Inr (F_Env ''station'' ''m1'' (Some ''phone''))"
  "parse_frame demo_station ''hi'' = Inr (F_Env ''station'' ''hi'' (Some ''phone''))"
  "parse_frame demo_station ''arm'' = Inr (F_Env ''station'' ''arm'' (Some ''phone''))"
  "decode_env_payload (wire demo_station) ''c'' = Inr (as_bytes ''c'')" 
  "decode_env_payload (wire demo_station) ''m1'' = Inr (as_bytes ''m1'')" 
  "decode_env_payload (wire demo_station) ''hi'' = Inr (as_bytes ''hi'')" 
  "decode_env_payload (wire demo_station) ''arm'' = Inr (as_bytes ''arm'')" 
  "to_json demo_station f = Inr ''frame''"
  "responder_new demo_station k = Inr 0" "read_msg1 demo_station h m = (h + 1, Inr m)" "write_msg2 demo_station h m = (h + 1, Inr m)"
  "remote_static demo_station (Suc h) = Some (replicate 32 7)" "into_transport demo_station h = Inr h"
  "base64_url_encode (wire demo_station) (snow_hash demo_station h) = ''s1''"
  "encrypt demo_station t m = (t + 1, Inr m)" "decrypt demo_station t m = (t + 1, Inr m)"
  "ws_send_capacity demo_station w = None"
  by (simp_all add: demo_station_def demo_wire_def parse_frame_def decode_env_payload_def to_json_def responder_new_def read_msg1_def write_msg2_def
      remote_static_def into_transport_def encrypt_def decrypt_def MAX_FRAME_BYTES_def MAX_NOISE_MSG_def) (simp_all add: as_bytes_def, code_simp?)

lemma demo_frames:
  "map_client_frame (wire demo_station) (as_bytes ''hi'') = Inr (Hello (Some demo_jws))"
  "map_client_frame (wire demo_station) (as_bytes ''arm'') = Inr (ArmAction demo_jws demo_arm)"
  by code_simp+

lemma demo_station_token:
  "verify_capability_token (wire demo_station) demo_verifier demo_jws 1000000 = Inr demo_cap"
  "verify_arm_grant (wire demo_station) demo_verifier demo_arm demo_cap demo_key {''phone''} {} ''s1'' 1000000 {} = (Inr demo_minted, {''a1''})"
  by code_simp+

lemma fmmap_upd: "fmmap f (fmupd k v m) = fmupd k (f v) (fmmap f m)" "fmmap f fmempty = fmempty"
  by (rule fmap_ext; simp add: fmlookup_map)+

lemma demo_env_sel:
  "en_clock demo_env k = demo_now" "en_send_clock demo_env i j = 1000000" "en_feed_clock demo_env i q = 1000000"
  "en_iter demo_env m = (if ''phone'' |\<in>| m then [''phone''] else [])" "en_between demo_env = []" "en_frame_bytes demo_env ev = Some [1]"
  "en_flush_accepted demo_env" "\<not> en_shutdown demo_env" "en_cleanup_accepted demo_env" "en_qso_accepted demo_env"
  by (simp_all add: demo_env_def)

lemma demo_drain: "drain_all demo_station demo_env ctx [] sess = ([], sess)"
proof -
  have n: "READ_STREAM_DRAIN_MAX = Suc 63" by (simp add: READ_STREAM_DRAIN_MAX_def)
  show ?thesis unfolding drain_all_def n drain_read_stream.simps by (simp add: demo_station_calls)
qed

lemmas demo_turn = fmmap_upd numeral_2_eq_2 session_turn_def handle_poll_def handle_plaintext_def flush_qso_cleanup_def sweep_arm_expiry_def locked_def
  arm_transition_sends_def apply_arm_effects_def audit_effects_def session_housekeeping_def reconcile_authorizations_def expire_peer_auth_def
  sweep_expired_peer_auth_def demo_drain session_id_def fresh_arm_time_def dispatch_action_def dispatch_hello_def
  demo_env_sel demo_frames demo_station_token demo_station_calls demo_proves
  process_next_def process_frame_def process_env_def bootstrap_peer_def or_return_def send_frame_def send_to_def
  fcard.rep_eq MAX_PEERS_def Let_def control_state_sends_def peer_may_receive_def peer_grants_def peer_admitted_def auth_grants_def scope_at_least_def scope_tier_def auth_expired_def

definition demo_agent_ctx :: "arm_context" where
  "demo_agent_ctx = (ag_ctx demo_start)\<lparr> ac_arm := arm_state_new\<lparr> station_agent_consent := True \<rparr>,
     ac_audit := [\<lparr> ts_unix_ms = 0, kind = LocalConsentChanged, ev_operator = None, detail = ''local consent station_agent=true'' \<rparr>] \<rparr>"

lemma demo_step1: "agent_step demo_station demo_identity demo_verifier demo_start (Ag_Switch (Ev_Consent StationAgent True 0)) =
   (\<lparr> ag_ctx = demo_agent_ctx, ag_sess = None \<rparr>, [])"
  by (simp add: demo_start_def agent_init_def demo_agent_ctx_def entered_def apply_arm_effects_def audit_effects_def arm_state_new_def audit_def set_channel_consent_def operator_callsign_def bool_to_str_def)

lemma demo_step2: "agent_step demo_station demo_identity demo_verifier \<lparr> ag_ctx = demo_agent_ctx, ag_sess = None \<rparr> (Ag_Start ([''hello'', ''m1'', ''hi'', ''arm''], []) 1000 0) =
   (\<lparr> ag_ctx = demo_agent_ctx, ag_sess = Some \<lparr> ms_ws = ([''m1'', ''hi'', ''arm''], [''frame'']), ms_allowed = {''phone''}, ms_peers = fmempty, ms_transport_failed = False \<rparr> \<rparr>, [])"
  by (simp add: demo_start_def agent_init_def demo_agent_ctx_def session_start_def authenticate_def demo_station_calls session_new_def send_frame_def or_return_def Let_def)

lemma demo_step3: "agent_step demo_station demo_identity demo_verifier
   \<lparr> ag_ctx = demo_agent_ctx, ag_sess = Some \<lparr> ms_ws = ([''m1'', ''hi'', ''arm''], [''frame'']), ms_allowed = {''phone''}, ms_peers = fmempty, ms_transport_failed = False \<rparr> \<rparr> (Ag_Turn demo_env [] 0) =
   (\<lparr> ag_ctx = demo_agent_ctx\<lparr> ac_peers := fmupd ''phone'' None fmempty \<rparr>, ag_sess = Some \<lparr> ms_ws = ([''hi'', ''arm''], [''frame'', ''frame'']), ms_allowed = {''phone''}, 
       ms_peers = fmupd ''phone'' \<lparr> ps_transport = 2, ps_session_id = ''s1'' \<rparr> fmempty, ms_transport_failed = False \<rparr> \<rparr>, [])"
  by (simp add: demo_agent_ctx_def demo_start_def agent_init_def demo_turn arm_state_new_def tick_def)


lemma demo_step4: "agent_step demo_station demo_identity demo_verifier
   (\<lparr> ag_ctx = demo_agent_ctx\<lparr> ac_peers := fmupd ''phone'' None fmempty \<rparr>, ag_sess = Some \<lparr> ms_ws = ([''hi'', ''arm''], [''frame'', ''frame'']), ms_allowed = {''phone''}, 
       ms_peers = fmupd ''phone'' \<lparr> ps_transport = 2, ps_session_id = ''s1'' \<rparr> fmempty, ms_transport_failed = False \<rparr> \<rparr>) (Ag_Turn demo_env [] 0) =
   (\<lparr> ag_ctx = demo_agent_ctx\<lparr> ac_peers := demo_auths \<rparr>, ag_sess = Some \<lparr> ms_ws = ([''arm''], [''frame'', ''frame'', ''frame'']), ms_allowed = {''phone''}, 
       ms_peers = fmupd ''phone'' \<lparr> ps_transport = Suc (Suc (Suc (Suc 0))), ps_session_id = ''s1'' \<rparr> fmempty, ms_transport_failed = False \<rparr> \<rparr>, [])"
  by (simp add: demo_agent_ctx_def demo_start_def agent_init_def demo_turn arm_state_new_def tick_def demo_cap_def)


definition demo_armed :: arm_state where
  "demo_armed = fst (arm (ac_arm demo_agent_ctx) demo_minted demo_now)"

definition demo_armed_ctx :: arm_context where
  "demo_armed_ctx =
     demo_agent_ctx\<lparr> ac_arm := demo_armed, ac_controller := Some ''phone'',
       ac_peers := demo_auths, ac_seen_jtis := {''a1''},
       ac_cleanup_owed := Some \<lparr> oc_controller = ''phone'', oc_failed_attempts = 0 \<rparr>,
       ac_audit := ac_audit demo_agent_ctx @ audit_effects (snd (arm (ac_arm demo_agent_ctx) demo_minted demo_now)) \<rparr>"

lemma demo_dispatch: 
  "\<exists>sends. dispatch_action (wire demo_station) demo_verifier demo_env (demo_agent_ctx\<lparr> ac_peers := demo_auths \<rparr>)
     (ArmAction demo_jws demo_arm) ''phone'' ''s1'' demo_now = (demo_armed_ctx, [], sends) "
proof -
  obtain st effs where a: "arm (ac_arm demo_agent_ctx) demo_minted demo_now = (st, effs)" by fastforce
  have v: "as_object demo_arm \<noteq> None" "get_str demo_arm ''clientKeyId'' = Some ''phone''" by code_simp+
  then obtain obj where o: "as_object demo_arm = Some obj" by blast
  have l: "ac_tx_arm_allow_list demo_agent_ctx = {''phone''}" "ac_poisoned demo_agent_ctx = False" "ac_controller demo_agent_ctx = None" "ac_allow_poisoned demo_agent_ctx = False"
    "ac_tx_allow_list demo_agent_ctx = {''phone''}" "fmlookup (ac_client_keys demo_agent_ctx) ''phone'' = Some demo_key" "ac_revoked_jtis demo_agent_ctx = {}" "ac_seen_jtis demo_agent_ctx = {}"
    "station_agent_consent (ac_arm demo_agent_ctx)"
    by (simp_all add: demo_agent_ctx_def demo_start_def agent_init_def seed_tx_arm_allow_list_def)
  show ?thesis
   by (simp add: o l v demo_armed_ctx_def demo_armed_def a dispatch_action_def peer_admitted_def gated_def controller_gate_check_def owe_qso_cleanup_def Let_def
      verify_and_arm_def arm_under_lock_def demo_station_token demo_env_sel fresh_arm_time_def apply_arm_effects_def)
qed

lemma demo_arm_facts:
  "ac_controller demo_armed_ctx = Some ''phone''" "ac_peers demo_armed_ctx = demo_auths"
  "ac_authz_generation demo_armed_ctx = 0" "ac_generation_seen demo_armed_ctx = 0" "\<not> ac_revocation_pending demo_armed_ctx"
  "demo_armed_ctx\<lparr> ac_revocation_pending := False \<rparr> = demo_armed_ctx"
  by (simp_all add: demo_armed_ctx_def demo_agent_ctx_def demo_start_def agent_init_def)

lemma demo_idle_expire:
  "ac_peers ctx = demo_auths \<Longrightarrow> 
    expire_peer_auth demo_env t ctx demo_now = (ctx, [])"
  by (simp add: expire_peer_auth_def sweep_expired_peer_auth_def auth_expired_def fmmap_upd demo_env_sel)

lemma demo_housekeeping: "session_housekeeping demo_station demo_env demo_armed_ctx s = (demo_armed_ctx, s)"
  by (simp add: session_housekeeping_def reconcile_authorizations_def demo_arm_facts demo_env_sel fresh_arm_time_def demo_idle_expire Let_def)

lemma demo_sweep: "sweep_arm_expiry demo_env (demo_agent_ctx\<lparr> ac_peers := m \<rparr>) t t' n = (demo_agent_ctx\<lparr> ac_peers := m \<rparr>, [])"
  by (simp add: demo_agent_ctx_def demo_start_def agent_init_def tick_def arm_state_new_def sweep_arm_expiry_def locked_def
       arm_transition_sends_def apply_arm_effects_def audit_effects_def)

lemma demo_handle_arm:
  "session_id sess ''phone'' = Some ''s1'' \<Longrightarrow> 
    \<exists>s. handle_plaintext demo_station demo_verifier demo_env (demo_agent_ctx\<lparr> ac_peers := demo_auths \<rparr>) sess [] ''phone'' (as_bytes ''arm'') demo_now = (demo_armed_ctx, s, [], [])"
  using demo_dispatch by (auto simp: handle_plaintext_def demo_frames demo_idle_expire demo_drain)

lemma demo_step5: 
   "\<exists>sess. agent_step demo_station demo_identity demo_verifier
   (\<lparr> ag_ctx = demo_agent_ctx\<lparr> ac_peers := demo_auths \<rparr>, ag_sess = Some \<lparr> ms_ws = ([''arm''], [''frame'', ''frame'', ''frame'']), ms_allowed = {''phone''}, 
       ms_peers = fmupd ''phone'' \<lparr> ps_transport = Suc (Suc (Suc (Suc 0))), ps_session_id = ''s1'' \<rparr> fmempty, ms_transport_failed = False \<rparr> \<rparr>) (Ag_Turn demo_env [] 0) =
   (\<lparr> ag_ctx = demo_armed_ctx, ag_sess = Some sess \<rparr>, [])"
   (is "\<exists>sess. agent_step _ _ _ \<lparr> ag_ctx = ?c, ag_sess = Some ?s \<rparr> _ = _")
proof -
  let ?s' = "?s\<lparr> ms_ws := ([], [''frame'', ''frame'', ''frame'']), ms_peers := fmupd ''phone'' \<lparr> ps_transport = Suc (Suc (Suc (Suc (Suc 0)))), ps_session_id = ''s1'' \<rparr> fmempty \<rparr>"
  have p: "process_next demo_station demo_identity ?s n = (?s', Inr (Plaintext ''phone'' (as_bytes ''arm'')))" for n
    by (simp add: process_next_def process_frame_def process_env_def demo_station_calls or_return_def Let_def)
  obtain s where h: "handle_plaintext demo_station demo_verifier demo_env ?c ?s' [] ''phone'' (as_bytes ''arm'') demo_now = (demo_armed_ctx, s, [], [])"
    using demo_handle_arm [of ?s'] by (auto simp: session_id_def)
  have f: "flush_qso_cleanup b ?c = (?c, [])" for b by (simp add: flush_qso_cleanup_def demo_agent_ctx_def demo_start_def agent_init_def)
  have "session_turn demo_station demo_identity demo_verifier demo_env ?c ?s [] = ((demo_armed_ctx, s, [], []), True)"
    using h by (simp add: session_turn_def f p demo_sweep demo_env_sel fresh_arm_time_def handle_poll_def demo_housekeeping)
  then show ?thesis by simp
qed

text \<open>The whole run.\<close>

lemma demo_run:
  "\<exists>sess. run (agent_step demo_station demo_identity demo_verifier) demo_start demo_station_events = (\<lparr> ag_ctx = demo_armed_ctx, ag_sess = Some sess \<rparr>, [])"
  using demo_step5 by (simp add: demo_station_events_def demo_step1 demo_step2 demo_step3 demo_step4 del: agent_step.simps) 

lemma demo_phone_permitted:
  "remote_tx_permitted_for (ac_arm demo_armed_ctx) (ac_poisoned demo_armed_ctx) demo_now (Some ''phone'')"
proof -
  have l: "grant_lifetime demo_minted demo_now = (600000, TtlExpired)" "g_scope_tx demo_minted" by code_simp+
  have "ac_arm demo_agent_ctx = arm_state_new\<lparr> station_agent_consent := True \<rparr>" "ac_poisoned demo_armed_ctx = False" "ac_arm demo_armed_ctx = demo_armed"
    by (simp_all add: demo_armed_ctx_def demo_agent_ctx_def demo_start_def agent_init_def)
  moreover have "remote_tx_permitted_for (arm_state_new\<lparr> station_agent_consent := True, session := Some (session_of_grant demo_minted demo_now) \<rparr>) False
      demo_now (Some ''phone'')" by code_simp
  ultimately show ?thesis by (simp add: demo_armed_def arm_def l)
qed

end
