(* ===== verification/Station_Theorems.thy ===== *)
theory Station_Theorems
  imports Station_Demo
begin

text \<open>
  The properties of the station agent: who may key the transmitter, what a remote peer can make the rig and the QSO engine do,
  who receives frames, and what the loss of an authorisation entails. The invariants they rest on are in \<open>Station_Safety\<close>.
\<close>

section \<open>Keying the transmitter\<close>

text \<open>C1: whatever peers, polls, operators, panics and restarts do, a remote transmission is permitted only to the client that
  controls the station, is on the station's own transmit list and holds a session that has not expired, was minted from a
  capability token and an arm grant that both verified for this client, while the operator's consent is on, the kill switch is
  off and the arm lock is sound.\<close>

theorem remote_keydown_is_authorised:
  assumes "s = fst (run (agent_step rl ident v) (agent_init static_list will_poll keys) es)"
    and "remote_tx_permitted_for (ac_arm (ag_ctx s)) (ac_poisoned (ag_ctx s)) now (Some client)"
  shows "ac_controller (ag_ctx s) = Some client \<and> client \<in> ac_tx_arm_allow_list (ag_ctx s) \<and> \<not> ac_poisoned (ag_ctx s) \<and>
    channel_consent (ac_arm (ag_ctx s)) StationAgent \<and> \<not> local_kill (ac_arm (ag_ctx s)) \<and>
    (\<exists>sess. session (ac_arm (ag_ctx s)) = Some sess \<and> client_key_id sess = client \<and> expired_reason sess now = None \<and>
       granted_session (wire rl) v sess)"
proof -
  have "agent_inv rl ident v s" unfolding assms(1) by (rule agent.inv_run) (simp add: list_all_iff)
  then have i: "ctx_inv (wire rl) v (ag_ctx s)" by (simp add: agent_inv_def)
  have p: "\<not> ac_poisoned (ag_ctx s)" "tx_permitted (ac_arm (ag_ctx s)) now StationAgent" "armed_client_key_id (ac_arm (ag_ctx s)) = Some client"
    using assms(2) by (auto simp: remote_tx_permitted_for_def split: if_splits)
  then show ?thesis using i
    by (auto simp: ctx_inv_def arm_client_ok_def arm_granted_def armed_client_key_id_def tx_permitted_def tx_permit_reason_def
        split: option.splits tx_permit.splits disarm_reason.splits if_splits)
qed

theorem remote_keydown_is_authorised_witness:
  "ac_controller demo_armed_ctx = Some ''phone'' \<and> ''phone'' \<in> ac_tx_arm_allow_list demo_armed_ctx \<and>
   (\<exists>sess. session (ac_arm demo_armed_ctx) = Some sess \<and> client_key_id sess = ''phone'' \<and> granted_session (wire demo_station) demo_verifier sess)"
proof -
  let ?s = "fst (run (agent_step demo_station demo_identity demo_verifier) (agent_init {''phone''} False (fmupd ''phone'' demo_key fmempty)) demo_station_events)"
  have c: "ag_ctx ?s = demo_armed_ctx" using demo_run by (auto simp: demo_start_def)
  have "remote_tx_permitted_for (ac_arm (ag_ctx ?s)) (ac_poisoned (ag_ctx ?s)) demo_now (Some ''phone'')" unfolding c by (rule demo_phone_permitted)
  from remote_keydown_is_authorised [OF refl this] show ?thesis unfolding c by blast
qed

text \<open>The immutable snapshot the transmitter takes answers every question as the live arm state would at the same
  instant: permission, and the operator a denial is attributed to, for either channel and a sound or poisoned lock. A mismatch of
  identity is exactly an open channel with the permission refused.\<close>

theorem snapshot_agrees_with_the_live_gate:
  "snapshot_permits (snapshot_take st poisoned now) client = remote_tx_permitted_for st poisoned now client \<and>
   operator_attribution (snapshot_take st poisoned now) client = tx_denied_operator_attribution st poisoned client \<and>
   is_identity_mismatch (snapshot_take st poisoned now) client =
     (remote_tx_permitted st poisoned now (consent_channel_for client) \<and> \<not> remote_tx_permitted_for st poisoned now client)"
  by (cases client) (auto simp: snapshot_permits_def snapshot_take_def channel_permitted_def remote_tx_permitted_for_def
      operator_attribution_def tx_denied_operator_attribution_def is_identity_mismatch_def remote_tx_permitted_def)

lemma authz_seen: "fold authz_step ops (ctx\<lparr> ac_seen_jtis := x \<rparr>) = (fold authz_step ops ctx)\<lparr> ac_seen_jtis := x \<rparr>"
proof (induction ops arbitrary: ctx)
  case (Cons op ops)
  have "authz_step op (ctx\<lparr> ac_seen_jtis := x \<rparr>) = (authz_step op ctx)\<lparr> ac_seen_jtis := x \<rparr>"
    by (cases op) (auto simp: publish_tx_arm_def revoke_tx_arm_def entered_def apply_arm_effects_def Let_def split: option.splits prod.splits)
  then show ?case using Cons by simp
qed simp

lemma authz_client: "armed_client_key_id (ac_arm (fold authz_step ops ctx)) \<in> {None, armed_client_key_id (ac_arm ctx)}"
proof (induction ops arbitrary: ctx)
  case (Cons op ops)
  have "armed_client_key_id (ac_arm (authz_step op ctx)) \<in> {None, armed_client_key_id (ac_arm ctx)}"
    using arm_shrinks_client [OF step_shrinks(4), of "ac_arm ctx" AuthorizationRevoked]
    by (cases op) (auto simp: publish_tx_arm_def revoke_tx_arm_def entered_def Let_def disarmed_client split: option.splits prod.splits dest!: arg_cong [where f = fst])
  then show ?case using Cons [of "authz_step op ctx"] by auto
qed simp

text \<open>C14: a client withdrawn between the verification of its grant and the moment the arm lock is taken is not armed: the request
  fails, and the arm is what it was or what the refresh left.\<close>

theorem refresh_beats_a_verified_grant:
  assumes "peer \<notin> ac_tx_arm_allow_list (fold authz_step (en_between env) ctx)"
    and "verify_and_arm lib v env ctx token grant peer sid sample now = (ctx', r)"
  shows "(\<exists>e. r = Inl e) \<and> ac_arm ctx' \<in> {ac_arm ctx, ac_arm (fold authz_step (en_between env) ctx)} \<and>
    armed_client_key_id (ac_arm ctx') \<in> {armed_client_key_id (ac_arm ctx), None}"
proof -
  have "armed_client_key_id (ac_arm (fold authz_step (en_between env) ctx)) \<in> {None, armed_client_key_id (ac_arm ctx)}"
    by (rule authz_client)
  then show ?thesis using assms
    by (auto simp: verify_and_arm_def arm_under_lock_def authz_seen split: option.splits sum.splits prod.splits if_splits)
qed

theorem refresh_beats_a_verified_grant_witness:
  "snd (verify_arm_grant (wire demo_station) demo_verifier demo_arm demo_cap demo_key {''phone''} {} ''s1'' 1000000 {}) = {''a1''} \<and>
   isl (snd (verify_and_arm (wire demo_station) demo_verifier (demo_env\<lparr> en_between := [Publish_Tx_Arm {} 1000000] \<rparr>)
     demo_agent_ctx demo_jws demo_arm ''phone'' ''s1'' demo_now demo_now))"
proof -
  let ?env = "demo_env\<lparr> en_between := [Publish_Tx_Arm {} 1000000] \<rparr>"
  obtain ctx' r where v: "verify_and_arm (wire demo_station) demo_verifier ?env demo_agent_ctx demo_jws demo_arm ''phone'' ''s1'' demo_now demo_now = (ctx', r)"
    by fastforce
  have "''phone'' \<notin> ac_tx_arm_allow_list (fold authz_step (en_between ?env) demo_agent_ctx)"
    by (simp add: publish_tx_arm_def demo_agent_ctx_def armed_client_key_id_def arm_state_new_def)
  from refresh_beats_a_verified_grant [OF this v] show ?thesis using v by (auto simp: demo_station_token)
qed

section \<open>What a peer can make the station do\<close>

lemma gate_grants:
  "controller_gate_check env ctx peer t now = (c, Proceed grab) \<Longrightarrow> peer_grants c p r ms = peer_grants ctx p r ms"
  using controller_gate_proceeds [of env ctx peer t now c grab] by (simp add: peer_grants_def peer_admitted_def cong: option.case_cong)

lemma gate_passes:
  assumes "gated env ctx peer now f = (ctx', msgs, sends)" and "m \<in> set msgs"
  obtains c grab where "controller_gate_check env ctx peer (en_clock env 0) now = (c, Proceed grab)" and "f c grab = (ctx', msgs, sends)"
  using assms by (auto simp: gated_def split: prod.splits controller_gate.splits)

text \<open>Where a message to the rest of the station can come from.\<close>

lemma dispatch_message_cases:
  assumes "dispatch_action lib v env ctx action peer sid now = (ctx', msgs, sends)" and "m \<in> set msgs"
  obtains (gate) c grab where "peer_admitted ctx peer" and "controller_gate_check env ctx peer (en_clock env 0) now = (c, Proceed grab)"
    and "(\<exists>vfo hz. remote_qsy_refusal env = None \<and> peer_grants c peer ''qsy'' (unix_ms now) \<and> ctx' = c \<and>
             msgs = [Rig_SetFrequency (clamp_u8 vfo) (max0_as_u64 hz)]) \<or>
         (\<exists>enabled hz. remote_qsy_refusal env = None \<and> peer_grants c peer ''qsy'' (unix_ms now) \<and>
             forward_split_change env c enabled (max0_as_u64 hz) = (ctx', msgs)) \<or>
         (\<exists>k. dispatch_tx_request env c k peer now grab = (ctx', msgs, sends)) \<or>
         dispatch_stop_cq env c peer grab = (ctx', msgs, sends)"
proof -
  have a: "dispatch_admitted lib v env ctx action peer sid now = (ctx', msgs, sends)" "only_gives_up action \<or> peer_admitted ctx peer"
    using assms by (auto simp: dispatch_action_def split: if_splits)
  show ?thesis
  proof (cases action)
    case (Qsy vfo hz)
    with a assms(2) have "remote_qsy_refusal env = None" by (auto split: option.splits)
    with a assms(2) Qsy show ?thesis by (simp split: if_splits) (elim gate_passes, simp, rule gate, auto split: if_splits)
  next
    case (SetSplit enabled hz)
    with a assms(2) have "remote_qsy_refusal env = None" by (auto split: option.splits)
    with a assms(2) SetSplit show ?thesis by (auto elim!: gate_passes split: if_splits prod.splits intro!: gate)
  next
    case (ArmAction token grant)
    with a assms(2) show ?thesis by (auto elim!: gate_passes split: prod.splits sum.splits)
  next
    case (TxRequest k)
    with a assms(2) show ?thesis by (auto elim!: gate_passes intro: gate)
  next
    case StopCq
    with a assms(2) show ?thesis by (auto elim!: gate_passes split: if_splits intro: gate)
  qed (use a assms(2) in \<open>auto simp: Let_def split: if_splits prod.splits\<close>)
qed

fun moves_rig :: "bus_message \<Rightarrow> bool" where
  "moves_rig (Rig_SetFrequency _ _) = True"
| "moves_rig (Rig_SetSplit _ _) = True"
| "moves_rig _ = False"

fun rig_field_ok :: "bus_message \<Rightarrow> bool" where
  "rig_field_ok (Rig_SetFrequency vfo hz) = (vfo \<le> 255 \<and> hz < 2 ^ 64)"
| "rig_field_ok (Rig_SetSplit _ hz) = (hz < 2 ^ 64)"
| "rig_field_ok _ = True"

lemma rig_values: "max0_as_u64 x < 18446744073709551616" "clamp_u8 y \<le> 255"
  by (auto simp: max0_as_u64_def clamp_u8_def)

lemma flush_result:
  "flush_qso_cleanup b ctx = (ctx', msgs) \<Longrightarrow>
     ac_controller ctx' = ac_controller ctx \<and> ac_arm ctx' = ac_arm ctx \<and> ac_poisoned ctx' = ac_poisoned ctx \<and>
     (\<forall>m\<in>set msgs. \<exists>c. m = To_Qso (RemoteControllerChanged c))"
  by (auto simp: flush_qso_cleanup_def split: option.splits if_splits)

lemma qso_dispatch_results:
  "dispatch_tx_request env c k peer now grab = (ctx', msgs, sends) \<Longrightarrow> m \<in> set msgs \<Longrightarrow>
     \<not> moves_rig m \<and> (\<exists>q. m = To_Qso q \<and> ((\<exists>p. q = RemoteControllerChanged p) \<or> q = tx_kind_to_qso_message (en_as_f32 env) k peer \<and>
       ac_controller ctx' = ac_controller c \<and> \<not> ac_poisoned ctx' \<and> channel_consent (ac_arm ctx') StationAgent \<and> ac_cleanup_owed ctx' = None))"
  "dispatch_stop_cq env c peer grab = (ctx', msgs, sends) \<Longrightarrow> m \<in> set msgs \<Longrightarrow>
     \<not> moves_rig m \<and> (\<exists>q. m = To_Qso q \<and> ((\<exists>p. q = RemoteControllerChanged p) \<or> q = Qso_StopCq))"
  by (auto simp: dispatch_tx_request_def dispatch_stop_cq_def Let_def split: if_splits prod.splits dest!: flush_result) fastforce+

text \<open>C25: the rig is retuned for a remote peer only while nothing is being transmitted and no local or autonomous contact runs,
  and only for an admitted peer that controls the station and holds an unexpired, unrevoked capability of at least the tuning
  scope; the values handed over fit the rig's fields whatever numbers the peer sent.\<close>

theorem rig_moves_only_for_the_controller:
  assumes "dispatch_action lib v env ctx action peer sid now = (ctx', msgs, sends)" and "m \<in> set msgs" and "moves_rig m"
  shows "peer_admitted ctx peer \<and> peer_grants ctx peer ''qsy'' (unix_ms now) \<and> ac_controller ctx' = Some peer \<and>
    remote_qsy_refusal env = None \<and> rig_field_ok m"
  using assms(1,2)
proof (cases rule: dispatch_message_cases)
  case (gate c grab)
  note g = controller_gate_proceeds(1) [OF gate(2)] gate_grants [OF gate(2)]
  show ?thesis using gate(1,3) g assms(2,3) qso_dispatch_results
    by (fastforce simp: rig_values forward_split_change_def split: if_splits)
qed

lemma demo_holds:
  "peer_admitted demo_armed_ctx ''phone''" "peer_grants demo_armed_ctx ''phone'' ''qsy'' 1000000" "\<not> ac_poisoned demo_armed_ctx"
  "ac_tx_allow_list demo_armed_ctx = {''phone''}" "ac_cleanup_owed demo_armed_ctx = Some \<lparr> oc_controller = ''phone'', oc_failed_attempts = 0 \<rparr>"
  by (simp_all add: peer_grants_def peer_admitted_def demo_armed_ctx_def demo_agent_ctx_def demo_start_def agent_init_def auth_grants_def
      scope_at_least_def scope_tier_def)

lemma demo_gate: "gated demo_env demo_armed_ctx ''phone'' now f = f demo_armed_ctx []"
  by (simp add: gated_def controller_gate_check_def demo_arm_facts)

theorem rig_moves_only_for_the_controller_witness:
  "dispatch_action demo_wire demo_verifier demo_env demo_armed_ctx (Qsy 0 14074000) ''phone'' ''s1'' demo_now =
     (demo_armed_ctx, [Rig_SetFrequency 0 14074000], []) \<and> rig_field_ok (Rig_SetFrequency 0 14074000)"
proof -
  have "remote_qsy_refusal demo_env = None" by (simp add: remote_qsy_refusal_def demo_env_def)
  then have d: "dispatch_action demo_wire demo_verifier demo_env demo_armed_ctx (Qsy 0 14074000) ''phone'' ''s1'' demo_now =
      (demo_armed_ctx, [Rig_SetFrequency 0 14074000], [])"
    by (simp add: dispatch_action_def demo_holds demo_gate clamp_u8_def max0_as_u64_def)
  from rig_moves_only_for_the_controller [OF d, of "Rig_SetFrequency 0 14074000"] d show ?thesis by simp
qed

fun stamped_for :: "string \<Rightarrow> qso_bus_message \<Rightarrow> bool" where
  "stamped_for peer (StartQso _ _ _ remote key) = (remote \<and> key = Some peer)"
| "stamped_for peer (RespondToCaller _ _ _ _ _ remote key) = (remote \<and> key = Some peer)"
| "stamped_for peer (Qso_StartCq _ _ remote key) = (remote \<and> key = Some peer)"
| "stamped_for peer Qso_StopCq = False"
| "stamped_for peer (RemoteControllerChanged _) = False"

fun requests_tx :: "bus_message \<Rightarrow> bool" where
  "requests_tx (To_Qso q) = (case q of Qso_StopCq \<Rightarrow> False | RemoteControllerChanged _ \<Rightarrow> False | _ \<Rightarrow> True)"
| "requests_tx _ = False"

lemma stamped_intent: "stamped_for peer (tx_kind_to_qso_message f k peer)"
  by (cases k) simp_all

text \<open>C27: a contact or a CQ is requested of the QSO engine only while the operator's consent is on and the arm lock sound, only
  for the admitted peer that controls the station, marked as of remote origin and with that peer's key; and the engine has by then
  been told of the change of controller, for no change is still owed.\<close>

theorem contacts_are_requested_for_the_controller:
  assumes "dispatch_action lib v env ctx action peer sid now = (ctx', msgs, sends)" and "m \<in> set msgs" and "requests_tx m"
  shows "peer_admitted ctx peer \<and> ac_controller ctx' = Some peer \<and> \<not> ac_poisoned ctx' \<and> channel_consent (ac_arm ctx') StationAgent \<and>
    ac_cleanup_owed ctx' = None \<and> (\<exists>q. m = To_Qso q \<and> stamped_for peer q)"
  using assms(1,2)
proof (cases rule: dispatch_message_cases)
  case (gate c grab)
  show ?thesis using gate(1,3) controller_gate_proceeds(1) [OF gate(2)] assms(2,3) qso_dispatch_results stamped_intent
    by (fastforce simp: forward_split_change_def split: if_splits)
qed

theorem contacts_are_requested_for_the_controller_witness:
  "\<exists>ctx' sends. dispatch_action demo_wire demo_verifier demo_env demo_armed_ctx (TxRequest (StartCq 1500)) ''phone'' ''s1'' demo_now =
     (ctx', [To_Qso (RemoteControllerChanged ''phone''), To_Qso (Qso_StartCq 1500 None True (Some ''phone''))], sends) \<and>
     channel_consent (ac_arm ctx') StationAgent \<and> ac_cleanup_owed ctx' = None"
proof -
  have "station_agent_consent (ac_arm demo_armed_ctx)"
    using demo_phone_permitted by (auto simp: remote_tx_permitted_for_def tx_permitted_def tx_permit_reason_def split: option.splits disarm_reason.splits if_splits)
  then obtain ctx' sends where d: "dispatch_action demo_wire demo_verifier demo_env demo_armed_ctx (TxRequest (StartCq 1500)) ''phone'' ''s1'' demo_now =
     (ctx', [To_Qso (RemoteControllerChanged ''phone''), To_Qso (Qso_StartCq 1500 None True (Some ''phone''))], sends)"
    by (simp add: dispatch_action_def demo_holds demo_gate dispatch_tx_request_def Let_def flush_qso_cleanup_def record_audit_def
        demo_env_sel max0_as_u64_def)
  from contacts_are_requested_for_the_controller [OF d, of "To_Qso (Qso_StartCq 1500 None True (Some ''phone''))"] d show ?thesis by auto
qed

section \<open>Who receives frames\<close>

text \<open>A capability that is good for the display at time \<open>t\<close>: the peer is admitted by a sound allow list and holds a token that has not
  expired by then, is not revoked, and has a scope of \<open>status\<close> or more.\<close>

definition holds_capability :: "arm_context \<Rightarrow> string \<Rightarrow> int \<Rightarrow> bool" where
  "holds_capability ctx q t \<longleftrightarrow>
     \<not> ac_allow_poisoned ctx \<and> q \<in> ac_tx_allow_list ctx \<and>
     (\<exists>a. fmlookup (ac_peers ctx) q = Some (Some a) \<and> t < pa_exp_ms a \<and> pa_jti a \<notin> ac_revoked_jtis ctx \<and>
        (\<exists>s \<in> set (pa_scopes a). s = ''status'' \<or> s = ''qsy'' \<or> s = ''tx''))"

lemma may_receive_holds: "peer_may_receive ctx q t \<longleftrightarrow> holds_capability ctx q t"
  by (auto simp: peer_may_receive_def peer_grants_def peer_admitted_def auth_grants_def scope_at_least_def scope_tier_def holds_capability_def
      list_ex_iff split: option.splits)

lemma deliver_sends_only:
  "fmlookup (ms_peers (deliver_sends rl env ctx clock sends sess)) q = fmlookup (ms_peers sess) q \<or>
     (\<exists>k < length sends. send_target (sends ! k) = q \<and> peer_may_receive ctx q (clock k))"
proof (induction sends arbitrary: clock sess)
  case (Cons send sends)
  let ?s = "if \<not> peer_may_receive ctx (send_target send) (clock 0) then sess
      else case en_frame_bytes env (send_event send) of None \<Rightarrow> sess | Some bs \<Rightarrow> fst (send_to rl sess (send_target send) bs)"
  have later: "fmlookup (ms_peers (deliver_sends rl env ctx clock (send # sends) sess)) q = fmlookup (ms_peers ?s) q \<or>
      (\<exists>k < length (send # sends). send_target ((send # sends) ! k) = q \<and> peer_may_receive ctx q (clock k))"
    using Cons [of "\<lambda>k. clock (k + 1)" ?s] by (auto intro: exI [of _ "Suc _"])
  show ?case
  proof (cases "send_target send = q \<and> peer_may_receive ctx q (clock 0)")
    case True
    then show ?thesis by (intro disjI2 exI [of _ 0]) simp
  next
    case False
    then have "fmlookup (ms_peers ?s) q = fmlookup (ms_peers sess) q"
      by (auto intro!: send_to_other split: option.splits)
    then show ?thesis using later by simp
  qed
qed simp

lemma drain_sends_only:
  "fmlookup (ms_peers (snd (drain_read_stream rl env ctx clock n feed sess))) q = fmlookup (ms_peers sess) q \<or>
     (\<exists>k < n. peer_may_receive ctx q (clock k q))"
proof (induction n arbitrary: feed sess)
  case (Suc n)
  show ?case
  proof (cases "peer_may_receive ctx q (clock n q)")
    case True
    then show ?thesis by blast
  next
    case False
    then have same: "fmlookup (ms_peers (fst (broadcast_to rl order sess bs (\<lambda>p. peer_may_receive ctx p (clock n p))))) q = fmlookup (ms_peers sess) q"
      for order bs
      using broadcast_shape(4) [of rl order sess bs "\<lambda>p. peer_may_receive ctx p (clock n p)"] by (metis prod.collapse)
    have step: "snd (drain_read_stream rl env ctx clock (Suc n) feed sess) = sess \<or>
        (\<exists>feed' sess'. snd (drain_read_stream rl env ctx clock (Suc n) feed sess) = snd (drain_read_stream rl env ctx clock n feed' sess') \<and>
           fmlookup (ms_peers sess') q = fmlookup (ms_peers sess) q)"
      using same by (fastforce split: option.splits list.splits feed_item.splits)
    then show ?thesis using Suc by (metis less_Suc_eq)
  qed
qed simp

text \<open>C34: frames and the display feed go only to peers that hold a current capability. Whatever frames are to be delivered and whatever
  the feed holds, the cipher state of a peer, which every frame to it would advance, is untouched unless, at the reading of the
  clock for a frame addressed to it, or for an item of the feed, the peer is admitted and holds a token that has not expired then,
  is not revoked, and has a scope.\<close>

theorem nothing_is_sent_without_a_capability:
  "(fmlookup (ms_peers (deliver_sends rl env ctx clock sends sess)) q = fmlookup (ms_peers sess) q \<or>
      (\<exists>k < length sends. send_target (sends ! k) = q \<and> holds_capability ctx q (clock k))) \<and>
   (fmlookup (ms_peers (snd (drain_all rl env ctx feed sess))) q = fmlookup (ms_peers sess) q \<or>
      (\<exists>k < READ_STREAM_DRAIN_MAX. holds_capability ctx q (en_feed_clock env k q)))"
  using deliver_sends_only [of rl env ctx clock sends sess q]
    drain_sends_only [of rl env ctx "en_feed_clock env" READ_STREAM_DRAIN_MAX feed sess q]
  unfolding may_receive_holds drain_all_def by blast

text \<open>A peer whose token has expired at 1000 is not sent the item of the feed that is drained at 1000, although the station still has the
  token on file.\<close>

definition demo_expired_ctx :: arm_context where
  "demo_expired_ctx = demo_agent_ctx\<lparr> ac_tx_allow_list := {demo_peer},
     ac_peers := fmupd demo_peer (Some \<lparr> pa_scopes = [''tx''], pa_exp_ms = 1000, pa_jti = ''t'' \<rparr>) fmempty \<rparr>"

theorem nothing_is_sent_without_a_capability_witness:
  "fmlookup (ms_peers (snd (drain_all demo_relay (demo_env\<lparr> en_feed_clock := \<lambda>_ _. 1000 \<rparr>) demo_expired_ctx [Feed_Event (Some [1])] demo_established))) demo_peer =
     Some \<lparr> ps_transport = 2, ps_session_id = ''A'' \<rparr>"
proof -
  have "\<not> holds_capability demo_expired_ctx demo_peer 1000" by (simp add: holds_capability_def demo_expired_ctx_def)
  then have "fmlookup (ms_peers (snd (drain_all demo_relay (demo_env\<lparr> en_feed_clock := \<lambda>_ _. 1000 \<rparr>) demo_expired_ctx [Feed_Event (Some [1])]
      demo_established))) demo_peer = fmlookup (ms_peers demo_established) demo_peer"
    using nothing_is_sent_without_a_capability [of demo_relay "demo_env\<lparr> en_feed_clock := \<lambda>_ _. 1000 \<rparr>" demo_expired_ctx _ "[]"
        demo_established demo_peer "[Feed_Event (Some [1])]"] by simp
  then show ?thesis by (simp add: demo_established_eq)
qed

section \<open>Losing an authorisation\<close>

text \<open>A token whose id the station has revoked authorises nobody again: a hello that presents it leaves the peer without a
  capability, and if the peer was in control it loses control and, under a sound lock, the arm.\<close>

theorem revoked_tokens_stay_revoked:
  assumes "verify_capability_token lib v token (unix_ms now) = Inr cap" and "vc_jti cap \<in> ac_revoked_jtis ctx"
    and "dispatch_action lib v env ctx (Hello (Some token)) peer sid now = (ctx', msgs, sends)" and "peer_admitted ctx peer"
  shows "\<not> peer_grants ctx' peer scope t \<and>
    (ac_controller ctx = Some peer \<and> \<not> ac_poisoned ctx \<and> (\<exists>a. fmlookup (ac_peers ctx) peer = Some (Some a)) \<longrightarrow>
       ac_controller ctx' = None \<and> armed_client_key_id (ac_arm ctx') = None)"
proof -
  obtain c sends' where c: "clear_peer_auth env (en_clock env 0) ctx peer (unix_ms now) = (c, sends')" by fastforce
  have "ctx' = c" using assms c by (cases "vc_client_key_id cap = peer") (auto simp: dispatch_action_def dispatch_hello_def Let_def)
  moreover have "fmlookup (ac_peers c) peer \<in> {None, Some None}"
    using c by (auto simp: clear_peer_auth_def release_controller_def Let_def disarm_audited_def locked_def split: option.splits if_splits prod.splits)
  moreover have "ac_controller c = None \<and> armed_client_key_id (ac_arm c) = None"
    if "ac_controller ctx = Some peer" "\<not> ac_poisoned ctx" "fmlookup (ac_peers ctx) peer = Some (Some a)" for a
    using c that disarmed_client [of "ac_arm ctx" OperatorDisarm "unix_ms now"]
    by (auto simp: clear_peer_auth_def release_controller_def Let_def disarm_audited_def locked_def disarm_def split: option.splits if_splits prod.splits)
  ultimately show ?thesis by (auto simp: peer_grants_def auth_grants_def split: option.splits)
qed

theorem revoked_tokens_stay_revoked_witness:
  "\<not> peer_grants (fst (dispatch_action (wire demo_station) demo_verifier demo_env (demo_armed_ctx\<lparr> ac_revoked_jtis := {''t1''} \<rparr>)
     (Hello (Some demo_jws)) ''phone'' ''s1'' demo_now)) ''phone'' ''status'' 1000000"
proof -
  let ?c = "demo_armed_ctx\<lparr> ac_revoked_jtis := {''t1''} \<rparr>"
  obtain ctx' msgs sends where d: "dispatch_action (wire demo_station) demo_verifier demo_env ?c (Hello (Some demo_jws)) ''phone'' ''s1'' demo_now = (ctx', msgs, sends)"
    by (metis prod_cases3)
  have t: "verify_capability_token (wire demo_station) demo_verifier demo_jws (unix_ms demo_now) = Inr demo_cap" by (simp add: demo_station_token)
  have "vc_jti demo_cap \<in> ac_revoked_jtis ?c" "peer_admitted ?c ''phone''" using demo_holds(1) by (simp_all add: demo_cap_def peer_admitted_def)
  from revoked_tokens_stay_revoked [OF t this(1) d this(2)] show ?thesis by (simp add: d)
qed

lemma evicted_state:
  "fmlookup (ac_peers (fold evict_peer ps ctx)) p = (if p \<in> set ps then None else fmlookup (ac_peers ctx) p)"
  "ac_revoked_jtis (fold evict_peer ps ctx) =
     ac_revoked_jtis ctx \<union> {pa_jti a | a. \<exists>p\<in>set ps. fmlookup (ac_peers ctx) p = Some (Some a)}"
proof (induction ps arbitrary: ctx)
  case (Cons q ps)
  have e: "fmlookup (ac_peers (evict_peer q ctx)) p = (if p = q then None else fmlookup (ac_peers ctx) p)"
    "ac_revoked_jtis (evict_peer q ctx) = ac_revoked_jtis ctx \<union> {pa_jti a | a. fmlookup (ac_peers ctx) q = Some (Some a)}" for p ctx
    by (auto simp: evict_peer_def split: option.splits)
  {
    case 1
    then show ?case using Cons.IH(1) by (simp add: e)
  next
    case 2
    then show ?case using Cons.IH(2) by (auto simp: e) metis
  }
qed simp_all

lemma settle_frame [simp]:
  "ac_peers (settle_eviction ev ms ctx) = ac_peers ctx" "ac_revoked_jtis (settle_eviction ev ms ctx) = ac_revoked_jtis ctx"
  by (auto simp: settle_eviction_def entered_def Let_def split: prod.splits)

lemma settle_standing:
  "ac_controller ctx = Some c \<Longrightarrow> c \<in> set ev \<Longrightarrow>
     ac_controller (settle_eviction ev ms ctx) = None \<and> armed_client_key_id (ac_arm (settle_eviction ev ms ctx)) = None"
  "armed_client_key_id (ac_arm ctx) = Some c \<Longrightarrow> c \<in> set ev \<Longrightarrow> armed_client_key_id (ac_arm (settle_eviction ev ms ctx)) = None"
  using disarmed_client [of "ac_arm ctx" AuthorizationRevoked ms]
  by (auto simp: settle_eviction_def entered_def Let_def split: prod.splits)

text \<open>C22: when the admission list has changed, the next turn evicts exactly those it no longer holds: every remaining peer, of the
  session or of the agent, is on the list, those on it keep their transports and capabilities, the tokens of the evicted are
  revoked, and an evicted controller or armer is out of control and disarmed.\<close>

theorem reconciliation_evicts_exactly:
  assumes "reconcile_authorizations env sample ctx sess now = (ctx', sess', sends)"
    and "ac_authz_generation ctx \<noteq> ac_generation_seen ctx" and "\<not> ac_allow_poisoned ctx"
  shows "fmlookup (ms_peers sess') p = (if p \<in> ac_tx_allow_list ctx then fmlookup (ms_peers sess) p else None) \<and>
    fmlookup (ac_peers ctx') p = (if p \<in> ac_tx_allow_list ctx then fmlookup (ac_peers ctx) p else None) \<and>
    ac_revoked_jtis ctx' = ac_revoked_jtis ctx \<union> {pa_jti a | a. \<exists>q. q \<notin> ac_tx_allow_list ctx \<and> fmlookup (ac_peers ctx) q = Some (Some a)} \<and>
    (ac_controller ctx = Some p \<and> p |\<in>| fmdom (ac_peers ctx) \<and> p \<notin> ac_tx_allow_list ctx \<longrightarrow>
       ac_controller ctx' = None \<and> armed_client_key_id (ac_arm ctx') = None) \<and>
    (armed_client_key_id (ac_arm ctx) = Some p \<and> p |\<in>| fmdom (ac_peers ctx) \<and> p \<notin> ac_tx_allow_list ctx \<longrightarrow>
       armed_client_key_id (ac_arm ctx') = None)"
proof -
  let ?allow = "ac_tx_allow_list ctx"
  obtain s1 ev1 where r: "replace_allowed sess ?allow = (s1, ev1)" by fastforce
  note sh = replace_allowed_shape [OF r]
  define ev where "ev = ev1 @ sorted_list_of_fset (ffilter (\<lambda>p. p \<notin> ?allow \<and> p \<notin> set ev1) (fmdom (ac_peers ctx)))"
  define c1 where "c1 = settle_eviction ev (unix_ms now) (fold evict_peer ev ctx)"
  have eq: "ctx' = c1\<lparr> ac_generation_seen := ac_authz_generation c1 \<rparr>" "sess' = s1"
    using reconcile_eq [of ctx sess s1 ev1 ev c1 now env sample] assms r by (simp_all add: ev_def c1_def)
  have ev: "set ev = {p. p \<notin> ?allow \<and> (p |\<in>| fmdom (ms_peers sess) \<or> p |\<in>| fmdom (ac_peers ctx))}"
    by (auto simp: ev_def sh(4))
  have "fmlookup (ac_peers c1) p = (if p \<in> ?allow then fmlookup (ac_peers ctx) p else None)"
    by (auto simp: c1_def evicted_state(1) ev dest: fmdom_notD)
  moreover have "ac_revoked_jtis c1 = ac_revoked_jtis ctx \<union> {pa_jti a | a. \<exists>q. q \<notin> ?allow \<and> fmlookup (ac_peers ctx) q = Some (Some a)}"
    by (auto simp: c1_def evicted_state(2) ev dest: fmdomI)
  moreover have "ac_controller c1 = None \<and> armed_client_key_id (ac_arm c1) = None"
    if "ac_controller ctx = Some p" "p |\<in>| fmdom (ac_peers ctx)" "p \<notin> ?allow"
    unfolding c1_def by (rule settle_standing(1) [of _ p]) (use that in \<open>simp_all add: ev\<close>)
  moreover have "armed_client_key_id (ac_arm c1) = None"
    if "armed_client_key_id (ac_arm ctx) = Some p" "p |\<in>| fmdom (ac_peers ctx)" "p \<notin> ?allow"
    unfolding c1_def by (rule settle_standing(2) [of _ p]) (use that in \<open>simp_all add: ev\<close>)
  ultimately show ?thesis by (simp add: eq sh(7))
qed

theorem reconciliation_evicts_exactly_witness:
  "\<exists>ctx'. fst (reconcile_authorizations demo_env demo_now (demo_armed_ctx\<lparr> ac_tx_allow_list := {}, ac_authz_generation := 1 \<rparr>) demo_established demo_now) = ctx' \<and>
     fmlookup (ac_peers ctx') ''phone'' = None \<and> ''t1'' \<in> ac_revoked_jtis ctx' \<and> ac_controller ctx' = None"
proof -
  let ?c = "demo_armed_ctx\<lparr> ac_tx_allow_list := {}, ac_authz_generation := 1 \<rparr>"
  obtain ctx' sess' sends where r: "reconcile_authorizations demo_env demo_now ?c demo_established demo_now = (ctx', sess', sends)"
    by (metis prod_cases3)
  have "ac_authz_generation ?c \<noteq> ac_generation_seen ?c" "\<not> ac_allow_poisoned ?c"
    using demo_holds(1) by (simp_all add: demo_arm_facts peer_admitted_def)
  from reconciliation_evicts_exactly [OF r this, of "''phone''"] show ?thesis by (auto simp: r demo_arm_facts simp del: One_nat_def)
qed

lemma release_expired_other:
  "(\<forall>p\<in>set ps. ac_controller ctx \<noteq> Some p) \<Longrightarrow> release_expired env sample now ps (ctx, sends) = (ctx, sends)"
  by (induction ps) auto

lemma release_expired_controller:
  assumes "c \<in> set ps" and "ac_controller ctx = Some c" and "\<not> ac_poisoned ctx"
  shows "ac_controller (fst (release_expired env sample now ps (ctx, sends))) = None \<and>
         armed_client_key_id (ac_arm (fst (release_expired env sample now ps (ctx, sends)))) = None"
  using assms
proof (induction ps arbitrary: sends)
  case (Cons p ps)
  show ?case
  proof (cases "p = c")
    case True
    then show ?thesis using Cons.prems disarmed_client [of "ac_arm ctx" OperatorDisarm "unix_ms now"]
      by (auto simp: release_controller_def Let_def disarm_audited_def locked_def disarm_def release_expired_other split: prod.splits)
  qed (use Cons in auto)
qed simp

text \<open>Sweeping expired capabilities takes exactly the expired ones, whatever order the peers are visited in, and a controller
  whose capability has run out is out of control and, under a sound lock, disarmed in the same step.\<close>

theorem expiry_ends_control:
  assumes "\<forall>m. set (en_iter env m) = fset m"
    and "expire_peer_auth env sample ctx now = (ctx', sends)"
  shows "fmlookup (ac_peers ctx') p = map_option (\<lambda>auth. if auth_expired (unix_ms now) auth then None else auth) (fmlookup (ac_peers ctx) p) \<and>
    (ac_controller ctx = Some p \<and> \<not> ac_poisoned ctx \<and>
     (\<exists>a. fmlookup (ac_peers ctx) p = Some (Some a) \<and> pa_exp_ms a \<le> unix_ms now) \<longrightarrow>
       ac_controller ctx' = None \<and> armed_client_key_id (ac_arm ctx') = None)"
proof -
  let ?c = "fst (sweep_expired_peer_auth env ctx (unix_ms now))"
  have rel: "ac_peers (fst (release_expired env sample now ps acc)) = ac_peers (fst acc)" for ps acc
    by (induction ps arbitrary: acc) (auto simp: release_controller_def Let_def disarm_audited_def locked_def split: prod.splits)
  have e: "ctx' = fst (release_expired env sample now (snd (sweep_expired_peer_auth env ctx (unix_ms now))) (?c, []))"
    using assms(2) by (simp add: expire_peer_auth_def split: prod.splits)
  have "fmlookup (ac_peers ctx') p = map_option (\<lambda>auth. if auth_expired (unix_ms now) auth then None else auth) (fmlookup (ac_peers ctx) p)"
    by (simp add: e rel sweep_expired_peer_auth_def fmlookup_map)
  moreover have "ac_controller ctx' = None \<and> armed_client_key_id (ac_arm ctx') = None"
    if "ac_controller ctx = Some p" "\<not> ac_poisoned ctx" "fmlookup (ac_peers ctx) p = Some (Some a)" "pa_exp_ms a \<le> unix_ms now" for a
    unfolding e
    by (rule release_expired_controller [of p]) (use that assms(1) in \<open>auto simp: sweep_expired_peer_auth_def auth_expired_def fmdomI\<close>)
  ultimately show ?thesis by blast
qed

theorem expiry_ends_control_witness:
  "ac_controller (fst (expire_peer_auth (demo_env\<lparr> en_iter := sorted_list_of_fset \<rparr>) demo_now demo_armed_ctx \<lparr> unix_ms = 2000000, monotonic = 5000, suspend_aware_ms = 5000 \<rparr>)) = None"
proof -
  let ?e = "demo_env\<lparr> en_iter := sorted_list_of_fset \<rparr>"
  obtain ctx' sends where x: "expire_peer_auth ?e demo_now demo_armed_ctx \<lparr> unix_ms = 2000000, monotonic = 5000, suspend_aware_ms = 5000 \<rparr> = (ctx', sends)" by fastforce
  have "\<forall>m. set (en_iter ?e m) = fset m" by simp
  from expiry_ends_control [OF this x, of "''phone''"] show ?thesis by (simp add: x demo_arm_facts demo_holds)
qed

section \<open>Refreshing authorisations\<close>

lemma publish_client:
  "armed_client_key_id (ac_arm (publish_tx_arm s ms ctx)) =
     (case armed_client_key_id (ac_arm ctx) of None \<Rightarrow> None | Some k \<Rightarrow> if k \<in> s then Some k else None)"
  using disarmed_client [of "ac_arm ctx" AuthorizationRevoked ms]
  by (auto simp: publish_tx_arm_def entered_def split: option.splits prod.splits)

text \<open>A successful poll leaves exactly the clients of this station's edges admitted and exactly those with an undelegated edge
  eligible to arm, so the latter are among the former; the armed client stays armed only if it is still eligible, and the
  generation that wakes the session loop moves exactly when one of the two lists changed.\<close>

theorem poll_publishes_exactly:
  "let ctx' = poll_refresh agent edges keys ms ctx in
     ac_tx_allow_list ctx' = ae_client_key_id ` {e \<in> set edges. ae_agent_key_id e = agent} \<and>
     ac_tx_arm_allow_list ctx' = ae_client_key_id ` {e \<in> set edges. ae_agent_key_id e = agent \<and> ae_delegated_by e = None} \<and>
     ac_tx_arm_allow_list ctx' \<subseteq> ac_tx_allow_list ctx' \<and> ac_client_keys ctx' = keys \<and>
     armed_client_key_id (ac_arm ctx') =
       (case armed_client_key_id (ac_arm ctx) of None \<Rightarrow> None | Some k \<Rightarrow> if k \<in> ac_tx_arm_allow_list ctx' then Some k else None) \<and>
     (ac_authz_generation ctx' = ac_authz_generation ctx \<longleftrightarrow>
        ac_tx_allow_list ctx' = ac_tx_allow_list ctx \<and> ac_tx_arm_allow_list ctx' = ac_tx_arm_allow_list ctx)"
proof -
  let ?A = "poll_allow agent edges" and ?T = "poll_tx_arm_allow agent edges"
  have sets: "?A = ae_client_key_id ` {e \<in> set edges. ae_agent_key_id e = agent}"
    "?T = ae_client_key_id ` {e \<in> set edges. ae_agent_key_id e = agent \<and> ae_delegated_by e = None}"
    by (auto simp: poll_allow_def poll_tx_arm_allow_def)
  have pub: "ac_tx_arm_allow_list (publish_tx_arm ?T ms ctx) = ?T" "ac_authz_generation (publish_tx_arm ?T ms ctx) = ac_authz_generation ctx"
    by (auto simp: publish_tx_arm_def entered_def apply_arm_effects_def split: option.splits prod.splits)
  let ?c = "poll_refresh agent edges keys ms ctx"
  have fields: "ac_tx_allow_list ?c = ?A" "ac_tx_arm_allow_list ?c = ?T" "ac_client_keys ?c = keys"
    "armed_client_key_id (ac_arm ?c) = (case armed_client_key_id (ac_arm ctx) of None \<Rightarrow> None | Some k \<Rightarrow> if k \<in> ?T then Some k else None)"
    "ac_authz_generation ?c = ac_authz_generation ctx \<longleftrightarrow> ?A = ac_tx_allow_list ctx \<and> ?T = ac_tx_arm_allow_list ctx"
    by (auto simp: poll_refresh_def Let_def pub publish_client)
  have "?T \<subseteq> ?A" by (auto simp: sets)
  then show ?thesis unfolding Let_def sets [symmetric] fields by blast
qed

end
