(* ===== verification/Station_Handover.thy ===== *)
theory Station_Handover
  imports Station_Demo
begin

text \<open>
  Control changing hands: over every run, the QSO engine hears of a new controller before the first contact requested in that
  controller's name, so it has dropped the work of the former one. The obligation is the agent's \<open>ac_cleanup_owed\<close>; the invariant
  relates it to the last announcement on the bus.
\<close>

section \<open>Announcements\<close>

fun announce :: "bus_message \<Rightarrow> string option \<Rightarrow> string option" where
  "announce (To_Qso (RemoteControllerChanged c)) a = Some c"
| "announce _ a = a"

fun request_key :: "bus_message \<Rightarrow> string option option" where
  "request_key (To_Qso (StartQso _ _ _ _ key)) = Some key"
| "request_key (To_Qso (RespondToCaller _ _ _ _ _ _ key)) = Some key"
| "request_key (To_Qso (Qso_StartCq _ _ _ key)) = Some key"
| "request_key _ = None"

text \<open>Every request in the list is in the name of the controller announced last.\<close>

fun requests_announced :: "string option \<Rightarrow> bus_message list \<Rightarrow> bool" where
  "requests_announced a [] = True"
| "requests_announced a (m # ms) =
     ((case request_key m of None \<Rightarrow> True | Some key \<Rightarrow> key = a) \<and> requests_announced (announce m a) ms)"

lemma requests_announced_append:
  "requests_announced a (xs @ ys) \<longleftrightarrow> requests_announced a xs \<and> requests_announced (fold announce xs a) ys"
  by (induction xs arbitrary: a) auto

lemma requests_announced_nth:
  "requests_announced a (xs @ m # ys) \<Longrightarrow> request_key m = Some key \<Longrightarrow> key = fold announce xs a"
  by (simp add: requests_announced_append)

definition handover_ok :: "string option \<Rightarrow> arm_context \<Rightarrow> bool" where
  "handover_ok a ctx \<longleftrightarrow>
     (\<forall>p. ac_controller ctx = Some p \<longrightarrow> (case ac_cleanup_owed ctx of Some owed \<Rightarrow> oc_controller owed = p | None \<Rightarrow> a = Some p))"

text \<open>Steps that at most release control.\<close>

definition releases :: "arm_context \<Rightarrow> arm_context \<Rightarrow> bool" where
  "releases ctx' ctx \<longleftrightarrow> ac_cleanup_owed ctx' = ac_cleanup_owed ctx \<and> ac_controller ctx' \<in> {ac_controller ctx, None}"

lemma releases_ok: "handover_ok a ctx \<Longrightarrow> releases ctx' ctx \<Longrightarrow> handover_ok a ctx'"
  by (auto simp: handover_ok_def releases_def)

lemma releases_refl [simp]: "releases ctx ctx"
  by (simp add: releases_def)

lemma releases_trans: "releases c b \<Longrightarrow> releases b a \<Longrightarrow> releases c a"
  by (auto simp: releases_def)

section \<open>The quiet operations\<close>

lemma releases_locked [simp]: "releases (fst (locked f ctx)) ctx" "releases (fst (entered f ctx)) ctx"
  by (simp_all add: releases_def locked_def entered_def split: prod.splits)

lemma releases_audit [simp]:
  "releases (apply_arm_effects effs ctx) c = releases ctx c" "releases (record_audit ts k op d ctx) c = releases ctx c"
  by (simp_all add: releases_def apply_arm_effects_def record_audit_def)

lemma releases_fields [simp]:
  "releases (ctx\<lparr> ac_peers := x1 \<rparr>) c = releases ctx c" "releases (ctx\<lparr> ac_seen_jtis := x2 \<rparr>) c = releases ctx c"
  "releases (ctx\<lparr> ac_arm := x3 \<rparr>) c = releases ctx c" "releases (ctx\<lparr> ac_revocation_pending := x4 \<rparr>) c = releases ctx c"
  "releases (ctx\<lparr> ac_generation_seen := x5 \<rparr>) c = releases ctx c" "releases (ctx\<lparr> ac_revoked_jtis := x6 \<rparr>) c = releases ctx c"
  "releases (ctx\<lparr> ac_split_tx_hz := x7 \<rparr>) c = releases ctx c" "releases (ctx\<lparr> ac_poisoned := x8 \<rparr>) c = releases ctx c"
  "releases (ctx\<lparr> ac_tx_allow_list := x9 \<rparr>) c = releases ctx c" "releases (ctx\<lparr> ac_client_keys := x10 \<rparr>) c = releases ctx c"
  "releases (ctx\<lparr> ac_authz_generation := x11 \<rparr>) c = releases ctx c" "releases (ctx\<lparr> ac_tx_arm_allow_list := x12 \<rparr>) c = releases ctx c"
  by (simp_all add: releases_def)

lemma releases_disarm [simp]: "releases (disarm_audited ms ctx) ctx"
  by (simp add: disarm_audited_def releases_def locked_def apply_arm_effects_def split: prod.splits)

lemma releases_release [simp]: "releases (fst (release_controller env ms sample now ctx)) ctx"
  using releases_disarm [of ms ctx] by (simp add: release_controller_def Let_def releases_def)

lemma releases_authz [simp]: "releases (authz_step op ctx) ctx"
  by (cases op) (auto simp: publish_tx_arm_def revoke_tx_arm_def entered_def releases_def apply_arm_effects_def Let_def split: option.splits prod.splits)

lemma releases_authz_run [simp]: "releases (fold authz_step ops ctx) ctx"
  by (induction ops arbitrary: ctx) (auto intro: releases_trans [OF _ releases_authz])

lemma releases_arm_under_lock [simp]: "releases (fst (arm_under_lock ctx c g now)) ctx"
  by (auto simp: arm_under_lock_def split: prod.splits)

lemma releases_verify_and_arm [simp]: "releases (fst (verify_and_arm lib v env ctx token grant peer sid sample now)) ctx"
proof -
  have "releases (fst (arm_under_lock (fold authz_step ops (ctx\<lparr> ac_seen_jtis := x \<rparr>)) c g t)) ctx" for ops x c g t
    by (rule releases_trans [OF releases_arm_under_lock releases_trans [OF releases_authz_run]]) simp
  then show ?thesis by (auto simp: verify_and_arm_def split: option.splits sum.splits prod.splits)
qed

lemma releases_clear [simp]: "releases (fst (clear_peer_auth env sample ctx peer ms)) ctx"
proof -
  have "releases (fst (release_controller env ms t sample (ctx\<lparr> ac_peers := m \<rparr>))) ctx" for t m
    by (rule releases_trans [OF releases_release]) simp
  then show ?thesis by (auto simp: clear_peer_auth_def Let_def split: option.splits)
qed

lemma releases_hello [simp]: "releases (fst (dispatch_hello lib v env sample ctx token peer ms)) ctx"
proof -
  obtain c sends where c: "clear_peer_auth env sample ctx peer ms = (c, sends)" by fastforce
  have "releases c ctx" using releases_clear [of env sample ctx peer ms] unfolding c by simp
  then show ?thesis by (simp add: dispatch_hello_def Let_def c split: option.splits sum.splits)
qed

lemma releases_expired [simp]: "releases (fst acc) ctx \<Longrightarrow> releases (fst (release_expired env sample now ps acc)) ctx"
proof (induction ps arbitrary: acc)
  case (Cons p ps)
  obtain c sends where acc: "acc = (c, sends)" by fastforce
  have "releases (fst (release_controller env ms sample now c)) ctx" for ms
    using Cons.prems by (auto intro: releases_trans [OF releases_release] simp: acc)
  then show ?case using Cons by (auto simp: acc)
qed simp

lemma releases_expire [simp]: "releases (fst (expire_peer_auth env sample ctx now)) ctx"
  by (simp add: expire_peer_auth_def sweep_expired_peer_auth_def)

lemma releases_left [simp]: "releases (fst (peer_left env sample ctx peer now)) ctx"
proof -
  have "releases (fst (release_controller env ms sample now (ctx\<lparr> ac_peers := m \<rparr>))) ctx" for ms m
    by (rule releases_trans [OF releases_release]) simp
  then show ?thesis by (simp add: peer_left_def Let_def)
qed

lemma releases_transition [simp]: "releases (fst (arm_transition_sends env ctx effs sample now)) ctx"
  by (simp add: arm_transition_sends_def Let_def)

lemma releases_sweep [simp]: "releases (fst (sweep_arm_expiry env ctx s1 s2 now)) ctx"
  by (auto simp: sweep_arm_expiry_def split: prod.splits intro: releases_trans [OF releases_transition] dest!: arg_cong [where f = fst])

lemma releases_evict [simp]: "releases (fold evict_peer ps ctx) ctx"
proof (induction ps arbitrary: ctx)
  case (Cons p ps)
  have "releases (evict_peer p ctx) ctx" by (auto simp: evict_peer_def releases_def split: option.splits)
  then show ?case using Cons by (auto intro: releases_trans)
qed simp

lemma releases_settle [simp]: "releases (settle_eviction ev ms ctx) ctx"
  by (auto simp: settle_eviction_def entered_def Let_def releases_def apply_arm_effects_def split: prod.splits)

lemma releases_reconcile [simp]: "releases (fst (reconcile_authorizations env sample ctx sess now)) ctx"
proof (cases "ac_authz_generation ctx = ac_generation_seen ctx")
  case False
  obtain s1 ev1 where r: "replace_allowed sess (if ac_allow_poisoned ctx then {} else ac_tx_allow_list ctx) = (s1, ev1)" by fastforce
  have "releases (settle_eviction ev ms (fold evict_peer ev ctx)) ctx" for ev ms
    by (rule releases_trans [OF releases_settle releases_evict])
  then show ?thesis using reconcile_eq [OF False r refl refl, of env sample now] by (simp only: releases_fields)
qed (simp add: reconcile_authorizations_def)

lemma releases_housekeeping [simp]: "releases (fst (session_housekeeping rl env ctx sess)) ctx"
proof -
  obtain c1 s1 x1 where r: "reconcile_authorizations env (en_clock env 21) ctx sess (en_clock env 20) = (c1, s1, x1)" by (metis prod_cases3)
  have "releases c1 ctx" using releases_reconcile [of env "en_clock env 21" ctx sess "en_clock env 20"] by (simp add: r)
  then have "releases (fst (expire_peer_auth env t (c1\<lparr> ac_revocation_pending := False \<rparr>) n)) ctx" for t n
    by (rule releases_trans [OF releases_expire, OF releases_fields(4) [THEN iffD2]])
  then show ?thesis by (simp add: session_housekeeping_def r Let_def split: prod.splits) (metis fst_conv)
qed

section \<open>The operations that speak\<close>

definition speaks_ok :: "string option \<Rightarrow> bus_message list \<Rightarrow> arm_context \<Rightarrow> bool" where
  "speaks_ok a msgs ctx \<longleftrightarrow> requests_announced a msgs \<and> handover_ok (fold announce msgs a) ctx"

lemma speaks_quiet: "handover_ok a ctx \<Longrightarrow> releases ctx' ctx \<Longrightarrow> speaks_ok a [] ctx'"
  by (simp add: speaks_ok_def releases_ok)

lemma speaks_releases: "speaks_ok a msgs ctx \<Longrightarrow> releases ctx' ctx \<Longrightarrow> speaks_ok a msgs ctx'"
  by (auto simp: speaks_ok_def releases_ok)

lemma speaks_append: "speaks_ok a xs ctx \<Longrightarrow> speaks_ok (fold announce xs a) ys ctx' \<Longrightarrow> speaks_ok a (xs @ ys) ctx'"
  by (simp add: speaks_ok_def requests_announced_append)

lemma flush_speaks: "handover_ok a ctx \<Longrightarrow> flush_qso_cleanup b ctx = (ctx', msgs) \<Longrightarrow> speaks_ok a msgs ctx'"
  by (auto simp: flush_qso_cleanup_def speaks_ok_def handover_ok_def split: option.splits if_splits)

lemma gate_handover: "handover_ok a ctx \<Longrightarrow> handover_ok a (fst (controller_gate_check env ctx peer t now))"
  by (auto simp: controller_gate_check_def handover_ok_def owe_qso_cleanup_def record_audit_def Let_def split: option.splits)

lemma intent_key: "request_key (To_Qso (tx_kind_to_qso_message f k peer)) = Some (Some peer)" "announce (To_Qso (tx_kind_to_qso_message f k peer)) a = a"
  by (cases k; simp)+

lemma handover_audit [simp]: "handover_ok a (record_audit ts k op d ctx) = handover_ok a ctx"
  by (simp add: handover_ok_def record_audit_def)

lemma tx_request_speaks:
  assumes "handover_ok a ctx" and "ac_controller ctx = Some peer" and "dispatch_tx_request env ctx k peer now grab = (ctx', msgs, sends)"
  shows "speaks_ok a msgs ctx'"
proof (cases "ac_poisoned ctx \<or> \<not> channel_consent (ac_arm ctx) StationAgent")
  case True
  then show ?thesis using assms by (auto simp: dispatch_tx_request_def speaks_ok_def Let_def)
next
  case False
  let ?r = "record_audit (unix_ms now) TxRequested (operator_callsign (ac_arm ctx)) (tx_detail env k) ctx"
  obtain c flushed where f: "flush_qso_cleanup (en_cleanup_accepted env) ?r = (c, flushed)" by fastforce
  have s: "speaks_ok a flushed c" using flush_speaks [OF _ f, of a] assms(1) by simp
  have "ac_controller c = Some peer" using f assms(2) by (auto simp: flush_qso_cleanup_def record_audit_def split: option.splits if_splits)
  then have "fold announce flushed a = Some peer" if "ac_cleanup_owed c = None" using s that by (auto simp: speaks_ok_def handover_ok_def)
  then show ?thesis using assms(3) False s f
    by (auto simp: dispatch_tx_request_def Let_def speaks_ok_def requests_announced_append intent_key split: if_splits)
qed

lemma stop_speaks:
  assumes "handover_ok a ctx" and "dispatch_stop_cq env ctx peer grab = (ctx', msgs, sends)"
  shows "speaks_ok a msgs ctx'"
proof -
  obtain c flushed where f: "flush_qso_cleanup (en_cleanup_accepted env) ctx = (c, flushed)" by fastforce
  show ?thesis using flush_speaks [OF assms(1) f] assms(2)
    by (auto simp: dispatch_stop_cq_def f speaks_ok_def requests_announced_append split: if_splits)
qed

lemma gated_speaks:
  assumes "handover_ok a ctx"
    and "\<And>c grab ctx' msgs sends. handover_ok a c \<Longrightarrow> ac_controller c = Some peer \<Longrightarrow> f c grab = (ctx', msgs, sends) \<Longrightarrow> speaks_ok a msgs ctx'"
    and "gated env ctx peer now f = (ctx', msgs, sends)"
  shows "speaks_ok a msgs ctx'"
proof -
  obtain c g where c: "controller_gate_check env ctx peer (en_clock env 0) now = (c, g)" by fastforce
  have h: "handover_ok a c" using gate_handover [OF assms(1), of env peer "en_clock env 0" now] by (simp add: c)
  show ?thesis
  proof (cases g)
    case (Proceed grab)
    then show ?thesis using assms(2) [OF h] assms(3) controller_gate_proceeds(1) [of env ctx peer "en_clock env 0" now c grab] c
      by (simp add: gated_def)
  next
    case (Gate_Refused s)
    then show ?thesis using assms(3) c h by (auto simp: gated_def speaks_ok_def)
  qed
qed

lemma take_control_handover: "handover_ok a ctx \<Longrightarrow> handover_ok a (fst (take_control env ctx peer now))"
  using releases_disarm [of "unix_ms now" ctx] unfolding take_control_def
  by (auto simp: Let_def handover_ok_def owe_qso_cleanup_def releases_def simp del: releases_disarm)

lemma dispatch_speaks:
  assumes "handover_ok a ctx" and "dispatch_action lib v env ctx action peer sid now = (ctx', msgs, sends)"
  shows "speaks_ok a msgs ctx'"
proof (cases "\<not> only_gives_up action \<and> \<not> peer_admitted ctx peer")
  case True
  then show ?thesis using assms by (auto simp: dispatch_action_def speaks_ok_def)
next
  case False
  then have d: "dispatch_admitted lib v env ctx action peer sid now = (ctx', msgs, sends)"
    using assms(2) by (auto simp: dispatch_action_def split: if_splits)
  show ?thesis
  proof (cases action)
    case (ArmAction token grant)
    have "releases c' c" if "verify_and_arm lib v env c token grant peer sid t n = (c', r)" for c c' r t n
      using releases_verify_and_arm [of lib v env c token grant peer sid t n] unfolding that by simp
    then show ?thesis using d unfolding ArmAction dispatch_admitted.simps
      by (elim gated_speaks [OF assms(1), rotated]) (auto split: prod.splits sum.splits intro: speaks_quiet)
  next
    case (Heartbeat jti seq)
    have "releases (fst (arm_transition_sends env (fst (locked f ctx)) effs t n)) ctx" for f effs t n
      by (rule releases_trans [OF releases_transition]) simp
    then show ?thesis using d assms(1) unfolding Heartbeat
      by (auto split: prod.splits intro!: speaks_quiet) (metis fst_conv)
  next
    case (DisarmAction jti)
    then show ?thesis using d assms(1) by (auto simp: Let_def intro: speaks_quiet)
  next
    case (Hello token)
    have "releases c ctx" if "dispatch_hello lib v env t ctx token peer ms = (c, r)" for c r t ms
      using releases_hello [of lib v env t ctx token peer ms] unfolding that by simp
    then show ?thesis using d assms(1) unfolding Hello by (auto split: prod.splits intro: speaks_quiet)
  next
    case (Qsy vfo hz)
    then show ?thesis using d assms(1)
      by (auto simp: speaks_ok_def split: option.splits if_splits elim!: gated_speaks [OF assms(1), rotated, unfolded speaks_ok_def])
  next
    case (SetSplit enabled hz)
    have "speaks_ok a ms c'" if "handover_ok a c" "forward_split_change env c e h = (c', ms)" for c c' ms e h
      using that by (auto simp: forward_split_change_def speaks_ok_def handover_ok_def split: if_splits option.splits)
    then show ?thesis using d assms(1) SetSplit
      by (auto split: option.splits elim!: gated_speaks [OF assms(1), rotated] split: if_splits prod.splits
          intro: speaks_quiet [OF _ releases_refl])
  next
    case (TxRequest k)
    then show ?thesis using d by (auto elim!: gated_speaks [OF assms(1), rotated] intro: tx_request_speaks)
  next
    case StopCq
    then show ?thesis using d assms(1)
      by (auto elim!: gated_speaks [OF assms(1), rotated] intro: stop_speaks speaks_quiet split: if_splits)
  next
    case TakeControl
    then show ?thesis using d assms(1) take_control_handover [OF assms(1), of env peer now]
      by (auto simp: speaks_ok_def split: if_splits prod.splits)
  next
    case ReleaseControl
    have "releases c ctx" if "release_controller env ms t n ctx = (c, r)" for c r t ms n
      using releases_release [of env ms t n ctx] unfolding that by simp
    then show ?thesis using d assms(1) ReleaseControl by (auto split: if_splits prod.splits intro: speaks_quiet)
  next
    case Unsupported
    then show ?thesis using d assms(1) by (auto intro: speaks_quiet)
  qed
qed

section \<open>Every run\<close>

lemma plaintext_speaks:
  assumes "handover_ok a ctx" and "handle_plaintext rl v env ctx sess feed peer pt now = (ctx', sess', feed', msgs)"
  shows "speaks_ok a msgs ctx'"
proof (cases "map_client_frame (wire rl) pt")
  case (Inl e)
  then show ?thesis using assms by (auto simp: handle_plaintext_def speaks_ok_def)
next
  case (Inr action)
  let ?sid = "case session_id sess peer of None \<Rightarrow> [] | Some s \<Rightarrow> s"
  obtain c1 sends1 where e: "expire_peer_auth env (en_clock env 14) ctx now = (c1, sends1)" by fastforce
  obtain c2 m sends2 where d: "dispatch_action (wire rl) v env c1 action peer ?sid now = (c2, m, sends2)" by (metis prod_cases3)
  have "releases c1 ctx" using releases_expire [of env "en_clock env 14" ctx now] unfolding e by simp
  then have "speaks_ok a m c2" using dispatch_speaks [OF _ d] releases_ok [OF assms(1)] by blast
  then show ?thesis using assms(2) by (auto simp: handle_plaintext_def Inr e d split: prod.splits)
qed

lemma poll_speaks:
  assumes "handover_ok a ctx" and "handle_poll rl v env ctx sess feed p now = (ctx', sess', feed', msgs)"
  shows "speaks_ok a msgs ctx'"
proof -
  have "releases c ctx" if "peer_left env t ctx q now = (c, sends)" for t q c sends
    using releases_left [of env t ctx q now] unfolding that by simp
  then show ?thesis using assms plaintext_speaks [OF assms(1)]
    by (cases p) (auto simp: handle_poll_def split: prod.splits intro: speaks_quiet)
qed

lemma turn_speaks:
  assumes "handover_ok a ctx" and "session_turn rl ident v env ctx sess feed = ((ctx', sess', feed', msgs), cont)"
  shows "speaks_ok a msgs ctx'"
proof -
  obtain c0 m0 where f: "flush_qso_cleanup (en_flush_accepted env) ctx = (c0, m0)" by fastforce
  obtain s1 polled where p: "process_next rl ident sess RECV_TICK_MS = (s1, polled)" by fastforce
  obtain c2 sends where w: "sweep_arm_expiry env c0 (en_clock env 11) (en_clock env 12) (en_clock env 10) = (c2, sends)" by fastforce
  let ?s2 = "deliver_sends rl env c2 (en_send_clock env 0) sends s1"
  have "releases c2 c0" using releases_sweep [of env c0 "en_clock env 11" "en_clock env 12" "en_clock env 10"] unfolding w by simp
  then have s: "speaks_ok a m0 c2" by (rule speaks_releases [OF flush_speaks [OF assms(1) f]])
  have ok: "speaks_ok a (m0 @ m3) ctx'"
    if "handle_poll rl v env c2 ?s2 feed q t = (c3, s3, fd, m3)" "session_housekeeping rl env c3 s3 = (ctx', sess')" for q t c3 s3 fd m3
  proof (rule speaks_append [OF s])
    have "releases ctx' c3" using releases_housekeeping [of rl env c3 s3] unfolding that(2) by simp
    then show "speaks_ok (fold announce m0 a) m3 ctx'"
      using speaks_releases [OF poll_speaks [OF _ that(1)]] s by (simp add: speaks_ok_def)
  qed
  show ?thesis
  proof (cases "en_shutdown env \<or> ms_transport_failed ?s2")
    case True
    then show ?thesis using assms s by (cases "en_shutdown env") (auto simp: session_turn_def f p w Let_def intro: speaks_quiet)
  next
    case False
    then show ?thesis
    proof (cases polled)
      case (Inr q)
      then show ?thesis using False assms(2) s ok by (cases q) (auto simp: session_turn_def f p w split: prod.splits)
    qed (use False assms(2) s in \<open>auto simp: session_turn_def f p w\<close>)
  qed
qed

text \<open>Machines whose outputs are watched: a monitor state follows the outputs, and every step speaks as the monitor allows.\<close>

locale watched_machine =
  fixes step :: "'s \<Rightarrow> 'e \<Rightarrow> 's \<times> 'o list"
    and watch :: "'o \<Rightarrow> 'm \<Rightarrow> 'm"
    and good :: "'m \<Rightarrow> 'o list \<Rightarrow> bool"
    and inv :: "'m \<Rightarrow> 's \<Rightarrow> bool"
  assumes good_nil: "good m []"
    and good_append: "good m (xs @ ys) \<longleftrightarrow> good m xs \<and> good (fold watch xs m) ys"
    and watched_step: "inv m s \<Longrightarrow> good m (snd (step s e)) \<and> inv (fold watch (snd (step s e)) m) (fst (step s e))"
begin

lemma watched_run: "inv m s \<Longrightarrow> good m (snd (run step s es)) \<and> inv (fold watch (snd (run step s es)) m) (fst (run step s es))"
proof (induction es arbitrary: m s)
  case (Cons e es)
  obtain s1 o1 where e: "step s e = (s1, o1)" by fastforce
  obtain s2 o2 where r: "run step s1 es = (s2, o2)" by fastforce
  show ?case using Cons.IH [of "fold watch o1 m" s1] watched_step [OF Cons.prems, of e] by (simp add: e r good_append)
qed (simp add: good_nil)

end

lemma agent_speaks:
  assumes "handover_ok a (ag_ctx s)" and "agent_step rl ident v s e = (s', msgs)"
  shows "speaks_ok a msgs (ag_ctx s')"
proof -
  have loss: "releases (disarm_on_loss ms ctx) ctx" for ms ctx
    using releases_disarm [of ms ctx] by (simp add: disarm_on_loss_def releases_def)
  have guard: "releases (guard_drop r ms ctx) ctx" for r ms ctx
    by (simp add: guard_drop_def releases_def entered_def apply_arm_effects_def split: prod.splits)
  have start: "releases c ctx" if "session_start rl ident w n ctx = (c, sess, b)" for w n ctx c sess b
    using that by (auto simp: session_start_def Let_def releases_def split: prod.splits sum.splits)
  show ?thesis
  proof (cases e)
    case (Ag_Start w n ms)
    then show ?thesis using assms start [of w n "ag_ctx s"]
      by (auto split: option.splits prod.splits bool.splits intro: speaks_quiet speaks_quiet [OF _ releases_trans [OF loss]])
  next
    case (Ag_Turn env feed ms)
    have "speaks_ok a m c \<and> speaks_ok a m (disarm_on_loss ms c)"
      if "session_turn rl ident v env (ag_ctx s) sess feed = ((c, sess', feed', m), cont)" for sess c sess' feed' m cont
      using turn_speaks [OF assms(1) that] speaks_releases [OF _ loss] by blast
    then show ?thesis using assms Ag_Turn by (auto split: option.splits prod.splits bool.splits intro: speaks_quiet)
  next
    case (Ag_Switch ev)
    have "releases c (ag_ctx s)" if "entered f (ag_ctx s) = (c, effs)" for f c effs
      using releases_locked(2) [of f "ag_ctx s"] unfolding that by simp
    then show ?thesis using assms Ag_Switch by (auto split: if_splits prod.splits intro: speaks_quiet)
  next
    case (Ag_Task_End reason ms)
    then show ?thesis using assms by (auto simp: fresh_task_def speaks_ok_def handover_ok_def)
  next
    case (Ag_Recover ms)
    then show ?thesis using assms guard
      by (auto simp: fail_safe_disarm_remote_tx_def split: if_splits intro!: speaks_quiet [OF assms(1)])
  qed (use assms in \<open>auto intro: speaks_quiet\<close>)
qed

interpretation agent_bus: watched_machine "agent_step rl ident v" announce requests_announced "\<lambda>a s. handover_ok a (ag_ctx s)"
proof
  show "requests_announced m (xs @ ys) \<longleftrightarrow> requests_announced m xs \<and> requests_announced (fold announce xs m) ys" for m xs ys
    by (rule requests_announced_append)
  show "requests_announced m (snd (agent_step rl ident v s e)) \<and>
      handover_ok (fold announce (snd (agent_step rl ident v s e)) m) (ag_ctx (fst (agent_step rl ident v s e)))"
    if "handover_ok m (ag_ctx s)" for m and s :: "('a, 'c) agent_state" and e
    using agent_speaks [OF that, of rl ident v e "fst (agent_step rl ident v s e)" "snd (agent_step rl ident v s e)"] by (simp add: speaks_ok_def)
qed simp

text \<open>C3: over every run of the agent, through takeovers, releases, full inboxes, crashes and restarts, each contact or CQ the QSO
  engine is asked for is in the name of the controller most recently announced to it.\<close>

theorem requests_follow_the_announcement:
  "requests_announced None (snd (run (agent_step rl ident v) (agent_init static_list will_poll keys) es))"
proof -
  have "handover_ok None (ag_ctx (agent_init static_list will_poll keys))" by (simp add: handover_ok_def agent_init_def)
  from agent_bus.watched_run [OF this] show ?thesis by blast
qed

end
