(* ===== verification/Band.thy ===== *)
theory Band
  imports Complex_Main Prelude
begin

text \<open>
  Amateur bands and the band plan: the tables of \<open>pancetta-core/src/types/band.rs\<close>, the rule that decides when a change
  of the dial is a change of band (\<open>coordinator/mod.rs\<close>), and the check that keeps a transmission inside the configured
  band plan (\<open>pancetta-tui/src/app.rs\<close>, \<open>coordinator/tx.rs\<close>). A frequency (\<open>u64\<close>, in Hz) is a natural number below
  \<open>2\<^sup>6\<^sup>4\<close>; a finite \<open>f64\<close> is the rational it denotes, and sums of frequencies are taken exactly.
\<close>

named_theorems band_simps \<open>unfolding of the band tables\<close>

section \<open>The band tables\<close>

datatype band =
    Band160m | Band80m | Band60m | Band40m | Band30m | Band20m | Band17m | Band15m | Band12m | Band10m | Band6m
  | Band2m | Band70cm | Custom nat nat

datatype iaru_region = Region1 | Region2 | Region3

definition region_from_u8 :: "u8 \<Rightarrow> iaru_region option" where
  "region_from_u8 n = (if n = 1 then Some Region1 else if n = 2 then Some Region2 else if n = 3 then Some Region3 else None)"

fun region_to_u8 :: "iaru_region \<Rightarrow> u8" where
  "region_to_u8 Region1 = 1"
| "region_to_u8 Region2 = 2"
| "region_to_u8 Region3 = 3"

fun frequency_range :: "band \<Rightarrow> nat \<times> nat" where
  "frequency_range Band160m = (1800000, 2000000)"
| "frequency_range Band80m = (3500000, 4000000)"
| "frequency_range Band60m = (5330000, 5405000)"
| "frequency_range Band40m = (7000000, 7300000)"
| "frequency_range Band30m = (10100000, 10150000)"
| "frequency_range Band20m = (14000000, 14350000)"
| "frequency_range Band17m = (18068000, 18168000)"
| "frequency_range Band15m = (21000000, 21450000)"
| "frequency_range Band12m = (24890000, 24990000)"
| "frequency_range Band10m = (28000000, 29700000)"
| "frequency_range Band6m = (50000000, 54000000)"
| "frequency_range Band2m = (144000000, 148000000)"
| "frequency_range Band70cm = (420000000, 450000000)"
| "frequency_range (Custom low high) = (low, high)"

definition all_bands :: "band list" where
  "all_bands = [Band160m, Band80m, Band60m, Band40m, Band30m, Band20m, Band17m, Band15m, Band12m, Band10m, Band6m,
     Band2m, Band70cm]"

definition in_range :: "nat \<times> nat \<Rightarrow> nat \<Rightarrow> bool" where
  "in_range r f \<longleftrightarrow> fst r \<le> f \<and> f \<le> snd r"

definition contains_frequency :: "band \<Rightarrow> nat \<Rightarrow> bool" where
  "contains_frequency b f \<longleftrightarrow> in_range (frequency_range b) f"

definition from_frequency :: "nat \<Rightarrow> band option" where
  "from_frequency f = find (\<lambda>b. in_range (frequency_range b) f) all_bands"

fun frequency_range_for_region :: "band \<Rightarrow> iaru_region \<Rightarrow> nat \<times> nat" where
  "frequency_range_for_region Band40m Region1 = (7000000, 7200000)"
| "frequency_range_for_region Band80m Region1 = (3500000, 3800000)"
| "frequency_range_for_region Band60m Region1 = (5351500, 5366500)"
| "frequency_range_for_region Band2m Region1 = (144000000, 146000000)"
| "frequency_range_for_region Band70cm Region1 = (430000000, 440000000)"
| "frequency_range_for_region Band40m Region3 = (7000000, 7200000)"
| "frequency_range_for_region Band80m Region3 = (3500000, 3900000)"
| "frequency_range_for_region Band60m Region3 = (5351500, 5366500)"
| "frequency_range_for_region Band2m Region3 = (144000000, 146000000)"
| "frequency_range_for_region Band70cm Region3 = (430000000, 440000000)"
| "frequency_range_for_region b r = frequency_range b"

definition from_frequency_for_region :: "nat \<Rightarrow> iaru_region \<Rightarrow> band option" where
  "from_frequency_for_region f r = find (\<lambda>b. in_range (frequency_range_for_region b r) f) all_bands"

definition is_hf :: "band \<Rightarrow> bool" where "is_hf b \<longleftrightarrow> snd (frequency_range b) < 30000000"

definition is_vhf :: "band \<Rightarrow> bool" where
  "is_vhf b \<longleftrightarrow> 30000000 \<le> fst (frequency_range b) \<and> snd (frequency_range b) \<le> 300000000"

definition is_uhf :: "band \<Rightarrow> bool" where "is_uhf b \<longleftrightarrow> 300000000 < fst (frequency_range b)"

fun ft8_frequency :: "band \<Rightarrow> nat option" where
  "ft8_frequency Band160m = Some 1840000"
| "ft8_frequency Band80m = Some 3573000"
| "ft8_frequency Band60m = Some 5357000"
| "ft8_frequency Band40m = Some 7074000"
| "ft8_frequency Band30m = Some 10136000"
| "ft8_frequency Band20m = Some 14074000"
| "ft8_frequency Band17m = Some 18100000"
| "ft8_frequency Band15m = Some 21074000"
| "ft8_frequency Band12m = Some 24915000"
| "ft8_frequency Band10m = Some 28074000"
| "ft8_frequency Band6m = Some 50313000"
| "ft8_frequency Band2m = Some 144174000"
| "ft8_frequency _ = None"

fun ft4_frequency :: "band \<Rightarrow> nat option" where
  "ft4_frequency Band80m = Some 3575000"
| "ft4_frequency Band40m = Some 7047500"
| "ft4_frequency Band30m = Some 10140000"
| "ft4_frequency Band20m = Some 14080000"
| "ft4_frequency Band17m = Some 18104000"
| "ft4_frequency Band15m = Some 21140000"
| "ft4_frequency Band12m = Some 24919000"
| "ft4_frequency Band10m = Some 28180000"
| "ft4_frequency Band6m = Some 50318000"
| "ft4_frequency _ = None"

definition dial_for :: "band \<Rightarrow> bool \<Rightarrow> nat option" where
  "dial_for b is_ft4 = (if is_ft4 then ft4_frequency b else ft8_frequency b)"

fun band_to_id :: "band \<Rightarrow> u8" where
  "band_to_id Band160m = 0"
| "band_to_id Band80m = 1"
| "band_to_id Band60m = 2"
| "band_to_id Band40m = 3"
| "band_to_id Band30m = 4"
| "band_to_id Band20m = 5"
| "band_to_id Band17m = 6"
| "band_to_id Band15m = 7"
| "band_to_id Band12m = 8"
| "band_to_id Band10m = 9"
| "band_to_id Band6m = 10"
| "band_to_id Band2m = 11"
| "band_to_id Band70cm = 12"
| "band_to_id (Custom low high) = of_nat (low div 1000000) mod 100"

fun band_display :: "band \<Rightarrow> string" where
  "band_display Band160m = ''160m''"
| "band_display Band80m = ''80m''"
| "band_display Band60m = ''60m''"
| "band_display Band40m = ''40m''"
| "band_display Band30m = ''30m''"
| "band_display Band20m = ''20m''"
| "band_display Band17m = ''17m''"
| "band_display Band15m = ''15m''"
| "band_display Band12m = ''12m''"
| "band_display Band10m = ''10m''"
| "band_display Band6m = ''6m''"
| "band_display Band2m = ''2m''"
| "band_display Band70cm = ''70cm''"
| "band_display (Custom low high) = nat_to_dec (low div 1000000) @ ''-'' @ nat_to_dec (high div 1000000) @ '' MHz''"

definition band_from_str :: "string \<Rightarrow> string + band" where
  "band_from_str s =
     (if s = ''160m'' then Inr Band160m else if s = ''80m'' then Inr Band80m else if s = ''60m'' then Inr Band60m
      else if s = ''40m'' then Inr Band40m else if s = ''30m'' then Inr Band30m else if s = ''20m'' then Inr Band20m
      else if s = ''17m'' then Inr Band17m else if s = ''15m'' then Inr Band15m else if s = ''12m'' then Inr Band12m
      else if s = ''10m'' then Inr Band10m else if s = ''6m'' then Inr Band6m else if s = ''2m'' then Inr Band2m
      else if s = ''70cm'' then Inr Band70cm else Inl (''Unknown band: '' @ s))"

section \<open>A change of band\<close>

definition BAND_CHANGE_HZ_THRESHOLD :: nat where "BAND_CHANGE_HZ_THRESHOLD = 100000"

definition abs_diff :: "nat \<Rightarrow> nat \<Rightarrow> nat" where
  "abs_diff a b = (if a < b then b - a else a - b)"

definition is_band_change :: "nat \<Rightarrow> nat \<Rightarrow> bool" where
  "is_band_change old_hz new_hz =
     (if old_hz = 0 then False
      else if old_hz = new_hz then False
      else case (from_frequency old_hz, from_frequency new_hz) of
             (Some a, Some b) \<Rightarrow> a \<noteq> b
           | _ \<Rightarrow> BAND_CHANGE_HZ_THRESHOLD \<le> abs_diff old_hz new_hz)"

definition is_stale_band_decode :: "nat option \<Rightarrow> nat \<Rightarrow> bool" where
  "is_stale_band_decode captured live =
     (case captured of Some hz \<Rightarrow> hz \<noteq> 0 \<and> live \<noteq> 0 \<and> is_band_change hz live | None \<Rightarrow> False)"

definition FREQ_COMMAND_SETTLE_MS :: nat where "FREQ_COMMAND_SETTLE_MS = 3000"

text \<open>Instants of the monotonic clock are milliseconds; the difference of two saturates at zero.\<close>

definition band_change_attributable_to_command :: "nat \<Rightarrow> (nat \<times> nat) option \<Rightarrow> nat \<Rightarrow> bool" where
  "band_change_attributable_to_command polled_hz last_command now =
     (case last_command of
        None \<Rightarrow> False
      | Some (commanded_hz, issued_at) \<Rightarrow>
          if now - issued_at < FREQ_COMMAND_SETTLE_MS then True else \<not> is_band_change commanded_hz polled_hz)"

section \<open>The band plan\<close>

record band_plan_config =
  plan_region :: u8
  custom_bands :: "string \<Rightarrow> (nat \<times> nat) list option"
  edge_warnings :: bool

definition band_plan_candidate_ranges :: "nat \<Rightarrow> band_plan_config \<Rightarrow> (nat \<times> nat) list" where
  "band_plan_candidate_ranges f plan =
     (case Option.bind (from_frequency f) (\<lambda>b. map_option (Pair b) (custom_bands plan (band_display b))) of
        Some (b, ranges) \<Rightarrow>
          filter (\<lambda>(s, e). s \<le> e)
            (map (\<lambda>(s, e). (max s (fst (frequency_range b)), min e (snd (frequency_range b)))) ranges)
      | None \<Rightarrow>
          (case (case region_from_u8 (plan_region plan) of
                   Some region \<Rightarrow> map_option (\<lambda>b. frequency_range_for_region b region) (from_frequency_for_region f region)
                 | None \<Rightarrow> map_option frequency_range (from_frequency f)) of
             Some r \<Rightarrow> [r]
           | None \<Rightarrow> []))"

definition tx_rf_out_of_band_plan :: "nat \<Rightarrow> band_plan_config \<Rightarrow> bool" where
  "tx_rf_out_of_band_plan f plan \<longleftrightarrow>
     edge_warnings plan \<and> \<not> (\<exists>r \<in> set (band_plan_candidate_ranges f plan). fst r \<le> f \<and> f \<le> snd r)"

definition tx_interval_out_of_band_plan :: "nat \<Rightarrow> nat \<Rightarrow> band_plan_config \<Rightarrow> bool" where
  "tx_interval_out_of_band_plan low high plan \<longleftrightarrow>
     edge_warnings plan \<and> \<not> (\<exists>r \<in> set (band_plan_candidate_ranges low plan). fst r \<le> low \<and> high \<le> snd r)"

datatype float64 = Finite rat | NaN | Infinity | Neg_Infinity

fun f64_text :: "float64 \<Rightarrow> string" where
  "f64_text NaN = ''NaN''"
| "f64_text Infinity = ''inf''"
| "f64_text Neg_Infinity = ''-inf''"
| "f64_text (Finite x) = ''''"

text \<open>\<open>as u64\<close> of a finite non-negative number that has been rounded.\<close>

definition as_u64_sat :: "int \<Rightarrow> nat" where
  "as_u64_sat x = min (nat x) (2 ^ 64 - 1)"

definition tx_band_plan_mute_reason :: "float64 \<Rightarrow> float64 \<Rightarrow> band_plan_config \<Rightarrow> string option" where
  "tx_band_plan_mute_reason tx_rf_hz signal_span_hz plan =
     (case tx_rf_hz of
        Finite rf \<Rightarrow>
          let span = (case signal_span_hz of Finite s \<Rightarrow> if 0 < s then s else 0 | _ \<Rightarrow> 0);
              low = as_u64_sat \<lfloor>max rf 0\<rfloor>;
              high = as_u64_sat \<lceil>max rf 0 + span\<rceil>;
              low_out = tx_rf_out_of_band_plan low plan;
              interval_out = (high \<noteq> low \<and> tx_interval_out_of_band_plan low high plan)
          in if low_out
             then Some (''TX frequency '' @ nat_to_dec low @ '' Hz is outside the configured amateur band plan'')
             else if interval_out
             then Some (''TX signal '' @ nat_to_dec low @ ''-'' @ nat_to_dec high @
                        '' Hz extends outside the configured amateur band plan'')
             else None
      | v \<Rightarrow> Some (''TX frequency '' @ f64_text v @ '' Hz is not a valid RF frequency''))"

definition effective_tx_dial :: "nat \<Rightarrow> nat \<Rightarrow> nat" where
  "effective_tx_dial rx_dial_hz split_tx_hz = (if split_tx_hz \<noteq> 0 then split_tx_hz else rx_dial_hz)"

definition tx_rf_for_gate :: "nat \<Rightarrow> nat \<Rightarrow> rat \<Rightarrow> rat option" where
  "tx_rf_for_gate operating_frequency_hz split_tx_frequency_hz audio_offset_hz =
     (let tx_dial = effective_tx_dial operating_frequency_hz split_tx_frequency_hz
      in if tx_dial = 0 then None else Some (of_nat tx_dial + audio_offset_hz))"

text \<open>The UTF-8 bytes of an em dash.\<close>

definition EM_DASH :: string where "EM_DASH = [CHR 0xE2, CHR 0x80, CHR 0x94]"

definition ptt_band_plan_refusal :: "nat \<Rightarrow> nat \<Rightarrow> band_plan_config \<Rightarrow> string option" where
  "ptt_band_plan_refusal operating_freq_hz split_tx_hz plan =
     Option.bind (tx_rf_for_gate operating_freq_hz split_tx_hz 0) (\<lambda>rf.
       if tx_band_plan_mute_reason (Finite rf) (Finite 0) plan \<noteq> None
       then Some (''Can't key PTT '' @ EM_DASH @ '' TX dial '' @ nat_to_dec (as_u64_sat \<lfloor>rf\<rfloor>) @ '' Hz is outside the configured amateur band plan'')
       else None)"

section \<open>The tables are consistent\<close>

lemma in_range_iff [band_simps]: "in_range (a, b) f \<longleftrightarrow> a \<le> f \<and> f \<le> b"
  by (simp add: in_range_def)

text \<open>The bands do not overlap: a frequency belongs to the band whose range contains it.\<close>

lemma from_frequency_iff: "from_frequency f = Some b \<longleftrightarrow> b \<in> set all_bands \<and> contains_frequency b f"
proof
  assume "from_frequency f = Some b"
  then show "b \<in> set all_bands \<and> contains_frequency b f"
    by (auto simp: from_frequency_def find_Some_iff contains_frequency_def)
next
  assume "b \<in> set all_bands \<and> contains_frequency b f"
  then show "from_frequency f = Some b"
    by (cases b) (simp_all add: all_bands_def from_frequency_def contains_frequency_def band_simps)
qed

lemma region_within_global:
  "fst (frequency_range b) \<le> fst (frequency_range_for_region b r) \<and>
   snd (frequency_range_for_region b r) \<le> snd (frequency_range b)"
  by (cases b; cases r) simp_all

lemma from_frequency_region:
  "from_frequency_for_region f r = Some b \<Longrightarrow> from_frequency f = Some b"
  using region_within_global [of b r]
  by (auto simp: from_frequency_for_region_def find_Some_iff from_frequency_iff contains_frequency_def in_range_def)

text \<open>A band plan only ever allows ranges of amateur bands: a range that governs a frequency lies inside the one
  band that contains the frequency.\<close>

lemma candidate_within_band:
  assumes "r \<in> set (band_plan_candidate_ranges f plan)"
  shows "\<exists>b. from_frequency f = Some b \<and> fst (frequency_range b) \<le> fst r \<and> snd r \<le> snd (frequency_range b)"
proof (cases "Option.bind (from_frequency f) (\<lambda>b. map_option (Pair b) (custom_bands plan (band_display b)))")
  case None
  show ?thesis
  proof (cases "region_from_u8 (plan_region plan)")
    case (Some region)
    then obtain b where "from_frequency_for_region f region = Some b" "r = frequency_range_for_region b region"
      using assms None by (cases "from_frequency_for_region f region") (auto simp: band_plan_candidate_ranges_def)
    then show ?thesis using from_frequency_region region_within_global by metis
  next
    case none: None
    then show ?thesis using assms None by (cases "from_frequency f") (auto simp: band_plan_candidate_ranges_def)
  qed
next
  case (Some p)
  then show ?thesis using assms
    by (cases p) (auto simp: band_plan_candidate_ranges_def Option.bind_eq_Some_conv)
qed

lemma band_top: "from_frequency f = Some b \<Longrightarrow> snd (frequency_range b) \<le> 450000000"
  by (auto simp: from_frequency_iff all_bands_def)

lemma band_bottom: "from_frequency f = Some b \<Longrightarrow> 0 < fst (frequency_range b)"
  by (auto simp: from_frequency_iff all_bands_def)

section \<open>Properties\<close>

definition positive_part :: "float64 \<Rightarrow> rat" where
  "positive_part v = (case v of Finite s \<Rightarrow> max s 0 | _ \<Rightarrow> 0)"

lemma low_edge: "0 \<le> rf \<Longrightarrow> k \<le> nat \<lfloor>rf\<rfloor> \<longleftrightarrow> of_nat k \<le> (rf :: rat)"
  by (simp add: le_nat_iff le_floor_iff)

lemma high_edge: "0 \<le> rf \<Longrightarrow> nat \<lceil>rf\<rceil> \<le> k \<longleftrightarrow> (rf :: rat) \<le> of_nat k"
  by (simp add: nat_le_iff ceiling_le_iff)

lemma as_u64_sat_le: "k < 2 ^ 64 - 1 \<Longrightarrow> as_u64_sat x \<le> k \<longleftrightarrow> nat x \<le> k"
  by (auto simp: as_u64_sat_def)

lemma as_u64_sat_ge: "k \<le> 2 ^ 64 - 1 \<Longrightarrow> k \<le> as_u64_sat x \<longleftrightarrow> k \<le> nat x"
  by (auto simp: as_u64_sat_def)

text \<open>The interval check alone decides: it includes the check of the low edge.\<close>

lemma mute_reason_interval:
  "tx_band_plan_mute_reason (Finite rf) w plan = None \<longleftrightarrow>
     \<not> tx_interval_out_of_band_plan (as_u64_sat \<lfloor>max rf 0\<rfloor>) (as_u64_sat \<lceil>max rf 0 + positive_part w\<rceil>) plan"
proof -
  let ?l = "as_u64_sat \<lfloor>max rf 0\<rfloor>" and ?h = "as_u64_sat \<lceil>max rf 0 + positive_part w\<rceil>"
  have span: "(case w of Finite s \<Rightarrow> if 0 < s then s else 0 | _ \<Rightarrow> 0) = positive_part w"
    by (auto simp: positive_part_def max_def split: float64.splits)
  have "0 \<le> positive_part w" by (simp add: positive_part_def split: float64.splits)
  then have "\<lfloor>max rf 0\<rfloor> \<le> \<lceil>max rf 0 + positive_part w\<rceil>"
    by (metis add_increasing2 ceiling_mono floor_le_ceiling order.trans order_refl)
  then have le: "?l \<le> ?h" by (auto simp: as_u64_sat_def min_le_iff_disj intro: nat_mono)
  show ?thesis unfolding tx_band_plan_mute_reason_def float64.case Let_def span
    using le by (auto simp: tx_rf_out_of_band_plan_def tx_interval_out_of_band_plan_def)
qed

lemma saturated_edges:
  assumes "k \<le> 450000000" and "0 < j"
  shows "j \<le> as_u64_sat \<lfloor>max rf 0\<rfloor> \<and> as_u64_sat \<lfloor>max rf 0\<rfloor> \<le> k \<Longrightarrow> as_u64_sat \<lfloor>max rf 0\<rfloor> = nat \<lfloor>rf\<rfloor> \<and> 0 < rf"
    and "0 < rf \<Longrightarrow> rf \<le> of_nat k \<Longrightarrow> as_u64_sat \<lfloor>max rf 0\<rfloor> = nat \<lfloor>rf\<rfloor>"
proof -
  assume "j \<le> as_u64_sat \<lfloor>max rf 0\<rfloor> \<and> as_u64_sat \<lfloor>max rf 0\<rfloor> \<le> k"
  then have "0 < as_u64_sat \<lfloor>max rf 0\<rfloor>" "as_u64_sat \<lfloor>max rf 0\<rfloor> \<le> 450000000" using assms by auto
  then show "as_u64_sat \<lfloor>max rf 0\<rfloor> = nat \<lfloor>rf\<rfloor> \<and> 0 < rf"
    by (auto simp: as_u64_sat_def max_def split: if_splits)
next
  assume "0 < rf" "rf \<le> of_nat k"
  then have "rf \<le> of_nat 450000000" using assms(1) by (meson of_nat_mono order.trans)
  then have "\<lfloor>rf\<rfloor> \<le> 450000000" by (simp add: floor_le_iff)
  then show "as_u64_sat \<lfloor>max rf 0\<rfloor> = nat \<lfloor>rf\<rfloor>" using \<open>0 < rf\<close> by (auto simp: as_u64_sat_def max_def nat_le_iff min_def)
qed

text \<open>C13: with the band-plan check on, a signal may be keyed exactly when one range the plan allows holds all of it, from its
  lowest to its highest tone, and that range lies inside a single amateur band: a signal is never let past an edge by
  rounding, nor across the gap between two allowed ranges, and an invalid frequency never passes.\<close>

theorem keyed_signal_stays_in_one_range:
  assumes "edge_warnings plan"
  shows "tx_band_plan_mute_reason v w plan = None \<longleftrightarrow>
    (\<exists>rf b r. v = Finite rf \<and> from_frequency (nat \<lfloor>rf\<rfloor>) = Some b \<and> r \<in> set (band_plan_candidate_ranges (nat \<lfloor>rf\<rfloor>) plan) \<and>
       fst (frequency_range b) \<le> fst r \<and> snd r \<le> snd (frequency_range b) \<and>
       of_nat (fst r) \<le> rf \<and> rf + positive_part w \<le> of_nat (snd r))" (is "_ \<longleftrightarrow> ?inside")
proof (cases v)
  case (Finite rf)
  let ?l = "as_u64_sat \<lfloor>max rf 0\<rfloor>" and ?h = "as_u64_sat \<lceil>max rf 0 + positive_part w\<rceil>"
  have w: "0 \<le> positive_part w" by (simp add: positive_part_def split: float64.splits)
  have "tx_band_plan_mute_reason v w plan = None \<longleftrightarrow>
      (\<exists>r \<in> set (band_plan_candidate_ranges ?l plan). fst r \<le> ?l \<and> ?h \<le> snd r)"
    using assms Finite mute_reason_interval by (simp add: tx_interval_out_of_band_plan_def)
  also have "\<dots> \<longleftrightarrow> ?inside"
  proof
    assume "\<exists>r \<in> set (band_plan_candidate_ranges ?l plan). fst r \<le> ?l \<and> ?h \<le> snd r"
    then obtain r where r: "r \<in> set (band_plan_candidate_ranges ?l plan)" "fst r \<le> ?l" "?h \<le> snd r" by blast
    from candidate_within_band [OF r(1)] obtain b where b: "from_frequency ?l = Some b"
      "fst (frequency_range b) \<le> fst r" "snd r \<le> snd (frequency_range b)" by blast
    have "?l \<le> snd (frequency_range b)"
      using b(1) unfolding from_frequency_iff contains_frequency_def in_range_def by blast
    moreover have "0 < fst r" "snd r \<le> 450000000" using b(2,3) band_top [OF b(1)] band_bottom [OF b(1)] by linarith+
    ultimately have l: "?l = nat \<lfloor>rf\<rfloor>" "0 < rf"
      using saturated_edges(1) [of "snd (frequency_range b)" "fst r" rf] band_top [OF b(1)] r(2) by blast+
    then have "of_nat (fst r) \<le> rf" using r(2) low_edge [of rf "fst r"] by simp
    moreover have "rf + positive_part w \<le> of_nat (snd r)"
      using r(3) l(2) w \<open>snd r \<le> 450000000\<close> high_edge [of "rf + positive_part w" "snd r"]
      by (simp add: as_u64_sat_le max_def)
    ultimately show ?inside using Finite r(1) b l(1) by metis
  next
    assume ?inside
    then obtain b r where r: "from_frequency (nat \<lfloor>rf\<rfloor>) = Some b" "r \<in> set (band_plan_candidate_ranges (nat \<lfloor>rf\<rfloor>) plan)"
      "fst (frequency_range b) \<le> fst r" "snd r \<le> snd (frequency_range b)"
      "of_nat (fst r) \<le> rf" "rf + positive_part w \<le> of_nat (snd r)" using Finite by auto
    have "0 < fst r" "snd r \<le> 450000000" using r(3,4) band_top [OF r(1)] band_bottom [OF r(1)] by auto
    then have rf: "0 < rf" using r(5) by (metis of_nat_0_less_iff order_less_le_trans)
    have "rf \<le> of_nat (snd r)" using r(6) w by linarith
    then have l: "?l = nat \<lfloor>rf\<rfloor>"
      using saturated_edges(2) [of "snd r" "fst r" rf] rf \<open>0 < fst r\<close> \<open>snd r \<le> 450000000\<close> by simp
    have "fst r \<le> ?l" using l r(5) rf low_edge [of rf "fst r"] by simp
    moreover have "?h \<le> snd r"
      using r(6) rf w \<open>snd r \<le> 450000000\<close> high_edge [of "rf + positive_part w" "snd r"] by (simp add: as_u64_sat_le max_def)
    ultimately show "\<exists>r \<in> set (band_plan_candidate_ranges ?l plan). fst r \<le> ?l \<and> ?h \<le> snd r" using r(2) l by metis
  qed
  finally show ?thesis .
qed (simp_all add: tx_band_plan_mute_reason_def)

definition split_20m_plan :: band_plan_config where
  "split_20m_plan = \<lparr> plan_region = 2, custom_bands = [''20m'' \<mapsto> [(14000000, 14099000), (14101000, 14350000)]],
     edge_warnings = True \<rparr>"

theorem keyed_signal_stays_in_one_range_witness:
  "tx_band_plan_mute_reason (Finite 14098980) (Finite 43) split_20m_plan \<noteq> None \<and>
   tx_band_plan_mute_reason (Finite 14075500) (Finite 43) split_20m_plan = None"
proof -
  have e: "edge_warnings split_20m_plan" by (simp add: split_20m_plan_def)
  have f: "from_frequency 14098980 = Some Band20m" "from_frequency 14075500 = Some Band20m"
    by (simp_all add: from_frequency_iff all_bands_def contains_frequency_def in_range_def)
  then have c: "band_plan_candidate_ranges 14098980 split_20m_plan = [(14000000, 14099000), (14101000, 14350000)]"
    "band_plan_candidate_ranges 14075500 split_20m_plan = [(14000000, 14099000), (14101000, 14350000)]"
    by (simp_all add: band_plan_candidate_ranges_def split_20m_plan_def)
  have "tx_band_plan_mute_reason (Finite 14075500) (Finite 43) split_20m_plan = None"
    unfolding keyed_signal_stays_in_one_range [OF e]
    by (rule exI [of _ 14075500], rule exI [of _ Band20m], rule exI [of _ "(14000000, 14099000)"])
       (simp add: f c positive_part_def)
  then show ?thesis
    using keyed_signal_stays_in_one_range [OF e, of "Finite 14098980" "Finite 43"] f c by (auto simp: positive_part_def)
qed

text \<open>The names of the bands are read back, and different bands have different numbers.\<close>

lemma band_name_roundtrip: "b \<in> set all_bands \<Longrightarrow> band_from_str (band_display b) = Inr b"
  by (cases b) (simp_all add: all_bands_def band_from_str_def)

lemma band_ids_distinct: "a \<in> set all_bands \<Longrightarrow> b \<in> set all_bands \<Longrightarrow> band_to_id a = band_to_id b \<Longrightarrow> a = b"
  by (cases a; cases b) (simp_all add: all_bands_def)

lemma region_roundtrip: "region_from_u8 (region_to_u8 r) = Some r"
  by (cases r) (simp_all add: region_from_u8_def)

text \<open>Every band is of exactly one of the three frequency classes.\<close>

lemma band_class: "b \<in> set all_bands \<Longrightarrow> is_hf b \<and> \<not> is_vhf b \<and> \<not> is_uhf b \<or> \<not> is_hf b \<and> is_vhf b \<and> \<not> is_uhf b \<or>
    \<not> is_hf b \<and> \<not> is_vhf b \<and> is_uhf b"
  by (cases b) (simp_all add: all_bands_def is_hf_def is_vhf_def is_uhf_def)

text \<open>The calling frequencies lie inside their band in every region, with the whole audio passband above them.\<close>

lemma dial_within_region:
  assumes "dial_for b ft4 = Some f" and "d \<le> 3000"
  shows "in_range (frequency_range_for_region b r) (f + d) \<and> from_frequency (f + d) = Some b"
proof -
  have "in_range (frequency_range_for_region b r) (f + d)"
    using assms by (cases b; cases r; cases ft4) (simp_all add: dial_for_def in_range_def)
  moreover have "b \<in> set all_bands" using assms(1) by (cases b; cases ft4) (simp_all add: dial_for_def all_bands_def)
  ultimately show ?thesis using region_within_global [of b r]
    by (auto simp: from_frequency_iff contains_frequency_def in_range_def)
qed

text \<open>Between two known dial readings a change of band is a change of the amateur band; outside the bands it is a jump of at
  least 100 kHz. The relation is symmetric on known readings.\<close>

lemma is_band_change_known:
  "from_frequency a = Some x \<Longrightarrow> from_frequency b = Some y \<Longrightarrow> is_band_change a b \<longleftrightarrow> x \<noteq> y"
  using band_bottom [of a x] from_frequency_iff [of a x]
  by (auto simp: is_band_change_def contains_frequency_def in_range_def)

lemma is_band_change_sym: "a \<noteq> 0 \<Longrightarrow> b \<noteq> 0 \<Longrightarrow> is_band_change a b \<longleftrightarrow> is_band_change b a"
  by (auto simp: is_band_change_def abs_diff_def split: option.splits)

text \<open>A tuning step inside a band is never a change of band.\<close>

lemma no_band_change_within: "from_frequency a = from_frequency b \<Longrightarrow> from_frequency a \<noteq> None \<Longrightarrow> \<not> is_band_change a b"
  using is_band_change_known [of a _ b] by auto

end
