(* ===== verification/Receive_Gain.thy ===== *)
theory Receive_Gain
  imports Band
begin

text \<open>
  Receive gain and key-down (\<open>coordinator/receive_overload.rs\<close>): the radio's attenuator may only be changed while nothing
  is being keyed, and nothing may be keyed while it is being changed. \<open>GainSafety\<close> arbitrates with a few atomics and no
  lock. Its methods are given twice: as functions on the whole state, and as the atomic accesses they are made of, so
  that they can be interleaved. The policy that decides when to attenuate, and the transaction that does it, follow.
\<close>

section \<open>The shared state and its methods\<close>

text \<open>Times are milliseconds (\<open>i64\<close>). The counter of pending keys and the epoch are \<open>u64\<close> that count up from zero.\<close>

record gain_safety =
  gs_state :: u8
  gs_pending_on :: nat
  gs_epoch :: nat
  gs_last_activity_ms :: int
  gs_last_gain_ms :: int
  gs_ptt_seen_ms :: int
  gs_ptt_unverified_ms :: int

definition gain_default :: gain_safety where
  "gain_default = \<lparr> gs_state = 1, gs_pending_on = 0, gs_epoch = 0, gs_last_activity_ms = I64_MAX, gs_last_gain_ms = I64_MIN,
     gs_ptt_seen_ms = I64_MIN, gs_ptt_unverified_ms = I64_MIN \<rparr>"

text \<open>\<open>compare_exchange\<close> on the state: whether it succeeded, the value seen, and the new state.\<close>

definition compare_exchange :: "u8 \<Rightarrow> u8 \<Rightarrow> gain_safety \<Rightarrow> bool \<times> u8 \<times> gain_safety" where
  "compare_exchange a b g = (if gs_state g = a then (True, a, g \<lparr> gs_state := b \<rparr>) else (False, gs_state g, g))"

definition touch :: "int \<Rightarrow> gain_safety \<Rightarrow> gain_safety" where
  "touch now g = g \<lparr> gs_last_activity_ms := now, gs_ptt_seen_ms := now \<rparr>"

definition admit_ptt :: "int \<Rightarrow> gain_safety \<Rightarrow> bool \<times> gain_safety" where
  "admit_ptt now g =
     (let g = g \<lparr> gs_pending_on := gs_pending_on g + 1 \<rparr>;
          (ok, seen, g) = compare_exchange 0 1 g;
          admitted = (ok \<or> seen = 1)
      in if admitted then (True, touch now g) else (False, g \<lparr> gs_pending_on := gs_pending_on g - 1 \<rparr>))"

definition ptt_command_consumed :: "gain_safety \<Rightarrow> gain_safety" where
  "ptt_command_consumed g = g \<lparr> gs_pending_on := gs_pending_on g - 1 \<rparr>"

definition confirmed_off :: "int \<Rightarrow> gain_safety \<Rightarrow> gain_safety" where
  "confirmed_off now g =
     (let g = touch now g in if gs_pending_on g = 0 then (case compare_exchange 1 0 g of (_, _, g) \<Rightarrow> g) else g)"

definition reserve_from :: "u8 \<Rightarrow> gain_safety \<Rightarrow> bool \<times> gain_safety" where
  "reserve_from from' g =
     (if gs_pending_on g \<noteq> 0 then (False, g)
      else case compare_exchange from' 2 g of (ok, _, g) \<Rightarrow>
        if \<not> ok then (False, g)
        else if gs_pending_on g \<noteq> 0 then (False, case compare_exchange 2 from' g of (_, _, g) \<Rightarrow> g)
        else (True, g))"

definition reserve :: "gain_safety \<Rightarrow> bool \<times> gain_safety" where "reserve = reserve_from 0"
definition reserve_recovery :: "gain_safety \<Rightarrow> bool \<times> gain_safety" where "reserve_recovery = reserve_from 1"

definition end_recovery :: "int option \<Rightarrow> gain_safety \<Rightarrow> gain_safety" where
  "end_recovery confirmed_off_ms g =
     (let (nxt, g) = (case confirmed_off_ms of Some now \<Rightarrow> (0, touch now g) | None \<Rightarrow> (1, g))
      in case compare_exchange 2 nxt g of (_, _, g) \<Rightarrow> g)"

definition cancel_gain :: "gain_safety \<Rightarrow> gain_safety" where
  "cancel_gain g = (case compare_exchange 2 0 g of (_, _, g) \<Rightarrow> g)"

definition finish_gain :: "int \<Rightarrow> gain_safety \<Rightarrow> gain_safety" where
  "finish_gain now g =
     (let g = touch now (g \<lparr> gs_last_gain_ms := now \<rparr>); g = g \<lparr> gs_epoch := gs_epoch g + 1 \<rparr>
      in case compare_exchange 2 0 g of (_, _, g) \<Rightarrow> g)"

definition fail_gain :: "gain_safety \<Rightarrow> gain_safety" where
  "fail_gain g = g \<lparr> gs_state := 3, gs_epoch := gs_epoch g + 1 \<rparr>"

definition recover_gain :: "int \<Rightarrow> gain_safety \<Rightarrow> gain_safety" where
  "recover_gain now g =
     (let g = touch now (g \<lparr> gs_last_gain_ms := now \<rparr>); g = g \<lparr> gs_epoch := gs_epoch g + 1 \<rparr>
      in if gs_pending_on g = 0 then (case compare_exchange 3 0 g of (_, _, g) \<Rightarrow> g) else g)"

definition blocked :: "gain_safety \<Rightarrow> bool" where "blocked g \<longleftrightarrow> 2 \<le> gs_state g"
definition receiving :: "gain_safety \<Rightarrow> bool" where "receiving g \<longleftrightarrow> gs_state g = 0 \<and> gs_pending_on g = 0"
definition gain_reserved :: "gain_safety \<Rightarrow> bool" where "gain_reserved g \<longleftrightarrow> gs_state g = 2"

definition observed_ptt_on :: "int \<Rightarrow> gain_safety \<Rightarrow> gain_safety" where
  "observed_ptt_on now g =
     (case compare_exchange 0 1 g of (ok, seen, g) \<Rightarrow>
        if ok then touch now (g \<lparr> gs_epoch := gs_epoch g + 1 \<rparr>) else if seen = 1 then touch now g else g)"

definition PTT_OBSERVATION_GAP_MS :: int where "PTT_OBSERVATION_GAP_MS = 2000"

definition observed_ptt_off :: "int \<Rightarrow> gain_safety \<Rightarrow> gain_safety" where
  "observed_ptt_off now g =
     (let previous = gs_ptt_seen_ms g; g = g \<lparr> gs_ptt_seen_ms := now \<rparr>
      in if PTT_OBSERVATION_GAP_MS < i64_saturating_sub now previous
         then g \<lparr> gs_ptt_unverified_ms := max (gs_ptt_unverified_ms g) now \<rparr> else g)"

definition hardware_ptt_on :: "int \<Rightarrow> gain_safety \<Rightarrow> bool \<times> gain_safety" where
  "hardware_ptt_on now g =
     (case compare_exchange 0 1 g of (ok, seen, g) \<Rightarrow> if ok \<or> seen = 1 then (True, touch now g) else (False, g))"

datatype validity = Receive | KnownTx | Invalid

definition window_validity :: "int \<Rightarrow> int \<Rightarrow> gain_safety \<Rightarrow> validity" where
  "window_validity capture_start_ms now g =
     (let unobserved = (capture_start_ms \<le> gs_ptt_unverified_ms g \<or>
                        receiving g \<and> PTT_OBSERVATION_GAP_MS < i64_saturating_sub now (gs_ptt_seen_ms g))
      in if blocked g \<or> gs_last_activity_ms g = I64_MAX \<or> capture_start_ms \<le> gs_last_gain_ms g \<or> unobserved then Invalid
         else if \<not> receiving g \<or> capture_start_ms \<le> gs_last_activity_ms g then KnownTx
         else Receive)"

section \<open>Interleaving\<close>

text \<open>Where a thread is inside a method: after which of its atomic accesses. \<open>Holding\<close> and \<open>Recovering\<close> are a reservation
  and a recovery that were granted.\<close>

datatype gain_pc =
    Idle
  | Admit_Cas
  | Admit_Undo
  | Off_Cas
  | Reserve_Cas u8
  | Reserve_Check u8
  | Reserve_Undo u8
  | Holding
  | Recovering
  | Recover_Cas

datatype gain_move =
    Begin_Admit | Begin_Off | Begin_Reserve | Begin_Recovery | Begin_Recover | Consume | Hardware_On | Observe_On
  | Continue | Cancel | Finish | Fail | End_Recovery bool | Abort | Fail_Orphan

text \<open>The atomics that take part in the exclusion, the threads, and, as a ghost, how many key-down commands were admitted
  and not yet consumed by the rig's owner. The time stamps play no part in it.\<close>

record gain_system =
  gy_state :: u8
  gy_pending :: nat
  gy_outstanding :: nat
  gy_threads :: "gain_pc list"

fun owner_pc :: "gain_pc \<Rightarrow> bool" where
  "owner_pc (Reserve_Check _) \<longleftrightarrow> True"
| "owner_pc (Reserve_Undo _) \<longleftrightarrow> True"
| "owner_pc Holding \<longleftrightarrow> True"
| "owner_pc Recovering \<longleftrightarrow> True"
| "owner_pc _ \<longleftrightarrow> False"

text \<open>One atomic access of one thread. \<open>Consume\<close> is only for a command that was admitted, as the documentation of
  \<open>admit_ptt\<close> demands; \<open>Abort\<close> is the end of the owner's task, and a successor fails its reservation once it is gone.\<close>

fun idle_access :: "gain_move \<Rightarrow> gain_system \<Rightarrow> (gain_pc \<times> gain_system) option" where
  "idle_access Begin_Admit g = Some (Admit_Cas, g \<lparr> gy_pending := gy_pending g + 1 \<rparr>)"
| "idle_access Begin_Off g = Some (if gy_pending g = 0 then Off_Cas else Idle, g)"
| "idle_access Begin_Reserve g = Some (if gy_pending g = 0 then Reserve_Cas 0 else Idle, g)"
| "idle_access Begin_Recovery g = Some (if gy_pending g = 0 then Reserve_Cas 1 else Idle, g)"
| "idle_access Begin_Recover g = Some (if gy_pending g = 0 then Recover_Cas else Idle, g)"
| "idle_access Consume g =
     (if gy_outstanding g = 0 then None
      else Some (Idle, g \<lparr> gy_pending := gy_pending g - 1, gy_outstanding := gy_outstanding g - 1 \<rparr>))"
| "idle_access Hardware_On g = Some (Idle, if gy_state g = 0 then g \<lparr> gy_state := 1 \<rparr> else g)"
| "idle_access Observe_On g = Some (Idle, if gy_state g = 0 then g \<lparr> gy_state := 1 \<rparr> else g)"
| "idle_access Fail_Orphan g =
     (if gy_state g = 2 \<and> \<not> list_ex owner_pc (gy_threads g) then Some (Idle, g \<lparr> gy_state := 3 \<rparr>) else None)"
| "idle_access _ g = None"

text \<open>\<open>compare_exchange\<close> whose result is not looked at.\<close>

definition gain_cas :: "u8 \<Rightarrow> u8 \<Rightarrow> gain_system \<Rightarrow> gain_system" where
  "gain_cas a b g = (if gy_state g = a then g \<lparr> gy_state := b \<rparr> else g)"

fun continue_access :: "gain_pc \<Rightarrow> gain_system \<Rightarrow> (gain_pc \<times> gain_system) option" where
  "continue_access Admit_Cas g =
     (if gy_state g = 0 \<or> gy_state g = 1
      then Some (Idle, g \<lparr> gy_state := 1, gy_outstanding := gy_outstanding g + 1 \<rparr>) else Some (Admit_Undo, g))"
| "continue_access Admit_Undo g = Some (Idle, g \<lparr> gy_pending := gy_pending g - 1 \<rparr>)"
| "continue_access Off_Cas g = Some (Idle, gain_cas 1 0 g)"
| "continue_access (Reserve_Cas a) g =
     (if gy_state g = a then Some (Reserve_Check a, g \<lparr> gy_state := 2 \<rparr>) else Some (Idle, g))"
| "continue_access (Reserve_Check a) g =
     Some (if gy_pending g \<noteq> 0 then Reserve_Undo a else if a = 0 then Holding else Recovering, g)"
| "continue_access (Reserve_Undo a) g = Some (Idle, gain_cas 2 a g)"
| "continue_access Recover_Cas g = Some (Idle, gain_cas 3 0 g)"
| "continue_access _ g = None"

fun owner_access :: "gain_pc \<Rightarrow> gain_move \<Rightarrow> gain_system \<Rightarrow> (gain_pc \<times> gain_system) option" where
  "owner_access Holding Cancel g = Some (Idle, gain_cas 2 0 g)"
| "owner_access Holding Finish g = Some (Idle, gain_cas 2 0 g)"
| "owner_access Holding Fail g = Some (Idle, g \<lparr> gy_state := 3 \<rparr>)"
| "owner_access Recovering (End_Recovery off) g = Some (Idle, gain_cas 2 (if off then 0 else 1) g)"
| "owner_access _ _ g = None"

definition gain_access :: "gain_pc \<Rightarrow> gain_move \<Rightarrow> gain_system \<Rightarrow> (gain_pc \<times> gain_system) option" where
  "gain_access pc mv g =
     (if mv = Abort then (if owner_pc pc then Some (Idle, g) else None)
      else if mv = Continue then continue_access pc g
      else if pc = Idle then idle_access mv g
      else owner_access pc mv g)"

inductive gain_step :: "gain_system \<Rightarrow> gain_system \<Rightarrow> bool" where
  access: "i < length (gy_threads g) \<Longrightarrow> gain_access (gy_threads g ! i) mv g = Some (pc, g') \<Longrightarrow>
     gain_step g (g' \<lparr> gy_threads := (gy_threads g)[i := pc] \<rparr>)"

inductive_cases gain_stepE: "gain_step g g'"

definition gain_start :: "nat \<Rightarrow> gain_system" where
  "gain_start n = \<lparr> gy_state = 1, gy_pending = 0, gy_outstanding = 0, gy_threads = replicate n Idle \<rparr>"

inductive gain_reachable :: "nat \<Rightarrow> gain_system \<Rightarrow> bool" for n where
  start: "gain_reachable n (gain_start n)"
| step: "gain_reachable n g \<Longrightarrow> gain_step g g' \<Longrightarrow> gain_reachable n g'"

section \<open>Exclusion\<close>

text \<open>How many threads are at such a place.\<close>

definition count_pc :: "(gain_pc \<Rightarrow> bool) \<Rightarrow> gain_pc list \<Rightarrow> nat" where
  "count_pc P ts = length (filter P ts)"

lemma count_pc_update:
  "i < length ts \<Longrightarrow> count_pc P (ts[i := pc]) + of_bool (P (ts ! i)) = count_pc P ts + of_bool (P pc)"
proof (induction ts arbitrary: i)
  case (Cons t ts)
  then show ?case by (cases i) (auto simp: count_pc_def)
qed simp

lemma count_pc_pos: "i < length ts \<Longrightarrow> P (ts ! i) \<Longrightarrow> 0 < count_pc P ts"
  unfolding count_pc_def by (rule length_pos_if_in_set [of "ts ! i"]) simp

lemma count_pc_one:
  assumes "count_pc P ts \<le> 1" and "i < length ts" "P (ts ! i)" and "j < length ts" "P (ts ! j)"
  shows "i = j"
proof (rule ccontr)
  assume "i \<noteq> j"
  then have "{i, j} \<subseteq> {k. k < length ts \<and> P (ts ! k)}" "card {i, j} = 2" using assms by auto
  then have "2 \<le> card {k. k < length ts \<and> P (ts ! k)}" by (metis card_mono finite_Collect_conjI finite_Collect_less_nat)
  then show False using assms(1) by (simp add: count_pc_def length_filter_conv_card)
qed

fun admitting :: "gain_pc \<Rightarrow> bool" where
  "admitting Admit_Cas \<longleftrightarrow> True"
| "admitting Admit_Undo \<longleftrightarrow> True"
| "admitting _ \<longleftrightarrow> False"

fun granted :: "gain_pc \<Rightarrow> bool" where
  "granted Holding \<longleftrightarrow> True"
| "granted Recovering \<longleftrightarrow> True"
| "granted _ \<longleftrightarrow> False"

fun sound_pc :: "gain_pc \<Rightarrow> bool" where
  "sound_pc (Reserve_Cas a) \<longleftrightarrow> a = 0 \<or> a = 1"
| "sound_pc (Reserve_Check a) \<longleftrightarrow> a = 0 \<or> a = 1"
| "sound_pc (Reserve_Undo a) \<longleftrightarrow> a = 0 \<or> a = 1"
| "sound_pc _ \<longleftrightarrow> True"

lemma granted_owner: "granted pc \<Longrightarrow> owner_pc pc"
  by (cases pc) auto

definition gain_inv :: "gain_system \<Rightarrow> bool" where
  "gain_inv g \<longleftrightarrow>
     gy_pending g = gy_outstanding g + count_pc admitting (gy_threads g) \<and>
     count_pc owner_pc (gy_threads g) \<le> 1 \<and>
     (0 < count_pc owner_pc (gy_threads g) \<longrightarrow> gy_state g = 2) \<and>
     (0 < count_pc granted (gy_threads g) \<longrightarrow> gy_outstanding g = 0) \<and>
     list_all sound_pc (gy_threads g)"

text \<open>What one access may do to the shared cells, for a thread that goes from \<open>pc\<close> to \<open>pc'\<close>.\<close>

definition access_ok :: "gain_system \<Rightarrow> gain_pc \<Rightarrow> gain_pc \<Rightarrow> gain_system \<Rightarrow> bool" where
  "access_ok g pc pc' g' \<longleftrightarrow>
     gy_threads g' = gy_threads g \<and> sound_pc pc' \<and>
     gy_pending g' + gy_outstanding g + of_bool (admitting pc) = gy_pending g + gy_outstanding g' + of_bool (admitting pc') \<and>
     (\<not> owner_pc pc \<and> \<not> owner_pc pc' \<longrightarrow> gy_state g = 2 \<longrightarrow> gy_state g' = 2 \<or> count_pc owner_pc (gy_threads g) = 0) \<and>
     (\<not> owner_pc pc \<and> owner_pc pc' \<longrightarrow> gy_state g \<noteq> 2 \<and> gy_state g' = 2) \<and>
     (owner_pc pc' \<and> owner_pc pc \<longrightarrow> gy_state g' = gy_state g) \<and>
     (gy_outstanding g < gy_outstanding g' \<longrightarrow> gy_state g \<noteq> 2) \<and>
     (granted pc' \<longrightarrow> owner_pc pc \<and> gy_pending g = 0 \<and> gy_outstanding g' = gy_outstanding g) \<and>
     (owner_pc pc' \<longrightarrow> gy_outstanding g' = gy_outstanding g)"

lemma idle_access_ok:
  assumes "idle_access mv g = Some (pc', g')" and "gain_inv g"
  shows "access_ok g Idle pc' g'"
proof -
  have "gy_outstanding g \<le> gy_pending g" using assms(2) by (simp add: gain_inv_def)
  moreover have "list_ex owner_pc (gy_threads g) \<longleftrightarrow> 0 < count_pc owner_pc (gy_threads g)"
    by (auto simp: list_ex_iff count_pc_def filter_empty_conv)
  ultimately show ?thesis using assms(1)
    by (cases mv) (auto simp: access_ok_def split: if_splits)
qed

lemma continue_access_ok:
  assumes "continue_access pc g = Some (pc', g')" and "gain_inv g" and "sound_pc pc"
    and "i < length (gy_threads g)" "gy_threads g ! i = pc"
  shows "access_ok g pc pc' g'"
proof -
  have adm: "0 < gy_pending g" if "admitting pc"
    using that count_pc_pos [of i "gy_threads g" admitting] assms(2,4,5) by (simp add: gain_inv_def)
  show ?thesis using assms(1,3) adm
    by (cases pc) (auto simp: access_ok_def gain_cas_def split: if_splits)
qed

lemma owner_access_ok: "owner_access pc mv g = Some (pc', g') \<Longrightarrow> access_ok g pc pc' g'"
  by (cases pc; cases mv) (auto simp: access_ok_def gain_cas_def)

lemma gain_access_ok:
  assumes "gain_access (gy_threads g ! i) mv g = Some (pc', g')" and "gain_inv g" and "i < length (gy_threads g)"
  shows "access_ok g (gy_threads g ! i) pc' g'"
proof -
  have s: "sound_pc (gy_threads g ! i)" using assms(2,3) by (simp add: gain_inv_def list_all_length)
  consider "mv = Abort" "owner_pc (gy_threads g ! i)" "pc' = Idle" "g' = g"
    | "continue_access (gy_threads g ! i) g = Some (pc', g')"
    | "gy_threads g ! i = Idle" "idle_access mv g = Some (pc', g')"
    | "owner_access (gy_threads g ! i) mv g = Some (pc', g')"
    using assms(1) unfolding gain_access_def
    by (cases "mv = Abort"; cases "mv = Continue"; cases "gy_threads g ! i = Idle"; cases "owner_pc (gy_threads g ! i)") simp_all
  then show ?thesis
  proof cases
    case 1
    then show ?thesis by (cases "gy_threads g ! i") (simp_all add: access_ok_def)
  next
    case 2
    then show ?thesis by (rule continue_access_ok [OF _ assms(2) s assms(3) refl])
  next
    case 3
    then show ?thesis using idle_access_ok [OF _ assms(2)] by metis
  next
    case 4
    then show ?thesis by (rule owner_access_ok)
  qed
qed

lemma gain_inv_step: "gain_step g g' \<Longrightarrow> gain_inv g \<Longrightarrow> gain_inv g'"
proof (induction rule: gain_step.induct)
  case (access i g mv pc g')
  let ?ts = "gy_threads g"
  have ok: "access_ok g (?ts ! i) pc g'" by (rule gain_access_ok [OF access(2) access(3) access(1)])
  have cnt: "count_pc P (?ts[i := pc]) + of_bool (P (?ts ! i)) = count_pc P ?ts + of_bool (P pc)" for P
    by (rule count_pc_update [OF access(1)])
  have own: "owner_pc (?ts ! i) \<Longrightarrow> count_pc owner_pc ?ts = 1"
    using count_pc_pos [of i ?ts owner_pc] access(1,3) by (auto simp: gain_inv_def)
  have grant: "granted (?ts ! i) \<Longrightarrow> 0 < count_pc granted ?ts" using count_pc_pos [of i ?ts granted] access(1) by blast
  have inv: "gy_pending g = gy_outstanding g + count_pc admitting ?ts" "count_pc owner_pc ?ts \<le> 1"
    "0 < count_pc owner_pc ?ts \<Longrightarrow> gy_state g = 2" "0 < count_pc granted ?ts \<Longrightarrow> gy_outstanding g = 0" "list_all sound_pc ?ts"
    using access(3) by (simp_all add: gain_inv_def)
  have a: "gy_pending g' = gy_outstanding g' + count_pc admitting (?ts[i := pc])"
    using ok inv(1) cnt [of admitting] unfolding access_ok_def by linarith
  have b: "count_pc owner_pc (?ts[i := pc]) \<le> 1 \<and> (0 < count_pc owner_pc (?ts[i := pc]) \<longrightarrow> gy_state g' = 2)"
  proof (cases "owner_pc pc")
    case True
    then show ?thesis using ok inv(2,3) own cnt [of owner_pc] unfolding access_ok_def by (cases "owner_pc (?ts ! i)") auto
  next
    case False
    then show ?thesis using ok inv(2,3) own cnt [of owner_pc] unfolding access_ok_def by (cases "owner_pc (?ts ! i)") auto
  qed
  have c: "0 < count_pc granted (?ts[i := pc]) \<longrightarrow> gy_outstanding g' = 0"
  proof
    assume pos: "0 < count_pc granted (?ts[i := pc])"
    show "gy_outstanding g' = 0"
    proof (cases "granted pc")
      case True
      then show ?thesis using ok inv(1) unfolding access_ok_def by auto
    next
      case False
      then have old: "0 < count_pc granted ?ts" using pos cnt [of granted] by simp
      then have "0 < count_pc owner_pc ?ts" using granted_owner
        unfolding count_pc_def by (metis (no_types, lifting) filter_empty_conv length_greater_0_conv)
      then show ?thesis using ok inv(3,4) old unfolding access_ok_def by force
    qed
  qed
  have "list_all sound_pc (?ts[i := pc])" using inv(5) ok access(1)
    by (auto simp: access_ok_def list_all_iff dest: set_update_subset_insert [THEN subsetD])
  then show ?case using a b c by (simp add: gain_inv_def)
qed

lemma gain_inv_reachable: "gain_reachable n g \<Longrightarrow> gain_inv g"
proof (induction rule: gain_reachable.induct)
  case start
  then show ?case by (simp add: gain_inv_def gain_start_def count_pc_def list_all_iff)
qed (rule gain_inv_step)

text \<open>Schedules: which thread makes which access next.\<close>

fun gain_run :: "gain_system \<Rightarrow> (nat \<times> gain_move) list \<Rightarrow> gain_system option" where
  "gain_run g [] = Some g"
| "gain_run g ((i, mv) # sched) =
     (if length (gy_threads g) \<le> i then None
      else case gain_access (gy_threads g ! i) mv g of
             None \<Rightarrow> None
           | Some (pc, g') \<Rightarrow> gain_run (g' \<lparr> gy_threads := (gy_threads g)[i := pc] \<rparr>) sched)"

lemma gain_run_reachable: "gain_run g sched = Some g' \<Longrightarrow> gain_reachable n g \<Longrightarrow> gain_reachable n g'"
proof (induction g sched rule: gain_run.induct)
  case (2 g i mv sched)
  then obtain pc g1 where a: "i < length (gy_threads g)" "gain_access (gy_threads g ! i) mv g = Some (pc, g1)"
    "gain_run (g1 \<lparr> gy_threads := (gy_threads g)[i := pc] \<rparr>) sched = Some g'"
    by (auto split: if_splits option.splits)
  then show ?case using 2(1) [of "(pc, g1)" pc g1] gain_reachable.step [OF 2(3) gain_step.access [OF a(1,2)]] by simp
qed simp

text \<open>C7: however the threads' atomic accesses interleave, while one of them holds the gain reservation (or the recovery of an
  unknown radio state) it is the only one, no admitted key-down command is waiting for the radio, an attempt to
  admit one that is already under way will be refused, and so is a key-down at the radio itself.\<close>

theorem reservation_excludes_key_down:
  assumes "gain_reachable n g" and "i < length (gy_threads g)" and "gy_threads g ! i = Holding \<or> gy_threads g ! i = Recovering"
  shows "gy_state g = 2 \<and> gy_outstanding g = 0 \<and>
    (\<forall>j < length (gy_threads g). owner_pc (gy_threads g ! j) \<longrightarrow> j = i) \<and>
    continue_access Admit_Cas g = Some (Admit_Undo, g) \<and> idle_access Hardware_On g = Some (Idle, g)"
proof -
  have own: "owner_pc (gy_threads g ! i)" "granted (gy_threads g ! i)" using assms(3) by auto
  have inv: "gain_inv g" by (rule gain_inv_reachable [OF assms(1)])
  have "gy_state g = 2" "gy_outstanding g = 0"
    using inv count_pc_pos [OF assms(2), of owner_pc] count_pc_pos [OF assms(2), of granted] own by (auto simp: gain_inv_def)
  moreover have "\<forall>j < length (gy_threads g). owner_pc (gy_threads g ! j) \<longrightarrow> j = i"
    using inv own(1) assms(2) count_pc_one [of owner_pc "gy_threads g"] by (auto simp: gain_inv_def)
  ultimately show ?thesis by simp
qed

text \<open>Thread 0 reserves while thread 1 has already counted a key-down.\<close>

definition contended :: "(nat \<times> gain_move) list" where
  "contended = [(0, Begin_Off), (0, Continue), (0, Begin_Reserve), (0, Continue), (0, Continue), (1, Begin_Admit)]"

definition contended_state :: gain_system where
  "contended_state = \<lparr> gy_state = 2, gy_pending = 1, gy_outstanding = 0, gy_threads = [Holding, Admit_Cas] \<rparr>"

lemma contended_run: "gain_run (gain_start 2) contended = Some contended_state"
  by (simp add: contended_def gain_start_def numeral_2_eq_2 gain_access_def gain_cas_def contended_state_def)

theorem reservation_excludes_key_down_witness:
  "gy_outstanding contended_state = 0 \<and> continue_access Admit_Cas contended_state = Some (Admit_Undo, contended_state)"
proof -
  have "gain_reachable 2 contended_state" by (rule gain_run_reachable [OF contended_run gain_reachable.start])
  from reservation_excludes_key_down [OF this, of 0] show ?thesis by (simp add: contended_state_def)
qed

text \<open>When no method is in progress, the counter is the number of admitted commands that wait.\<close>

lemma quiescent_count:
  assumes "gain_reachable n g" and "list_all (\<lambda>pc. pc = Idle) (gy_threads g)"
  shows "gy_pending g = gy_outstanding g"
proof -
  have "count_pc admitting (gy_threads g) = 0" using assms(2) by (auto simp: count_pc_def list_all_iff filter_empty_conv)
  then show ?thesis using gain_inv_reachable [OF assms(1)] by (simp add: gain_inv_def)
qed

text \<open>A method whose accesses are not interrupted does what the function does.\<close>

definition cells :: "gain_safety \<Rightarrow> gain_system \<Rightarrow> bool" where
  "cells g y \<longleftrightarrow> gs_state g = gy_state y \<and> gs_pending_on g = gy_pending y"

lemma admit_uninterrupted:
  assumes "cells g (y \<lparr> gy_threads := [Idle] \<rparr>)"
  shows "\<exists>sched y'. gain_run (y \<lparr> gy_threads := [Idle] \<rparr>) ((0, Begin_Admit) # sched) = Some y' \<and> gy_threads y' = [Idle] \<and>
    cells (snd (admit_ptt now g)) y' \<and> gy_outstanding y' = gy_outstanding y + of_bool (fst (admit_ptt now g))"
proof (cases "gy_state y = 0 \<or> gy_state y = 1")
  case True
  then show ?thesis using assms
    by (intro exI [of _ "[(0, Continue)]"])
       (auto simp: gain_access_def admit_ptt_def compare_exchange_def touch_def cells_def Let_def)
next
  case False
  then show ?thesis using assms
    by (intro exI [of _ "[(0, Continue), (0, Continue)]"])
       (auto simp: gain_access_def admit_ptt_def compare_exchange_def touch_def cells_def Let_def)
qed

lemma reserve_uninterrupted:
  assumes "cells g (y \<lparr> gy_threads := [Idle] \<rparr>)"
  shows "\<exists>sched y'. gain_run (y \<lparr> gy_threads := [Idle] \<rparr>) ((0, Begin_Reserve) # sched) = Some y' \<and>
    gy_threads y' = [if fst (reserve g) then Holding else Idle] \<and> cells (snd (reserve g)) y'"
proof -
  consider "gy_pending y \<noteq> 0" | "gy_pending y = 0" "gy_state y \<noteq> 0" | "gy_pending y = 0" "gy_state y = 0" by blast
  then show ?thesis
  proof cases
    case 1
    then show ?thesis using assms
      by (intro exI [of _ "[]"]) (auto simp: gain_access_def reserve_def reserve_from_def cells_def)
  next
    case 2
    then show ?thesis using assms
      by (intro exI [of _ "[(0, Continue)]"])
         (auto simp: gain_access_def reserve_def reserve_from_def cells_def compare_exchange_def)
  next
    case 3
    then show ?thesis using assms
      by (intro exI [of _ "[(0, Continue), (0, Continue)]"])
         (auto simp: gain_access_def reserve_def reserve_from_def cells_def compare_exchange_def)
  qed
qed

lemma off_uninterrupted:
  assumes "cells g (y \<lparr> gy_threads := [Idle] \<rparr>)"
  shows "\<exists>sched y'. gain_run (y \<lparr> gy_threads := [Idle] \<rparr>) ((0, Begin_Off) # sched) = Some y' \<and> gy_threads y' = [Idle] \<and>
    cells (confirmed_off now g) y'"
proof (cases "gy_pending y = 0")
  case True
  then show ?thesis using assms
    by (intro exI [of _ "[(0, Continue)]"])
       (auto simp: gain_access_def gain_cas_def confirmed_off_def compare_exchange_def touch_def cells_def Let_def)
next
  case False
  then show ?thesis using assms
    by (intro exI [of _ "[]"]) (auto simp: gain_access_def confirmed_off_def touch_def cells_def Let_def)
qed

text \<open>A confirmed unkey whose two accesses are separated by a whole key-down re-establishes receive although the radio was
  keyed after it: here thread 0 confirms, thread 1 admits a key-down, thread 2 (the radio's owner) takes it and keys, and then
  thread 0's exchange succeeds and thread 2 is granted a reservation.\<close>

lemma stale_unkey_confirmation:
  "map_option gy_threads (gain_run (gain_start 3)
     [(0, Begin_Off), (1, Begin_Admit), (1, Continue), (2, Consume), (2, Hardware_On), (0, Continue),
      (2, Begin_Reserve), (2, Continue), (2, Continue)]) = Some [Idle, Idle, Holding]"
  by (simp add: gain_start_def numeral_3_eq_3 gain_access_def gain_cas_def)

section \<open>Capture windows\<close>

datatype gain_event =
    Ev_Admit int | Ev_Consumed | Ev_Off int | Ev_Reserve | Ev_Reserve_Recovery | Ev_End_Recovery "int option" | Ev_Cancel
  | Ev_Finish int | Ev_Fail | Ev_Recover int | Ev_Seen_On int | Ev_Seen_Off int | Ev_Hardware_On int

fun gain_apply :: "gain_event \<Rightarrow> gain_safety \<Rightarrow> gain_safety" where
  "gain_apply (Ev_Admit t) g = snd (admit_ptt t g)"
| "gain_apply Ev_Consumed g = ptt_command_consumed g"
| "gain_apply (Ev_Off t) g = confirmed_off t g"
| "gain_apply Ev_Reserve g = snd (reserve g)"
| "gain_apply Ev_Reserve_Recovery g = snd (reserve_recovery g)"
| "gain_apply (Ev_End_Recovery t) g = end_recovery t g"
| "gain_apply Ev_Cancel g = cancel_gain g"
| "gain_apply (Ev_Finish t) g = finish_gain t g"
| "gain_apply Ev_Fail g = fail_gain g"
| "gain_apply (Ev_Recover t) g = recover_gain t g"
| "gain_apply (Ev_Seen_On t) g = observed_ptt_on t g"
| "gain_apply (Ev_Seen_Off t) g = observed_ptt_off t g"
| "gain_apply (Ev_Hardware_On t) g = snd (hardware_ptt_on t g)"

text \<open>The time of a key-down, an unkey or a change of gain that takes effect, and the time an event carries.\<close>

fun disturbs :: "gain_safety \<Rightarrow> gain_event \<Rightarrow> int option" where
  "disturbs g (Ev_Admit t) = (if fst (admit_ptt t g) then Some t else None)"
| "disturbs g (Ev_Off t) = Some t"
| "disturbs g (Ev_End_Recovery t) = t"
| "disturbs g (Ev_Finish t) = Some t"
| "disturbs g (Ev_Recover t) = Some t"
| "disturbs g (Ev_Seen_On t) = (if gs_state g = 0 \<or> gs_state g = 1 then Some t else None)"
| "disturbs g (Ev_Hardware_On t) = (if fst (hardware_ptt_on t g) then Some t else None)"
| "disturbs g _ = None"

fun event_time :: "gain_event \<Rightarrow> int option" where
  "event_time (Ev_Admit t) = Some t"
| "event_time (Ev_Off t) = Some t"
| "event_time (Ev_End_Recovery t) = t"
| "event_time (Ev_Finish t) = Some t"
| "event_time (Ev_Recover t) = Some t"
| "event_time (Ev_Seen_On t) = Some t"
| "event_time (Ev_Seen_Off t) = Some t"
| "event_time (Ev_Hardware_On t) = Some t"
| "event_time _ = None"

lemmas gain_defs = admit_ptt_def ptt_command_consumed_def confirmed_off_def reserve_def reserve_recovery_def reserve_from_def
  end_recovery_def cancel_gain_def finish_gain_def fail_gain_def recover_gain_def observed_ptt_on_def observed_ptt_off_def
  hardware_ptt_on_def compare_exchange_def touch_def

lemma activity_after:
  "gs_last_activity_ms (gain_apply e g) = (case disturbs g e of Some t \<Rightarrow> t | None \<Rightarrow> gs_last_activity_ms g)"
  by (cases e) (auto simp: gain_defs Let_def split: option.splits prod.splits if_splits)

lemma activity_kept:
  assumes "\<forall>e \<in> set es. \<forall>t. event_time e = Some t \<longrightarrow> \<tau> \<le> t" and "\<tau> \<le> gs_last_activity_ms g"
  shows "\<tau> \<le> gs_last_activity_ms (fold gain_apply es g)"
  using assms
proof (induction es arbitrary: g)
  case (Cons e es)
  have "disturbs g e = Some t \<Longrightarrow> event_time e = Some t" for t by (cases e) (auto split: if_splits)
  then have "\<tau> \<le> gs_last_activity_ms (gain_apply e g)" using Cons(2,3) by (auto simp: activity_after split: option.splits)
  then show ?case using Cons by simp
qed simp

text \<open>The times of the disturbances of a history, and of the moments at which the key was seen: those and the polls that found it
  up.\<close>

fun disturbances :: "gain_safety \<Rightarrow> gain_event list \<Rightarrow> int list" where
  "disturbances g [] = []"
| "disturbances g (e # es) = (case disturbs g e of Some t \<Rightarrow> [t] | None \<Rightarrow> []) @ disturbances (gain_apply e g) es"

definition sights :: "gain_safety \<Rightarrow> gain_event \<Rightarrow> int option" where
  "sights g e = (case e of Ev_Seen_Off t \<Rightarrow> Some t | _ \<Rightarrow> disturbs g e)"

fun sightings :: "gain_safety \<Rightarrow> gain_event list \<Rightarrow> int list" where
  "sightings g [] = []"
| "sightings g (e # es) = (case sights g e of Some t \<Rightarrow> [t] | None \<Rightarrow> []) @ sightings (gain_apply e g) es"

text \<open>No stretch of more than two seconds without a sighting reaches into the time from \<open>start\<close> to \<open>now\<close>.\<close>

fun observed_throughout :: "int \<Rightarrow> int \<Rightarrow> int list \<Rightarrow> bool" where
  "observed_throughout start now (s # t # r) = ((t < start \<or> t - s \<le> 2000) \<and> observed_throughout start now (t # r))"
| "observed_throughout start now [s] = (now - s \<le> 2000)"
| "observed_throughout start now [] = False"

definition in_order :: "gain_event list \<Rightarrow> bool" where
  "in_order es = sorted (List.map_filter event_time es)"

lemma seen_after: "gs_ptt_seen_ms (gain_apply e g) = (case sights g e of Some t \<Rightarrow> t | None \<Rightarrow> gs_ptt_seen_ms g)"
  by (cases e) (auto simp: sights_def gain_defs observed_ptt_off_def Let_def split: option.splits prod.splits if_splits)

lemma unverified_after:
  "gs_ptt_unverified_ms (gain_apply e g) =
     (case e of Ev_Seen_Off t \<Rightarrow> if PTT_OBSERVATION_GAP_MS < i64_saturating_sub t (gs_ptt_seen_ms g) then max (gs_ptt_unverified_ms g) t
        else gs_ptt_unverified_ms g | _ \<Rightarrow> gs_ptt_unverified_ms g)"
  by (cases e) (auto simp: gain_defs observed_ptt_off_def Let_def split: option.splits prod.splits if_splits)

lemma unverified_mono: "gs_ptt_unverified_ms g \<le> gs_ptt_unverified_ms (fold gain_apply es g)"
proof (induction es arbitrary: g)
  case (Cons e es)
  have "gs_ptt_unverified_ms g \<le> gs_ptt_unverified_ms (gain_apply e g)" unfolding unverified_after by (cases e) simp_all
  then show ?case using Cons [of "gain_apply e g"] by simp
qed simp

lemma within_gap: "\<not> PTT_OBSERVATION_GAP_MS < i64_saturating_sub t s \<Longrightarrow> t - s \<le> 2000"
  by (auto simp: PTT_OBSERVATION_GAP_MS_def i64_saturating_sub_def I64_MAX_def I64_MIN_def)

lemma in_map_filter: "e \<in> set es \<Longrightarrow> f e = Some y \<Longrightarrow> y \<in> set (List.map_filter f es)"
  by (force simp: List.map_filter_def)

lemma disturbances_before:
  assumes "in_order es" "\<tau> \<in> set (disturbances g es)"
  shows "\<tau> \<le> gs_last_activity_ms (fold gain_apply es g)"
  using assms
proof (induction es arbitrary: g)
  case (Cons e es)
  have time: "disturbs g e = Some t \<Longrightarrow> event_time e = Some t" for t by (cases e) (auto split: if_splits)
  have later: "in_order es" "event_time e = Some t \<Longrightarrow> \<forall>e' \<in> set es. \<forall>t'. event_time e' = Some t' \<longrightarrow> t \<le> t'" for t
    using Cons.prems(1) in_map_filter [of _ es event_time]
    by (cases "event_time e"; simp add: in_order_def map_filter_simps; blast)+
  show ?case
  proof (cases "disturbs g e = Some \<tau>")
    case True
    then have "\<tau> \<le> gs_last_activity_ms (gain_apply e g)" by (simp add: activity_after)
    then show ?thesis using activity_kept [OF later(2) [OF time [OF True]]] by simp
  next
    case False
    then have "\<tau> \<in> set (disturbances (gain_apply e g) es)" using Cons.prems(2) by (auto split: option.splits)
    then show ?thesis using Cons.IH later(1) by simp
  qed
qed simp

lemma observed_history:
  assumes "gs_ptt_unverified_ms (fold gain_apply es g) < start" "list_all (\<lambda>\<tau>. \<tau> < start) (disturbances g es)"
    and "now - gs_ptt_seen_ms (fold gain_apply es g) \<le> 2000"
  shows "observed_throughout start now (gs_ptt_seen_ms g # sightings g es)"
  using assms
proof (induction es arbitrary: g)
  case (Cons e es)
  let ?g = "gain_apply e g"
  have ih: "observed_throughout start now (gs_ptt_seen_ms ?g # sightings ?g es)" using Cons by simp
  show ?case
  proof (cases "sights g e")
    case None
    then show ?thesis using ih seen_after [of e g] by simp
  next
    case (Some t)
    have "t < start \<or> t - gs_ptt_seen_ms g \<le> 2000"
    proof (cases "e = Ev_Seen_Off t")
      case True
      then show ?thesis
        using Cons.prems(1) unverified_mono [of ?g es] unverified_after [of e g] within_gap [of t "gs_ptt_seen_ms g"]
        by (cases "PTT_OBSERVATION_GAP_MS < i64_saturating_sub t (gs_ptt_seen_ms g)") auto
    next
      case False
      then have "disturbs g e = Some t" using Some by (auto simp: sights_def split: gain_event.splits)
      then show ?thesis using Cons.prems(2) by simp
    qed
    then show ?thesis using ih seen_after [of e g] Some by simp
  qed
qed simp

text \<open>C26: a capture window is taken for received signal only if, over a whole history of events in the order of their times, every
  key-down, unkey and change of gain that took effect lies before its start; the key was watched throughout: no stretch of more than
  two seconds without a sighting of it reaches into the window, up to the moment of the judgement; and the radio is not keyed, nor a
  key-down waiting, nor the gain being changed or unconfirmed when it is judged.\<close>

theorem received_windows_are_clean:
  assumes "in_order es" and "window_validity capture_start now (fold gain_apply es g0) = Receive"
  shows "list_all (\<lambda>\<tau>. \<tau> < capture_start) (disturbances g0 es) \<and>
    observed_throughout capture_start now (gs_ptt_seen_ms g0 # sightings g0 es) \<and>
    gs_state (fold gain_apply es g0) = 0 \<and> gs_pending_on (fold gain_apply es g0) = 0"
proof -
  let ?g = "fold gain_apply es g0"
  have w: "gs_last_activity_ms ?g < capture_start" "receiving ?g" "gs_ptt_unverified_ms ?g < capture_start"
    "\<not> PTT_OBSERVATION_GAP_MS < i64_saturating_sub now (gs_ptt_seen_ms ?g)"
    using assms(2) by (auto simp: window_validity_def Let_def split: if_splits)
  have quiet: "list_all (\<lambda>\<tau>. \<tau> < capture_start) (disturbances g0 es)"
    using disturbances_before [OF assms(1), of _ g0] w(1) by (fastforce simp: list_all_iff)
  then show ?thesis using observed_history [OF w(3) quiet within_gap [OF w(4)]] w(2) by (simp add: receiving_def)
qed

theorem received_windows_are_clean_witness:
  "window_validity 1000 3000 (fold gain_apply [Ev_Off 500, Ev_Seen_Off 2400] gain_default) = Receive \<and>
   list_all (\<lambda>\<tau>. \<tau> < 1000) (disturbances gain_default [Ev_Off 500, Ev_Seen_Off 2400]) \<and>
   observed_throughout 1000 3000 (gs_ptt_seen_ms gain_default # sightings gain_default [Ev_Off 500, Ev_Seen_Off 2400])"
proof -
  have w: "window_validity 1000 3000 (fold gain_apply [Ev_Off 500, Ev_Seen_Off 2400] gain_default) = Receive"
    "in_order [Ev_Off 500, Ev_Seen_Off 2400]" by code_simp+
  then show ?thesis using received_windows_are_clean [OF w(2,1)] by blast
qed

section \<open>When to attenuate\<close>

record capture_identity =
  ci_dial_hz :: nat
  ci_connection_generation :: nat
  ci_gain_epoch :: nat
  ci_capture_epoch :: nat

record measurement =
  ms_slot :: int
  ms_identity :: capture_identity
  ms_peak_dbfs :: "float64 option"
  ms_validity :: validity

record pending_step =
  ps_identity :: capture_identity
  ps_source_slot :: int
  ps_peak_dbfs :: float64

record overload_policy =
  op_identity :: "capture_identity option"
  op_last_slot :: "int option"
  op_hot :: nat
  op_cool :: nat
  op_hot_peak :: float64
  op_pending :: "pending_step option"
  op_maximum_notified :: bool

definition policy_default :: overload_policy where
  "policy_default = \<lparr> op_identity = None, op_last_slot = None, op_hot = 0, op_cool = 0, op_hot_peak = Finite 0, op_pending = None,
     op_maximum_notified = False \<rparr>"

definition clear_episode :: "overload_policy \<Rightarrow> overload_policy" where
  "clear_episode p = p \<lparr> op_hot := 0, op_cool := 0, op_hot_peak := Neg_Infinity, op_pending := None, op_maximum_notified := False \<rparr>"

text \<open>Comparisons and \<open>max\<close> of peaks: a peak that is used is finite or negative infinity.\<close>

definition below :: "float64 \<Rightarrow> rat \<Rightarrow> bool" where
  "below v x \<longleftrightarrow> (case v of Finite y \<Rightarrow> y < x | Neg_Infinity \<Rightarrow> True | _ \<Rightarrow> False)"

definition at_least :: "float64 \<Rightarrow> rat \<Rightarrow> bool" where
  "at_least v x \<longleftrightarrow> (case v of Finite y \<Rightarrow> x \<le> y | Infinity \<Rightarrow> True | _ \<Rightarrow> False)"

definition f64_max :: "float64 \<Rightarrow> float64 \<Rightarrow> float64" where
  "f64_max a b = (case (a, b) of (Finite x, Finite y) \<Rightarrow> Finite (max x y) | (Neg_Infinity, b) \<Rightarrow> b | (NaN, b) \<Rightarrow> b
     | (Infinity, _) \<Rightarrow> Infinity | (a, Infinity) \<Rightarrow> Infinity | (a, _) \<Rightarrow> a)"

definition u8_saturating_inc :: "nat \<Rightarrow> nat" where "u8_saturating_inc n = min 255 (n + 1)"

definition usable_peak :: "float64 option \<Rightarrow> float64 option" where
  "usable_peak v = (case v of Some (Finite x) \<Rightarrow> Some (Finite x) | Some Neg_Infinity \<Rightarrow> Some Neg_Infinity | _ \<Rightarrow> None)"

text \<open>The streak counters, for a received window.\<close>

definition note_peak :: "measurement \<Rightarrow> float64 \<Rightarrow> overload_policy \<Rightarrow> overload_policy" where
  "note_peak ms peak p =
     (let p = (if below peak (- 6)
               then (let p = p \<lparr> op_cool := u8_saturating_inc (op_cool p) \<rparr> in if 3 \<le> op_cool p then clear_episode p else p)
               else p \<lparr> op_cool := 0 \<rparr>)
      in if at_least peak (- 1)
         then (let p = p \<lparr> op_hot_peak := (if op_hot p = 0 then peak else f64_max (op_hot_peak p) peak) \<rparr>;
                   p = p \<lparr> op_hot := u8_saturating_inc (op_hot p) \<rparr>
               in if 3 \<le> op_hot p \<and> op_pending p = None \<and> \<not> op_maximum_notified p
                  then p \<lparr> op_pending := Some \<lparr> ps_identity = ms_identity ms, ps_source_slot = ms_slot ms, ps_peak_dbfs = op_hot_peak p \<rparr> \<rparr>
                  else p)
         else p \<lparr> op_hot := 0, op_hot_peak := Neg_Infinity \<rparr>)"

definition note_window :: "measurement \<Rightarrow> overload_policy \<Rightarrow> overload_policy" where
  "note_window ms p =
     (let p = p \<lparr> op_last_slot := Some (ms_slot ms) \<rparr>
      in if ms_validity ms = KnownTx then p
         else case usable_peak (ms_peak_dbfs ms) of
                None \<Rightarrow> clear_episode p
              | Some peak \<Rightarrow> if ms_validity ms \<noteq> Receive then clear_episode p else note_peak ms peak p)"

definition policy_observe :: "measurement \<Rightarrow> overload_policy \<Rightarrow> overload_policy" where
  "policy_observe ms p =
     (if ci_dial_hz (ms_identity ms) = 0 then policy_default
      else
        let p = (if op_identity p \<noteq> Some (ms_identity ms) then policy_default \<lparr> op_identity := Some (ms_identity ms) \<rparr> else p)
        in case op_last_slot p of
             None \<Rightarrow> note_window ms p
           | Some last' \<Rightarrow>
               if ms_slot ms \<le> last' then p
               else if last' \<noteq> I64_MAX \<and> last' + 1 = ms_slot ms then note_window ms p
               else note_window ms (policy_default \<lparr> op_identity := Some (ms_identity ms) \<rparr>))"

definition policy_applied :: "overload_policy \<Rightarrow> overload_policy" where "policy_applied p = clear_episode p"

definition policy_at_maximum :: "overload_policy \<Rightarrow> bool \<times> overload_policy" where
  "policy_at_maximum p = (\<not> op_maximum_notified p, p \<lparr> op_pending := None, op_maximum_notified := True, op_hot := 0 \<rparr>)"

definition next_attenuator :: "int \<Rightarrow> int list \<Rightarrow> int option" where
  "next_attenuator current steps =
     (if current < 0 then None
      else case filter (\<lambda>s. 0 \<le> s \<and> current < s) steps of [] \<Rightarrow> None | s # ss \<Rightarrow> Some (fold min ss s))"

definition boundary_opportunity :: "int \<Rightarrow> int \<Rightarrow> (int \<times> int) option" where
  "boundary_opportunity now_ms lead_ms =
     (if lead_ms \<le> 250 then None
      else let shifted = now_ms + lead_ms in
        if \<not> in_i64 shifted then None
        else if 50 < shifted mod 15000 then None
        else let slot = shifted div 15000; deadline_ms = slot * 15000 - 250; budget_ms = deadline_ms - now_ms in
          if \<not> in_i64 (slot * 15000) \<or> \<not> in_i64 deadline_ms \<or> \<not> in_i64 budget_ms \<or> budget_ms \<le> 0 then None
          else Some (slot, budget_ms))"

text \<open>A streak of \<open>n\<close> hot received windows of one capture identity, in consecutive slots up to \<open>s\<close>, with known transmit
  windows in between not counted.\<close>

definition hot_window :: "measurement \<Rightarrow> bool" where
  "hot_window ms \<longleftrightarrow> ms_validity ms = Receive \<and> (\<exists>peak. usable_peak (ms_peak_dbfs ms) = Some peak \<and> at_least peak (- 1))"

inductive hot_streak :: "measurement set \<Rightarrow> capture_identity \<Rightarrow> int \<Rightarrow> nat \<Rightarrow> bool" for H c where
  one: "ms \<in> H \<Longrightarrow> ms_identity ms = c \<Longrightarrow> hot_window ms \<Longrightarrow> hot_streak H c (ms_slot ms) 1"
| more: "hot_streak H c s n \<Longrightarrow> ms \<in> H \<Longrightarrow> ms_identity ms = c \<Longrightarrow> ms_slot ms = s + 1 \<Longrightarrow> hot_window ms \<Longrightarrow>
     hot_streak H c (ms_slot ms) (Suc n)"
| tx: "hot_streak H c s n \<Longrightarrow> ms \<in> H \<Longrightarrow> ms_identity ms = c \<Longrightarrow> ms_slot ms = s + 1 \<Longrightarrow> ms_validity ms = KnownTx \<Longrightarrow>
     hot_streak H c (ms_slot ms) n"

lemma hot_streak_mono: "hot_streak H c s n \<Longrightarrow> H \<subseteq> H' \<Longrightarrow> hot_streak H' c s n"
  by (induction rule: hot_streak.induct) (blast intro: hot_streak.intros)+

definition streak_inv :: "measurement set \<Rightarrow> overload_policy \<Rightarrow> bool" where
  "streak_inv H p \<longleftrightarrow>
     (0 < op_hot p \<longrightarrow> (\<exists>c s n. op_identity p = Some c \<and> op_last_slot p = Some s \<and> op_hot p \<le> n \<and> hot_streak H c s n) \<and>
        at_least (op_hot_peak p) (- 1)) \<and>
     (op_last_slot p = None \<longrightarrow> op_pending p = None) \<and>
     (\<forall>st. op_pending p = Some st \<longrightarrow> op_identity p = Some (ps_identity st) \<and> ci_dial_hz (ps_identity st) \<noteq> 0 \<and>
        at_least (ps_peak_dbfs st) (- 1) \<and> (\<exists>n \<ge> 3. hot_streak H (ps_identity st) (ps_source_slot st) n))"

lemma streak_inv_mono: "streak_inv H p \<Longrightarrow> H \<subseteq> H' \<Longrightarrow> streak_inv H' p"
  unfolding streak_inv_def using hot_streak_mono by blast

lemma streak_inv_reset [simp]: "streak_inv H policy_default" "streak_inv H (policy_default \<lparr> op_identity := i \<rparr>)"
  by (simp_all add: streak_inv_def policy_default_def)

lemma streak_inv_clear: "streak_inv H (clear_episode p)"
  by (simp add: streak_inv_def clear_episode_def)

lemma at_least_max: "at_least a x \<Longrightarrow> at_least (f64_max a b) x"
  by (cases a; cases b) (auto simp: at_least_def f64_max_def)

text \<open>A window of the policy's own identity, in the slot after the last (or the first one).\<close>

lemma streak_note_window:
  assumes "streak_inv H p" and "ms \<in> H" and "op_identity p = Some (ms_identity ms)" and "ci_dial_hz (ms_identity ms) \<noteq> 0"
    and "op_last_slot p = None \<and> op_hot p = 0 \<and> op_pending p = None \<or> op_last_slot p = Some (ms_slot ms - 1)"
  shows "streak_inv H (note_window ms p)"
proof -
  let ?c = "ms_identity ms" and ?q = "p \<lparr> op_last_slot := Some (ms_slot ms) \<rparr>"
  have old: "\<exists>n \<ge> op_hot p. hot_streak H ?c (ms_slot ms - 1) n" "at_least (op_hot_peak p) (- 1)" if "0 < op_hot p"
    using that assms(1,3,5) by (auto simp: streak_inv_def)
  have pend: "op_pending p = Some st \<Longrightarrow> ?c = ps_identity st \<and> ci_dial_hz (ps_identity st) \<noteq> 0 \<and> at_least (ps_peak_dbfs st) (- 1) \<and>
      (\<exists>n \<ge> 3. hot_streak H (ps_identity st) (ps_source_slot st) n)" for st
    using assms(1,3) by (auto simp: streak_inv_def)
  consider "ms_validity ms = KnownTx" | "note_window ms p = clear_episode ?q"
    | peak where "ms_validity ms = Receive" "usable_peak (ms_peak_dbfs ms) = Some peak" "note_window ms p = note_peak ms peak ?q"
    by (cases "ms_validity ms"; cases "usable_peak (ms_peak_dbfs ms)") (auto simp: note_window_def)
  then show ?thesis
  proof cases
    case 1
    have "\<exists>n \<ge> op_hot p. hot_streak H ?c (ms_slot ms) n" if "0 < op_hot p"
      using old(1) [OF that] hot_streak.tx [OF _ assms(2) refl _ 1] by fastforce
    then show ?thesis using 1 old(2) pend assms(3) by (auto simp: note_window_def streak_inv_def)
  next
    case 2
    then show ?thesis using streak_inv_clear by simp
  next
    case (3 peak)
    define q where "q = (if below peak (- 6)
        then (let r = ?q \<lparr> op_cool := u8_saturating_inc (op_cool ?q) \<rparr> in if 3 \<le> op_cool r then clear_episode r else r)
        else ?q \<lparr> op_cool := 0 \<rparr>)"
    have q: "op_identity q = Some ?c" "op_last_slot q = Some (ms_slot ms)"
      using assms(3) by (simp_all add: q_def Let_def clear_episode_def)
    have qp: "op_pending q = None \<or> op_pending q = op_pending p" by (simp add: q_def Let_def clear_episode_def)
    have qh: "op_hot q = op_hot p \<and> op_hot_peak q = op_hot_peak p" if "at_least peak (- 1)"
    proof -
      have "\<not> below peak (- 6)" using that by (cases peak) (auto simp: at_least_def below_def)
      then show ?thesis by (simp add: q_def)
    qed
    show ?thesis
    proof (cases "at_least peak (- 1)")
      case True
      then have hot: "hot_window ms" using 3 by (auto simp: hot_window_def)
      define k where "k = u8_saturating_inc (op_hot p)"
      define hp where "hp = (if op_hot p = 0 then peak else f64_max (op_hot_peak p) peak)"
      have streak: "\<exists>n \<ge> k. hot_streak H ?c (ms_slot ms) n"
      proof (cases "op_hot p = 0")
        case True
        then show ?thesis using hot_streak.one [OF assms(2) refl hot] by (auto simp: k_def u8_saturating_inc_def)
      next
        case False
        then obtain n where n: "op_hot p \<le> n" "hot_streak H ?c (ms_slot ms - 1) n" using old(1) by auto
        from hot_streak.more [OF n(2) assms(2) refl _ hot] n(1) show ?thesis
          by (intro exI [of _ "Suc n"]) (auto simp: k_def u8_saturating_inc_def)
      qed
      have hp: "at_least hp (- 1)" using True old(2) at_least_max by (auto simp: hp_def)
      have eq: "note_window ms p = (let r = q \<lparr> op_hot_peak := hp, op_hot := k \<rparr>
          in if 3 \<le> k \<and> op_pending q = None \<and> \<not> op_maximum_notified q
             then r \<lparr> op_pending := Some \<lparr> ps_identity = ?c, ps_source_slot = ms_slot ms, ps_peak_dbfs = hp \<rparr> \<rparr> else r)"
        unfolding 3(3) note_peak_def q_def [symmetric] using True qh [OF True] by (simp add: Let_def k_def hp_def)
      have "\<exists>n \<ge> 3. hot_streak H ?c (ms_slot ms) n" if "3 \<le> k" using streak that le_trans by blast
      then show ?thesis unfolding eq using streak hp q qp pend assms(4) by (auto simp: streak_inv_def Let_def)
    next
      case False
      then have eq: "note_window ms p = q \<lparr> op_hot := 0, op_hot_peak := Neg_Infinity \<rparr>"
        unfolding 3(3) note_peak_def q_def [symmetric] by (simp add: Let_def)
      show ?thesis unfolding eq using q qp pend by (auto simp: streak_inv_def)
    qed
  qed
qed

lemma streak_observe:
  assumes "streak_inv H p"
  shows "streak_inv (insert ms H) (policy_observe ms p)"
proof -
  let ?H = "insert ms H" and ?fresh = "policy_default \<lparr> op_identity := Some (ms_identity ms) \<rparr>"
  have inv: "streak_inv ?H p" using assms by (rule streak_inv_mono) auto
  show ?thesis
  proof (cases "ci_dial_hz (ms_identity ms) = 0")
    case True
    then show ?thesis by (simp add: policy_observe_def)
  next
    case False
    have fresh: "streak_inv ?H (note_window ms ?fresh)"
      by (rule streak_note_window [OF streak_inv_reset(2)]) (use False in \<open>simp_all add: policy_default_def\<close>)
    show ?thesis
    proof (cases "op_identity p = Some (ms_identity ms)")
      case True
      show ?thesis
      proof (cases "op_last_slot p")
        case None
        then have "op_hot p = 0" "op_pending p = None" using inv by (auto simp: streak_inv_def)
        then have "streak_inv ?H (note_window ms p)" using None by (intro streak_note_window [OF inv _ True False]) auto
        then show ?thesis using None True False by (simp add: policy_observe_def)
      next
        case (Some l)
        have "streak_inv ?H (note_window ms p)" if "l + 1 = ms_slot ms"
          using that Some by (intro streak_note_window [OF inv _ True False]) auto
        then show ?thesis using False True Some inv fresh by (auto simp: policy_observe_def Let_def)
      qed
    next
      case diff: False
      then show ?thesis using False fresh by (simp add: policy_observe_def policy_default_def)
    qed
  qed
qed

datatype policy_event = Observed measurement | Applied | At_Maximum | Policy_Reset

fun policy_step :: "policy_event \<Rightarrow> overload_policy \<Rightarrow> overload_policy" where
  "policy_step (Observed ms) p = policy_observe ms p"
| "policy_step Applied p = policy_applied p"
| "policy_step At_Maximum p = snd (policy_at_maximum p)"
| "policy_step Policy_Reset p = policy_default"

definition observed :: "policy_event list \<Rightarrow> measurement set" where
  "observed es = {ms. Observed ms \<in> set es}"

lemma streak_step:
  assumes "streak_inv H p"
  shows "streak_inv (H \<union> observed [e]) (policy_step e p)"
proof (cases e)
  case (Observed ms)
  then show ?thesis using streak_observe [OF assms, of ms] by (simp add: observed_def)
next
  case At_Maximum
  then show ?thesis using streak_inv_mono [OF assms, of "H \<union> observed [e]"]
    by (auto simp: streak_inv_def policy_at_maximum_def)
qed (simp_all add: policy_applied_def streak_inv_clear)

lemma streak_run: "streak_inv H p \<Longrightarrow> streak_inv (H \<union> observed es) (fold policy_step es p)"
proof (induction es arbitrary: H p)
  case (Cons e es)
  have "H \<union> observed [e] \<union> observed es = H \<union> observed (e # es)" by (auto simp: observed_def)
  then show ?case using Cons(1) [OF streak_step [OF Cons(2), of e]] by simp
qed (simp add: observed_def)

text \<open>C33: in every history of the overload policy, an attenuator step is pending only on the evidence of at least three clipping
  windows, received in one capture (same dial, connection, gain and continuity) and in slots that follow each other with nothing but
  the station's own transmissions between them.\<close>

theorem attenuation_needs_a_streak:
  assumes "op_pending (fold policy_step es policy_default) = Some st"
  shows "\<exists>n \<ge> 3. hot_streak (observed es) (ps_identity st) (ps_source_slot st) n"
proof -
  have "streak_inv ({} \<union> observed es) (fold policy_step es policy_default)" by (rule streak_run) simp
  then show ?thesis using assms by (auto simp: streak_inv_def)
qed

definition hot_at :: "int \<Rightarrow> measurement" where
  "hot_at k = \<lparr> ms_slot = k, ms_identity = \<lparr> ci_dial_hz = 7, ci_connection_generation = 0, ci_gain_epoch = 0, ci_capture_epoch = 0 \<rparr>,
     ms_peak_dbfs = Some (Finite 0), ms_validity = Receive \<rparr>"

theorem attenuation_needs_a_streak_witness:
  "\<exists>n \<ge> 3. hot_streak (observed [Observed (hot_at 4), Observed (hot_at 5), Observed (hot_at 6)]) (ms_identity (hot_at 6)) 6 n"
proof -
  have "op_pending (fold policy_step [Observed (hot_at 4), Observed (hot_at 5), Observed (hot_at 6)] policy_default) =
      Some \<lparr> ps_identity = ms_identity (hot_at 6), ps_source_slot = 6, ps_peak_dbfs = Finite 0 \<rparr>" by code_simp
  from attenuation_needs_a_streak [OF this] show ?thesis by simp
qed

section \<open>The attenuation transaction\<close>

text \<open>What the radio and the caller answer during one transaction: each CAT reply is \<open>None\<close> for an error, and the deadline passes
  before step \<open>tr_deadline_step\<close> of the exchange, counting reads and writes.\<close>

datatype step_outcome = Increased int int | Maximum int | Deferred

record transaction =
  tr_expired :: bool
  tr_authorized :: bool
  tr_ptt_off :: "bool option"
  tr_attenuator :: "int option"
  tr_still_allowed :: bool
  tr_set_ok :: bool
  tr_readback :: "int option"
  tr_still_reserved :: bool
  tr_timed_out :: bool

text \<open>The exchange with the radio: an outcome, an error (\<open>None\<close>), whether the attenuator was written, and the shared state.\<close>

definition gain_exchange :: "transaction \<Rightarrow> int list \<Rightarrow> int \<Rightarrow> gain_safety \<Rightarrow> step_outcome option \<times> int option \<times> gain_safety" where
  "gain_exchange tr steps now g =
     (case tr_ptt_off tr of
        None \<Rightarrow> (None, None, g)
      | Some off \<Rightarrow>
          if \<not> off then (Some Deferred, None, snd (hardware_ptt_on now (cancel_gain g)))
          else case tr_attenuator tr of
            None \<Rightarrow> (None, None, g)
          | Some old \<Rightarrow>
              if old < 0 then (None, None, g)
              else if \<not> tr_still_allowed tr then (Some Deferred, None, g)
              else case next_attenuator old steps of
                None \<Rightarrow> (Some (Maximum old), None, g)
              | Some new \<Rightarrow>
                  if \<not> tr_set_ok tr then (None, Some new, g)
                  else case tr_readback tr of
                    None \<Rightarrow> (None, Some new, g)
                  | Some got \<Rightarrow>
                      if got \<noteq> new \<or> \<not> tr_still_reserved tr then (None, Some new, g)
                      else (Some (Increased old new), Some new, g))"

definition execute_step :: "transaction \<Rightarrow> int list \<Rightarrow> int \<Rightarrow> gain_safety \<Rightarrow> step_outcome option \<times> int option \<times> gain_safety" where
  "execute_step tr steps now g =
     (if \<not> gain_reserved g then (Some Deferred, None, g)
      else if tr_expired tr \<or> \<not> tr_authorized tr then (Some Deferred, None, cancel_gain g)
      else case gain_exchange tr steps now g of
        (outcome, written, g) \<Rightarrow>
          if tr_timed_out tr then (None, written, fail_gain g)
          else case outcome of
            None \<Rightarrow> (None, written, fail_gain g)
          | Some (Increased old new) \<Rightarrow> (Some (Increased old new), written, finish_gain now g)
          | Some other \<Rightarrow> (Some other, written, cancel_gain g))"

lemma next_attenuator_Some:
  "next_attenuator cur steps = Some new \<Longrightarrow> new \<in> set steps \<and> 0 \<le> cur \<and> cur < new \<and> (\<forall>s \<in> set steps. cur < s \<longrightarrow> new \<le> s)"
proof -
  assume n: "next_attenuator cur steps = Some new"
  then obtain s ss where f: "filter (\<lambda>s. 0 \<le> s \<and> cur < s) steps = s # ss" "new = fold min ss s" "0 \<le> cur"
    by (auto simp: next_attenuator_def split: if_splits list.splits)
  have m: "fold min xs x = Min (set (x # xs))" for xs and x :: int by (metis Min.set_eq_fold)
  have set: "set (s # ss) = {s \<in> set steps. 0 \<le> s \<and> cur < s}" using f(1) by (metis set_filter)
  have "new \<in> set (s # ss)" unfolding f(2) m by (rule Min_in) auto
  then have in_steps: "new \<in> {s \<in> set steps. 0 \<le> s \<and> cur < s}" unfolding set .
  have "new \<le> x" if "x \<in> {s \<in> set steps. 0 \<le> s \<and> cur < s}" for x
    using that unfolding set [symmetric] f(2) m by (intro Min_le) auto
  then have "\<forall>x \<in> set steps. cur < x \<longrightarrow> new \<le> x" using f(3) by simp
  then show ?thesis using in_steps f(3) by simp
qed

lemma exchange_written:
  assumes "gain_exchange tr steps now g = (out, Some new, g1)"
  shows "tr_still_allowed tr \<and> tr_ptt_off tr = Some True \<and> g1 = g \<and>
    (\<exists>old. tr_attenuator tr = Some old \<and> new \<in> set steps \<and> old < new \<and> (\<forall>s \<in> set steps. old < s \<longrightarrow> new \<le> s))"
  using assms by (auto simp: gain_exchange_def split: option.splits if_splits dest!: next_attenuator_Some)

lemma exchange_increased:
  assumes "gain_exchange tr steps now g = (Some (Increased old new), wr, g1)"
  shows "wr = Some new \<and> tr_readback tr = Some new \<and> g1 = g"
  using assms by (auto simp: gain_exchange_def split: option.splits if_splits)

lemma exchange_state:
  assumes "gain_exchange tr steps now g = (out, wr, g1)" and "gs_state g = 2"
  shows "gs_state g1 = 2 \<or> gs_state g1 = 1"
proof -
  have "g1 = g \<or> g1 = snd (hardware_ptt_on now (cancel_gain g))"
    using assms(1) by (auto simp: gain_exchange_def split: option.splits if_splits)
  moreover have "gs_state (snd (hardware_ptt_on now (cancel_gain g))) = 1"
    using assms(2) by (simp add: hardware_ptt_on_def cancel_gain_def compare_exchange_def touch_def)
  ultimately show ?thesis using assms(2) by auto
qed

lemma failed_state: "gs_state (fail_gain g) = 3 \<and> fst (admit_ptt t (fail_gain g)) = False \<and> fst (hardware_ptt_on t (fail_gain g)) = False"
  by (simp add: fail_gain_def admit_ptt_def hardware_ptt_on_def compare_exchange_def Let_def)

lemma released_state:
  "gs_state g = 2 \<or> gs_state g = 1 \<Longrightarrow> gs_state (cancel_gain g) \<noteq> 2"
  "gs_state g = 2 \<or> gs_state g = 1 \<Longrightarrow> gs_state (finish_gain now g) < 2"
  by (auto simp: cancel_gain_def finish_gain_def touch_def compare_exchange_def Let_def)

text \<open>C18: the attenuator is written only inside a live reservation, after the radio itself said it is not keyed and the authorisation was
  checked again, and to the next higher step the radio advertises; an increase is reported only when it was read back; and
  whatever happens the reservation is not left standing: the gain is finished, cancelled, or failed, and a failure keeps every
  key-down out.\<close>

theorem attenuation_is_transactional:
  assumes "execute_step tr steps now g = (outcome, written, g')" and "gain_reserved g"
  shows "(\<forall>new. written = Some new \<longrightarrow> tr_authorized tr \<and> tr_still_allowed tr \<and> tr_ptt_off tr = Some True \<and>
      (\<exists>old. tr_attenuator tr = Some old \<and> new \<in> set steps \<and> old < new \<and> (\<forall>s \<in> set steps. old < s \<longrightarrow> new \<le> s))) \<and>
    (\<forall>old new. outcome = Some (Increased old new) \<longrightarrow> written = Some new \<and> tr_readback tr = Some new \<and> \<not> blocked g') \<and>
    (outcome = None \<longrightarrow> gs_state g' = 3 \<and> fst (admit_ptt t g') = False \<and> fst (hardware_ptt_on t g') = False) \<and>
    \<not> gain_reserved g'"
proof -
  have g: "gs_state g = 2" using assms(2) by (simp add: gain_reserved_def)
  show ?thesis
  proof (cases "tr_expired tr \<or> \<not> tr_authorized tr")
    case True
    then show ?thesis using assms released_state(1) [of g] g by (auto simp: execute_step_def gain_reserved_def)
  next
    case False
    obtain out wr g1 where x: "gain_exchange tr steps now g = (out, wr, g1)" by (metis prod_cases3)
    have st: "gs_state g1 = 2 \<or> gs_state g1 = 1" by (rule exchange_state [OF x g])
    have w: "written = wr" using assms False x by (auto simp: execute_step_def split: if_splits option.splits step_outcome.splits)
    have "(outcome, g') = (None, fail_gain g1) \<or> (outcome = out \<and> (\<exists>a b. out = Some (Increased a b)) \<and> g' = finish_gain now g1) \<or>
        (outcome = out \<and> out \<noteq> None \<and> (\<forall>a b. out \<noteq> Some (Increased a b)) \<and> g' = cancel_gain g1)"
      using assms False x by (auto simp: execute_step_def split: if_splits option.splits step_outcome.splits)
    then consider "outcome = None" "g' = fail_gain g1"
      | old new where "out = Some (Increased old new)" "outcome = out" "g' = finish_gain now g1"
      | "outcome = out" "out \<noteq> None" "\<forall>a b. out \<noteq> Some (Increased a b)" "g' = cancel_gain g1" by auto
    then show ?thesis
    proof cases
      case 1
      then show ?thesis using w x False exchange_written [of tr steps now g out _ g1] failed_state [where t = t and g = g1]
        by (auto simp: gain_reserved_def)
    next
      case 2
      have "gs_state (finish_gain now g1) < 2" by (rule released_state(2) [OF st])
      then show ?thesis using 2 w x False exchange_written [of tr steps now g out _ g1] exchange_increased [of tr steps now g old new wr g1]
        by (auto simp: gain_reserved_def blocked_def)
    next
      case 3
      then show ?thesis using w x False exchange_written [of tr steps now g out _ g1] released_state(1) [OF st]
        by (auto simp: gain_reserved_def)
    qed
  qed
qed

definition quiet_transaction :: transaction where
  "quiet_transaction = \<lparr> tr_expired = False, tr_authorized = True, tr_ptt_off = Some True, tr_attenuator = Some 0,
     tr_still_allowed = True, tr_set_ok = True, tr_readback = Some 6, tr_still_reserved = True, tr_timed_out = False \<rparr>"

theorem attenuation_is_transactional_witness:
  "\<not> gain_reserved (snd (snd (execute_step quiet_transaction [18, 6, 12] 900 (gain_default \<lparr> gs_state := 2 \<rparr>))))"
proof -
  have r: "gain_reserved (gain_default \<lparr> gs_state := 2 \<rparr>)" by (simp add: gain_reserved_def)
  obtain o' w g' where x: "execute_step quiet_transaction [18, 6, 12] 900 (gain_default \<lparr> gs_state := 2 \<rparr>) = (o', w, g')"
    by (metis prod_cases3)
  have "w = Some 6" using x
    by (auto simp: execute_step_def gain_exchange_def quiet_transaction_def next_attenuator_def gain_reserved_def)
  then show ?thesis using attenuation_is_transactional [OF x r] x by (auto simp: quiet_transaction_def)
qed

end
