(* ===== verification/Swr_Guard.thy ===== *)
theory Swr_Guard
  imports Band Policy Machine
begin

text \<open>
  Protection against a high standing-wave ratio (\<open>coordinator/swr_guard.rs\<close>, \<open>coordinator/tx_halt.rs\<close>): the poll loop of the
  radio feeds the guard one observation per tick; valid readings that stay high for the configured time of
  transmission halt the station. Instants are nanoseconds of the monotonic clock, whose differences saturate at zero; a
  reading is an \<open>f32\<close>.
\<close>

section \<open>The guard\<close>

definition SWR_HIGH_STALE_AFTER :: nat where "SWR_HIGH_STALE_AFTER = 120 * 1000000000"
definition SWR_UNAVAILABLE_MIN_ATTEMPTS :: nat where "SWR_UNAVAILABLE_MIN_ATTEMPTS = 4"
definition DEFAULT_MAX_SWR :: rat where "DEFAULT_MAX_SWR = 3"
definition MAX_SWR_TRIP_DELAY_MS :: nat where "MAX_SWR_TRIP_DELAY_MS = 30000"

datatype swr_capability = Supported | Unsupported | Unknown_Capability
datatype swr_unavailable = NotReported | NoReadingWhileKeyed
datatype swr_action = No_Action | Trip rat rat | ReassertUnkey | ReportUnavailable swr_unavailable

definition valid_swr :: "float64 \<Rightarrow> bool" where
  "valid_swr reading \<longleftrightarrow> (case reading of Finite x \<Rightarrow> 1 \<le> x | _ \<Rightarrow> False)"

record power_protection =
  pp_swr_protection :: bool
  pp_max_swr :: float64
  pp_swr_trip_delay_ms :: nat

record swr_guard =
  sg_enabled :: bool
  sg_max_swr :: rat
  sg_warn_unavailable :: bool
  sg_capability_checked :: bool
  sg_keyed :: bool
  sg_tripped :: bool
  sg_trip_delay :: nat
  sg_high_keyed :: nat
  sg_last_high_keyed :: "nat option"
  sg_last_high_seen :: "nat option"
  sg_attempts :: nat
  sg_valid :: nat
  sg_unavailable_reported :: bool

definition guard_new :: "power_protection \<Rightarrow> bool \<Rightarrow> swr_guard" where
  "guard_new protection real_rig =
     (let max_swr = (case pp_max_swr protection of Finite x \<Rightarrow> if 1 < x then x else DEFAULT_MAX_SWR | _ \<Rightarrow> DEFAULT_MAX_SWR)
      in \<lparr> sg_enabled = pp_swr_protection protection, sg_max_swr = max_swr, sg_warn_unavailable = real_rig,
           sg_capability_checked = False, sg_keyed = False, sg_tripped = False,
           sg_trip_delay = min (pp_swr_trip_delay_ms protection) MAX_SWR_TRIP_DELAY_MS * 1000000,
           sg_high_keyed = 0, sg_last_high_keyed = None, sg_last_high_seen = None, sg_attempts = 0, sg_valid = 0,
           sg_unavailable_reported = False \<rparr>)"

definition needs_capability_probe :: "swr_guard \<Rightarrow> bool" where
  "needs_capability_probe g \<longleftrightarrow> sg_enabled g \<and> sg_warn_unavailable g \<and> \<not> sg_capability_checked g"

definition note_capability :: "swr_capability \<Rightarrow> swr_guard \<Rightarrow> swr_guard \<times> swr_action" where
  "note_capability cap g =
     (let g = g \<lparr> sg_capability_checked := True \<rparr>
      in if cap = Unsupported \<and> sg_enabled g \<and> sg_warn_unavailable g \<and> \<not> sg_unavailable_reported g
         then (g \<lparr> sg_unavailable_reported := True \<rparr>, ReportUnavailable NotReported)
         else (g, No_Action))"

definition u32_saturating_inc :: "nat \<Rightarrow> nat" where "u32_saturating_inc n = min (2 ^ 32 - 1) (n + 1)"

definition observe_unkeyed :: "swr_guard \<Rightarrow> swr_guard \<times> swr_action" where
  "observe_unkeyed g =
     (let (g, action) =
        (if sg_keyed g then
           (if 0 < sg_valid g then (g \<lparr> sg_unavailable_reported := False \<rparr>, No_Action)
            else if sg_enabled g \<and> sg_warn_unavailable g \<and> \<not> sg_tripped g \<and>
                 SWR_UNAVAILABLE_MIN_ATTEMPTS \<le> sg_attempts g \<and> \<not> sg_unavailable_reported g
            then (g \<lparr> sg_unavailable_reported := True \<rparr>, ReportUnavailable NoReadingWhileKeyed)
            else (g, No_Action))
         else (g, No_Action))
      in (g \<lparr> sg_keyed := False, sg_tripped := False, sg_last_high_keyed := None, sg_attempts := 0, sg_valid := 0 \<rparr>, action))"

definition observe_high :: "rat \<Rightarrow> nat \<Rightarrow> swr_guard \<Rightarrow> swr_guard \<times> swr_action" where
  "observe_high swr now g =
     (let g = (if (case sg_last_high_seen g of Some seen \<Rightarrow> SWR_HIGH_STALE_AFTER < now - seen | None \<Rightarrow> False)
               then g \<lparr> sg_high_keyed := 0 \<rparr> else g);
          g = (case sg_last_high_keyed g of Some prev \<Rightarrow> g \<lparr> sg_high_keyed := sg_high_keyed g + (now - prev) \<rparr> | None \<Rightarrow> g);
          g = g \<lparr> sg_last_high_keyed := Some now, sg_last_high_seen := Some now \<rparr>
      in if sg_trip_delay g \<le> sg_high_keyed g
         then (g \<lparr> sg_tripped := True, sg_high_keyed := 0 \<rparr>, Trip swr (sg_max_swr g))
         else (g, No_Action))"

definition observe_at :: "bool \<Rightarrow> rat option \<Rightarrow> nat \<Rightarrow> swr_guard \<Rightarrow> swr_guard \<times> swr_action" where
  "observe_at keyed reading now g =
     (if \<not> keyed then observe_unkeyed g
      else
        let g = g \<lparr> sg_keyed := True, sg_attempts := u32_saturating_inc (sg_attempts g) \<rparr>;
            g = (if reading \<noteq> None then g \<lparr> sg_valid := u32_saturating_inc (sg_valid g) \<rparr> else g)
        in if \<not> sg_enabled g then (g, No_Action)
           else if sg_tripped g then (g, ReassertUnkey)
           else case reading of
                  None \<Rightarrow> (g, No_Action)
                | Some swr \<Rightarrow>
                    if sg_max_swr g < swr then observe_high swr now g
                    else (g \<lparr> sg_high_keyed := 0, sg_last_high_keyed := None, sg_last_high_seen := None \<rparr>, No_Action))"

section \<open>Halting the station\<close>

record tx_halt_handles =
  abort_current_tx :: bool
  autonomous_enabled :: bool
  halt_tx_policy :: u8

definition halt :: "tx_halt_handles \<Rightarrow> tx_halt_handles" where
  "halt h = h \<lparr> abort_current_tx := True, autonomous_enabled := False, halt_tx_policy := policy_as_u8 Disabled \<rparr>"

text \<open>What the guard puts on the bus. Sending is best effort.\<close>

datatype swr_message = Ptt_Off | Cancel_Qsos | Policy_Status tx_policy | Trip_Alert rat rat | Swr_Response rat
  | Unavailable_Alert swr_unavailable

definition act :: "swr_action \<Rightarrow> tx_halt_handles \<Rightarrow> tx_halt_handles \<times> swr_message list" where
  "act action h =
     (case action of
        Trip swr max_swr \<Rightarrow> (halt h, [Ptt_Off, Cancel_Qsos, Policy_Status Disabled, Trip_Alert swr max_swr])
      | ReassertUnkey \<Rightarrow> (h \<lparr> abort_current_tx := True \<rparr>, [Ptt_Off])
      | ReportUnavailable kind \<Rightarrow> (h, [Unavailable_Alert kind])
      | No_Action \<Rightarrow> (h, []))"

text \<open>One tick of the poll loop: the meter is read only while keyed, and the radio's answer is \<open>None\<close> for an error.\<close>

definition swr_reading :: "bool \<Rightarrow> float64 option \<Rightarrow> rat option" where
  "swr_reading keyed answer =
     (if keyed then (case answer of Some (Finite x) \<Rightarrow> if valid_swr (Finite x) then Some x else None | _ \<Rightarrow> None) else None)"

definition swr_poll_step ::
    "bool \<Rightarrow> float64 option \<Rightarrow> nat \<Rightarrow> swr_guard \<times> tx_halt_handles \<Rightarrow> (swr_guard \<times> tx_halt_handles) \<times> swr_message list" where
  "swr_poll_step keyed answer now s =
     (let reading = swr_reading keyed answer;
          (g, action) = observe_at keyed reading now (fst s);
          (h, msgs) = act action (snd s)
      in ((g, h), (case reading of Some x \<Rightarrow> [Swr_Response x] | None \<Rightarrow> []) @ msgs))"

section \<open>Runs of the poll loop\<close>

text \<open>A tick: whether the station is keyed, the radio's answer, and the instant.\<close>

type_synonym swr_tick = "bool \<times> float64 option \<times> nat"

definition swr_step :: "swr_guard \<times> tx_halt_handles \<Rightarrow> swr_tick \<Rightarrow> (swr_guard \<times> tx_halt_handles) \<times> swr_message list" where
  "swr_step s t = (case t of (keyed, answer, now) \<Rightarrow> swr_poll_step keyed answer now s)"

fun reading_of :: "swr_tick \<Rightarrow> rat option" where
  "reading_of (keyed, answer, now) = swr_reading keyed answer"

text \<open>The time between successive high readings of the same transmission, summed over a stretch of ticks without a low
  reading; the latest high reading of the transmission in progress, and the latest of all; and whether no two
  successive high readings are too far apart.\<close>

fun high_time :: "nat option \<Rightarrow> swr_tick list \<Rightarrow> nat" where
  "high_time prev [] = 0"
| "high_time prev ((keyed, a, now) # ts) =
     (if \<not> keyed then high_time None ts
      else if reading_of (keyed, a, now) = None then high_time prev ts
      else (case prev of Some p \<Rightarrow> now - p | None \<Rightarrow> 0) + high_time (Some now) ts)"

fun last_keyed :: "nat option \<Rightarrow> swr_tick list \<Rightarrow> nat option" where
  "last_keyed prev [] = prev"
| "last_keyed prev ((keyed, a, now) # ts) =
     (if \<not> keyed then last_keyed None ts
      else if reading_of (keyed, a, now) = None then last_keyed prev ts else last_keyed (Some now) ts)"

fun last_seen :: "nat option \<Rightarrow> swr_tick list \<Rightarrow> nat option" where
  "last_seen prev [] = prev"
| "last_seen prev ((keyed, a, now) # ts) = last_seen (if reading_of (keyed, a, now) = None then prev else Some now) ts"

fun fresh :: "nat option \<Rightarrow> swr_tick list \<Rightarrow> bool" where
  "fresh prev [] \<longleftrightarrow> True"
| "fresh prev ((keyed, a, now) # ts) \<longleftrightarrow>
     (if reading_of (keyed, a, now) = None then fresh prev ts
      else (case prev of Some p \<Rightarrow> now - p \<le> SWR_HIGH_STALE_AFTER | None \<Rightarrow> True) \<and> fresh (Some now) ts)"

definition no_low :: "rat \<Rightarrow> swr_tick list \<Rightarrow> bool" where
  "no_low limit ts \<longleftrightarrow> (\<forall>t \<in> set ts. \<forall>x. reading_of t = Some x \<longrightarrow> limit < x)"

lemma stretch_append:
  "high_time p (ts @ us) = high_time p ts + high_time (last_keyed p ts) us"
  "last_keyed p (ts @ us) = last_keyed (last_keyed p ts) us"
  "last_seen p (ts @ us) = last_seen (last_seen p ts) us"
  "fresh p (ts @ us) \<longleftrightarrow> fresh p ts \<and> fresh (last_seen p ts) us"
proof -
  show "high_time p (ts @ us) = high_time p ts + high_time (last_keyed p ts) us" by (induction p ts rule: high_time.induct) auto
  show "last_keyed p (ts @ us) = last_keyed (last_keyed p ts) us" by (induction p ts rule: last_keyed.induct) auto
  show "last_seen p (ts @ us) = last_seen (last_seen p ts) us" by (induction p ts rule: last_seen.induct) auto
  show "fresh p (ts @ us) \<longleftrightarrow> fresh p ts \<and> fresh (last_seen p ts) us" by (induction p ts rule: fresh.induct) auto
qed

lemma unkeyed_reading [simp]: "swr_reading False a = None"
  by (simp add: swr_reading_def)

lemma act_messages: "Trip_Alert x y \<in> set (snd (act action h)) \<longleftrightarrow> action = Trip x y"
  by (cases action) (auto simp: act_def)

lemma swr_step_guard:
  "fst (fst (swr_step s (keyed, a, now))) = fst (observe_at keyed (swr_reading keyed a) now (fst s))"
  "snd (fst (swr_step s (keyed, a, now))) = fst (act (snd (observe_at keyed (swr_reading keyed a) now (fst s))) (snd s))"
  "Trip_Alert x y \<in> set (snd (swr_step s (keyed, a, now))) \<longleftrightarrow>
     snd (observe_at keyed (swr_reading keyed a) now (fst s)) = Trip x y"
  by (simp_all add: swr_step_def swr_poll_step_def Let_def case_prod_unfold act_messages split: option.splits)

lemma guard_constant:
  "sg_enabled (fst (observe_at k r n g)) = sg_enabled g" "sg_max_swr (fst (observe_at k r n g)) = sg_max_swr g"
  "sg_trip_delay (fst (observe_at k r n g)) = sg_trip_delay g"
  by (auto simp: observe_at_def observe_unkeyed_def observe_high_def Let_def split: option.splits prod.splits if_splits)

text \<open>The evidence the guard has gathered: a final stretch of the ticks.\<close>

definition evidence :: "swr_tick list \<Rightarrow> swr_guard \<Rightarrow> bool" where
  "evidence ticks g \<longleftrightarrow>
     (sg_enabled g \<longrightarrow>
       (if sg_tripped g then sg_high_keyed g = 0
        else \<exists>before ts. ticks = before @ ts \<and> no_low (sg_max_swr g) ts \<and> sg_high_keyed g \<le> high_time None ts \<and>
               sg_last_high_keyed g = last_keyed None ts))"

lemma evidence_empty: "sg_high_keyed g = 0 \<Longrightarrow> sg_last_high_keyed g = None \<Longrightarrow> evidence ticks g"
proof -
  assume "sg_high_keyed g = 0" "sg_last_high_keyed g = None"
  then have "\<exists>before ts. ticks = before @ ts \<and> no_low (sg_max_swr g) ts \<and> sg_high_keyed g \<le> high_time None ts \<and>
      sg_last_high_keyed g = last_keyed None ts" by (intro exI [of _ ticks] exI [of _ "[]"]) (simp add: no_low_def)
  then show ?thesis using \<open>sg_high_keyed g = 0\<close> by (simp add: evidence_def)
qed

lemma no_low_snoc: "no_low m (ts @ [t]) \<longleftrightarrow> no_low m ts \<and> (\<forall>x. reading_of t = Some x \<longrightarrow> m < x)"
  by (auto simp: no_low_def)

lemma unkeyed_fields:
  "sg_high_keyed (fst (observe_unkeyed g)) = sg_high_keyed g" "sg_last_high_keyed (fst (observe_unkeyed g)) = None"
  "sg_tripped (fst (observe_unkeyed g)) = False"
  by (auto simp: observe_unkeyed_def Let_def split: if_splits)

lemma high_fields:
  assumes "observe_high swr n g = (g', action)"
  shows "action \<noteq> No_Action \<longrightarrow> sg_tripped g' \<and> sg_high_keyed g' = 0"
    and "action = No_Action \<longrightarrow> sg_high_keyed g' \<le> sg_high_keyed g + (case sg_last_high_keyed g of Some p \<Rightarrow> n - p | None \<Rightarrow> 0) \<and>
       sg_last_high_keyed g' = Some n"
    and "action \<noteq> No_Action \<longrightarrow> action = Trip swr (sg_max_swr g) \<and>
       sg_trip_delay g \<le> sg_high_keyed g + (case sg_last_high_keyed g of Some p \<Rightarrow> n - p | None \<Rightarrow> 0)"
  using assms by (auto simp: observe_high_def Let_def split: if_splits option.splits)

text \<open>The bookkeeping of a keyed tick before the reading is looked at.\<close>

definition counted :: "rat option \<Rightarrow> swr_guard \<Rightarrow> swr_guard" where
  "counted r g = (let g = g \<lparr> sg_keyed := True, sg_attempts := u32_saturating_inc (sg_attempts g) \<rparr>
                  in if r \<noteq> None then g \<lparr> sg_valid := u32_saturating_inc (sg_valid g) \<rparr> else g)"

lemma counted_fields [simp]:
  "sg_high_keyed (counted r g) = sg_high_keyed g" "sg_last_high_keyed (counted r g) = sg_last_high_keyed g"
  "sg_last_high_seen (counted r g) = sg_last_high_seen g" "sg_tripped (counted r g) = sg_tripped g"
  "sg_enabled (counted r g) = sg_enabled g" "sg_max_swr (counted r g) = sg_max_swr g" "sg_trip_delay (counted r g) = sg_trip_delay g"
  by (simp_all add: counted_def Let_def)

lemma observe_keyed:
  "observe_at True r n g =
     (if \<not> sg_enabled g then (counted r g, No_Action)
      else if sg_tripped g then (counted r g, ReassertUnkey)
      else case r of
             None \<Rightarrow> (counted r g, No_Action)
           | Some swr \<Rightarrow> if sg_max_swr g < swr then observe_high swr n (counted r g)
               else (counted r g \<lparr> sg_high_keyed := 0, sg_last_high_keyed := None, sg_last_high_seen := None \<rparr>, No_Action))"
  by (cases r) (simp_all add: observe_at_def counted_def Let_def)

lemma observe_not_keyed: "observe_at False r n g = observe_unkeyed g"
  by (simp add: observe_at_def)

lemma evidenceI:
  "ticks = before @ ts \<Longrightarrow> no_low (sg_max_swr g) ts \<Longrightarrow> sg_high_keyed g \<le> high_time None ts \<Longrightarrow>
     sg_last_high_keyed g = last_keyed None ts \<Longrightarrow> \<not> sg_tripped g \<Longrightarrow> evidence ticks g"
  by (auto simp: evidence_def)

lemma evidence_step:
  assumes "evidence ticks g"
  shows "evidence (ticks @ [(k, a, n)]) (fst (observe_at k (swr_reading k a) n g))" (is "evidence ?ticks ?g")
proof -
  let ?r = "swr_reading k a"
  consider "\<not> sg_enabled g" | "sg_enabled g" "sg_tripped g" | "sg_enabled g" "\<not> sg_tripped g" by blast
  then show ?thesis
  proof cases
    case 1
    then show ?thesis by (simp add: evidence_def guard_constant)
  next
    case 2
    then have "sg_high_keyed g = 0" using assms by (simp add: evidence_def)
    then have "evidence ?ticks (fst (observe_unkeyed g))" by (simp add: evidence_empty unkeyed_fields)
    then show ?thesis using 2 \<open>sg_high_keyed g = 0\<close> by (cases k) (simp_all add: observe_keyed observe_not_keyed evidence_def)
  next
    case 3
    then obtain before ts where e: "ticks = before @ ts" "no_low (sg_max_swr g) ts" "sg_high_keyed g \<le> high_time None ts"
      "sg_last_high_keyed g = last_keyed None ts" using assms by (auto simp: evidence_def)
    have ticks: "?ticks = before @ (ts @ [(k, a, n)])" using e(1) by simp
    show ?thesis
    proof (cases "k \<and> (\<exists>x. ?r = Some x)")
      case False
      then have r: "?r = None" by (cases k) auto
      show ?thesis
      proof (cases k)
        case True
        then show ?thesis using 3 r e
          by (intro evidenceI [OF ticks]) (auto simp: observe_keyed no_low_snoc stretch_append)
      next
        case False
        then show ?thesis using 3 r e
          by (intro evidenceI [OF ticks])
             (simp_all add: observe_not_keyed unkeyed_fields no_low_snoc stretch_append
               guard_constant(2) [of False _ n g, unfolded observe_not_keyed])
      qed
    next
      case True
      then obtain x where x: "k" "?r = Some x" by blast
      show ?thesis
      proof (cases "sg_max_swr g < x")
        case False
        then show ?thesis using 3 x by (auto simp: observe_keyed intro: evidence_empty)
      next
        case high: True
        obtain g' act' where g': "observe_high x n (counted (Some x) g) = (g', act')" by fastforce
        then have "?g = g'" using 3 x high by (simp add: observe_keyed)
        moreover have "evidence ?ticks g'"
        proof (cases "act' = No_Action")
          case True
          have t: "\<not> sg_tripped g'" using g' 3 True by (auto simp: observe_high_def Let_def split: if_splits option.splits)
          have "sg_max_swr g' = sg_max_swr g" using guard_constant(2) [of True "Some x" n g] 3 high g' by (simp add: observe_keyed)
          then show ?thesis using high_fields(2) [OF g'] True e x high t
            by (intro evidenceI [OF ticks]) (auto simp: no_low_snoc stretch_append split: option.splits)
        next
          case False
          then show ?thesis using high_fields(1) [OF g'] by (simp add: evidence_def)
        qed
        ultimately show ?thesis by simp
      qed
    qed
  qed
qed

section \<open>When the guard trips, and that it does\<close>

lemma run_guard_constant:
  "sg_enabled (fst (fst (run swr_step s ts))) = sg_enabled (fst s)" "sg_max_swr (fst (fst (run swr_step s ts))) = sg_max_swr (fst s)"
  "sg_trip_delay (fst (fst (run swr_step s ts))) = sg_trip_delay (fst s)"
proof -
  have "sg_enabled (fst (fst (run swr_step s ts))) = sg_enabled (fst s) \<and>
      sg_max_swr (fst (fst (run swr_step s ts))) = sg_max_swr (fst s) \<and>
      sg_trip_delay (fst (fst (run swr_step s ts))) = sg_trip_delay (fst s)"
  proof (induction ts arbitrary: s)
    case (Cons t ts)
    then show ?case by (cases t) (simp add: fst_run_Cons swr_step_guard guard_constant del: run.simps)
  qed simp
  then show "sg_enabled (fst (fst (run swr_step s ts))) = sg_enabled (fst s)"
    "sg_max_swr (fst (fst (run swr_step s ts))) = sg_max_swr (fst s)"
    "sg_trip_delay (fst (fst (run swr_step s ts))) = sg_trip_delay (fst s)" by simp_all
qed

lemma run_evidence: "evidence ticks (fst s) \<Longrightarrow> evidence (ticks @ ts) (fst (fst (run swr_step s ts)))"
proof (induction ts rule: rev_induct)
  case (snoc t ts)
  obtain k a n where "t = (k, a, n)" by (cases t)
  then show ?case using evidence_step [OF snoc.IH [OF snoc.prems], of k a n]
    by (simp add: fst_run_snoc swr_step_guard del: run.simps)
qed simp

lemma trip_reading:
  assumes "snd (observe_at k r n g) = Trip x m"
  shows "k" "sg_enabled g" "\<not> sg_tripped g" "r = Some x" "m = sg_max_swr g" "sg_max_swr g < x"
    "sg_trip_delay g \<le> sg_high_keyed g + (case sg_last_high_keyed g of Some p \<Rightarrow> n - p | None \<Rightarrow> 0)"
proof -
  have nk: "snd (observe_unkeyed g) \<noteq> Trip x m" by (simp add: observe_unkeyed_def Let_def)
  then have k: "k" using assms by (cases k) (simp_all add: observe_not_keyed)
  then have *: "sg_enabled g \<and> \<not> sg_tripped g \<and> (\<exists>y. r = Some y \<and> sg_max_swr g < y \<and> snd (observe_high y n (counted r g)) = Trip x m)"
    using assms by (auto simp: observe_keyed split: option.splits if_splits)
  then obtain y where y: "r = Some y" "sg_max_swr g < y" "snd (observe_high y n (counted r g)) = Trip x m" by blast
  obtain g' where "observe_high y n (counted r g) = (g', Trip x m)" using y(3) by (metis prod.collapse)
  then have "x = y \<and> m = sg_max_swr g \<and> sg_trip_delay g \<le> sg_high_keyed g + (case sg_last_high_keyed g of Some p \<Rightarrow> n - p | None \<Rightarrow> 0)"
    using high_fields(3) by fastforce
  with * y k show "k" "sg_enabled g" "\<not> sg_tripped g" "r = Some x" "m = sg_max_swr g" "sg_max_swr g < x"
    "sg_trip_delay g \<le> sg_high_keyed g + (case sg_last_high_keyed g of Some p \<Rightarrow> n - p | None \<Rightarrow> 0)" by auto
qed

text \<open>C24: The SWR protection halts the station only on evidence. Whatever readings the radio gives, and
  whatever the keying, when a tick announces a trip then the protection is switched on, the reading of that tick is above the limit
  it names, and the ticks end in a stretch without any valid reading at or below the limit, in which the time between
  successive high readings of the same transmission adds up to at least the configured settling time.\<close>

theorem swr_trips_have_evidence:
  assumes "Trip_Alert x m \<in> set (snd (swr_step (fst (run swr_step (guard_new p real_rig, h) ts)) t))"
  shows "pp_swr_protection p \<and> reading_of t = Some x \<and> m < x \<and>
     (\<exists>before us. ts @ [t] = before @ us \<and> no_low m us \<and>
        min (pp_swr_trip_delay_ms p) MAX_SWR_TRIP_DELAY_MS * 1000000 \<le> high_time None us)"
proof -
  obtain k a n where t: "t = (k, a, n)" by (cases t)
  let ?g = "fst (fst (run swr_step (guard_new p real_rig, h) ts))"
  have "snd (observe_at k (swr_reading k a) n ?g) = Trip x m" using assms by (simp add: t swr_step_guard)
  note trip = trip_reading [OF this]
  have delay: "sg_trip_delay ?g = min (pp_swr_trip_delay_ms p) MAX_SWR_TRIP_DELAY_MS * 1000000"
    by (simp add: run_guard_constant guard_new_def Let_def)
  have "evidence ([] @ ts) ?g" by (rule run_evidence) (simp add: evidence_empty guard_new_def Let_def)
  then obtain before us where e: "ts = before @ us" "no_low (sg_max_swr ?g) us" "sg_high_keyed ?g \<le> high_time None us"
    "sg_last_high_keyed ?g = last_keyed None us" using trip by (auto simp: evidence_def)
  have "ts @ [t] = before @ (us @ [t])" using e(1) by simp
  moreover have "no_low m (us @ [t])" using e(2) trip by (simp add: no_low_snoc t)
  moreover have "sg_trip_delay ?g \<le> high_time None (us @ [t])"
    using trip(1,4,7) e(3,4) by (auto simp: t stretch_append split: option.splits)
  ultimately show ?thesis using trip delay by (auto simp: run_guard_constant guard_new_def Let_def t)
qed

lemma high_time_reading: "0 < high_time p ts \<Longrightarrow> \<exists>t \<in> set ts. reading_of t \<noteq> None"
  by (induction p ts rule: high_time.induct) (auto split: if_splits)

definition halted :: "tx_halt_handles \<Rightarrow> bool" where
  "halted h \<longleftrightarrow> abort_current_tx h \<and> \<not> autonomous_enabled h \<and> halt_tx_policy h = policy_as_u8 Disabled"

lemma act_halted: "halted h \<Longrightarrow> halted (fst (act action h))"
  by (auto simp: halted_def act_def halt_def split: swr_action.splits)

lemma run_halted: "halted (snd s) \<Longrightarrow> halted (snd (fst (run swr_step s ts)))"
proof (induction ts arbitrary: s)
  case (Cons t ts)
  then show ?case by (cases t) (simp add: fst_run_Cons swr_step_guard act_halted del: run.simps)
qed simp

lemma high_step:
  assumes "(case sg_last_high_seen g of Some p \<Rightarrow> n - p \<le> SWR_HIGH_STALE_AFTER | None \<Rightarrow> True)"
  defines "time \<equiv> sg_high_keyed g + (case sg_last_high_keyed g of Some p \<Rightarrow> n - p | None \<Rightarrow> 0)"
  shows "sg_trip_delay g \<le> time \<Longrightarrow> snd (observe_high x n g) = Trip x (sg_max_swr g)"
    and "time < sg_trip_delay g \<Longrightarrow> sg_high_keyed (fst (observe_high x n g)) = time \<and>
      sg_last_high_keyed (fst (observe_high x n g)) = Some n \<and> sg_last_high_seen (fst (observe_high x n g)) = Some n \<and>
      sg_tripped (fst (observe_high x n g)) = sg_tripped g"
  using assms by (auto simp: observe_high_def Let_def split: option.splits)

lemma snd_run_Cons: "snd (run step s (e # es)) = snd (step s e) @ snd (run step (fst (step s e)) es)"
  by (simp add: Let_def case_prod_unfold)

lemma unkeyed_seen: "sg_last_high_seen (fst (observe_unkeyed g)) = sg_last_high_seen g"
  by (auto simp: observe_unkeyed_def Let_def)

lemma sustained_high:
  assumes "sg_enabled (fst s)" "\<not> sg_tripped (fst s)" "no_low (sg_max_swr (fst s)) ts" "fresh (sg_last_high_seen (fst s)) ts"
    and "\<exists>t \<in> set ts. reading_of t \<noteq> None"
    and "sg_trip_delay (fst s) \<le> sg_high_keyed (fst s) + high_time (sg_last_high_keyed (fst s)) ts"
  shows "(\<exists>x. Trip_Alert x (sg_max_swr (fst s)) \<in> set (snd (run swr_step s ts))) \<and> halted (snd (fst (run swr_step s ts)))"
  using assms
proof (induction ts arbitrary: s)
  case (Cons t ts)
  obtain k a n where t: "t = (k, a, n)" by (cases t)
  let ?g = "fst s" let ?s = "fst (swr_step s t)"
  have onwards: "(\<exists>x. Trip_Alert x (sg_max_swr ?g) \<in> set (snd (run swr_step ?s ts))) \<and> halted (snd (fst (run swr_step ?s ts))) \<Longrightarrow> ?case"
    unfolding snd_run_Cons fst_run_Cons by auto
  have s: "fst ?s = fst (observe_at k (swr_reading k a) n ?g)" by (simp add: t swr_step_guard)
  have const: "sg_enabled (fst ?s) = sg_enabled ?g" "sg_max_swr (fst ?s) = sg_max_swr ?g" "sg_trip_delay (fst ?s) = sg_trip_delay ?g"
    by (simp_all add: s guard_constant)
  note next_step = onwards [OF Cons.IH [of ?s, unfolded const]]
  have rest: "no_low (sg_max_swr ?g) ts" using Cons.prems(3) by (simp add: no_low_def)
  show ?case
  proof (cases "swr_reading k a")
    case None
    then have "\<not> sg_tripped (fst ?s) \<and> sg_last_high_seen (fst ?s) = sg_last_high_seen ?g \<and> sg_high_keyed (fst ?s) = sg_high_keyed ?g \<and>
        sg_last_high_keyed (fst ?s) = (if k then sg_last_high_keyed ?g else None)"
      using Cons.prems(1,2) unfolding s
      by (cases k) (simp_all add: observe_keyed observe_not_keyed unkeyed_fields unkeyed_seen)
    then show ?thesis using Cons.prems None rest const by (intro next_step) (auto simp: t)
  next
    case (Some x)
    then have k: k by (cases k) auto
    have x: "sg_max_swr ?g < x" using Cons.prems(3) Some by (simp add: no_low_def t)
    have o: "observe_at k (swr_reading k a) n ?g = observe_high x n (counted (Some x) ?g)"
      using Cons.prems(1,2) x k Some by (simp add: observe_keyed)
    let ?time = "sg_high_keyed ?g + (case sg_last_high_keyed ?g of Some p \<Rightarrow> n - p | None \<Rightarrow> 0)"
    have f: "case sg_last_high_seen (counted (Some x) ?g) of Some p \<Rightarrow> n - p \<le> SWR_HIGH_STALE_AFTER | None \<Rightarrow> True"
      using Cons.prems(4) Some by (simp add: t)
    show ?thesis
    proof (cases "sg_trip_delay ?g \<le> ?time")
      case True
      then have "snd (observe_at k (swr_reading k a) n ?g) = Trip x (sg_max_swr ?g)" using high_step(1) [OF f, of x] o by simp
      then have "Trip_Alert x (sg_max_swr ?g) \<in> set (snd (swr_step s t))" "halted (snd ?s)"
        by (simp_all add: t swr_step_guard act_def halted_def halt_def)
      then show ?thesis using run_halted by (auto simp: snd_run_Cons fst_run_Cons simp del: run.simps)
    next
      case False
      then have g: "sg_high_keyed (fst ?s) = ?time" "sg_last_high_keyed (fst ?s) = Some n" "sg_last_high_seen (fst ?s) = Some n"
        "\<not> sg_tripped (fst ?s)" using high_step(2) [OF f, of x] Cons.prems(2) by (simp_all add: s o)
      have all: "sg_trip_delay ?g \<le> ?time + high_time (Some n) ts" using Cons.prems(6) k Some by (simp add: t)
      then have "\<exists>t \<in> set ts. reading_of t \<noteq> None" using False by (intro high_time_reading [of "Some n"]) simp
      then show ?thesis using Cons.prems(1,4) rest const g all Some by (intro next_step) (simp_all add: t)
    qed
  qed
qed simp

text \<open>C11: High SWR that lasts is always acted on. From any state in which the protection is on and has not yet tripped,
  feed the guard any ticks, over one or several transmissions: if no valid reading is at or below the limit, no two successive high
  readings are more than two minutes apart, at least one reading arrives, and the time between the high readings of each
  transmission, with what was counted before, adds up to the settling time, then a trip is announced and at the end the frame in flight is aborted,
  autonomous operation is off and the policy is \<open>Disabled\<close>.\<close>

theorem sustained_high_swr_halts:
  assumes "sg_enabled g" "\<not> sg_tripped g" "no_low (sg_max_swr g) ts" "fresh (sg_last_high_seen g) ts"
    and "\<exists>t \<in> set ts. reading_of t \<noteq> None"
    and "sg_trip_delay g \<le> sg_high_keyed g + high_time (sg_last_high_keyed g) ts"
  shows "(\<exists>x. Trip_Alert x (sg_max_swr g) \<in> set (snd (run swr_step (g, h) ts))) \<and>
     abort_current_tx (snd (fst (run swr_step (g, h) ts))) \<and> \<not> autonomous_enabled (snd (fst (run swr_step (g, h) ts))) \<and>
     policy_from_u8 (halt_tx_policy (snd (fst (run swr_step (g, h) ts)))) = Disabled"
  using sustained_high [of "(g, h)" ts] assms by (simp add: halted_def policy_from_u8_def)

definition demo_protection :: power_protection where
  "demo_protection = \<lparr> pp_swr_protection = True, pp_max_swr = Finite 3, pp_swr_trip_delay_ms = 1000 \<rparr>"

definition demo_ticks :: "swr_tick list" where
  "demo_ticks = [(True, Some (Finite 4), 1000000000), (True, Some (Finite 4), 1500000000), (False, None, 2000000000),
     (True, Some (Finite 4), 20000000000), (True, None, 20300000000)]"

definition demo_last_tick :: swr_tick where "demo_last_tick = (True, Some (Finite 5), 20600000000)"

definition demo_handles :: tx_halt_handles where
  "demo_handles = \<lparr> abort_current_tx = False, autonomous_enabled = True, halt_tx_policy = 0 \<rparr>"

lemmas swr_eval = demo_protection_def demo_ticks_def demo_last_tick_def swr_step_def swr_poll_step_def
  guard_new_def observe_at_def observe_high_def observe_unkeyed_def swr_reading_def valid_swr_def act_def Let_def
  u32_saturating_inc_def MAX_SWR_TRIP_DELAY_MS_def SWR_HIGH_STALE_AFTER_def

theorem swr_trips_have_evidence_witness:
  "\<exists>before us. demo_ticks @ [demo_last_tick] = before @ us \<and> no_low 3 us \<and>
     min (pp_swr_trip_delay_ms demo_protection) MAX_SWR_TRIP_DELAY_MS * 1000000 \<le> high_time None us"
proof -
  have "Trip_Alert 5 3 \<in> set (snd (swr_step (fst (run swr_step (guard_new demo_protection True, demo_handles) demo_ticks)) demo_last_tick))"
    by (simp add: swr_eval)
  from swr_trips_have_evidence [OF this] show ?thesis by blast
qed

theorem sustained_high_swr_halts_witness:
  "policy_from_u8 (halt_tx_policy (snd (fst (run swr_step (guard_new demo_protection True, demo_handles) (demo_ticks @ [demo_last_tick])))))
     = Disabled"
proof -
  let ?g = "guard_new demo_protection True" and ?ts = "demo_ticks @ [demo_last_tick]"
  have "sg_enabled ?g" "\<not> sg_tripped ?g" "no_low (sg_max_swr ?g) ?ts" "fresh (sg_last_high_seen ?g) ?ts"
    "\<exists>t \<in> set ?ts. reading_of t \<noteq> None" "sg_trip_delay ?g \<le> sg_high_keyed ?g + high_time (sg_last_high_keyed ?g) ?ts"
    by (auto simp: swr_eval no_low_def)
  from sustained_high_swr_halts [OF this, of demo_handles] show ?thesis by simp
qed

section \<open>The edges of the rule\<close>

text \<open>After a trip a station that is still keyed is unkeyed again at every tick, and with the protection off nothing is ever done.\<close>

lemma tripped_guard_reasserts:
  assumes "sg_enabled g" "sg_tripped g"
  shows "snd (observe_at True r n g) = ReassertUnkey"
  using assms by (simp add: observe_keyed)

lemma disabled_guard_never_acts:
  assumes "\<not> sg_enabled g"
  shows "snd (observe_at k r n g) = No_Action"
  using assms by (cases k) (simp_all add: observe_keyed observe_not_keyed observe_unkeyed_def Let_def)

text \<open>A gap of more than two minutes within one transmission does not clear the time that was counted: the counter is reset and then the whole
  gap is added to it, so that the next high reading trips at once.\<close>

lemma stale_gap_trips_at_once:
  assumes "sg_enabled g" "\<not> sg_tripped g" "sg_last_high_keyed g = Some p" "sg_last_high_seen g = Some p"
    and "SWR_HIGH_STALE_AFTER < n - p" "sg_trip_delay g \<le> MAX_SWR_TRIP_DELAY_MS * 1000000" "sg_max_swr g < x"
  shows "snd (observe_at True (Some x) n g) = Trip x (sg_max_swr g)"
  using assms by (simp add: observe_keyed observe_high_def Let_def SWR_HIGH_STALE_AFTER_def MAX_SWR_TRIP_DELAY_MS_def)

end
