(* ===== verification/Wsjtx_Codec.thy ===== *)
theory Wsjtx_Codec
  imports Wire
begin

text \<open>
  The datagrams exchanged with companion programs over UDP (\<open>coordinator/wsjtx_udp/codec.rs\<close>): the writer and
  reader of the big-endian primitives, the messages the station sends and receives, and the two functions between
  messages and bytes. A reader is the list of bytes it has not consumed. A floating-point field is the 64 bits of its
  \<open>to_be_bytes\<close>, and a string is the list of its UTF-8 bytes; \<open>String::from_utf8_lossy\<close> of the standard library is
  modelled in full, since it is applied to whatever arrives from the network.
\<close>

named_theorems codec_simps \<open>reading back what was written\<close>

section \<open>UTF-8\<close>

text \<open>The decoder of the standard library looks at bytes past the end as zero.\<close>

definition safe_get :: "bytes \<Rightarrow> nat \<Rightarrow> u8" where
  "safe_get bs i = (if i < length bs then bs ! i else 0)"

definition is_cont :: "u8 \<Rightarrow> bool" where
  "is_cont b \<longleftrightarrow> 0x80 \<le> b \<and> b \<le> 0xBF"

definition utf8_char_width :: "u8 \<Rightarrow> nat" where
  "utf8_char_width b =
     (if b < 0x80 then 1 else if 0xC2 \<le> b \<and> b \<le> 0xDF then 2 else if 0xE0 \<le> b \<and> b \<le> 0xEF then 3
      else if 0xF0 \<le> b \<and> b \<le> 0xF4 then 4 else 0)"

definition second_of_3 :: "u8 \<Rightarrow> u8 \<Rightarrow> bool" where
  "second_of_3 b c \<longleftrightarrow>
     (if b = 0xE0 then 0xA0 \<le> c \<and> c \<le> 0xBF else if b = 0xED then 0x80 \<le> c \<and> c \<le> 0x9F else is_cont c)"

definition second_of_4 :: "u8 \<Rightarrow> u8 \<Rightarrow> bool" where
  "second_of_4 b c \<longleftrightarrow>
     (if b = 0xF0 then 0x90 \<le> c \<and> c \<le> 0xBF else if b = 0xF4 then 0x80 \<le> c \<and> c \<le> 0x8F else is_cont c)"

text \<open>The first character of a non-empty buffer: whether it is well formed, and how many bytes it takes (or, when it
  is not, how many are replaced together).\<close>

definition utf8_head :: "bytes \<Rightarrow> bool \<times> nat" where
  "utf8_head bs =
     (let b = safe_get bs 0; w = utf8_char_width b in
      if w = 1 then (True, 1)
      else if w = 2 then (if is_cont (safe_get bs 1) then (True, 2) else (False, 1))
      else if w = 3 then
        (if \<not> second_of_3 b (safe_get bs 1) then (False, 1)
         else if \<not> is_cont (safe_get bs 2) then (False, 2) else (True, 3))
      else if w = 4 then
        (if \<not> second_of_4 b (safe_get bs 1) then (False, 1)
         else if \<not> is_cont (safe_get bs 2) then (False, 2)
         else if \<not> is_cont (safe_get bs 3) then (False, 3) else (True, 4))
      else (False, 1))"

lemma utf8_head_pos: "0 < snd (utf8_head bs)"
  by (simp add: utf8_head_def Let_def)

text \<open>U+FFFD, the replacement character.\<close>

definition REPLACEMENT :: bytes where "REPLACEMENT = [0xEF, 0xBF, 0xBD]"

function lossy_bytes :: "bytes \<Rightarrow> bytes" where
  "lossy_bytes [] = []"
| "lossy_bytes (b # bs) =
     (let (ok, n) = utf8_head (b # bs)
      in (if ok then take n (b # bs) else REPLACEMENT) @ lossy_bytes (drop n (b # bs)))"
  by pat_completeness auto
termination
proof (relation "measure length")
  fix b :: u8 and bs x ok n
  assume "x = utf8_head (b # bs)" and "(ok, n) = x"
  then have "0 < n" using utf8_head_pos [of "b # bs"] by (metis snd_conv)
  then show "(drop n (b # bs), b # bs) \<in> measure length" by simp
qed simp

function is_utf8 :: "bytes \<Rightarrow> bool" where
  "is_utf8 [] = True"
| "is_utf8 (b # bs) = (let (ok, n) = utf8_head (b # bs) in ok \<and> is_utf8 (drop n (b # bs)))"
  by pat_completeness auto
termination
proof (relation "measure length")
  fix b :: u8 and bs x ok n
  assume "x = utf8_head (b # bs)" and "(ok, n) = x"
  then have "0 < n" using utf8_head_pos [of "b # bs"] by (metis snd_conv)
  then show "(drop n (b # bs), b # bs) \<in> measure length" by simp
qed simp

declare is_utf8.simps(2) [simp del] lossy_bytes.simps(2) [simp del]

lemma is_utf8_step:
  "bs \<noteq> [] \<Longrightarrow> is_utf8 bs \<longleftrightarrow> fst (utf8_head bs) \<and> is_utf8 (drop (snd (utf8_head bs)) bs)"
  by (cases bs) (simp_all add: is_utf8.simps(2) split: prod.split)

lemma lossy_step:
  "bs \<noteq> [] \<Longrightarrow> lossy_bytes bs =
     (if fst (utf8_head bs) then take (snd (utf8_head bs)) bs else REPLACEMENT) @ lossy_bytes (drop (snd (utf8_head bs)) bs)"
  by (cases bs) (simp_all add: lossy_bytes.simps(2) split: prod.split)

text \<open>A well-formed first character is inside the buffer, and is the same whatever follows it.\<close>

lemma cont_within:
  "is_cont (safe_get bs i) \<Longrightarrow> i < length bs" "second_of_3 b (safe_get bs i) \<Longrightarrow> i < length bs"
  "second_of_4 b (safe_get bs i) \<Longrightarrow> i < length bs"
  by (auto simp: safe_get_def is_cont_def second_of_3_def second_of_4_def split: if_splits)

lemma utf8_head_within:
  assumes "utf8_head bs = (True, n)" and "bs \<noteq> []"
  shows "n \<le> length bs"
proof -
  have "1 \<le> length bs" using assms(2) by (simp add: Suc_le_eq)
  then show ?thesis using assms(1)
    by (auto simp: utf8_head_def Let_def simp del: One_nat_def dest!: cont_within split: if_splits)
qed

lemma utf8_head_local:
  assumes "utf8_head bs = (True, n)" and "\<And>i. i < n \<Longrightarrow> safe_get cs i = safe_get bs i"
  shows "utf8_head cs = (True, n)"
proof -
  have "0 < n" using assms(1) utf8_head_pos [of bs] by simp
  then have "safe_get cs 0 = safe_get bs 0" using assms(2) by blast
  moreover have "1 < n \<Longrightarrow> safe_get cs 1 = safe_get bs 1" "2 < n \<Longrightarrow> safe_get cs 2 = safe_get bs 2"
    "3 < n \<Longrightarrow> safe_get cs 3 = safe_get bs 3" using assms(2) by blast+
  ultimately show ?thesis using assms(1) by (auto simp: utf8_head_def Let_def split: if_splits)
qed

lemma is_utf8_char:
  assumes "utf8_head bs = (True, n)" and "bs \<noteq> []"
  shows "is_utf8 (take n bs @ ys) \<longleftrightarrow> is_utf8 ys"
proof -
  have n: "0 < n" "n \<le> length bs" using assms utf8_head_within utf8_head_pos [of bs] by auto
  have "utf8_head (take n bs @ ys) = (True, n)"
    using n by (intro utf8_head_local [OF assms(1)]) (auto simp: safe_get_def nth_append)
  moreover have "take n bs @ ys \<noteq> []" using n by auto
  ultimately show ?thesis using n by (subst is_utf8_step) auto
qed

lemma is_utf8_replacement: "is_utf8 (REPLACEMENT @ ys) \<longleftrightarrow> is_utf8 ys"
proof -
  have "utf8_head REPLACEMENT = (True, 3)" by code_simp
  from is_utf8_char [OF this, of ys] show ?thesis by (simp add: REPLACEMENT_def)
qed

text \<open>Induction over the characters of a buffer.\<close>

lemma utf8_induct [case_names empty char]:
  assumes "P []"
    and step: "\<And>bs. bs \<noteq> [] \<Longrightarrow> P (drop (snd (utf8_head bs)) bs) \<Longrightarrow> P bs"
  shows "P bs"
proof (induction bs rule: length_induct)
  case (1 bs)
  show ?case
  proof (cases "bs = []")
    case False
    then have "length (drop (snd (utf8_head bs)) bs) < length bs" using utf8_head_pos [of bs] by simp
    then show ?thesis using 1 step False by blast
  qed (simp add: assms(1))
qed

lemma is_utf8_append: "is_utf8 xs \<Longrightarrow> is_utf8 ys \<Longrightarrow> is_utf8 (xs @ ys)"
proof (induction xs rule: utf8_induct)
  case (char bs)
  let ?n = "snd (utf8_head bs)"
  have h: "utf8_head bs = (True, ?n)" and "is_utf8 (drop ?n bs)"
    using char(1,3) is_utf8_step by (auto simp: prod_eq_iff)
  then have "is_utf8 (take ?n bs @ drop ?n bs @ ys)" using char(1,2,4) is_utf8_char [OF h] by blast
  then show ?case by (metis append.assoc append_take_drop_id)
qed simp

text \<open>The lossy decoding always gives well-formed UTF-8, and changes nothing that already is.\<close>

lemma lossy_is_utf8: "is_utf8 (lossy_bytes bs)"
proof (induction bs rule: utf8_induct)
  case (char bs)
  show ?case
  proof (cases "fst (utf8_head bs)")
    case True
    then have "utf8_head bs = (True, snd (utf8_head bs))" by (simp add: prod_eq_iff)
    from is_utf8_char [OF this] show ?thesis using char True by (simp add: lossy_step)
  next
    case False
    then show ?thesis using char by (simp add: lossy_step is_utf8_replacement)
  qed
qed simp

lemma lossy_id: "is_utf8 bs \<Longrightarrow> lossy_bytes bs = bs"
  by (induction bs rule: utf8_induct) (auto simp: lossy_step is_utf8_step)

lemma ascii_is_utf8: "(\<forall>b \<in> set bs. b < 0x80) \<Longrightarrow> is_utf8 bs"
proof (induction bs)
  case (Cons b bs)
  then have "utf8_head (b # bs) = (True, 1)" by (simp add: utf8_head_def utf8_char_width_def safe_get_def)
  then show ?case using Cons by (simp add: is_utf8_step)
qed simp

section \<open>Big-endian numbers\<close>

fun be_bytes :: "nat \<Rightarrow> nat \<Rightarrow> bytes" where
  "be_bytes 0 x = []"
| "be_bytes (Suc k) x = of_nat (x div 256 ^ k) # be_bytes k x"

definition be_nat :: "bytes \<Rightarrow> nat" where
  "be_nat bs = fold (\<lambda>b acc. acc * 256 + unat b) bs 0"

lemma length_be_bytes [simp]: "length (be_bytes k x) = k"
  by (induction k) simp_all

lemma fold_be_bytes: "fold (\<lambda>b acc. acc * 256 + unat b) (be_bytes k x) acc = acc * 256 ^ k + x mod 256 ^ k"
proof (induction k arbitrary: acc)
  case (Suc k)
  have "unat (of_nat (x div 256 ^ k) :: u8) = x div 256 ^ k mod 256" by (simp add: unat_of_nat)
  moreover have "x mod (256 * 256 ^ k) = 256 ^ k * (x div 256 ^ k mod 256) + x mod 256 ^ k"
    using mod_mult2_eq [of x "256 ^ k" 256] by (simp add: mult.commute)
  ultimately show ?case using Suc by (simp add: algebra_simps)
qed simp

lemma be_nat_be_bytes [simp]: "x < 256 ^ k \<Longrightarrow> be_nat (be_bytes k x) = x"
  by (simp add: be_nat_def fold_be_bytes)

section \<open>Writer\<close>

text \<open>What each method of \<open>Writer\<close> appends to its buffer.\<close>

definition put_u8 :: "u8 \<Rightarrow> bytes" where "put_u8 v = [v]"
definition put_u32 :: "u32 \<Rightarrow> bytes" where "put_u32 v = be_bytes 4 (unat v)"
definition put_i32 :: "int \<Rightarrow> bytes" where "put_i32 v = be_bytes 4 (unat (word_of_int v :: u32))"
definition put_u64 :: "u64 \<Rightarrow> bytes" where "put_u64 v = be_bytes 8 (unat v)"
definition put_f64 :: "u64 \<Rightarrow> bytes" where "put_f64 bits = be_bytes 8 (unat bits)"
definition put_bool :: "bool \<Rightarrow> bytes" where "put_bool v = [if v then 1 else 0]"

definition put_utf8 :: "string \<Rightarrow> bytes" where
  "put_utf8 s = put_u32 (of_nat (length s)) @ as_bytes s"

definition put_utf8_null :: bytes where "put_utf8_null = put_u32 (- 1)"
definition put_qtime_ms :: "u32 \<Rightarrow> bytes" where "put_qtime_ms ms = put_u32 ms"

type_synonym qdatetime_utc = "u64 \<times> u32"

definition put_qdatetime_utc :: "qdatetime_utc \<Rightarrow> bytes" where
  "put_qdatetime_utc t = put_u64 (fst t) @ put_u32 (snd t) @ put_u8 1"

section \<open>Reader\<close>

type_synonym 'a read = "bytes \<Rightarrow> 'a option \<times> bytes"

definition reader_take :: "nat \<Rightarrow> bytes read" where
  "reader_take n r = (if length r < n then (None, r) else (Some (take n r), drop n r))"

text \<open>The \<open>?\<close> operator between reads: what was consumed so far stays consumed.\<close>

fun read_then :: "'a option \<times> bytes \<Rightarrow> ('a \<Rightarrow> 'b read) \<Rightarrow> 'b option \<times> bytes" where
  "read_then (None, r) f = (None, r)"
| "read_then (Some v, r) f = f v r"

definition read_u8 :: "u8 read" where
  "read_u8 r = apfst (map_option hd) (reader_take 1 r)"

definition read_u32 :: "u32 read" where
  "read_u32 r = apfst (map_option (\<lambda>b. of_nat (be_nat b))) (reader_take 4 r)"

definition read_i32 :: "int read" where
  "read_i32 r = apfst (map_option (\<lambda>b. sint (of_nat (be_nat b) :: u32))) (reader_take 4 r)"

definition read_u64 :: "u64 read" where
  "read_u64 r = apfst (map_option (\<lambda>b. of_nat (be_nat b))) (reader_take 8 r)"

definition read_f64 :: "u64 read" where
  "read_f64 r = apfst (map_option (\<lambda>b. of_nat (be_nat b))) (reader_take 8 r)"

definition read_bool :: "bool read" where
  "read_bool r = apfst (map_option (\<lambda>b. b \<noteq> 0)) (read_u8 r)"

definition from_utf8_lossy :: "bytes \<Rightarrow> string" where
  "from_utf8_lossy bs = map (\<lambda>b. char_of (unat b)) (lossy_bytes bs)"

definition read_utf8 :: "string read" where
  "read_utf8 r = read_then (read_u32 r) (\<lambda>len r.
     if len = - 1 then (Some [], r)
     else read_then (reader_take (unat len) r) (\<lambda>b r. (Some (from_utf8_lossy b), r)))"

definition read_qtime_ms :: "u32 read" where "read_qtime_ms = read_u32"

definition read_qdatetime_utc :: "qdatetime_utc read" where
  "read_qdatetime_utc r = read_then (read_u64 r) (\<lambda>jdn r. read_then (read_u32 r) (\<lambda>ms r.
     read_then (read_u8 r) (\<lambda>timespec r.
       if timespec = 2 then read_then (read_i32 r) (\<lambda>_ r. (Some (jdn, ms), r)) else (Some (jdn, ms), r))))"

text \<open>\<open>unwrap_or_default\<close> of a read.\<close>

definition read_or :: "'a \<Rightarrow> 'a read \<Rightarrow> bytes \<Rightarrow> 'a \<times> bytes" where
  "read_or d rd r = apfst (\<lambda>v. case v of Some x \<Rightarrow> x | None \<Rightarrow> d) (rd r)"

section \<open>The contract between writer and reader\<close>

text \<open>A field that is written is read back, the bytes after it untouched; a read never gives bytes back; at the end of
  the datagram the field is absent.\<close>

locale field_codec =
  fixes put :: "'a \<Rightarrow> bytes" and get :: "'a read" and fits :: "'a \<Rightarrow> bool"
  assumes get_put: "fits v \<Longrightarrow> get (put v @ rest) = (Some v, rest)"
    and get_suffix: "suffix (snd (get bs)) bs"
    and get_nil: "get [] = (None, [])"
begin

lemma put_inject: "fits v \<Longrightarrow> fits w \<Longrightarrow> put v @ r = put w @ s \<longleftrightarrow> v = w \<and> r = s"
  by (metis get_put option.inject prod.inject)

lemma read_or_put: "fits v \<Longrightarrow> read_or d get (put v @ rest) = (v, rest)"
  by (simp add: read_or_def get_put)

lemma read_or_put_last: "fits v \<Longrightarrow> read_or d get (put v) = (v, [])"
  using read_or_put [of v d "[]"] by simp

lemma read_or_nil: "read_or d get [] = (d, [])"
  by (simp add: read_or_def get_nil)

end

definition fits_i32 :: "int \<Rightarrow> bool" where
  "fits_i32 v \<longleftrightarrow> - (2 ^ 31) \<le> v \<and> v < 2 ^ 31"

definition fits_utf8 :: "string \<Rightarrow> bool" where
  "fits_utf8 s \<longleftrightarrow> is_utf8 (as_bytes s) \<and> length s < 2 ^ 32 - 1"

definition any_value :: "'a \<Rightarrow> bool" where [simp]: "any_value v \<longleftrightarrow> True"

lemma take_put: "length b = n \<Longrightarrow> reader_take n (b @ rest) = (Some b, rest)"
  by (simp add: reader_take_def)

lemma take_suffix: "suffix (snd (reader_take n r)) r"
  by (simp add: reader_take_def suffix_drop)

lemma read_then_suffix:
  "suffix (snd x) r \<Longrightarrow> (\<And>v r'. fst x = Some v \<Longrightarrow> suffix (snd (f v r')) r') \<Longrightarrow> suffix (snd (read_then x f)) r"
  by (cases x rule: prod.exhaust; cases "fst x") (auto intro: suffix_order.trans)

lemma map_char_of_as_bytes [simp]: "map (\<lambda>b. char_of (unat b)) (as_bytes s) = s"
proof -
  have "unat (of_char c :: u8) = of_char c" for c
  proof -
    have "(of_char c :: u8) = of_nat (of_char c)" by (simp only: of_nat_of_char)
    then show ?thesis by (simp add: unat_of_nat)
  qed
  then have "char_of (unat (of_char c :: u8)) = c" for c by simp
  then show ?thesis by (simp add: as_bytes_def o_def)
qed

lemma length_as_bytes [simp]: "length (as_bytes s) = length s"
  by (simp add: as_bytes_def)

lemma sint_i32: "fits_i32 v \<Longrightarrow> sint (word_of_int v :: u32) = v"
proof -
  assume "fits_i32 v"
  then have "signed_take_bit (LENGTH(32) - 1) v = v" unfolding fits_i32_def signed_take_bit_int_eq_self_iff by simp
  then show ?thesis by (simp only: sint_sbintrunc')
qed

lemma length_of_nat_u32: "n < 2 ^ 32 - 1 \<Longrightarrow> unat (of_nat n :: u32) = n \<and> (of_nat n :: u32) \<noteq> - 1"
proof -
  assume n: "n < 2 ^ 32 - 1"
  then have u: "unat (of_nat n :: u32) = n" by (simp add: unat_of_nat)
  moreover have "(- 1 :: u32) = of_nat (2 ^ 32 - 1)" by simp
  then have "unat (- 1 :: u32) = 2 ^ 32 - 1" by (simp only: unat_of_nat) simp
  ultimately show ?thesis using n by (metis nat_neq_iff)
qed

interpretation u8_field: field_codec put_u8 read_u8 any_value
proof
  show "any_value v \<Longrightarrow> read_u8 (put_u8 v @ rest) = (Some v, rest)" for v rest
    by (simp add: read_u8_def put_u8_def reader_take_def)
  show "suffix (snd (read_u8 bs)) bs" for bs by (simp add: read_u8_def take_suffix del: One_nat_def)
  show "read_u8 [] = (None, [])" by (simp add: read_u8_def reader_take_def)
qed

interpretation u32_field: field_codec put_u32 read_u32 any_value
proof
  show "any_value v \<Longrightarrow> read_u32 (put_u32 v @ rest) = (Some v, rest)" for v rest
    using unsigned_less [of v, where 'a = nat] by (simp add: read_u32_def put_u32_def take_put)
  show "suffix (snd (read_u32 bs)) bs" for bs by (simp add: read_u32_def take_suffix)
  show "read_u32 [] = (None, [])" by (simp add: read_u32_def reader_take_def)
qed

interpretation i32_field: field_codec put_i32 read_i32 fits_i32
proof
  show "read_i32 (put_i32 v @ rest) = (Some v, rest)" if "fits_i32 v" for v rest
    using unsigned_less [of "word_of_int v :: u32", where 'a = nat] sint_i32 [OF that]
    by (simp add: read_i32_def put_i32_def take_put)
  show "suffix (snd (read_i32 bs)) bs" for bs by (simp add: read_i32_def take_suffix)
  show "read_i32 [] = (None, [])" by (simp add: read_i32_def reader_take_def)
qed

interpretation u64_field: field_codec put_u64 read_u64 any_value
proof
  show "any_value v \<Longrightarrow> read_u64 (put_u64 v @ rest) = (Some v, rest)" for v rest
    using unsigned_less [of v, where 'a = nat] by (simp add: read_u64_def put_u64_def take_put)
  show "suffix (snd (read_u64 bs)) bs" for bs by (simp add: read_u64_def take_suffix)
  show "read_u64 [] = (None, [])" by (simp add: read_u64_def reader_take_def)
qed

interpretation f64_field: field_codec put_f64 read_f64 any_value
  using u64_field.field_codec_axioms
  by (simp add: put_f64_def [abs_def] read_f64_def [abs_def] put_u64_def [abs_def] read_u64_def [abs_def])

interpretation bool_field: field_codec put_bool read_bool any_value
proof
  show "any_value v \<Longrightarrow> read_bool (put_bool v @ rest) = (Some v, rest)" for v rest
    by (simp add: read_bool_def put_bool_def read_u8_def reader_take_def)
  show "suffix (snd (read_bool bs)) bs" for bs by (simp add: read_bool_def u8_field.get_suffix)
  show "read_bool [] = (None, [])" by (simp add: read_bool_def u8_field.get_nil)
qed

interpretation utf8_field: field_codec put_utf8 read_utf8 fits_utf8
proof
  show "read_utf8 (put_utf8 s @ rest) = (Some s, rest)" if "fits_utf8 s" for s rest
    using that length_of_nat_u32 [of "length s"]
    by (simp add: read_utf8_def put_utf8_def u32_field.get_put take_put fits_utf8_def from_utf8_lossy_def lossy_id)
  show "suffix (snd (read_utf8 bs)) bs" for bs unfolding read_utf8_def
    by (intro read_then_suffix u32_field.get_suffix) (auto intro!: read_then_suffix take_suffix)
  show "read_utf8 [] = (None, [])" by (simp add: read_utf8_def u32_field.get_nil)
qed

interpretation qdatetime_field: field_codec put_qdatetime_utc read_qdatetime_utc any_value
proof
  show "read_qdatetime_utc (put_qdatetime_utc t @ rest) = (Some t, rest)" for t rest
    by (cases t) (simp add: read_qdatetime_utc_def put_qdatetime_utc_def u64_field.get_put u32_field.get_put u8_field.get_put)
  show "suffix (snd (read_qdatetime_utc bs)) bs" for bs unfolding read_qdatetime_utc_def
    by (intro read_then_suffix u64_field.get_suffix u32_field.get_suffix u8_field.get_suffix)
       (auto intro!: read_then_suffix i32_field.get_suffix)
  show "read_qdatetime_utc [] = (None, [])" by (simp add: read_qdatetime_utc_def u64_field.get_nil)
qed

section \<open>Messages\<close>

definition MAGIC :: u32 where "MAGIC = 0xadbccbda"
definition SCHEMA_OUT :: u32 where "SCHEMA_OUT = 2"
definition SCHEMA_IN_MIN :: u32 where "SCHEMA_IN_MIN = 2"
definition SCHEMA_IN_MAX :: u32 where "SCHEMA_IN_MAX = 3"

definition TYPE_HEARTBEAT :: u32 where "TYPE_HEARTBEAT = 0"
definition TYPE_STATUS :: u32 where "TYPE_STATUS = 1"
definition TYPE_DECODE :: u32 where "TYPE_DECODE = 2"
definition TYPE_CLEAR :: u32 where "TYPE_CLEAR = 3"
definition TYPE_REPLY :: u32 where "TYPE_REPLY = 4"
definition TYPE_QSO_LOGGED :: u32 where "TYPE_QSO_LOGGED = 5"
definition TYPE_CLOSE :: u32 where "TYPE_CLOSE = 6"
definition TYPE_REPLAY :: u32 where "TYPE_REPLAY = 7"
definition TYPE_HALT_TX :: u32 where "TYPE_HALT_TX = 8"
definition TYPE_LOGGED_ADIF :: u32 where "TYPE_LOGGED_ADIF = 12"

lemmas type_ids = TYPE_HEARTBEAT_def TYPE_STATUS_def TYPE_DECODE_def TYPE_CLEAR_def TYPE_REPLY_def TYPE_QSO_LOGGED_def
  TYPE_CLOSE_def TYPE_REPLAY_def TYPE_HALT_TX_def TYPE_LOGGED_ADIF_def

record status_msg =
  st_dial_frequency :: u64
  st_mode :: string
  st_dx_call :: string
  st_report :: string
  st_tx_mode :: string
  st_tx_enabled :: bool
  st_transmitting :: bool
  st_decoding :: bool
  st_rx_df :: u32
  st_tx_df :: u32
  st_de_call :: string
  st_de_grid :: string
  st_dx_grid :: string
  st_tx_watchdog :: bool
  st_sub_mode :: string
  st_fast_mode :: bool
  st_special_operation_mode :: u8
  st_frequency_tolerance :: u32
  st_tr_period :: u32
  st_configuration_name :: string
  st_tx_message :: string

record decode_msg =
  dc_new :: bool
  dc_time_ms :: u32
  dc_snr :: int
  dc_delta_time :: u64
  dc_delta_freq :: u32
  dc_mode :: string
  dc_message :: string
  dc_low_confidence :: bool
  dc_off_air :: bool

record qso_logged_msg =
  ql_date_time_off :: qdatetime_utc
  ql_dx_call :: string
  ql_dx_grid :: string
  ql_tx_frequency :: u64
  ql_mode :: string
  ql_report_sent :: string
  ql_report_received :: string
  ql_tx_power :: string
  ql_comments :: string
  ql_name :: string
  ql_date_time_on :: qdatetime_utc
  ql_operator_call :: string
  ql_my_call :: string
  ql_my_grid :: string
  ql_exchange_sent :: string
  ql_exchange_received :: string
  ql_adif_propagation_mode :: string

record heartbeat_msg =
  hb_max_schema :: u32
  hb_version :: string
  hb_revision :: string

record reply_msg =
  rp_time_ms :: u32
  rp_snr :: int
  rp_delta_time :: u64
  rp_delta_freq :: u32
  rp_mode :: string
  rp_message :: string
  rp_low_confidence :: bool
  rp_modifiers :: u8

datatype out_msg =
    Out_Heartbeat heartbeat_msg
  | Out_Status status_msg
  | Out_Decode decode_msg
  | Out_Clear
  | Out_QsoLogged qso_logged_msg
  | Out_Close
  | Out_LoggedAdif string

datatype in_msg =
    In_Heartbeat heartbeat_msg
  | In_Clear "u8 option"
  | In_Reply reply_msg
  | In_Close
  | In_Replay
  | In_HaltTx bool
  | In_Other u32

fun out_type_id :: "out_msg \<Rightarrow> u32" where
  "out_type_id (Out_Heartbeat _) = TYPE_HEARTBEAT"
| "out_type_id (Out_Status _) = TYPE_STATUS"
| "out_type_id (Out_Decode _) = TYPE_DECODE"
| "out_type_id Out_Clear = TYPE_CLEAR"
| "out_type_id (Out_QsoLogged _) = TYPE_QSO_LOGGED"
| "out_type_id Out_Close = TYPE_CLOSE"
| "out_type_id (Out_LoggedAdif _) = TYPE_LOGGED_ADIF"

fun out_fields :: "out_msg \<Rightarrow> bytes" where
  "out_fields (Out_Heartbeat h) = put_u32 (hb_max_schema h) @ put_utf8 (hb_version h) @ put_utf8 (hb_revision h)"
| "out_fields (Out_Status s) =
     put_u64 (st_dial_frequency s) @ put_utf8 (st_mode s) @ put_utf8 (st_dx_call s) @ put_utf8 (st_report s) @
     put_utf8 (st_tx_mode s) @ put_bool (st_tx_enabled s) @ put_bool (st_transmitting s) @ put_bool (st_decoding s) @
     put_u32 (st_rx_df s) @ put_u32 (st_tx_df s) @ put_utf8 (st_de_call s) @ put_utf8 (st_de_grid s) @
     put_utf8 (st_dx_grid s) @ put_bool (st_tx_watchdog s) @ put_utf8 (st_sub_mode s) @ put_bool (st_fast_mode s) @
     put_u8 (st_special_operation_mode s) @ put_u32 (st_frequency_tolerance s) @ put_u32 (st_tr_period s) @
     put_utf8 (st_configuration_name s) @ put_utf8 (st_tx_message s)"
| "out_fields (Out_Decode d) =
     put_bool (dc_new d) @ put_qtime_ms (dc_time_ms d) @ put_i32 (dc_snr d) @ put_f64 (dc_delta_time d) @
     put_u32 (dc_delta_freq d) @ put_utf8 (dc_mode d) @ put_utf8 (dc_message d) @ put_bool (dc_low_confidence d) @
     put_bool (dc_off_air d)"
| "out_fields Out_Clear = []"
| "out_fields (Out_QsoLogged q) =
     put_qdatetime_utc (ql_date_time_off q) @ put_utf8 (ql_dx_call q) @ put_utf8 (ql_dx_grid q) @
     put_u64 (ql_tx_frequency q) @ put_utf8 (ql_mode q) @ put_utf8 (ql_report_sent q) @
     put_utf8 (ql_report_received q) @ put_utf8 (ql_tx_power q) @ put_utf8 (ql_comments q) @ put_utf8 (ql_name q) @
     put_qdatetime_utc (ql_date_time_on q) @ put_utf8 (ql_operator_call q) @ put_utf8 (ql_my_call q) @
     put_utf8 (ql_my_grid q) @ put_utf8 (ql_exchange_sent q) @ put_utf8 (ql_exchange_received q) @
     put_utf8 (ql_adif_propagation_mode q)"
| "out_fields Out_Close = []"
| "out_fields (Out_LoggedAdif adif) = put_utf8 adif"

definition out_encode :: "out_msg \<Rightarrow> string \<Rightarrow> bytes" where
  "out_encode m id' = put_u32 MAGIC @ put_u32 SCHEMA_OUT @ put_u32 (out_type_id m) @ put_utf8 id' @ out_fields m"

definition read_heartbeat :: "bytes \<Rightarrow> heartbeat_msg" where
  "read_heartbeat r =
     (let (ms, r) = read_or 0 read_u32 r; (v, r) = read_or [] read_utf8 r; (rev, r) = read_or [] read_utf8 r
      in \<lparr> hb_max_schema = ms, hb_version = v, hb_revision = rev \<rparr>)"

definition read_reply :: "bytes \<Rightarrow> reply_msg" where
  "read_reply r =
     (let (t, r) = read_or 0 read_qtime_ms r; (snr, r) = read_or 0 read_i32 r; (dt, r) = read_or 0 read_f64 r;
          (df, r) = read_or 0 read_u32 r; (md, r) = read_or [] read_utf8 r; (msg, r) = read_or [] read_utf8 r;
          (lc, r) = read_or False read_bool r; (mods, r) = read_or 0 read_u8 r
      in \<lparr> rp_time_ms = t, rp_snr = snr, rp_delta_time = dt, rp_delta_freq = df, rp_mode = md, rp_message = msg,
           rp_low_confidence = lc, rp_modifiers = mods \<rparr>)"

definition in_fields :: "u32 \<Rightarrow> bytes \<Rightarrow> in_msg" where
  "in_fields msg_type r =
     (if msg_type = TYPE_HEARTBEAT then In_Heartbeat (read_heartbeat r)
      else if msg_type = TYPE_CLEAR then In_Clear (fst (read_u8 r))
      else if msg_type = TYPE_REPLY then In_Reply (read_reply r)
      else if msg_type = TYPE_CLOSE then In_Close
      else if msg_type = TYPE_REPLAY then In_Replay
      else if msg_type = TYPE_HALT_TX then In_HaltTx (fst (read_or False read_bool r))
      else In_Other msg_type)"

definition in_decode :: "bytes \<Rightarrow> (string \<times> in_msg) option" where
  "in_decode buf = fst (read_then (read_u32 buf) (\<lambda>magic r.
     if magic \<noteq> MAGIC then (None, r)
     else read_then (read_u32 r) (\<lambda>schema r.
       if \<not> (SCHEMA_IN_MIN \<le> schema \<and> schema \<le> SCHEMA_IN_MAX) then (None, r)
       else read_then (read_u32 r) (\<lambda>msg_type r.
         read_then (read_utf8 r) (\<lambda>id' r. (Some (id', in_fields msg_type r), r))))))"

section \<open>Properties\<close>

text \<open>Messages whose values the protocol can carry: every string is UTF-8 of at most \<open>2\<^sup>3\<^sup>2 - 2\<close> bytes (a Rust string is
  always UTF-8, and a datagram has less than \<open>2\<^sup>1\<^sup>6\<close> bytes), and the signal-to-noise ratio is an \<open>i32\<close>.\<close>

fun fits_out :: "out_msg \<Rightarrow> bool" where
  "fits_out (Out_Heartbeat h) \<longleftrightarrow> fits_utf8 (hb_version h) \<and> fits_utf8 (hb_revision h)"
| "fits_out (Out_Status s) \<longleftrightarrow>
     fits_utf8 (st_mode s) \<and> fits_utf8 (st_dx_call s) \<and> fits_utf8 (st_report s) \<and> fits_utf8 (st_tx_mode s) \<and>
     fits_utf8 (st_de_call s) \<and> fits_utf8 (st_de_grid s) \<and> fits_utf8 (st_dx_grid s) \<and> fits_utf8 (st_sub_mode s) \<and>
     fits_utf8 (st_configuration_name s) \<and> fits_utf8 (st_tx_message s)"
| "fits_out (Out_Decode d) \<longleftrightarrow> fits_i32 (dc_snr d) \<and> fits_utf8 (dc_mode d) \<and> fits_utf8 (dc_message d)"
| "fits_out Out_Clear \<longleftrightarrow> True"
| "fits_out (Out_QsoLogged q) \<longleftrightarrow>
     fits_utf8 (ql_dx_call q) \<and> fits_utf8 (ql_dx_grid q) \<and> fits_utf8 (ql_mode q) \<and> fits_utf8 (ql_report_sent q) \<and>
     fits_utf8 (ql_report_received q) \<and> fits_utf8 (ql_tx_power q) \<and> fits_utf8 (ql_comments q) \<and> fits_utf8 (ql_name q) \<and>
     fits_utf8 (ql_operator_call q) \<and> fits_utf8 (ql_my_call q) \<and> fits_utf8 (ql_my_grid q) \<and>
     fits_utf8 (ql_exchange_sent q) \<and> fits_utf8 (ql_exchange_received q) \<and> fits_utf8 (ql_adif_propagation_mode q)"
| "fits_out Out_Close \<longleftrightarrow> True"
| "fits_out (Out_LoggedAdif adif) \<longleftrightarrow> fits_utf8 adif"

text \<open>The datagram header as a peer of any accepted schema writes it.\<close>

definition datagram :: "u32 \<Rightarrow> u32 \<Rightarrow> string \<Rightarrow> bytes \<Rightarrow> bytes" where
  "datagram schema msg_type id' body = put_u32 MAGIC @ put_u32 schema @ put_u32 msg_type @ put_utf8 id' @ body"

lemma encode_datagram: "out_encode m id' @ extra = datagram SCHEMA_OUT (out_type_id m) id' (out_fields m @ extra)"
  by (simp add: out_encode_def datagram_def)

lemma decode_datagram:
  "fits_utf8 id' \<Longrightarrow> 2 \<le> schema \<and> schema \<le> 3 \<Longrightarrow> in_decode (datagram schema ty id' body) = Some (id', in_fields ty body)"
  by (simp add: in_decode_def datagram_def u32_field.get_put utf8_field.get_put SCHEMA_IN_MIN_def SCHEMA_IN_MAX_def)

text \<open>What a receiver of this protocol reads from a message of the station: the fields of the message types both sides
  know, and the type number of the others.\<close>

fun seen_as :: "out_msg \<Rightarrow> bytes \<Rightarrow> in_msg" where
  "seen_as (Out_Heartbeat h) extra = In_Heartbeat h"
| "seen_as Out_Clear extra = In_Clear (case extra of [] \<Rightarrow> None | b # _ \<Rightarrow> Some b)"
| "seen_as Out_Close extra = In_Close"
| "seen_as (Out_QsoLogged q) extra = In_Other TYPE_QSO_LOGGED"
| "seen_as (Out_Status s) extra = In_Other TYPE_STATUS"
| "seen_as (Out_Decode d) extra = In_Other TYPE_DECODE"
| "seen_as (Out_LoggedAdif a) extra = In_Other TYPE_LOGGED_ADIF"

lemma in_fields_seen: "fits_out m \<Longrightarrow> in_fields (out_type_id m) (out_fields m @ extra) = seen_as m extra"
  by (cases m) (auto simp: in_fields_def type_ids read_heartbeat_def u32_field.read_or_put utf8_field.read_or_put
      read_u8_def reader_take_def Suc_le_eq hd_conv_nth neq_Nil_conv split: list.split)

text \<open>A companion program reads every type: the fields of a message one after another, each by the reader of its kind, in the order the
  protocol lists them (the order of the records above). A field that is missing loses the message.\<close>

definition companion_heartbeat :: "out_msg read" where
  "companion_heartbeat r =
     read_then (read_u32 r) (\<lambda>v0 r. read_then (read_utf8 r) (\<lambda>v1 r. read_then (read_utf8 r) (\<lambda>v2 r.
     (Some (Out_Heartbeat \<lparr> hb_max_schema = v0, hb_version = v1, hb_revision = v2 \<rparr>), r))))"

definition companion_status :: "out_msg read" where
  "companion_status r =
     read_then (read_u64 r) (\<lambda>v0 r. read_then (read_utf8 r) (\<lambda>v1 r. read_then (read_utf8 r) (\<lambda>v2 r. 
     read_then (read_utf8 r) (\<lambda>v3 r. read_then (read_utf8 r) (\<lambda>v4 r. read_then (read_bool r) (\<lambda>v5 r. 
     read_then (read_bool r) (\<lambda>v6 r. read_then (read_bool r) (\<lambda>v7 r. read_then (read_u32 r) (\<lambda>v8 r. 
     read_then (read_u32 r) (\<lambda>v9 r. read_then (read_utf8 r) (\<lambda>v10 r. read_then (read_utf8 r) (\<lambda>v11 r. 
     read_then (read_utf8 r) (\<lambda>v12 r. read_then (read_bool r) (\<lambda>v13 r. read_then (read_utf8 r) (\<lambda>v14 r. 
     read_then (read_bool r) (\<lambda>v15 r. read_then (read_u8 r) (\<lambda>v16 r. read_then (read_u32 r) (\<lambda>v17 r. 
     read_then (read_u32 r) (\<lambda>v18 r. read_then (read_utf8 r) (\<lambda>v19 r. read_then (read_utf8 r) (\<lambda>v20 r.
     (Some (Out_Status \<lparr> st_dial_frequency = v0, st_mode = v1, st_dx_call = v2, st_report = v3, st_tx_mode = v4,
       st_tx_enabled = v5, st_transmitting = v6, st_decoding = v7, st_rx_df = v8, st_tx_df = v9, st_de_call = v10, st_de_grid
       = v11, st_dx_grid = v12, st_tx_watchdog = v13, st_sub_mode = v14, st_fast_mode = v15, st_special_operation_mode = v16,
       st_frequency_tolerance = v17, st_tr_period = v18, st_configuration_name = v19, st_tx_message = v20 \<rparr>), r))))))))))))))))))))))"

definition companion_decode :: "out_msg read" where
  "companion_decode r =
     read_then (read_bool r) (\<lambda>v0 r. read_then (read_qtime_ms r) (\<lambda>v1 r. read_then (read_i32 r) (\<lambda>v2 r. 
     read_then (read_f64 r) (\<lambda>v3 r. read_then (read_u32 r) (\<lambda>v4 r. read_then (read_utf8 r) (\<lambda>v5 r. 
     read_then (read_utf8 r) (\<lambda>v6 r. read_then (read_bool r) (\<lambda>v7 r. read_then (read_bool r) (\<lambda>v8 r.
     (Some (Out_Decode \<lparr> dc_new = v0, dc_time_ms = v1, dc_snr = v2, dc_delta_time = v3, dc_delta_freq = v4, dc_mode
       = v5, dc_message = v6, dc_low_confidence = v7, dc_off_air = v8 \<rparr>), r))))))))))"

definition companion_logged :: "out_msg read" where
  "companion_logged r =
     read_then (read_qdatetime_utc r) (\<lambda>v0 r. read_then (read_utf8 r) (\<lambda>v1 r. read_then (read_utf8 r) (\<lambda>v2 r. 
     read_then (read_u64 r) (\<lambda>v3 r. read_then (read_utf8 r) (\<lambda>v4 r. read_then (read_utf8 r) (\<lambda>v5 r. 
     read_then (read_utf8 r) (\<lambda>v6 r. read_then (read_utf8 r) (\<lambda>v7 r. read_then (read_utf8 r) (\<lambda>v8 r. 
     read_then (read_utf8 r) (\<lambda>v9 r. read_then (read_qdatetime_utc r) (\<lambda>v10 r. read_then (read_utf8 r) (\<lambda>v11 r. 
     read_then (read_utf8 r) (\<lambda>v12 r. read_then (read_utf8 r) (\<lambda>v13 r. read_then (read_utf8 r) (\<lambda>v14 r. 
     read_then (read_utf8 r) (\<lambda>v15 r. read_then (read_utf8 r) (\<lambda>v16 r.
     (Some (Out_QsoLogged \<lparr> ql_date_time_off = v0, ql_dx_call = v1, ql_dx_grid = v2, ql_tx_frequency = v3, ql_mode =
       v4, ql_report_sent = v5, ql_report_received = v6, ql_tx_power = v7, ql_comments = v8, ql_name = v9, ql_date_time_on =
       v10, ql_operator_call = v11, ql_my_call = v12, ql_my_grid = v13, ql_exchange_sent = v14, ql_exchange_received = v15,
       ql_adif_propagation_mode = v16 \<rparr>), r))))))))))))))))))"

definition companion_fields :: "u32 \<Rightarrow> out_msg read" where
  "companion_fields msg_type r =
     (if msg_type = TYPE_HEARTBEAT then companion_heartbeat r
      else if msg_type = TYPE_STATUS then companion_status r
      else if msg_type = TYPE_DECODE then companion_decode r
      else if msg_type = TYPE_CLEAR then (Some Out_Clear, r)
      else if msg_type = TYPE_QSO_LOGGED then companion_logged r
      else if msg_type = TYPE_CLOSE then (Some Out_Close, r)
      else if msg_type = TYPE_LOGGED_ADIF then read_then (read_utf8 r) (\<lambda>a r. (Some (Out_LoggedAdif a), r))
      else (None, r))"

definition companion_reads :: "(string \<times> out_msg) read" where
  "companion_reads r = read_then (read_u32 r) (\<lambda>magic r. if magic \<noteq> MAGIC then (None, r)
     else read_then (read_u32 r) (\<lambda>schema r. if schema \<noteq> SCHEMA_OUT then (None, r)
     else read_then (read_u32 r) (\<lambda>msg_type r. read_then (read_utf8 r) (\<lambda>id' r.
       read_then (companion_fields msg_type r) (\<lambda>m r. (Some (id', m), r))))))"

lemmas get_puts = u8_field.get_put u32_field.get_put i32_field.get_put u64_field.get_put f64_field.get_put bool_field.get_put
  utf8_field.get_put qdatetime_field.get_put

lemma companion_fields_read: "fits_out m \<Longrightarrow> companion_fields (out_type_id m) (out_fields m @ extra) = (Some m, extra)"
proof (cases m)
  case (Out_Status s)
  assume "fits_out m"
  then show ?thesis unfolding Out_Status by (simp add: companion_fields_def type_ids companion_status_def get_puts)
next
  case (Out_Decode d)
  assume "fits_out m"
  then show ?thesis unfolding Out_Decode
    by (simp add: companion_fields_def type_ids companion_decode_def get_puts put_qtime_ms_def read_qtime_ms_def)
next
  case (Out_QsoLogged q)
  assume "fits_out m"
  then show ?thesis unfolding Out_QsoLogged by (simp add: companion_fields_def type_ids companion_logged_def get_puts)
qed (simp_all add: companion_fields_def type_ids companion_heartbeat_def get_puts)

text \<open>C29: every datagram the station sends is read back, whatever bytes follow it: a companion program that reads the fields in the
  order of the protocol recovers the instance name and every field of the message, heartbeat, status, decode, clear, logged contact,
  close or ADIF record, and stops exactly at its end; and the station's own receiver, which acts on requests, reads the heartbeat,
  clear and close of another instance and takes the other types for what they are, no request.\<close>

theorem sent_datagrams_are_read_back:
  assumes "fits_out m" and "fits_utf8 id'"
  shows "companion_reads (out_encode m id' @ extra) = (Some (id', m), extra) \<and>
    in_decode (out_encode m id' @ extra) = Some (id', seen_as m extra)"
  using assms companion_fields_read [OF assms(1), of extra]
  by (simp add: encode_datagram decode_datagram SCHEMA_OUT_def in_fields_seen)
    (simp add: companion_reads_def datagram_def SCHEMA_OUT_def get_puts)

lemmas put_injects = u8_field.put_inject u32_field.put_inject i32_field.put_inject u64_field.put_inject
  f64_field.put_inject bool_field.put_inject utf8_field.put_inject qdatetime_field.put_inject

lemma out_type_id_class: "out_type_id m = out_type_id n \<Longrightarrow>
  (\<exists>a b. m = Out_Heartbeat a \<and> n = Out_Heartbeat b) \<or> (\<exists>a b. m = Out_Status a \<and> n = Out_Status b) \<or>
  (\<exists>a b. m = Out_Decode a \<and> n = Out_Decode b) \<or> m = Out_Clear \<and> n = Out_Clear \<or>
  (\<exists>a b. m = Out_QsoLogged a \<and> n = Out_QsoLogged b) \<or> m = Out_Close \<and> n = Out_Close \<or>
  (\<exists>a b. m = Out_LoggedAdif a \<and> n = Out_LoggedAdif b)"
  by (cases m; cases n) (simp_all add: type_ids)

lemma heartbeat_fields_inject:
  "fits_out (Out_Heartbeat a) \<Longrightarrow> fits_out (Out_Heartbeat b) \<Longrightarrow>
     out_fields (Out_Heartbeat a) @ r = out_fields (Out_Heartbeat b) @ s \<Longrightarrow> a = b \<and> r = s"
  by (simp add: put_injects)

lemma status_fields_inject:
  "fits_out (Out_Status a) \<Longrightarrow> fits_out (Out_Status b) \<Longrightarrow>
     out_fields (Out_Status a) @ r = out_fields (Out_Status b) @ s \<Longrightarrow> a = b \<and> r = s"
  by (simp add: put_injects)

lemma decode_fields_inject:
  "fits_out (Out_Decode a) \<Longrightarrow> fits_out (Out_Decode b) \<Longrightarrow>
     out_fields (Out_Decode a) @ r = out_fields (Out_Decode b) @ s \<Longrightarrow> a = b \<and> r = s"
  by (simp add: put_injects put_qtime_ms_def)

lemma logged_fields_inject:
  "fits_out (Out_QsoLogged a) \<Longrightarrow> fits_out (Out_QsoLogged b) \<Longrightarrow>
     out_fields (Out_QsoLogged a) @ r = out_fields (Out_QsoLogged b) @ s \<Longrightarrow> a = b \<and> r = s"
  by (simp add: put_injects)

lemma adif_fields_inject:
  "fits_out (Out_LoggedAdif a) \<Longrightarrow> fits_out (Out_LoggedAdif b) \<Longrightarrow>
     out_fields (Out_LoggedAdif a) @ r = out_fields (Out_LoggedAdif b) @ s \<Longrightarrow> a = b \<and> r = s"
  by (simp add: put_injects)

lemma out_fields_inject:
  assumes "fits_out m" and "fits_out n" and "out_type_id m = out_type_id n"
    and "out_fields m @ r = out_fields n @ s"
  shows "m = n \<and> r = s"
  using out_type_id_class [OF assms(3)]
proof (elim disjE exE conjE)
  fix a b
  assume "m = Out_Heartbeat a" "n = Out_Heartbeat b"
  then show ?thesis using assms heartbeat_fields_inject [of a b r s] by (simp del: out_fields.simps fits_out.simps)
next
  fix a b
  assume "m = Out_Status a" "n = Out_Status b"
  then show ?thesis using assms status_fields_inject [of a b r s] by (simp del: out_fields.simps fits_out.simps)
next
  fix a b
  assume "m = Out_Decode a" "n = Out_Decode b"
  then show ?thesis using assms decode_fields_inject [of a b r s] by (simp del: out_fields.simps fits_out.simps)
next
  assume "m = Out_Clear" "n = Out_Clear"
  then show ?thesis using assms(4) by simp
next
  fix a b
  assume "m = Out_QsoLogged a" "n = Out_QsoLogged b"
  then show ?thesis using assms logged_fields_inject [of a b r s] by (simp del: out_fields.simps fits_out.simps)
next
  assume "m = Out_Close" "n = Out_Close"
  then show ?thesis using assms(4) by simp
next
  fix a b
  assume "m = Out_LoggedAdif a" "n = Out_LoggedAdif b"
  then show ?thesis using assms adif_fields_inject [of a b r s] by (simp del: out_fields.simps fits_out.simps)
qed

lemma out_encode_inject:
  assumes "fits_out m" and "fits_utf8 i" and "fits_out n" and "fits_utf8 j" and "out_encode m i @ r = out_encode n j @ s"
  shows "m = n \<and> i = j \<and> r = s"
proof -
  have "out_type_id m = out_type_id n" "i = j" "out_fields m @ r = out_fields n @ s"
    using assms(2,4,5) by (simp_all add: encode_datagram datagram_def put_injects)
  then show ?thesis using out_fields_inject assms by blast
qed

text \<open>C20: no two different messages, or instance names, have the same datagram, and none is the beginning of another's:
  every field of every message is on the wire and can be told apart from its neighbours.\<close>

theorem datagrams_are_unambiguous:
  assumes "fits_out m" and "fits_utf8 i" and "fits_out n" and "fits_utf8 j"
  shows "out_encode m i @ r = out_encode n j @ s \<longleftrightarrow> m = n \<and> i = j \<and> r = s"
  using out_encode_inject assms by blast

text \<open>A \<open>Reply\<close> as a peer writes it, field by field, and what remains of it when only the first \<open>k\<close> fields arrive.\<close>

definition reply_wire :: "reply_msg \<Rightarrow> bytes list" where
  "reply_wire rp =
     [put_qtime_ms (rp_time_ms rp), put_i32 (rp_snr rp), put_f64 (rp_delta_time rp), put_u32 (rp_delta_freq rp),
      put_utf8 (rp_mode rp), put_utf8 (rp_message rp), put_bool (rp_low_confidence rp), put_u8 (rp_modifiers rp)]"

definition reply_upto :: "nat \<Rightarrow> reply_msg \<Rightarrow> reply_msg" where
  "reply_upto k rp =
     \<lparr> rp_time_ms = (if 0 < k then rp_time_ms rp else 0), rp_snr = (if 1 < k then rp_snr rp else 0),
       rp_delta_time = (if 2 < k then rp_delta_time rp else 0), rp_delta_freq = (if 3 < k then rp_delta_freq rp else 0),
       rp_mode = (if 4 < k then rp_mode rp else []), rp_message = (if 5 < k then rp_message rp else []),
       rp_low_confidence = (6 < k \<and> rp_low_confidence rp), rp_modifiers = (if 7 < k then rp_modifiers rp else 0) \<rparr>"

lemmas read_or_fields = u8_field.read_or_put u32_field.read_or_put i32_field.read_or_put f64_field.read_or_put
  bool_field.read_or_put utf8_field.read_or_put u8_field.read_or_put_last u32_field.read_or_put_last
  i32_field.read_or_put_last f64_field.read_or_put_last bool_field.read_or_put_last utf8_field.read_or_put_last
  u8_field.read_or_nil u32_field.read_or_nil i32_field.read_or_nil f64_field.read_or_nil bool_field.read_or_nil
  utf8_field.read_or_nil

lemma read_reply_prefix:
  assumes "fits_i32 (rp_snr rp)" "fits_utf8 (rp_mode rp)" "fits_utf8 (rp_message rp)" "k < 8"
  shows "read_reply (concat (take k (reply_wire rp))) = reply_upto k rp"
proof -
  consider "k = 0" | "k = 1" | "k = 2" | "k = 3" | "k = 4" | "k = 5" | "k = 6" | "k = 7" using assms(4) by linarith
  then show ?thesis
    by cases (simp_all add: assms(1-3) reply_wire_def reply_upto_def read_reply_def put_qtime_ms_def read_qtime_ms_def
        read_or_fields)
qed

lemma read_reply_all:
  assumes "fits_i32 (rp_snr rp)" "fits_utf8 (rp_mode rp)" "fits_utf8 (rp_message rp)"
  shows "read_reply (concat (reply_wire rp) @ extra) = rp"
  by (simp add: assms reply_wire_def read_reply_def put_qtime_ms_def read_qtime_ms_def read_or_fields)

text \<open>The request of a companion program to answer a decode is read field by field: a datagram that ends after any of
  its eight fields gives the fields that came and the default of the others, a complete one gives all eight whatever
  follows, under both accepted schemas.\<close>

theorem reply_fields_are_read:
  assumes "fits_i32 (rp_snr rp)" "fits_utf8 (rp_mode rp)" "fits_utf8 (rp_message rp)" "fits_utf8 id'"
    and "schema = 2 \<or> schema = 3" and "k < 8"
  shows "in_decode (datagram schema TYPE_REPLY id' (concat (take k (reply_wire rp)))) = Some (id', In_Reply (reply_upto k rp)) \<and>
         in_decode (datagram schema TYPE_REPLY id' (concat (reply_wire rp) @ extra)) = Some (id', In_Reply rp)"
proof -
  have "2 \<le> schema \<and> schema \<le> 3" using assms(5) by auto
  from decode_datagram [OF assms(4) this] show ?thesis
    using read_reply_prefix [OF assms(1-3,6)] read_reply_all [OF assms(1-3)] by (simp add: in_fields_def type_ids)
qed

text \<open>ASCII texts of ordinary length are such strings.\<close>

lemma fits_ascii: "list_all (\<lambda>c. \<not> digit7 c) s \<Longrightarrow> length s < 1000 \<Longrightarrow> fits_utf8 s"
proof -
  assume s: "list_all (\<lambda>c. \<not> digit7 c) s" "length s < 1000"
  have "(of_char c :: u8) < 0x80" if "\<not> digit7 c" for c
  proof (cases c)
    case (Char b0 b1 b2 b3 b4 b5 b6 b7)
    then show ?thesis using that by (cases b0; cases b1; cases b2; cases b3; cases b4; cases b5; cases b6) auto
  qed
  then have "\<forall>b \<in> set (as_bytes s). b < 0x80" using s(1) by (auto simp: as_bytes_def list_all_iff)
  then show ?thesis using s(2) ascii_is_utf8 by (simp add: fits_utf8_def)
qed

definition cq_reply :: reply_msg where
  "cq_reply = \<lparr> rp_time_ms = 45296789, rp_snr = - 5, rp_delta_time = 0x3fc99999a0000000, rp_delta_freq = 1302,
     rp_mode = ''~'', rp_message = ''CQ K1ABC FN42'', rp_low_confidence = False, rp_modifiers = 0 \<rparr>"

theorem reply_fields_are_read_witness:
  "in_decode (datagram 3 TYPE_REPLY ''pancetta'' (concat (take 6 (reply_wire cq_reply)))) =
     Some (''pancetta'', In_Reply (reply_upto 6 cq_reply)) \<and>
   in_decode (datagram 3 TYPE_REPLY ''pancetta'' (concat (reply_wire cq_reply) @ [0xde, 0xad])) = Some (''pancetta'', In_Reply cq_reply)"
proof -
  have "fits_i32 (rp_snr cq_reply)" "fits_utf8 (rp_mode cq_reply)" "fits_utf8 (rp_message cq_reply)" "fits_utf8 ''pancetta''"
    by (simp_all add: cq_reply_def fits_i32_def fits_ascii)
  then show ?thesis using reply_fields_are_read [of cq_reply "''pancetta''" 3 6 "[0xde, 0xad]"] by simp
qed

text \<open>A datagram cut inside a string is another matter: the length is consumed, the string is absent, and the two flags
  after it are read from the bytes of the text that did arrive.\<close>

lemma cut_string_is_misread:
  assumes "fits_i32 (rp_snr rp)" "fits_utf8 (rp_mode rp)" "fits_utf8 id'" "len \<noteq> - 1" "Suc (Suc (length text)) < unat len"
  shows "in_decode (datagram 2 TYPE_REPLY id' (concat (take 5 (reply_wire rp)) @ put_u32 len @ c # d # text)) =
     Some (id', In_Reply (rp \<lparr> rp_message := [], rp_low_confidence := (c \<noteq> 0), rp_modifiers := d \<rparr>))"
proof -
  have "read_utf8 (put_u32 len @ c # d # text) = (None, c # d # text)"
    using assms(4,5) by (simp add: read_utf8_def u32_field.get_put reader_take_def)
  moreover have "read_bool (c # d # text) = (Some (c \<noteq> 0), d # text)" "read_u8 (d # text) = (Some d, text)"
    by (simp_all add: read_bool_def read_u8_def reader_take_def)
  ultimately have "read_reply (concat (take 5 (reply_wire rp)) @ put_u32 len @ c # d # text) =
      rp \<lparr> rp_message := [], rp_low_confidence := (c \<noteq> 0), rp_modifiers := d \<rparr>"
    by (simp add: assms(1,2) reply_wire_def read_reply_def put_qtime_ms_def read_qtime_ms_def read_or_fields)
       (simp add: read_or_def)
  then show ?thesis using decode_datagram [OF assms(3), of 2] by (simp add: in_fields_def type_ids)
qed

definition demo_sent_datagram :: out_msg where
  "demo_sent_datagram = Out_Decode \<lparr> dc_new = True, dc_time_ms = 45296789, dc_snr = - 5, dc_delta_time = 0x3fc99999a0000000,
     dc_delta_freq = 1302, dc_mode = ''~'', dc_message = ''CQ K1ABC FN42'', dc_low_confidence = False, dc_off_air = False \<rparr>"

theorem sent_datagrams_are_read_back_witness:
  "companion_reads (out_encode demo_sent_datagram ''WSJT-X'' @ [0xde, 0xad]) = (Some (''WSJT-X'', demo_sent_datagram), [0xde, 0xad])"
proof -
  have "fits_out demo_sent_datagram" "fits_utf8 ''WSJT-X''" by (simp_all add: demo_sent_datagram_def fits_i32_def fits_ascii)
  then show ?thesis using sent_datagrams_are_read_back [of demo_sent_datagram "''WSJT-X''" "[0xde, 0xad]"] by blast
qed

theorem datagrams_are_unambiguous_witness:
  "out_encode (Out_LoggedAdif ''a'') ''x'' @ [1] \<noteq> out_encode (Out_LoggedAdif ''ab'') ''x'' @ []"
proof -
  have "fits_utf8 ''a''" "fits_utf8 ''ab''" "fits_utf8 ''x''" by (simp_all add: fits_ascii)
  then show ?thesis
    using datagrams_are_unambiguous [of "Out_LoggedAdif ''a''" "''x''" "Out_LoggedAdif ''ab''" "''x''" "[1]" "[]"] by simp
qed

end
