(* ===== verification/Wsjtx_Udp.thy ===== *)
theory Wsjtx_Udp
  imports Wsjtx_Codec Band Station_Agent Message_Text Machine
begin

text \<open>
  The component that speaks to companion programs over UDP (\<open>coordinator/wsjtx_udp/mod.rs\<close>): it announces the station's
  status and every decode, keeps the decodes for replay, and answers requests, among them the request to call a station,
  which is the second way into the transmitter from outside. The component is a machine: an event is what one turn of
  its loop receives, with a sample of the shared atomics, and the outputs are the datagrams it sends and the messages
  it puts on the bus. Whether a datagram is delivered changes nothing in the component and is not modelled.
\<close>

section \<open>Status\<close>

datatype operating_mode = Mode_Ft8 | Mode_Ft4 | Mode_Ft2

definition mode_from_u8 :: "u8 \<Rightarrow> operating_mode" where
  "mode_from_u8 v = (if v = 0 then Mode_Ft8 else if v = 1 then Mode_Ft4 else if v = 2 then Mode_Ft2 else Mode_Ft8)"

fun mode_as_u8 :: "operating_mode \<Rightarrow> u8" where
  "mode_as_u8 Mode_Ft8 = 0"
| "mode_as_u8 Mode_Ft4 = 1"
| "mode_as_u8 Mode_Ft2 = 2"

fun mode_cycle :: "operating_mode \<Rightarrow> operating_mode" where
  "mode_cycle Mode_Ft8 = Mode_Ft4"
| "mode_cycle Mode_Ft4 = Mode_Ft2"
| "mode_cycle Mode_Ft2 = Mode_Ft8"

fun mode_str :: "operating_mode \<Rightarrow> string" where
  "mode_str Mode_Ft8 = ''FT8''"
| "mode_str Mode_Ft4 = ''FT4''"
| "mode_str Mode_Ft2 = ''FT2''"

text \<open>The shared atomics as one turn reads them, the clock in milliseconds, and the consent bit of this channel in the
  shared arm.\<close>

record wsjtx_state =
  operating_frequency_hz :: u64
  active_protocol_mode :: u8
  tx_offset_hold_hz :: u64
  tx_policy_atomic :: u8
  ptt_active :: bool
  last_decode_timestamp :: nat
  epoch_ms :: nat
  live_consent :: bool

record status_snapshot =
  dial_frequency_hz :: u64
  snap_mode :: string
  tx_df_hz :: u32
  tx_enabled :: bool
  transmitting :: bool
  decoding :: bool

definition DECODING_WINDOW_MS :: nat where "DECODING_WINDOW_MS = 2000"

definition sample_state :: "wsjtx_state \<Rightarrow> status_snapshot" where
  "sample_state st =
     \<lparr> dial_frequency_hz = operating_frequency_hz st,
       snap_mode = mode_str (mode_from_u8 (active_protocol_mode st)),
       tx_df_hz = ucast (tx_offset_hold_hz st),
       tx_enabled = allows_any_tx (policy_from_u8 (tx_policy_atomic st)),
       transmitting = ptt_active st,
       decoding = (last_decode_timestamp st \<noteq> 0 \<and> epoch_ms st - last_decode_timestamp st \<le> DECODING_WINDOW_MS) \<rparr>"

record station_ids =
  id_de_call :: string
  id_de_grid :: string

definition build_status :: "status_snapshot \<Rightarrow> station_ids \<Rightarrow> out_msg" where
  "build_status snap ids = Out_Status
     \<lparr> st_dial_frequency = dial_frequency_hz snap, st_mode = snap_mode snap, st_dx_call = [], st_report = [],
       st_tx_mode = snap_mode snap, st_tx_enabled = tx_enabled snap, st_transmitting = transmitting snap,
       st_decoding = decoding snap, st_rx_df = 0, st_tx_df = tx_df_hz snap, st_de_call = id_de_call ids,
       st_de_grid = id_de_grid ids, st_dx_grid = [], st_tx_watchdog = False, st_sub_mode = [], st_fast_mode = False,
       st_special_operation_mode = 0, st_frequency_tolerance = - 1, st_tr_period = - 1,
       st_configuration_name = ''Default'', st_tx_message = [] \<rparr>"

section \<open>Decodes\<close>

text \<open>The fields of a decoded message the component reads. The time offset is only passed on, so it is kept as its bits;
  the signal-to-noise ratio and the frequency offset are finite.\<close>

record decoded_message =
  dm_text :: string
  dm_snr_db :: rat
  dm_frequency_offset :: rat
  dm_time_offset :: u64
  dm_timestamp :: int
  dm_slot_parity :: "slot_parity option"
  dm_captured_dial_hz :: "nat option"

definition time_ms_since_midnight_utc :: "int \<Rightarrow> u32" where
  "time_ms_since_midnight_utc t =
     of_int (t div 1000000000 mod 86400) * 1000 + of_int (t mod 1000000000 div 1000000)"

text \<open>\<open>f32::round\<close> rounds halves away from zero; \<open>as i32\<close> and \<open>as u32\<close> saturate, the latter after truncation.\<close>

definition round_as_i32 :: "rat \<Rightarrow> int" where
  "round_as_i32 x = max (- (2 ^ 31)) (min (2 ^ 31 - 1) (if 0 \<le> x then \<lfloor>x + 1 / 2\<rfloor> else - \<lfloor>- x + 1 / 2\<rfloor>))"

definition rat_as_u32 :: "rat \<Rightarrow> u32" where
  "rat_as_u32 x = of_int (max 0 (min (2 ^ 32 - 1) \<lfloor>x\<rfloor>))"

definition decode_to_msg :: "decoded_message \<Rightarrow> operating_mode \<Rightarrow> out_msg option" where
  "decode_to_msg d md =
     (if md \<noteq> Mode_Ft8 then None
      else Some (Out_Decode
        \<lparr> dc_new = True, dc_time_ms = time_ms_since_midnight_utc (dm_timestamp d), dc_snr = round_as_i32 (dm_snr_db d),
          dc_delta_time = dm_time_offset d, dc_delta_freq = rat_as_u32 (dm_frequency_offset d), dc_mode = ''~'',
          dc_message = dm_text d, dc_low_confidence = False, dc_off_air = False \<rparr>))"

record stored_key =
  sk_time_ms :: u32
  sk_delta_freq :: u32
  sk_message :: string
  sk_slot_parity :: "slot_parity option"

fun stored_key_of :: "out_msg \<Rightarrow> slot_parity option \<Rightarrow> stored_key option" where
  "stored_key_of (Out_Decode d) parity = Some
     \<lparr> sk_time_ms = dc_time_ms d, sk_delta_freq = dc_delta_freq d, sk_message = dc_message d, sk_slot_parity = parity \<rparr>"
| "stored_key_of _ parity = None"

type_synonym decode_ring = "(out_msg \<times> stored_key) list"

definition DECODE_RING_CAPACITY :: nat where "DECODE_RING_CAPACITY = 500"

text \<open>\<open>while ring.len() > cap { ring.pop_front() }\<close>.\<close>

fun pop_to :: "nat \<Rightarrow> 'a list \<Rightarrow> 'a list" where
  "pop_to cap [] = []"
| "pop_to cap (x # xs) = (if cap < length (x # xs) then pop_to cap xs else x # xs)"

definition push_decode_ring :: "decode_ring \<Rightarrow> out_msg \<times> stored_key \<Rightarrow> nat \<Rightarrow> decode_ring" where
  "push_decode_ring ring entry cap = pop_to cap (ring @ [entry])"

definition band_of :: "u64 \<Rightarrow> u64" where "band_of dial_hz = dial_hz div 1000000"

definition band_changed :: "u64 \<Rightarrow> u64 option \<Rightarrow> u64 option" where
  "band_changed dial_hz last_band = (if last_band = Some (band_of dial_hz) then None else Some (band_of dial_hz))"

fun as_replay :: "out_msg \<Rightarrow> out_msg option" where
  "as_replay (Out_Decode d) = Some (Out_Decode (d \<lparr> dc_new := False \<rparr>))"
| "as_replay _ = None"

section \<open>The request to call a station\<close>

definition AUDIO_PASSBAND_MIN_HZ :: nat where "AUDIO_PASSBAND_MIN_HZ = 200"
definition AUDIO_PASSBAND_MAX_HZ :: nat where "AUDIO_PASSBAND_MAX_HZ = 3000"

record call_intent =
  ci_callsign :: string
  ci_frequency_hz :: nat
  ci_is_cq :: bool
  ci_dx_parity :: "slot_parity option"

text \<open>\<open>words.join(" ")\<close>.\<close>

fun join_words :: "string list \<Rightarrow> string" where
  "join_words [] = []"
| "join_words [w] = w"
| "join_words (w # ws) = w @ '' '' @ join_words ws"

definition normalize_qrz :: "string \<Rightarrow> string" where
  "normalize_qrz message =
     (let rest = join_words (drop 1 (split_whitespace message)) in if rest = [] then ''CQ'' else ''CQ '' @ rest)"

definition parse_cq_caller :: "string \<Rightarrow> (string \<times> bool) option" where
  "parse_cq_caller message =
     (case split_whitespace message of
        [] \<Rightarrow> None
      | word # _ \<Rightarrow>
          (let is_cq = (word = ''CQ'' \<or> word = ''QRZ'');
               parsed = (if word = ''QRZ'' then from_text (normalize_qrz message) else from_text message)
           in map_option (\<lambda>call. (call, is_cq)) (m_from parsed)))"

definition key_matches :: "reply_msg \<Rightarrow> stored_key \<Rightarrow> bool" where
  "key_matches r k \<longleftrightarrow> sk_time_ms k = rp_time_ms r \<and> sk_delta_freq k = rp_delta_freq r \<and> sk_message k = rp_message r"

fun reply_to_call :: "in_msg \<Rightarrow> decode_ring \<Rightarrow> call_intent option" where
  "reply_to_call (In_Reply r) ring =
     Option.bind (find (\<lambda>(_, k). key_matches r k) ring) (\<lambda>(_, k).
       map_option (\<lambda>(call, is_cq).
         \<lparr> ci_callsign = call,
           ci_frequency_hz = max AUDIO_PASSBAND_MIN_HZ (min AUDIO_PASSBAND_MAX_HZ (unat (sk_delta_freq k))),
           ci_is_cq = is_cq, ci_dx_parity = sk_slot_parity k \<rparr>)
         (parse_cq_caller (sk_message k)))"
| "reply_to_call _ ring = None"

section \<open>Logged contacts\<close>

record qso_metadata =
  qm_our_callsign :: string
  qm_their_callsign :: "string option"
  qm_frequency :: rat
  qm_mode :: string
  qm_start_time :: int
  qm_end_time :: "int option"
  qm_report_sent :: "int option"
  qm_report_received :: "int option"
  qm_grid_ours :: "string option"
  qm_grid_theirs :: "string option"

text \<open>Instants are nanoseconds since 1970-01-01, the day \<open>719163\<close> of the common era.\<close>

definition num_days_from_ce :: "int \<Rightarrow> int" where
  "num_days_from_ce t = t div 86400000000000 + 719163"

definition unix_to_jdn :: "int \<Rightarrow> u64" where
  "unix_to_jdn t = of_int (num_days_from_ce t + 1721425)"

definition qdatetime_of :: "int \<Rightarrow> qdatetime_utc" where
  "qdatetime_of t = (unix_to_jdn t, time_ms_since_midnight_utc t)"

definition format_signal_report :: "int option \<Rightarrow> string" where
  "format_signal_report r = (case r of Some v \<Rightarrow> plus03 v | None \<Rightarrow> [])"

definition rat_as_u64 :: "rat \<Rightarrow> u64" where
  "rat_as_u64 x = of_int (max 0 (min (2 ^ 64 - 1) \<lfloor>x\<rfloor>))"

definition str_or_default :: "string option \<Rightarrow> string" where
  "str_or_default s = (case s of Some x \<Rightarrow> x | None \<Rightarrow> [])"

definition qso_to_msgs :: "qso_metadata \<Rightarrow> nat \<Rightarrow> string \<Rightarrow> out_msg \<times> out_msg" where
  "qso_to_msgs q station_power_watts adif_record =
     (Out_QsoLogged
        \<lparr> ql_date_time_off = qdatetime_of (case qm_end_time q of Some t \<Rightarrow> t | None \<Rightarrow> qm_start_time q),
          ql_dx_call = str_or_default (qm_their_callsign q), ql_dx_grid = str_or_default (qm_grid_theirs q),
          ql_tx_frequency = rat_as_u64 (qm_frequency q), ql_mode = qm_mode q,
          ql_report_sent = format_signal_report (qm_report_sent q),
          ql_report_received = format_signal_report (qm_report_received q),
          ql_tx_power = nat_to_dec station_power_watts, ql_comments = [], ql_name = [],
          ql_date_time_on = qdatetime_of (qm_start_time q), ql_operator_call = qm_our_callsign q,
          ql_my_call = qm_our_callsign q, ql_my_grid = str_or_default (qm_grid_ours q), ql_exchange_sent = [],
          ql_exchange_received = [], ql_adif_propagation_mode = [] \<rparr>,
      Out_LoggedAdif (''<adif_ver:5>3.1.0'' @ [CHR 0x0A] @ ''<programid:8>pancetta'' @ [CHR 0x0A] @ ''<EOH>'' @ [CHR 0x0A] @ adif_record))"

section \<open>Who may send requests\<close>

datatype ip_addr = V4 "32 word" | V6 "128 word"

fun is_multicast :: "ip_addr \<Rightarrow> bool" where
  "is_multicast (V4 a) \<longleftrightarrow> 224 \<le> drop_bit 24 a \<and> drop_bit 24 a \<le> 239"
| "is_multicast (V6 a) \<longleftrightarrow> drop_bit 120 a = 255"

definition is_multicast_dest :: "ip_addr \<Rightarrow> bool" where
  "is_multicast_dest dest = is_multicast dest"

text \<open>The configuration as the running task holds it. \<open>parse_ip\<close> is the address parser of the standard library.\<close>

record wsjtx_udp_config =
  multicast_interface :: string
  multicast_ttl :: u32
  instance_id :: string
  accept_udp_requests :: bool
  allowed_request_hosts :: "string list"
  udp_dest :: ip_addr
  parse_ip :: "string \<Rightarrow> ip_addr option"
  udp_ids :: station_ids
  power_watts :: nat

record multicast_opts =
  mo_ttl :: u32
  mo_interface :: "32 word option"

definition multicast_options :: "ip_addr \<Rightarrow> wsjtx_udp_config \<Rightarrow> multicast_opts option" where
  "multicast_options dest cfg =
     (case dest of
        V6 a \<Rightarrow> None
      | V4 a \<Rightarrow>
          if \<not> is_multicast dest then None
          else Some \<lparr> mo_ttl = multicast_ttl cfg,
                      mo_interface = (if multicast_interface cfg = [] then None
                                      else case parse_ip cfg (multicast_interface cfg) of Some (V4 i) \<Rightarrow> Some i | _ \<Rightarrow> None) \<rparr>)"

definition request_allowed :: "wsjtx_udp_config \<Rightarrow> ip_addr \<Rightarrow> ip_addr \<Rightarrow> bool" where
  "request_allowed cfg src dest =
     (if \<not> accept_udp_requests cfg then False
      else if is_multicast_dest dest
      then list_ex (\<lambda>host. case parse_ip cfg host of Some ip \<Rightarrow> ip = src | None \<Rightarrow> False) (allowed_request_hosts cfg)
      else src = dest)"

fun msg_type_label :: "in_msg \<Rightarrow> string" where
  "msg_type_label (In_Heartbeat _) = ''Heartbeat''"
| "msg_type_label (In_Clear _) = ''Clear''"
| "msg_type_label (In_Reply _) = ''Reply''"
| "msg_type_label In_Close = ''Close''"
| "msg_type_label In_Replay = ''Replay''"
| "msg_type_label (In_HaltTx _) = ''HaltTx''"
| "msg_type_label (In_Other t) = ''Other('' @ nat_to_dec (unat t) @ '')''"

section \<open>The task\<close>

datatype udp_diag =
    Refused_Request string
  | Halt_Honored bool
  | Replay_Honored
  | Reply_Unmatched
  | Reply_Refused string bool bool
  | Reply_Refused_By_Policy string tx_policy
  | Reply_Calling string

text \<open>What a turn does: a datagram to the companion programs (it is sent as \<open>out_encode m (instance_id cfg)\<close>), a retained
  diagnostic for the operator, the flag that stops the transmission in progress, and messages to the QSO engine.\<close>

datatype wsjtx_out =
    Sent out_msg
  | Diagnostic udp_diag
  | Abort_Current_Tx
  | Cancel_All_Qsos
  | Request qso_bus_message

record wsjtx_task =
  decode_ring :: decode_ring
  last_band :: "u64 option"
  last_status :: bytes
  qso_events_open :: bool

text \<open>What a turn may receive. A completed contact comes with the ADIF record rendered from it, if it could be rendered; a
  datagram with the address it came from and whether the bus takes the messages it leads to.\<close>

datatype wsjtx_event =
    Decode_Arrived decoded_message
  | Other_Bus_Message
  | Heartbeat_Tick
  | Status_Tick
  | Datagram bytes ip_addr bool
  | Qso_Completed qso_metadata "string option"
  | Other_Qso_Event
  | Qso_Events_Lagged
  | Qso_Events_Closed

definition HEARTBEAT_VERSION :: string where "HEARTBEAT_VERSION = ''2.6.1''"
definition INBOUND_BUF_LEN :: nat where "INBOUND_BUF_LEN = 2048"

abbreviation status_of :: "wsjtx_udp_config \<Rightarrow> wsjtx_state \<Rightarrow> out_msg" where
  "status_of cfg st \<equiv> build_status (sample_state st) (udp_ids cfg)"

definition wsjtx_start :: "wsjtx_udp_config \<Rightarrow> wsjtx_state \<Rightarrow> bool \<Rightarrow> wsjtx_task \<times> wsjtx_out list" where
  "wsjtx_start cfg st wired =
     (\<lparr> decode_ring = [], last_band = Some (band_of (operating_frequency_hz st)),
        last_status = out_encode (status_of cfg st) (instance_id cfg), qso_events_open = wired \<rparr>,
      [Sent (status_of cfg st)])"

definition take_decode :: "wsjtx_state \<Rightarrow> decoded_message \<Rightarrow> wsjtx_task \<Rightarrow> wsjtx_task \<times> wsjtx_out list" where
  "take_decode st d t =
     (if is_stale_band_decode (dm_captured_dial_hz d) (unat (operating_frequency_hz st)) then (t, [])
      else case decode_to_msg d (mode_from_u8 (active_protocol_mode st)) of
             None \<Rightarrow> (t, [])
           | Some out \<Rightarrow>
               (case stored_key_of out (dm_slot_parity d) of
                  Some key \<Rightarrow> t \<lparr> decode_ring := push_decode_ring (decode_ring t) (out, key) DECODE_RING_CAPACITY \<rparr>
                | None \<Rightarrow> t, [Sent out]))"

text \<open>The clearing of the ring on a change of band, shared by the two timers.\<close>

definition sample_band :: "wsjtx_state \<Rightarrow> wsjtx_task \<Rightarrow> wsjtx_task \<times> wsjtx_out list" where
  "sample_band st t =
     (case band_changed (operating_frequency_hz st) (last_band t) of
        Some band \<Rightarrow> (t \<lparr> last_band := Some band, decode_ring := [] \<rparr>, [Sent Out_Clear])
      | None \<Rightarrow> (t, []))"

definition heartbeat_tick :: "wsjtx_udp_config \<Rightarrow> wsjtx_state \<Rightarrow> wsjtx_task \<Rightarrow> wsjtx_task \<times> wsjtx_out list" where
  "heartbeat_tick cfg st t =
     (let hb = Out_Heartbeat \<lparr> hb_max_schema = 3, hb_version = HEARTBEAT_VERSION, hb_revision = [] \<rparr>;
          (t, cleared) = sample_band st t
      in (t \<lparr> last_status := out_encode (status_of cfg st) (instance_id cfg) \<rparr>,
          [Sent hb] @ cleared @ [Sent (status_of cfg st)]))"

definition status_tick :: "wsjtx_udp_config \<Rightarrow> wsjtx_state \<Rightarrow> wsjtx_task \<Rightarrow> wsjtx_task \<times> wsjtx_out list" where
  "status_tick cfg st t =
     (let (t, cleared) = sample_band st t; encoded = out_encode (status_of cfg st) (instance_id cfg)
      in if encoded \<noteq> last_status t
         then (t \<lparr> last_status := encoded \<rparr>, cleared @ [Sent (status_of cfg st)])
         else (t, cleared))"

definition handle_reply :: "wsjtx_state \<Rightarrow> in_msg \<Rightarrow> bool \<Rightarrow> decode_ring \<Rightarrow> wsjtx_out list" where
  "handle_reply st reply delivered ring =
     (case reply_to_call reply ring of
        None \<Rightarrow> [Diagnostic Reply_Unmatched]
      | Some intent \<Rightarrow>
          if \<not> live_consent st \<or> \<not> ci_is_cq intent
          then [Diagnostic (Reply_Refused (ci_callsign intent) (live_consent st) (ci_is_cq intent))]
          else (let policy = policy_from_u8 (tx_policy_atomic st) in
                if \<not> allows_initiation policy
                then [Diagnostic (Reply_Refused_By_Policy (ci_callsign intent) policy)]
                else Request (StartQso (ci_callsign intent) (ci_frequency_hz intent) (ci_dx_parity intent) True None)
                     # (if delivered then [Diagnostic (Reply_Calling (ci_callsign intent))] else [])))"

definition handle_request :: "wsjtx_udp_config \<Rightarrow> wsjtx_state \<Rightarrow> in_msg \<Rightarrow> bool \<Rightarrow> wsjtx_task \<Rightarrow> wsjtx_task \<times> wsjtx_out list" where
  "handle_request cfg st msg delivered t =
     (case msg of
        In_HaltTx auto_tx_only \<Rightarrow>
          (t, [Abort_Current_Tx] @ (if \<not> auto_tx_only then [Cancel_All_Qsos, Request Qso_StopCq] else []) @
              [Diagnostic (Halt_Honored auto_tx_only)])
      | In_Replay \<Rightarrow>
          (t \<lparr> last_status := out_encode (status_of cfg st) (instance_id cfg) \<rparr>,
           map Sent (List.map_filter (\<lambda>(out, _). as_replay out) (decode_ring t)) @
           [Sent (status_of cfg st), Diagnostic Replay_Honored])
      | In_Reply r \<Rightarrow> (t, handle_reply st msg delivered (decode_ring t))
      | _ \<Rightarrow> (t, []))"

definition take_datagram :: "wsjtx_udp_config \<Rightarrow> wsjtx_state \<Rightarrow> bytes \<Rightarrow> ip_addr \<Rightarrow> bool \<Rightarrow> wsjtx_task \<Rightarrow> wsjtx_task \<times> wsjtx_out list" where
  "take_datagram cfg st buf from' delivered t =
     (case in_decode (take INBOUND_BUF_LEN buf) of
        None \<Rightarrow> (t, [])
      | Some (id', msg) \<Rightarrow>
          if id' \<noteq> instance_id cfg then (t, [])
          else if \<not> request_allowed cfg from' (udp_dest cfg) then (t, [Diagnostic (Refused_Request (msg_type_label msg))])
          else handle_request cfg st msg delivered t)"

fun wsjtx_turn :: "wsjtx_udp_config \<Rightarrow> wsjtx_state \<Rightarrow> wsjtx_event \<Rightarrow> wsjtx_task \<Rightarrow> wsjtx_task \<times> wsjtx_out list" where
  "wsjtx_turn cfg st (Decode_Arrived d) t = take_decode st d t"
| "wsjtx_turn cfg st Other_Bus_Message t = (t, [])"
| "wsjtx_turn cfg st Heartbeat_Tick t = heartbeat_tick cfg st t"
| "wsjtx_turn cfg st Status_Tick t = status_tick cfg st t"
| "wsjtx_turn cfg st (Datagram buf from' delivered) t = take_datagram cfg st buf from' delivered t"
| "wsjtx_turn cfg st (Qso_Completed q rendered) t =
     (if \<not> qso_events_open t then (t, [])
      else case rendered of
             Some record' \<Rightarrow> (case qso_to_msgs q (power_watts cfg) record' of (logged, adif) \<Rightarrow> (t, [Sent logged, Sent adif]))
           | None \<Rightarrow> (t, []))"
| "wsjtx_turn cfg st Other_Qso_Event t = (t, [])"
| "wsjtx_turn cfg st Qso_Events_Lagged t = (t, [])"
| "wsjtx_turn cfg st Qso_Events_Closed t = (t \<lparr> qso_events_open := False \<rparr>, [])"

definition wsjtx_step :: "wsjtx_udp_config \<Rightarrow> wsjtx_task \<Rightarrow> wsjtx_state \<times> wsjtx_event \<Rightarrow> wsjtx_task \<times> wsjtx_out list" where
  "wsjtx_step cfg t e = wsjtx_turn cfg (fst e) (snd e) t"

text \<open>A whole run: the start, the turns, and the farewell when the task is shut down.\<close>

definition wsjtx_session :: "wsjtx_udp_config \<Rightarrow> wsjtx_state \<Rightarrow> bool \<Rightarrow> (wsjtx_state \<times> wsjtx_event) list \<Rightarrow> wsjtx_task \<times> wsjtx_out list" where
  "wsjtx_session cfg st wired es =
     (let (t, out0) = wsjtx_start cfg st wired; (t', outs) = run (wsjtx_step cfg) t es in (t', out0 @ outs))"

definition wsjtx_outputs :: "wsjtx_udp_config \<Rightarrow> wsjtx_state \<Rightarrow> bool \<Rightarrow> (wsjtx_state \<times> wsjtx_event) list \<Rightarrow> wsjtx_out list" where
  "wsjtx_outputs cfg st wired es = snd (wsjtx_session cfg st wired es) @ [Sent Out_Close]"

section \<open>What the companion programs were told\<close>

text \<open>A relation between the state of a machine and everything it has put out, kept by every step.\<close>

locale traced_machine =
  fixes step :: "'s \<Rightarrow> 'e \<Rightarrow> 's \<times> 'o list" and tr :: "'s \<Rightarrow> 'o list \<Rightarrow> bool"
  assumes tr_step: "tr s outs \<Longrightarrow> tr (fst (step s e)) (outs @ snd (step s e))"
begin

lemma tr_run: "tr s outs \<Longrightarrow> tr (fst (run step s es)) (outs @ snd (run step s es))"
proof (induction es arbitrary: s outs)
  case (Cons e es)
  obtain s1 o1 where e: "step s e = (s1, o1)" by fastforce
  have "tr s1 (outs @ o1)" using tr_step [OF Cons(2), of e] e by simp
  from Cons(1) [OF this] show ?case by (simp add: e case_prod_unfold Let_def)
qed simp

end

text \<open>The decodes announced since the last \<open>Clear\<close>, and the status announced last.\<close>

fun hear :: "wsjtx_out \<Rightarrow> out_msg list \<Rightarrow> out_msg list" where
  "hear (Sent (Out_Decode d)) ds = (if dc_new d then ds @ [Out_Decode d] else ds)"
| "hear (Sent Out_Clear) ds = []"
| "hear _ ds = ds"

definition decodes_since_clear :: "wsjtx_out list \<Rightarrow> out_msg list" where
  "decodes_since_clear outs = fold hear outs []"

fun status_seen :: "wsjtx_out \<Rightarrow> out_msg option \<Rightarrow> out_msg option" where
  "status_seen (Sent (Out_Status s)) _ = Some (Out_Status s)"
| "status_seen _ m = m"

definition latest_status :: "wsjtx_out list \<Rightarrow> out_msg option" where
  "latest_status outs = fold status_seen outs None"

definition last_of :: "nat \<Rightarrow> 'a list \<Rightarrow> 'a list" where
  "last_of n xs = drop (length xs - n) xs"

text \<open>A retained entry is a new decode with its own key.\<close>

fun own_key :: "out_msg \<times> stored_key \<Rightarrow> bool" where
  "own_key (Out_Decode d, k) \<longleftrightarrow> dc_new d \<and> stored_key_of (Out_Decode d) (sk_slot_parity k) = Some k"
| "own_key _ \<longleftrightarrow> False"

definition told :: "wsjtx_udp_config \<Rightarrow> wsjtx_task \<Rightarrow> wsjtx_out list \<Rightarrow> bool" where
  "told cfg t outs \<longleftrightarrow>
     map fst (decode_ring t) = last_of DECODE_RING_CAPACITY (decodes_since_clear outs) \<and>
     list_all own_key (decode_ring t) \<and>
     (\<exists>st. latest_status outs = Some (status_of cfg st) \<and> last_status t = out_encode (status_of cfg st) (instance_id cfg))"

lemma pop_to_drop: "pop_to cap xs = drop (length xs - cap) xs"
  by (induction xs) (auto simp: Suc_diff_le not_less)

lemma last_of_snoc: "0 < n \<Longrightarrow> last_of n (last_of n xs @ [x]) = last_of n (xs @ [x])"
  by (cases "length xs < n") (auto simp: last_of_def Suc_diff_le not_less)

lemma set_last_of: "set (last_of n xs) \<subseteq> set xs"
  by (simp add: last_of_def set_drop_subset)

lemma told_append [simp]:
  "decodes_since_clear (outs @ os) = fold hear os (decodes_since_clear outs)"
  "latest_status (outs @ os) = fold status_seen os (latest_status outs)"
  by (simp_all add: decodes_since_clear_def latest_status_def)

lemma told_decode:
  assumes "told cfg t outs"
  shows "told cfg (fst (take_decode st d t)) (outs @ snd (take_decode st d t))"
proof -
  let ?ds = "decodes_since_clear outs"
  have push: "map fst (push_decode_ring (decode_ring t) (m, k) DECODE_RING_CAPACITY) = last_of DECODE_RING_CAPACITY (?ds @ [m])" for m k
  proof -
    have "map fst (push_decode_ring (decode_ring t) (m, k) DECODE_RING_CAPACITY) =
        last_of DECODE_RING_CAPACITY (map fst (decode_ring t) @ [m])"
      by (simp add: push_decode_ring_def pop_to_drop last_of_def flip: drop_map del: drop_append)
    then show ?thesis using assms by (simp add: told_def last_of_snoc DECODE_RING_CAPACITY_def)
  qed
  have own: "list_all own_key (push_decode_ring (decode_ring t) e DECODE_RING_CAPACITY)" if "own_key e" for e
    using that assms by (auto simp: told_def push_decode_ring_def pop_to_drop list_all_iff dest: in_set_dropD)
  show ?thesis using assms push own
    by (auto simp: take_decode_def told_def decode_to_msg_def)
qed

lemma told_band:
  assumes "told cfg t outs"
  shows "told cfg (fst (sample_band st t)) (outs @ snd (sample_band st t))"
  using assms by (auto simp: sample_band_def told_def last_of_def split: option.splits)

text \<open>Sending the current status and recording it.\<close>

lemma told_status:
  assumes "told cfg t outs"
  shows "told cfg (t \<lparr> last_status := out_encode (status_of cfg st) (instance_id cfg) \<rparr>) (outs @ [Sent (status_of cfg st)])"
proof -
  have "status_seen (Sent (status_of cfg st)) m = Some (status_of cfg st)" "hear (Sent (status_of cfg st)) ds = ds" for m ds
    by (simp_all add: build_status_def)
  then show ?thesis using assms by (auto simp: told_def)
qed

lemma told_quiet:
  assumes "told cfg t outs" and "\<forall>o' \<in> set os. \<forall>ds m. hear o' ds = ds \<and> status_seen o' m = m"
  shows "told cfg t (outs @ os)"
proof -
  have "fold hear os ds = ds" "fold status_seen os m = m" for ds m using assms(2)
    by (induction os arbitrary: ds m) auto
  then show ?thesis using assms(1) by (simp add: told_def)
qed

lemma told_heartbeat:
  assumes "told cfg t outs"
  shows "told cfg (fst (heartbeat_tick cfg st t)) (outs @ snd (heartbeat_tick cfg st t))"
proof -
  let ?hb = "Sent (Out_Heartbeat \<lparr> hb_max_schema = 3, hb_version = HEARTBEAT_VERSION, hb_revision = [] \<rparr>)"
  have "told cfg t (outs @ [?hb])" by (rule told_quiet [OF assms]) simp
  from told_status [OF told_band [OF this, of st], of st]
  show ?thesis by (simp add: heartbeat_tick_def Let_def case_prod_unfold del: told_append)
qed

lemma told_tick:
  assumes "told cfg t outs"
  shows "told cfg (fst (status_tick cfg st t)) (outs @ snd (status_tick cfg st t))"
  using told_band [OF assms, of st] told_status [OF told_band [OF assms, of st], of st]
  by (auto simp: status_tick_def Let_def case_prod_unfold simp del: told_append)

lemma replays_quiet: "o' \<in> set (map Sent (List.map_filter (\<lambda>(out, _). as_replay out) ring)) \<Longrightarrow> hear o' ds = ds \<and> status_seen o' m = m"
proof -
  have "hear (Sent x) ds = ds \<and> status_seen (Sent x) m = m" if "as_replay y = Some x" for x y using that by (cases y) auto
  moreover assume "o' \<in> set (map Sent (List.map_filter (\<lambda>(out, _). as_replay out) ring))"
  ultimately show ?thesis by (force simp: List.map_filter_def split: prod.splits)
qed

lemma handle_reply_quiet: "o' \<in> set (handle_reply st r d ring) \<Longrightarrow> hear o' ds = ds \<and> status_seen o' m = m"
  by (auto simp: handle_reply_def Let_def split: option.splits if_splits)

lemma told_request:
  assumes "told cfg t outs"
  shows "told cfg (fst (handle_request cfg st msg d t)) (outs @ snd (handle_request cfg st msg d t))"
proof (cases msg)
  case In_Replay
  let ?rs = "map Sent (List.map_filter (\<lambda>(out, _). as_replay out) (decode_ring t))"
  have "told cfg t (outs @ ?rs)" using told_quiet [OF assms] replays_quiet by metis
  from told_quiet [OF told_status [OF this, of st], of "[Diagnostic Replay_Honored]"]
  show ?thesis by (simp add: handle_request_def In_Replay del: told_append)
next
  case (In_Reply r)
  then show ?thesis using told_quiet [OF assms, of "handle_reply st msg d (decode_ring t)"] handle_reply_quiet
    by (simp add: handle_request_def del: told_append)
next
  case (In_HaltTx b)
  show ?thesis using assms by (simp add: handle_request_def In_HaltTx told_def)
qed (use assms in \<open>simp_all add: handle_request_def\<close>)

lemma told_datagram:
  assumes "told cfg t outs"
  shows "told cfg (fst (take_datagram cfg st buf src d t)) (outs @ snd (take_datagram cfg st buf src d t))"
  using assms told_request [OF assms] told_quiet [OF assms, of "[Diagnostic (Refused_Request l)]" for l]
  by (auto simp: take_datagram_def split: option.splits simp del: told_append)

interpretation companions: traced_machine "wsjtx_step cfg" "told cfg" for cfg
proof
  fix t outs e
  assume t: "told cfg t outs"
  show "told cfg (fst (wsjtx_step cfg t e)) (outs @ snd (wsjtx_step cfg t e))"
  proof (cases "snd e")
    case (Qso_Completed q r)
    then show ?thesis using t by (auto simp: wsjtx_step_def told_def qso_to_msgs_def split: option.splits)
  next
    case Qso_Events_Closed
    then show ?thesis using t by (simp add: wsjtx_step_def told_def)
  qed (use t told_decode told_heartbeat told_tick told_datagram in \<open>simp_all add: wsjtx_step_def del: told_append\<close>)
qed

lemma told_session:
  assumes "wsjtx_session cfg st wired es = (t, outs)"
  shows "told cfg t outs"
proof -
  have "told cfg (fst (wsjtx_start cfg st wired)) (snd (wsjtx_start cfg st wired))"
    by (auto simp: wsjtx_start_def told_def decodes_since_clear_def latest_status_def last_of_def build_status_def)
  from companions.tr_run [OF this, of es] show ?thesis
    using assms by (auto simp: wsjtx_session_def Let_def case_prod_unfold simp del: told_append)
qed

section \<open>Properties\<close>

text \<open>Only the handler of an addressed, allowed request acts on the station.\<close>

fun acts :: "wsjtx_out \<Rightarrow> bool" where
  "acts (Sent _) \<longleftrightarrow> False"
| "acts (Diagnostic _) \<longleftrightarrow> False"
| "acts _ \<longleftrightarrow> True"

lemma acting_datagram:
  assumes "o' \<in> set (snd (wsjtx_step cfg t (st, ev)))" and "acts o'"
  obtains buf src d msg where "ev = Datagram buf src d" and "in_decode (take INBOUND_BUF_LEN buf) = Some (instance_id cfg, msg)"
    and "request_allowed cfg src (udp_dest cfg)" and "o' \<in> set (snd (handle_request cfg st msg d t))"
proof -
  have band: "acts x \<Longrightarrow> x \<notin> set (snd (sample_band st t))" for x
    by (auto simp: sample_band_def split: option.splits)
  show ?thesis
  proof (cases ev)
    case (Datagram buf src d)
    then show ?thesis using assms that by (auto simp: wsjtx_step_def take_datagram_def split: option.splits if_splits)
  next
    case (Decode_Arrived dm)
    then show ?thesis using assms by (auto simp: wsjtx_step_def take_decode_def split: option.splits if_splits)
  next
    case Heartbeat_Tick
    then show ?thesis using assms band by (auto simp: wsjtx_step_def heartbeat_tick_def Let_def split: prod.splits)
  next
    case Status_Tick
    then show ?thesis using assms band by (auto simp: wsjtx_step_def status_tick_def Let_def split: prod.splits if_splits)
  next
    case (Qso_Completed q r)
    then show ?thesis using assms by (auto simp: wsjtx_step_def qso_to_msgs_def split: option.splits if_splits)
  qed (use assms in \<open>simp_all add: wsjtx_step_def\<close>)
qed

lemma requested_contact:
  assumes "Request (StartQso call f par remote key) \<in> set (snd (handle_request cfg st msg d t))"
  obtains r k m where "msg = In_Reply r" and "(m, k) \<in> set (decode_ring t)" and "key_matches r k"
    and "live_consent st" and "allows_initiation (policy_from_u8 (tx_policy_atomic st))"
    and "parse_cq_caller (sk_message k) = Some (call, True)" and "remote" and "key = None" and "par = sk_slot_parity k"
    and "f = max AUDIO_PASSBAND_MIN_HZ (min AUDIO_PASSBAND_MAX_HZ (unat (sk_delta_freq k)))"
proof (cases msg)
  case (In_Reply r)
  then have "Request (StartQso call f par remote key) \<in> set (handle_reply st msg d (decode_ring t))"
    using assms by (simp add: handle_request_def)
  then obtain intent where i: "reply_to_call msg (decode_ring t) = Some intent" "live_consent st" "ci_is_cq intent"
      "allows_initiation (policy_from_u8 (tx_policy_atomic st))" "call = ci_callsign intent" "f = ci_frequency_hz intent"
      "par = ci_dx_parity intent" "remote" "key = None"
    by (auto simp: handle_reply_def Let_def split: option.splits if_splits)
  from i(1) In_Reply obtain m k c q where k: "find (\<lambda>(_, k). key_matches r k) (decode_ring t) = Some (m, k)"
      "parse_cq_caller (sk_message k) = Some (c, q)"
      "intent = \<lparr> ci_callsign = c, ci_frequency_hz = max AUDIO_PASSBAND_MIN_HZ (min AUDIO_PASSBAND_MAX_HZ (unat (sk_delta_freq k))),
         ci_is_cq = q, ci_dx_parity = sk_slot_parity k \<rparr>"
    by (auto simp: Option.bind_eq_Some_conv)
  then have "(m, k) \<in> set (decode_ring t)" "key_matches r k"
    by (metis find_Some_iff nth_mem) (use k(1) in \<open>auto simp: find_Some_iff\<close>)
  then show ?thesis using that [OF In_Reply] i k(2,3) by auto
qed (use assms in \<open>auto simp: handle_request_def split: if_splits\<close>)

lemma retained_was_told:
  assumes "told cfg t outs" and "(m, k) \<in> set (decode_ring t)"
  obtains d where "m = Out_Decode d" and "Out_Decode d \<in> set (decodes_since_clear outs)" and "dc_new d"
    and "sk_time_ms k = dc_time_ms d" and "sk_delta_freq k = dc_delta_freq d" and "sk_message k = dc_message d"
proof -
  have "own_key (m, k)" using assms by (auto simp: told_def list_all_iff)
  then obtain d where d: "m = Out_Decode d" "dc_new d" "stored_key_of (Out_Decode d) (sk_slot_parity k) = Some k"
    by (cases m) auto
  have "m \<in> set (map fst (decode_ring t))" using assms(2) by force
  then have "m \<in> set (decodes_since_clear outs)" using assms(1) set_last_of by (metis (no_types) told_def subsetD)
  moreover have "sk_time_ms k = dc_time_ms d" "sk_delta_freq k = dc_delta_freq d" "sk_message k = dc_message d"
    using d(3) by (metis stored_key.simps stored_key_of.simps(1) option.inject)+
  ultimately show ?thesis using that d by simp
qed

text \<open>C5: in every run of the UDP component, a contact is requested of the QSO engine only for a datagram that is addressed
  to this instance, comes from an allowed host while requests are accepted, and echoes in text, time and frequency a
  decode the station itself announced since the last \<open>Clear\<close>, which calls CQ or QRZ; and only with this channel's
  consent on and a policy that allows initiation. The request is for the caller in that decode, inside the audio
  passband, and marked as remote with no client, so that its frames are sent only under a live arm with this channel's
  consent.\<close>

theorem udp_contacts_need_every_gate:
  assumes "wsjtx_session cfg st0 wired es = (t, outs)"
    and "Request (StartQso call f par remote key) \<in> set (snd (wsjtx_step cfg t (st, ev)))"
  shows "remote \<and> key = None \<and> 200 \<le> f \<and> f \<le> 3000 \<and> live_consent st \<and> policy_from_u8 (tx_policy_atomic st) = Full \<and>
    accept_udp_requests cfg \<and>
    (\<exists>buf src d r dc. ev = Datagram buf src d \<and> in_decode (take INBOUND_BUF_LEN buf) = Some (instance_id cfg, In_Reply r) \<and>
       request_allowed cfg src (udp_dest cfg) \<and>
       Out_Decode dc \<in> set (decodes_since_clear outs) \<and> dc_message dc = rp_message r \<and> dc_time_ms dc = rp_time_ms r \<and>
       dc_delta_freq dc = rp_delta_freq r \<and> parse_cq_caller (dc_message dc) = Some (call, True)) \<and>
    (\<forall>arm poisoned now. tx_send_authorized (if remote then Remote_Origin else Local_Origin) arm poisoned now key \<longrightarrow>
       \<not> poisoned \<and> tx_permitted arm now WsjtxUdp)"
proof -
  have told: "told cfg t outs" by (rule told_session [OF assms(1)])
  obtain buf src d msg where m: "ev = Datagram buf src d" "in_decode (take INBOUND_BUF_LEN buf) = Some (instance_id cfg, msg)"
      "request_allowed cfg src (udp_dest cfg)" "Request (StartQso call f par remote key) \<in> set (snd (handle_request cfg st msg d t))"
    by (rule acting_datagram [OF assms(2)]) auto
  obtain r k mm where r: "msg = In_Reply r" "(mm, k) \<in> set (decode_ring t)" "key_matches r k" "live_consent st"
      "allows_initiation (policy_from_u8 (tx_policy_atomic st))" "parse_cq_caller (sk_message k) = Some (call, True)"
      "remote" "key = None" "f = max AUDIO_PASSBAND_MIN_HZ (min AUDIO_PASSBAND_MAX_HZ (unat (sk_delta_freq k)))"
    using requested_contact [OF m(4)] by metis
  obtain dc where dc: "Out_Decode dc \<in> set (decodes_since_clear outs)" "sk_time_ms k = dc_time_ms dc"
      "sk_delta_freq k = dc_delta_freq dc" "sk_message k = dc_message dc"
    using retained_was_told [OF told r(2)] by metis
  have "policy_from_u8 (tx_policy_atomic st) = Full" using r(5) by (cases "policy_from_u8 (tx_policy_atomic st)") auto
  moreover have "accept_udp_requests cfg" using m(3) by (auto simp: request_allowed_def split: if_splits)
  moreover have "200 \<le> f" "f \<le> 3000" using r(9) by (auto simp: AUDIO_PASSBAND_MIN_HZ_def AUDIO_PASSBAND_MAX_HZ_def)
  moreover have "\<exists>buf src d r dc. ev = Datagram buf src d \<and> in_decode (take INBOUND_BUF_LEN buf) = Some (instance_id cfg, In_Reply r) \<and>
       request_allowed cfg src (udp_dest cfg) \<and>
       Out_Decode dc \<in> set (decodes_since_clear outs) \<and> dc_message dc = rp_message r \<and> dc_time_ms dc = rp_time_ms r \<and>
       dc_delta_freq dc = rp_delta_freq r \<and> parse_cq_caller (dc_message dc) = Some (call, True)"
    using m r(1,3,6) dc unfolding key_matches_def by metis
  ultimately show ?thesis using r(4,7,8)
    by (auto simp: tx_send_authorized_def remote_tx_permitted_for_def split: if_splits)
qed

text \<open>A datagram that is undecodable, addressed to another instance, or from a host the configuration does not allow
  changes nothing and does nothing but leave a refusal in the operator's diagnostics; with requests switched off, or an empty
  list of hosts on a multicast group, that is every datagram.\<close>

theorem udp_requests_fail_closed:
  assumes "(case in_decode (take INBOUND_BUF_LEN buf) of Some (id', _) \<Rightarrow> id' \<noteq> instance_id cfg | None \<Rightarrow> True) \<or>
    \<not> accept_udp_requests cfg \<or> is_multicast_dest (udp_dest cfg) \<and> allowed_request_hosts cfg = [] \<or>
    \<not> is_multicast_dest (udp_dest cfg) \<and> src \<noteq> udp_dest cfg \<or> \<not> request_allowed cfg src (udp_dest cfg)"
  shows "\<exists>label. fst (wsjtx_step cfg t (st, Datagram buf src d)) = t \<and>
    set (snd (wsjtx_step cfg t (st, Datagram buf src d))) \<subseteq> {Diagnostic (Refused_Request label)}"
proof -
  have "(case in_decode (take INBOUND_BUF_LEN buf) of Some (id', _) \<Rightarrow> id' \<noteq> instance_id cfg | None \<Rightarrow> True) \<or>
      \<not> request_allowed cfg src (udp_dest cfg)" using assms by (auto simp: request_allowed_def)
  then show ?thesis by (auto simp: wsjtx_step_def take_datagram_def split: option.splits)
qed

text \<open>The request to halt stops the transmission in progress whatever its flag, and unless it asks only for automatic
  transmission to end, cancels every contact and the calling of CQ.\<close>

theorem halt_request_always_stops:
  assumes "in_decode (take INBOUND_BUF_LEN buf) = Some (instance_id cfg, In_HaltTx auto_only)"
    and "request_allowed cfg src (udp_dest cfg)"
  shows "Abort_Current_Tx \<in> set (snd (wsjtx_step cfg t (st, Datagram buf src d))) \<and>
    (\<not> auto_only \<longrightarrow> Cancel_All_Qsos \<in> set (snd (wsjtx_step cfg t (st, Datagram buf src d))) \<and>
       Request Qso_StopCq \<in> set (snd (wsjtx_step cfg t (st, Datagram buf src d))))"
  using assms by (simp add: wsjtx_step_def take_datagram_def handle_request_def)

text \<open>The decodes a replay repeats: all that were announced since the last \<open>Clear\<close>, at most the latest 500, each once, in the
  order they were announced, no longer marked as new.\<close>

fun not_new :: "out_msg \<Rightarrow> out_msg" where
  "not_new (Out_Decode d) = Out_Decode (d \<lparr> dc_new := False \<rparr>)"
| "not_new m = m"

lemma replays_of_own: "list_all own_key ring \<Longrightarrow> List.map_filter (\<lambda>(out, _). as_replay out) ring = map not_new (map fst ring)"
proof (induction ring)
  case (Cons e ring)
  obtain m k where e: "e = (m, k)" by fastforce
  then obtain d where "m = Out_Decode d" using Cons(2) by (cases m) auto
  then show ?case using Cons e by (simp add: List.map_filter_simps)
qed (simp add: List.map_filter_simps)

text \<open>C15: after any run, an allowed request for a replay is answered with exactly the decodes the companion programs were told
  since the last \<open>Clear\<close> (the latest 500 of them, in order, each once, no longer new) and then the current status.\<close>

theorem replay_repeats_what_was_told:
  assumes "wsjtx_session cfg st0 wired es = (t, outs)"
    and "in_decode (take INBOUND_BUF_LEN buf) = Some (instance_id cfg, In_Replay)"
    and "request_allowed cfg src (udp_dest cfg)"
  shows "snd (wsjtx_step cfg t (st, Datagram buf src d)) =
    map Sent (map not_new (last_of 500 (decodes_since_clear outs))) @ [Sent (status_of cfg st), Diagnostic Replay_Honored]"
proof -
  have "told cfg t outs" by (rule told_session [OF assms(1)])
  then have "List.map_filter (\<lambda>(out, _). as_replay out) (decode_ring t) = map not_new (last_of 500 (decodes_since_clear outs))"
    using replays_of_own [of "decode_ring t"] by (simp add: told_def DECODE_RING_CAPACITY_def del: map_map)
  then show ?thesis using assms(2,3) by (simp add: wsjtx_step_def take_datagram_def handle_request_def)
qed

definition fits_config :: "wsjtx_udp_config \<Rightarrow> bool" where
  "fits_config cfg \<longleftrightarrow> fits_utf8 (instance_id cfg) \<and> fits_utf8 (id_de_call (udp_ids cfg)) \<and> fits_utf8 (id_de_grid (udp_ids cfg))"

lemma fits_status: "fits_config cfg \<Longrightarrow> fits_out (status_of cfg st)"
  by (cases "mode_from_u8 (active_protocol_mode st)")
     (simp_all add: fits_config_def build_status_def sample_state_def fits_ascii)

text \<open>After every heartbeat and every status sample the status the companion programs last received is the current one,
  although it is repeated only when it changed; and it was announced before anything else.\<close>

theorem companions_see_the_current_status:
  assumes "fits_config cfg" and "ev = Heartbeat_Tick \<or> ev = Status_Tick"
    and "wsjtx_session cfg st0 wired (es @ [(st, ev)]) = (t, outs)"
  shows "latest_status outs = Some (status_of cfg st) \<and> hd outs = Sent (status_of cfg st0)"
proof -
  obtain t1 outs1 where s1: "wsjtx_session cfg st0 wired es = (t1, outs1)" by fastforce
  then have step: "t = fst (wsjtx_step cfg t1 (st, ev))"
    using assms(3) by (auto simp: wsjtx_session_def run_append Let_def split: prod.splits)
  from told_session [OF assms(3)] obtain st' where told: "latest_status outs = Some (status_of cfg st')"
    "last_status t = out_encode (status_of cfg st') (instance_id cfg)" by (auto simp: told_def)
  have "last_status t = out_encode (status_of cfg st) (instance_id cfg)" unfolding step(1) using assms(2)
    by (auto simp: wsjtx_step_def heartbeat_tick_def status_tick_def Let_def split: prod.splits)
  then have "status_of cfg st' = status_of cfg st"
    using out_encode_inject [OF fits_status [OF assms(1)] _ fits_status [OF assms(1)], of "instance_id cfg" "instance_id cfg" st' "[]" st "[]"]
      told(2) assms(1) by (simp add: fits_config_def)
  moreover have "hd outs = Sent (status_of cfg st0)"
    using assms(3) by (auto simp: wsjtx_session_def wsjtx_start_def Let_def split: prod.splits)
  ultimately show ?thesis using told(1) by simp
qed

section \<open>Witnesses\<close>

definition demo_udp_cfg :: wsjtx_udp_config where
  "demo_udp_cfg = \<lparr> multicast_interface = [], multicast_ttl = 3, instance_id = ''pancetta'', accept_udp_requests = True,
     allowed_request_hosts = [], udp_dest = V4 0x7f000001, parse_ip = (\<lambda>_. None),
     udp_ids = \<lparr> id_de_call = ''K5ARH'', id_de_grid = ''EM10'' \<rparr>, power_watts = 100 \<rparr>"

definition demo_udp_state :: wsjtx_state where
  "demo_udp_state = \<lparr> operating_frequency_hz = 14074000, active_protocol_mode = 0, tx_offset_hold_hz = 1500,
     tx_policy_atomic = policy_as_u8 Full, ptt_active = False, last_decode_timestamp = 0, epoch_ms = 45300000,
     live_consent = True \<rparr>"

definition demo_decode :: decoded_message where
  "demo_decode = \<lparr> dm_text = ''CQ K1ABC FN42'', dm_snr_db = - 5, dm_frequency_offset = 1302, dm_time_offset = 0x3fc99999a0000000,
     dm_timestamp = 45296789000000, dm_slot_parity = Some Even, dm_captured_dial_hz = Some 14074000 \<rparr>"

definition demo_datagram :: "u32 \<Rightarrow> bytes list \<Rightarrow> bytes" where
  "demo_datagram ty body = datagram 2 ty ''pancetta'' (concat body)"

lemma length_puts [simp]:
  "length (put_u8 a) = 1" "length (put_u32 b) = 4" "length (put_i32 c) = 4" "length (put_u64 d) = 8" "length (put_f64 e) = 8"
  "length (put_bool f) = 1" "length (put_utf8 g) = 4 + length g" "length (put_qtime_ms b) = 4"
  by (simp_all add: put_u8_def put_u32_def put_i32_def put_u64_def put_f64_def put_bool_def put_utf8_def put_qtime_ms_def)

lemma demo_datagrams:
  "in_decode (take INBOUND_BUF_LEN (demo_datagram TYPE_REPLY (reply_wire cq_reply))) = Some (''pancetta'', In_Reply cq_reply)"
  "in_decode (take INBOUND_BUF_LEN (demo_datagram TYPE_REPLAY [])) = Some (''pancetta'', In_Replay)"
  "in_decode (take INBOUND_BUF_LEN (demo_datagram TYPE_HALT_TX [put_bool False])) = Some (''pancetta'', In_HaltTx False)"
proof -
  have id': "fits_utf8 ''pancetta''" by (simp add: fits_ascii)
  have f: "fits_i32 (rp_snr cq_reply)" "fits_utf8 (rp_mode cq_reply)" "fits_utf8 (rp_message cq_reply)"
    by (simp_all add: cq_reply_def fits_i32_def fits_ascii)
  have "length (demo_datagram TYPE_REPLY (reply_wire cq_reply)) \<le> INBOUND_BUF_LEN"
    "length (demo_datagram TYPE_REPLAY []) \<le> INBOUND_BUF_LEN" "length (demo_datagram TYPE_HALT_TX [put_bool False]) \<le> INBOUND_BUF_LEN"
    by (simp_all add: demo_datagram_def datagram_def reply_wire_def cq_reply_def INBOUND_BUF_LEN_def)
  then show
    "in_decode (take INBOUND_BUF_LEN (demo_datagram TYPE_REPLY (reply_wire cq_reply))) = Some (''pancetta'', In_Reply cq_reply)"
    "in_decode (take INBOUND_BUF_LEN (demo_datagram TYPE_REPLAY [])) = Some (''pancetta'', In_Replay)"
    "in_decode (take INBOUND_BUF_LEN (demo_datagram TYPE_HALT_TX [put_bool False])) = Some (''pancetta'', In_HaltTx False)"
    using read_reply_all [OF f, of "[]"]
    by (simp_all add: demo_datagram_def decode_datagram [OF id'] in_fields_def type_ids bool_field.read_or_put_last)
qed

lemma demo_decode_told:
  "decode_to_msg demo_decode Mode_Ft8 = Some (Out_Decode \<lparr> dc_new = True, dc_time_ms = 45296789, dc_snr = - 5,
     dc_delta_time = 0x3fc99999a0000000, dc_delta_freq = 1302, dc_mode = ''~'', dc_message = ''CQ K1ABC FN42'',
     dc_low_confidence = False, dc_off_air = False \<rparr>)"
proof -
  have "\<lfloor>(11 :: rat) / 2\<rfloor> = 5" by (simp add: floor_eq_iff)
  then show ?thesis
    by (simp add: decode_to_msg_def demo_decode_def time_ms_since_midnight_utc_def round_as_i32_def rat_as_u32_def)
qed

lemma demo_caller: "parse_cq_caller ''CQ K1ABC FN42'' = Some (''K1ABC'', True)"
  by code_simp

definition demo_told :: decode_msg where
  "demo_told = \<lparr> dc_new = True, dc_time_ms = 45296789, dc_snr = - 5, dc_delta_time = 0x3fc99999a0000000,
     dc_delta_freq = 1302, dc_mode = ''~'', dc_message = ''CQ K1ABC FN42'', dc_low_confidence = False, dc_off_air = False \<rparr>"

definition demo_task :: wsjtx_task where
  "demo_task = \<lparr> decode_ring = [(Out_Decode demo_told, \<lparr> sk_time_ms = 45296789, sk_delta_freq = 1302,
       sk_message = ''CQ K1ABC FN42'', sk_slot_parity = Some Even \<rparr>)],
     last_band = Some (band_of 14074000),
     last_status = out_encode (status_of demo_udp_cfg demo_udp_state) ''pancetta'', qso_events_open = True \<rparr>"

definition demo_outs :: "wsjtx_out list" where
  "demo_outs = [Sent (status_of demo_udp_cfg demo_udp_state), Sent (Out_Decode demo_told)]"

lemma demo_session:
  "wsjtx_session demo_udp_cfg demo_udp_state True [(demo_udp_state, Decode_Arrived demo_decode)] = (demo_task, demo_outs)"
proof -
  have "take_decode demo_udp_state demo_decode t =
      (t \<lparr> decode_ring := push_decode_ring (decode_ring t) (Out_Decode demo_told, \<lparr> sk_time_ms = 45296789, sk_delta_freq = 1302,
         sk_message = ''CQ K1ABC FN42'', sk_slot_parity = Some Even \<rparr>) DECODE_RING_CAPACITY \<rparr>, [Sent (Out_Decode demo_told)])" for t
    using demo_decode_told
    by (simp add: take_decode_def demo_udp_state_def demo_decode_def is_stale_band_decode_def is_band_change_def
        mode_from_u8_def demo_told_def)
  then show ?thesis
    by (simp add: wsjtx_session_def wsjtx_start_def wsjtx_step_def demo_task_def demo_outs_def push_decode_ring_def
        DECODE_RING_CAPACITY_def demo_udp_cfg_def) (simp add: demo_udp_state_def)
qed

lemma demo_allowed: "request_allowed demo_udp_cfg (V4 0x7f000001) (udp_dest demo_udp_cfg)"
proof -
  have "drop_bit 24 (0x7f000001 :: 32 word) = 127" by (rule word_unat_eq_iff [THEN iffD2]) (simp add: unsigned_drop_bit_eq drop_bit_eq_div)
  then show ?thesis by (simp add: request_allowed_def demo_udp_cfg_def is_multicast_dest_def)
qed

abbreviation demo_reply_event :: wsjtx_event where
  "demo_reply_event \<equiv> Datagram (demo_datagram TYPE_REPLY (reply_wire cq_reply)) (V4 0x7f000001) True"

lemma demo_request:
  "snd (wsjtx_step demo_udp_cfg demo_task (demo_udp_state, demo_reply_event)) =
     [Request (StartQso ''K1ABC'' 1302 (Some Even) True None), Diagnostic (Reply_Calling ''K1ABC'')]"
proof -
  have "reply_to_call (In_Reply cq_reply) (decode_ring demo_task) =
      Some \<lparr> ci_callsign = ''K1ABC'', ci_frequency_hz = 1302, ci_is_cq = True, ci_dx_parity = Some Even \<rparr>"
    using demo_caller
    by (simp add: demo_task_def key_matches_def cq_reply_def AUDIO_PASSBAND_MIN_HZ_def AUDIO_PASSBAND_MAX_HZ_def)
  then have "handle_reply demo_udp_state (In_Reply cq_reply) True (decode_ring demo_task) =
      [Request (StartQso ''K1ABC'' 1302 (Some Even) True None), Diagnostic (Reply_Calling ''K1ABC'')]"
    by (simp add: handle_reply_def demo_udp_state_def policy_from_u8_def)
  moreover have "instance_id demo_udp_cfg = ''pancetta''" by (simp add: demo_udp_cfg_def)
  ultimately show ?thesis
    using demo_datagrams(1) demo_allowed by (simp add: wsjtx_step_def take_datagram_def handle_request_def del: reply_to_call.simps)
qed

theorem udp_contacts_need_every_gate_witness:
  "\<exists>dc. Out_Decode dc \<in> set (decodes_since_clear demo_outs) \<and> dc_message dc = ''CQ K1ABC FN42'' \<and>
     parse_cq_caller (dc_message dc) = Some (''K1ABC'', True) \<and> live_consent demo_udp_state"
proof -
  have "Request (StartQso ''K1ABC'' 1302 (Some Even) True None) \<in>
      set (snd (wsjtx_step demo_udp_cfg demo_task (demo_udp_state, demo_reply_event)))"
    unfolding demo_request by simp
  from udp_contacts_need_every_gate [OF demo_session this]
  obtain r dc where "Some (''pancetta'', In_Reply cq_reply) = Some (instance_id demo_udp_cfg, In_Reply r)"
      "Out_Decode dc \<in> set (decodes_since_clear demo_outs)" "dc_message dc = rp_message r"
      "parse_cq_caller (dc_message dc) = Some (''K1ABC'', True)" "live_consent demo_udp_state"
    using demo_datagrams(1) by auto
  then show ?thesis by (auto simp: cq_reply_def)
qed

theorem replay_repeats_what_was_told_witness:
  "snd (wsjtx_step demo_udp_cfg demo_task (demo_udp_state, Datagram (demo_datagram TYPE_REPLAY []) (V4 0x7f000001) True)) =
     [Sent (Out_Decode (demo_told \<lparr> dc_new := False \<rparr>)), Sent (status_of demo_udp_cfg demo_udp_state), Diagnostic Replay_Honored]"
proof -
  have "in_decode (take INBOUND_BUF_LEN (demo_datagram TYPE_REPLAY [])) = Some (instance_id demo_udp_cfg, In_Replay)"
    using demo_datagrams(2) by (simp add: demo_udp_cfg_def)
  from replay_repeats_what_was_told [OF demo_session this demo_allowed, of demo_udp_state True] show ?thesis
    by (simp add: decodes_since_clear_def demo_outs_def demo_told_def last_of_def build_status_def)
qed

theorem halt_request_always_stops_witness:
  "Cancel_All_Qsos \<in> set (snd (wsjtx_step demo_udp_cfg demo_task
     (demo_udp_state, Datagram (demo_datagram TYPE_HALT_TX [put_bool False]) (V4 0x7f000001) True)))"
proof -
  have "in_decode (take INBOUND_BUF_LEN (demo_datagram TYPE_HALT_TX [put_bool False])) = Some (instance_id demo_udp_cfg, In_HaltTx False)"
    using demo_datagrams(3) by (simp add: demo_udp_cfg_def)
  from halt_request_always_stops [OF this demo_allowed, of demo_task demo_udp_state True] show ?thesis by simp
qed

theorem udp_requests_fail_closed_witness:
  "fst (wsjtx_step demo_udp_cfg demo_task (demo_udp_state, Datagram (demo_datagram TYPE_REPLAY []) (V4 1) True)) = demo_task"
proof -
  have "drop_bit 24 (0x7f000001 :: 32 word) = 127" by (rule word_unat_eq_iff [THEN iffD2]) (simp add: unsigned_drop_bit_eq drop_bit_eq_div)
  then have "\<not> is_multicast_dest (udp_dest demo_udp_cfg) \<and> V4 1 \<noteq> udp_dest demo_udp_cfg"
    by (simp add: demo_udp_cfg_def is_multicast_dest_def)
  then show ?thesis
    using udp_requests_fail_closed [where buf = "demo_datagram TYPE_REPLAY []" and cfg = demo_udp_cfg and src = "V4 1" and t = demo_task and st = demo_udp_state and d = True] by blast
qed

theorem companions_see_the_current_status_witness:
  "latest_status (snd (wsjtx_session demo_udp_cfg demo_udp_state True
     ([(demo_udp_state, Decode_Arrived demo_decode)] @ [(demo_udp_state \<lparr> ptt_active := True \<rparr>, Status_Tick)]))) =
   Some (status_of demo_udp_cfg (demo_udp_state \<lparr> ptt_active := True \<rparr>))"
proof -
  have "fits_config demo_udp_cfg" by (simp add: fits_config_def demo_udp_cfg_def fits_ascii)
  then show ?thesis using companions_see_the_current_status [of demo_udp_cfg Status_Tick demo_udp_state True
      "[(demo_udp_state, Decode_Arrived demo_decode)]" "demo_udp_state \<lparr> ptt_active := True \<rparr>"] by (metis prod.collapse)
qed

text \<open>The retained decodes are cleared when a timer notices the change of band, not when the dial moves: in between a request
  for a decode of the former band is still honoured.\<close>

lemma reply_ignores_the_dial:
  "snd (wsjtx_step cfg t (st \<lparr> operating_frequency_hz := f \<rparr>, Datagram buf src d)) =
     snd (wsjtx_step cfg t (st, Datagram buf src d)) \<or>
   in_decode (take INBOUND_BUF_LEN buf) = Some (instance_id cfg, In_Replay)"
  by (auto simp: wsjtx_step_def take_datagram_def handle_request_def handle_reply_def split: option.splits in_msg.splits)

lemma former_band_is_called:
  "snd (wsjtx_step demo_udp_cfg demo_task (demo_udp_state \<lparr> operating_frequency_hz := 7074000 \<rparr>, demo_reply_event)) =
     [Request (StartQso ''K1ABC'' 1302 (Some Even) True None), Diagnostic (Reply_Calling ''K1ABC'')]"
proof -
  let ?b = "demo_datagram TYPE_REPLY (reply_wire cq_reply)"
  have "in_decode (take INBOUND_BUF_LEN ?b) \<noteq> Some (instance_id demo_udp_cfg, In_Replay)"
    unfolding demo_datagrams(1) by simp
  then show ?thesis using demo_request
    reply_ignores_the_dial [where cfg = demo_udp_cfg and t = demo_task and st = demo_udp_state and f = 7074000 and
      buf = ?b and src = "V4 0x7f000001" and d = True] by metis
qed

end
