(* ===== verification/Qso_Process.thy ===== *)
theory Qso_Process
  imports Qso_Engine
begin

text \<open>
  What a frame does to a tracked contact, \<^verbatim>\<open>process_message_for_qso\<close> of \<^verbatim>\<open>pancetta-qso/src/qso_manager.rs\<close>: a Hound ignores a
  report it could not answer at the Fox's offset, the logged call is completed by a fuller form of itself, the
  state machine of \<open>Qso_Engine\<close> moves, the partner is latched, and a Hound follows the Fox to the offset of its report. Timers,
  counters, parity refinement, grids and the emission of events are left out.
\<close>

section \<open>Offsets\<close>

text \<open>The number an \<open>f64\<close> denotes, from its bits; none for an infinity or NaN.\<close>

definition f64_value :: "f64 \<Rightarrow> rat option" where
  "f64_value b =
     (let e = nat (uint b div 2 ^ 52 mod 2 ^ 11); m = uint b mod 2 ^ 52; s = (if 2 ^ 63 \<le> uint b then - 1 else 1) in
      if e = 2047 then None
      else if e = 0 then Some (s * of_int m / 2 ^ 1074)
      else if e < 1075 then Some (s * of_int (m + 2 ^ 52) / 2 ^ (1075 - e))
      else Some (s * of_int (m + 2 ^ 52) * 2 ^ (e - 1075)))"

record hound_regions =
  call_min_hz :: f64
  call_max_hz :: f64
  response_min_hz :: f64
  response_max_hz :: f64

definition ACTIVE_QSO_TX_OFFSET_MIN_HZ :: rat where "ACTIVE_QSO_TX_OFFSET_MIN_HZ = 200"
definition ACTIVE_QSO_TX_OFFSET_MAX_HZ :: rat where "ACTIVE_QSO_TX_OFFSET_MAX_HZ = 2900"
definition TX_OFFSET_NOOP_TOLERANCE_HZ :: rat where "TX_OFFSET_NOOP_TOLERANCE_HZ = 1"

definition hound_report_offset :: "f64 \<Rightarrow> hound_regions \<Rightarrow> f64 option" where
  "hound_report_offset fox_hz regions =
     (case (f64_value fox_hz, f64_value (response_min_hz regions), f64_value (response_max_hz regions)) of
        (Some x, Some lo, Some hi) \<Rightarrow>
          if lo \<le> x \<and> x \<le> hi \<and> ACTIVE_QSO_TX_OFFSET_MIN_HZ \<le> x \<and> x \<le> ACTIVE_QSO_TX_OFFSET_MAX_HZ then Some fox_hz else None
      | _ \<Rightarrow> None)"

section \<open>A frame for a contact\<close>

record qso_progress =
  pr_state :: qso_state
  pr_initiated_by :: call_initiation
  pr_their_callsign :: "string option"
  pr_frequency :: f64
  pr_partner_freq :: "f64 option"
  pr_hound :: bool
  pr_hound_qsyed :: bool
  pr_relocation_epoch :: nat

fun is_signal_report :: "message_type \<Rightarrow> bool" where
  "is_signal_report (SignalReport _ _ _) = True"
| "is_signal_report _ = False"

fun is_responding_to_cq :: "qso_state \<Rightarrow> bool" where
  "is_responding_to_cq (RespondingToCq _ _ _) = True"
| "is_responding_to_cq _ = False"

fun is_sending_report :: "qso_state \<Rightarrow> bool" where
  "is_sending_report (SendingReport _ _ _ _ _) = True"
| "is_sending_report _ = False"

definition is_hound_fox_frame :: "string \<Rightarrow> string option \<Rightarrow> message_type \<Rightarrow> bool" where
  "is_hound_fox_frame our their msg =
     (case (case msg of
              SignalReport to_s from_s _ \<Rightarrow> Some (from_s, to_s)
            | FinalConfirmation to_s from_s \<Rightarrow> Some (from_s, to_s)
            | _ \<Rightarrow> None) of
        None \<Rightarrow> False
      | Some (from_s, to_s) \<Rightarrow> (case their of None \<Rightarrow> False | Some fox \<Rightarrow> is_partner from_s fox) \<and> is_us our to_s)"

text \<open>The logged call takes a fuller form of itself; an unsafe one is reported and ignored.\<close>

definition upgrade_logged_call :: "transition_ctx \<Rightarrow> message_type \<Rightarrow> string option \<Rightarrow> string option \<times> qso_event list" where
  "upgrade_logged_call ctx msg their =
     (case (sender_callsign msg, their) of
        (Some sender, Some latched) \<Rightarrow>
          if is_safe_compound_upgrade latched sender then (Some sender, [])
          else if length latched < length sender \<and> callsigns_match sender latched
          then (their, [MessageRejected (ctx_qso_id ctx) UnsafeCompoundUpgrade (Some sender) (addressee_callsign msg)])
          else (their, [])
      | _ \<Rightarrow> (their, []))"

text \<open>The Hound's move to the Fox's offset; \<open>old\<close> is the state before the frame.\<close>

definition hound_fox_hz :: "transition_ctx \<Rightarrow> hound_regions \<Rightarrow> f64 \<Rightarrow> message_type \<Rightarrow> qso_state \<Rightarrow> qso_state \<Rightarrow> qso_progress \<Rightarrow> f64 option" where
  "hound_fox_hz ctx regions rx_hz msg old new p =
     (if pr_hound p \<and> is_sending_report new \<and> (is_responding_to_cq old \<or> pr_hound_qsyed p) \<and> is_signal_report msg \<and>
         is_hound_fox_frame (cfg_callsign ctx) (pr_their_callsign p) msg
      then hound_report_offset rx_hz regions else None)"

definition f64_is_nan :: "f64 \<Rightarrow> bool" where
  "f64_is_nan b \<longleftrightarrow> nat (uint b div 2 ^ 52 mod 2 ^ 11) = 2047 \<and> uint b mod 2 ^ 52 \<noteq> 0"

definition offset_moved :: "f64 \<Rightarrow> f64 \<Rightarrow> bool" where
  "offset_moved new old =
     (case (f64_value new, f64_value old) of (Some x, Some y) \<Rightarrow> TX_OFFSET_NOOP_TOLERANCE_HZ < \<bar>x - y\<bar> | (Some _, None) \<Rightarrow> \<not> f64_is_nan old | _ \<Rightarrow> False)"

definition hound_qsy :: "f64 \<Rightarrow> qso_progress \<Rightarrow> qso_progress" where
  "hound_qsy fox_hz p =
     (let moved = (\<not> pr_hound_qsyed p \<or> offset_moved fox_hz (pr_frequency p)) in
      p \<lparr> pr_relocation_epoch := pr_relocation_epoch p + (if moved then 1 else 0), pr_frequency := fox_hz,
          pr_partner_freq := Some fox_hz, pr_hound_qsyed := True,
          pr_state := (case pr_state p of SendingReport c tr r _ t \<Rightarrow> SendingReport c tr r fox_hz t | s \<Rightarrow> s) \<rparr>)"

text \<open>A frame: its context, whether the contact is in a grid contest, the offset it was decoded at, and the message. The result is
  the contact, the rejections and the reply with the offset it goes out on.\<close>

type_synonym qso_frame = "transition_ctx \<times> bool \<times> f64 \<times> message_type"

definition process_message_for_qso ::
    "hound_regions \<Rightarrow> qso_progress \<Rightarrow> qso_frame \<Rightarrow> qso_progress \<times> qso_event list \<times> (message_type \<times> f64) option" where
  "process_message_for_qso regions p frame =
     (case frame of (ctx, contest_engaged, rx_hz, msg) \<Rightarrow>
        if pr_hound p \<and> is_signal_report msg \<and> (is_responding_to_cq (pr_state p) \<or> is_sending_report (pr_state p)) \<and>
           is_hound_fox_frame (cfg_callsign ctx) (pr_their_callsign p) msg \<and> hound_report_offset rx_hz regions = None
        then (p, [], None)
        else
          let old = pr_state p;
              (their, unsafe) = upgrade_logged_call ctx msg (pr_their_callsign p);
              (rejected, new) = determine_state_transition ctx old msg (pr_initiated_by p) contest_engaged;
              reply = reply_to_emit ctx (pr_hound p) (pr_initiated_by p) old new msg;
              latched = (if new \<noteq> old \<and> their = None then state_their_callsign new else their);
              p' = p \<lparr> pr_their_callsign := latched, pr_state := new \<rparr>;
              p'' = (case hound_fox_hz ctx regions rx_hz msg old new p' of None \<Rightarrow> p' | Some hz \<Rightarrow> hound_qsy hz p')
          in (p'', rejected @ unsafe, map_option (\<lambda>m. (m, pr_frequency p'')) reply))"

definition qso_frame_step :: "hound_regions \<Rightarrow> qso_progress \<Rightarrow> qso_frame \<Rightarrow> qso_progress \<times> (message_type \<times> f64) list" where
  "qso_frame_step regions p frame =
     (case process_message_for_qso regions p frame of (p', _, reply) \<Rightarrow> (p', case reply of None \<Rightarrow> [] | Some r \<Rightarrow> [r]))"

section \<open>What frames leave of a contact\<close>
















text \<open>A Hound called at 1500 Hz; the Fox reports at 600 Hz, inside the default response envelope of 300 to 900 Hz.\<close>

definition demo_regions :: hound_regions where
  "demo_regions = \<lparr> call_min_hz = 0x408F400000000000, call_max_hz = 0x40A5180000000000, response_min_hz = 0x4072C00000000000,
     response_max_hz = 0x408C200000000000 \<rparr>"

definition demo_hound :: qso_progress where
  "demo_hound = \<lparr> pr_state = RespondingToCq ''K1DEF'' 0x4097700000000000 0, pr_initiated_by = Manual, pr_their_callsign = Some ''K1DEF'',
     pr_frequency = 0x4097700000000000, pr_partner_freq = None, pr_hound = True, pr_hound_qsyed = False, pr_relocation_epoch = 0 \<rparr>"

definition demo_frames :: "qso_frame list" where
  "demo_frames = [(demo_ctx ''W1ABC'', False, 0x4082C00000000000, SignalReport ''W1ABC'' ''K1DEF'' (-7)),
                  (demo_ctx ''W1ABC'', False, 0x4082C00000000000, FinalConfirmation ''W1ABC'' ''K1DEF'')]"

lemma demo_offsets:
  "f64_value 0x4097700000000000 = Some 1500" "f64_value 0x4082C00000000000 = Some 600"
  "f64_value 0x4072C00000000000 = Some 300" "f64_value 0x408C200000000000 = Some 900"
  by (simp_all add: f64_value_def)

lemma demo_hound_moves:
  "pr_frequency (fst (run (qso_frame_step demo_regions) demo_hound demo_frames)) = 0x4082C00000000000"
  "is_terminal (pr_state (fst (run (qso_frame_step demo_regions) demo_hound demo_frames)))"
proof -
  have m: "callsigns_match ''K1DEF'' ''K1DEF''" "callsigns_match ''W1ABC'' ''W1ABC''"
    "is_safe_compound_upgrade ''K1DEF'' ''K1DEF'' = False" by code_simp+
  have o: "hound_report_offset 0x4082C00000000000 demo_regions = Some 0x4082C00000000000"
    by (simp add: hound_report_offset_def demo_regions_def demo_offsets ACTIVE_QSO_TX_OFFSET_MIN_HZ_def ACTIVE_QSO_TX_OFFSET_MAX_HZ_def)
  show "pr_frequency (fst (run (qso_frame_step demo_regions) demo_hound demo_frames)) = 0x4082C00000000000"
    "is_terminal (pr_state (fst (run (qso_frame_step demo_regions) demo_hound demo_frames)))"
    by (simp_all add: demo_frames_def demo_hound_def demo_ctx_def qso_frame_step_def process_message_for_qso_def upgrade_logged_call_def m o
      hound_fox_hz_def hound_qsy_def is_hound_fox_frame_def determine_state_transition_def transition_arms guarded_def
      reject_sender_Nil is_partner_def is_us_def snr_report_or_def Let_def split: option.split)
qed


end
