(* ===== verification/Tx_Schedule.thy ===== *)
theory Tx_Schedule
  imports Slot Symbols
begin

text \<open>
  When the transmitter keys (\<open>coordinator/tx.rs\<close>): the choice of the slot for a request, the padding or skipping of audio
  that aligns it, the windows in which requests are collected first, the wait for the instant to key on a
  wall clock that may be stepped, and the last check before it keys. Instants are nanoseconds as in \<open>Slot\<close>, whose panics are
  \<open>None\<close>; the arithmetic on cycle times is exact for the two protocols.
\<close>

section \<open>Windows and caps\<close>

definition DELAY_MS :: nat where "DELAY_MS = 500"
definition COALESCE_COLLECT_WINDOW_MS :: nat where "COALESCE_COLLECT_WINDOW_MS = 800"
definition COALESCE_MAX_EXTENSION_MS :: nat where "COALESCE_MAX_EXTENSION_MS = 3000"
definition COALESCE_CAP_SAFETY_MARGIN_MS :: nat where "COALESCE_CAP_SAFETY_MARGIN_MS = 500"
definition FT8_CYCLE_SECS :: rat where "FT8_CYCLE_SECS = 15"

text \<open>\<open>round\<close> and \<open>as u64\<close> of a non-negative number.\<close>

definition scaled_ms :: "nat \<Rightarrow> protocol \<Rightarrow> nat" where
  "scaled_ms ms protocol =
     min (2 ^ 64 - 1) (nat \<lfloor>of_nat ms * (cycle_duration (from_protocol protocol) / FT8_CYCLE_SECS) + 1 / 2\<rfloor>)"

definition coalesce_collect_window_ms :: "protocol \<Rightarrow> nat" where
  "coalesce_collect_window_ms protocol = scaled_ms COALESCE_COLLECT_WINDOW_MS protocol"

definition tx_late_max_ms_effective :: "protocol \<Rightarrow> nat \<Rightarrow> nat" where
  "tx_late_max_ms_effective protocol tx_late_max_ms = scaled_ms tx_late_max_ms protocol"

definition coalesce_max_extension_ms :: "protocol \<Rightarrow> nat" where
  "coalesce_max_extension_ms protocol = scaled_ms COALESCE_MAX_EXTENSION_MS protocol"

definition current_slot_acceptance_cap_ms :: "protocol \<Rightarrow> nat \<Rightarrow> nat" where
  "current_slot_acceptance_cap_ms protocol tx_late_max_ms =
     tx_late_max_ms_effective protocol tx_late_max_ms - coalesce_collect_window_ms protocol - COALESCE_CAP_SAFETY_MARGIN_MS"

definition multi_tx_acceptance_cap_ms :: "protocol \<Rightarrow> nat \<Rightarrow> bool \<Rightarrow> nat" where
  "multi_tx_acceptance_cap_ms protocol tx_late_max_ms waited_base_window =
     (if waited_base_window then current_slot_acceptance_cap_ms protocol tx_late_max_ms
      else tx_late_max_ms_effective protocol tx_late_max_ms - COALESCE_CAP_SAFETY_MARGIN_MS)"

section \<open>Choosing the slot\<close>

datatype tx_self_parity = Parity_Auto | Parity_Even | Parity_Odd

definition resolve_required_parity :: "slot_parity option \<Rightarrow> tx_self_parity \<Rightarrow> int \<Rightarrow> int \<Rightarrow> slot_parity option" where
  "resolve_required_parity tx_parity tx_self_parity now period =
     (case tx_parity of
        Some p \<Rightarrow> Some p
      | None \<Rightarrow>
          (case tx_self_parity of
             Parity_Even \<Rightarrow> Some Even
           | Parity_Odd \<Rightarrow> Some Odd
           | Parity_Auto \<Rightarrow> do {
               next_even \<leftarrow> next_slot_with_parity_with_period now Even period;
               next_odd \<leftarrow> next_slot_with_parity_with_period now Odd period;
               Some (if next_even \<le> next_odd then Even else Odd)
             }))"

text \<open>\<open>num_milliseconds\<close> of a duration, and a duration of \<open>u64\<close> milliseconds cast to \<open>i64\<close>.\<close>

definition num_milliseconds :: "int \<Rightarrow> int" where "num_milliseconds d = trunc_div d 1000000"
definition milliseconds :: "nat \<Rightarrow> int" where "milliseconds ms = i64_wrap (int ms) * 1000000"

record tx_schedule =
  target_slot :: int
  silent_pad_samples :: nat
  cursor_offset_samples :: nat
  deferred :: bool

definition pad_and_cursor_for_target :: "int \<Rightarrow> int \<Rightarrow> nat \<Rightarrow> nat \<times> nat" where
  "pad_and_cursor_for_target now target sample_rate =
     (let mstr_unsigned = nat (max 0 (num_milliseconds (now - target)));
          (silent_pad_ms, cursor_ms) = (if mstr_unsigned < DELAY_MS then (DELAY_MS - mstr_unsigned, 0) else (0, mstr_unsigned - DELAY_MS))
      in (silent_pad_ms * sample_rate div 1000, cursor_ms * sample_rate div 1000))"

definition schedule_tx :: "int \<Rightarrow> slot_parity \<Rightarrow> nat \<Rightarrow> nat \<Rightarrow> int \<Rightarrow> tx_schedule option" where
  "schedule_tx now required_parity tx_late_max_ms sample_rate period = do {
     cur_start \<leftarrow> current_slot_start_with_period now period;
     cur_parity \<leftarrow> of_with_period cur_start period;
     let mstr_in_cur_slot = nat (max 0 (num_milliseconds (now - cur_start)));
     let use_current = (cur_parity = required_parity \<and> mstr_in_cur_slot \<le> tx_late_max_ms);
     target \<leftarrow> (if use_current then Some cur_start else next_slot_with_parity_with_period now required_parity period);
     let pads = pad_and_cursor_for_target now target sample_rate;
     Some \<lparr> target_slot = target, silent_pad_samples = fst pads, cursor_offset_samples = snd pads, deferred = (\<not> use_current) \<rparr>
   }"

text \<open>How much longer than the base window requests may be collected, for a head request of a parity.\<close>

definition adaptive_coalesce_cap_ms ::
    "slot_parity option \<Rightarrow> int \<Rightarrow> tx_self_parity \<Rightarrow> nat \<Rightarrow> nat \<Rightarrow> int \<Rightarrow> protocol \<Rightarrow> nat option" where
  "adaptive_coalesce_cap_ms tx_parity received self_parity tx_late_max_ms sample_rate period protocol = do {
     required \<leftarrow> resolve_required_parity tx_parity self_parity received period;
     probe \<leftarrow> schedule_tx received required (current_slot_acceptance_cap_ms protocol tx_late_max_ms) sample_rate period;
     let elapsed_in_slot_ms = num_milliseconds (received - target_slot probe);
     let headroom = nat (max 0 (i64_saturating_sub (i64_saturating_sub (i64_saturating_sub
           (i64_wrap (int (tx_late_max_ms_effective protocol tx_late_max_ms))) elapsed_in_slot_ms)
           (int (coalesce_collect_window_ms protocol))) (int COALESCE_CAP_SAFETY_MARGIN_MS)));
     Some (min headroom (coalesce_max_extension_ms protocol))
   }"

section \<open>Waiting for the instant to key\<close>

datatype ptt_wait_outcome = Sleep int | Reached_Step | Clock_Jumped wall_clock_jump

definition ptt_wait_step :: "int \<Rightarrow> int \<Rightarrow> int \<Rightarrow> bool \<Rightarrow> nat \<Rightarrow> int \<Rightarrow> ptt_wait_outcome" where
  "ptt_wait_step now ptt_target target waited_from_before_target late_max_ms period =
     (let remaining = ptt_target - now
      in if 2 * period < remaining then Clock_Jumped (Backward remaining)
         else if 0 < remaining then Sleep (min remaining 50000000)
         else if waited_from_before_target \<and> milliseconds late_max_ms < now - target then Clock_Jumped (Forward (now - ptt_target))
         else Reached_Step)"

definition key_time_too_late :: "int \<Rightarrow> int \<Rightarrow> nat \<Rightarrow> bool" where
  "key_time_too_late now target late_max_ms \<longleftrightarrow> milliseconds late_max_ms < now - target"

datatype ptt_wait = Reached | Interrupted | Jumped wall_clock_jump

text \<open>One turn of the loop reads the two flags and then the wall clock; \<open>None\<close> is a wait that is still going on when the
  turns given are used up.\<close>

fun wait_from :: "bool option \<Rightarrow> int \<Rightarrow> int \<Rightarrow> nat \<Rightarrow> int \<Rightarrow> (bool \<times> int) list \<Rightarrow> ptt_wait option" where
  "wait_from waited ptt_target target late_max_ms period [] = None"
| "wait_from waited ptt_target target late_max_ms period ((stop, now) # turns) =
     (if stop then Some Interrupted
      else
        let w = (case waited of Some w \<Rightarrow> w | None \<Rightarrow> now < ptt_target)
        in case ptt_wait_step now ptt_target target w late_max_ms period of
             Sleep _ \<Rightarrow> wait_from (Some w) ptt_target target late_max_ms period turns
           | Reached_Step \<Rightarrow> Some Reached
           | Clock_Jumped jump \<Rightarrow> Some (Jumped jump))"

definition wait_for_ptt_instant :: "int \<Rightarrow> int \<Rightarrow> nat \<Rightarrow> int \<Rightarrow> (bool \<times> int) list \<Rightarrow> ptt_wait option" where
  "wait_for_ptt_instant = wait_from None"

definition PTT_HOLD_SLACK_MS :: nat where "PTT_HOLD_SLACK_MS = 1000"

definition ptt_hold_exceeds_bound :: "nat \<Rightarrow> nat \<Rightarrow> bool" where
  "ptt_hold_exceeds_bound hold ptt_lead_ms \<longleftrightarrow> (ptt_lead_ms + PTT_HOLD_SLACK_MS) * 1000000 < hold"

section \<open>The slot that is chosen\<close>

lemma num_ms:
  "0 \<le> d \<Longrightarrow> num_milliseconds d = d div 1000000"
  "d \<le> 0 \<Longrightarrow> num_milliseconds d \<le> 0"
proof -
  show "0 \<le> d \<Longrightarrow> num_milliseconds d = d div 1000000" by (simp add: num_milliseconds_def trunc_div_nonneg)
  show "num_milliseconds d \<le> 0" if "d \<le> 0"
  proof (cases "d = 0")
    case False
    with that have "0 \<le> - d div 1000000" by (simp add: pos_imp_zdiv_nonneg_iff)
    with that False show ?thesis by (simp add: num_milliseconds_def trunc_div_def sgn_if)
  qed (simp add: num_milliseconds_def trunc_div_nonneg)
qed

text \<open>Milliseconds into the slot, zero before it.\<close>

definition ms_into :: "int \<Rightarrow> int \<Rightarrow> nat" where "ms_into now target = nat (max 0 ((now - target) div 1000000))"

lemma ms_into_num: "nat (max 0 (num_milliseconds (now - target))) = ms_into now target"
proof (cases "target \<le> now")
  case True
  then show ?thesis by (simp add: num_ms ms_into_def)
next
  case False
  then have "num_milliseconds (now - target) \<le> 0" "(now - target) div 1000000 \<le> 0"
    by (auto intro!: num_ms simp: div_nonpos_pos_le0)
  then show ?thesis by (simp add: ms_into_def)
qed

lemma pads:
  "pad_and_cursor_for_target now target rate =
     ((DELAY_MS - ms_into now target) * rate div 1000, (ms_into now target - DELAY_MS) * rate div 1000)"
  by (simp add: pad_and_cursor_for_target_def ms_into_num Let_def)

context slot_grid
begin

lemma boundary_next: "b mod slot_ns = 0 \<Longrightarrow> c mod slot_ns = 0 \<Longrightarrow> b < c \<Longrightarrow> b + slot_ns \<le> c"
proof -
  assume "b mod slot_ns = 0" "c mod slot_ns = 0" "b < c"
  then have "(c - b) mod slot_ns = 0" "0 < c - b" by (simp_all add: mod_diff_eq [symmetric])
  then obtain k where k: "c - b = slot_ns * k" by (meson mod_0_imp_dvd dvdE)
  with \<open>0 < c - b\<close> period_pos have "0 < k" by (simp add: zero_less_mult_iff)
  with k period_pos have "slot_ns * 1 \<le> c - b" by (simp del: mult_1_right)
  then show ?thesis by simp
qed

lemma next_slot_with_parity_least:
  assumes "0 \<le> now" "now + 3 * slot_ns \<le> I64_MAX"
    and "next_slot_with_parity_with_period now wanted slot_ns = Some t"
    and "b mod slot_ns = 0" "now < b" "of_with_period b slot_ns = Some wanted"
  shows "t \<le> b"
proof -
  obtain c where c: "next_slot_start_with_period now 0 slot_ns = Some c" "c mod slot_ns = 0"
    using next_slot_start_spec [of now 0] assms(1,2) period_pos by auto
  have cb: "c \<le> b" using next_slot_start_least [of now 0 c b] assms c period_pos by simp
  obtain p where p: "of_with_period c slot_ns = Some p" "t = (if p \<noteq> wanted then c + slot_ns else c)"
    using assms(3) c(1) by (auto simp: next_slot_with_parity_with_period_def split: bind_splits)
  show ?thesis
  proof (cases "p = wanted")
    case False
    then have "c < b" using cb p assms(6) by (cases "c = b") auto
    then show ?thesis using boundary_next [OF c(2) assms(4)] p by simp
  qed (use p cb in simp)
qed

lemma schedule_tx_spec:
  assumes "0 \<le> now" "now + 3 * slot_ns \<le> I64_MAX"
  shows "\<exists>s. schedule_tx now p cap rate slot_ns = Some s \<and>
     target_slot s mod slot_ns = 0 \<and> of_with_period (target_slot s) slot_ns = Some p \<and>
     (if deferred s then now < target_slot s \<and> target_slot s \<le> now + 2 * slot_ns
      else target_slot s \<le> now \<and> now < target_slot s + slot_ns \<and> ms_into now (target_slot s) \<le> cap) \<and>
     (\<forall>b. b mod slot_ns = 0 \<and> of_with_period b slot_ns = Some p \<and> now < b + slot_ns \<and> b < target_slot s \<longrightarrow>
        b \<le> now \<and> cap < ms_into now b) \<and>
     silent_pad_samples s = (DELAY_MS - ms_into now (target_slot s)) * rate div 1000 \<and>
     cursor_offset_samples s = (ms_into now (target_slot s) - DELAY_MS) * rate div 1000"
proof -
  have r: "in_i64 now" using assms period_pos by (auto simp: int_simps)
  obtain c where c: "current_slot_start_with_period now slot_ns = Some c" "c mod slot_ns = 0" "c \<le> now" "now < c + slot_ns"
    using current_slot_start_spec [OF r assms(1)] by (elim exE conjE)
  have "0 - slot_ns < c" using c assms(1) by simp
  moreover have "c \<le> I64_MAX" "slot_ns \<le> I64_MAX" using c(3) assms period_pos by linarith+
  ultimately have "in_i64 c" by (simp add: int_simps)
  then obtain q where q: "of_with_period c slot_ns = Some q" by (simp add: parity_spec)
  obtain t where t: "next_slot_with_parity_with_period now p slot_ns = Some t" "t mod slot_ns = 0" "now < t" "t \<le> now + 2 * slot_ns"
    "of_with_period t slot_ns = Some p" using next_slot_with_parity_spec [OF assms, of p] by (elim exE conjE)
  have past: "b \<le> c" if "b mod slot_ns = 0" "b \<le> now" for b
    using boundary_next [OF c(2) that(1)] that(2) c(4) by linarith
  show ?thesis
  proof (cases "q = p \<and> ms_into now c \<le> cap")
    case True
    let ?s = "\<lparr> target_slot = c, silent_pad_samples = (DELAY_MS - ms_into now c) * rate div 1000,
        cursor_offset_samples = (ms_into now c - DELAY_MS) * rate div 1000, deferred = False \<rparr>"
    have none: "\<not> now < b + slot_ns" if "slot_ns dvd b" "b < c" for b
      using boundary_next [OF _ c(2) that(2)] that(1) c(3) by simp
    have "schedule_tx now p cap rate slot_ns = Some ?s"
      using True c(1) q by (simp add: schedule_tx_def ms_into_num pads Let_def)
    then show ?thesis using True c(2-4) q by (intro exI [of _ ?s]) (auto dest: none)
  next
    case False
    have early: "b \<le> now \<and> cap < ms_into now b"
      if b: "b mod slot_ns = 0" "of_with_period b slot_ns = Some p" "now < b + slot_ns" "b < t" for b
    proof -
      have "b \<le> now" using next_slot_with_parity_least [OF assms t(1) b(1) _ b(2)] b(4) by fastforce
      moreover from past [OF b(1) this] have "b = c" using boundary_next [OF b(1) c(2)] b(3) c(3) by linarith
      ultimately show ?thesis using False q b(2) by auto
    qed
    let ?s = "\<lparr> target_slot = t, silent_pad_samples = (DELAY_MS - ms_into now t) * rate div 1000,
        cursor_offset_samples = (ms_into now t - DELAY_MS) * rate div 1000, deferred = True \<rparr>"
    have "schedule_tx now p cap rate slot_ns = Some ?s"
      using False c(1) q t(1) by (auto simp: schedule_tx_def ms_into_num pads Let_def)
    then show ?thesis using t(2-5) early by (intro exI [of _ ?s]) simp
  qed
qed

end

text \<open>The slot a request is sent in. The choice never fails; the slot starts on the grid and has the required
  parity; it is the current one only within the accepted lateness, and otherwise begins in the future, at most two slots ahead; no
  earlier slot of that parity would have been accepted; and the audio starts half a second into the slot, padded or cut to
  the sample by the milliseconds that are left or gone.\<close>

theorem schedule_tx_correct:
  assumes "0 < period" "0 \<le> now" "now + 3 * period \<le> I64_MAX"
  shows "\<exists>s. schedule_tx now p cap rate period = Some s \<and>
     target_slot s mod period = 0 \<and> of_with_period (target_slot s) period = Some p \<and>
     (if deferred s then now < target_slot s \<and> target_slot s \<le> now + 2 * period
      else target_slot s \<le> now \<and> now < target_slot s + period \<and> ms_into now (target_slot s) \<le> cap) \<and>
     (\<forall>b. b mod period = 0 \<and> of_with_period b period = Some p \<and> now < b + period \<and> b < target_slot s \<longrightarrow>
        b \<le> now \<and> cap < ms_into now b) \<and>
     silent_pad_samples s = (DELAY_MS - ms_into now (target_slot s)) * rate div 1000 \<and>
     cursor_offset_samples s = (ms_into now (target_slot s) - DELAY_MS) * rate div 1000"
  by (rule slot_grid.schedule_tx_spec) (use assms in \<open>simp_all add: slot_grid_def\<close>)

theorem schedule_tx_correct_witness:
  "\<exists>s. schedule_tx 16000000000 Odd 1700 12000 15000000000 = Some s \<and> target_slot s mod 15000000000 = 0 \<and>
     of_with_period (target_slot s) 15000000000 = Some Odd"
proof -
  have h: "(0 :: int) < 15000000000" "(0 :: int) \<le> 16000000000" "16000000000 + 3 * 15000000000 \<le> I64_MAX" by (simp_all add: I64_MAX_def)
  obtain s where "schedule_tx 16000000000 Odd 1700 12000 15000000000 = Some s" "target_slot s mod 15000000000 = 0"
    "of_with_period (target_slot s) 15000000000 = Some Odd"
    using schedule_tx_correct [OF h, of Odd 1700 12000] by (elim exE conjE)
  then show ?thesis by (intro exI [of _ s]) simp
qed

section \<open>What was accepted is keyed in time\<close>

lemma scaled_ms_Ft8: "scaled_ms ms Ft8 = min (2 ^ 64 - 1) ms"
proof -
  have "\<lfloor>of_nat ms * (cycle_duration (from_protocol Ft8) / FT8_CYCLE_SECS) + 1 / 2 :: rat\<rfloor> = int ms"
    by (rule floor_unique) (simp_all add: ft8_params_def FT8_CYCLE_SECS_def)
  then show ?thesis by (simp add: scaled_ms_def)
qed

lemma scaled_ms_Ft4: "scaled_ms ms Ft4 = min (2 ^ 64 - 1) ((ms + 1) div 2)"
proof -
  have *: "of_nat ms * (cycle_duration (from_protocol Ft4) / FT8_CYCLE_SECS) + 1 / 2 = (of_nat (ms + 1) / of_nat 2 :: rat)"
    by (simp add: ft4_params_def FT8_CYCLE_SECS_def)
  show ?thesis unfolding scaled_ms_def * floor_divide_of_nat_eq by simp
qed

lemma window_small: "coalesce_collect_window_ms protocol \<le> 800" "coalesce_max_extension_ms protocol \<le> 3000"
proof -
  show "coalesce_collect_window_ms protocol \<le> 800"
    by (cases protocol) (simp_all add: coalesce_collect_window_ms_def scaled_ms_Ft8 scaled_ms_Ft4 COALESCE_COLLECT_WINDOW_MS_def)
  show "coalesce_max_extension_ms protocol \<le> 3000"
    by (cases protocol) (simp_all add: coalesce_max_extension_ms_def scaled_ms_Ft8 scaled_ms_Ft4 COALESCE_MAX_EXTENSION_MS_def)
qed

lemma headroom_le:
  assumes "0 \<le> eff" "eff \<le> 2 ^ 40" "- (2 ^ 60) \<le> e" "e \<le> 2 ^ 60" "0 \<le> w" "w \<le> 800" "0 \<le> m" "m \<le> 500" "0 \<le> eff - e - w - m"
  shows "max 0 (i64_saturating_sub (i64_saturating_sub (i64_saturating_sub (i64_wrap eff) e) w) m) = eff - e - w - m"
proof -
  have "i64_wrap eff = eff" using assms by (intro i64_wrap_id) (simp add: int_simps)
  then show ?thesis using assms by (simp add: i64_saturating_sub_def int_simps)
qed

text \<open>The last instant at which the window, its extension and the overhead reserved for encoding have all been used up, less the
  millisecond that rounding may cost.\<close>

definition last_key_instant :: "protocol \<Rightarrow> int \<Rightarrow> nat \<Rightarrow> int" where
  "last_key_instant protocol received extension =
     received + (int (coalesce_collect_window_ms protocol + extension + COALESCE_CAP_SAFETY_MARGIN_MS) - 1) * 1000000"

lemma elapsed_bounds:
  assumes "- I64_MAX \<le> d" "d \<le> I64_MAX"
  shows "- (2 ^ 60) \<le> num_milliseconds d" "num_milliseconds d \<le> 2 ^ 60" "d < (num_milliseconds d + 1) * 1000000"
proof -
  have n: "num_milliseconds d = (if 0 \<le> d then d div 1000000 else - (- d div 1000000))"
    by (simp add: num_milliseconds_def trunc_div_def sgn_if)
  show "- (2 ^ 60) \<le> num_milliseconds d" "num_milliseconds d \<le> 2 ^ 60" "d < (num_milliseconds d + 1) * 1000000"
    using assms by (simp_all add: n I64_MAX_def split: if_splits, linarith+)
qed

lemma key_in_time:
  assumes s: "schedule_tx received required (current_slot_acceptance_cap_ms protocol late) rate period = Some s"
    and parity: "resolve_required_parity tx_parity self received period = Some required"
    and ext: "adaptive_coalesce_cap_ms tx_parity received self late rate period protocol = Some ext"
    and window: "coalesce_collect_window_ms protocol + COALESCE_CAP_SAFETY_MARGIN_MS \<le> tx_late_max_ms_effective protocol late"
    and late: "late \<le> 2 ^ 40" and d: "- I64_MAX \<le> received - target_slot s" "received - target_slot s \<le> I64_MAX"
    and early: "\<not> deferred s \<longrightarrow> ms_into received (target_slot s) \<le> current_slot_acceptance_cap_ms protocol late"
      "deferred s \<longrightarrow> received < target_slot s"
      "\<not> deferred s \<longrightarrow> target_slot s \<le> received"
    and key: "key \<le> last_key_instant protocol received ext"
  shows "\<not> key_time_too_late key (target_slot s) (tx_late_max_ms_effective protocol late)"
proof -
  let ?eff = "int (tx_late_max_ms_effective protocol late)" and ?w = "int (coalesce_collect_window_ms protocol)"
  let ?m = "int COALESCE_CAP_SAFETY_MARGIN_MS" and ?e = "num_milliseconds (received - target_slot s)"
  have eff: "?eff \<le> 2 ^ 40" using late
    by (cases protocol) (simp_all add: tx_late_max_ms_effective_def scaled_ms_Ft8 scaled_ms_Ft4)
  have w: "0 \<le> ?w" "?w \<le> 800" "?m = 500" using window_small(1) [of protocol] by (simp_all add: COALESCE_CAP_SAFETY_MARGIN_MS_def)
  have room: "0 \<le> ?eff - ?e - ?w - ?m"
  proof (cases "deferred s")
    case True
    then have "?e \<le> 0" using early(2) num_ms(2) [of "received - target_slot s"] by simp
    then show ?thesis using window by simp
  next
    case False
    then have "?e = int (ms_into received (target_slot s))" using early(3) by (simp add: num_ms ms_into_def)
    then show ?thesis using False early(1) window by (simp add: current_slot_acceptance_cap_ms_def)
  qed
  have head: "max 0 (i64_saturating_sub (i64_saturating_sub (i64_saturating_sub (i64_wrap ?eff) ?e) ?w) ?m) = ?eff - ?e - ?w - ?m"
    by (rule headroom_le) (use eff w room elapsed_bounds(1,2) [OF d] in simp_all)
  have "ext \<le> nat (?eff - ?e - ?w - ?m)"
    using ext s parity by (simp add: adaptive_coalesce_cap_ms_def head Let_def)
  then have "int ext \<le> ?eff - ?e - ?w - ?m" using room by simp
  moreover have "received - target_slot s < (?e + 1) * 1000000" by (rule elapsed_bounds(3) [OF d])
  moreover have "milliseconds (tx_late_max_ms_effective protocol late) = ?eff * 1000000"
    using eff by (simp add: milliseconds_def i64_wrap_id int_simps)
  ultimately show ?thesis using key by (simp add: key_time_too_late_def last_key_instant_def algebra_simps)
qed

text \<open>What is accepted is keyed. A request is given a slot when it is received; it then waits for the base window and, at most, for
  the extension that is computed for it, and is encoded within the reserved margin. If it is ready to key by then, the last check before keying never finds it
  too late for the slot it was given, current or deferred, for every accepted lateness up to about thirty years that leaves room for the window and the margin.\<close>

theorem accepted_requests_key_in_time:
  assumes "0 < period" "0 \<le> received" "received + 3 * period \<le> I64_MAX" "late \<le> 2 ^ 40"
    and "coalesce_collect_window_ms protocol + COALESCE_CAP_SAFETY_MARGIN_MS \<le> tx_late_max_ms_effective protocol late"
    and "schedule_tx received required (current_slot_acceptance_cap_ms protocol late) rate period = Some s"
    and "resolve_required_parity tx_parity self received period = Some required"
    and "adaptive_coalesce_cap_ms tx_parity received self late rate period protocol = Some ext"
    and "key \<le> last_key_instant protocol received ext"
  shows "\<not> key_time_too_late key (target_slot s) (tx_late_max_ms_effective protocol late)"
proof -
  have "if deferred s then received < target_slot s \<and> target_slot s \<le> received + 2 * period
      else target_slot s \<le> received \<and> received < target_slot s + period \<and>
        ms_into received (target_slot s) \<le> current_slot_acceptance_cap_ms protocol late"
    using slot_grid.schedule_tx_spec [of period received required "current_slot_acceptance_cap_ms protocol late" rate] assms
    by (auto simp: slot_grid_def)
  moreover from this have "- I64_MAX \<le> received - target_slot s" "received - target_slot s \<le> I64_MAX"
    using assms(1-3) by (auto split: if_splits)
  ultimately show ?thesis
    by (intro key_in_time [OF assms(6,7,8,5,4) _ _ _ _ _ assms(9)]) (auto split: if_splits)
qed

theorem accepted_requests_key_in_time_witness:
  "\<exists>s ext. schedule_tx 16000000000 Odd (current_slot_acceptance_cap_ms Ft8 3000) 12000 15000000000 = Some s \<and>
     adaptive_coalesce_cap_ms (Some Odd) 16000000000 Parity_Auto 3000 12000 15000000000 Ft8 = Some ext \<and>
     \<not> key_time_too_late (last_key_instant Ft8 16000000000 ext) (target_slot s) (tx_late_max_ms_effective Ft8 3000)"
proof -
  have h: "(0 :: int) < 15000000000" "(0 :: int) \<le> 16000000000" "16000000000 + 3 * 15000000000 \<le> I64_MAX" by (simp_all add: I64_MAX_def)
  have p: "resolve_required_parity (Some Odd) Parity_Auto 16000000000 15000000000 = Some Odd" by (simp add: resolve_required_parity_def)
  obtain s where s: "schedule_tx 16000000000 Odd (current_slot_acceptance_cap_ms Ft8 3000) 12000 15000000000 = Some s"
    using schedule_tx_correct [OF h] by blast
  obtain ext where e: "adaptive_coalesce_cap_ms (Some Odd) 16000000000 Parity_Auto 3000 12000 15000000000 Ft8 = Some ext"
    using p s by (simp add: adaptive_coalesce_cap_ms_def Let_def)
  have w: "coalesce_collect_window_ms Ft8 + COALESCE_CAP_SAFETY_MARGIN_MS \<le> tx_late_max_ms_effective Ft8 3000"
    by (simp add: coalesce_collect_window_ms_def tx_late_max_ms_effective_def scaled_ms_Ft8 COALESCE_COLLECT_WINDOW_MS_def
        COALESCE_CAP_SAFETY_MARGIN_MS_def)
  have "\<not> key_time_too_late (last_key_instant Ft8 16000000000 ext) (target_slot s) (tx_late_max_ms_effective Ft8 3000)"
    by (rule accepted_requests_key_in_time [OF h _ w s p e]) simp_all
  with s e show ?thesis by blast
qed

section \<open>The wait ends, and ends in time\<close>

text \<open>A clock that is not stepped: by the next turn it has advanced by at least what the wait slept.\<close>

fun steady :: "int \<Rightarrow> (bool \<times> int) list \<Rightarrow> bool" where
  "steady ptt_target ((s, a) # (s', b) # turns) \<longleftrightarrow>
     (a < ptt_target \<longrightarrow> a + min (ptt_target - a) 50000000 \<le> b) \<and> steady ptt_target ((s', b) # turns)"
| "steady ptt_target _ \<longleftrightarrow> True"

lemma wait_step_cases:
  "now < ptt_target \<Longrightarrow> ptt_target - now \<le> 2 * period \<Longrightarrow> \<exists>d. ptt_wait_step now ptt_target target w late period = Sleep d"
  "ptt_wait_step now ptt_target target w late period = Sleep d \<Longrightarrow> now < ptt_target \<and> ptt_target - now \<le> 2 * period"
  by (auto simp: ptt_wait_step_def Let_def split: if_splits)

lemma wait_ends:
  assumes "steady ptt_target ((stop, now) # turns)" and "ptt_target - now \<le> int (length turns) * 50000000"
  shows "\<exists>r. wait_from w ptt_target target late period ((stop, now) # turns) = Some r"
  using assms
proof (induction turns arbitrary: stop now w)
  case Nil
  then have "ptt_wait_step now ptt_target target v late period \<noteq> Sleep d" for v d using wait_step_cases(2) by force
  then show ?case by (auto simp: Let_def split: ptt_wait_outcome.split)
next
  case (Cons t turns)
  obtain s' b where t: "t = (s', b)" by (cases t)
  show ?case
  proof (cases "stop \<or> ptt_target \<le> now")
    case True
    then have "ptt_wait_step now ptt_target target v late period \<noteq> Sleep d" if "\<not> stop" for v d using that wait_step_cases(2) by force
    then show ?thesis by (auto simp: Let_def split: ptt_wait_outcome.split)
  next
    case False
    then have b: "now + min (ptt_target - now) 50000000 \<le> b" "steady ptt_target ((s', b) # turns)" using Cons.prems(1) t by auto
    have "ptt_target - b \<le> int (length turns) * 50000000" using b(1) Cons.prems(2) False by (auto simp: min_def split: if_splits)
    then have "\<exists>r. wait_from v ptt_target target late period ((s', b) # turns) = Some r" for v using Cons.IH b(2) by blast
    then show ?thesis using t by (auto simp: Let_def split: ptt_wait_outcome.split simp del: wait_from.simps(2) intro: wait_from.simps(2) [THEN ssubst])
  qed
qed

text \<open>The wait for the instant to key ends. While the clock is not stepped, as many turns of the loop as there are fifty-millisecond steps
  left at the first one, and one more, are enough, whatever the flags and the target.\<close>

theorem ptt_wait_ends:
  assumes "steady ptt_target turns" and "turns \<noteq> []" and "ptt_target - snd (hd turns) \<le> (int (length turns) - 1) * 50000000"
  shows "wait_for_ptt_instant ptt_target target late period turns \<noteq> None"
proof -
  obtain stop now rest where t: "turns = (stop, now) # rest" using assms(2) by (cases turns) auto
  then show ?thesis using wait_ends [of ptt_target stop now rest None target late period] assms(1,3)
    by (auto simp: wait_for_ptt_instant_def simp del: wait_from.simps)
qed

theorem ptt_wait_ends_witness:
  "wait_for_ptt_instant 120000000 200000000 3000 15000000000 [(False, 0), (False, 50000000), (False, 101000000), (False, 121000000)] \<noteq> None"
  by (rule ptt_wait_ends) simp_all

text \<open>A turn that goes on waiting.\<close>

definition waits :: "int \<Rightarrow> int \<Rightarrow> bool \<times> int \<Rightarrow> bool" where
  "waits ptt_target period t \<longleftrightarrow> \<not> fst t \<and> snd t < ptt_target \<and> ptt_target - snd t \<le> 2 * period"

lemma wait_from_waits:
  "waits ptt_target period t \<Longrightarrow> wait_from w ptt_target target late period (t # turns) =
     wait_from (Some (case w of Some w \<Rightarrow> w | None \<Rightarrow> True)) ptt_target target late period turns"
  by (cases t; cases w) (auto simp: waits_def ptt_wait_step_def Let_def)

lemma wait_from_reached:
  assumes "0 < period" and "\<not> waits ptt_target period (stop, now)"
  shows "wait_from w ptt_target target late period ((stop, now) # turns) = Some Reached \<longleftrightarrow>
     \<not> stop \<and> ptt_target \<le> now \<and> (w = Some True \<longrightarrow> now - target \<le> milliseconds late)"
  using assms by (cases w) (auto simp: waits_def ptt_wait_step_def Let_def)

lemma wait_reached_only:
  assumes "0 < period"
  shows "wait_from w ptt_target target late period turns = Some Reached \<Longrightarrow>
     \<exists>before now after. turns = before @ (False, now) # after \<and> ptt_target \<le> now \<and> (\<forall>t \<in> set before. waits ptt_target period t) \<and>
        (w = Some True \<or> w = None \<and> before \<noteq> [] \<longrightarrow> now - target \<le> milliseconds late)"
proof (induction turns arbitrary: w)
  case (Cons t turns)
  show ?case
  proof (cases "waits ptt_target period t")
    case True
    let ?w = "Some (case w of Some w \<Rightarrow> w | None \<Rightarrow> True)"
    obtain before now after where *: "turns = before @ (False, now) # after" "ptt_target \<le> now"
      "\<forall>t \<in> set before. waits ptt_target period t" "?w = Some True \<or> ?w = None \<and> before \<noteq> [] \<longrightarrow> now - target \<le> milliseconds late"
      using Cons.IH [of ?w] Cons.prems wait_from_waits [OF True] by auto
    then show ?thesis using True by (intro exI [of _ "t # before"] exI [of _ now] exI [of _ after]) (cases w; auto)
  next
    case False
    obtain stop now where t: "t = (stop, now)" by (cases t)
    show ?thesis using Cons.prems False wait_from_reached [OF assms False [unfolded t]]
      by (intro exI [of _ "[]"] exI [of _ now] exI [of _ turns]) (simp add: t)
  qed
qed simp

lemma wait_reached_if:
  assumes "0 < period"
  shows "ptt_target \<le> now \<Longrightarrow> \<forall>t \<in> set before. waits ptt_target period t \<Longrightarrow>
     w = Some True \<or> w = None \<and> before \<noteq> [] \<longrightarrow> now - target \<le> milliseconds late \<Longrightarrow>
     wait_from w ptt_target target late period (before @ (False, now) # after) = Some Reached"
proof (induction before arbitrary: w)
  case Nil
  then have "\<not> waits ptt_target period (False, now)" by (simp add: waits_def)
  from wait_from_reached [OF assms this] show ?case using Nil by (simp del: wait_from.simps)
next
  case (Cons t before)
  then have "wait_from (Some (case w of Some w \<Rightarrow> w | None \<Rightarrow> True)) ptt_target target late period (before @ (False, now) # after) = Some Reached"
    by (intro Cons.IH) (auto split: option.splits)
  then show ?case using Cons.prems(2) by (simp add: wait_from_waits del: wait_from.simps)
qed

text \<open>The transmitter keys exactly in time, whatever happens to the clock. For any readings, steps forward and backward included, the wait reaches
  its end precisely when some turn finds the instant reached, every turn before it found it ahead by at most two periods with
  neither flag set, and, if there was such a turn, the frame is not later in its slot than the policy allows.\<close>

theorem ptt_reached_exactly_in_time:
  assumes "0 < period"
  shows "wait_for_ptt_instant ptt_target target late period turns = Some Reached \<longleftrightarrow>
     (\<exists>before now after. turns = before @ (False, now) # after \<and> ptt_target \<le> now \<and>
        (\<forall>t \<in> set before. \<not> fst t \<and> snd t < ptt_target \<and> ptt_target - snd t \<le> 2 * period) \<and>
        (before \<noteq> [] \<longrightarrow> \<not> key_time_too_late now target late))"
proof
  assume "wait_for_ptt_instant ptt_target target late period turns = Some Reached"
  from wait_reached_only [OF assms this [unfolded wait_for_ptt_instant_def]]
  show "\<exists>before now after. turns = before @ (False, now) # after \<and> ptt_target \<le> now \<and>
      (\<forall>t \<in> set before. \<not> fst t \<and> snd t < ptt_target \<and> ptt_target - snd t \<le> 2 * period) \<and>
      (before \<noteq> [] \<longrightarrow> \<not> key_time_too_late now target late)"
    unfolding waits_def key_time_too_late_def not_less by simp
next
  assume "\<exists>before now after. turns = before @ (False, now) # after \<and> ptt_target \<le> now \<and>
      (\<forall>t \<in> set before. \<not> fst t \<and> snd t < ptt_target \<and> ptt_target - snd t \<le> 2 * period) \<and>
      (before \<noteq> [] \<longrightarrow> \<not> key_time_too_late now target late)"
  then show "wait_for_ptt_instant ptt_target target late period turns = Some Reached"
    using wait_reached_if [OF assms] unfolding wait_for_ptt_instant_def waits_def key_time_too_late_def not_less by blast
qed

theorem ptt_reached_exactly_in_time_witness:
  "wait_for_ptt_instant 120000000 200000000 3000 15000000000 [(False, 0), (False, 3300000000)] \<noteq> Some Reached"
  using ptt_reached_exactly_in_time [of 15000000000 120000000 200000000 3000 "[(False, 0), (False, 3300000000)]"]
  by (auto simp: Cons_eq_append_conv key_time_too_late_def milliseconds_def i64_wrap_def)

end
