(* ===== verification/Tx_Bundle.thy ===== *)
theory Tx_Bundle
  imports Slot Station_Agent "HOL-Library.Multiset" "HOL-Library.Sublist"
begin

text \<open>
  The requests of the transmit worker (\<open>coordinator/tx.rs\<close>, \<open>coordinator/mod.rs\<close>): the identity of a contact in the active
  set, the swap of a waiting frame for a fresher one, the authority a bundle of frames is checked under, and the coalescing of the
  queue into what is sent in one slot. A frequency offset is a finite \<open>f64\<close>, here the rational it denotes.
\<close>

section \<open>Requests\<close>

record tx_item =
  it_message_text :: string
  it_frequency_offset :: rat
  it_qso_id :: "string option"
  it_origin :: tx_origin
  it_client :: "string option"
  it_attempt_id :: "nat option"

text \<open>A single request, as it is sent and as the coalescer reduces it, is an item with the parity it needs.\<close>

record coalesce_entry =
  ce_item :: tx_item
  ce_tx_parity :: "slot_parity option"

abbreviation ce_qso_id :: "coalesce_entry \<Rightarrow> string option" where "ce_qso_id e \<equiv> it_qso_id (ce_item e)"
abbreviation ce_origin :: "coalesce_entry \<Rightarrow> tx_origin" where "ce_origin e \<equiv> it_origin (ce_item e)"
abbreviation ce_client :: "coalesce_entry \<Rightarrow> string option" where "ce_client e \<equiv> it_client (ce_item e)"
abbreviation ce_freq :: "coalesce_entry \<Rightarrow> rat" where "ce_freq e \<equiv> it_frequency_offset (ce_item e)"

datatype tx_message =
    Transmit_Request coalesce_entry
  | Multi_Transmit "tx_item list" "slot_parity option" tx_origin "string option"
  | Other_Tx_Message string

definition active_tx_qso_key :: "string \<Rightarrow> string" where
  "active_tx_qso_key qso_id = to_upper (trim qso_id)"

text \<open>The set of active contacts; \<open>None\<close> is a poisoned lock, which fails open.\<close>

definition tx_qso_is_live :: "string option \<Rightarrow> string set option \<Rightarrow> bool" where
  "tx_qso_is_live qso_id active =
     (case active of
        None \<Rightarrow> True
      | Some live \<Rightarrow> (case qso_id of None \<Rightarrow> True | Some i \<Rightarrow> active_tx_qso_key i \<in> live))"

definition multi_tx_bundle_still_fully_live :: "string option list \<Rightarrow> string set option \<Rightarrow> bool" where
  "multi_tx_bundle_still_fully_live qso_ids active = list_all (\<lambda>i. tx_qso_is_live i active) qso_ids"

section \<open>Pivots\<close>

record latest_tx_intent =
  li_message_text :: string
  li_frequency_offset :: rat
  li_tx_parity :: "slot_parity option"
  li_origin :: tx_origin
  li_client :: "string option"
  li_attempt_id :: "nat option"
  li_request_queued :: bool

definition settle_tx_intent ::
    "string \<Rightarrow> latest_tx_intent \<Rightarrow> bool \<Rightarrow> (string \<rightharpoonup> latest_tx_intent) \<Rightarrow> (string \<rightharpoonup> latest_tx_intent)" where
  "settle_tx_intent key published queued m =
     (if m key \<noteq> Some published then m
      else if queued then m(key \<mapsto> published \<lparr> li_request_queued := True \<rparr>)
      else m(key := None))"

definition PIVOT_OFFSET_EPSILON_HZ :: rat where "PIVOT_OFFSET_EPSILON_HZ = 1 / 2"

definition tx_pivot_target ::
    "string option \<Rightarrow> string \<Rightarrow> rat \<Rightarrow> (tx_origin \<times> string option) option \<Rightarrow> (string \<rightharpoonup> latest_tx_intent) \<Rightarrow> latest_tx_intent option" where
  "tx_pivot_target qso_id current_text current_offset current_authorization latest =
     (case qso_id of
        None \<Rightarrow> None
      | Some i \<Rightarrow>
          (case latest (active_tx_qso_key i) of
             None \<Rightarrow> None
           | Some intent \<Rightarrow>
               if \<not> li_request_queued intent then None
               else
                 let same_text = (li_message_text intent = current_text);
                     same_offset = (\<bar>li_frequency_offset intent - current_offset\<bar> < PIVOT_OFFSET_EPSILON_HZ);
                     same_authorization = (case current_authorization of
                        Some (origin, client) \<Rightarrow> li_origin intent = origin \<and> li_client intent = client
                      | None \<Rightarrow> True)
                 in if same_text \<and> same_offset \<and> same_authorization then None else Some intent))"

definition is_pivot_duplicate :: "string option \<Rightarrow> string \<Rightarrow> rat \<Rightarrow> (string \<rightharpoonup> string \<times> rat) \<Rightarrow> bool" where
  "is_pivot_duplicate qso_id text offset pivoted_once =
     (case qso_id of
        None \<Rightarrow> False
      | Some i \<Rightarrow> (case pivoted_once (active_tx_qso_key i) of Some p \<Rightarrow> p = (text, offset) | None \<Rightarrow> False))"

definition pivot_item :: "(string \<rightharpoonup> latest_tx_intent) \<Rightarrow> tx_item \<Rightarrow> tx_item \<times> (string \<times> string \<times> rat) list" where
  "pivot_item latest it =
     (case (tx_pivot_target (it_qso_id it) (it_message_text it) (it_frequency_offset it) (Some (it_origin it, it_client it)) latest,
            it_qso_id it) of
        (Some intent, Some i) \<Rightarrow>
          (it \<lparr> it_message_text := li_message_text intent, it_frequency_offset := li_frequency_offset intent,
                it_origin := li_origin intent, it_client := li_client intent, it_attempt_id := li_attempt_id intent \<rparr>,
           [(active_tx_qso_key i, li_message_text intent, li_frequency_offset intent)])
      | _ \<Rightarrow> (it, []))"

definition pivot_bundle_items :: "tx_item list \<Rightarrow> (string \<rightharpoonup> latest_tx_intent) \<Rightarrow> tx_item list \<times> (string \<times> string \<times> rat) list" where
  "pivot_bundle_items items latest = (map (fst \<circ> pivot_item latest) items, concat (map (snd \<circ> pivot_item latest) items))"

section \<open>The authority of a bundle\<close>

definition fold_bundle_identity :: "tx_item list \<Rightarrow> tx_origin \<times> string option" where
  "fold_bundle_identity items =
     (let remote = filter (\<lambda>it. it_origin it = Remote_Origin) items
      in if remote = [] then (Local_Origin, None)
         else (Remote_Origin, case List.map_filter it_client remote of [] \<Rightarrow> None | c # _ \<Rightarrow> Some c))"

definition remote_identities_conflict :: "tx_origin \<times> string option \<Rightarrow> tx_origin \<times> string option \<Rightarrow> bool" where
  "remote_identities_conflict a b \<longleftrightarrow> fst a = Remote_Origin \<and> fst b = Remote_Origin \<and> snd a \<noteq> snd b"

abbreviation identity_of :: "tx_item \<Rightarrow> tx_origin \<times> string option" where "identity_of it \<equiv> (it_origin it, it_client it)"

definition bundle_identity_conflict_mask :: "tx_item list \<Rightarrow> bool list \<Rightarrow> tx_origin \<times> string option \<Rightarrow> bool list" where
  "bundle_identity_conflict_mask items live admitted =
     (let live_remote = map (\<lambda>(it, _). identity_of it) (filter (\<lambda>(it, l). l \<and> it_origin it = Remote_Origin) (zip items live));
          anchor = (if fst admitted = Remote_Origin \<and> admitted \<in> set live_remote then Some admitted
                    else case live_remote of [] \<Rightarrow> None | b # _ \<Rightarrow> Some b)
      in map (\<lambda>(it, l). l \<and> (case anchor of Some a \<Rightarrow> remote_identities_conflict a (identity_of it) | None \<Rightarrow> False)) (zip items live))"

section \<open>Coalescing\<close>

definition MAX_RETAINED_TX_STREAMS :: nat where "MAX_RETAINED_TX_STREAMS = 8"
definition MIN_TX_SEPARATION_HZ :: rat where "MIN_TX_SEPARATION_HZ = 75"

definition effective_max_concurrent_qsos :: "nat \<Rightarrow> bool \<Rightarrow> nat \<Rightarrow> nat" where
  "effective_max_concurrent_qsos max_concurrent_qsos fox_mode fox_max_streams =
     (if fox_mode then max max_concurrent_qsos (fox_max_streams + 1) else max_concurrent_qsos)"

definition live_fox_admitted_count :: "string set option \<Rightarrow> string set option \<Rightarrow> nat" where
  "live_fox_admitted_count fox active =
     (case (fox, active) of (Some f, Some a) \<Rightarrow> card (f \<inter> a) | _ \<Rightarrow> 0)"

definition supersede_max_concurrent_qsos :: "nat \<Rightarrow> nat \<Rightarrow> nat" where
  "supersede_max_concurrent_qsos effective live_fox = min (2 ^ 32 - 1) (effective + live_fox)"

record coalesce_outcome =
  co_retained :: "coalesce_entry list"
  co_coalesced :: nat
  co_dropped_terminal :: nat
  co_dropped_terminal_entries :: "coalesce_entry list"
  co_truncated :: nat
  co_truncated_entries :: "coalesce_entry list"
  co_qso_cap :: nat
  co_parity_excluded :: nat
  co_freq_excluded :: nat
  co_excluded_entries :: "coalesce_entry list"

definition is_noop :: "coalesce_outcome \<Rightarrow> bool" where
  "is_noop o' \<longleftrightarrow> co_coalesced o' = 0 \<and> co_dropped_terminal o' = 0 \<and> co_truncated o' = 0 \<and> co_parity_excluded o' = 0 \<and>
     co_freq_excluded o' = 0"

text \<open>The first pass: the newest request of each contact, in the order the contacts were first seen, and the manual ones.\<close>

record coalesce_pass =
  cp_order :: "string list"
  cp_by_qso :: "string \<rightharpoonup> coalesce_entry"
  cp_manual :: "coalesce_entry list"
  cp_coalesced :: nat
  cp_dropped :: "coalesce_entry list"

definition pass_start :: coalesce_pass where
  "pass_start = \<lparr> cp_order = [], cp_by_qso = Map.empty, cp_manual = [], cp_coalesced = 0, cp_dropped = [] \<rparr>"

definition collect_entry :: "(string option \<Rightarrow> bool) \<Rightarrow> coalesce_entry \<Rightarrow> coalesce_pass \<Rightarrow> coalesce_pass" where
  "collect_entry qso_is_live e p =
     (if \<not> qso_is_live (ce_qso_id e) then p \<lparr> cp_dropped := cp_dropped p @ [e] \<rparr>
      else case ce_qso_id e of
             None \<Rightarrow> p \<lparr> cp_manual := cp_manual p @ [e] \<rparr>
           | Some i \<Rightarrow>
               let key = active_tx_qso_key i
               in if cp_by_qso p key \<noteq> None
                  then p \<lparr> cp_by_qso := (cp_by_qso p)(key \<mapsto> e), cp_coalesced := cp_coalesced p + 1 \<rparr>
                  else p \<lparr> cp_by_qso := (cp_by_qso p)(key \<mapsto> e), cp_order := cp_order p @ [key] \<rparr>)"

definition assemble :: "(string \<Rightarrow> bool) \<Rightarrow> coalesce_pass \<Rightarrow> coalesce_entry list" where
  "assemble is_fox_admitted p =
     List.map_filter (cp_by_qso p) (filter is_fox_admitted (cp_order p)) @
     List.map_filter (cp_by_qso p) (filter (\<lambda>k. \<not> is_fox_admitted k) (cp_order p)) @ cp_manual p"

definition parity_disagrees :: "slot_parity option \<Rightarrow> coalesce_entry \<Rightarrow> bool" where
  "parity_disagrees anchor e = (case (anchor, ce_tx_parity e) of (Some a, Some p) \<Rightarrow> a \<noteq> p | _ \<Rightarrow> False)"

fun exclude_parity :: "coalesce_entry list \<Rightarrow> coalesce_entry list \<times> coalesce_entry list" where
  "exclude_parity [] = ([], [])"
| "exclude_parity (a # rest) =
     (a # filter (\<lambda>e. \<not> parity_disagrees (ce_tx_parity a) e) rest, filter (parity_disagrees (ce_tx_parity a)) rest)"

definition too_close :: "coalesce_entry list \<Rightarrow> coalesce_entry \<Rightarrow> bool" where
  "too_close kept e = list_ex (\<lambda>k. \<bar>ce_freq k - ce_freq e\<bar> < MIN_TX_SEPARATION_HZ) kept"

fun separate :: "coalesce_entry list \<Rightarrow> coalesce_entry list \<Rightarrow> coalesce_entry list \<times> coalesce_entry list" where
  "separate kept [] = (kept, [])"
| "separate kept (e # es) =
     (if too_close kept e then (case separate kept es of (k, x) \<Rightarrow> (k, e # x)) else separate (kept @ [e]) es)"

definition is_fox_entry :: "(string \<Rightarrow> bool) \<Rightarrow> coalesce_entry \<Rightarrow> bool" where
  "is_fox_entry is_fox_admitted e = (case ce_qso_id e of Some i \<Rightarrow> is_fox_admitted (active_tx_qso_key i) | None \<Rightarrow> False)"

definition coalesce_transmit_requests_with_fox_priority ::
    "coalesce_entry list \<Rightarrow> nat \<Rightarrow> (string option \<Rightarrow> bool) \<Rightarrow> (string \<Rightarrow> bool) \<Rightarrow> coalesce_outcome" where
  "coalesce_transmit_requests_with_fox_priority drained max_concurrent_qsos qso_is_live is_fox_admitted =
     (let p = fold (collect_entry qso_is_live) drained pass_start;
          (retained, parity_out) = exclude_parity (assemble is_fox_admitted p);
          (qsos, freq_out) = separate [] (filter (\<lambda>e. ce_qso_id e \<noteq> None) retained);
          fox_present = length (filter (is_fox_entry is_fox_admitted) qsos);
          qso_cap = min (max (max max_concurrent_qsos 1) fox_present) MAX_RETAINED_TX_STREAMS;
          (kept, manual_out) = separate (take qso_cap qsos) (filter (\<lambda>e. ce_qso_id e = None) retained);
          truncated = drop qso_cap qsos @ drop MAX_RETAINED_TX_STREAMS kept
      in \<lparr> co_retained = take MAX_RETAINED_TX_STREAMS kept, co_coalesced = cp_coalesced p,
           co_dropped_terminal = length (cp_dropped p), co_dropped_terminal_entries = cp_dropped p,
           co_truncated = length truncated, co_truncated_entries = truncated, co_qso_cap = qso_cap,
           co_parity_excluded = length parity_out, co_freq_excluded = length freq_out + length manual_out,
           co_excluded_entries = parity_out @ freq_out @ manual_out \<rparr>)"

definition coalesce_transmit_requests :: "coalesce_entry list \<Rightarrow> nat \<Rightarrow> (string option \<Rightarrow> bool) \<Rightarrow> coalesce_outcome" where
  "coalesce_transmit_requests drained max_concurrent_qsos qso_is_live =
     coalesce_transmit_requests_with_fox_priority drained max_concurrent_qsos qso_is_live (\<lambda>_. False)"

section \<open>What coalescing keeps\<close>

definition entry_key :: "coalesce_entry \<Rightarrow> string option" where
  "entry_key e = map_option active_tx_qso_key (ce_qso_id e)"

text \<open>The requests of one live contact, in the order of the queue.\<close>

definition stream :: "(string option \<Rightarrow> bool) \<Rightarrow> coalesce_entry list \<Rightarrow> string \<Rightarrow> coalesce_entry list" where
  "stream live ds k = filter (\<lambda>e. live (ce_qso_id e) \<and> entry_key e = Some k) ds"

definition newest :: "(string option \<Rightarrow> bool) \<Rightarrow> coalesce_entry list \<Rightarrow> string \<Rightarrow> coalesce_entry option" where
  "newest live ds k = (if stream live ds k = [] then None else Some (last (stream live ds k)))"

lemma stream_snoc: "stream live (ds @ [e]) k = stream live ds k @ (if live (ce_qso_id e) \<and> entry_key e = Some k then [e] else [])"
  by (simp add: stream_def)

definition collected_from :: "(string option \<Rightarrow> bool) \<Rightarrow> coalesce_entry list \<Rightarrow> coalesce_pass \<Rightarrow> bool" where
  "collected_from live ds p \<longleftrightarrow>
     cp_by_qso p = newest live ds \<and> distinct (cp_order p) \<and> (\<forall>k. k \<in> set (cp_order p) \<longleftrightarrow> stream live ds k \<noteq> []) \<and>
     cp_manual p = filter (\<lambda>e. live (ce_qso_id e) \<and> ce_qso_id e = None) ds \<and>
     cp_dropped p = filter (\<lambda>e. \<not> live (ce_qso_id e)) ds \<and>
     cp_coalesced p + length (cp_order p) = length (filter (\<lambda>e. live (ce_qso_id e) \<and> ce_qso_id e \<noteq> None) ds)"

lemma collect_step:
  assumes "collected_from live ds p"
  shows "collected_from live (ds @ [e]) (collect_entry live e p)"
proof -
  have by_qso: "cp_by_qso p k \<noteq> None \<longleftrightarrow> stream live ds k \<noteq> []" for k
    using assms by (simp add: collected_from_def newest_def)
  consider "\<not> live (ce_qso_id e)" | "live (ce_qso_id e)" "ce_qso_id e = None"
    | i where "live (ce_qso_id e)" "ce_qso_id e = Some i" by (cases "ce_qso_id e") auto
  then show ?thesis
  proof cases
    case 1
    then show ?thesis using assms by (simp add: collected_from_def collect_entry_def newest_def stream_snoc fun_eq_iff)
  next
    case 2
    then show ?thesis using assms
      by (simp add: collected_from_def collect_entry_def newest_def stream_snoc entry_key_def fun_eq_iff)
  next
    case 3
    let ?k = "active_tx_qso_key i"
    have s: "stream live (ds @ [e]) k = stream live ds k @ (if k = ?k then [e] else [])" for k
      using 3 by (auto simp: stream_snoc entry_key_def)
    have n: "newest live (ds @ [e]) = (newest live ds)(?k \<mapsto> e)" by (auto simp: newest_def s fun_eq_iff)
    have p: "collect_entry live e p =
        (if stream live ds ?k \<noteq> [] then p \<lparr> cp_by_qso := (cp_by_qso p)(?k \<mapsto> e), cp_coalesced := cp_coalesced p + 1 \<rparr>
         else p \<lparr> cp_by_qso := (cp_by_qso p)(?k \<mapsto> e), cp_order := cp_order p @ [?k] \<rparr>)"
      using 3 by_qso [of ?k] by (simp add: collect_entry_def Let_def)
    show ?thesis using assms 3 unfolding p by (auto simp: collected_from_def n s)
  qed
qed

lemma collected: "collected_from live ds (fold (collect_entry live) ds pass_start)"
proof (induction ds rule: rev_induct)
  case Nil
  show ?case by (simp add: collected_from_def pass_start_def newest_def stream_def fun_eq_iff)
next
  case (snoc e ds)
  then show ?case by (simp add: collect_step)
qed

lemma newest_key: "newest live ds k = Some e \<Longrightarrow> entry_key e = Some k \<and> live (ce_qso_id e) \<and> e \<in> set ds"
proof -
  assume "newest live ds k = Some e"
  then have "e \<in> set (stream live ds k)" by (auto simp: newest_def split: if_splits)
  then show ?thesis by (simp add: stream_def)
qed

text \<open>The streams of a bundle in its order: the requests of contacts Fox mode opened, of the others, and the manual ones.\<close>

definition ordered_keys :: "(string \<Rightarrow> bool) \<Rightarrow> coalesce_pass \<Rightarrow> string list" where
  "ordered_keys fox p = filter fox (cp_order p) @ filter (\<lambda>k. \<not> fox k) (cp_order p)"

lemma ordered_keys: "set (ordered_keys fox p) = set (cp_order p)" "length (ordered_keys fox p) = length (cp_order p)"
  by (auto simp: ordered_keys_def sum_length_filter_compl)


definition stream_list :: "(string \<Rightarrow> bool) \<Rightarrow> coalesce_pass \<Rightarrow> coalesce_entry list" where
  "stream_list fox p = map (\<lambda>k. the (cp_by_qso p k)) (ordered_keys fox p)"

lemma assemble_streams:
  assumes "collected_from live ds p"
  shows "assemble fox p = stream_list fox p @ cp_manual p"
    and "\<forall>e \<in> set (stream_list fox p). \<exists>k. entry_key e = Some k \<and> newest live ds k = Some e"
    and "map entry_key (stream_list fox p) = map Some (ordered_keys fox p)"
proof -
  have some: "k \<in> set (cp_order p) \<Longrightarrow> \<exists>e. cp_by_qso p k = Some e \<and> entry_key e = Some k \<and> newest live ds k = Some e" for k
    using assms newest_key [of live ds k] by (auto simp: collected_from_def newest_def [of live ds k])
  have mf: "set ks \<subseteq> set (cp_order p) \<Longrightarrow> List.map_filter (cp_by_qso p) ks = map (\<lambda>k. the (cp_by_qso p k)) ks" for ks
    by (induction ks) (auto simp: map_filter_simps dest!: some)
  show "assemble fox p = stream_list fox p @ cp_manual p"
    by (simp add: assemble_def stream_list_def ordered_keys_def mf)
  show "\<forall>e \<in> set (stream_list fox p). \<exists>k. entry_key e = Some k \<and> newest live ds k = Some e"
    using some by (force simp: stream_list_def ordered_keys(1))
  show "map entry_key (stream_list fox p) = map Some (ordered_keys fox p)"
    using some by (force simp: stream_list_def ordered_keys(1))
qed

definition far_apart :: "coalesce_entry \<Rightarrow> coalesce_entry \<Rightarrow> bool" where
  "far_apart a b \<longleftrightarrow> MIN_TX_SEPARATION_HZ \<le> \<bar>ce_freq a - ce_freq b\<bar>"

lemma far_apart_snoc: "\<not> too_close kept e \<Longrightarrow> sorted_wrt far_apart kept \<Longrightarrow> sorted_wrt far_apart (kept @ [e])"
  by (auto simp: sorted_wrt_append too_close_def list_ex_iff far_apart_def not_less)

lemma separate_spec:
  assumes "separate kept es = (k, x)"
  shows "\<exists>ys. k = kept @ ys \<and> subseq ys es \<and> mset ys + mset x = mset es \<and> (sorted_wrt far_apart kept \<longrightarrow> sorted_wrt far_apart k)"
  using assms
proof (induction es arbitrary: kept k x)
  case Nil
  then show ?case by simp
next
  case (Cons e es)
  show ?case
  proof (cases "too_close kept e")
    case True
    then obtain x' where "separate kept es = (k, x')" "x = e # x'" using Cons.prems by (auto split: prod.splits)
    then show ?thesis using Cons.IH [of kept k x'] by auto
  next
    case False
    then have "separate (kept @ [e]) es = (k, x)" using Cons.prems by simp
    then obtain ys where "k = (kept @ [e]) @ ys" "subseq ys es" "mset ys + mset x = mset es"
        "sorted_wrt far_apart (kept @ [e]) \<longrightarrow> sorted_wrt far_apart k"
      using Cons.IH [of "kept @ [e]" k x] by auto
    then show ?thesis using far_apart_snoc [OF False] by (intro exI [of _ "e # ys"]) simp
  qed
qed

lemma exclude_parity_spec:
  assumes "exclude_parity es = (k, x)"
  shows "mset k + mset x = mset es" "subseq k es" "es \<noteq> [] \<Longrightarrow> k \<noteq> [] \<and> hd k = hd es"
    "\<forall>e \<in> set k. e = hd es \<or> \<not> parity_disagrees (ce_tx_parity (hd es)) e"
proof -
  have "mset k + mset x = mset es \<and> subseq k es \<and> (es \<noteq> [] \<longrightarrow> k \<noteq> [] \<and> hd k = hd es) \<and>
      (\<forall>e \<in> set k. e = hd es \<or> \<not> parity_disagrees (ce_tx_parity (hd es)) e)"
    using assms by (cases es) (auto simp: subseq_filter_left)
  then show "mset k + mset x = mset es" "subseq k es" "es \<noteq> [] \<Longrightarrow> k \<noteq> [] \<and> hd k = hd es"
    "\<forall>e \<in> set k. e = hd es \<or> \<not> parity_disagrees (ce_tx_parity (hd es)) e" by blast+
qed

text \<open>A priority order survives the exclusions: what is left still has the prioritised streams first.\<close>

lemma subseq_set: "subseq xs ys \<Longrightarrow> set xs \<subseteq> set ys"
  by (auto elim: list_emb_set)


lemma subseq_partition:
  assumes "subseq xs (as @ bs)" "\<forall>a \<in> set as. P a" "\<forall>b \<in> set bs. \<not> P b"
  shows "xs = filter P xs @ filter (\<lambda>x. \<not> P x) xs"
proof -
  obtain us vs where xs: "xs = us @ vs" "subseq us as" "subseq vs bs" using assms(1) by (auto simp: subseq_append_iff)
  have "filter P us = us" "filter P vs = []" "filter (\<lambda>x. \<not> P x) us = []" "filter (\<lambda>x. \<not> P x) vs = vs"
    using assms(2,3) subseq_set [OF xs(2)] subseq_set [OF xs(3)] by (auto simp: filter_id_conv filter_empty_conv)
  then show ?thesis by (simp add: xs(1))
qed

text \<open>The stages of the coalescer, named.\<close>

lemma coalesce_stages:
  fixes ds max_qsos live fox
  defines "o' \<equiv> coalesce_transmit_requests_with_fox_priority ds max_qsos live fox"
  obtains p streams qsos freq_out ys manual_out where
    "p = fold (collect_entry live) ds pass_start" "collected_from live ds p"
    "streams = fst (exclude_parity (assemble fox p))"
    "separate [] (filter (\<lambda>e. ce_qso_id e \<noteq> None) streams) = (qsos, freq_out)"
    "separate (take (co_qso_cap o') qsos) (filter (\<lambda>e. ce_qso_id e = None) streams) =
       (take (co_qso_cap o') qsos @ ys, manual_out)"
    "co_retained o' = take MAX_RETAINED_TX_STREAMS (take (co_qso_cap o') qsos @ ys)"
    "co_truncated_entries o' = drop (co_qso_cap o') qsos @ drop MAX_RETAINED_TX_STREAMS (take (co_qso_cap o') qsos @ ys)"
    "co_excluded_entries o' = snd (exclude_parity (assemble fox p)) @ freq_out @ manual_out"
    "co_dropped_terminal_entries o' = cp_dropped p" "co_coalesced o' = cp_coalesced p"
    "co_qso_cap o' = min (max (max max_qsos 1) (length (filter (is_fox_entry fox) qsos))) MAX_RETAINED_TX_STREAMS"
proof -
  let ?p = "fold (collect_entry live) ds pass_start"
  obtain streams parity_out where st: "exclude_parity (assemble fox ?p) = (streams, parity_out)" by fastforce
  obtain qsos freq_out where q: "separate [] (filter (\<lambda>e. ce_qso_id e \<noteq> None) streams) = (qsos, freq_out)" by fastforce
  let ?cap = "min (max (max max_qsos 1) (length (filter (is_fox_entry fox) qsos))) MAX_RETAINED_TX_STREAMS"
  obtain k manual_out where k: "separate (take ?cap qsos) (filter (\<lambda>e. ce_qso_id e = None) streams) = (k, manual_out)"
    by fastforce
  from separate_spec [OF k] obtain ys where ys: "k = take ?cap qsos @ ys" by (elim exE conjE)
  have cap: "co_qso_cap o' = ?cap"
    by (simp only: o'_def coalesce_transmit_requests_with_fox_priority_def Let_def st q k prod.case coalesce_outcome.simps)
  show ?thesis
    by (rule that [OF refl collected, of streams qsos freq_out ys manual_out])
      (simp_all only: cap,
       simp_all only: o'_def coalesce_transmit_requests_with_fox_priority_def Let_def st q k ys prod.case coalesce_outcome.simps
         fst_conv snd_conv)
qed

text \<open>The facts of an outcome, by stage.\<close>

lemma outcome_facts:
  fixes ds max_qsos live fox
  defines "o' \<equiv> coalesce_transmit_requests_with_fox_priority ds max_qsos live fox"
  shows "length (co_retained o') \<le> MAX_RETAINED_TX_STREAMS"
    "sorted_wrt far_apart (co_retained o')"
    "mset (co_retained o') + mset (co_truncated_entries o') + mset (co_excluded_entries o') =
       mset (assemble fox (fold (collect_entry live) ds pass_start))"
    "subseq (filter (\<lambda>e. ce_qso_id e \<noteq> None) (co_retained o'))
       (filter (\<lambda>e. ce_qso_id e \<noteq> None) (assemble fox (fold (collect_entry live) ds pass_start)))"
    "length (filter (\<lambda>e. ce_qso_id e \<noteq> None) (co_retained o')) \<le> co_qso_cap o'"
proof -
  let ?a = "assemble fox (fold (collect_entry live) ds pass_start)"
  let ?qso = "\<lambda>e. ce_qso_id e \<noteq> None"
  obtain p streams qsos freq_out ys manual_out where st:
    "p = fold (collect_entry live) ds pass_start" "collected_from live ds p"
    "streams = fst (exclude_parity (assemble fox p))"
    "separate [] (filter ?qso streams) = (qsos, freq_out)"
    "separate (take (co_qso_cap o') qsos) (filter (\<lambda>e. ce_qso_id e = None) streams) = (take (co_qso_cap o') qsos @ ys, manual_out)"
    and out: "co_retained o' = take MAX_RETAINED_TX_STREAMS (take (co_qso_cap o') qsos @ ys)"
    "co_truncated_entries o' = drop (co_qso_cap o') qsos @ drop MAX_RETAINED_TX_STREAMS (take (co_qso_cap o') qsos @ ys)"
    "co_excluded_entries o' = snd (exclude_parity (assemble fox p)) @ freq_out @ manual_out"
    and cap: "co_qso_cap o' = min (max (max max_qsos 1) (length (filter (is_fox_entry fox) qsos))) MAX_RETAINED_TX_STREAMS"
    unfolding o'_def by (rule coalesce_stages)
  have pe: "exclude_parity ?a = (streams, snd (exclude_parity ?a))" using st(1,3) by simp
  have q: "subseq qsos (filter ?qso streams)" "mset qsos + mset freq_out = mset (filter ?qso streams)" "sorted_wrt far_apart qsos"
    using separate_spec [OF st(4)] by auto
  have y: "subseq ys (filter (\<lambda>e. ce_qso_id e = None) streams)" "mset ys + mset manual_out = mset (filter (\<lambda>e. ce_qso_id e = None) streams)"
      "sorted_wrt far_apart (take (co_qso_cap o') qsos) \<longrightarrow> sorted_wrt far_apart (take (co_qso_cap o') qsos @ ys)"
    using separate_spec [OF st(5)] by auto
  show "length (co_retained o') \<le> MAX_RETAINED_TX_STREAMS" by (simp add: out)
  have apart: "sorted_wrt far_apart (take (co_qso_cap o') qsos @ ys)" using y(3) q(3) by (simp add: sorted_wrt_take)
  then show "sorted_wrt far_apart (co_retained o')" by (simp only: out sorted_wrt_take)
  have none: "filter ?qso (take n ys) = []" for n
    using subseq_set [OF y(1)] set_take_subset [of n ys] by (auto simp: filter_empty_conv)
  have all: "filter ?qso qsos = qsos" using subseq_set [OF q(1)] by (auto simp: filter_id_conv)
  have some: "filter ?qso (take n qsos) = take n qsos" for n using set_take_subset [of n qsos] all by (auto simp: filter_id_conv)
  have kept: "filter ?qso (co_retained o') = take (min MAX_RETAINED_TX_STREAMS (co_qso_cap o')) qsos"
    unfolding out take_append filter_append none take_take some by simp
  have "subseq (filter ?qso streams) (filter ?qso ?a)" using exclude_parity_spec(2) [OF pe] by (rule subseq_filter)
  then have whole: "subseq qsos (filter ?qso ?a)" by (rule subseq_order.order_trans [OF q(1)])
  have "subseq (take n qsos) qsos" for n by (rule prefix_imp_subseq [OF take_is_prefix])
  then show "subseq (filter ?qso (co_retained o')) (filter ?qso ?a)"
    unfolding kept by (rule subseq_order.order_trans [OF _ whole])
  show "length (filter ?qso (co_retained o')) \<le> co_qso_cap o'" unfolding kept by simp
  have "mset (co_retained o') + mset (co_truncated_entries o') = mset qsos + mset ys"
  proof -
    have "mset qsos = mset (take (co_qso_cap o') qsos) + mset (drop (co_qso_cap o') qsos)"
      by (simp flip: mset_append)
    moreover have "mset (take (co_qso_cap o') qsos @ ys) = mset (take MAX_RETAINED_TX_STREAMS (take (co_qso_cap o') qsos @ ys)) +
        mset (drop MAX_RETAINED_TX_STREAMS (take (co_qso_cap o') qsos @ ys))"
      by (simp flip: mset_append del: take_append drop_append)
    ultimately show ?thesis unfolding out by (simp del: take_append drop_append add: ac_simps)
  qed
  moreover have "mset streams = (mset qsos + mset freq_out) + (mset ys + mset manual_out)"
    unfolding q(2) y(2) mset_filter using multiset_partition [of "mset streams" ?qso] by simp
  ultimately show "mset (co_retained o') + mset (co_truncated_entries o') + mset (co_excluded_entries o') = mset ?a"
    unfolding exclude_parity_spec(1) [OF pe, symmetric] by (simp add: out(3) st(1) ac_simps)
qed

lemma assembled_set:
  assumes "collected_from live ds p"
  shows "set (assemble fox p) = {e. \<exists>k. newest live ds k = Some e} \<union> set (filter (\<lambda>e. live (ce_qso_id e) \<and> ce_qso_id e = None) ds)"
proof -
  have "newest live ds k = Some e \<Longrightarrow> e \<in> set (stream_list fox p)" for k e
  proof -
    assume n: "newest live ds k = Some e"
    then have "k \<in> set (ordered_keys fox p)" using assms by (auto simp: collected_from_def ordered_keys(1) newest_def split: if_splits)
    then show ?thesis using assms n by (force simp: stream_list_def collected_from_def)
  qed
  moreover have "cp_manual p = filter (\<lambda>e. live (ce_qso_id e) \<and> ce_qso_id e = None) ds" using assms by (simp add: collected_from_def)
  ultimately show ?thesis using assemble_streams(1,2) [OF assms, of fox] by (simp only: set_append) blast
qed

lemma length_assemble:
  assumes "collected_from live ds p"
  shows "length (assemble fox p) + cp_coalesced p + length (cp_dropped p) = length ds"
proof -
  have "length (assemble fox p) + cp_coalesced p =
      length (filter (\<lambda>e. live (ce_qso_id e) \<and> ce_qso_id e \<noteq> None) ds) + length (filter (\<lambda>e. live (ce_qso_id e) \<and> ce_qso_id e = None) ds)"
    using assms by (simp add: assemble_streams(1) [OF assms] stream_list_def ordered_keys(2) collected_from_def)
  also have "\<dots> = length (filter (\<lambda>e. live (ce_qso_id e)) ds)"
    using sum_length_filter_compl [of "\<lambda>e. ce_qso_id e \<noteq> None" "filter (\<lambda>e. live (ce_qso_id e)) ds"] by (simp add: conj_commute)
  finally show ?thesis using assms sum_length_filter_compl [of "\<lambda>e. live (ce_qso_id e)" ds] by (simp add: collected_from_def)
qed

text \<open>The coalescer loses nothing silently: every request it drained is dropped because its contact is over, superseded by a newer
  request of the same contact (counted in \<open>coalesced\<close>), or handed back as retained, truncated or excluded; what it hands back is
  exactly the newest live request of each contact and the live manual ones, and its counters agree with its lists.\<close>

theorem coalescing_accounts_for_every_request:
  fixes ds max_qsos live fox
  defines "o' \<equiv> coalesce_transmit_requests_with_fox_priority ds max_qsos live fox"
  shows "length ds = length (co_retained o') + co_coalesced o' + co_dropped_terminal o' + co_truncated o' + co_parity_excluded o' +
      co_freq_excluded o' \<and>
    set (co_retained o') \<union> set (co_truncated_entries o') \<union> set (co_excluded_entries o') =
      {e. \<exists>k. newest live ds k = Some e} \<union> set (filter (\<lambda>e. live (ce_qso_id e) \<and> ce_qso_id e = None) ds) \<and>
    co_dropped_terminal_entries o' = filter (\<lambda>e. \<not> live (ce_qso_id e)) ds \<and>
    co_truncated o' = length (co_truncated_entries o') \<and>
    co_parity_excluded o' + co_freq_excluded o' = length (co_excluded_entries o')"
proof -
  let ?p = "fold (collect_entry live) ds pass_start"
  note c = collected [of live ds]
  note m = outcome_facts(3) [of ds max_qsos live fox, folded o'_def]
  have counts: "co_truncated o' = length (co_truncated_entries o')" "co_coalesced o' = cp_coalesced ?p"
      "co_parity_excluded o' + co_freq_excluded o' = length (co_excluded_entries o')"
      "co_dropped_terminal o' = length (cp_dropped ?p)" "co_dropped_terminal_entries o' = cp_dropped ?p"
    by (auto simp: o'_def coalesce_transmit_requests_with_fox_priority_def Let_def split: prod.splits)
  have "length (co_retained o') + length (co_truncated_entries o') + length (co_excluded_entries o') = length (assemble fox ?p)"
    using arg_cong [OF m, of size] by simp
  moreover have "set (co_retained o') \<union> set (co_truncated_entries o') \<union> set (co_excluded_entries o') = set (assemble fox ?p)"
    using arg_cong [OF m, of set_mset] by simp
  moreover have "cp_dropped ?p = filter (\<lambda>e. \<not> live (ce_qso_id e)) ds" using c by (simp add: collected_from_def)
  ultimately show ?thesis using counts length_assemble [OF c, of fox] assembled_set [OF c, of fox] by (simp del: filter_filter)
qed


lemma separate_Nil: "separate kept [] = (k, x) \<Longrightarrow> k = kept \<and> x = []" by simp




text \<open>The streams of the contacts Fox mode opened come first in what is put in order, and stay first.\<close>

lemma fox_first:
  assumes c: "collected_from live ds p" and s: "subseq qsos (filter (\<lambda>e. ce_qso_id e \<noteq> None) (assemble fox p))"
  shows "qsos = filter (is_fox_entry fox) qsos @ filter (\<lambda>e. \<not> is_fox_entry fox e) qsos"
proof -
  let ?qso = "\<lambda>e. ce_qso_id e \<noteq> None"
  define the_entry where "the_entry = (\<lambda>k. the (cp_by_qso p k))"
  have some: "k \<in> set (cp_order p) \<Longrightarrow> entry_key (the_entry k) = Some k" for k
    using c newest_key [of live ds k] by (auto simp: collected_from_def newest_def [of live ds k] the_entry_def)
  have is_fox: "k \<in> set (cp_order p) \<Longrightarrow> is_fox_entry fox (the_entry k) = fox k" for k
    using some [of k] by (auto simp: is_fox_entry_def entry_key_def split: option.splits)
  have keyed: "filter ?qso (assemble fox p) =
      map the_entry (filter fox (cp_order p)) @ map the_entry (filter (\<lambda>k. \<not> fox k) (cp_order p))"
  proof -
    have "filter ?qso (stream_list fox p) = stream_list fox p" "filter ?qso (cp_manual p) = []"
      using assemble_streams(2) [OF c, of fox] c by (auto simp: filter_id_conv filter_empty_conv entry_key_def collected_from_def)
    then show ?thesis
      by (simp add: assemble_streams(1) [OF c] del: filter_empty_conv) (simp add: stream_list_def ordered_keys_def the_entry_def)
  qed
  show ?thesis
    by (rule subseq_partition [OF s [unfolded keyed]]) (auto simp: is_fox)
qed

lemma fox_order:
  assumes "collected_from live ds p" and "streams = fst (exclude_parity (assemble fox p))"
    and "separate [] (filter (\<lambda>e. ce_qso_id e \<noteq> None) streams) = (qsos, freq_out)"
  shows "qsos = filter (is_fox_entry fox) qsos @ filter (\<lambda>e. \<not> is_fox_entry fox e) qsos"
proof -
  let ?qso = "\<lambda>e. ce_qso_id e \<noteq> None"
  have pe: "exclude_parity (assemble fox p) = (streams, snd (exclude_parity (assemble fox p)))" using assms(2) by simp
  have "subseq qsos (filter ?qso streams)" using separate_spec [OF assms(3)] by auto
  also have "subseq (filter ?qso streams) (filter ?qso (assemble fox p))" using exclude_parity_spec(2) [OF pe] by (rule subseq_filter)
  finally show ?thesis by (rule fox_first [OF assms(1)])
qed



text \<open>An operator's larger setting cannot push a Fox stream out: when a stream of a contact Fox mode opened is cut off, the bundle
  is full, eight streams, and every one of them is a Fox stream.\<close>

theorem fox_streams_have_priority:
  fixes ds max_qsos live fox
  defines "o' \<equiv> coalesce_transmit_requests_with_fox_priority ds max_qsos live fox"
  assumes cut: "list_ex (is_fox_entry fox) (co_truncated_entries o')"
  shows "length (co_retained o') = 8 \<and> list_all (is_fox_entry fox) (co_retained o')"
proof -
  let ?qso = "\<lambda>e. ce_qso_id e \<noteq> None"
  obtain p streams qsos freq_out ys manual_out where st:
    "collected_from live ds p" "streams = fst (exclude_parity (assemble fox p))"
    "separate [] (filter ?qso streams) = (qsos, freq_out)"
    "separate (take (co_qso_cap o') qsos) (filter (\<lambda>e. ce_qso_id e = None) streams) = (take (co_qso_cap o') qsos @ ys, manual_out)"
    and out: "co_retained o' = take MAX_RETAINED_TX_STREAMS (take (co_qso_cap o') qsos @ ys)"
    "co_truncated_entries o' = drop (co_qso_cap o') qsos @ drop MAX_RETAINED_TX_STREAMS (take (co_qso_cap o') qsos @ ys)"
    and cap: "co_qso_cap o' = min (max (max max_qsos 1) (length (filter (is_fox_entry fox) qsos))) MAX_RETAINED_TX_STREAMS"
    unfolding o'_def by (rule coalesce_stages)
  let ?fs = "filter (is_fox_entry fox) qsos" and ?os = "filter (\<lambda>e. \<not> is_fox_entry fox e) qsos"
  have order: "qsos = ?fs @ ?os" by (rule fox_order [OF st(1-3)])
  have "set ys \<subseteq> {e. ce_qso_id e = None}" using separate_spec [OF st(4)] subseq_set by fastforce
  then have manual: "\<not> is_fox_entry fox e" if "e \<in> set ys" for e using that by (auto simp: is_fox_entry_def)
  have bound: "co_qso_cap o' \<le> 8" by (simp add: cap MAX_RETAINED_TX_STREAMS_def)
  obtain e where e: "e \<in> set (co_truncated_entries o')" "is_fox_entry fox e" using cut by (auto simp: list_ex_iff)
  have cut_fox: "e \<in> set (drop (co_qso_cap o') qsos)"
    using e manual set_drop_subset [of _ ys] bound by (auto simp: out(2) MAX_RETAINED_TX_STREAMS_def dest: in_set_dropD)
  have full: "co_qso_cap o' < length ?fs"
  proof (rule ccontr)
    assume "\<not> co_qso_cap o' < length ?fs"
    then have "drop (co_qso_cap o') (?fs @ ?os) = drop (co_qso_cap o' - length ?fs) ?os" by simp
    then have "set (drop (co_qso_cap o') qsos) \<subseteq> set ?os" using order set_drop_subset by metis
    then show False using cut_fox e(2) by auto
  qed
  then have eight: "co_qso_cap o' = 8" by (auto simp: cap MAX_RETAINED_TX_STREAMS_def)
  have "take 8 (?fs @ ?os) = take 8 ?fs" using full eight by simp
  then have "take 8 qsos = take 8 ?fs" using order by metis
  then have "co_retained o' = take 8 ?fs" using full by (simp add: out(1) eight MAX_RETAINED_TX_STREAMS_def)
  then show ?thesis using full eight by (auto simp: list_all_iff dest: in_set_takeD)
qed

section \<open>Concrete queues\<close>

definition demo_entry :: "string option \<Rightarrow> rat \<Rightarrow> slot_parity option \<Rightarrow> coalesce_entry" where
  "demo_entry i f parity =
     \<lparr> ce_item = \<lparr> it_message_text = ''K1ABC W9XYZ EN37'', it_frequency_offset = f, it_qso_id = i, it_origin = Local_Origin,
         it_client = None, it_attempt_id = None \<rparr>, ce_tx_parity = parity \<rparr>"

definition demo_hounds :: "coalesce_entry list" where
  "demo_hounds = map (\<lambda>(i, f). demo_entry (Some i) f (Some Even))
     [(''A'', 300), (''B'', 400), (''C'', 500), (''D'', 600), (''E'', 700), (''F'', 800), (''G'', 900), (''H'', 1000), (''I'', 1100)]"

lemma demo_hounds_cut:
  "list_ex (is_fox_entry (\<lambda>_. True))
     (co_truncated_entries (coalesce_transmit_requests_with_fox_priority demo_hounds 20 (\<lambda>_. True) (\<lambda>_. True)))"
  by code_simp

text \<open>Nine Fox streams and a setting of twenty: one is cut, and the bundle is eight Fox streams.\<close>

lemma fox_streams_have_priority_witness:
  "length (co_retained (coalesce_transmit_requests_with_fox_priority demo_hounds 20 (\<lambda>_. True) (\<lambda>_. True))) = 8"
  using fox_streams_have_priority [OF demo_hounds_cut] by blast

text \<open>When the first stream has no parity of its own, nothing holds the others together: two contacts that need opposite slots are
  retained side by side.\<close>

lemma unanchored_bundle_mixes_parities:
  "map ce_tx_parity (co_retained (coalesce_transmit_requests
     [demo_entry (Some ''A'') 300 None, demo_entry (Some ''B'') 400 (Some Even), demo_entry (Some ''C'') 500 (Some Odd)]
     3 (\<lambda>_. True))) = [None, Some Even, Some Odd]"
  by code_simp

end
