(* ===== verification/Tx_Backlog.thy ===== *)
theory Tx_Backlog
  imports Tx_Bundle
begin

text \<open>
  The inbox of the transmit worker and the drain of its backlog (\<open>coordinator/tx.rs\<close>): the requests behind the one at hand are
  taken in arrival order, those already sent through a pivot or not permitted by the arm are reported and dropped, the rest is
  coalesced, requests of the other consent channel go back to the front, and what is left is one request or one bundle.
\<close>

section \<open>The inbox\<close>

record tx_inbox =
  ib_front :: "tx_message list"
  ib_channel :: "tx_message list"

definition try_recv :: "tx_inbox \<Rightarrow> tx_message option \<times> tx_inbox" where
  "try_recv ib =
     (case ib_front ib of
        m # f \<Rightarrow> (Some m, ib \<lparr> ib_front := f \<rparr>)
      | [] \<Rightarrow> (case ib_channel ib of m # c \<Rightarrow> (Some m, ib \<lparr> ib_channel := c \<rparr>) | [] \<Rightarrow> (None, ib)))"

definition inbox_len :: "tx_inbox \<Rightarrow> nat" where
  "inbox_len ib = length (ib_front ib) + length (ib_channel ib)"

definition requeue_front :: "tx_message list \<Rightarrow> tx_inbox \<Rightarrow> tx_inbox" where
  "requeue_front messages ib = (if messages = [] then ib else ib \<lparr> ib_front := messages @ ib_front ib \<rparr>)"

text \<open>What is unhandled, oldest first.\<close>

definition unhandled :: "tx_inbox \<Rightarrow> tx_message list" where "unhandled ib = ib_front ib @ ib_channel ib"

lemma unhandled_simps:
  "unhandled (requeue_front ms ib) = ms @ unhandled ib"
  "unhandled ib = [] \<Longrightarrow> try_recv ib = (None, ib)"
  "inbox_len ib = length (unhandled ib)"
  by (auto simp: unhandled_def requeue_front_def try_recv_def inbox_len_def)

lemma try_recv_oldest:
  assumes "unhandled ib = m # ms"
  obtains ib' where "try_recv ib = (Some m, ib')" "unhandled ib' = ms"
  using assms by (cases "ib_front ib"; cases "ib_channel ib") (auto simp: unhandled_def try_recv_def intro: that)

lemma try_recv_less: "try_recv ib = (Some m, ib') \<Longrightarrow> inbox_len ib' < inbox_len ib"
  by (auto simp: try_recv_def inbox_len_def split: list.splits)

section \<open>The drain\<close>

function drain_requests :: "tx_inbox \<Rightarrow> coalesce_entry list \<times> tx_inbox" where
  "drain_requests ib =
     (case try_recv ib of
        (Some (Transmit_Request e), ib') \<Rightarrow> (case drain_requests ib' of (es, r) \<Rightarrow> (e # es, r))
      | (Some m, ib') \<Rightarrow> ([], requeue_front [m] ib')
      | (None, ib') \<Rightarrow> ([], ib'))"
  by pat_completeness auto

termination by (relation "measure inbox_len") (auto dest: sym try_recv_less)

declare drain_requests.simps [simp del]

text \<open>The frames a pivot put on the air in place of another, by contact, and the ones they replaced.\<close>

type_synonym ('payload) replaced_frame = "string \<times> 'payload \<times> nat option"

record 'payload pivots =
  pv_pivoted_once :: "string \<rightharpoonup> string \<times> rat"
  pv_pivoted_from :: "string \<rightharpoonup> 'payload replaced_frame"

datatype 'payload backlog_report =
    Frame_Not_Sent string "'payload replaced_frame"
  | Request_Denied coalesce_entry bool "string option" int
  | Transmit_Failed coalesce_entry
  | Autonomous_Failed coalesce_entry

text \<open>The pass over the drained requests that drops the ones whose frame already went out, and their tombstones.\<close>

fun drop_pivot_duplicates ::
    "coalesce_entry list \<Rightarrow> coalesce_entry list \<Rightarrow> 'p pivots \<Rightarrow>
     coalesce_entry list \<times> (coalesce_entry \<times> 'p replaced_frame option) list \<times> 'p pivots" where
  "drop_pivot_duplicates kept [] pv = (kept, [], pv)"
| "drop_pivot_duplicates kept (e # es) pv =
     (if (es \<noteq> [] \<or> kept \<noteq> []) \<and>
         is_pivot_duplicate (ce_qso_id e) (it_message_text (ce_item e)) (ce_freq e) (pv_pivoted_once pv)
      then let key = active_tx_qso_key (the (ce_qso_id e));
               replaced = pv_pivoted_from pv key
           in case drop_pivot_duplicates kept es
                     (pv \<lparr> pv_pivoted_once := (pv_pivoted_once pv)(key := None), pv_pivoted_from := (pv_pivoted_from pv)(key := None) \<rparr>) of
                (k, ds, pv') \<Rightarrow> (k, (e, replaced) # ds, pv')
      else drop_pivot_duplicates (kept @ [e]) es pv)"

definition report_pivot_duplicate_dropped :: "coalesce_entry \<times> 'p replaced_frame option \<Rightarrow> 'p backlog_report list" where
  "report_pivot_duplicate_dropped d =
     (case (ce_qso_id (fst d), snd d) of (Some i, Some replaced) \<Rightarrow> [Frame_Not_Sent i replaced] | _ \<Rightarrow> [])"

definition backlog_admits :: "arm_snapshot \<Rightarrow> coalesce_entry \<Rightarrow> bool" where
  "backlog_admits sn e \<longleftrightarrow> ce_origin e \<noteq> Remote_Origin \<or> snapshot_permits sn (ce_client e)"

definition report_denied :: "arm_snapshot \<Rightarrow> coalesce_entry \<Rightarrow> 'p backlog_report" where
  "report_denied sn e =
     Request_Denied e (is_identity_mismatch sn (ce_client e)) (operator_attribution sn (ce_client e)) (as_decided_at_unix_ms sn)"

text \<open>One bundle has one identity, so it has one consent channel: that of its first remote entry.\<close>

definition bundle_channel :: "coalesce_entry list \<Rightarrow> consent_channel option" where
  "bundle_channel retained =
     map_option (\<lambda>e. consent_channel_for (ce_client e)) (find (\<lambda>e. ce_origin e = Remote_Origin) retained)"

definition on_channel :: "consent_channel option \<Rightarrow> coalesce_entry \<Rightarrow> bool" where
  "on_channel ch e \<longleftrightarrow> ce_origin e \<noteq> Remote_Origin \<or> Some (consent_channel_for (ce_client e)) = ch"

definition backlog_message :: "coalesce_entry list \<Rightarrow> tx_message" where
  "backlog_message retained =
     (case retained of
        [] \<Rightarrow> Multi_Transmit [] None Local_Origin None
      | [e] \<Rightarrow> Transmit_Request e
      | e # _ \<Rightarrow> (case fold_bundle_identity (map ce_item retained) of
                   (origin, client) \<Rightarrow> Multi_Transmit (map ce_item retained) (ce_tx_parity e) origin client))"

definition consume_pivot_duplicates ::
    "coalesce_entry list \<Rightarrow> 'p pivots option \<Rightarrow> coalesce_entry list \<times> (coalesce_entry \<times> 'p replaced_frame option) list \<times> 'p pivots option" where
  "consume_pivot_duplicates drained pivots =
     (case pivots of
        Some pv \<Rightarrow>
          if 1 < length drained
          then (case drop_pivot_duplicates [] drained pv of (kept, drops, pv') \<Rightarrow> (kept, drops, Some pv'))
          else (drained, [], Some pv)
      | None \<Rightarrow> (drained, [], None))"

definition select_backlog ::
    "coalesce_entry list \<Rightarrow> tx_inbox \<Rightarrow> string set option \<Rightarrow> string set option \<Rightarrow> nat \<Rightarrow> tx_message \<times> tx_inbox \<times> 'p backlog_report list" where
  "select_backlog admitted ib active fox max_concurrent_qsos =
     (if length admitted \<le> 1 then (backlog_message admitted, ib, [])
      else let o' = coalesce_transmit_requests_with_fox_priority admitted max_concurrent_qsos
                      (\<lambda>i. tx_qso_is_live i active) (\<lambda>k. k \<in> (case fox of Some s \<Rightarrow> s | None \<Rightarrow> {}));
               ch = bundle_channel (co_retained o')
           in (backlog_message (filter (on_channel ch) (co_retained o')),
               requeue_front (map Transmit_Request (filter (\<lambda>e. \<not> on_channel ch e) (co_retained o'))) ib,
               map Transmit_Failed (co_truncated_entries o') @
               map Autonomous_Failed (filter (\<lambda>e. ce_qso_id e \<noteq> None) (co_dropped_terminal_entries o' @ co_excluded_entries o'))))"

definition coalesce_backlog_into ::
    "tx_message \<Rightarrow> tx_inbox \<Rightarrow> string set option \<Rightarrow> string set option \<Rightarrow> nat \<Rightarrow> arm_snapshot \<Rightarrow> 'p pivots option \<Rightarrow>
     tx_message \<times> tx_inbox \<times> 'p pivots option \<times> 'p backlog_report list" where
  "coalesce_backlog_into head ib active fox max_concurrent_qsos sn pivots =
     (case head of
        Transmit_Request e \<Rightarrow>
          let (queued, ib) = drain_requests ib;
              (drained, pivot_drops, pivots) = consume_pivot_duplicates (e # queued) pivots;
              (message, ib, reports) = select_backlog (filter (backlog_admits sn) drained) ib active fox max_concurrent_qsos
          in (message, ib, pivots,
              concat (map report_pivot_duplicate_dropped pivot_drops) @
              map (report_denied sn) (filter (\<lambda>e. \<not> backlog_admits sn e) drained) @ reports)
      | other \<Rightarrow> (other, ib, pivots, []))"

section \<open>What the drain takes\<close>

lemma drain_requests_spec:
  "drain_requests ib = (queued, ib') \<Longrightarrow>
     unhandled ib = map Transmit_Request queued @ unhandled ib' \<and> (\<forall>e ms. unhandled ib' \<noteq> Transmit_Request e # ms)"
proof (induction ib arbitrary: queued rule: drain_requests.induct)
  case (1 ib)
  show ?case
  proof (cases "unhandled ib")
    case Nil
    then show ?thesis using 1(2) by (subst (asm) drain_requests.simps) (simp add: unhandled_simps)
  next
    case (Cons m ms)
    then obtain ib1 where ib1: "try_recv ib = (Some m, ib1)" "unhandled ib1 = ms" by (rule try_recv_oldest)
    show ?thesis
    proof (cases m)
      case (Transmit_Request e)
      obtain q where q: "drain_requests ib1 = (q, ib')" "queued = e # q"
        using 1(2) ib1(1) Transmit_Request by (subst (asm) drain_requests.simps) (auto split: prod.splits)
      then show ?thesis using 1(1) [OF ib1(1) [symmetric] refl Transmit_Request q(1)] Cons ib1(2) Transmit_Request by simp
    qed (use 1(2) ib1 Cons in \<open>subst (asm) drain_requests.simps; auto simp: unhandled_simps\<close>)+
  qed
qed

text \<open>The pass over pivots keeps the order, and drops only requests whose frame already went out.\<close>

lemma drop_pivot_duplicates_spec:
  assumes "drop_pivot_duplicates kept es pv = (k, ds, pv')"
  shows "\<exists>ys. k = kept @ ys \<and> subseq ys es \<and>
    (\<forall>x \<in> set es. x \<in> set ys \<or> is_pivot_duplicate (ce_qso_id x) (it_message_text (ce_item x)) (ce_freq x) (pv_pivoted_once pv))"
  using assms
proof (induction es arbitrary: kept k ds pv)
  case Nil
  then show ?case by simp
next
  case (Cons e es)
  let ?dup = "\<lambda>x pv. is_pivot_duplicate (ce_qso_id x) (it_message_text (ce_item x)) (ce_freq x) (pv_pivoted_once pv)"
  let ?key = "active_tx_qso_key (the (ce_qso_id e))"
  let ?pv = "pv \<lparr> pv_pivoted_once := (pv_pivoted_once pv)(?key := None), pv_pivoted_from := (pv_pivoted_from pv)(?key := None) \<rparr>"
  have fewer: "?dup x ?pv \<Longrightarrow> ?dup x pv" for x by (auto simp: is_pivot_duplicate_def split: option.splits if_splits)
  show ?case
  proof (cases "(es \<noteq> [] \<or> kept \<noteq> []) \<and> ?dup e pv")
    case True
    then obtain ds' where ds': "drop_pivot_duplicates kept es ?pv = (k, ds', pv')"
      using Cons.prems by (auto simp: Let_def split: prod.splits)
    obtain ys where "k = kept @ ys" "subseq ys es" "\<forall>x \<in> set es. x \<in> set ys \<or> ?dup x ?pv"
      using Cons.IH [OF ds'] by (elim exE conjE)
    then show ?thesis using True fewer by (intro exI [of _ ys]) auto
  next
    case False
    then have step: "drop_pivot_duplicates (kept @ [e]) es pv = (k, ds, pv')"
      using Cons.prems by (simp only: drop_pivot_duplicates.simps if_False)
    obtain ys where "k = (kept @ [e]) @ ys" "subseq ys es" "\<forall>x \<in> set es. x \<in> set ys \<or> ?dup x pv"
      using Cons.IH [OF step] by (elim exE conjE)
    then show ?thesis by (intro exI [of _ "e # ys"]) auto
  qed
qed

text \<open>A request that is not the newest of its contact has a newer one behind it.\<close>

lemma superseded:
  assumes "x \<in> set ds" "live (ce_qso_id x)" "ce_qso_id x \<noteq> None"
  shows "(\<exists>k. newest live ds k = Some x) \<or> (\<exists>y. subseq [x, y] ds \<and> entry_key y = entry_key x)"
proof -
  obtain k where k: "entry_key x = Some k" using assms(3) by (auto simp: entry_key_def)
  let ?s = "stream live ds k"
  have x: "x \<in> set ?s" using assms k by (simp add: stream_def)
  then have ne: "?s \<noteq> []" by auto
  show ?thesis
  proof (cases "last ?s = x")
    case True
    then show ?thesis using ne by (auto simp: newest_def intro!: exI [of _ k])
  next
    case False
    obtain us vs where s: "?s = us @ x # vs" using x by (auto simp: in_set_conv_decomp)
    then have "vs \<noteq> []" using False by auto
    then have "subseq ([x] @ [last vs]) (([x] @ butlast vs) @ [last vs])" by (intro list_emb_append_mono) auto
    then have "subseq [x, last vs] (x # vs)" using \<open>vs \<noteq> []\<close> by simp
    then have "subseq [x, last vs] ?s" unfolding s by (rule list_emb_append2)
    moreover have "subseq ?s ds" by (simp add: stream_def subseq_filter_left)
    ultimately have "subseq [x, last vs] ds" by (rule subseq_order.order_trans)
    moreover have "last vs \<in> set ?s" using \<open>vs \<noteq> []\<close> s by simp
    then have "entry_key (last vs) = entry_key x" using k by (simp add: stream_def)
    ultimately show ?thesis by blast
  qed
qed

section \<open>The authority of what is handed on\<close>

lemma map_filter_const:
  "\<forall>x \<in> set xs. f x = c \<Longrightarrow> List.map_filter f xs = (case c of None \<Rightarrow> [] | Some v \<Rightarrow> map (\<lambda>_. v) xs)"
  by (induction xs) (auto simp: map_filter_simps split: option.splits)

lemma fold_one_client:
  assumes "\<forall>it \<in> set items. it_origin it = Remote_Origin \<longrightarrow> it_client it = cl"
  shows "fold_bundle_identity items = (if list_ex (\<lambda>it. it_origin it = Remote_Origin) items then (Remote_Origin, cl) else (Local_Origin, None))"
proof -
  let ?r = "filter (\<lambda>it. it_origin it = Remote_Origin) items"
  have "\<forall>it \<in> set ?r. it_client it = cl" using assms by simp
  note clients = map_filter_const [OF this]
  have ex: "list_ex (\<lambda>it. it_origin it = Remote_Origin) items \<longleftrightarrow> ?r \<noteq> []" by (auto simp: list_ex_iff filter_empty_conv)
  show ?thesis using clients unfolding ex fold_bundle_identity_def Let_def by (cases ?r; cases cl) simp_all
qed

text \<open>The arm permits one client at most on the agent's channel, so a channel determines the identity of a permitted request.\<close>

lemma permitted_client:
  assumes "snapshot_permits sn c"
  shows "c = (case consent_channel_for c of StationAgent \<Rightarrow> as_armed_client_key_id sn | WsjtxUdp \<Rightarrow> None)"
  using assms by (cases c) (auto simp: snapshot_permits_def)

definition carries_one_authority :: "arm_snapshot \<Rightarrow> tx_message \<Rightarrow> bool" where
  "carries_one_authority sn m =
     (case m of
        Transmit_Request e \<Rightarrow> ce_origin e = Local_Origin \<or> snapshot_permits sn (ce_client e)
      | Multi_Transmit items parity origin client \<Rightarrow>
          list_all (\<lambda>it. it_origin it = Local_Origin \<or> identity_of it = (origin, client) \<and> snapshot_permits sn client) items
      | Other_Tx_Message _ \<Rightarrow> True)"

lemma backlog_message_authority:
  assumes "\<forall>e \<in> set es. backlog_admits sn e \<and> on_channel ch e"
  shows "carries_one_authority sn (backlog_message es)"
proof -
  obtain cl where "\<forall>e \<in> set es. ce_origin e = Remote_Origin \<longrightarrow> ce_client e = cl"
  proof
    show "\<forall>e \<in> set es. ce_origin e = Remote_Origin \<longrightarrow>
        ce_client e = (case the ch of StationAgent \<Rightarrow> as_armed_client_key_id sn | WsjtxUdp \<Rightarrow> None)"
      using assms permitted_client [of sn] by (auto simp: backlog_admits_def on_channel_def)
  qed
  then have remote: "\<forall>it \<in> set (map ce_item es). it_origin it = Remote_Origin \<longrightarrow> it_client it = cl" by simp
  have origin: "o' = Local_Origin \<or> o' = Remote_Origin" for o' by (cases o') auto
  consider "es = []" | e where "es = [e]" | e1 e2 r where "es = e1 # e2 # r" by (metis list.exhaust)
  then show ?thesis
  proof cases
    case 3
    have "fold_bundle_identity (map ce_item es) = (Remote_Origin, cl)" if "e \<in> set es" "ce_origin e = Remote_Origin" for e
      using that fold_one_client [OF remote] by (auto simp: list_ex_iff)
    moreover obtain origin client where f: "fold_bundle_identity (map ce_item es) = (origin, client)" by fastforce
    ultimately have "list_all (\<lambda>it. it_origin it = Local_Origin \<or> identity_of it = (origin, client) \<and> snapshot_permits sn client)
        (map ce_item es)"
      using assms remote origin by (fastforce simp: list_all_iff backlog_admits_def)
    then have "carries_one_authority sn (Multi_Transmit (map ce_item es) (ce_tx_parity e1) origin client)"
      by (simp add: carries_one_authority_def)
    then show ?thesis using f 3 by (simp add: backlog_message_def)
  qed (use assms origin in \<open>auto simp: carries_one_authority_def backlog_message_def backlog_admits_def\<close>)
qed

text \<open>C38: whatever is queued and whoever asked for it, what the drain of the backlog hands to the transmitter carries one authority: a
  request, or every item of a bundle, is local, or is permitted by the arm's snapshot under its own client, and that client is the one
  the bundle is checked under when it is keyed.\<close>

theorem backlog_carries_one_authority:
  "carries_one_authority sn (fst (coalesce_backlog_into (Transmit_Request e) ib active fox max_qsos sn pivots))"
proof -
  let ?live = "\<lambda>i. tx_qso_is_live i active"
  have admitted: "\<forall>x \<in> set (co_retained (coalesce_transmit_requests_with_fox_priority (filter (backlog_admits sn) ds) m ?live f)).
      backlog_admits sn x" for ds m f
  proof
    fix x assume "x \<in> set (co_retained (coalesce_transmit_requests_with_fox_priority (filter (backlog_admits sn) ds) m ?live f))"
    then have "x \<in> set (assemble f (fold (collect_entry ?live) (filter (backlog_admits sn) ds) pass_start))"
      using arg_cong [OF outcome_facts(3), of set_mset] by fastforce
    then show "backlog_admits sn x"
      using newest_key unfolding assembled_set [OF collected] by fastforce
  qed
  have single: "length (filter (backlog_admits sn) ds) \<le> 1 \<Longrightarrow> carries_one_authority sn (backlog_message (filter (backlog_admits sn) ds))" for ds
    by (cases "filter (backlog_admits sn) ds" rule: remdups_adj.cases)
      (auto simp: backlog_message_def carries_one_authority_def backlog_admits_def filter_eq_Cons_iff intro: tx_origin.exhaust)
  have several: "carries_one_authority sn (backlog_message (filter (on_channel ch)
      (co_retained (coalesce_transmit_requests_with_fox_priority (filter (backlog_admits sn) ds) m ?live f))))" for ds m f ch
    by (rule backlog_message_authority) (use admitted in auto)
  obtain queued ib1 where q: "drain_requests ib = (queued, ib1)" by fastforce
  obtain drained drops pv where d: "consume_pivot_duplicates (e # queued) pivots = (drained, drops, pv)" by (metis prod_cases3)
  obtain msg ib2 rs where s: "select_backlog (filter (backlog_admits sn) drained) ib1 active fox max_qsos =
      (msg, ib2, rs :: 'a backlog_report list)" by (metis prod_cases3)
  have "carries_one_authority sn msg"
    using s unfolding select_backlog_def Let_def by (auto simp: single several simp del: filter_filter split: if_splits)
  then show ?thesis by (simp add: coalesce_backlog_into_def q d s)
qed

section \<open>No contact's request is lost\<close>

definition sends :: "tx_message \<Rightarrow> coalesce_entry \<Rightarrow> bool" where
  "sends m x = (case m of
     Transmit_Request e \<Rightarrow> x = e | Multi_Transmit items _ _ _ \<Rightarrow> ce_item x \<in> set items | Other_Tx_Message _ \<Rightarrow> False)"

lemma sends_backlog_message: "x \<in> set es \<Longrightarrow> sends (backlog_message es) x"
  by (cases es rule: remdups_adj.cases) (auto simp: backlog_message_def sends_def split: prod.splits)

definition reported_unsent :: "'p backlog_report list \<Rightarrow> coalesce_entry \<Rightarrow> bool" where
  "reported_unsent rs x \<longleftrightarrow> Transmit_Failed x \<in> set rs \<or> Autonomous_Failed x \<in> set rs \<or> (\<exists>m c t. Request_Denied x m c t \<in> set rs)"

lemma coalesced_outcomes:
  fixes ds m live fox
  defines "o' \<equiv> coalesce_transmit_requests_with_fox_priority ds m live fox"
  assumes "x \<in> set ds" "ce_qso_id x \<noteq> None"
  shows "x \<in> set (co_retained o') \<or> x \<in> set (co_truncated_entries o') \<or>
    x \<in> set (co_dropped_terminal_entries o' @ co_excluded_entries o') \<or> (\<exists>y. subseq [x, y] ds \<and> entry_key y = entry_key x)"
proof (cases "live (ce_qso_id x)")
  case True
  have "set (co_retained o') \<union> set (co_truncated_entries o') \<union> set (co_excluded_entries o') =
      set (assemble fox (fold (collect_entry live) ds pass_start))"
    using arg_cong [OF outcome_facts(3), of set_mset] unfolding o'_def by fastforce
  moreover have "newest live ds k = Some x \<Longrightarrow> x \<in> set (assemble fox (fold (collect_entry live) ds pass_start))" for k
    unfolding assembled_set [OF collected] by blast
  ultimately show ?thesis using superseded [of x ds live] assms(2,3) True by auto
next
  case False
  have "co_dropped_terminal_entries o' = cp_dropped (fold (collect_entry live) ds pass_start)"
    by (simp add: o'_def coalesce_transmit_requests_with_fox_priority_def Let_def split: prod.splits)
  then have "x \<in> set (co_dropped_terminal_entries o')" using collected [of live ds] assms(2) False by (simp add: collected_from_def)
  then show ?thesis by simp
qed

lemma consumed:
  assumes "consume_pivot_duplicates ds pv = (drained, drops, pv')"
  shows "subseq drained ds" "(\<forall>x \<in> set ds. x \<in> set drained \<or> (\<exists>p. pv = Some p \<and>
      is_pivot_duplicate (ce_qso_id x) (it_message_text (ce_item x)) (ce_freq x) (pv_pivoted_once p)))"
proof -
  let ?dup = "\<lambda>p x. is_pivot_duplicate (ce_qso_id x) (it_message_text (ce_item x)) (ce_freq x) (pv_pivoted_once p)"
  have "subseq drained ds \<and> (\<forall>x \<in> set ds. x \<in> set drained \<or> (\<exists>p. pv = Some p \<and> ?dup p x))"
  proof (cases "\<exists>p. pv = Some p \<and> 1 < length ds")
    case True
    then obtain p where p: "pv = Some p" "1 < length ds" by blast
    obtain k d p' where k: "drop_pivot_duplicates [] ds p = (k, d, p')" by (metis prod_cases3)
    then have "drained = k" using assms p by (simp add: consume_pivot_duplicates_def)
    moreover obtain ys where "k = [] @ ys" "subseq ys ds" "\<forall>x \<in> set ds. x \<in> set ys \<or> ?dup p x"
      using drop_pivot_duplicates_spec [OF k] by (elim exE conjE)
    ultimately show ?thesis using p by auto
  next
    case False
    then have "drained = ds" using assms by (auto simp: consume_pivot_duplicates_def split: option.splits if_splits prod.splits)
    then show ?thesis by simp
  qed
  then show "subseq drained ds" "\<forall>x \<in> set ds. x \<in> set drained \<or> (\<exists>p. pv = Some p \<and> ?dup p x)" by blast+
qed

lemma selected:
  fixes rs :: "'p backlog_report list"
  assumes "select_backlog as ib active fox m = (msg, ib', rs)"
  obtains deferred where "unhandled ib' = map Transmit_Request deferred @ unhandled ib" "set deferred \<subseteq> set as"
    "\<forall>x \<in> set as. ce_qso_id x \<noteq> None \<longrightarrow> sends msg x \<or> x \<in> set deferred \<or> reported_unsent rs x \<or>
       (\<exists>y. subseq [x, y] as \<and> entry_key y = entry_key x)"
proof (cases "length as \<le> 1")
  case True
  then have "msg = backlog_message as" "ib' = ib" using assms by (simp_all add: select_backlog_def)
  then show thesis using that [of "[]"] sends_backlog_message by simp
next
  case False
  let ?live = "\<lambda>i. tx_qso_is_live i active" and ?fox = "\<lambda>k. k \<in> (case fox of Some s \<Rightarrow> s | None \<Rightarrow> {})"
  define o' where "o' = coalesce_transmit_requests_with_fox_priority as m ?live ?fox"
  define ch where "ch = bundle_channel (co_retained o')"
  let ?def = "filter (\<lambda>e. \<not> on_channel ch e) (co_retained o')"
  have r: "msg = backlog_message (filter (on_channel ch) (co_retained o'))" "ib' = requeue_front (map Transmit_Request ?def) ib"
    "rs = map Transmit_Failed (co_truncated_entries o') @
      map Autonomous_Failed (filter (\<lambda>e. ce_qso_id e \<noteq> None) (co_dropped_terminal_entries o' @ co_excluded_entries o'))"
    using assms False by (simp_all add: select_backlog_def Let_def o'_def ch_def)
  have "set (co_retained o') \<subseteq> set (assemble ?fox (fold (collect_entry ?live) as pass_start))"
    using arg_cong [OF outcome_facts(3) [of as m ?live ?fox], of set_mset] by (auto simp: o'_def)
  also have "\<dots> \<subseteq> set as" using newest_key unfolding assembled_set [OF collected] by fastforce
  finally have sub: "set ?def \<subseteq> set as" by auto
  show thesis
  proof (rule that [OF _ sub])
    show "unhandled ib' = map Transmit_Request ?def @ unhandled ib" by (simp only: r(2) unhandled_simps)
    show "\<forall>x \<in> set as. ce_qso_id x \<noteq> None \<longrightarrow> sends msg x \<or> x \<in> set ?def \<or> reported_unsent rs x \<or>
       (\<exists>y. subseq [x, y] as \<and> entry_key y = entry_key x)"
    proof (intro ballI impI)
      fix x assume x: "x \<in> set as" "ce_qso_id x \<noteq> None"
      have kept: "x \<in> set (co_retained o') \<Longrightarrow> sends msg x \<or> x \<in> set ?def"
        using sends_backlog_message [of x "filter (on_channel ch) (co_retained o')"] unfolding r(1) by auto
      have told: "x \<in> set (co_truncated_entries o') \<Longrightarrow> reported_unsent rs x"
        "x \<in> set (co_dropped_terminal_entries o' @ co_excluded_entries o') \<Longrightarrow> reported_unsent rs x"
        using x(2) unfolding r(3) reported_unsent_def by (simp_all add: image_iff)
      from coalesced_outcomes [OF x, of m ?live ?fox, folded o'_def] show "sends msg x \<or> x \<in> set ?def \<or> reported_unsent rs x \<or>
          (\<exists>y. subseq [x, y] as \<and> entry_key y = entry_key x)"
        using kept told by blast
    qed
  qed
qed

text \<open>No contact's request is lost in the drain: each one taken from the queue is handed to the transmitter, goes back to the front
  of the inbox, is reported as not sent, was already on the air through a pivot, or has a newer request of the same contact behind it;
  and the drain takes the requests up to the first other message, which stays, with everything behind it, in its place.\<close>

theorem backlog_loses_no_contact:
  assumes "coalesce_backlog_into (Transmit_Request e) ib active fox max_qsos sn pivots = (msg, ib', pivots', rs)"
  shows "\<exists>queued deferred rest.
    unhandled ib = map Transmit_Request queued @ rest \<and> unhandled ib' = map Transmit_Request deferred @ rest \<and>
    (case rest of Transmit_Request _ # _ \<Rightarrow> False | _ \<Rightarrow> True) \<and> set deferred \<subseteq> set (e # queued) \<and>
    (\<forall>x \<in> set (e # queued). ce_qso_id x = None \<or> sends msg x \<or> x \<in> set deferred \<or> reported_unsent rs x \<or>
      (\<exists>p. pivots = Some p \<and> is_pivot_duplicate (ce_qso_id x) (it_message_text (ce_item x)) (ce_freq x) (pv_pivoted_once p)) \<or>
      (\<exists>y. subseq [x, y] (e # queued) \<and> entry_key y = entry_key x))"
proof -
  obtain queued ib1 where q: "drain_requests ib = (queued, ib1)" by fastforce
  obtain drained drops pv where d: "consume_pivot_duplicates (e # queued) pivots = (drained, drops, pv)" by (metis prod_cases3)
  let ?as = "filter (backlog_admits sn) drained"
  obtain m2 ib2 rs2 where s: "select_backlog ?as ib1 active fox max_qsos = (m2, ib2, rs2 :: 'a backlog_report list)" by (metis prod_cases3)
  have r: "msg = m2" "ib' = ib2" "rs = concat (map report_pivot_duplicate_dropped drops) @
      map (report_denied sn) (filter (\<lambda>e. \<not> backlog_admits sn e) drained) @ rs2"
    using assms by (simp_all add: coalesce_backlog_into_def q d s)
  obtain deferred where def: "unhandled ib2 = map Transmit_Request deferred @ unhandled ib1" "set deferred \<subseteq> set ?as"
    "\<forall>x \<in> set ?as. ce_qso_id x \<noteq> None \<longrightarrow> sends m2 x \<or> x \<in> set deferred \<or> reported_unsent rs2 x \<or>
       (\<exists>y. subseq [x, y] ?as \<and> entry_key y = entry_key x)"
    using selected [OF s] by blast
  note c = consumed [OF d]
  have denied: "x \<in> set drained \<Longrightarrow> \<not> backlog_admits sn x \<Longrightarrow> reported_unsent rs x" for x
  proof -
    assume "x \<in> set drained" "\<not> backlog_admits sn x"
    then have "report_denied sn x \<in> set rs" unfolding r(3) by simp
    then show ?thesis unfolding reported_unsent_def report_denied_def by blast
  qed
  have more: "reported_unsent rs2 x \<Longrightarrow> reported_unsent rs x" for x unfolding r(3) by (auto simp: reported_unsent_def)
  have behind: "subseq [x, y] ?as \<Longrightarrow> subseq [x, y] (e # queued)" for x y
    by (rule subseq_order.order_trans [OF subseq_order.order_trans [OF _ subseq_filter_left] c(1)])
  show ?thesis
  proof (intro exI conjI)
    show "unhandled ib = map Transmit_Request queued @ unhandled ib1" using drain_requests_spec [OF q] by blast
    show "unhandled ib' = map Transmit_Request deferred @ unhandled ib1" by (simp only: r(2) def(1))
    show "case unhandled ib1 of Transmit_Request _ # _ \<Rightarrow> False | _ \<Rightarrow> True"
      using drain_requests_spec [OF q] by (auto split: list.split tx_message.split)
    show "set deferred \<subseteq> set (e # queued)" using def(2) subseq_set [OF c(1)] by auto
    show "\<forall>x \<in> set (e # queued). ce_qso_id x = None \<or> sends msg x \<or> x \<in> set deferred \<or> reported_unsent rs x \<or>
      (\<exists>p. pivots = Some p \<and> is_pivot_duplicate (ce_qso_id x) (it_message_text (ce_item x)) (ce_freq x) (pv_pivoted_once p)) \<or>
      (\<exists>y. subseq [x, y] (e # queued) \<and> entry_key y = entry_key x)"
    proof
      fix x assume "x \<in> set (e # queued)"
      then consider "x \<in> set ?as" | "x \<in> set drained" "\<not> backlog_admits sn x" | "x \<notin> set drained" by auto
      then show "ce_qso_id x = None \<or> sends msg x \<or> x \<in> set deferred \<or> reported_unsent rs x \<or>
          (\<exists>p. pivots = Some p \<and> is_pivot_duplicate (ce_qso_id x) (it_message_text (ce_item x)) (ce_freq x) (pv_pivoted_once p)) \<or>
          (\<exists>y. subseq [x, y] (e # queued) \<and> entry_key y = entry_key x)"
      proof cases
        case 1
        with def(3) more [of x] behind [of x] show ?thesis unfolding r(1) by blast
      next
        case 2
        then show ?thesis using denied by blast
      next
        case 3
        then show ?thesis using c(2) \<open>x \<in> set (e # queued)\<close> by blast
      qed
    qed
  qed
qed

section \<open>Concrete backlogs\<close>

definition demo_remote :: "string \<Rightarrow> rat \<Rightarrow> string option \<Rightarrow> coalesce_entry" where
  "demo_remote i f client =
     demo_entry (Some i) f None \<lparr> ce_item := ce_item (demo_entry (Some i) f None) \<lparr> it_origin := Remote_Origin, it_client := client \<rparr> \<rparr>"

definition demo_backlog_arm :: arm_snapshot where
  "demo_backlog_arm = \<lparr> as_station_agent_permitted = True, as_wsjtx_permitted = True, as_armed_client_key_id = Some ''phone'',
     as_operator_callsign = None, as_decided_at_unix_ms = 0 \<rparr>"

definition demo_drain :: "coalesce_entry \<Rightarrow> tx_message list \<Rightarrow> string set \<Rightarrow> tx_message \<times> tx_inbox \<times> bool \<times> unit backlog_report list" where
  "demo_drain e queue active =
     (case coalesce_backlog_into (Transmit_Request e) \<lparr> ib_front = [], ib_channel = queue \<rparr> (Some active) None 2 demo_backlog_arm None of
        (m, ib, pivots, rs) \<Rightarrow> (m, ib, Option.is_none pivots, rs))"

lemma demo_drain_run:
  "demo_drain e queue active = (m, ib, True, rs) \<Longrightarrow>
     coalesce_backlog_into (Transmit_Request e) \<lparr> ib_front = [], ib_channel = queue \<rparr> (Some active) None 2 demo_backlog_arm None = (m, ib, None, rs)"
  by (auto simp: demo_drain_def Option.is_none_def split: prod.splits)

text \<open>A request of the phone, one of the companion program, and a tune request: the first is sent, the second waits its turn.\<close>

lemma demo_backlog:
  "demo_drain (demo_remote ''A'' 500 (Some ''phone''))
     [Transmit_Request (demo_remote ''B'' 800 None), Other_Tx_Message ''TuneRequest''] {''A'', ''B''} =
   (Transmit_Request (demo_remote ''A'' 500 (Some ''phone'')),
    \<lparr> ib_front = [Transmit_Request (demo_remote ''B'' 800 None), Other_Tx_Message ''TuneRequest''], ib_channel = [] \<rparr>, True, [])"
  by code_simp

lemma backlog_loses_no_contact_witness:
  "\<exists>queued deferred rest.
     [Transmit_Request (demo_remote ''B'' 800 None), Other_Tx_Message ''TuneRequest''] = map Transmit_Request queued @ rest \<and>
     [Transmit_Request (demo_remote ''B'' 800 None), Other_Tx_Message ''TuneRequest''] = map Transmit_Request deferred @ rest"
  using backlog_loses_no_contact [OF demo_drain_run [OF demo_backlog]]
  by (simp only: unhandled_def tx_inbox.simps append_Nil append_Nil2) blast

text \<open>A request without a contact that is too close to a stream of the bundle is neither sent, requeued nor reported; nothing else asks
  for it again.\<close>

lemma manual_request_can_vanish:
  "demo_drain (demo_entry None 1050 None) [Transmit_Request (demo_entry (Some ''A'') 1000 None)] {''A''} =
   (Transmit_Request (demo_entry (Some ''A'') 1000 None), \<lparr> ib_front = [], ib_channel = [] \<rparr>, True, [])"
  by code_simp

end
