(* ===== verification/Tx_Wait.thy ===== *)
theory Tx_Wait
  imports Tx_Backlog
begin

text \<open>
  The wait of the transmit worker while a frame is on the air (\<open>coordinator/tx.rs\<close>): at every poll it looks at shutdown, the
  operator's abort and the arm gate of a remote frame, then reads its inbox dry and decides for each message whether it ends the
  frame, is a repetition of what is on the air, or has to wait.
\<close>

section \<open>Requests that arrive during a frame\<close>

datatype incoming_during_tx =
    Drop_Incoming
  | Requeue_Incoming
  | Supersede string rat "string option" "slot_parity option"

definition find_in_flight :: "tx_item list \<Rightarrow> string option \<Rightarrow> tx_item option" where
  "find_in_flight in_flight qso_id =
     (case map_option active_tx_qso_key qso_id of
        None \<Rightarrow> None
      | Some key \<Rightarrow> find (\<lambda>it. map_option active_tx_qso_key (it_qso_id it) = Some key) in_flight)"

abbreviation same_frame :: "tx_item \<Rightarrow> tx_item \<Rightarrow> bool" where
  "same_frame a b \<equiv> it_message_text a = it_message_text b \<and> it_frequency_offset a = it_frequency_offset b"

fun classify_incoming_during_tx ::
    "tx_message \<Rightarrow> tx_item list \<Rightarrow> (string \<rightharpoonup> string \<times> rat) \<Rightarrow> tx_origin \<times> string option \<Rightarrow> incoming_during_tx" where
  "classify_incoming_during_tx (Transmit_Request e) in_flight pivoted_once authority =
     (let it = ce_item e;
          authorization_differs = (identity_of it \<noteq> authority);
          supersede = Supersede (it_message_text it) (it_frequency_offset it) (it_qso_id it) (ce_tx_parity e)
      in if is_pivot_duplicate (it_qso_id it) (it_message_text it) (it_frequency_offset it) pivoted_once \<and> \<not> authorization_differs \<and>
            \<not> (case find_in_flight in_flight (it_qso_id it) of Some f \<Rightarrow> identity_of f \<noteq> identity_of it | None \<Rightarrow> False)
         then Drop_Incoming
         else if it_qso_id it = None then
           (if list_ex (\<lambda>f. it_qso_id f = None \<and> same_frame f it \<and> identity_of f = identity_of it) in_flight \<and> \<not> authorization_differs
            then Drop_Incoming else supersede)
         else (case find_in_flight in_flight (it_qso_id it) of
                 Some f \<Rightarrow>
                   if same_frame f it \<and> \<not> authorization_differs \<and> identity_of f = identity_of it then Drop_Incoming else supersede
               | None \<Rightarrow> Requeue_Incoming))"
| "classify_incoming_during_tx (Multi_Transmit items parity origin client) in_flight pivoted_once authority =
     (if list_ex (\<lambda>it. case find_in_flight in_flight (it_qso_id it) of
           Some f \<Rightarrow> \<not> same_frame f it \<or> (origin, client) \<noteq> authority \<or> identity_of f \<noteq> identity_of it
         | None \<Rightarrow> False) items
      then Supersede [] 0 None None else Requeue_Incoming)"
| "classify_incoming_during_tx (Other_Tx_Message m) in_flight pivoted_once authority = Drop_Incoming"

definition already_sent :: "tx_item list \<Rightarrow> tx_item \<Rightarrow> bool" where
  "already_sent in_flight it =
     list_ex (\<lambda>f. map_option active_tx_qso_key (it_qso_id f) = map_option active_tx_qso_key (it_qso_id it) \<and>
       same_frame f it \<and> identity_of f = identity_of it) in_flight"

fun strip_already_sent_items :: "tx_item list \<Rightarrow> tx_message \<Rightarrow> tx_message option" where
  "strip_already_sent_items in_flight (Multi_Transmit items parity origin client) =
     (let filtered = filter (\<lambda>it. \<not> already_sent in_flight it) items
      in if filtered = [] then None else Some (Multi_Transmit filtered parity origin client))"
| "strip_already_sent_items in_flight m = Some m"

section \<open>The wait\<close>

text \<open>One reading of the surroundings, per turn of the poll: what came into the channel before it, the flags, the arm gate of the
  frame's client, and the clock in milliseconds where a new poll starts.\<close>

record observation =
  ob_arrivals :: "tx_message list"
  ob_shutdown :: bool
  ob_abort :: bool
  ob_permitted :: bool
  ob_now :: int

text \<open>The frame on the air: its items, the pivots, and the client of a remote frame (\<open>None\<close>: a local one, which no gate stops).\<close>

record frame_on_air =
  fa_items :: "tx_item list"
  fa_pivoted_once :: "string \<rightharpoonup> string \<times> rat"
  fa_remote :: "string option option"

definition fa_authority :: "frame_on_air \<Rightarrow> tx_origin \<times> string option" where
  "fa_authority fa = (case fa_remote fa of Some client \<Rightarrow> (Remote_Origin, client) | None \<Rightarrow> (Local_Origin, None))"

datatype sleep_outcome = Completed | Aborted_By_Shutdown | Aborted_By_Operator | Aborted_By_Disarm | Superseded tx_message

definition arrive :: "observation \<Rightarrow> tx_inbox \<Rightarrow> tx_inbox" where
  "arrive ob ib = ib \<lparr> ib_channel := ib_channel ib @ ob_arrivals ob \<rparr>"

definition stopped_by :: "frame_on_air \<Rightarrow> observation \<Rightarrow> sleep_outcome option" where
  "stopped_by fa ob =
     (if ob_shutdown ob then Some Aborted_By_Shutdown
      else if ob_abort ob then Some Aborted_By_Operator
      else if fa_remote fa \<noteq> None \<and> \<not> ob_permitted ob then Some Aborted_By_Disarm
      else None)"

text \<open>What becomes of a message that was read: \<open>Inl\<close>, it ends the frame; \<open>Inr\<close>, what is put aside of it.\<close>

definition siphon :: "frame_on_air \<Rightarrow> tx_message \<Rightarrow> unit + tx_message option" where
  "siphon fa m =
     (case m of
        Other_Tx_Message _ \<Rightarrow> Inr (Some m)
      | _ \<Rightarrow> (case classify_incoming_during_tx m (fa_items fa) (fa_pivoted_once fa) (fa_authority fa) of
                Drop_Incoming \<Rightarrow> Inr None
              | Requeue_Incoming \<Rightarrow> Inr (strip_already_sent_items (fa_items fa) m)
              | Supersede _ _ _ _ \<Rightarrow> Inl ()))"

datatype once_end = Once_Ended sleep_outcome | Once_Idle | Once_Running

fun check_once :: "frame_on_air \<Rightarrow> observation list \<Rightarrow> tx_inbox \<Rightarrow> tx_message list \<Rightarrow>
    once_end \<times> observation list \<times> tx_inbox \<times> tx_message list" where
  "check_once fa [] ib siphoned = (Once_Running, [], ib, siphoned)"
| "check_once fa (ob # obs) ib siphoned =
     (let ib = arrive ob ib
      in case stopped_by fa ob of
           Some outcome \<Rightarrow> (Once_Ended outcome, obs, ib, siphoned)
         | None \<Rightarrow>
             (case try_recv ib of
                (None, ib) \<Rightarrow> (Once_Idle, obs, ib, siphoned)
              | (Some m, ib) \<Rightarrow>
                  (case siphon fa m of
                     Inl _ \<Rightarrow> (Once_Ended (Superseded m), obs, ib, siphoned)
                   | Inr None \<Rightarrow> check_once fa obs ib siphoned
                   | Inr (Some m') \<Rightarrow> check_once fa obs ib (siphoned @ [m']))))"

lemma check_once_shorter:
  "check_once fa obs ib s = (e, obs', ib', s') \<Longrightarrow> length obs' \<le> length obs \<and> (obs \<noteq> [] \<longrightarrow> length obs' < length obs)"
  by (induction fa obs ib s rule: check_once.induct)
    (fastforce simp: Let_def split: option.splits prod.splits sum.splits)+

function wait_polls :: "frame_on_air \<Rightarrow> int \<Rightarrow> observation list \<Rightarrow> tx_inbox \<Rightarrow> tx_message list \<Rightarrow>
    sleep_outcome option \<times> observation list \<times> tx_inbox \<times> tx_message list" where
  "wait_polls fa deadline [] ib siphoned = (None, [], ib, siphoned)"
| "wait_polls fa deadline (ob # obs) ib siphoned =
     (if deadline \<le> ob_now ob then (Some Completed, ob # obs, ib, siphoned)
      else case check_once fa (ob # obs) ib siphoned of
             (Once_Ended outcome, obs', ib', s) \<Rightarrow> (Some outcome, obs', ib', s)
           | (Once_Idle, obs', ib', s) \<Rightarrow> wait_polls fa deadline obs' ib' s
           | (Once_Running, obs', ib', s) \<Rightarrow> (None, obs', ib', s))"
  by pat_completeness auto

termination
  by (relation "measure (\<lambda>(fa, d, obs, ib, s). length obs)") (auto simp del: check_once.simps dest!: check_once_shorter [OF sym])

text \<open>\<open>None\<close>: the observations ran out while the frame is still on the air. \<open>started\<close> is the clock after the first poll.\<close>

definition interruptible_sleep_or_supersede_with_clock ::
    "frame_on_air \<Rightarrow> int \<Rightarrow> int \<Rightarrow> observation list \<Rightarrow> tx_inbox \<Rightarrow> sleep_outcome option \<times> observation list \<times> tx_inbox" where
  "interruptible_sleep_or_supersede_with_clock fa duration started obs ib =
     (case (case check_once fa obs ib [] of
              (Once_Ended outcome, obs', ib', s) \<Rightarrow> (Some outcome, obs', ib', s)
            | (Once_Idle, obs', ib', s) \<Rightarrow> wait_polls fa (started + duration) obs' ib' s
            | (Once_Running, obs', ib', s) \<Rightarrow> (None, obs', ib', s)) of
        (outcome, obs', ib', siphoned) \<Rightarrow> (outcome, obs', requeue_front siphoned ib'))"

definition sets_abort :: "sleep_outcome \<Rightarrow> bool" where
  "sets_abort outcome = (case outcome of Superseded _ \<Rightarrow> True | _ \<Rightarrow> False)"

section \<open>How a wait ends, and what it leaves\<close>

definition quiet :: "frame_on_air \<Rightarrow> observation list \<Rightarrow> bool" where
  "quiet fa obs = list_all (\<lambda>ob. stopped_by fa ob = None) obs"

definition patient :: "frame_on_air \<Rightarrow> tx_message list \<Rightarrow> bool" where
  "patient fa ms = list_all (\<lambda>m. siphon fa m \<noteq> Inl ()) ms"

text \<open>What is put aside of the messages that were read.\<close>

definition put_aside :: "frame_on_air \<Rightarrow> tx_message list \<Rightarrow> tx_message list" where
  "put_aside fa = List.map_filter (\<lambda>m. case siphon fa m of Inr r \<Rightarrow> r | Inl _ \<Rightarrow> None)"

definition wait_ends_with :: "frame_on_air \<Rightarrow> observation list \<Rightarrow> tx_message list \<Rightarrow> sleep_outcome \<Rightarrow> bool" where
  "wait_ends_with fa used read outcome =
     (case outcome of
        Completed \<Rightarrow> quiet fa used \<and> patient fa read
      | Superseded m \<Rightarrow> quiet fa used \<and> (\<exists>r. read = r @ [m] \<and> patient fa r \<and> siphon fa m = Inl ())
      | _ \<Rightarrow> (\<exists>u ob. used = u @ [ob] \<and> quiet fa u \<and> stopped_by fa ob = Some outcome) \<and> patient fa read)"

lemma quiet_simps [simp]: "quiet fa []" "quiet fa (ob # obs) \<longleftrightarrow> stopped_by fa ob = None \<and> quiet fa obs"
    "quiet fa (a @ b) \<longleftrightarrow> quiet fa a \<and> quiet fa b"
  by (auto simp: quiet_def)

lemma patient_simps [simp]: "patient fa []" "patient fa (m # ms) \<longleftrightarrow> siphon fa m \<noteq> Inl () \<and> patient fa ms"
    "patient fa (a @ b) \<longleftrightarrow> patient fa a \<and> patient fa b"
  by (auto simp: patient_def)

lemma put_aside_simps [simp]: "put_aside fa [] = []" "siphon fa m = Inl u \<Longrightarrow> put_aside fa (m # ms) = put_aside fa ms"
    "siphon fa m = Inr None \<Longrightarrow> put_aside fa (m # ms) = put_aside fa ms"
    "siphon fa m = Inr (Some m') \<Longrightarrow> put_aside fa (m # ms) = m' # put_aside fa ms"
  by (auto simp: put_aside_def map_filter_simps)

lemma put_aside_append [simp]: "put_aside fa (a @ b) = put_aside fa a @ put_aside fa b"
  by (induction a) (auto simp: put_aside_def map_filter_simps split: option.splits sum.splits)

lemma ends_after:
  "quiet fa u \<Longrightarrow> patient fa r \<Longrightarrow> wait_ends_with fa used read outcome \<Longrightarrow> wait_ends_with fa (u @ used) (r @ read) outcome"
  by (auto simp: wait_ends_with_def split: sleep_outcome.splits)

text \<open>A turn of the poll, as a relation over what it consumed.\<close>

definition polled ::
    "frame_on_air \<Rightarrow> observation list \<Rightarrow> tx_inbox \<Rightarrow> tx_message list \<Rightarrow> observation list \<Rightarrow> tx_inbox \<Rightarrow> tx_message list \<Rightarrow>
     observation list \<Rightarrow> tx_message list \<Rightarrow> bool" where
  "polled fa obs ib s obs' ib' s' used read \<longleftrightarrow>
     obs = used @ obs' \<and> unhandled ib @ concat (map ob_arrivals used) = read @ unhandled ib' \<and> s' = s @ put_aside fa read"

lemma polled_trans:
  "polled fa obs ib s obs1 ib1 s1 u1 r1 \<Longrightarrow> polled fa obs1 ib1 s1 obs2 ib2 s2 u2 r2 \<Longrightarrow>
     polled fa obs ib s obs2 ib2 s2 (u1 @ u2) (r1 @ r2)"
  unfolding polled_def by (elim conjE) (simp, metis append_assoc)

lemma unhandled_arrive: "unhandled (arrive ob ib) = unhandled ib @ ob_arrivals ob"
  by (simp add: unhandled_def arrive_def)

lemma check_once_spec:
  "check_once fa obs ib s = (e, obs', ib', s') \<Longrightarrow>
     \<exists>used read. polled fa obs ib s obs' ib' s' used read \<and>
       (case e of Once_Ended outcome \<Rightarrow> wait_ends_with fa used read outcome \<and> outcome \<noteq> Completed | _ \<Rightarrow> quiet fa used \<and> patient fa read)"
proof (induction obs arbitrary: ib s)
  case Nil
  then show ?case by (intro exI [of _ "[]"]) (auto simp: polled_def)
next
  case (Cons ob obs)
  let ?ib = "arrive ob ib"
  have one: "polled fa (ob # obs) ib s obs ib1 (s @ put_aside fa r) [ob] r" if "unhandled ?ib = r @ unhandled ib1" for ib1 r
    using that by (simp add: polled_def unhandled_arrive)
  show ?case
  proof (cases "stopped_by fa ob")
    case (Some outcome)
    then have r: "e = Once_Ended outcome" "obs' = obs" "ib' = ?ib" "s' = s" using Cons.prems by (simp_all add: Let_def)
    have "wait_ends_with fa [ob] [] outcome \<and> outcome \<noteq> Completed"
      using Some by (auto simp: wait_ends_with_def stopped_by_def split: if_splits)
    then show ?thesis using one [of "[]" ?ib] r by (intro exI [of _ "[ob]"] exI [of _ "[]"]) simp
  next
    case None
    show ?thesis
    proof (cases "unhandled ?ib")
      case Nil
      then have r: "e = Once_Idle" "obs' = obs" "ib' = ?ib" "s' = s" using Cons.prems None by (simp_all add: Let_def unhandled_simps)
      then show ?thesis using one [of "[]" ?ib] None by (intro exI [of _ "[ob]"] exI [of _ "[]"]) simp
    next
      case (Cons m ms)
      then obtain ib1 where ib1: "try_recv ?ib = (Some m, ib1)" "unhandled ib1 = ms" by (rule try_recv_oldest)
      have first: "polled fa (ob # obs) ib s obs ib1 (s @ put_aside fa [m]) [ob] [m]" using one [of "[m]" ib1] Cons ib1 by simp
      show ?thesis
      proof (cases "siphon fa m")
        case (Inl u)
        then have r: "e = Once_Ended (Superseded m)" "obs' = obs" "ib' = ib1" "s' = s"
          using Cons.prems None ib1 by (simp_all add: Let_def)
        have "wait_ends_with fa [ob] [m] (Superseded m)" using Inl None by (simp add: wait_ends_with_def)
        then show ?thesis using first r Inl by (intro exI [of _ "[ob]"] exI [of _ "[m]"]) simp
      next
        case (Inr k)
        then have "check_once fa obs ib1 (s @ put_aside fa [m]) = (e, obs', ib', s')"
          using Cons.prems None ib1 by (cases k) (simp_all add: Let_def)
        from Cons.IH [OF this] obtain used read where ih: "polled fa obs ib1 (s @ put_aside fa [m]) obs' ib' s' used read"
          "case e of Once_Ended outcome \<Rightarrow> wait_ends_with fa used read outcome \<and> outcome \<noteq> Completed | _ \<Rightarrow> quiet fa used \<and> patient fa read"
          by (elim exE conjE)
        have "quiet fa [ob]" "patient fa [m]" using None Inr by simp_all
        then show ?thesis using polled_trans [OF first ih(1)] ih(2) ends_after [of fa "[ob]" "[m]" used read]
          by (intro exI [of _ "[ob] @ used"] exI [of _ "[m] @ read"]) (auto split: once_end.splits)
      qed
    qed
  qed
qed

lemma polled_refl: "polled fa obs ib s obs ib s [] []"
  by (simp add: polled_def)

lemma check_once_running: "check_once fa obs ib s = (Once_Running, obs', ib', s') \<Longrightarrow> obs' = []"
  by (induction fa obs ib s rule: check_once.induct) (auto simp: Let_def split: option.splits prod.splits sum.splits)

text \<open>How a whole wait went: a frame that is still on the air has seen everything quietly; one that is complete has reached the
  deadline.\<close>

definition waited :: "frame_on_air \<Rightarrow> int \<Rightarrow> observation list \<Rightarrow> observation list \<Rightarrow> tx_message list \<Rightarrow> sleep_outcome option \<Rightarrow> bool" where
  "waited fa deadline obs' used read outcome =
     (case outcome of
        None \<Rightarrow> quiet fa used \<and> patient fa read \<and> obs' = []
      | Some oc \<Rightarrow> wait_ends_with fa used read oc \<and> (oc = Completed \<longrightarrow> obs' \<noteq> [] \<and> deadline \<le> ob_now (hd obs')))"

lemma waited_after:
  "quiet fa u \<Longrightarrow> patient fa r \<Longrightarrow> waited fa d obs' used read outcome \<Longrightarrow> waited fa d obs' (u @ used) (r @ read) outcome"
  by (auto simp: waited_def split: option.splits dest: ends_after)

text \<open>One round of reading, whatever follows it.\<close>

lemma poll_and_wait:
  assumes c: "check_once fa obs ib s = (e, obs1, ib1, s1)"
    and idle: "e = Once_Idle \<Longrightarrow> \<exists>used read. polled fa obs1 ib1 s1 obs' ib' s' used read \<and> waited fa d obs' used read outcome"
    and r: "(case e of Once_Ended oc \<Rightarrow> (Some oc, obs1, ib1, s1) | Once_Idle \<Rightarrow> (outcome, obs', ib', s') | Once_Running \<Rightarrow> (None, obs1, ib1, s1)) =
      (outcome, obs', ib', s')"
  shows "\<exists>used read. polled fa obs ib s obs' ib' s' used read \<and> waited fa d obs' used read outcome"
proof -
  obtain u1 r1 where first: "polled fa obs ib s obs1 ib1 s1 u1 r1"
    "case e of Once_Ended oc \<Rightarrow> wait_ends_with fa u1 r1 oc \<and> oc \<noteq> Completed | _ \<Rightarrow> quiet fa u1 \<and> patient fa r1"
    using check_once_spec [OF c] by (elim exE conjE)
  show ?thesis
  proof (cases e)
    case (Once_Ended oc)
    then show ?thesis using first r by (intro exI [of _ u1] exI [of _ r1]) (auto simp: waited_def)
  next
    case Once_Running
    then show ?thesis using first r check_once_running c by (intro exI [of _ u1] exI [of _ r1]) (auto simp: waited_def)
  next
    case Once_Idle
    obtain used read where "polled fa obs1 ib1 s1 obs' ib' s' used read" "waited fa d obs' used read outcome"
      using idle [OF Once_Idle] by (elim exE conjE)
    then have "polled fa obs ib s obs' ib' s' (u1 @ used) (r1 @ read)" "waited fa d obs' (u1 @ used) (r1 @ read) outcome"
      using first Once_Idle polled_trans waited_after by (auto split: once_end.splits)
    then show ?thesis by (intro exI conjI)
  qed
qed

lemma wait_polls_spec:
  "wait_polls fa d obs ib s = (outcome, obs', ib', s') \<Longrightarrow>
     \<exists>used read. polled fa obs ib s obs' ib' s' used read \<and> waited fa d obs' used read outcome"
proof (induction fa d obs ib s rule: wait_polls.induct)
  case (1 fa d ib s)
  then show ?case by (intro exI [of _ "[]"]) (simp add: polled_def waited_def)
next
  case (2 fa d ob obs ib s)
  show ?case
  proof (cases "d \<le> ob_now ob")
    case True
    then show ?thesis using 2(2) polled_refl by (intro exI [of _ "[]"]) (auto simp: waited_def wait_ends_with_def)
  next
    case False
    obtain e obs1 ib1 s1 where c: "check_once fa (ob # obs) ib s = (e, obs1, ib1, s1)" by (metis prod_cases4)
    show ?thesis
    proof (rule poll_and_wait [OF c])
      assume "e = Once_Idle"
      then show "\<exists>used read. polled fa obs1 ib1 s1 obs' ib' s' used read \<and> waited fa d obs' used read outcome"
        using 2 False c by (simp del: check_once.simps)
    next
      show "(case e of Once_Ended oc \<Rightarrow> (Some oc, obs1, ib1, s1) | Once_Idle \<Rightarrow> (outcome, obs', ib', s') | Once_Running \<Rightarrow> (None, obs1, ib1, s1)) =
          (outcome, obs', ib', s')"
        using 2(2) False c by (cases e) (simp_all del: check_once.simps)
    qed
  qed
qed

lemma sleep_spec:
  assumes "interruptible_sleep_or_supersede_with_clock fa duration started obs ib = (outcome, obs', ib')"
  shows "\<exists>used read rest. obs = used @ obs' \<and> unhandled ib @ concat (map ob_arrivals used) = read @ rest \<and>
    unhandled ib' = put_aside fa read @ rest \<and> waited fa (started + duration) obs' used read outcome"
proof -
  obtain e obs1 ib1 s1 where c: "check_once fa obs ib [] = (e, obs1, ib1, s1)" by (metis prod_cases4)
  obtain oc ob2 ib2 s2 where w: "(case e of Once_Ended oc \<Rightarrow> (Some oc, obs1, ib1, s1)
      | Once_Idle \<Rightarrow> wait_polls fa (started + duration) obs1 ib1 s1 | Once_Running \<Rightarrow> (None, obs1, ib1, s1)) = (oc, ob2, ib2, s2)"
    by (metis prod_cases4)
  have r: "oc = outcome" "ob2 = obs'" "ib' = requeue_front s2 ib2"
    using assms w by (cases e; simp add: interruptible_sleep_or_supersede_with_clock_def c)+
  have "\<exists>used read. polled fa obs ib [] obs' ib2 s2 used read \<and> waited fa (started + duration) obs' used read outcome"
    by (rule poll_and_wait [OF c]) (use w r in \<open>cases e; auto dest: wait_polls_spec\<close>)+
  then obtain used read where "polled fa obs ib [] obs' ib2 s2 used read" "waited fa (started + duration) obs' used read outcome"
    by (elim exE conjE)
  then show ?thesis using r by (intro exI [of _ used] exI [of _ read] exI [of _ "unhandled ib2"]) (simp add: polled_def unhandled_simps)
qed

section \<open>What ends a frame, what is dropped, what has to wait\<close>

text \<open>A request that asks for nothing new: under the authority of the frame, the frame on the air for its contact, or for no contact,
  already is the one it asks for, or was swapped in for it.\<close>

fun repeats :: "frame_on_air \<Rightarrow> tx_message \<Rightarrow> bool" where
  "repeats fa (Transmit_Request e) \<longleftrightarrow>
     identity_of (ce_item e) = fa_authority fa \<and>
     (if ce_qso_id e = None
      then \<exists>f \<in> set (fa_items fa). it_qso_id f = None \<and> same_frame f (ce_item e) \<and> identity_of f = identity_of (ce_item e)
      else let swapped_in = is_pivot_duplicate (ce_qso_id e) (it_message_text (ce_item e)) (ce_freq e) (fa_pivoted_once fa)
           in case find_in_flight (fa_items fa) (ce_qso_id e) of
                None \<Rightarrow> swapped_in
              | Some f \<Rightarrow> identity_of f = identity_of (ce_item e) \<and> (same_frame f (ce_item e) \<or> swapped_in))"
| "repeats fa (Multi_Transmit items parity origin client) \<longleftrightarrow> False"
| "repeats fa (Other_Tx_Message m) \<longleftrightarrow> False"

text \<open>A request that ends the frame: one without a contact, or one for a contact on the air, that asks for something new.\<close>

fun fresh_request :: "frame_on_air \<Rightarrow> tx_message \<Rightarrow> bool" where
  "fresh_request fa (Transmit_Request e) \<longleftrightarrow>
     \<not> repeats fa (Transmit_Request e) \<and> (ce_qso_id e = None \<or> find_in_flight (fa_items fa) (ce_qso_id e) \<noteq> None)"
| "fresh_request fa (Multi_Transmit items parity origin client) \<longleftrightarrow>
     (\<exists>it \<in> set items. \<exists>f. find_in_flight (fa_items fa) (it_qso_id it) = Some f \<and>
        \<not> (same_frame f it \<and> identity_of f = identity_of it \<and> (origin, client) = fa_authority fa))"
| "fresh_request fa (Other_Tx_Message m) \<longleftrightarrow> False"

lemma no_contact_in_flight: "find_in_flight fs None = None" "\<not> is_pivot_duplicate None t hz pv"
  by (simp_all add: find_in_flight_def is_pivot_duplicate_def)

lemma siphon_request:
  "siphon fa (Transmit_Request e) =
     (if fresh_request fa (Transmit_Request e) then Inl ()
      else Inr (if repeats fa (Transmit_Request e) then None else Some (Transmit_Request e)))"
proof (cases "ce_qso_id e")
  case None
  then show ?thesis by (auto simp: siphon_def Let_def no_contact_in_flight list_ex_iff)
next
  case (Some i)
  then show ?thesis
    by (cases "find_in_flight (fa_items fa) (Some i)") (auto simp: siphon_def Let_def)
qed

lemma siphon_bundle:
  "siphon fa (Multi_Transmit items parity origin client) =
     (if fresh_request fa (Multi_Transmit items parity origin client) then Inl ()
      else Inr (strip_already_sent_items (fa_items fa) (Multi_Transmit items parity origin client)))"
proof -
  have "list_ex (\<lambda>it. case find_in_flight (fa_items fa) (it_qso_id it) of
        Some f \<Rightarrow> \<not> same_frame f it \<or> (origin, client) \<noteq> fa_authority fa \<or> identity_of f \<noteq> identity_of it | None \<Rightarrow> False) items =
      fresh_request fa (Multi_Transmit items parity origin client)"
    by (auto simp: list_ex_iff split: option.splits)
  then show ?thesis by (simp add: siphon_def del: strip_already_sent_items.simps fresh_request.simps)
qed

lemma siphon_spec:
  "siphon fa m =
     (if fresh_request fa m then Inl () else Inr (if repeats fa m then None else strip_already_sent_items (fa_items fa) m))"
  by (cases m) (simp_all only: siphon_request siphon_bundle repeats.simps fresh_request.simps if_False strip_already_sent_items.simps(2,3),
      simp add: siphon_def)

text \<open>An observation that lets the frame go on.\<close>

definition permits_frame :: "frame_on_air \<Rightarrow> observation \<Rightarrow> bool" where
  "permits_frame fa ob \<longleftrightarrow> \<not> ob_shutdown ob \<and> \<not> ob_abort ob \<and> (fa_remote fa = None \<or> ob_permitted ob)"

lemma stopped_by_permits: "stopped_by fa ob = None \<longleftrightarrow> permits_frame fa ob"
  "stopped_by fa ob = Some Aborted_By_Shutdown \<longleftrightarrow> ob_shutdown ob"
  "stopped_by fa ob = Some Aborted_By_Operator \<longleftrightarrow> ob_abort ob \<and> \<not> ob_shutdown ob"
  "stopped_by fa ob = Some Aborted_By_Disarm \<longleftrightarrow> fa_remote fa \<noteq> None \<and> \<not> ob_permitted ob \<and> \<not> ob_abort ob \<and> \<not> ob_shutdown ob"
  by (auto simp: stopped_by_def permits_frame_def)

lemma ends_explicitly:
  assumes "waited fa deadline obs' used read outcome"
  obtains kept where "read = kept @ (case outcome of Some (Superseded m) \<Rightarrow> [m] | _ \<Rightarrow> [])" "patient fa kept"
    "put_aside fa read = put_aside fa kept"
    "case outcome of
       None \<Rightarrow> obs' = [] \<and> quiet fa used
     | Some Completed \<Rightarrow> obs' \<noteq> [] \<and> deadline \<le> ob_now (hd obs') \<and> quiet fa used
     | Some (Superseded m) \<Rightarrow> quiet fa used \<and> siphon fa m = Inl ()
     | Some stopped \<Rightarrow> \<exists>u ob. used = u @ [ob] \<and> quiet fa u \<and> stopped_by fa ob = Some stopped"
proof (cases "\<exists>m. outcome = Some (Superseded m)")
  case True
  then obtain m r where "outcome = Some (Superseded m)" "quiet fa used" "read = r @ [m]" "patient fa r" "siphon fa m = Inl ()"
    using assms by (auto simp: waited_def wait_ends_with_def)
  then show ?thesis by (intro that [of r]) simp_all
next
  case False
  show ?thesis
    by (rule that [of read]) (use False assms in \<open>auto simp: waited_def wait_ends_with_def split: option.splits sleep_outcome.splits\<close>)
qed

text \<open>C37: while a frame is on the air, the wait takes what surrounds it one observation after another, and its inbox in arrival order.
  It goes on, completes, or gives way to a newer request only if every observation it made permits the frame: no shutdown, no abort by
  the operator and, for a remote frame, an open arm gate. At the first observation that does not, it stops for that reason. It
  completes only when the clock has reached the deadline. It gives way only to the first request it reads that asks for something new
  without a contact or for a contact on the air, and hands that request over. Everything else it read is back at the front of the inbox
  in order, before what it did not read, except repetitions of what is on the air and the items of a bundle that were already sent.\<close>

theorem frames_stay_on_the_air_while_permitted:
  "case interruptible_sleep_or_supersede_with_clock fa duration started obs ib of (outcome, obs', ib') \<Rightarrow>
     \<exists>used kept rest. obs = used @ obs' \<and>
       unhandled ib @ concat (map ob_arrivals used) = kept @ (case outcome of Some (Superseded m) \<Rightarrow> [m] | _ \<Rightarrow> []) @ rest \<and>
       unhandled ib' =
         List.map_filter (\<lambda>m. if repeats fa m then None else strip_already_sent_items (fa_items fa) m) kept @ rest \<and>
       list_all (\<lambda>m. \<not> fresh_request fa m) kept \<and>
       (case outcome of
          None \<Rightarrow> obs' = [] \<and> list_all (permits_frame fa) used
        | Some Completed \<Rightarrow> obs' \<noteq> [] \<and> started + duration \<le> ob_now (hd obs') \<and> list_all (permits_frame fa) used
        | Some (Superseded m) \<Rightarrow> list_all (permits_frame fa) used \<and> fresh_request fa m
        | Some Aborted_By_Shutdown \<Rightarrow> \<exists>u ob. used = u @ [ob] \<and> list_all (permits_frame fa) u \<and> ob_shutdown ob
        | Some Aborted_By_Operator \<Rightarrow> \<exists>u ob. used = u @ [ob] \<and> list_all (permits_frame fa) u \<and> ob_abort ob \<and> \<not> ob_shutdown ob
        | Some Aborted_By_Disarm \<Rightarrow> \<exists>u ob. used = u @ [ob] \<and> list_all (permits_frame fa) u \<and>
            fa_remote fa \<noteq> None \<and> \<not> ob_permitted ob \<and> \<not> ob_abort ob \<and> \<not> ob_shutdown ob)"
proof -
  obtain outcome obs' ib' where r: "interruptible_sleep_or_supersede_with_clock fa duration started obs ib = (outcome, obs', ib')"
    by (metis prod_cases3)
  obtain used read rest where w: "obs = used @ obs'" "unhandled ib @ concat (map ob_arrivals used) = read @ rest"
    "unhandled ib' = put_aside fa read @ rest" "waited fa (started + duration) obs' used read outcome"
    using sleep_spec [OF r] by (elim exE conjE)
  obtain kept where k: "read = kept @ (case outcome of Some (Superseded m) \<Rightarrow> [m] | _ \<Rightarrow> [])" "patient fa kept"
    "put_aside fa read = put_aside fa kept" and
    e: "case outcome of
       None \<Rightarrow> obs' = [] \<and> quiet fa used
     | Some Completed \<Rightarrow> obs' \<noteq> [] \<and> started + duration \<le> ob_now (hd obs') \<and> quiet fa used
     | Some (Superseded m) \<Rightarrow> quiet fa used \<and> siphon fa m = Inl ()
     | Some stopped \<Rightarrow> \<exists>u ob. used = u @ [ob] \<and> quiet fa u \<and> stopped_by fa ob = Some stopped"
    by (rule ends_explicitly [OF w(4)])
  have waiting: "list_all (\<lambda>m. \<not> fresh_request fa m) kept" using k(2) by (auto simp: patient_def siphon_spec list_all_iff)
  then have "put_aside fa kept = List.map_filter (\<lambda>m. if repeats fa m then None else strip_already_sent_items (fa_items fa) m) kept"
    by (induction kept) (auto simp: put_aside_def map_filter_simps siphon_spec split: option.splits)
  moreover have "quiet fa u = list_all (permits_frame fa) u" for u by (simp add: quiet_def stopped_by_permits)
  moreover have "siphon fa m = Inl () \<longleftrightarrow> fresh_request fa m" for m by (simp add: siphon_spec)
  ultimately show ?thesis unfolding r prod.case using w(1) w(2) [unfolded k(1)] w(3) [unfolded k(3)] waiting e
    by (intro exI [of _ used] exI [of _ kept] exI [of _ rest] conjI) (simp_all only: append_assoc stopped_by_permits)
qed

text \<open>A remote frame whose client is disarmed while it is on the air; a tune request that came meanwhile is handled after it.\<close>

lemma disarm_stops_the_frame:
  "interruptible_sleep_or_supersede_with_clock \<lparr> fa_items = [], fa_pivoted_once = Map.empty, fa_remote = Some (Some ''K'') \<rparr> 12640 0
     [\<lparr> ob_arrivals = [Other_Tx_Message m], ob_shutdown = False, ob_abort = False, ob_permitted = True, ob_now = 0 \<rparr>,
      \<lparr> ob_arrivals = [], ob_shutdown = False, ob_abort = False, ob_permitted = True, ob_now = 0 \<rparr>,
      \<lparr> ob_arrivals = [], ob_shutdown = False, ob_abort = False, ob_permitted = False, ob_now = 50 \<rparr>]
     \<lparr> ib_front = [], ib_channel = [] \<rparr> =
   (Some Aborted_By_Disarm, [], \<lparr> ib_front = [Other_Tx_Message m], ib_channel = [] \<rparr>)"
  by (simp add: interruptible_sleep_or_supersede_with_clock_def Let_def arrive_def stopped_by_def try_recv_def siphon_def requeue_front_def)

end
