(* ===== verification/Spec2Isabelle.thy ===== *)
theory Spec2Isabelle
  imports Prelude Bits Machine Linear_Code Radix Crc14 Ldpc_Tables Ldpc Hash_Table Call_Field Exchange_Field Free_Text
    Message Message_Text Symbols Gridsquare Encoder Plausible Codec Reception Slot Policy Arm Callsign Qso_State Qso_Exchange Qso_Engine
    Wire Capability Control Relay_Session Station_Agent Station_Safety Station_Demo Station_Theorems Station_Handover
    Band Receive_Gain Swr_Guard Wsjtx_Codec Wsjtx_Udp Qso_Process Tx_Schedule Tx_Bundle Tx_Backlog Tx_Wait
begin

text \<open>
  A model of Pancetta, an FT8 amateur-radio station in Rust. The station turns messages into 77-bit payloads and
  then into channel symbols (\<open>pancetta-ft8\<close>), sends them in time slots (\<open>pancetta-core\<close>), parses what it hears,
  drives contacts with other stations (\<open>pancetta-qso\<close>), and can be keyed from afar only under an armed
  session (\<open>pancetta-agent\<close>).

  \<^bold>\<open>Shared theories.\<close> \<open>Prelude\<close> has the machine integers, the ASCII and string operations of the Rust standard library
  and number formatting, \<open>Bits\<close> the bit buffers, bit fields and the codec's error type (locale \<open>bit_store\<close>), \<open>Radix\<close>
  positional numerals (locale \<open>radix\<close>), \<open>Machine\<close> runs of an event machine and its invariants (locale
  \<open>event_machine\<close>), \<open>Linear_Code\<close> sums of bit vectors.

  \<^bold>\<open>The codec\<close>, \<open>pancetta-ft8/src\<close>.
  \<^item> \<open>Crc14\<close> (\<open>message.rs\<close>: \<open>calculate_crc14\<close>, \<open>verify_crc14\<close>): the byte-wise loop is polynomial division; odd and double errors are
    detected.
  \<^item> \<open>Ldpc_Tables\<close>, \<open>Ldpc\<close> (\<open>ldpc.rs\<close>): the generator and parity tables, the encoder, the syndrome, the Gray maps; encoding is
    systematic and satisfies every check, the two parity tables are one matrix, small errors are rejected.
  \<^item> \<open>Hash_Table\<close> (\<open>message.rs\<close>: \<open>HashTable\<close>, \<open>pack58\<close>, \<open>unpack58\<close>): the table of heard calls refines a directory in which a hash
    resolves exactly when one learned call has it (locale \<open>call_directory\<close>, interpreted for the 10-, 12- and
    22-bit hashes).
  \<^item> \<open>Call_Field\<close>, \<open>Exchange_Field\<close>, \<open>Free_Text\<close>: the fields of a payload, packing in \<open>encoder.rs\<close> against unpacking in
    \<open>message.rs\<close>, each with its round trip.
  \<^item> \<open>Message\<close> (\<open>message.rs\<close>: \<open>MessageParser\<close>): the parsed message and the parser of every payload type.
  \<^item> \<open>Symbols\<close> (\<open>encoder.rs\<close>, \<open>protocol.rs\<close>): payload to codeword to tones, for FT8 and FT4; both generators agree, and hard
    decisions on the tones give a codeword that checks and the payload.
  \<^item> \<open>Encoder\<close> (\<open>encoder.rs\<close>: \<open>Ft8Encoder\<close>): text to payload for standard, nonstandard-call, free-text, contest and DXpedition
    messages, and the entry points.
  \<^item> \<open>Codec\<close>: what a receiver reads from what a station sends, end to end from the text to the parsed message, for standard
    messages, CQs, nonstandard calls and DXpedition frames; the contest frames, which are read as other types.
  \<^item> \<open>Message_Text\<close>, \<open>Plausible\<close> (\<open>message.rs\<close>): the displayed text of a message, \<open>from_text\<close>, and the acceptance filter of decodes.
  \<^item> \<open>Reception\<close>: a decode is displayed as the text that was sent and is accepted; whatever is accepted is well formed.

  \<^bold>\<open>The station core\<close>, \<open>pancetta-core/src\<close>.
  \<^item> \<open>Gridsquare\<close> (\<open>gridsquare.rs\<close>): locators are well formed however they are built.
  \<^item> \<open>Slot\<close> (\<open>slot.rs\<close>, \<open>slot_clock.rs\<close>): slot and phase deadlines are the earliest admissible ones, clock steps are classified.
  \<^item> \<open>Policy\<close> (\<open>tx_policy.rs\<close>, \<open>tx_freq_mode.rs\<close>, \<open>response_step.rs\<close>): the operator's transmit switches.
  \<^item> \<open>Callsign\<close> (\<open>callsign.rs\<close>): matching of calls is equality of an identity.

  \<^bold>\<open>Remote transmission\<close>, \<open>pancetta-agent/src\<close> and \<open>pancetta/src/coordinator\<close>. A phone or browser reaches the station through a relay that
  neither side trusts; it proves its identity key in a Noise handshake, says hello with a capability token, and arms the
  transmitter with a grant it signed.
  \<^item> \<open>Arm\<close> (\<open>arm.rs\<close>): the armed-session state machine with every event and the gate; in every history transmission needs a
    live, consented, kept-alive grant.
  \<^item> \<open>Wire\<close>: results, bytes, JSON values and the record \<open>wire_lib\<close> of the libraries the agent calls (base64, JSON, SHA-256, Ed25519).
  \<^item> \<open>Capability\<close> (\<open>capability.rs\<close>): tokens and grants, every check in order; acceptance is characterised exactly, tokens are bounded
    in time, grants are single use, and signatures under different tags never coincide.
  \<^item> \<open>Control\<close> (\<open>control.rs\<close>): the frames a client sends and the actions they become.
  \<^item> \<open>Relay_Session\<close> (\<open>relay.rs\<close>, \<open>noise.rs\<close>, \<open>keys.rs\<close>, \<open>peer_identity.rs\<close>, \<open>multi_session.rs\<close>): up to eight peers over one socket, each
    established only by its own proven identity; the socket, Noise and the serialisers are the record \<open>relay_lib\<close>.
  \<^item> \<open>Station_Agent\<close> (\<open>coordinator/station_agent/mod.rs\<close>, \<open>coordinator/tx.rs\<close>): the context shared by the peers, dispatch of actions, control of
    the station, arming with the re-check under the lock, refresh of authorisations by the polling task, eviction, expiry, a turn
    of the session loop, and the gate the transmitter consults.
  \<^item> \<open>Station_Safety\<close>: the agent as a machine whose events are session starts and turns, refresh steps of the other tasks, operator
    switches, poisoned locks, task ends and recovery; the invariant of its context and session (locale \<open>event_machine\<close>).
  \<^item> \<open>Station_Demo\<close>: one station run from handshake to armed, the witness of the properties.
  \<^item> \<open>Station_Theorems\<close>: who may key, what a peer can make the rig and the engine do, who is sent frames, what the loss of an
    authorisation entails.
  \<^item> \<open>Station_Handover\<close>: control changing hands, seen from the messages to the QSO engine (locale \<open>watched_machine\<close>).

  \<^bold>\<open>Companion programs\<close>, \<open>pancetta/src/coordinator/wsjtx_udp\<close>. Loggers and maps on the same network follow the station over UDP and may ask
  it to call a station.
  \<^item> \<open>Wsjtx_Codec\<close> (\<open>codec.rs\<close>): writer and reader of every field with the lossy UTF-8 decoding of the standard library, the messages of both
    directions (locale \<open>field_codec\<close>, interpreted for each field type); what is sent is read back, and a datagram
    determines its message.
  \<^item> \<open>Wsjtx_Udp\<close> (\<open>mod.rs\<close>): status, decode ring, replay, halt and reply, and the task as a machine (locale \<open>traced_machine\<close>); a contact is
    requested only past every gate, a replay repeats what was told, and the status told last is current.

  \<^bold>\<open>Keying the radio\<close>, \<open>pancetta/src/coordinator\<close>.
  \<^item> \<open>Band\<close> (\<open>pancetta-core\<close> \<open>band.rs\<close>, \<open>pancetta-tui\<close> \<open>app.rs\<close>, \<open>coordinator/mod.rs\<close>, \<open>tx.rs\<close>): bands by region, changes of band, and the band-plan gate; what passes it lies in one
    range of the plan with its whole bandwidth.
  \<^item> \<open>Receive_Gain\<close> (\<open>receive_overload.rs\<close>): key-down and attenuator exclude each other over every interleaving of the atomic accesses; which
    windows count as received, when to attenuate, and the transaction with the radio.
  \<^item> \<open>Swr_Guard\<close> (\<open>swr_guard.rs\<close>, \<open>tx_halt.rs\<close>): high SWR halts the station on evidence, and always when it lasts.
  \<^item> \<open>Tx_Schedule\<close> (\<open>tx.rs\<close>): the slot of a request, the padding that aligns its audio, the windows in which requests are collected,
    and the wait for the instant to key on a wall clock that may be stepped; what is accepted is keyed in time.
  \<^item> \<open>Tx_Bundle\<close> (\<open>tx.rs\<close>, \<open>mod.rs\<close>): the coalescer, which makes one bundle of the queued requests, and pivots, which replace a
    frame by the newest one of its contact; a bundle can be keyed in one slot, every request is accounted for.
  \<^item> \<open>Tx_Backlog\<close> (\<open>tx.rs\<close>): the inbox of the transmit worker and the drain of its backlog; what is keyed has one
    authority, and no contact's request is lost silently.
  \<^item> \<open>Tx_Wait\<close> (\<open>tx.rs\<close>): the wait while a frame is on the air; it stops at once when it is no longer permitted, and keeps what arrives.
    A poll is a list of observations of the surroundings, arbitrary in the theorem, which also says what holds when it runs out.

  \<^bold>\<open>Contacts\<close>, \<open>pancetta-qso/src\<close>: \<open>Qso_State\<close> (\<open>states.rs\<close>), \<open>Qso_Exchange\<close> (\<open>exchange.rs\<close>) and \<open>Qso_Engine\<close> (\<open>qso_manager.rs\<close>) are
  the states of a contact, the texts and replies, and the transition function with sender verification and automatic replies; two
  stations complete a contact in five frames and log what they received, and only verified frames move a contact.
  \<open>Qso_Process\<close> (\<open>qso_manager.rs\<close>: \<open>process_message_for_qso\<close>) is what a frame does to its contact around the transition: the logged call is
  completed, the partner latched, and a Hound follows the Fox to the offset of its report; the partner and a finished contact stay,
  and the offset stays except for such a move.

  \<^bold>\<open>Conventions.\<close> Text is ASCII: \<open>to_uppercase\<close>, \<open>trim\<close> and \<open>split_whitespace\<close> are their ASCII parts, and a string is its list of
  bytes. A Rust \<open>Result\<close> is a sum with the error on the left; fixed-width integers are words, \<open>i64\<close> instants are
  integers with the wrap-around written out. Loops are recursive functions; those whose bound is not
  structural (\<open>cq_letters\<close>, \<open>looks_like_compound_callsign\<close>, \<open>pad_multiple_of_4\<close>) have a termination proof, and the slot search and the
  symbol generator, which can index out of range or run forever on other inputs, return \<open>None\<close> then and are proved to return. No
  fuel is used. What the agent reads of its surroundings in a turn (clock samples, iteration order of its maps, full inboxes, what the
  other tasks did meanwhile) is the record \<open>agent_env\<close>, arbitrary in every theorem; frequencies from JSON are rationals, converted
  as the code converts them; the audio offsets the transmit worker compares are rationals, those of a contact the bits of an \<open>f64\<close>, compared
  by the number they denote; the authorisation generation, a 64-bit counter, is a natural number.

  \<^bold>\<open>Not modelled.\<close> Demodulation, synchronisation and soft LDPC decoding (\<open>pancetta-ft8\<close> decoder, \<open>pancetta-dsp\<close>),
  which are floating-point signal processing; coordinates and distances of locators and wavelengths of bands; audio, radio control,
  user interface, configuration files, network services and the coordinator's other workers (the contact and radio
  tasks), which are input and output around the modelled core; of the transmit task, the loop that strings the modelled steps together, the
  re-keying after a supersession, PTT and audio messages and its log; of the companion protocol, sockets and the
  address parser; of the agent, start-up from configuration, key and audit files, pairing and
  reconnect timing; the regular-expression parser of incoming text in
  \<open>exchange.rs\<close>; the map of concurrent contacts, its timers and the offset hops of stuck contacts in \<open>qso_manager.rs\<close>; logging and contest scoring.
\<close>

end
